(* ===== verification/Prelude.thy ===== *)
theory Prelude
  imports Main "HOL-Library.Word"
begin

text \<open>
  Shared ground of the development: the result-and-state computations in which the
  operations are written, the meaning of the SQL statement forms the sources use,
  Python strings and their integer conversions, JSON values, and the generic lemmas
  the component theories share.

  \<^item> \<open>op\<close>: a computation that threads a state and either returns a value (\<open>Inr\<close>) or
    raises (\<open>Inl\<close>). The state survives a raise, as the rows already written in an open
    transaction do.
  \<^item> \<open>sql_*\<close>: \<open>UPDATE .. WHERE\<close>, \<open>DELETE .. WHERE\<close>, \<open>SELECT .. one row\<close> and
    \<open>INSERT .. ON CONFLICT (key) DO NOTHING\<close> on a table held as the list of its rows.
  \<^item> \<open>pystr\<close>: a Python \<open>str\<close> as its list of code points; \<open>lit\<close> embeds a literal.
  \<^item> \<open>json\<close>: JSON values; an object is its item list in insertion order.
\<close>

named_theorems op_simps \<open>unfolding of the computation combinators\<close>
named_theorems keeps_intros \<open>introduction rules for preserved predicates\<close>
named_theorems sql_simps \<open>equations of the SQL statement forms\<close>

section \<open>Computations with state and errors\<close>

type_synonym ('e, 's, 'a) op = "'s \<Rightarrow> ('e + 'a) \<times> 's"

definition ret :: "'a \<Rightarrow> ('e, 's, 'a) op" where
  "ret x = (\<lambda>s. (Inr x, s))"

definition raise :: "'e \<Rightarrow> ('e, 's, 'a) op" where
  "raise e = (\<lambda>s. (Inl e, s))"

definition bnd :: "('e, 's, 'a) op \<Rightarrow> ('a \<Rightarrow> ('e, 's, 'b) op) \<Rightarrow> ('e, 's, 'b) op" where
  "bnd m f = (\<lambda>s. case m s of (Inl e, s') \<Rightarrow> (Inl e, s') | (Inr x, s') \<Rightarrow> f x s')"

definition thn :: "('e, 's, unit) op \<Rightarrow> ('e, 's, 'b) op \<Rightarrow> ('e, 's, 'b) op" where
  "thn m k = bnd m (\<lambda>_. k)"

definition gets :: "('s \<Rightarrow> 'a) \<Rightarrow> ('e, 's, 'a) op" where
  "gets f = (\<lambda>s. (Inr (f s), s))"

definition modify :: "('s \<Rightarrow> 's) \<Rightarrow> ('e, 's, unit) op" where
  "modify f = (\<lambda>s. (Inr (), f s))"

definition lift :: "'e + 'a \<Rightarrow> ('e, 's, 'a) op" where
  "lift r = (\<lambda>s. (r, s))"

definition unless :: "bool \<Rightarrow> 'e \<Rightarrow> ('e, 's, unit) op" where
  "unless b e = (if b then ret () else raise e)"

fun for_each :: "('x \<Rightarrow> ('e, 's, unit) op) \<Rightarrow> 'x list \<Rightarrow> ('e, 's, unit) op" where
  "for_each f [] = ret ()"
| "for_each f (x # xs) = thn (f x) (for_each f xs)"

fun collect :: "('x \<Rightarrow> ('e, 's, 'a) op) \<Rightarrow> 'x list \<Rightarrow> ('e, 's, 'a list) op" where
  "collect f [] = ret []"
| "collect f (x # xs) = bnd (f x) (\<lambda>y. bnd (collect f xs) (\<lambda>ys. ret (y # ys)))"

text \<open>
  A caller that owns the transaction (\<open>async with session.begin()\<close>) commits when the
  body returns and rolls back when it raises.
\<close>

definition run_tx :: "('e, 's, 'a) op \<Rightarrow> ('e, 's, 'a) op" where
  "run_tx m = (\<lambda>s. case m s of (Inl e, _) \<Rightarrow> (Inl e, s) | (Inr x, s') \<Rightarrow> (Inr x, s'))"

lemmas [op_simps] = ret_def raise_def thn_def gets_def modify_def lift_def

lemma bnd_ret [simp]: "bnd (ret x) f = f x"
  by (simp add: bnd_def ret_def)

lemma bnd_raise [simp]: "bnd (raise e) f = raise e"
  by (simp add: bnd_def raise_def)

lemma bnd_gets [simp]: "bnd (gets g) f s = f (g s) s"
  by (simp add: bnd_def gets_def)

lemma bnd_modify [simp]: "bnd (modify g) f s = f () (g s)"
  by (simp add: bnd_def modify_def)

lemma thn_modify [simp]: "thn (modify g) k s = k (g s)"
  by (simp add: thn_def)

lemma bnd_lift [simp]:
  "bnd (lift r) f s = (case r of Inl e \<Rightarrow> (Inl e, s) | Inr x \<Rightarrow> f x s)"
  by (simp add: bnd_def lift_def split: sum.splits)

lemma unless_True [simp]: "unless True e = ret ()"
  by (simp add: unless_def)

lemma unless_False [simp]: "unless False e = raise e"
  by (simp add: unless_def)

lemma thn_ret [simp]: "thn (ret ()) k = k"
  by (simp add: thn_def)

lemma thn_raise [simp]: "thn (raise e) k = raise e"
  by (simp add: thn_def)

lemma bnd_assoc: "bnd (bnd m f) g = bnd m (\<lambda>x. bnd (f x) g)"
  by (auto simp: bnd_def split: sum.splits prod.splits)

lemma bnd_Inr_iff:
  "bnd m f s = (Inr y, s') \<longleftrightarrow> (\<exists>x t. m s = (Inr x, t) \<and> f x t = (Inr y, s'))"
  by (auto simp: bnd_def split: sum.splits prod.splits)

lemma bnd_Inl_iff:
  "bnd m f s = (Inl e, s') \<longleftrightarrow>
     m s = (Inl e, s') \<or> (\<exists>x t. m s = (Inr x, t) \<and> f x t = (Inl e, s'))"
  by (auto simp: bnd_def split: sum.splits prod.splits)

lemma bnd_eval: "m s = (Inr x, s') \<Longrightarrow> bnd m f s = f x s'"
  by (simp add: bnd_def)

lemma bnd_fail: "m s = (Inl e, s') \<Longrightarrow> bnd m f s = (Inl e, s')"
  by (simp add: bnd_def)

lemma thn_eval: "m s = (Inr u, s') \<Longrightarrow> thn m k s = k s'"
  by (simp add: thn_def bnd_def)

lemma thn_fail: "m s = (Inl e, s') \<Longrightarrow> thn m k s = (Inl e, s')"
  by (simp add: thn_def bnd_def)

lemma thn_Inr_iff:
  "thn m k s = (Inr y, s') \<longleftrightarrow> (\<exists>t. m s = (Inr (), t) \<and> k t = (Inr y, s'))"
  by (simp add: thn_def bnd_Inr_iff)

lemma ret_iff [simp]: "ret x s = (r, s') \<longleftrightarrow> r = Inr x \<and> s' = s"
  by (auto simp: ret_def)

lemma raise_iff [simp]: "raise e s = (r, s') \<longleftrightarrow> r = Inl e \<and> s' = s"
  by (auto simp: raise_def)

lemma unless_Inr_iff [simp]: "unless b e s = (Inr u, s') \<longleftrightarrow> b \<and> s' = s"
  by (auto simp: unless_def)

lemma run_tx_error_unchanged: "run_tx m s = (Inl e, s') \<Longrightarrow> s' = s"
  by (auto simp: run_tx_def split: sum.splits prod.splits)

lemma run_tx_Inr_iff [simp]: "run_tx m s = (Inr x, s') \<longleftrightarrow> m s = (Inr x, s')"
  by (auto simp: run_tx_def split: sum.splits prod.splits)

subsection \<open>Predicates kept by a computation\<close>

definition keeps :: "('s \<Rightarrow> bool) \<Rightarrow> ('e, 's, 'a) op \<Rightarrow> bool" where
  "keeps P m \<longleftrightarrow> (\<forall>s. P s \<longrightarrow> P (snd (m s)))"

lemma keepsI: "(\<And>s. P s \<Longrightarrow> P (snd (m s))) \<Longrightarrow> keeps P m"
  by (simp add: keeps_def)

lemma keepsD: "keeps P m \<Longrightarrow> m s = (r, s') \<Longrightarrow> P s \<Longrightarrow> P s'"
  by (metis keeps_def snd_conv)

lemma keeps_ret [keeps_intros]: "keeps P (ret x)"
  by (simp add: keeps_def ret_def)

lemma keeps_raise [keeps_intros]: "keeps P (raise e)"
  by (simp add: keeps_def raise_def)

lemma keeps_gets [keeps_intros]: "keeps P (gets f)"
  by (simp add: keeps_def gets_def)

lemma keeps_lift [keeps_intros]: "keeps P (lift r)"
  by (simp add: keeps_def lift_def)

lemma keeps_unless [keeps_intros]: "keeps P (unless b e)"
  by (simp add: unless_def keeps_ret keeps_raise)

lemma keeps_modify [keeps_intros]: "(\<And>s. P s \<Longrightarrow> P (f s)) \<Longrightarrow> keeps P (modify f)"
  by (simp add: keeps_def modify_def)

lemma keeps_bnd [keeps_intros]:
  "keeps P m \<Longrightarrow> (\<And>x. keeps P (f x)) \<Longrightarrow> keeps P (bnd m f)"
  by (force simp: keeps_def bnd_def split: sum.splits prod.splits)

lemma keeps_thn [keeps_intros]: "keeps P m \<Longrightarrow> keeps P k \<Longrightarrow> keeps P (thn m k)"
  by (simp add: thn_def keeps_bnd)

lemma keeps_for_each [keeps_intros]:
  "(\<And>x. x \<in> set xs \<Longrightarrow> keeps P (f x)) \<Longrightarrow> keeps P (for_each f xs)"
  by (induction xs) (auto intro: keeps_intros)

lemma keeps_collect [keeps_intros]:
  "(\<And>x. x \<in> set xs \<Longrightarrow> keeps P (f x)) \<Longrightarrow> keeps P (collect f xs)"
  by (induction xs) (auto intro: keeps_intros)

lemma keeps_run_tx [keeps_intros]: "keeps P m \<Longrightarrow> keeps P (run_tx m)"
  by (force simp: keeps_def run_tx_def split: sum.splits prod.splits)

lemma keeps_if [keeps_intros]: "keeps P m \<Longrightarrow> keeps P n \<Longrightarrow> keeps P (if b then m else n)"
  by simp

lemma keeps_case_option [keeps_intros]:
  "keeps P m \<Longrightarrow> (\<And>x. keeps P (f x)) \<Longrightarrow> keeps P (case v of None \<Rightarrow> m | Some x \<Rightarrow> f x)"
  by (cases v) auto

subsection \<open>Specifications of computations\<close>

text \<open>
  \<open>spec P m Q E\<close>: from a state with \<open>P\<close>, a return value \<open>x\<close> comes with \<open>Q x\<close> of the new
  state, and a raise with \<open>E\<close>.
\<close>

definition spec ::
  "('s \<Rightarrow> bool) \<Rightarrow> ('e, 's, 'a) op \<Rightarrow> ('a \<Rightarrow> 's \<Rightarrow> bool) \<Rightarrow> ('s \<Rightarrow> bool) \<Rightarrow> bool" where
  "spec P m Q E \<longleftrightarrow>
     (\<forall>s. P s \<longrightarrow> (case m s of (Inl _, s') \<Rightarrow> E s' | (Inr x, s') \<Rightarrow> Q x s'))"

named_theorems spec_intros \<open>rules for specifications of computations\<close>

lemma specI:
  assumes "\<And>s x s'. P s \<Longrightarrow> m s = (Inr x, s') \<Longrightarrow> Q x s'"
    and "\<And>s e s'. P s \<Longrightarrow> m s = (Inl e, s') \<Longrightarrow> E s'"
  shows "spec P m Q E"
  unfolding spec_def
proof (intro allI impI)
  fix s assume "P s"
  obtain r s' where m: "m s = (r, s')" by (cases "m s")
  with \<open>P s\<close> assms show "case m s of (Inl _, s') \<Rightarrow> E s' | (Inr x, s') \<Rightarrow> Q x s'"
    by (cases r) auto
qed

lemma spec_InrD: "spec P m Q E \<Longrightarrow> P s \<Longrightarrow> m s = (Inr x, s') \<Longrightarrow> Q x s'"
  unfolding spec_def by (drule HOL.spec [of _ s]) simp

lemma spec_InlD: "spec P m Q E \<Longrightarrow> P s \<Longrightarrow> m s = (Inl e, s') \<Longrightarrow> E s'"
  unfolding spec_def by (drule HOL.spec [of _ s]) simp

lemma spec_ret [spec_intros]: "(\<And>s. P s \<Longrightarrow> Q x s) \<Longrightarrow> spec P (ret x) Q E"
  by (simp add: spec_def ret_def)

lemma spec_raise [spec_intros]: "(\<And>s. P s \<Longrightarrow> E s) \<Longrightarrow> spec P (raise e) Q E"
  by (simp add: spec_def raise_def)

lemma spec_gets: "(\<And>s. P s \<Longrightarrow> Q (f s) s) \<Longrightarrow> spec P (gets f) Q E"
  by (simp add: spec_def gets_def)

lemma spec_modify: "(\<And>s. P s \<Longrightarrow> Q () (f s)) \<Longrightarrow> spec P (modify f) Q E"
  by (simp add: spec_def modify_def)

lemma spec_bnd:
  assumes "spec P m Q' E" and "\<And>x. spec (Q' x) (f x) Q E"
  shows "spec P (bnd m f) Q E"
proof (rule specI)
  fix s y s' assume "P s" and "bnd m f s = (Inr y, s')"
  then show "Q y s'"
    unfolding bnd_Inr_iff using assms by (meson spec_InrD)
next
  fix s e s' assume "P s" and "bnd m f s = (Inl e, s')"
  then show "E s'"
    unfolding bnd_Inl_iff using assms by (meson spec_InlD spec_InrD)
qed

lemma spec_thn: "spec P m (\<lambda>_. P') E \<Longrightarrow> spec P' k Q E \<Longrightarrow> spec P (thn m k) Q E"
  by (simp add: thn_def spec_bnd)

lemma spec_weaken:
  "spec P m Q E \<Longrightarrow> (\<And>s. P' s \<Longrightarrow> P s) \<Longrightarrow> (\<And>x s. Q x s \<Longrightarrow> Q' x s) \<Longrightarrow>
   (\<And>s. E s \<Longrightarrow> E' s) \<Longrightarrow> spec P' m Q' E'"
  by (rule specI) (meson spec_InrD spec_InlD)+

lemma spec_case_option:
  "(v = None \<Longrightarrow> spec P m Q E) \<Longrightarrow> (\<And>x. v = Some x \<Longrightarrow> spec P (f x) Q E) \<Longrightarrow>
   spec P (case v of None \<Rightarrow> m | Some x \<Rightarrow> f x) Q E"
  by (cases v) auto

lemma spec_if:
  "(b \<Longrightarrow> spec P m Q E) \<Longrightarrow> (\<not> b \<Longrightarrow> spec P n Q E) \<Longrightarrow> spec P (if b then m else n) Q E"
  by simp

lemma spec_lift: "(\<And>s. P s \<Longrightarrow> E s) \<Longrightarrow> spec P (lift v) (\<lambda>_. P) E"
  by (cases v) (simp_all add: spec_def lift_def)

lemma spec_pre: "(\<And>s. P s \<Longrightarrow> spec (\<lambda>t. t = s) m Q E) \<Longrightarrow> spec P m Q E"
  by (simp add: spec_def)

lemma map_sum_Inr_iff: "map_sum f g s = Inr y \<longleftrightarrow> (\<exists>x. s = Inr x \<and> y = g x)"
  by (cases s) auto

section \<open>Orders in which the state only grows\<close>

text \<open>
  Append-only and first-writer-wins tables grow in a preorder on states. A computation
  that steps upwards does so on its error paths too.
\<close>

locale growth =
  fixes le :: "'s \<Rightarrow> 's \<Rightarrow> bool"
  assumes le_refl: "le s s"
    and le_trans: "le s t \<Longrightarrow> le t u \<Longrightarrow> le s u"
begin

definition grows :: "('e, 's, 'a) op \<Rightarrow> bool" where
  "grows m \<longleftrightarrow> (\<forall>s. le s (snd (m s)))"

lemma growsD: "grows m \<Longrightarrow> m s = (r, s') \<Longrightarrow> le s s'"
  by (metis grows_def snd_conv)

lemma grows_ret: "grows (ret x)"
  by (simp add: grows_def ret_def le_refl)

lemma grows_raise: "grows (raise e)"
  by (simp add: grows_def raise_def le_refl)

lemma grows_gets: "grows (gets f)"
  by (simp add: grows_def gets_def le_refl)

lemma grows_lift: "grows (lift r)"
  by (simp add: grows_def lift_def le_refl)

lemma grows_unless: "grows (unless b e)"
  by (simp add: unless_def grows_ret grows_raise)

lemma grows_modify: "(\<And>s. le s (f s)) \<Longrightarrow> grows (modify f)"
  by (simp add: grows_def modify_def)

lemma grows_bnd: "grows m \<Longrightarrow> (\<And>x. grows (f x)) \<Longrightarrow> grows (bnd m f)"
  unfolding grows_def bnd_def by (auto split: sum.splits prod.splits) (metis le_trans snd_conv)+

lemma grows_thn: "grows m \<Longrightarrow> grows k \<Longrightarrow> grows (thn m k)"
  by (simp add: thn_def grows_bnd)

lemma le_bnd:
  "le s (snd (m s)) \<Longrightarrow> (\<And>x s'. m s = (Inr x, s') \<Longrightarrow> le s' (snd (f x s'))) \<Longrightarrow> le s (snd (bnd m f s))"
  unfolding bnd_def by (auto split: sum.splits prod.splits intro: le_trans)

lemma le_thn: "le s (snd (m s)) \<Longrightarrow> grows k \<Longrightarrow> le s (snd (thn m k s))"
  unfolding thn_def by (rule le_bnd) (simp_all add: grows_def)

lemma grows_for_each: "(\<And>x. grows (f x)) \<Longrightarrow> grows (for_each f xs)"
  by (induction xs) (simp_all add: grows_ret grows_thn)

lemma grows_collect: "(\<And>x. grows (f x)) \<Longrightarrow> grows (collect f xs)"
  by (induction xs) (simp_all add: grows_ret grows_bnd)

lemma grows_run_tx: "grows m \<Longrightarrow> grows (run_tx m)"
  unfolding grows_def run_tx_def
  by (auto split: sum.splits prod.splits intro: le_refl) (metis snd_conv)

lemma grows_if: "grows m \<Longrightarrow> grows n \<Longrightarrow> grows (if b then m else n)"
  by simp

lemma grows_case_option:
  "grows m \<Longrightarrow> (\<And>x. grows (f x)) \<Longrightarrow> grows (case v of None \<Rightarrow> m | Some x \<Rightarrow> f x)"
  by (cases v) auto

lemmas grows_intros =
  grows_ret grows_raise grows_gets grows_lift grows_unless grows_modify grows_bnd grows_thn
  grows_for_each grows_collect grows_run_tx grows_if grows_case_option

end

section \<open>SQL statement forms\<close>

definition sql_update :: "('r \<Rightarrow> bool) \<Rightarrow> ('r \<Rightarrow> 'r) \<Rightarrow> 'r list \<Rightarrow> 'r list" where
  "sql_update p f t = map (\<lambda>r. if p r then f r else r) t"

definition sql_delete :: "('r \<Rightarrow> bool) \<Rightarrow> 'r list \<Rightarrow> 'r list" where
  "sql_delete p t = filter (\<lambda>r. \<not> p r) t"

definition sql_count :: "('r \<Rightarrow> bool) \<Rightarrow> 'r list \<Rightarrow> nat" where
  "sql_count p t = length (filter p t)"

definition sql_find :: "('r \<Rightarrow> bool) \<Rightarrow> 'r list \<Rightarrow> 'r option" where
  "sql_find p t = List.find p t"

definition sql_insert_dn :: "('r \<Rightarrow> 'k) \<Rightarrow> 'r \<Rightarrow> 'r list \<Rightarrow> 'r list" where
  "sql_insert_dn key r t = (if key r \<in> key ` set t then t else t @ [r])"

lemma sql_find_Some_iff:
  "sql_find p t = Some r \<Longrightarrow> p r \<and> r \<in> set t"
  by (auto simp: sql_find_def find_Some_iff)

lemma sql_find_None_iff: "sql_find p t = None \<longleftrightarrow> (\<forall>r \<in> set t. \<not> p r)"
  by (auto simp: sql_find_def find_None_iff)

lemma sql_find_append:
  "sql_find p (t @ u) = (case sql_find p t of None \<Rightarrow> sql_find p u | Some r \<Rightarrow> Some r)"
  by (induction t) (auto simp: sql_find_def)

lemma sql_find_Nil [sql_simps, simp]: "sql_find p [] = None"
  by (simp add: sql_find_def)

lemma sql_find_Cons [sql_simps, simp]:
  "sql_find p (r # t) = (if p r then Some r else sql_find p t)"
  by (simp add: sql_find_def)

lemma sql_find_unique:
  "distinct (map key t) \<Longrightarrow> r \<in> set t \<Longrightarrow> sql_find (\<lambda>x. key x = key r) t = Some r"
  by (induction t) (auto simp: image_iff)

lemma sql_find_update_key:
  "(\<And>r. key (f r) = key r) \<Longrightarrow>
   sql_find (\<lambda>x. key x = k) (sql_update p f t) =
   map_option (\<lambda>r. if p r then f r else r) (sql_find (\<lambda>x. key x = k) t)"
  by (induction t) (auto simp: sql_update_def)

lemma sql_update_keys: "(\<And>r. key (f r) = key r) \<Longrightarrow> map key (sql_update p f t) = map key t"
  by (simp add: sql_update_def)

lemma sql_update_length [simp]: "length (sql_update p f t) = length t"
  by (simp add: sql_update_def)

lemma sql_update_none: "sql_count p t = 0 \<Longrightarrow> sql_update p f t = t"
  by (induction t) (auto simp: sql_count_def sql_update_def split: if_splits)

lemma sql_count_zero_iff: "sql_count p t = 0 \<longleftrightarrow> (\<forall>r \<in> set t. \<not> p r)"
  by (auto simp: sql_count_def filter_empty_conv)

lemma sql_delete_distinct: "distinct (map key t) \<Longrightarrow> distinct (map key (sql_delete p t))"
  by (simp add: sql_delete_def distinct_map_filter)

lemma sql_insert_dn_distinct:
  "distinct (map key t) \<Longrightarrow> distinct (map key (sql_insert_dn key r t))"
  by (simp add: sql_insert_dn_def)

lemma sql_insert_dn_keys: "key ` set (sql_insert_dn key r t) = insert (key r) (key ` set t)"
  by (auto simp: sql_insert_dn_def)

lemma sql_insert_dn_prefix: "\<exists>u. sql_insert_dn key r t = t @ u"
  by (auto simp: sql_insert_dn_def)

lemma sql_insert_dn_hit: "key r \<in> key ` set t \<Longrightarrow> sql_insert_dn key r t = t"
  by (simp add: sql_insert_dn_def)

lemma sql_insert_dn_subset: "set t \<subseteq> set (sql_insert_dn key r t)"
  by (auto simp: sql_insert_dn_def)

text \<open>A multi-row insert appends one row for every new key.\<close>

lemma fold_insert_dn:
  "\<exists>new. fold (sql_insert_dn key) rows t = t @ new \<and> set new \<subseteq> set rows \<and>
     key ` set new = key ` set rows - key ` set t \<and> distinct (map key new)"
proof (induction rows rule: rev_induct)
  case (snoc r rows)
  then obtain new where *: "fold (sql_insert_dn key) rows t = t @ new" "set new \<subseteq> set rows"
    "key ` set new = key ` set rows - key ` set t" "distinct (map key new)" by blast
  show ?case
  proof (cases "key r \<in> key ` set (t @ new)")
    case True
    then have "fold (sql_insert_dn key) (rows @ [r]) t = t @ new" using * by (simp add: sql_insert_dn_hit)
    with * True show ?thesis by auto
  next
    case False
    then have "fold (sql_insert_dn key) (rows @ [r]) t = t @ (new @ [r])" using * by (simp add: sql_insert_dn_def)
    moreover have "distinct (map key (new @ [r]))" "key ` set (new @ [r]) = key ` set (rows @ [r]) - key ` set t"
      using * False by auto
    ultimately show ?thesis using *(2) by (metis Un_mono order_refl set_append)
  qed
qed simp

text \<open>\<open>INSERT ... ON CONFLICT (key) DO UPDATE\<close> that replaces the whole row.\<close>

definition sql_upsert :: "('r \<Rightarrow> 'k) \<Rightarrow> 'r \<Rightarrow> 'r list \<Rightarrow> 'r list" where
  "sql_upsert key r t =
     (if key r \<in> key ` set t then sql_update (\<lambda>x. key x = key r) (\<lambda>_. r) t else t @ [r])"

lemma sql_upsert_keys: "key ` set (sql_upsert key r t) = insert (key r) (key ` set t)"
  by (auto simp: sql_upsert_def sql_update_def image_iff)

lemma sql_upsert_member: "x \<in> set (sql_upsert key r t) \<Longrightarrow> x = r \<or> x \<in> set t \<and> key x \<noteq> key r"
  by (auto simp: sql_upsert_def sql_update_def image_iff split: if_splits)

lemma sql_upsert_distinct:
  assumes "distinct (map key t)"
  shows "distinct (map key (sql_upsert key r t))"
proof -
  have "map key (sql_update (\<lambda>x. key x = key r) (\<lambda>_. r) t) = map key t"
    by (simp add: sql_update_def)
  with assms show ?thesis by (simp add: sql_upsert_def)
qed

lemma sql_upsert_find: "sql_find (\<lambda>x. key x = key r) (sql_upsert key r t) = Some r"
proof (cases "key r \<in> key ` set t")
  case True
  then have "sql_find (\<lambda>x. key x = key r) (sql_update (\<lambda>x. key x = key r) (\<lambda>_. r) t) = Some r"
    by (induction t) (auto simp: sql_update_def)
  with True show ?thesis by (simp add: sql_upsert_def)
next
  case False
  then have "sql_find (\<lambda>x. key x = key r) t = None" by (force simp: sql_find_None_iff image_iff)
  with False show ?thesis by (simp add: sql_upsert_def sql_find_append)
qed

lemma sql_insert_dn_find:
  "sql_find (\<lambda>x. key x = k) (sql_insert_dn key r t) =
     (case sql_find (\<lambda>x. key x = k) t of
        Some x \<Rightarrow> Some x
      | None \<Rightarrow> if key r = k then Some r else None)"
proof (cases "key r \<in> key ` set t")
  case True
  then show ?thesis
    by (auto simp: sql_insert_dn_hit sql_find_None_iff split: option.splits)
next
  case False
  then show ?thesis
    by (auto simp: sql_insert_dn_def sql_find_append split: option.splits)
qed

text \<open>
  The contract of an \<open>INSERT .. ON CONFLICT DO NOTHING\<close> table: the first row stored
  under a key stays there for ever.
\<close>

locale first_writer_table =
  fixes key :: "'r \<Rightarrow> 'k"
    and ins :: "'r \<Rightarrow> 'r list \<Rightarrow> 'r list"
    and look :: "'k \<Rightarrow> 'r list \<Rightarrow> 'r option"
  assumes look_ins_old: "look k t = Some x \<Longrightarrow> look k (ins r t) = Some x"
    and look_ins_new: "look (key r) t = None \<Longrightarrow> look (key r) (ins r t) = Some r"
    and look_ins_other: "k \<noteq> key r \<Longrightarrow> look k (ins r t) = look k t"
begin

lemma ins_found: "\<exists>x. look (key r) (ins r t) = Some x"
  by (cases "look (key r) t") (auto dest: look_ins_old look_ins_new)

lemma fold_ins_old: "look k t = Some x \<Longrightarrow> look k (fold ins rs t) = Some x"
  by (induction rs arbitrary: t) (auto simp: look_ins_old)

lemma fold_ins_found: "r \<in> set rs \<Longrightarrow> \<exists>x. look (key r) (fold ins rs t) = Some x"
proof (induction rs arbitrary: t)
  case (Cons q rs)
  show ?case
  proof (cases "r = q")
    case True
    obtain x where "look (key r) (ins q t) = Some x"
      using ins_found True by blast
    then show ?thesis by (auto dest: fold_ins_old)
  next
    case False
    with Cons show ?thesis by simp
  qed
qed simp

lemma fold_ins_other: "k \<notin> key ` set rs \<Longrightarrow> look k (fold ins rs t) = look k t"
  by (induction rs arbitrary: t) (auto simp: look_ins_other)

lemma ins_twice: "look k (ins r (ins r t)) = look k (ins r t)"
  by (metis ins_found look_ins_old look_ins_other)

end

lemma sql_insert_dn_first_writer:
  "first_writer_table key (sql_insert_dn key) (\<lambda>k. sql_find (\<lambda>x. key x = k))"
  by unfold_locales (auto simp: sql_insert_dn_find split: option.splits)

end
