(* ===== verification/Py_Values.thy ===== *)
theory Py_Values
  imports Prelude
begin

text \<open>
  Python values the sources compute with: strings as code-point lists, the decimal
  rendering \<open>str(n)\<close> and its inverse \<open>int(s)\<close>, \<open>str.split\<close>, UUIDs with their canonical
  text, time stamps and JSON values. ASCII digits are the decimal digits of the model:
  code points of other scripts, which \<open>int\<close> and \<open>\d\<close> also accept, are not digits here.
\<close>

section \<open>Strings\<close>

type_synonym pystr = "nat list"

definition lit :: "string \<Rightarrow> pystr" where
  "lit s = map of_char s"

lemma lit_Nil [simp]: "lit [] = []"
  by (simp add: lit_def)

lemma lit_Cons [simp]: "lit (c # s) = of_char c # lit s"
  by (simp add: lit_def)

lemma lit_append [simp]: "lit (s @ t) = lit s @ lit t"
  by (simp add: lit_def)

lemma inj_lit: "inj lit"
  unfolding lit_def by (simp add: inj_def inj_map_eq_map [OF inj_of_char])

lemma lit_eq_iff [simp]: "lit s = lit t \<longleftrightarrow> s = t"
  using inj_lit by (auto dest: injD)

text \<open>\<open>s.split(c)\<close> with a one-character separator.\<close>

fun split_on :: "'c \<Rightarrow> 'c list \<Rightarrow> 'c list list" where
  "split_on c [] = [[]]"
| "split_on c (x # xs) =
     (if x = c then [] # split_on c xs
      else case split_on c xs of [] \<Rightarrow> [[x]] | w # ws \<Rightarrow> (x # w) # ws)"

lemma split_on_nonempty [simp]: "split_on c xs \<noteq> []"
  by (induction xs) (auto split: list.splits)

lemma split_on_no_sep: "c \<notin> set xs \<Longrightarrow> split_on c xs = [xs]"
  by (induction xs) auto

lemma split_on_sep: "c \<notin> set xs \<Longrightarrow> split_on c (xs @ c # ys) = xs # split_on c ys"
  by (induction xs) auto

section \<open>Decimal numerals\<close>

definition is_digit :: "nat \<Rightarrow> bool" where
  "is_digit c \<longleftrightarrow> 48 \<le> c \<and> c \<le> 57"

fun nat_str :: "nat \<Rightarrow> pystr" where
  "nat_str n = (if n < 10 then [48 + n] else nat_str (n div 10) @ [48 + n mod 10])"

declare nat_str.simps [simp del]

definition int_str :: "int \<Rightarrow> pystr" where
  "int_str i = (if i < 0 then 45 # nat_str (nat (- i)) else nat_str (nat i))"

text \<open>
  \<open>int(s)\<close>: surrounding white space is dropped, one sign may follow, then digits in
  which single underscores may separate two digits. \<open>None\<close> stands for \<open>ValueError\<close>.
\<close>

fun digits_val :: "bool \<Rightarrow> nat \<Rightarrow> pystr \<Rightarrow> nat option" where
  "digits_val prev acc [] = (if prev then Some acc else None)"
| "digits_val prev acc (c # cs) =
     (if is_digit c then digits_val True (acc * 10 + (c - 48)) cs
      else if c = 95 \<and> prev then digits_val False acc cs
      else None)"

text \<open>The white space of \<open>str.strip\<close>.\<close>

definition is_space :: "nat \<Rightarrow> bool" where
  "is_space c \<longleftrightarrow> c = 32 \<or> (9 \<le> c \<and> c \<le> 13) \<or> (28 \<le> c \<and> c \<le> 31) \<or> c = 0x85 \<or> c = 0xA0 \<or> c = 0x1680 \<or>
     (0x2000 \<le> c \<and> c \<le> 0x200A) \<or> c = 0x2028 \<or> c = 0x2029 \<or> c = 0x202F \<or> c = 0x205F \<or> c = 0x3000"

definition strip_by :: "(nat \<Rightarrow> bool) \<Rightarrow> pystr \<Rightarrow> pystr" where
  "strip_by p s = rev (dropWhile p (rev (dropWhile p s)))"

definition strip :: "pystr \<Rightarrow> pystr" where
  "strip s = strip_by is_space s"

text \<open>
  The decimal digits of Unicode 15 (category Nd, the \<open>\d\<close> of \<open>re\<close>) come in runs of ten, each
  given by its zero.
\<close>

definition decimal_zeros :: "nat list" where
  "decimal_zeros =
     [0x30, 0x660, 0x6F0, 0x7C0, 0x966, 0x9E6, 0xA66, 0xAE6, 0xB66, 0xBE6, 0xC66, 0xCE6,
      0xD66, 0xDE6, 0xE50, 0xED0, 0xF20, 0x1040, 0x1090, 0x17E0, 0x1810, 0x1946, 0x19D0, 0x1A80,
      0x1A90, 0x1B50, 0x1BB0, 0x1C40, 0x1C50, 0xA620, 0xA8D0, 0xA900, 0xA9D0, 0xA9F0, 0xAA50, 0xABF0,
      0xFF10, 0x104A0, 0x10D30, 0x11066, 0x110F0, 0x11136, 0x111D0, 0x112F0, 0x11450, 0x114D0, 0x11650, 0x116C0,
      0x11730, 0x118E0, 0x11950, 0x11C50, 0x11D50, 0x11DA0, 0x11F50, 0x16A60, 0x16AC0, 0x16B50, 0x1D7CE, 0x1D7D8,
      0x1D7E2, 0x1D7EC, 0x1D7F6, 0x1E140, 0x1E2F0, 0x1E4F0, 0x1E950, 0x1FBF0]"

definition decimal_value :: "nat \<Rightarrow> nat option" where
  "decimal_value c = map_option (\<lambda>z. c - z) (List.find (\<lambda>z. z \<le> c \<and> c < z + 10) decimal_zeros)"

text \<open>
  \<open>int\<close> first turns other scripts' digits and spaces into ASCII, anything else beyond ASCII into
  a question mark; of the ASCII characters only six are white space to it.
\<close>

definition int_ascii :: "nat \<Rightarrow> nat" where
  "int_ascii c = (if c < 128 then c else if is_space c then 32
     else case decimal_value c of Some d \<Rightarrow> 48 + d | None \<Rightarrow> 63)"

definition int_space :: "nat \<Rightarrow> bool" where
  "int_space c \<longleftrightarrow> c = 32 \<or> (9 \<le> c \<and> c \<le> 13)"

definition int_text :: "pystr \<Rightarrow> pystr" where
  "int_text s = strip_by int_space (map int_ascii s)"

definition py_int :: "pystr \<Rightarrow> int option" where
  "py_int s =
     (case int_text s of
        [] \<Rightarrow> None
      | c # cs \<Rightarrow>
          if c = 45 then map_option (\<lambda>n. - int n) (digits_val False 0 cs)
          else if c = 43 then map_option int (digits_val False 0 cs)
          else map_option int (digits_val False 0 (c # cs)))"

lemma nat_str_digits: "c \<in> set (nat_str n) \<Longrightarrow> is_digit c"
proof (induction n rule: nat_str.induct)
  case (1 n)
  show ?case
  proof (cases "n < 10")
    case True
    with "1.prems" show ?thesis by (auto simp: nat_str.simps [of n] is_digit_def)
  next
    case False
    with "1.prems" have "c \<in> set (nat_str (n div 10)) \<or> c = 48 + n mod 10"
      by (auto simp: nat_str.simps [of n])
    then show ?thesis
    proof
      assume "c \<in> set (nat_str (n div 10))"
      with "1.IH" False show ?thesis by blast
    next
      assume "c = 48 + n mod 10"
      moreover have "n mod 10 < 10" by simp
      ultimately show ?thesis unfolding is_digit_def by linarith
    qed
  qed
qed

lemma nat_str_nonempty [simp]: "nat_str n \<noteq> []"
  by (subst nat_str.simps) simp

lemma digits_val_append:
  "(\<And>c. c \<in> set ds \<Longrightarrow> is_digit c) \<Longrightarrow> ds \<noteq> [] \<Longrightarrow>
   digits_val p acc (ds @ es) = digits_val True (foldl (\<lambda>a c. a * 10 + (c - 48)) acc ds) es"
proof (induction ds arbitrary: p acc)
  case (Cons d ds)
  show ?case
  proof (cases "ds = []")
    case True
    with Cons.prems show ?thesis by simp
  next
    case False
    with Cons show ?thesis by simp
  qed
qed simp

lemma foldl_nat_str: "foldl (\<lambda>a c. a * 10 + (c - 48)) 0 (nat_str n) = n"
proof (induction n rule: nat_str.induct)
  case (1 n)
  then show ?case
    by (cases "n < 10") (simp_all add: nat_str.simps [of n])
qed

lemma digits_val_nat_str: "digits_val p 0 (nat_str n) = Some n"
  using digits_val_append [of "nat_str n" p 0 "[]"] nat_str_digits
  by (simp add: foldl_nat_str)

lemma strip_by_none:
  assumes "\<And>c. c \<in> set s \<Longrightarrow> \<not> p c"
  shows "strip_by p s = s"
proof -
  from assms have "dropWhile p s = s" "dropWhile p (rev s) = rev s"
    by (auto simp: dropWhile_eq_self_iff hd_rev)
  then show ?thesis by (simp add: strip_by_def)
qed

lemma int_text_plain:
  assumes "\<And>c. c \<in> set s \<Longrightarrow> 32 < c \<and> c < 128"
  shows "int_text s = s"
proof -
  from assms have "map int_ascii s = s" by (auto simp: int_ascii_def intro: map_idI)
  moreover have "\<not> int_space c" if "c \<in> set s" for c using assms [OF that] by (simp add: int_space_def)
  ultimately show ?thesis by (simp add: int_text_def strip_by_none)
qed

lemma int_text_nat_str: "int_text (nat_str n) = nat_str n"
  by (rule int_text_plain) (auto dest: nat_str_digits simp: is_digit_def)

lemma nat_str_first: "nat_str n = c # cs \<Longrightarrow> is_digit c"
  by (metis list.set_intros(1) nat_str_digits)

lemma py_int_nat_str [simp]: "py_int (nat_str n) = Some (int n)"
proof -
  obtain c cs where s: "nat_str n = c # cs"
    by (cases "nat_str n") auto
  then have "is_digit c" by (rule nat_str_first)
  moreover have "int_text (c # cs) = c # cs"
    using int_text_nat_str [of n] by (simp only: s)
  moreover have "digits_val False 0 (c # cs) = Some n"
    using digits_val_nat_str [of False n] by (simp only: s)
  ultimately show ?thesis
    unfolding py_int_def s by (simp add: is_digit_def)
qed

theorem py_int_int_str: "py_int (int_str i) = Some i"
proof (cases "i < 0")
  case True
  have "int_text (45 # nat_str (nat (- i))) = 45 # nat_str (nat (- i))"
    by (rule int_text_plain) (auto dest: nat_str_digits simp: is_digit_def)
  with True show ?thesis
    by (simp add: int_str_def py_int_def digits_val_nat_str)
next
  case False
  then show ?thesis by (simp add: int_str_def)
qed

lemma inj_nat_str: "nat_str m = nat_str n \<Longrightarrow> m = n"
  by (metis foldl_nat_str)

section \<open>UUIDs and time\<close>

text \<open>
  A UUID is its 128-bit value; \<open>str(u)\<close> is the 8-4-4-4-12 hexadecimal form. An instant is
  a number of microseconds; a \<open>datetime\<close> carries its UTC offset, \<open>None\<close> when naive.
\<close>

type_synonym uuid = "128 word"

definition hex_digit :: "nat \<Rightarrow> nat" where
  "hex_digit d = (if d < 10 then 48 + d else 87 + d)"

definition uuid_str :: "uuid \<Rightarrow> pystr" where
  "uuid_str u =
     (let h = map (\<lambda>i. hex_digit (unat u div 16 ^ i mod 16)) (rev [0..<32])
      in take 8 h @ 45 # take 4 (drop 8 h) @ 45 # take 4 (drop 12 h) @ 45 #
         take 4 (drop 16 h) @ 45 # drop 20 h)"

lemma hex_digit_inj: "d < 16 \<Longrightarrow> e < 16 \<Longrightarrow> hex_digit d = hex_digit e \<Longrightarrow> d = e"
  by (auto simp: hex_digit_def split: if_splits)

lemma digits_inj:
  "(\<And>i. i < k \<Longrightarrow> m div 16 ^ i mod 16 = n div 16 ^ i mod 16) \<Longrightarrow> m < 16 ^ k \<Longrightarrow> n < 16 ^ k \<Longrightarrow>
   m = (n :: nat)"
proof (induction k arbitrary: m n)
  case (Suc k)
  have "m div 16 div 16 ^ i mod 16 = n div 16 div 16 ^ i mod 16" if "i < k" for i
    using Suc.prems(1) [of "Suc i"] that by (simp add: div_mult2_eq)
  moreover have "m div 16 < 16 ^ k" "n div 16 < 16 ^ k"
    using Suc.prems(2,3) by (simp_all add: less_mult_imp_div_less mult.commute)
  ultimately have "m div 16 = n div 16" by (rule Suc.IH)
  moreover have "m mod 16 = n mod 16" using Suc.prems(1) [of 0] by simp
  ultimately show ?case by (metis div_mult_mod_eq)
qed simp

lemma uuid_str_eq_iff [simp]: "uuid_str u = uuid_str v \<longleftrightarrow> u = v"
proof
  assume eq: "uuid_str u = uuid_str v"
  let ?h = "\<lambda>u :: uuid. map (\<lambda>i. hex_digit (unat u div 16 ^ i mod 16)) (rev [0..<32])"
  let ?g = "\<lambda>s :: pystr. take 8 s @ take 4 (drop 9 s) @ take 4 (drop 14 s) @ take 4 (drop 19 s) @ drop 24 s"
  have g: "?g (take 8 h @ 45 # take 4 (drop 8 h) @ 45 # take 4 (drop 12 h) @ 45 #
      take 4 (drop 16 h) @ 45 # drop 20 h) = h" if len: "length h = 32" for h
  proof -
    obtain a b c d e where h: "h = a @ b @ c @ d @ e" "length a = 8" "length b = 4" "length c = 4" "length d = 4"
    proof
      have td: "take x (drop y h) @ drop (x + y) h = drop y h" for x y
        by (metis append_take_drop_id drop_drop)
      show "h = take 8 h @ take 4 (drop 8 h) @ take 4 (drop 12 h) @ take 4 (drop 16 h) @ drop 20 h"
        using td [of 4 16] td [of 4 12] td [of 4 8] by simp
    qed (use len in simp_all)
    then show ?thesis by simp
  qed
  have "?g (uuid_str u) = ?h u" "?g (uuid_str v) = ?h v"
    unfolding uuid_str_def Let_def by (rule g, simp)+
  with eq have "?h u = ?h v" by (simp only:)
  then have all: "\<forall>i \<in> set (rev [0..<32]). hex_digit (unat u div 16 ^ i mod 16) = hex_digit (unat v div 16 ^ i mod 16)"
    by (simp only: map_eq_conv)
  have hex: "hex_digit (unat u div 16 ^ i mod 16) = hex_digit (unat v div 16 ^ i mod 16)" if "i < 32" for i
  proof -
    have "i \<in> set (rev [0..<32])" using that by (simp only: set_rev set_upt atLeastLessThan_iff) simp
    with all show ?thesis by (rule bspec)
  qed
  have "unat u div 16 ^ i mod 16 = unat v div 16 ^ i mod 16" if "i < 32" for i
    by (rule hex_digit_inj [OF _ _ hex [OF that]]) simp_all
  moreover have "unat u < 16 ^ 32" "unat v < 16 ^ 32"
    using unsigned_less [of u, where 'a = nat] unsigned_less [of v, where 'a = nat] by simp_all
  ultimately have "unat u = unat v" by (rule digits_inj)
  then show "u = v" by (simp add: unsigned_word_eqI)
qed simp

record datetime =
  instant :: int
  utcoffset :: "int option"

section \<open>JSON\<close>

datatype json =
    JNull
  | JBool bool
  | JInt int
  | JFloat "64 word"
  | JStr pystr
  | JArr "json list"
  | JObj "(pystr \<times> json) list"

definition jlit :: "string \<Rightarrow> json" where
  "jlit s = JStr (lit s)"

definition jobj :: "(string \<times> json) list \<Rightarrow> json" where
  "jobj kvs = JObj (map (\<lambda>(k, v). (lit k, v)) kvs)"

definition jopt :: "('a \<Rightarrow> json) \<Rightarrow> 'a option \<Rightarrow> json" where
  "jopt f v = (case v of None \<Rightarrow> JNull | Some x \<Rightarrow> f x)"

text \<open>Objects decoded from JSON have distinct keys at every depth.\<close>

fun json_wf :: "json \<Rightarrow> bool" where
  "json_wf (JArr xs) = (\<forall>x \<in> set xs. json_wf x)"
| "json_wf (JObj kvs) = (distinct (map fst kvs) \<and> (\<forall>kv \<in> set kvs. json_wf (snd kv)))"
| "json_wf _ = True"

lemma json_induct [case_names JNull JBool JInt JFloat JStr JArr JObj]:
  assumes "P JNull" "\<And>b. P (JBool b)" "\<And>i. P (JInt i)" "\<And>w. P (JFloat w)" "\<And>s. P (JStr s)"
    and "\<And>xs. (\<And>x. x \<in> set xs \<Longrightarrow> P x) \<Longrightarrow> P (JArr xs)"
    and "\<And>kvs. (\<And>k v. (k, v) \<in> set kvs \<Longrightarrow> P v) \<Longrightarrow> P (JObj kvs)"
  shows "P j"
proof (induction j)
  case (JObj kvs)
  then show ?case
    by (intro assms(7)) (metis prod_set_defs(2) singletonI snd_conv snds.intros)
qed (use assms in auto)

text \<open>Python \<open>d[k] = v\<close> on a dict: an existing key keeps its position.\<close>

fun obj_set :: "pystr \<Rightarrow> json \<Rightarrow> (pystr \<times> json) list \<Rightarrow> (pystr \<times> json) list" where
  "obj_set k v [] = [(k, v)]"
| "obj_set k v ((k', v') # kvs) = (if k' = k then (k, v) # kvs else (k', v') # obj_set k v kvs)"

lemma map_of_obj_set: "map_of (obj_set k v kvs) = (map_of kvs)(k \<mapsto> v)"
  by (induction k v kvs rule: obj_set.induct) auto

lemma obj_set_keys: "k \<in> fst ` set kvs \<Longrightarrow> map fst (obj_set k v kvs) = map fst kvs"
  by (induction k v kvs rule: obj_set.induct) auto

lemma set_obj_set: "set (obj_set k v kvs) \<subseteq> insert (k, v) (set kvs)"
  by (induction k v kvs rule: obj_set.induct) auto

lemma obj_set_same: "map_of kvs k = Some v \<Longrightarrow> obj_set k v kvs = kvs"
  by (induction k v kvs rule: obj_set.induct) (auto split: if_splits)

end
