(* ===== verification/Errors.thy ===== *)
theory Errors
  imports Py_Values
begin

text \<open>
  The exception classes of \<open>aslan_core/errors.py\<close>, one datatype per branch of the class
  hierarchy, with the attributes the code attaches; message texts are dropped. Beside
  them the built-in exceptions the modelled code can raise, and the failures of the two
  services it calls (Postgres through SQLAlchemy, Redis).
\<close>

datatype db_error =
    UnknownSource string
  | ConcurrencyError
  | ConstraintViolation

datatype registry_error =
    EntityNotFound
  | IdentifierConflict
  | EntityMergeRequired
  | RegistryConstraintViolation

datatype observation_error =
    SeriesNotFound
  | ObservationConstraintViolation
  | ObservationValidationError
  | SeriesCodeConflict "string list"
  | ObservationConflict "(int \<times> int \<times> int) option" "pystr option" "pystr option"
  | IdentifyingSeriesPiiInClearText
  | IdentifyingSeriesMissingSubject
  | IdentifyingSeriesMetadataPii
  | MetadataSchemaViolation

datatype document_error =
    ObjectStoreError
  | DocumentDBError
  | FilingNotFound
  | DocumentNotFound

datatype direction = Newer | Older

datatype stream_error =
    StreamPublishError
  | StreamReadError
  | StreamDeserializeError
  | StreamSchemaVersionMismatch uuid string int "int \<times> int" direction
  | StreamPayloadValidationError "uuid option" string
  | StreamConsumerLagExceeded string string
  | StreamEventIdConflict uuid string
  | UnknownEventKind string
  | StreamRoutingContention int int
  | StreamRedactionIntegrityError uuid string

datatype audit_error = AuditMissingActor

datatype py_error =
    ValueError
  | KeyError
  | IndexError
  | TypeError
  | AssertionError
  | AttributeError
  | OverflowError
  | RuntimeError
  | StructError

datatype service_error =
    RedisError
  | RedisNoSuchKey
  | IntegrityError
  | SQLAlchemyError
  | MultipleResultsFound
  | NoResultFound
  | S3ClientError string
  | JWTError

datatype error =
    DBE db_error
  | RegistryE registry_error
  | ObservationE observation_error
  | StreamE stream_error
  | AuditE audit_error
  | PyE py_error
  | ServiceE service_error
  | DocumentE document_error
  | CancelledError
  | OutOfFuel

text \<open>
  \<open>CancelledError\<close> is a \<open>BaseException\<close> that \<open>except Exception\<close> lets through.
  \<open>OutOfFuel\<close> is no exception of the program: it marks a loop of the model that has not
  ended within its fuel. The theorems about such loops show that enough fuel never gives it.
\<close>

end
