(* ===== verification/Audit_Trail.thy ===== *)
theory Audit_Trail
  imports Errors
begin

text \<open>
  The audit subsystem (\<open>audit/context.py\<close>, \<open>audit/recorder.py\<close>): the actor, the context
  variable that holds it and its push/pop discipline, the strict-mode check, and the one
  gateway that inserts into \<open>audit.events\<close>.

  A context \<open>ctx\<close> carries what an operation reads from its surroundings: the current
  actor, the \<open>audit_strict\<close> setting and the transaction's clock (\<open>now()\<close>).
\<close>

section \<open>Actor and context variable\<close>

datatype actor_kind = User | Service | System

record actor =
  actor_id :: string
  actor_kind :: actor_kind
  client_ip :: "string option"
  user_agent :: "string option"
  request_id :: "uuid option"
  actor_metadata :: "(string \<times> string) list"

definition actor_kind_of :: "string \<Rightarrow> actor_kind option" where
  "actor_kind_of s =
     (if s = ''user'' then Some User
      else if s = ''service'' then Some Service
      else if s = ''system'' then Some System
      else None)"

definition kind_str :: "actor_kind \<Rightarrow> string" where
  "kind_str k = (case k of User \<Rightarrow> ''user'' | Service \<Rightarrow> ''service'' | System \<Rightarrow> ''system'')"

text \<open>\<open>Actor.__post_init__\<close>: a non-empty id and one of the three kinds, else \<open>ValueError\<close>.\<close>

definition mk_actor ::
  "string \<Rightarrow> string \<Rightarrow> string option \<Rightarrow> string option \<Rightarrow> uuid option \<Rightarrow>
   (string \<times> string) list \<Rightarrow> error + actor" where
  "mk_actor aid kind ip ua rid md =
     (if aid = [] then Inl (PyE ValueError)
      else case actor_kind_of kind of
        None \<Rightarrow> Inl (PyE ValueError)
      | Some k \<Rightarrow> Inr \<lparr>actor_id = aid, actor_kind = k, client_ip = ip, user_agent = ua, request_id = rid,
                         actor_metadata = md\<rparr>)"

text \<open>
  The context variable of one task: its current value. \<open>push_actor\<close> returns a token that
  remembers the previous value; \<open>pop_actor\<close> restores it.
\<close>

type_synonym actor_var = "actor option"

definition set_actor :: "actor option \<Rightarrow> actor_var \<Rightarrow> actor_var" where
  "set_actor a v = a"

definition current_actor :: "actor_var \<Rightarrow> actor option" where
  "current_actor v = v"

definition require_actor :: "actor_var \<Rightarrow> error + actor" where
  "require_actor v = (case v of None \<Rightarrow> Inl (AuditE AuditMissingActor) | Some a \<Rightarrow> Inr a)"

definition push_actor :: "actor \<Rightarrow> actor_var \<Rightarrow> actor option \<times> actor_var" where
  "push_actor a v = (v, Some a)"

definition pop_actor :: "actor option \<Rightarrow> actor_var \<Rightarrow> actor_var" where
  "pop_actor tok v = tok"

record ctx =
  ctx_actor :: "actor option"
  ctx_strict :: bool
  ctx_now :: int

section \<open>The audit log\<close>

record audit_record =
  ar_operation :: string
  ar_target_schema :: string
  ar_target_table :: string
  ar_target_pk :: json
  ar_before :: "json option"
  ar_after :: "json option"
  ar_metadata :: json
  ar_ingestion_run_id :: "int option"

record audit_event =
  ev_event_id :: int
  ev_occurred_at :: int
  ev_actor_id :: string
  ev_actor_kind :: actor_kind
  ev_client_ip :: "string option"
  ev_user_agent :: "string option"
  ev_request_id :: "uuid option"
  ev_ingestion_run_id :: "int option"
  ev_operation :: string
  ev_target_schema :: string
  ev_target_table :: string
  ev_target_pk :: json
  ev_before :: "json option"
  ev_after :: "json option"
  ev_metadata :: json

text \<open>The denormalised audit columns of a row (\<open>_audit_cols\<close>): NULL without an actor.\<close>

record audit_cols =
  ac_actor_id :: "string option"
  ac_actor_kind :: "actor_kind option"
  ac_client_ip :: "string option"
  ac_user_agent :: "string option"
  ac_request_id :: "uuid option"

definition audit_cols_of :: "actor option \<Rightarrow> audit_cols" where
  "audit_cols_of a =
     (case a of
        None \<Rightarrow> \<lparr>ac_actor_id = None, ac_actor_kind = None, ac_client_ip = None,
                 ac_user_agent = None, ac_request_id = None\<rparr>
      | Some x \<Rightarrow> \<lparr>ac_actor_id = Some (actor_id x), ac_actor_kind = Some (actor_kind x),
                 ac_client_ip = client_ip x, ac_user_agent = user_agent x,
                 ac_request_id = request_id x\<rparr>)"

definition assert_actor_or_strict_raise :: "ctx \<Rightarrow> (error, 's, unit) op" where
  "assert_actor_or_strict_raise c =
     (if \<not> ctx_strict c then ret ()
      else if ctx_actor c = None then raise (AuditE AuditMissingActor)
      else ret ())"

text \<open>
  The log is \<open>audit.events\<close> in insertion order with its \<open>BIGSERIAL\<close> counter.
\<close>

record audit_log =
  events :: "audit_event list"
  event_seq :: int

definition log_event :: "audit_event \<Rightarrow> audit_log \<Rightarrow> audit_log" where
  "log_event e l = l\<lparr>events := events l @ [e\<lparr>ev_event_id := event_seq l\<rparr>], event_seq := event_seq l + 1\<rparr>"

definition attributed_event :: "ctx \<Rightarrow> audit_record \<Rightarrow> audit_event" where
  "attributed_event c r =
     (case ctx_actor c of
        None \<Rightarrow>
          \<lparr>ev_event_id = 0, ev_occurred_at = ctx_now c,
           ev_actor_id = ''system:unknown'', ev_actor_kind = System,
           ev_client_ip = None, ev_user_agent = None, ev_request_id = None,
           ev_ingestion_run_id = ar_ingestion_run_id r, ev_operation = ar_operation r,
           ev_target_schema = ar_target_schema r, ev_target_table = ar_target_table r,
           ev_target_pk = ar_target_pk r, ev_before = ar_before r, ev_after = ar_after r,
           ev_metadata = ar_metadata r\<rparr>
      | Some a \<Rightarrow>
          \<lparr>ev_event_id = 0, ev_occurred_at = ctx_now c,
           ev_actor_id = actor_id a, ev_actor_kind = actor_kind a,
           ev_client_ip = client_ip a, ev_user_agent = user_agent a,
           ev_request_id = request_id a,
           ev_ingestion_run_id = ar_ingestion_run_id r, ev_operation = ar_operation r,
           ev_target_schema = ar_target_schema r, ev_target_table = ar_target_table r,
           ev_target_pk = ar_target_pk r, ev_before = ar_before r, ev_after = ar_after r,
           ev_metadata = ar_metadata r\<rparr>)"

definition record_event :: "ctx \<Rightarrow> audit_record \<Rightarrow> (error, audit_log, unit) op" where
  "record_event c r =
     (if ctx_actor c = None \<and> ctx_strict c then raise (AuditE AuditMissingActor)
      else modify (log_event (attributed_event c r)))"

section \<open>Properties of the recorder\<close>

definition log_le :: "audit_log \<Rightarrow> audit_log \<Rightarrow> bool" where
  "log_le l l' \<longleftrightarrow> (\<exists>es. events l' = events l @ es) \<and> event_seq l \<le> event_seq l'"

interpretation log_growth: growth log_le
  by unfold_locales (auto simp: log_le_def)

lemma log_event_le: "log_le l (log_event e l)"
  by (simp add: log_le_def log_event_def)

lemma record_event_grows: "log_growth.grows (record_event c r)"
  unfolding record_event_def
  by (intro log_growth.grows_intros log_event_le)

text \<open>The log is well formed when ids are unique and below the counter.\<close>

definition log_ok :: "audit_log \<Rightarrow> bool" where
  "log_ok l \<longleftrightarrow> distinct (map ev_event_id (events l)) \<and> (\<forall>e \<in> set (events l). ev_event_id e < event_seq l)"

lemma log_event_ok: "log_ok l \<Longrightarrow> log_ok (log_event e l)"
  by (auto simp: log_ok_def log_event_def)

lemma record_event_keeps_ok: "keeps log_ok (record_event c r)"
  unfolding record_event_def by (intro keeps_intros log_event_ok)

text \<open>An attributed log holds no row of the anonymous fallback actor.\<close>

definition unattributed :: "audit_event \<Rightarrow> bool" where
  "unattributed e \<longleftrightarrow> ev_actor_id e = ''system:unknown''"

lemma record_event_returns:
  "record_event c r l = (Inr u, l') \<longleftrightarrow>
     \<not> (ctx_actor c = None \<and> ctx_strict c) \<and> l' = log_event (attributed_event c r) l"
  by (auto simp: record_event_def modify_def raise_def)

lemma record_event_fails:
  "record_event c r l = (Inl e, l') \<longleftrightarrow>
     ctx_actor c = None \<and> ctx_strict c \<and> e = AuditE AuditMissingActor \<and> l' = l"
  by (auto simp: record_event_def modify_def raise_def)

lemma assert_actor_cases:
  "assert_actor_or_strict_raise c s = (if ctx_strict c \<and> ctx_actor c = None
     then (Inl (AuditE AuditMissingActor), s) else (Inr (), s))"
  by (simp add: assert_actor_or_strict_raise_def ret_def raise_def)

lemma assert_actor_keeps [keeps_intros]: "keeps P (assert_actor_or_strict_raise c)"
  by (simp add: keeps_def assert_actor_cases)

lemma push_pop_restores:
  "push_actor a v = (tok, v') \<Longrightarrow> pop_actor tok w = v \<and> current_actor v' = Some a"
  by (auto simp: push_actor_def pop_actor_def current_actor_def)

text \<open>A strict context with a service actor, for concrete runs.\<close>

definition sample_actor :: actor where
  "sample_actor = \<lparr>actor_id = ''svc:ingest'', actor_kind = Service, client_ip = None,
     user_agent = None, request_id = None, actor_metadata = []\<rparr>"

definition sample_ctx :: ctx where
  "sample_ctx = \<lparr>ctx_actor = Some sample_actor, ctx_strict = True, ctx_now = 1000\<rparr>"

lemma sample_ctx_fields [simp]:
  "ctx_actor sample_ctx = Some sample_actor" "ctx_strict sample_ctx" "ctx_now sample_ctx = 1000"
  by (simp_all add: sample_ctx_def)

end
