(* ===== verification/Redis_Ids.thy ===== *)
theory Redis_Ids
  imports Errors
begin

text \<open>
  Redis stream entry ids (\<open>streams/deadletter.py\<close>: \<open>redis_id_increment\<close>,
  \<open>redis_id_compare\<close>). The code handles ids as text \<open><ms>-<seq>\<close>; the text-level
  functions are translated as they are, with every \<open>ValueError\<close> of \<open>split\<close> and \<open>int\<close> as a
  branch. The typed id \<open>redis_id\<close> with its order is the abstraction the protocols of the
  other theories compute with; the refinement lemmas relate the two.
\<close>

section \<open>Ids as text\<close>

definition split_id :: "pystr \<Rightarrow> error + int \<times> int" where
  "split_id rid =
     (case split_on 45 rid of
        [ms_str, seq_str] \<Rightarrow>
          (case py_int ms_str of
             None \<Rightarrow> Inl (PyE ValueError)
           | Some ms \<Rightarrow>
               (case py_int seq_str of
                  None \<Rightarrow> Inl (PyE ValueError)
                | Some seq \<Rightarrow> Inr (ms, seq)))
      | _ \<Rightarrow> Inl (PyE ValueError))"

definition redis_id_increment :: "pystr \<Rightarrow> error + pystr" where
  "redis_id_increment rid =
     (case split_id rid of
        Inl e \<Rightarrow> Inl e
      | Inr (ms, seq) \<Rightarrow>
          if seq < 2 ^ 64 - 1 then Inr (int_str ms @ 45 # int_str (seq + 1))
          else Inr (int_str (ms + 1) @ 45 # int_str 0))"

definition redis_id_compare :: "pystr \<Rightarrow> pystr \<Rightarrow> error + int" where
  "redis_id_compare a b =
     (case split_id a of
        Inl e \<Rightarrow> Inl e
      | Inr (a_ms, a_seq) \<Rightarrow>
          (case split_id b of
             Inl e \<Rightarrow> Inl e
           | Inr (b_ms, b_seq) \<Rightarrow>
               if a_ms \<noteq> b_ms then Inr (if a_ms < b_ms then -1 else 1)
               else if a_seq \<noteq> b_seq then Inr (if a_seq < b_seq then -1 else 1)
               else Inr 0))"

section \<open>Typed ids\<close>

datatype redis_id = Rid (rid_ms: nat) (rid_seq: nat)

instantiation redis_id :: linorder
begin

definition less_eq_redis_id :: "redis_id \<Rightarrow> redis_id \<Rightarrow> bool" where
  "a \<le> b \<longleftrightarrow> rid_ms a < rid_ms b \<or> (rid_ms a = rid_ms b \<and> rid_seq a \<le> rid_seq b)"

definition less_redis_id :: "redis_id \<Rightarrow> redis_id \<Rightarrow> bool" where
  "a < b \<longleftrightarrow> rid_ms a < rid_ms b \<or> (rid_ms a = rid_ms b \<and> rid_seq a < rid_seq b)"

instance
  by standard (auto simp: less_eq_redis_id_def less_redis_id_def redis_id.expand)

end

text \<open>Redis keeps both halves in 64 bits.\<close>

definition rid_ok :: "redis_id \<Rightarrow> bool" where
  "rid_ok r \<longleftrightarrow> rid_seq r < 2 ^ 64"

definition rid_str :: "redis_id \<Rightarrow> pystr" where
  "rid_str r = nat_str (rid_ms r) @ 45 # nat_str (rid_seq r)"

definition rid_next :: "redis_id \<Rightarrow> redis_id" where
  "rid_next r = (if rid_seq r < 2 ^ 64 - 1 then Rid (rid_ms r) (rid_seq r + 1)
                 else Rid (rid_ms r + 1) 0)"

definition rid_zero :: redis_id where
  "rid_zero = Rid 0 0"

lemma rid_zero_least [simp]: "rid_zero \<le> r"
  by (auto simp: rid_zero_def less_eq_redis_id_def)

lemma rid_next_gt: "r < rid_next r"
  by (auto simp: rid_next_def less_redis_id_def)

lemma rid_next_ok: "rid_ok r \<Longrightarrow> rid_ok (rid_next r)"
  by (auto simp: rid_ok_def rid_next_def)

lemma rid_next_least: "rid_ok s \<Longrightarrow> r < s \<Longrightarrow> rid_next r \<le> s"
  by (auto simp: rid_ok_def rid_next_def less_redis_id_def less_eq_redis_id_def)

lemma rid_next_le_iff: "rid_ok s \<Longrightarrow> rid_next r \<le> s \<longleftrightarrow> r < s"
  by (meson le_less_trans less_le_trans not_le rid_next_gt rid_next_least)

section \<open>The text functions implement the typed ones\<close>

lemma dash_not_in_nat_str: "45 \<notin> set (nat_str n)"
  by (auto dest: nat_str_digits simp: is_digit_def)

lemma split_id_rid_str: "split_id (rid_str r) = Inr (int (rid_ms r), int (rid_seq r))"
  by (simp add: split_id_def rid_str_def split_on_sep split_on_no_sep dash_not_in_nat_str)

lemma int_str_nat: "int_str (int n) = nat_str n"
  by (simp add: int_str_def)

lemma int_str_suc: "int_str (int n + 1) = nat_str (Suc n)"
  using int_str_nat [of "Suc n"] by (simp add: add.commute)

lemma rid_str_inj: "rid_str r = rid_str s \<Longrightarrow> r = s"
  using split_id_rid_str [of r] split_id_rid_str [of s] by (auto intro: redis_id.expand)

lemma increment_rid_str: "redis_id_increment (rid_str r) = Inr (rid_str (rid_next r))"
proof (cases "rid_seq r < 2 ^ 64 - 1")
  case True
  then have "int (rid_seq r) < 2 ^ 64 - 1" by simp
  with True show ?thesis
    unfolding redis_id_increment_def split_id_rid_str
    by (simp add: rid_str_def rid_next_def int_str_nat int_str_suc)
next
  case False
  then have "\<not> int (rid_seq r) < 2 ^ 64 - 1" by simp
  with False show ?thesis
    unfolding redis_id_increment_def split_id_rid_str
    using int_str_nat [of 0] by (simp add: rid_str_def rid_next_def int_str_suc)
qed

lemma compare_rid_str:
  "redis_id_compare (rid_str a) (rid_str b) = Inr (if a < b then -1 else if a = b then 0 else 1)"
  by (cases a; cases b)
    (auto simp: redis_id_compare_def split_id_rid_str less_redis_id_def)

text \<open>On ids in Redis form the textual increment returns the next valid id: the least
  64-bit id strictly above the given one, also across the wrap of the sequence number, and the
  textual comparison is the numeric order on ids.\<close>

lemma redis_id_successor:
  assumes "rid_ok r"
  shows "\<exists>n. redis_id_increment (rid_str r) = Inr (rid_str n) \<and> rid_ok n \<and> r < n \<and>
    (\<forall>s. rid_ok s \<and> r < s \<longrightarrow> n \<le> s) \<and>
    redis_id_compare (rid_str r) (rid_str n) = Inr (-1)"
  using assms by (intro exI [of _ "rid_next r"])
    (simp add: increment_rid_str compare_rid_str rid_next_gt rid_next_ok rid_next_least)

lemma redis_id_successor_witness:
  "\<exists>n. redis_id_increment (rid_str (Rid 7 (2 ^ 64 - 1))) = Inr (rid_str n) \<and> rid_ok n \<and>
    Rid 7 (2 ^ 64 - 1) < n \<and>
    (\<forall>s. rid_ok s \<and> Rid 7 (2 ^ 64 - 1) < s \<longrightarrow> n \<le> s) \<and>
    redis_id_compare (rid_str (Rid 7 (2 ^ 64 - 1))) (rid_str n) = Inr (-1)"
  by (rule redis_id_successor) (simp add: rid_ok_def)

end
