(* ===== verification/Database.thy ===== *)
theory Database
  imports Audit_Trail Redis_Ids
begin

text \<open>
  The Postgres tables the modelled operations read and write, as the ORM classes of
  \<open>aslan_core/models\<close> and the migrations declare them: one record per row type, a table
  as the list of its rows in insertion order, a \<open>BIGSERIAL\<close> column as a counter beside its
  table. Time stamps are instants in microseconds, dates proleptic ordinals
  (\<open>date.toordinal()\<close>), and the five audit columns are one \<open>audit_cols\<close> field.
\<close>

section \<open>Schema src\<close>

datatype run_status = Running | Succeeded | Failed

record ingestion_run =
  run_id :: int
  run_source_id :: string
  run_job_name :: string
  run_started_at :: int
  run_finished_at :: "int option"
  run_status :: run_status
  run_error_count :: int
  run_rows_written :: int
  run_docs_written :: int
  run_bytes_written :: int
  run_error :: "pystr option"
  run_config_hash :: "string option"
  run_metadata :: json
  run_actor_id :: "string option"
  run_actor_kind :: "actor_kind option"

record watermark =
  wm_source_id :: string
  wm_job_name :: string
  wm_key :: string
  wm_cursor_value :: string
  wm_updated_at :: int
  wm_audit :: audit_cols

section \<open>Schema streams\<close>

record outbox =
  ob_id :: int
  ob_stream_name :: string
  ob_event_id :: uuid
  ob_schema_version :: int
  ob_payload :: json
  ob_producer_run_id :: int
  ob_source_id :: string
  ob_created_at :: int
  ob_published_at :: "int option"
  ob_redis_message_id :: "redis_id option"
  ob_publish_attempts :: int
  ob_last_attempt_at :: "int option"
  ob_last_error :: "pystr option"
  ob_audit :: audit_cols

record deadletter_log =
  dl_failure_id :: int
  dl_stream_name :: string
  dl_deadletter_stream :: string
  dl_event_id :: uuid
  dl_original_message_id :: redis_id
  dl_group_name :: string
  dl_consumer_name :: string
  dl_failure_count :: int
  dl_last_error :: pystr
  dl_payload_excerpt :: pystr
  dl_routed_at :: int
  dl_routed_at_redis :: "int option"
  dl_redis_message_id :: "redis_id option"
  dl_actor_id :: "string option"
  dl_actor_kind :: "actor_kind option"
  dl_request_id :: "uuid option"

record deadletter_redis_index =
  ix_failure_id :: int
  ix_redis_message_id :: redis_id

record deadletter_xadd_intent =
  it_failure_id :: int
  it_stream_name :: string
  it_intent_at :: int
  it_redis_lower_bound_id :: redis_id
  it_owner_id :: string
  it_owner_heartbeat_at :: int

record redaction_entry =
  rr_event_id :: uuid
  rr_redaction_reason :: pystr
  rr_redacted_at :: int
  rr_original_stream :: pystr
  rr_redacted_payload :: json
  rr_redacted_payload_hash :: pystr
  rr_original_payload_hash :: pystr
  rr_actor_id :: "string option"
  rr_actor_kind :: "actor_kind option"
  rr_request_id :: "uuid option"

record event_id_to_redis =
  er_event_id :: uuid
  er_stream_name :: string
  er_redis_message_id :: redis_id
  er_published_at :: int
  er_redacted_at :: "int option"

section \<open>Schema ts\<close>

datatype pii_class = PiiNone | Pseudonymous | Identifying

record series_catalog =
  sr_id :: int
  sr_code :: pystr
  sr_source_id :: string
  sr_entity_id :: "uuid option"
  sr_metric :: string
  sr_frequency :: string
  sr_unit :: string
  sr_currency_code :: "string option"
  sr_restatement_basis :: string
  sr_accounting_standard :: "string option"
  sr_consolidation :: "string option"
  sr_period_type :: "string option"
  sr_description :: "pystr option"
  sr_pii_class :: pii_class
  sr_metadata :: json
  sr_audit :: audit_cols
  sr_created_at :: int
  sr_updated_at :: int

record series_subject =
  sj_series_id :: int
  sj_subject_id :: string
  sj_role :: string
  sj_actor_id :: "string option"
  sj_actor_kind :: "actor_kind option"
  sj_request_id :: "uuid option"
  sj_created_at :: int

record observation =
  obs_series_id :: int
  obs_ts :: int
  obs_as_of :: int
  obs_value :: "64 word option"
  obs_value_text :: "pystr option"
  obs_quality_flag :: int
  obs_ingestion_run_id :: int
  obs_payload_hash :: pystr
  obs_metadata :: json
  obs_audit :: audit_cols

datatype batch_action = Inserted | Unchanged

record observation_batch_key =
  bk_event_id :: int
  bk_occurred_at :: int
  bk_series_id :: int
  bk_ts :: int
  bk_as_of :: int
  bk_payload_hash :: pystr
  bk_action :: batch_action

section \<open>Schema ref\<close>

record entity =
  en_id :: uuid
  en_type :: string
  en_legal_name :: pystr
  en_short_name :: "pystr option"
  en_country_code :: string
  en_domicile :: "pystr option"
  en_incorporation_dt :: "int option"
  en_fiscal_year_end :: "int option"
  en_status :: string
  en_parent_entity_id :: "uuid option"
  en_metadata :: json
  en_source_id :: string
  en_ingestion_run_id :: int
  en_created_at :: int
  en_updated_at :: int
  en_audit :: audit_cols

record identifier_row =
  id_id :: int
  id_entity_id :: uuid
  id_namespace :: string
  id_value :: pystr
  id_valid_from :: int
  id_valid_to :: int
  id_is_primary :: bool
  id_source_id :: string
  id_ingestion_run_id :: int
  id_created_at :: int
  id_audit :: audit_cols

record sector =
  sc_id :: string
  sc_taxonomy :: string
  sc_code :: string
  sc_name_tr :: pystr
  sc_name_en :: "pystr option"
  sc_parent_sector_id :: "string option"
  sc_audit :: audit_cols

record entity_sector =
  es_entity_id :: uuid
  es_sector_id :: string
  es_is_primary :: bool
  es_valid_from :: int
  es_valid_to :: int
  es_audit :: audit_cols

text \<open>A finite \<open>Decimal\<close> (a \<open>NUMERIC\<close>): coefficient and decimal exponent.\<close>

type_synonym decimal = "int \<times> int"

record entity_relationship =
  rl_id :: int
  rl_parent_id :: uuid
  rl_child_id :: uuid
  rl_type :: string
  rl_weight :: "decimal option"
  rl_valid_from :: int
  rl_valid_to :: int
  rl_metadata :: json
  rl_source_id :: string
  rl_ingestion_run_id :: int
  rl_created_at :: int
  rl_audit :: audit_cols

section \<open>Schema doc\<close>

record filing =
  fl_id :: uuid
  fl_source_id :: string
  fl_ref :: pystr
  fl_entity_id :: "uuid option"
  fl_kind :: string
  fl_subkind :: "string option"
  fl_title :: pystr
  fl_language :: string
  fl_published_at :: int
  fl_period_start :: "int option"
  fl_period_end :: "int option"
  fl_source_url :: "string option"
  fl_is_amendment :: bool
  fl_previous_id :: "uuid option"
  fl_object_key :: pystr
  fl_mime :: string
  fl_sha256 :: pystr
  fl_bytes :: int
  fl_has_xbrl :: bool
  fl_xbrl_key :: "pystr option"
  fl_metadata :: "(pystr \<times> json) list"
  fl_run_id :: int
  fl_discovered_at :: int
  fl_revision_no :: int
  fl_audit :: audit_cols

text \<open>The surrogate key of an attachment is left out.\<close>

record filing_attachment =
  fa_filing_id :: uuid
  fa_object_key :: pystr
  fa_mime :: string
  fa_sha256 :: pystr
  fa_bytes :: int
  fa_role :: string
  fa_sequence :: int
  fa_created_at :: int

record filing_body =
  fb_filing_id :: uuid
  fb_text :: pystr
  fb_lang :: string
  fb_extracted_at :: int
  fb_audit :: audit_cols

section \<open>The database\<close>

record db =
  audit_events :: audit_log
  batch_keys :: "observation_batch_key list"
  sources :: "string list"
  runs :: "ingestion_run list"
  run_seq :: int
  watermarks :: "watermark list"
  outboxes :: "outbox list"
  outbox_seq :: int
  event_redis :: "event_id_to_redis list"
  dl_log :: "deadletter_log list"
  dl_seq :: int
  dl_index :: "deadletter_redis_index list"
  dl_intent :: "deadletter_xadd_intent list"
  redactions :: "redaction_entry list"
  series :: "series_catalog list"
  series_seq :: int
  subjects :: "series_subject list"
  observations :: "observation list"
  entities :: "entity list"
  identifiers :: "identifier_row list"
  ident_seq :: int
  sectors :: "sector list"
  entity_sectors :: "entity_sector list"
  relationships :: "entity_relationship list"
  rel_seq :: int
  filings :: "filing list"
  attachments :: "filing_attachment list"
  bodies :: "filing_body list"

definition empty_db :: "string list \<Rightarrow> db" where
  "empty_db srcs =
     \<lparr>audit_events = \<lparr>events = [], event_seq = 1\<rparr>, batch_keys = [], sources = srcs,
      runs = [], run_seq = 1, watermarks = [], outboxes = [], outbox_seq = 1,
      event_redis = [], dl_log = [], dl_seq = 1, dl_index = [], dl_intent = [],
      redactions = [], series = [], series_seq = 1, subjects = [], observations = [],
      entities = [], identifiers = [], ident_seq = 1, sectors = [], entity_sectors = [],
      relationships = [], rel_seq = 1, filings = [], attachments = [], bodies = []\<rparr>"

text \<open>
  \<open>audit.record\<close> on the caller's session: the recorder runs on the audit log of the
  database the session sees.
\<close>

definition audit :: "ctx \<Rightarrow> audit_record \<Rightarrow> (error, db, unit) op" where
  "audit c r = (\<lambda>d. case record_event c r (audit_events d) of
     (res, l) \<Rightarrow> (res, d\<lparr>audit_events := l\<rparr>))"

lemma audit_eval:
  "audit c r d = (if ctx_actor c = None \<and> ctx_strict c then (Inl (AuditE AuditMissingActor), d)
     else (Inr (), d\<lparr>audit_events := log_event (attributed_event c r) (audit_events d)\<rparr>))"
  by (simp add: audit_def record_event_def raise_def modify_def)

lemma audit_Inr_iff:
  "audit c r d = (Inr u, d') \<longleftrightarrow>
     \<not> (ctx_actor c = None \<and> ctx_strict c) \<and>
     d' = d\<lparr>audit_events := log_event (attributed_event c r) (audit_events d)\<rparr>"
  by (auto simp: audit_eval)

lemma audit_Inl_iff:
  "audit c r d = (Inl e, d') \<longleftrightarrow>
     ctx_actor c = None \<and> ctx_strict c \<and> e = AuditE AuditMissingActor \<and> d' = d"
  by (auto simp: audit_eval)

lemma bnd_audit [simp]:
  "bnd (audit c r) f d = (if ctx_actor c = None \<and> ctx_strict c
     then (Inl (AuditE AuditMissingActor), d)
     else f () (d\<lparr>audit_events := log_event (attributed_event c r) (audit_events d)\<rparr>))"
  by (simp add: bnd_def audit_eval)

lemma thn_audit [simp]:
  "thn (audit c r) k d = (if ctx_actor c = None \<and> ctx_strict c
     then (Inl (AuditE AuditMissingActor), d)
     else k (d\<lparr>audit_events := log_event (attributed_event c r) (audit_events d)\<rparr>))"
  by (simp add: thn_def)

lemma keeps_audit:
  "(\<And>d l. P d \<Longrightarrow> P (d\<lparr>audit_events := l\<rparr>)) \<Longrightarrow> keeps P (audit c r)"
  by (auto simp: keeps_def audit_eval)

text \<open>
  The order in which the audit trail grows: \<open>audit.events\<close> is append-only.
\<close>

definition trail_le :: "db \<Rightarrow> db \<Rightarrow> bool" where
  "trail_le d d' \<longleftrightarrow> log_le (audit_events d) (audit_events d')"

interpretation trail: growth trail_le
  by unfold_locales (auto simp: trail_le_def intro: log_growth.le_refl log_growth.le_trans)

lemma audit_trail: "trail.grows (audit c r)"
  unfolding trail.grows_def trail_le_def
  by (simp add: audit_eval log_event_le log_growth.le_refl)

lemma assert_actor_trail: "trail.grows (assert_actor_or_strict_raise c)"
  by (simp add: trail.grows_def assert_actor_cases trail.le_refl)

text \<open>
  The contract of every audited mutation: in strict mode an operation without an actor
  fails and leaves the database untouched, and whatever it does the audit trail only
  grows. The clients of the contract are batches of mutations run one after the other.
\<close>

locale audited_mutation =
  fixes mutate :: "ctx \<Rightarrow> 'x \<Rightarrow> (error, db, 'a) op"
  assumes strict_rejects:
      "ctx_strict c \<Longrightarrow> ctx_actor c = None \<Longrightarrow> \<exists>e. mutate c x d = (Inl e, d)"
    and trail_grows: "trail.grows (mutate c x)"
begin

lemma batch_strict_rejects:
  assumes "ctx_strict c" "ctx_actor c = None" "xs \<noteq> []"
  shows "\<exists>e. for_each (\<lambda>x. bnd (mutate c x) (\<lambda>_. ret ())) xs d = (Inl e, d)"
proof -
  obtain x xs' where xs: "xs = x # xs'" using assms(3) by (cases xs) auto
  obtain e where "mutate c x d = (Inl e, d)"
    using strict_rejects [OF assms(1,2)] by blast
  then show ?thesis by (simp add: xs thn_def bnd_def)
qed

lemma batch_trail_grows: "trail.grows (for_each (\<lambda>x. bnd (mutate c x) (\<lambda>_. ret ())) xs)"
  by (intro trail.grows_for_each trail.grows_bnd trail_grows trail.grows_ret)

lemma success_is_allowed:
  "mutate c x d = (Inr y, d') \<Longrightarrow> ctx_strict c \<Longrightarrow> ctx_actor c \<noteq> None"
  by (metis prod.inject strict_rejects sum.distinct(1))

end

text \<open>A database with one source and one run, for concrete runs.\<close>

definition sample_run :: ingestion_run where
  "sample_run = \<lparr>run_id = 1, run_source_id = ''kap'', run_job_name = ''daily'', run_started_at = 0,
     run_finished_at = None, run_status = Running, run_error_count = 0, run_rows_written = 0,
     run_docs_written = 0, run_bytes_written = 0, run_error = None, run_config_hash = None,
     run_metadata = JObj [], run_actor_id = None, run_actor_kind = None\<rparr>"

definition sample_db :: db where
  "sample_db = (empty_db [''kap''])\<lparr>runs := [sample_run], run_seq := 2\<rparr>"

end
