(* ===== verification/Redis_Service.thy ===== *)
theory Redis_Service
  imports Database
begin

text \<open>
  Redis streams as the code sees them. Redis is not part of the repository, so its
  commands are a parameter: a record of functions over an abstract server state \<open>'r\<close>,
  passed to every operation that calls Redis. What the code relies on is the contract
  \<open>redis_streams\<close>: documented behaviour of \<open>XADD\<close> (plain and with an approximate \<open>MAXLEN\<close>, which may drop
  entries at the old end), \<open>XDEL\<close>, \<open>XRANGE\<close>, \<open>XREVRANGE COUNT 1\<close> and \<open>XINFO STREAM\<close>
  in terms of the entry list of each stream, where every command may also fail. A failed
  \<open>XADD\<close> may or may not have been applied. The in-memory server below satisfies it.
\<close>

type_synonym fields = "(string \<times> pystr) list"

record 'r redis_api =
  xinfo_last :: "'r \<Rightarrow> string \<Rightarrow> service_error + redis_id option"
  xrange :: "'r \<Rightarrow> string \<Rightarrow> redis_id \<Rightarrow> redis_id \<Rightarrow> nat \<Rightarrow> service_error + (redis_id \<times> fields) list"
  xadd :: "string \<Rightarrow> fields \<Rightarrow> 'r \<Rightarrow> (service_error + redis_id) \<times> 'r"
  xdel :: "string \<Rightarrow> redis_id \<Rightarrow> 'r \<Rightarrow> (service_error + unit) \<times> 'r"
  xadd_maxlen :: "string \<Rightarrow> fields \<Rightarrow> nat \<Rightarrow> 'r \<Rightarrow> (service_error + redis_id) \<times> 'r"
  xrev_last :: "'r \<Rightarrow> string \<Rightarrow> service_error + redis_id option"

definition in_range :: "redis_id \<Rightarrow> redis_id \<Rightarrow> redis_id \<times> fields \<Rightarrow> bool" where
  "in_range lo hi e \<longleftrightarrow> lo \<le> fst e \<and> fst e \<le> hi"

lemma last_take_less:
  assumes "sorted_wrt (<) (map fst F)" and "e \<in> set (drop n F)" and "take n F \<noteq> []"
  shows "fst (last (take n F)) < (fst e :: redis_id)"
proof -
  have "sorted_wrt (<) (map fst (take n F) @ map fst (drop n F))"
    using assms(1) by (simp flip: map_append)
  moreover have "last (take n F) \<in> set (take n F)"
    using assms(3) by simp
  ultimately show ?thesis
    using assms(2) by (fastforce simp: sorted_wrt_append)
qed

lemma take_le_last:
  assumes "sorted_wrt (<) (map fst F)" and "e \<in> set (take n F)"
  shows "(fst e :: redis_id) \<le> fst (last (take n F))"
proof -
  have "sorted (map fst (take n F))"
    using assms(1) by (simp add: take_map [symmetric] strict_sorted_imp_sorted sorted_wrt_take)
  moreover have "e = last (take n F) \<or> e \<in> set (butlast (take n F))"
    using assms(2) by (cases "take n F" rule: rev_cases) auto
  ultimately show ?thesis
    by (cases "take n F" rule: rev_cases) (auto simp: sorted_append)
qed

text \<open>The entries from the next cursor on are exactly those the page left out.\<close>

lemma next_cursor_drop:
  assumes "sorted_wrt (<) (map fst F)" and "\<And>e. e \<in> set F \<Longrightarrow> rid_ok (fst e)"
    and "take n F \<noteq> []"
  shows "filter (\<lambda>e. rid_next (fst (last (take n F))) \<le> fst e) F = drop n F"
proof -
  let ?c = "rid_next (fst (last (take n F)))"
  have "filter (\<lambda>e. ?c \<le> fst e) (take n F) = []"
    using take_le_last [OF assms(1)] rid_next_gt
    by (auto simp: filter_empty_conv) (meson leD le_less_trans order_le_less_trans)
  moreover have "filter (\<lambda>e. ?c \<le> fst e) (drop n F) = drop n F"
    unfolding filter_id_conv
    using last_take_less [OF assms(1) _ assms(3)] assms(2) rid_next_least in_set_dropD by metis
  moreover have "filter (\<lambda>e. ?c \<le> fst e) F =
      filter (\<lambda>e. ?c \<le> fst e) (take n F) @ filter (\<lambda>e. ?c \<le> fst e) (drop n F)"
    by (metis append_take_drop_id filter_append)
  ultimately show ?thesis by simp
qed

lemma filter_in_range_empty: "hi < c \<Longrightarrow> filter (in_range c hi) E = []"
  by (auto simp: filter_empty_conv in_range_def)

locale redis_streams =
  fixes R :: "'r redis_api"
    and entries :: "'r \<Rightarrow> string \<Rightarrow> (redis_id \<times> fields) list"
  assumes entries_sorted: "sorted_wrt (<) (map fst (entries r st))"
    and entries_rid_ok: "e \<in> set (entries r st) \<Longrightarrow> rid_ok (fst e)"
    and entries_nonzero: "e \<in> set (entries r st) \<Longrightarrow> fst e \<noteq> rid_zero"
    and xinfo_Some: "xinfo_last R r st = Inr (Some i) \<Longrightarrow>
           entries r st \<noteq> [] \<and> fst (last (entries r st)) = i"
    and xinfo_None: "xinfo_last R r st = Inr None \<Longrightarrow> entries r st = []"
    and xinfo_no_key: "xinfo_last R r st = Inl RedisNoSuchKey \<Longrightarrow> entries r st = []"
    and xrange_page: "xrange R r st lo hi n = Inr es \<Longrightarrow>
           es = take n (filter (in_range lo hi) (entries r st))"
    and xadd_ok: "xadd R st f r = (Inr i, r') \<Longrightarrow> entries r' st = entries r st @ [(i, f)]"
    and xadd_error: "xadd R st f r = (Inl x, r') \<Longrightarrow>
           entries r' st = entries r st \<or> (\<exists>i. entries r' st = entries r st @ [(i, f)])"
    and xadd_frame: "xadd R st f r = (res, r') \<Longrightarrow> st' \<noteq> st \<Longrightarrow> entries r' st' = entries r st'"
    and xdel_ok: "xdel R st i r = (Inr u, r') \<Longrightarrow>
           entries r' st = filter (\<lambda>e. fst e \<noteq> i) (entries r st)"
    and xdel_frame: "xdel R st i r = (dres, r') \<Longrightarrow> st' \<noteq> st \<Longrightarrow> entries r' st' = entries r st'"
    and xadd_maxlen_ok: "xadd_maxlen R st f n r = (Inr i, r') \<Longrightarrow> 0 < n \<Longrightarrow>
           (\<exists>k. entries r' st = drop k (entries r st) @ [(i, f)]) \<and> (\<forall>e \<in> set (entries r st). fst e < i)"
    and xadd_maxlen_error: "xadd_maxlen R st f n r = (Inl x, r') \<Longrightarrow> 0 < n \<Longrightarrow>
           (\<exists>k. entries r' st = drop k (entries r st)) \<or>
           (\<exists>i. (\<exists>k. entries r' st = drop k (entries r st) @ [(i, f)]) \<and> (\<forall>e \<in> set (entries r st). fst e < i))"
    and xadd_maxlen_frame: "xadd_maxlen R st f n r = (res, r') \<Longrightarrow> st' \<noteq> st \<Longrightarrow> entries r' st' = entries r st'"
    and xrev_last_Some: "xrev_last R r st = Inr (Some i) \<Longrightarrow>
           entries r st \<noteq> [] \<and> fst (last (entries r st)) = i"
    and xrev_last_None: "xrev_last R r st = Inr None \<Longrightarrow> entries r st = []"
begin

lemma entries_distinct: "distinct (map fst (entries r st))"
  using entries_sorted [of r st] strict_sorted_iff by blast

lemma entry_le_last:
  assumes "e \<in> set (entries r st)"
  shows "fst e \<le> fst (last (entries r st))"
proof -
  from assms obtain i where i: "i < length (entries r st)" "entries r st ! i = e"
    by (auto simp: in_set_conv_nth)
  have ne: "entries r st \<noteq> []" using assms by auto
  show ?thesis
  proof (cases "i = length (entries r st) - 1")
    case True
    with i ne show ?thesis by (simp add: last_conv_nth)
  next
    case False
    with i have "i < length (entries r st) - 1" by simp
    with entries_sorted [of r st] ne have
      "map fst (entries r st) ! i < map fst (entries r st) ! (length (entries r st) - 1)"
      by (intro sorted_wrt_nth_less [of "(<)"]) auto
    with i ne show ?thesis by (simp add: last_conv_nth)
  qed
qed

text \<open>Paging with \<open>XRANGE .. COUNT n\<close>: from the successor of a page's last id on lie exactly
  the entries the page left out.\<close>

lemma next_page:
  assumes "take n (filter (in_range cur hi) (entries r st)) \<noteq> []" (is "take n ?F \<noteq> []")
  shows "filter (in_range (rid_next (fst (last (take n ?F)))) hi) (entries r st) = drop n ?F"
proof -
  let ?c = "rid_next (fst (last (take n ?F)))"
  have "last (take n ?F) \<in> set ?F"
    using assms by (meson in_set_takeD last_in_set)
  then have "cur \<le> fst (last (take n ?F))" by (simp add: in_range_def)
  then have cur: "cur \<le> ?c" using rid_next_gt by (meson le_less_trans less_imp_le)
  have "sorted_wrt (<) (map fst ?F)"
    using entries_sorted [of r st] by (simp add: sorted_wrt_map sorted_wrt_filter)
  then have "filter (\<lambda>e. ?c \<le> fst e) ?F = drop n ?F"
    using assms entries_rid_ok by (intro next_cursor_drop) auto
  moreover have "filter (in_range ?c hi) (entries r st) = filter (\<lambda>e. ?c \<le> fst e) ?F"
    using cur by (auto simp: in_range_def intro!: filter_cong)
  ultimately show ?thesis by simp
qed

text \<open>The id \<open>XADD\<close> assigns is above every id already in the stream.\<close>

lemma xadd_fresh:
  assumes "xadd R st f r = (Inr i, r')" and "e \<in> set (entries r st)"
  shows "fst e < i"
  using entries_sorted [of r' st] assms
  by (auto simp: xadd_ok [OF assms(1)] sorted_wrt_append)

end

text \<open>A server that answers: reads fail only because the key does not exist.\<close>

definition redis_up :: "'r redis_api \<Rightarrow> 'r \<Rightarrow> string \<Rightarrow> bool" where
  "redis_up R r st \<longleftrightarrow>
     (\<forall>x. xinfo_last R r st = Inl x \<longrightarrow> x = RedisNoSuchKey) \<and>
     (\<forall>lo hi n. \<exists>es. xrange R r st lo hi n = Inr es)"

section \<open>An in-memory server\<close>

text \<open>
  The concrete server used to exhibit the contract: a clock that numbers entries, the
  entry lists, and the streams that exist. It never fails except for the missing key.
\<close>

record mem_redis =
  mr_clock :: nat
  mr_streams :: "string \<Rightarrow> (redis_id \<times> fields) list"

text \<open>States in which ids were handed out by the clock, in order.\<close>

definition mem_ok :: "mem_redis \<Rightarrow> bool" where
  "mem_ok r \<longleftrightarrow> (\<forall>st. sorted_wrt (<) (map fst (mr_streams r st)) \<and>
     (\<forall>e \<in> set (mr_streams r st). rid_seq (fst e) = 0 \<and> 0 < rid_ms (fst e) \<and> rid_ms (fst e) < mr_clock r)) \<and> 0 < mr_clock r"

typedef mem_server = "{r. mem_ok r}"
  by (rule exI [of _ "\<lparr>mr_clock = 1, mr_streams = (\<lambda>_. [])\<rparr>"]) (simp add: mem_ok_def)

setup_lifting type_definition_mem_server

lift_definition mem_empty :: mem_server is "\<lparr>mr_clock = 1, mr_streams = (\<lambda>_. [])\<rparr>"
  by (simp add: mem_ok_def)

lift_definition ms_entries :: "mem_server \<Rightarrow> string \<Rightarrow> (redis_id \<times> fields) list" is mr_streams .

lift_definition ms_clock :: "mem_server \<Rightarrow> nat" is mr_clock .

lift_definition ms_add :: "string \<Rightarrow> fields \<Rightarrow> mem_server \<Rightarrow> mem_server" is
  "\<lambda>st f r. r\<lparr>mr_clock := Suc (mr_clock r),
     mr_streams := (mr_streams r)(st := mr_streams r st @ [(Rid (mr_clock r) 0, f)])\<rparr>"
  by (fastforce simp: mem_ok_def sorted_wrt_append less_redis_id_def)

lift_definition ms_del :: "string \<Rightarrow> redis_id \<Rightarrow> mem_server \<Rightarrow> mem_server" is
  "\<lambda>st i r. r\<lparr>mr_streams := (mr_streams r)(st := filter (\<lambda>e. fst e \<noteq> i) (mr_streams r st))\<rparr>"
  by (fastforce simp: mem_ok_def sorted_wrt_map intro: sorted_wrt_filter)

definition mem_api :: "mem_server redis_api" where
  "mem_api =
     \<lparr>xinfo_last = (\<lambda>r st. if ms_entries r st = [] then Inl RedisNoSuchKey
                            else Inr (Some (fst (last (ms_entries r st))))),
      xrange = (\<lambda>r st lo hi n. Inr (take n (filter (in_range lo hi) (ms_entries r st)))),
      xadd = (\<lambda>st f r. (Inr (Rid (ms_clock r) 0), ms_add st f r)),
      xdel = (\<lambda>st i r. (Inr (), ms_del st i r)),
      xadd_maxlen = (\<lambda>st f n r. (Inr (Rid (ms_clock r) 0), ms_add st f r)),
      xrev_last = (\<lambda>r st. Inr (if ms_entries r st = [] then None
                                else Some (fst (last (ms_entries r st)))))\<rparr>"

lemma ms_entries_sorted: "sorted_wrt (<) (map fst (ms_entries r st))"
  by transfer (simp add: mem_ok_def)

lemma ms_entries_seq:
  "e \<in> set (ms_entries r st) \<Longrightarrow> rid_seq (fst e) = 0 \<and> fst e \<noteq> rid_zero"
  by transfer (force simp: mem_ok_def rid_zero_def)

lemma ms_entries_empty [simp]: "ms_entries mem_empty st = []"
  by transfer simp

lemma ms_clock_empty [simp]: "ms_clock mem_empty = 1"
  by transfer simp

lemma ms_clock_add [simp]: "ms_clock (ms_add st f r) = Suc (ms_clock r)"
  by transfer simp

lemma ms_entries_add [simp]:
  "ms_entries (ms_add st f r) st' =
     (if st' = st then ms_entries r st @ [(Rid (ms_clock r) 0, f)] else ms_entries r st')"
  by transfer simp

lemma ms_entries_del [simp]:
  "ms_entries (ms_del st i r) st' =
     (if st' = st then filter (\<lambda>e. fst e \<noteq> i) (ms_entries r st) else ms_entries r st')"
  by transfer simp

lemma ms_entries_below:
  "e \<in> set (ms_entries r st) \<Longrightarrow> fst e < Rid (ms_clock r) 0"
  by transfer (force simp: mem_ok_def less_redis_id_def)

interpretation mem: redis_streams mem_api ms_entries
  by unfold_locales
    (auto simp: mem_api_def ms_entries_sorted ms_entries_seq rid_ok_def ms_entries_below
      intro: exI [of _ 0] dest: ms_entries_below split: if_splits)

lemma mem_up: "redis_up mem_api r st"
  by (simp add: redis_up_def mem_api_def)

section \<open>Worlds: the committed database and the server\<close>

record 'r world =
  wdb :: db
  wredis :: 'r

text \<open>
  \<open>async with session_factory() as session: ...; await session.commit()\<close>: the block runs
  on the committed database and takes effect as a whole or, when it raises, not at all.
\<close>

definition in_db :: "(error, db, 'a) op \<Rightarrow> (error, 'r world, 'a) op" where
  "in_db m = (\<lambda>w. case run_tx m (wdb w) of (res, d) \<Rightarrow> (res, w\<lparr>wdb := d\<rparr>))"

definition read_redis :: "('r \<Rightarrow> service_error + 'a) \<Rightarrow> (error, 'r world, 'a) op" where
  "read_redis f = (\<lambda>w. (case f (wredis w) of Inl x \<Rightarrow> Inl (ServiceE x) | Inr y \<Rightarrow> Inr y, w))"

definition on_redis :: "('r \<Rightarrow> (service_error + 'a) \<times> 'r) \<Rightarrow> (error, 'r world, 'a) op" where
  "on_redis f = (\<lambda>w. case f (wredis w) of
     (Inl x, r) \<Rightarrow> (Inl (ServiceE x), w\<lparr>wredis := r\<rparr>)
   | (Inr y, r) \<Rightarrow> (Inr y, w\<lparr>wredis := r\<rparr>))"

text \<open>\<open>try: ... except RedisError: log\<close> around a command whose failure is ignored.\<close>

definition try_redis :: "('r \<Rightarrow> (service_error + 'a) \<times> 'r) \<Rightarrow> (error, 'r world, unit) op" where
  "try_redis f = (\<lambda>w. (Inr (), w\<lparr>wredis := snd (f (wredis w))\<rparr>))"

lemma in_db_Inr_iff:
  "in_db m w = (Inr x, w') \<longleftrightarrow> (\<exists>d. m (wdb w) = (Inr x, d) \<and> w' = w\<lparr>wdb := d\<rparr>)"
  by (auto simp: in_db_def run_tx_def split: prod.splits sum.splits)

lemma in_db_Inl: "in_db m w = (Inl e, w') \<Longrightarrow> w' = w"
  by (auto simp: in_db_def run_tx_def split: prod.splits sum.splits)

lemma in_db_eval:
  "m (wdb w) = (Inr x, d) \<Longrightarrow> in_db m w = (Inr x, w\<lparr>wdb := d\<rparr>)"
  by (simp add: in_db_Inr_iff)

lemma in_db_frame: "in_db m w = (res, w') \<Longrightarrow> wredis w' = wredis w"
  by (auto simp: in_db_def split: prod.splits)

lemma spec_in_db:
  assumes "spec P m Q (\<lambda>_. True)"
  shows "spec (\<lambda>w. P (wdb w)) (in_db m) (\<lambda>x w. Q x (wdb w)) (\<lambda>w. P (wdb w))"
proof (rule specI)
  fix w x w' assume "P (wdb w)" "in_db m w = (Inr x, w')"
  then show "Q x (wdb w')"
    using assms unfolding in_db_Inr_iff by (metis select_convs(1) spec_InrD surjective update_convs(1))
next
  fix w e w' assume "P (wdb w)" "in_db m w = (Inl e, w')"
  then show "P (wdb w')" using in_db_Inl by blast
qed

lemma spec_on_redis:
  "spec (\<lambda>w. P (wdb w)) (on_redis f) (\<lambda>_ w. P (wdb w)) (\<lambda>w. P (wdb w))"
  by (rule specI) (auto simp: on_redis_def split: prod.splits sum.splits)

lemma spec_try_redis:
  "spec (\<lambda>w. P (wdb w)) (try_redis f) (\<lambda>_ w. P (wdb w)) E"
  by (rule specI) (auto simp: try_redis_def)

end
