(* ===== verification/Deadletter.thy ===== *)
theory Deadletter
  imports Redis_Service
begin

text \<open>
  Dead-letter routing (\<open>streams/deadletter.py\<close>): the paginated orphan scan, the intent
  acquisition and adoption procedure, and the six-step routing protocol with its
  Postgres-first recovery anchors. The operations take the Redis interface \<open>R\<close> as a
  parameter. Other workers act between two steps of a routing call; what they commit is
  the interference \<open>ifr n\<close> applied at the \<open>n\<close>-th step boundary, and \<open>env\<close> between the
  two statements of \<open>acquire_or_adopt_intent\<close>. Prometheus counters are not part of the state.
\<close>

section \<open>Results\<close>

datatype routing_result =
    RoutingComplete redis_id
  | RoutingReconciledByAdoption redis_id
  | RoutingAborted

datatype adoption_action = Own | ReconciledByUs | Abort

record adoption_result =
  action :: adoption_action
  lower_bound :: "redis_id option"
  adopted_message_id :: "redis_id option"

section \<open>The orphan scan\<close>

definition entry_failure_id :: "fields \<Rightarrow> int option" where
  "entry_failure_id fs =
     py_int (case map_of fs ''failure_id'' of None \<Rightarrow> lit ''-1'' | Some v \<Rightarrow> v)"

definition page_hit :: "int \<Rightarrow> (redis_id \<times> fields) list \<Rightarrow> redis_id option" where
  "page_hit fid page = map_option fst (List.find (\<lambda>e. entry_failure_id (snd e) = Some fid) page)"

fun scan_pages ::
  "'r redis_api \<Rightarrow> 'r \<Rightarrow> string \<Rightarrow> int \<Rightarrow> nat \<Rightarrow> redis_id \<Rightarrow> nat \<Rightarrow> redis_id \<Rightarrow>
   error + redis_id option" where
  "scan_pages R r st fid psize hi 0 cur = Inl OutOfFuel"
| "scan_pages R r st fid psize hi (Suc fuel) cur =
     (case xrange R r st cur hi psize of
        Inl x \<Rightarrow> Inl (ServiceE x)
      | Inr page \<Rightarrow>
          if page = [] then Inr None
          else (case page_hit fid page of
             Some i \<Rightarrow> Inr (Some i)
           | None \<Rightarrow>
               let cur' = rid_next (fst (last page))
               in if hi < cur' then Inr None else scan_pages R r st fid psize hi fuel cur'))"

definition find_orphan_in_deadletter_stream ::
  "'r redis_api \<Rightarrow> 'r \<Rightarrow> nat \<Rightarrow> string \<Rightarrow> redis_id \<Rightarrow> int \<Rightarrow> nat \<Rightarrow> error + redis_id option" where
  "find_orphan_in_deadletter_stream R r fuel stream lb fid psize =
     (case xinfo_last R r (stream @ ''.deadletter'') of
        Inl RedisNoSuchKey \<Rightarrow> Inr None
      | Inl x \<Rightarrow> Inl (ServiceE x)
      | Inr None \<Rightarrow> Inr None
      | Inr (Some hi) \<Rightarrow>
          if hi = rid_zero then Inr None
          else scan_pages R r (stream @ ''.deadletter'') fid psize hi fuel lb)"

section \<open>Intent acquisition and adoption\<close>

definition intent_of :: "int \<Rightarrow> db \<Rightarrow> deadletter_xadd_intent option" where
  "intent_of fid d = sql_find (\<lambda>i. it_failure_id i = fid) (dl_intent d)"

definition index_of :: "int \<Rightarrow> db \<Rightarrow> redis_id option" where
  "index_of fid d =
     map_option ix_redis_message_id (sql_find (\<lambda>i. ix_failure_id i = fid) (dl_index d))"

definition log_of :: "int \<Rightarrow> db \<Rightarrow> deadletter_log option" where
  "log_of fid d = sql_find (\<lambda>l. dl_failure_id l = fid) (dl_log d)"

definition mark_routed :: "ctx \<Rightarrow> int \<Rightarrow> redis_id \<Rightarrow> deadletter_log list \<Rightarrow> deadletter_log list" where
  "mark_routed c fid rid =
     sql_update (\<lambda>l. dl_failure_id l = fid \<and> dl_routed_at_redis l = None)
       (\<lambda>l. l\<lparr>dl_redis_message_id := Some rid, dl_routed_at_redis := Some (ctx_now c)\<rparr>)"

definition deadletter_audit :: "ctx \<Rightarrow> string \<Rightarrow> int \<Rightarrow> json \<Rightarrow> (error, db, unit) op" where
  "deadletter_audit c oper fid md = audit c
     \<lparr>ar_operation = oper, ar_target_schema = ''streams'', ar_target_table = ''deadletter_log'',
      ar_target_pk = jobj [(''failure_id'', JInt fid)], ar_before = None, ar_after = None,
      ar_metadata = md, ar_ingestion_run_id = None\<rparr>"

text \<open>Branch 2c-i: the prior owner's entry is in the stream.\<close>

definition reconcile_orphan ::
  "ctx \<Rightarrow> int \<Rightarrow> deadletter_xadd_intent \<Rightarrow> redis_id \<Rightarrow> (error, db, adoption_result) op" where
  "reconcile_orphan c fid existing orphan =
     thn (modify (\<lambda>d. d\<lparr>dl_index := sql_insert_dn ix_failure_id
            \<lparr>ix_failure_id = fid, ix_redis_message_id = orphan\<rparr> (dl_index d)\<rparr>))
    (bnd (gets (index_of fid)) (\<lambda>found.
      case found of
        None \<Rightarrow> raise (ServiceE NoResultFound)
      | Some canonical \<Rightarrow>
          thn (modify (\<lambda>d. d\<lparr>dl_log := mark_routed c fid canonical (dl_log d)\<rparr>))
         (thn (modify (\<lambda>d. d\<lparr>dl_intent := sql_delete (\<lambda>i. it_failure_id i = fid) (dl_intent d)\<rparr>))
         (thn (deadletter_audit c ''stream.deadletter_orphan_reconciled'' fid
                (jobj [(''redis_message_id'', JStr (rid_str canonical)),
                       (''via'', jlit ''stale_adoption''),
                       (''prior_owner'', jlit (it_owner_id existing)),
                       (''prior_lower_bound'', JStr (rid_str (it_redis_lower_bound_id existing)))]))
         (ret \<lparr>action = ReconciledByUs, lower_bound = None,
               adopted_message_id = Some canonical\<rparr>)))))"

text \<open>Branch 2c-ii: it never landed.\<close>

definition replace_and_own ::
  "ctx \<Rightarrow> int \<Rightarrow> string \<Rightarrow> redis_id \<Rightarrow> deadletter_xadd_intent \<Rightarrow> (error, db, adoption_result) op" where
  "replace_and_own c fid me lb existing =
     thn (modify (\<lambda>d. d\<lparr>dl_intent := sql_update (\<lambda>i. it_failure_id i = fid)
            (\<lambda>i. i\<lparr>it_owner_id := me, it_owner_heartbeat_at := ctx_now c,
                   it_intent_at := ctx_now c, it_redis_lower_bound_id := lb\<rparr>) (dl_intent d)\<rparr>))
    (thn (deadletter_audit c ''stream.deadletter_orphan_lost'' fid
            (jobj [(''action'', jlit ''lost''), (''via'', jlit ''stale_adoption''),
                   (''prior_owner'', jlit (it_owner_id existing)),
                   (''prior_lower_bound'', JStr (rid_str (it_redis_lower_bound_id existing)))]))
    (ret \<lparr>action = Own, lower_bound = Some lb, adopted_message_id = None\<rparr>))"

text \<open>Step 2: the conflicting row, locked.\<close>

definition stale_age :: int where
  "stale_age = 60 * 10 ^ 6"

definition adopt_existing ::
  "'r redis_api \<Rightarrow> 'r \<Rightarrow> nat \<Rightarrow> ctx \<Rightarrow> int \<Rightarrow> string \<Rightarrow> redis_id \<Rightarrow> string \<Rightarrow>
   deadletter_xadd_intent \<Rightarrow> (error, db, adoption_result) op" where
  "adopt_existing R r fuel c fid me lb stream existing =
     (if it_owner_id existing = me then
        thn (modify (\<lambda>d. d\<lparr>dl_intent := sql_update (\<lambda>i. it_failure_id i = fid)
               (\<lambda>i. i\<lparr>it_owner_heartbeat_at := ctx_now c\<rparr>) (dl_intent d)\<rparr>))
        (ret \<lparr>action = Own, lower_bound = Some (it_redis_lower_bound_id existing),
              adopted_message_id = None\<rparr>)
      else if ctx_now c - it_owner_heartbeat_at existing < stale_age then
        ret \<lparr>action = Abort, lower_bound = None, adopted_message_id = None\<rparr>
      else
        bnd (lift (find_orphan_in_deadletter_stream R r fuel stream
                     (it_redis_lower_bound_id existing) fid 10000)) (\<lambda>orphan.
          case orphan of
            Some i \<Rightarrow> reconcile_orphan c fid existing i
          | None \<Rightarrow> replace_and_own c fid me lb existing))"

function acquire_or_adopt_intent ::
  "'r redis_api \<Rightarrow> 'r \<Rightarrow> nat \<Rightarrow> ctx \<Rightarrow> (nat \<Rightarrow> db \<Rightarrow> db) \<Rightarrow> int \<Rightarrow> string \<Rightarrow> redis_id \<Rightarrow> string \<Rightarrow>
   nat \<Rightarrow> (error, db, adoption_result) op" where
  "acquire_or_adopt_intent R r fuel c env fid me lb stream attempt = (\<lambda>d.
     if intent_of fid d = None then
       (Inr \<lparr>action = Own, lower_bound = Some lb, adopted_message_id = None\<rparr>,
        d\<lparr>dl_intent := dl_intent d @
            [\<lparr>it_failure_id = fid, it_stream_name = stream, it_intent_at = ctx_now c,
              it_redis_lower_bound_id = lb, it_owner_id = me,
              it_owner_heartbeat_at = ctx_now c\<rparr>]\<rparr>)
     else
       (let d' = env attempt d
        in case intent_of fid d' of
             Some existing \<Rightarrow> adopt_existing R r fuel c fid me lb stream existing d'
           | None \<Rightarrow>
               if 3 < attempt + 1 then
                 (Inl (StreamE (StreamRoutingContention fid (int attempt + 1))), d')
               else acquire_or_adopt_intent R r fuel c env fid me lb stream (attempt + 1) d'))"
  by pat_completeness auto
termination
  by (relation "measure (\<lambda>(R, r, fuel, c, env, fid, me, lb, stream, attempt). 4 - attempt)") auto

declare acquire_or_adopt_intent.simps [simp del]

section \<open>The routing protocol\<close>

record route_args =
  ra_stream :: string
  ra_group :: string
  ra_consumer_name :: string
  ra_message_id :: redis_id
  ra_event_id :: uuid
  ra_failure_count :: int
  ra_last_error :: pystr
  ra_payload_excerpt :: pystr
  ra_owner_id :: string

definition deadletter_stream :: "string \<Rightarrow> string" where
  "deadletter_stream s = s @ ''.deadletter''"

definition log_key :: "deadletter_log \<Rightarrow> string \<times> string \<times> redis_id" where
  "log_key l = (dl_stream_name l, dl_group_name l, dl_original_message_id l)"

definition args_key :: "route_args \<Rightarrow> string \<times> string \<times> redis_id" where
  "args_key a = (ra_stream a, ra_group a, ra_message_id a)"

text \<open>
  \<open>_coerce_jsonb_str\<close>; whether \<open>json.loads\<close> accepts a text and how \<open>json.dumps\<close> quotes
  one are the parameters \<open>loads_ok\<close> and \<open>dumps\<close>.
\<close>

definition coerce_jsonb_str :: "(pystr \<Rightarrow> bool) \<Rightarrow> (pystr \<Rightarrow> pystr) \<Rightarrow> pystr \<Rightarrow> pystr" where
  "coerce_jsonb_str loads_ok dumps s =
     (if s = [] then lit ''null'' else if loads_ok s then s else dumps s)"

text \<open>Step 1: the durable log row, one per (stream, group, message).\<close>

definition step_1_log_insert ::
  "ctx \<Rightarrow> (pystr \<Rightarrow> bool) \<Rightarrow> (pystr \<Rightarrow> pystr) \<Rightarrow> route_args \<Rightarrow>
   (error, db, int \<times> redis_id option) op" where
  "step_1_log_insert c loads_ok dumps a = (\<lambda>d.
     case sql_find (\<lambda>l. log_key l = args_key a) (dl_log d) of
       Some l \<Rightarrow> (Inr (dl_failure_id l, dl_redis_message_id l), d\<lparr>dl_seq := dl_seq d + 1\<rparr>)
     | None \<Rightarrow>
         (Inr (dl_seq d, None),
          d\<lparr>dl_log := dl_log d @
              [\<lparr>dl_failure_id = dl_seq d, dl_stream_name = ra_stream a,
                dl_deadletter_stream = deadletter_stream (ra_stream a),
                dl_event_id = ra_event_id a, dl_original_message_id = ra_message_id a,
                dl_group_name = ra_group a, dl_consumer_name = ra_consumer_name a,
                dl_failure_count = ra_failure_count a,
                dl_last_error = take 8000 (ra_last_error a),
                dl_payload_excerpt = coerce_jsonb_str loads_ok dumps (ra_payload_excerpt a),
                dl_routed_at = ctx_now c, dl_routed_at_redis = None, dl_redis_message_id = None,
                dl_actor_id = None, dl_actor_kind = None, dl_request_id = None\<rparr>],
            dl_seq := dl_seq d + 1\<rparr>))"

definition capture_redis_lower_bound ::
  "'r redis_api \<Rightarrow> string \<Rightarrow> (error, 'r world, redis_id) op" where
  "capture_redis_lower_bound R dls = (\<lambda>w.
     (Inr (case xinfo_last R (wredis w) dls of
             Inl _ \<Rightarrow> rid_zero
           | Inr None \<Rightarrow> rid_zero
           | Inr (Some i) \<Rightarrow> i), w))"

definition deadletter_fields :: "route_args \<Rightarrow> int \<Rightarrow> fields" where
  "deadletter_fields a fid =
     [(''event_id'', uuid_str (ra_event_id a)),
      (''failure_id'', int_str fid),
      (''stream_name'', lit (ra_stream a)),
      (''group_name'', lit (ra_group a)),
      (''consumer_name'', lit (ra_consumer_name a)),
      (''failure_count'', int_str (ra_failure_count a)),
      (''last_error'', take 8000 (ra_last_error a)),
      (''payload'', ra_payload_excerpt a)]"

text \<open>Steps 3 and 3.5 on the Postgres side, one transaction.\<close>

definition step_3_index_insert :: "int \<Rightarrow> redis_id \<Rightarrow> (error, db, unit) op" where
  "step_3_index_insert fid rid = (\<lambda>d.
     if index_of fid d \<noteq> None then (Inl (ServiceE IntegrityError), d)
     else (Inr (),
       d\<lparr>dl_index := dl_index d @ [\<lparr>ix_failure_id = fid, ix_redis_message_id = rid\<rparr>],
         dl_intent := sql_delete (\<lambda>i. it_failure_id i = fid) (dl_intent d)\<rparr>))"

text \<open>Step 4: the race-detecting update; \<open>Inr None\<close> when it hit the row, else the winner.\<close>

definition step_4_update_log ::
  "ctx \<Rightarrow> route_args \<Rightarrow> int \<Rightarrow> redis_id \<Rightarrow> (error, db, redis_id option) op" where
  "step_4_update_log c a fid rid = (\<lambda>d.
     if sql_count (\<lambda>l. dl_failure_id l = fid \<and> dl_routed_at_redis l = None) (dl_log d) = 0 then
       (case Option.bind (log_of fid d) dl_redis_message_id of
          None \<Rightarrow> (Inl (PyE AssertionError), d)
        | Some winner \<Rightarrow> (Inr (Some winner), d))
     else
       bnd (deadletter_audit c ''stream.deadletter'' fid
              (jobj [(''event_id'', JStr (uuid_str (ra_event_id a))),
                     (''failure_id'', JInt fid),
                     (''stream_name'', jlit (ra_stream a)),
                     (''group_name'', jlit (ra_group a)),
                     (''redis_message_id'', JStr (rid_str rid))]))
         (\<lambda>_. ret None) (d\<lparr>dl_log := mark_routed c fid rid (dl_log d)\<rparr>))"

definition drop_own_index :: "int \<Rightarrow> redis_id \<Rightarrow> (error, db, unit) op" where
  "drop_own_index fid rid = modify (\<lambda>d. d\<lparr>dl_index :=
     sql_delete (\<lambda>i. ix_failure_id i = fid \<and> ix_redis_message_id i = rid) (dl_index d)\<rparr>)"

definition step_4_update_log_and_audit ::
  "'r redis_api \<Rightarrow> ctx \<Rightarrow> route_args \<Rightarrow> int \<Rightarrow> redis_id \<Rightarrow> bool \<Rightarrow>
   (error, 'r world, routing_result) op" where
  "step_4_update_log_and_audit R c a fid rid our_xadd =
     bnd (in_db (step_4_update_log c a fid rid)) (\<lambda>lost.
       case lost of
         None \<Rightarrow> ret (RoutingComplete rid)
       | Some winner \<Rightarrow>
           if our_xadd \<and> winner \<noteq> rid then
             thn (in_db (drop_own_index fid rid))
            (thn (try_redis (xdel R (deadletter_stream (ra_stream a)) rid))
            (ret (RoutingComplete winner)))
           else ret (RoutingComplete winner))"

text \<open>After the \<open>XADD\<close>: index insert, or the roll back of our entry when it conflicts.\<close>

definition route_lost ::
  "'r redis_api \<Rightarrow> ctx \<Rightarrow> route_args \<Rightarrow> int \<Rightarrow> redis_id \<Rightarrow> error \<Rightarrow>
   (error, 'r world, routing_result) op" where
  "route_lost R c a fid rid e =
     thn (try_redis (xdel R (deadletter_stream (ra_stream a)) rid))
    (bnd (gets (\<lambda>w. index_of fid (wdb w))) (\<lambda>winner.
       case winner of
         None \<Rightarrow> raise e
       | Some wr \<Rightarrow> step_4_update_log_and_audit R c a fid wr False))"

definition route_store ::
  "'r redis_api \<Rightarrow> ctx \<Rightarrow> (nat \<Rightarrow> 'r world \<Rightarrow> 'r world) \<Rightarrow> route_args \<Rightarrow> int \<Rightarrow> redis_id \<Rightarrow>
   (error, 'r world, routing_result) op" where
  "route_store R c ifr a fid rid = (\<lambda>w.
     case in_db (step_3_index_insert fid rid) w of
       (Inr _, w') \<Rightarrow> thn (modify (ifr 5)) (step_4_update_log_and_audit R c a fid rid True) w'
     | (Inl e, w') \<Rightarrow> route_lost R c a fid rid e w')"

definition route_own ::
  "'r redis_api \<Rightarrow> ctx \<Rightarrow> (nat \<Rightarrow> 'r world \<Rightarrow> 'r world) \<Rightarrow> route_args \<Rightarrow> int \<Rightarrow>
   (error, 'r world, routing_result) op" where
  "route_own R c ifr a fid =
     bnd (on_redis (xadd R (deadletter_stream (ra_stream a)) (deadletter_fields a fid))) (\<lambda>rid.
     thn (modify (ifr 4)) (route_store R c ifr a fid rid))"

definition route_to_deadletter ::
  "'r redis_api \<Rightarrow> nat \<Rightarrow> (pystr \<Rightarrow> bool) \<Rightarrow> (pystr \<Rightarrow> pystr) \<Rightarrow> ctx \<Rightarrow>
   (nat \<Rightarrow> 'r world \<Rightarrow> 'r world) \<Rightarrow> (nat \<Rightarrow> db \<Rightarrow> db) \<Rightarrow> route_args \<Rightarrow>
   (error, 'r world, routing_result) op" where
  "route_to_deadletter R fuel loads_ok dumps c ifr env a =
     bnd (in_db (step_1_log_insert c loads_ok dumps a)) (\<lambda>(fid, existing_rid).
       case existing_rid of
         Some rid \<Rightarrow> ret (RoutingComplete rid)
       | None \<Rightarrow>
           thn (modify (ifr 1))
          (bnd (gets (\<lambda>w. index_of fid (wdb w))) (\<lambda>idx_rid.
             case idx_rid of
               Some rid \<Rightarrow> step_4_update_log_and_audit R c a fid rid False
             | None \<Rightarrow>
                 thn (modify (ifr 2))
                (bnd (capture_redis_lower_bound R (deadletter_stream (ra_stream a))) (\<lambda>lb.
                 bnd (\<lambda>w. in_db (acquire_or_adopt_intent R (wredis w) fuel c env fid
                                   (ra_owner_id a) lb (ra_stream a) 0) w) (\<lambda>adoption.
                 thn (modify (ifr 3))
                 (case action adoption of
                    Abort \<Rightarrow> ret RoutingAborted
                  | ReconciledByUs \<Rightarrow>
                      (case adopted_message_id adoption of
                         None \<Rightarrow> raise (PyE AssertionError)
                       | Some rid \<Rightarrow> ret (RoutingReconciledByAdoption rid))
                  | Own \<Rightarrow> route_own R c ifr a fid)))))))"

section \<open>The orphan scan is complete\<close>

lemma page_hit_append:
  "page_hit fid (xs @ ys) = (case page_hit fid xs of None \<Rightarrow> page_hit fid ys | Some i \<Rightarrow> Some i)"
  by (induction xs) (auto simp: page_hit_def)

lemma page_hit_Nil [simp]: "page_hit fid [] = None"
  by (simp add: page_hit_def)

lemma page_hit_Some:
  "page_hit fid es = Some i \<Longrightarrow> \<exists>f. (i, f) \<in> set es \<and> entry_failure_id f = Some fid"
  by (induction es) (auto simp: page_hit_def split: if_splits)

lemma page_hit_None:
  "page_hit fid es = None \<longleftrightarrow> (\<forall>e \<in> set es. entry_failure_id (snd e) \<noteq> Some fid)"
  by (auto simp: page_hit_def find_None_iff)

context redis_streams
begin

lemma scan_pages_complete:
  assumes "0 < psize" and "\<And>lo n. \<exists>es. xrange R r st lo hi n = Inr es"
    and "length (filter (in_range cur hi) (entries r st)) < fuel"
  shows "scan_pages R r st fid psize hi fuel cur =
    Inr (page_hit fid (filter (in_range cur hi) (entries r st)))"
  using assms(3)
proof (induction fuel arbitrary: cur)
  case (Suc fuel)
  let ?F = "filter (in_range cur hi) (entries r st)"
  let ?P = "take psize ?F"
  have page: "xrange R r st cur hi psize = Inr ?P"
    using assms(2) [of cur psize] xrange_page by fastforce
  show ?case
  proof (cases "?P = []")
    case True
    then have "?F = []" using assms(1) by (metis take_eq_Nil not_gr_zero)
    then show ?thesis by (simp add: page)
  next
    case False
    let ?c = "rid_next (fst (last ?P))"
    have split: "page_hit fid ?F =
        (case page_hit fid ?P of None \<Rightarrow> page_hit fid (drop psize ?F) | Some i \<Rightarrow> Some i)"
      by (metis append_take_drop_id page_hit_append)
    have rest: "filter (in_range ?c hi) (entries r st) = drop psize ?F"
      using False by (rule next_page)
    have fuel: "length (drop psize ?F) < fuel"
      using Suc.prems False assms(1) by (cases ?F) auto
    have "drop psize ?F = []" if "hi < ?c"
      using filter_in_range_empty [OF that] rest by simp
    then show ?thesis
      using False split rest Suc.IH [of ?c] fuel
      by (auto simp: page Let_def split: option.splits)
  qed
qed simp

lemma find_orphan_complete:
  assumes "0 < psize" and "redis_up R r (stream @ ''.deadletter'')"
    and "length (entries r (stream @ ''.deadletter'')) < fuel"
  shows "find_orphan_in_deadletter_stream R r fuel stream lb fid psize =
    Inr (page_hit fid (filter (\<lambda>e. lb \<le> fst e) (entries r (stream @ ''.deadletter''))))"
proof (cases "xinfo_last R r (stream @ ''.deadletter'')")
  case (Inl x)
  with assms(2) have "x = RedisNoSuchKey" by (simp add: redis_up_def)
  with Inl show ?thesis
    by (simp add: find_orphan_in_deadletter_stream_def xinfo_no_key)
next
  case (Inr b)
  show ?thesis
  proof (cases b)
    case None
    with Inr show ?thesis
      by (simp add: find_orphan_in_deadletter_stream_def xinfo_None)
  next
    case (Some hi)
    let ?E = "entries r (stream @ ''.deadletter'')"
    from Inr Some have hi: "?E \<noteq> []" "fst (last ?E) = hi"
      using xinfo_Some by blast+
    then have "hi \<noteq> rid_zero" using entries_nonzero last_in_set by blast
    moreover have "filter (in_range lb hi) ?E = filter (\<lambda>e. lb \<le> fst e) ?E"
      using entry_le_last hi by (auto simp: in_range_def intro!: filter_cong)
    moreover have "length (filter (in_range lb hi) ?E) < fuel"
      using assms(3) by (meson le_less_trans length_filter_le)
    ultimately show ?thesis
      using Inr Some assms(1,2) scan_pages_complete [of psize r "stream @ ''.deadletter''" hi lb fuel fid]
      by (simp add: find_orphan_in_deadletter_stream_def redis_up_def)
  qed
qed

end

end
