(* ===== verification/Redis_Keys.thy ===== *)
theory Redis_Keys
  imports Redis_Service
begin

text \<open>
  The key space of Redis the consumer and the redaction cache use: strings with expiry, sets,
  hash counters, and the pending-entries lists of consumer groups. As with streams, the server
  is a parameter: the effect of each command on the server state, and \<open>link\<close>, which says
  whether a call gets through, is lost, or is executed with its reply lost. The contract
  \<open>redis_keys\<close> is the documented effect on the strings, sets and pending lists. Expiry happens
  between calls, not in them.
\<close>

datatype fault = NoFault | Lost | LostReply

record 'r kv_api =
  link :: "'r \<Rightarrow> fault"
  sv_get :: "pystr \<Rightarrow> 'r \<Rightarrow> pystr option"
  sv_set :: "pystr \<Rightarrow> pystr \<Rightarrow> int \<Rightarrow> 'r \<Rightarrow> 'r"
  sv_del :: "pystr \<Rightarrow> 'r \<Rightarrow> 'r"
  sv_sismember :: "pystr \<Rightarrow> pystr \<Rightarrow> 'r \<Rightarrow> bool"
  sv_sadd :: "pystr \<Rightarrow> pystr \<Rightarrow> 'r \<Rightarrow> 'r"
  sv_expire :: "pystr \<Rightarrow> int \<Rightarrow> 'r \<Rightarrow> 'r"
  sv_hincrby :: "pystr \<Rightarrow> pystr \<Rightarrow> int \<Rightarrow> 'r \<Rightarrow> int \<times> 'r"
  sv_xack :: "string \<Rightarrow> string \<Rightarrow> redis_id \<Rightarrow> 'r \<Rightarrow> 'r"

text \<open>A client call: the command's value, or a connection error with or without the effect.\<close>

definition call :: "'r kv_api \<Rightarrow> ('r \<Rightarrow> 'a \<times> 'r) \<Rightarrow> (error, 'r world, 'a) op" where
  "call K f = (\<lambda>w. case f (wredis w) of (a, r) \<Rightarrow>
     (case link K (wredis w) of
        NoFault \<Rightarrow> (Inr a, w\<lparr>wredis := r\<rparr>)
      | Lost \<Rightarrow> (Inl (ServiceE RedisError), w)
      | LostReply \<Rightarrow> (Inl (ServiceE RedisError), w\<lparr>wredis := r\<rparr>)))"

definition kv_get :: "'r kv_api \<Rightarrow> pystr \<Rightarrow> (error, 'r world, pystr option) op" where
  "kv_get K k = call K (\<lambda>r. (sv_get K k r, r))"

definition kv_set :: "'r kv_api \<Rightarrow> pystr \<Rightarrow> pystr \<Rightarrow> int \<Rightarrow> (error, 'r world, unit) op" where
  "kv_set K k v ex = call K (\<lambda>r. ((), sv_set K k v ex r))"

text \<open>\<open>SET key value NX EX ttl\<close>: whether the key was set.\<close>

definition kv_set_nx :: "'r kv_api \<Rightarrow> pystr \<Rightarrow> pystr \<Rightarrow> int \<Rightarrow> (error, 'r world, bool) op" where
  "kv_set_nx K k v ex = call K (\<lambda>r. if sv_get K k r = None then (True, sv_set K k v ex r) else (False, r))"

definition kv_del :: "'r kv_api \<Rightarrow> pystr \<Rightarrow> (error, 'r world, unit) op" where
  "kv_del K k = call K (\<lambda>r. ((), sv_del K k r))"

definition kv_sismember :: "'r kv_api \<Rightarrow> pystr \<Rightarrow> pystr \<Rightarrow> (error, 'r world, bool) op" where
  "kv_sismember K k m = call K (\<lambda>r. (sv_sismember K k m r, r))"

definition kv_hincrby :: "'r kv_api \<Rightarrow> pystr \<Rightarrow> pystr \<Rightarrow> int \<Rightarrow> (error, 'r world, int) op" where
  "kv_hincrby K k f n = call K (sv_hincrby K k f n)"

definition kv_xack :: "'r kv_api \<Rightarrow> string \<Rightarrow> string \<Rightarrow> redis_id \<Rightarrow> (error, 'r world, unit) op" where
  "kv_xack K st g i = call K (\<lambda>r. ((), sv_xack K st g i r))"

text \<open>\<open>try: .. except RedisError: log\<close> around a call.\<close>

definition ignoring :: "(error, 'r world, 'a) op \<Rightarrow> (error, 'r world, unit) op" where
  "ignoring m = (\<lambda>w. case m w of (Inl e, w') \<Rightarrow> (if e = ServiceE RedisError then Inr () else Inl e, w')
     | (Inr _, w') \<Rightarrow> (Inr (), w'))"

locale redis_keys =
  fixes K :: "'r kv_api"
    and strings :: "'r \<Rightarrow> pystr \<Rightarrow> pystr option"
    and members :: "'r \<Rightarrow> pystr \<Rightarrow> pystr set"
    and pending :: "'r \<Rightarrow> string \<Rightarrow> string \<Rightarrow> redis_id set"
  assumes get: "sv_get K k r = strings r k"
    and ismember: "sv_sismember K k m r \<longleftrightarrow> m \<in> members r k"
    and set_strings: "strings (sv_set K k v ex r) = (strings r)(k := Some v)"
    and set_frame: "members (sv_set K k v ex r) = members r" "pending (sv_set K k v ex r) = pending r"
    and del_strings: "strings (sv_del K k r) = (strings r)(k := None)"
    and del_frame: "members (sv_del K k r) = members r" "pending (sv_del K k r) = pending r"
    and sadd_members: "members (sv_sadd K k m r) = (members r)(k := insert m (members r k))"
    and sadd_frame: "strings (sv_sadd K k m r) = strings r" "pending (sv_sadd K k m r) = pending r"
    and expire_frame: "strings (sv_expire K k n r) = strings r" "members (sv_expire K k n r) = members r"
      "pending (sv_expire K k n r) = pending r"
    and hincrby_frame: "strings (snd (sv_hincrby K k f n r)) = strings r"
      "members (snd (sv_hincrby K k f n r)) = members r"
      "pending (snd (sv_hincrby K k f n r)) = pending r"
    and xack_pending: "pending (sv_xack K st g i r) = (\<lambda>s h. if s = st \<and> h = g then pending r s h - {i} else pending r s h)"
    and xack_frame: "strings (sv_xack K st g i r) = strings r" "members (sv_xack K st g i r) = members r"
begin

lemmas key_simps = get ismember set_strings set_frame del_strings del_frame sadd_members sadd_frame
  expire_frame hincrby_frame xack_pending xack_frame

end

lemma call_ok: "link K (wredis w) = NoFault \<Longrightarrow> f (wredis w) = (a, r) \<Longrightarrow> call K f w = (Inr a, w\<lparr>wredis := r\<rparr>)"
  by (simp add: call_def)

lemma call_Inr_iff:
  "call K f w = (Inr a, w') \<longleftrightarrow> link K (wredis w) = NoFault \<and> a = fst (f (wredis w)) \<and>
     w' = w\<lparr>wredis := snd (f (wredis w))\<rparr>"
  by (auto simp: call_def split: prod.splits fault.splits)

lemma call_wdb: "call K f w = (res, w') \<Longrightarrow> wdb w' = wdb w"
  by (auto simp: call_def split: prod.splits fault.splits)

section \<open>A server with streams and keys\<close>

record full_redis =
  fr_streams :: mem_server
  fr_strings :: "pystr \<Rightarrow> pystr option"
  fr_sets :: "pystr \<Rightarrow> pystr set"
  fr_counters :: "pystr \<Rightarrow> pystr \<Rightarrow> int"
  fr_pending :: "string \<Rightarrow> string \<Rightarrow> redis_id set"

definition full_keys :: "full_redis kv_api" where
  "full_keys =
     \<lparr>link = (\<lambda>_. NoFault),
      sv_get = (\<lambda>k r. fr_strings r k),
      sv_set = (\<lambda>k v ex r. r\<lparr>fr_strings := (fr_strings r)(k := Some v)\<rparr>),
      sv_del = (\<lambda>k r. r\<lparr>fr_strings := (fr_strings r)(k := None)\<rparr>),
      sv_sismember = (\<lambda>k m r. m \<in> fr_sets r k),
      sv_sadd = (\<lambda>k m r. r\<lparr>fr_sets := (fr_sets r)(k := insert m (fr_sets r k))\<rparr>),
      sv_expire = (\<lambda>k n r. r),
      sv_hincrby = (\<lambda>k f n r. (fr_counters r k f + n,
         r\<lparr>fr_counters := (fr_counters r)(k := (fr_counters r k)(f := fr_counters r k f + n))\<rparr>)),
      sv_xack = (\<lambda>st g i r. r\<lparr>fr_pending := (\<lambda>s h. if s = st \<and> h = g then fr_pending r s h - {i}
                                                 else fr_pending r s h)\<rparr>)\<rparr>"

definition full_streams :: "full_redis redis_api" where
  "full_streams =
     \<lparr>xinfo_last = (\<lambda>r st. xinfo_last mem_api (fr_streams r) st),
      xrange = (\<lambda>r st lo hi n. xrange mem_api (fr_streams r) st lo hi n),
      xadd = (\<lambda>st f r. case xadd mem_api st f (fr_streams r) of (x, s) \<Rightarrow> (x, r\<lparr>fr_streams := s\<rparr>)),
      xdel = (\<lambda>st i r. case xdel mem_api st i (fr_streams r) of (x, s) \<Rightarrow> (x, r\<lparr>fr_streams := s\<rparr>)),
      xadd_maxlen = (\<lambda>st f n r. case xadd_maxlen mem_api st f n (fr_streams r) of (x, s) \<Rightarrow>
         (x, r\<lparr>fr_streams := s\<rparr>)),
      xrev_last = (\<lambda>r st. xrev_last mem_api (fr_streams r) st)\<rparr>"

definition full_entries :: "full_redis \<Rightarrow> string \<Rightarrow> (redis_id \<times> fields) list" where
  "full_entries r st = ms_entries (fr_streams r) st"

interpretation full: redis_keys full_keys fr_strings fr_sets fr_pending
  by unfold_locales (auto simp: full_keys_def)

interpretation full_st: redis_streams full_streams full_entries
proof unfold_locales
  fix st f n r x r'
  assume "xadd_maxlen full_streams st f n r = (Inl x, r')" "0 < n"
  then show "(\<exists>k. full_entries r' st = drop k (full_entries r st)) \<or>
      (\<exists>i. (\<exists>k. full_entries r' st = drop k (full_entries r st) @ [(i, f)]) \<and>
         (\<forall>e \<in> set (full_entries r st). fst e < i))"
    by (simp add: full_streams_def mem_api_def)
qed (auto simp: full_streams_def full_entries_def mem.entries_sorted mem.entries_rid_ok mem.entries_nonzero
    mem.xrange_page mem.xinfo_None mem.xinfo_no_key mem.xadd_ok mem.xadd_frame mem.xdel_ok mem.xdel_frame
    mem.xadd_maxlen_frame mem.xrev_last_None
    dest: mem.xinfo_Some mem.xrev_last_Some mem.xadd_error mem.xadd_maxlen_ok split: prod.splits)

definition empty_redis :: full_redis where
  "empty_redis = \<lparr>fr_streams = mem_empty, fr_strings = (\<lambda>_. None), fr_sets = (\<lambda>_. {}),
     fr_counters = (\<lambda>_ _. 0), fr_pending = (\<lambda>_ _. {})\<rparr>"

end
