(* ===== verification/Stream_Events.thy ===== *)
theory Stream_Events
  imports Database "HOL-Library.List_Lexorder" "HOL-Library.Char_ord"
begin

text \<open>
  Stream names (\<open>streams/names.py\<close>), the event payload models (\<open>streams/events.py\<close>) and
  the dotted-path redaction of a payload (\<open>streams/pii.py\<close>). An event is a record of the
  base fields with one constructor per concrete event class; the base class alone has no
  \<open>kind\<close>. How pydantic prints a \<open>datetime\<close> is the parameter \<open>fmt\<close> of \<open>model_dump\<close>.
\<close>

section \<open>Names\<close>

definition STREAMS :: "(string \<times> string) list" where
  "STREAMS =
     [(''aslan.kap.filings.new'', ''KAP filing arrivals (initial publication)''),
      (''aslan.kap.filings.amended'', ''KAP filing amendments / revisions''),
      (''aslan.kap.filings.financial_report'', ''KAP financial-report-specific stream''),
      (''aslan.evds.observations.new'', ''EVDS macro-series observations''),
      (''aslan.tefas.observations.new'', ''TEFAS observations (NAV + holdings)''),
      (''aslan.tefas.nav.new'', ''TEFAS daily NAV publication''),
      (''aslan.bist.ticks'', ''BIST tick stream (per-symbol via prefix)''),
      (''aslan.entity.created'', ''New entity created via registry.put_entity'')]"

definition STREAM_FOR_EVENT_KIND :: "(string \<times> string) list" where
  "STREAM_FOR_EVENT_KIND =
     [(''filing.new'', ''aslan.kap.filings.new''),
      (''filing.amended'', ''aslan.kap.filings.amended''),
      (''observation.batch'', ''aslan.evds.observations.new''),
      (''entity.created'', ''aslan.entity.created'')]"

definition PII_BEARING_STREAMS :: "string list" where
  "PII_BEARING_STREAMS =
     [''aslan.kap.filings.new'', ''aslan.kap.filings.amended'',
      ''aslan.kap.filings.financial_report'', ''aslan.evds.observations.new'',
      ''aslan.tefas.observations.new'', ''aslan.entity.created'']"

definition starts_with :: "'c list \<Rightarrow> 'c list \<Rightarrow> bool" where
  "starts_with p s \<longleftrightarrow> take (length p) s = p"

definition normalize_bist_ticks_label :: "string \<Rightarrow> string" where
  "normalize_bist_ticks_label stream =
     (if starts_with ''aslan.bist.ticks.'' stream \<and> stream \<noteq> ''aslan.bist.ticks''
      then ''aslan.bist.ticks'' else stream)"

section \<open>Events\<close>

record filing_new =
  fn_filing_id :: uuid
  fn_entity_id :: "uuid option"
  fn_filing_kind :: pystr
  fn_title :: pystr
  fn_published_at :: datetime
  fn_primary_object_key :: pystr
  fn_bucket :: pystr
  fn_is_revision :: bool
  fn_revision_no :: int

record filing_amended =
  fa_filing_id :: uuid
  fa_previous_filing_id :: uuid
  fa_entity_id :: "uuid option"
  fa_revision_no :: int
  fa_title :: pystr
  fa_published_at :: datetime

record observation_batch =
  ob_series_code :: pystr
  ob_series_id :: int
  ob_ts_min :: datetime
  ob_ts_max :: datetime
  ob_as_of_min :: datetime
  ob_as_of_max :: datetime
  ob_n_observations :: int
  ob_batch_payload_hash :: pystr

record entity_created =
  ec_entity_id :: uuid
  ec_entity_type :: pystr
  ec_legal_name :: pystr
  ec_primary_identifier_namespace :: "pystr option"
  ec_primary_identifier_value :: "pystr option"

record entry_redacted =
  xr_target_event_id :: uuid
  xr_target_stream :: pystr
  xr_redaction_reason :: pystr

datatype event_body =
    FilingNewEvent filing_new
  | FilingAmendedEvent filing_amended
  | ObservationBatchEvent observation_batch
  | EntityCreatedEvent entity_created
  | StreamEntryRedactedEvent entry_redacted
  | BareEvent

record stream_event =
  se_schema_version :: int
  se_event_id :: uuid
  se_produced_at :: datetime
  se_producer_run_id :: int
  se_source_id :: string
  se_actor_id :: "string option"
  se_actor_kind :: "actor_kind option"
  se_traceparent :: "pystr option"
  se_request_id :: "uuid option"
  se_body :: event_body

text \<open>\<open>_require_tz_aware\<close>.\<close>

definition require_tz_aware :: "datetime \<Rightarrow> error + datetime" where
  "require_tz_aware v = (if utcoffset v = None then Inl (PyE ValueError) else Inr v)"

definition event_kind :: "stream_event \<Rightarrow> string option" where
  "event_kind e =
     (case se_body e of
        FilingNewEvent _ \<Rightarrow> Some ''filing.new''
      | FilingAmendedEvent _ \<Rightarrow> Some ''filing.amended''
      | ObservationBatchEvent _ \<Rightarrow> Some ''observation.batch''
      | EntityCreatedEvent _ \<Rightarrow> Some ''entity.created''
      | StreamEntryRedactedEvent _ \<Rightarrow> Some ''stream.entry_redacted''
      | BareEvent \<Rightarrow> None)"

text \<open>\<open>event.model_dump(mode="json")\<close>: base fields first, then those of the subclass.\<close>

definition body_fields :: "(datetime \<Rightarrow> pystr) \<Rightarrow> event_body \<Rightarrow> (string \<times> json) list" where
  "body_fields fmt b =
     (let dt = (\<lambda>t. JStr (fmt t)); u = (\<lambda>x. JStr (uuid_str x))
      in case b of
        FilingNewEvent f \<Rightarrow>
          [(''kind'', jlit ''filing.new''), (''filing_id'', u (fn_filing_id f)),
           (''entity_id'', jopt u (fn_entity_id f)), (''filing_kind'', JStr (fn_filing_kind f)),
           (''title'', JStr (fn_title f)), (''published_at'', dt (fn_published_at f)),
           (''primary_object_key'', JStr (fn_primary_object_key f)), (''bucket'', JStr (fn_bucket f)),
           (''is_revision'', JBool (fn_is_revision f)), (''revision_no'', JInt (fn_revision_no f))]
      | FilingAmendedEvent f \<Rightarrow>
          [(''kind'', jlit ''filing.amended''), (''filing_id'', u (fa_filing_id f)),
           (''previous_filing_id'', u (fa_previous_filing_id f)),
           (''entity_id'', jopt u (fa_entity_id f)), (''revision_no'', JInt (fa_revision_no f)),
           (''title'', JStr (fa_title f)), (''published_at'', dt (fa_published_at f))]
      | ObservationBatchEvent f \<Rightarrow>
          [(''kind'', jlit ''observation.batch''), (''series_code'', JStr (ob_series_code f)),
           (''series_id'', JInt (ob_series_id f)), (''ts_min'', dt (ob_ts_min f)),
           (''ts_max'', dt (ob_ts_max f)), (''as_of_min'', dt (ob_as_of_min f)),
           (''as_of_max'', dt (ob_as_of_max f)), (''n_observations'', JInt (ob_n_observations f)),
           (''batch_payload_hash'', JStr (ob_batch_payload_hash f))]
      | EntityCreatedEvent f \<Rightarrow>
          [(''kind'', jlit ''entity.created''), (''entity_id'', u (ec_entity_id f)),
           (''entity_type'', JStr (ec_entity_type f)), (''legal_name'', JStr (ec_legal_name f)),
           (''primary_identifier_namespace'', jopt JStr (ec_primary_identifier_namespace f)),
           (''primary_identifier_value'', jopt JStr (ec_primary_identifier_value f))]
      | StreamEntryRedactedEvent f \<Rightarrow>
          [(''kind'', jlit ''stream.entry_redacted''), (''target_event_id'', u (xr_target_event_id f)),
           (''target_stream'', JStr (xr_target_stream f)),
           (''redaction_reason'', JStr (xr_redaction_reason f))]
      | BareEvent \<Rightarrow> [])"

definition model_dump :: "(datetime \<Rightarrow> pystr) \<Rightarrow> stream_event \<Rightarrow> json" where
  "model_dump fmt e = jobj
     ([(''schema_version'', JInt (se_schema_version e)),
       (''event_id'', JStr (uuid_str (se_event_id e))),
       (''produced_at'', JStr (fmt (se_produced_at e))),
       (''producer_run_id'', JInt (se_producer_run_id e)),
       (''source_id'', jlit (se_source_id e)),
       (''actor_id'', jopt jlit (se_actor_id e)),
       (''actor_kind'', jopt (\<lambda>k. jlit (kind_str k)) (se_actor_kind e)),
       (''traceparent'', jopt JStr (se_traceparent e)),
       (''request_id'', jopt (\<lambda>r. JStr (uuid_str r)) (se_request_id e))] @
      body_fields fmt (se_body e))"

lemma model_dump_wf: "json_wf (model_dump fmt e)"
  by (auto simp: model_dump_def body_fields_def jobj_def jlit_def jopt_def Let_def
      split: event_body.splits option.splits)

section \<open>Redaction of a payload\<close>

definition redacted_mark :: json where
  "redacted_mark = jlit ''<redacted>''"

fun redact_path :: "pystr list \<Rightarrow> json \<Rightarrow> json" where
  "redact_path [] j = j"
| "redact_path (h # rest) j =
     (let sub = (\<lambda>v. if rest = [] then redacted_mark else redact_path rest v)
      in case (py_int h, j) of
        (Some i, JArr xs) \<Rightarrow>
          if 0 \<le> i \<and> nat i < length xs then JArr (xs[nat i := sub (xs ! nat i)]) else j
      | (None, JObj kvs) \<Rightarrow>
          (case map_of kvs h of None \<Rightarrow> j | Some v \<Rightarrow> JObj (obj_set h (sub v) kvs))
      | _ \<Rightarrow> j)"

definition redact_outbox_payload :: "json \<Rightarrow> pystr list \<Rightarrow> json" where
  "redact_outbox_payload payload fields_to_redact =
     fold (\<lambda>path. redact_path (split_on 46 path)) fields_to_redact payload"

text \<open>Reading a path the way the redactor addresses it.\<close>

fun path_get :: "pystr list \<Rightarrow> json \<Rightarrow> json option" where
  "path_get [] j = Some j"
| "path_get (h # rest) j =
     (case (py_int h, j) of
        (Some i, JArr xs) \<Rightarrow> if 0 \<le> i \<and> nat i < length xs then path_get rest (xs ! nat i) else None
      | (None, JObj kvs) \<Rightarrow> Option.bind (map_of kvs h) (path_get rest)
      | _ \<Rightarrow> None)"

text \<open>Two path parts name the same child: the same key, or numerals of the same index.\<close>

definition same_part :: "pystr \<Rightarrow> pystr \<Rightarrow> bool" where
  "same_part h k \<longleftrightarrow> (case (py_int h, py_int k) of
      (Some i, Some j) \<Rightarrow> i = j | (None, None) \<Rightarrow> h = k | _ \<Rightarrow> False)"

fun same_path_prefix :: "pystr list \<Rightarrow> pystr list \<Rightarrow> bool" where
  "same_path_prefix [] q = True"
| "same_path_prefix (h # p) [] = False"
| "same_path_prefix (h # p) (k # q) = (same_part h k \<and> same_path_prefix p q)"

lemma path_get_mark: "q \<noteq> [] \<Longrightarrow> path_get q redacted_mark = None"
  by (cases q) (auto simp: redacted_mark_def jlit_def split: option.splits)

lemma redact_mark: "redact_path p redacted_mark = redacted_mark"
  by (cases p) (auto simp: redacted_mark_def jlit_def Let_def split: option.splits)

lemma redact_path_get:
  "p \<noteq> [] \<Longrightarrow> path_get p (redact_path p j) = None \<or> path_get p (redact_path p j) = Some redacted_mark"
proof (induction p arbitrary: j)
  case (Cons h rest)
  show ?case
  proof (cases "py_int h")
    case None
    show ?thesis
      using None Cons.IH
      by (cases j) (auto simp: Let_def map_of_obj_set split: option.splits)
  next
    case (Some i)
    show ?thesis
      using Some Cons.IH
      by (cases j) (auto simp: Let_def split: option.splits)
  qed
qed simp

text \<open>A redaction leaves alone whatever lies neither above nor below the redacted path.\<close>

lemma redact_path_other:
  "\<not> same_path_prefix p q \<Longrightarrow> \<not> same_path_prefix q p \<Longrightarrow> path_get q (redact_path p j) = path_get q j"
proof (induction p arbitrary: q j)
  case (Cons h rest)
  then obtain k q' where q: "q = k # q'" by (cases q) auto
  have sub: "path_get q' (if rest = [] then redacted_mark else redact_path rest v) = path_get q' v"
    if "same_part h k" for v
    using Cons that by (auto simp: q same_part_def split: option.splits)
  let ?sub = "\<lambda>v. if rest = [] then redacted_mark else redact_path rest v"
  show ?case
  proof (cases j)
    case (JArr xs)
    show ?thesis
    proof (cases "py_int h")
      case (Some i)
      show ?thesis
      proof (cases "py_int k = Some i")
        case True
        then have "path_get q' (?sub v) = path_get q' v" for v
          using Some sub by (simp add: same_part_def)
        then show ?thesis using True Some by (simp add: JArr q Let_def)
      next
        case False
        then show ?thesis
          using Some by (cases "py_int k") (auto simp: JArr q Let_def nth_list_update)
      qed
    qed (simp add: JArr q Let_def)
  next
    case (JObj kvs)
    show ?thesis
    proof (cases "py_int h = None \<and> py_int k = None \<and> h = k")
      case True
      then have "path_get q' (?sub v) = path_get q' v" for v
        using sub by (simp add: same_part_def)
      then show ?thesis
        using True by (cases "map_of kvs h") (simp_all add: JObj q Let_def map_of_obj_set)
    next
      case False
      then show ?thesis
        by (cases "py_int h"; cases "py_int k"; cases "map_of kvs h")
          (simp_all add: JObj q Let_def map_of_obj_set)
    qed
  qed (simp_all add: q Let_def split: option.splits)
qed simp

lemma redact_path_wf: "json_wf j \<Longrightarrow> json_wf (redact_path p j)"
proof (induction p arbitrary: j)
  case (Cons h rest)
  have sub: "json_wf v \<Longrightarrow> json_wf (if rest = [] then redacted_mark else redact_path rest v)" for v
    using Cons.IH by (simp add: redacted_mark_def jlit_def)
  show ?case
  proof (cases "py_int h")
    case None
    show ?thesis
    proof (cases j)
      case (JObj kvs)
      have set: "json_wf (JObj (obj_set h v kvs))" if "map_of kvs h = Some w" "json_wf v" for v w
      proof -
        have "map fst (obj_set h v kvs) = map fst kvs"
          using that by (intro obj_set_keys) (force dest: map_of_SomeD)
        moreover have "json_wf (snd kv)" if "kv \<in> set (obj_set h v kvs)" for kv
          using Cons.prems that \<open>json_wf v\<close> set_obj_set [of h v kvs] by (auto simp: JObj)
        ultimately show ?thesis using Cons.prems by (auto simp: JObj)
      qed
      have get: "json_wf w" if "map_of kvs h = Some w" for w
        using Cons.prems that by (force simp: JObj dest: map_of_SomeD)
      show ?thesis
      proof (cases "map_of kvs h")
        case (Some w)
        then show ?thesis
          using None set [OF Some sub [OF get [OF Some]]] by (simp add: JObj Let_def)
      qed (use None Cons.prems in \<open>simp add: JObj Let_def\<close>)
    qed (use None Cons.prems in \<open>auto simp: Let_def\<close>)
  next
    case (Some i)
    show ?thesis
    proof (cases j)
      case (JArr xs)
      have upd: "json_wf (JArr (xs[nat i := v]))" if "json_wf v" for v
        using Cons.prems that set_update_subset_insert [of xs "nat i" v] by (auto simp: JArr)
      show ?thesis
      proof (cases "0 \<le> i \<and> nat i < length xs")
        case True
        then have "json_wf (xs ! nat i)" using Cons.prems by (simp add: JArr)
        from upd [OF sub [OF this]] show ?thesis using Some True by (simp add: JArr Let_def)
      qed (use Some Cons.prems in \<open>auto simp: JArr Let_def\<close>)
    qed (use Some Cons.prems in \<open>auto simp: Let_def\<close>)
  qed
qed simp

text \<open>After all redactions every listed path is gone or reads as the mark.\<close>

definition path_clean :: "pystr list \<Rightarrow> json \<Rightarrow> bool" where
  "path_clean p j \<longleftrightarrow> path_get p j = None \<or> path_get p j = Some redacted_mark"

lemma redact_path_clean:
  "path_clean p j \<Longrightarrow> path_clean p (redact_path q j)"
proof (induction q arbitrary: p j)
  case (Cons h rest)
  note IH = Cons.IH and prems = Cons.prems
  let ?sub = "\<lambda>v. if rest = [] then redacted_mark else redact_path rest v"
  show ?case
  proof (cases p)
    case Nil
    with prems have "j = redacted_mark" by (simp add: path_clean_def)
    then show ?thesis using prems by (simp add: redact_mark)
  next
    case p: (Cons k p')
    have sub: "path_clean p' v \<Longrightarrow> path_clean p' (?sub v)" for v
    proof (cases "rest = []")
      case True
      then show ?thesis using path_get_mark [of p'] by (cases "p' = []") (simp_all add: path_clean_def)
    next
      case False
      then show "path_clean p' v \<Longrightarrow> path_clean p' (?sub v)" using IH by simp
    qed
    show ?thesis
    proof (cases j)
      case (JArr xs)
      show ?thesis
      proof (cases "py_int h"; cases "py_int k")
        fix i l assume "py_int h = Some i" "py_int k = Some l"
        then show ?thesis
          using prems sub [of "xs ! nat i"]
          by (cases "i = l") (auto simp: JArr p Let_def path_clean_def nth_list_update)
      qed (use prems in \<open>auto simp: JArr p Let_def path_clean_def\<close>)
    next
      case (JObj kvs)
      show ?thesis
      proof (cases "py_int h = None \<and> py_int k = None \<and> h = k")
        case True
        then show ?thesis
          using prems sub
          by (cases "map_of kvs h") (auto simp: JObj p Let_def map_of_obj_set path_clean_def)
      next
        case False
        then show ?thesis
          using prems by (cases "py_int h"; cases "py_int k"; cases "map_of kvs h")
            (simp_all add: JObj p Let_def map_of_obj_set path_clean_def)
      qed
    qed (use prems in \<open>simp_all add: p Let_def path_clean_def split: option.splits\<close>)
  qed
qed simp

lemma fold_redact_clean:
  "path_clean p j \<Longrightarrow> path_clean p (fold (\<lambda>path. redact_path (split_on 46 path)) fs j)"
  by (induction fs arbitrary: j) (simp_all add: redact_path_clean)

lemma redact_all_clean:
  "f \<in> set fs \<Longrightarrow> path_clean (split_on 46 f) (fold (\<lambda>path. redact_path (split_on 46 path)) fs j)"
proof (induction fs arbitrary: j)
  case (Cons g fs)
  show ?case
  proof (cases "f = g")
    case True
    have "path_clean (split_on 46 g) (redact_path (split_on 46 g) j)"
      using redact_path_get [of "split_on 46 g" j] by (simp add: path_clean_def)
    with True show ?thesis by (simp add: fold_redact_clean)
  qed (use Cons in simp)
qed simp

lemma redact_all_other:
  "(\<And>f. f \<in> set fs \<Longrightarrow> \<not> same_path_prefix (split_on 46 f) q \<and> \<not> same_path_prefix q (split_on 46 f)) \<Longrightarrow>
   path_get q (fold (\<lambda>path. redact_path (split_on 46 path)) fs j) = path_get q j"
  by (induction fs arbitrary: j) (simp_all add: redact_path_other)

text \<open>Redaction of an outbox payload: in the result every listed dotted path is absent
  or reads \<open><redacted>\<close>, whatever the order and overlap of the paths; a path that neither lies
  above nor below a listed one reads as before; the result is a well-formed JSON value again.\<close>

lemma redact_outbox_payload_exact:
  "(\<forall>f \<in> set paths. path_get (split_on 46 f) (redact_outbox_payload payload paths) \<in>
      {None, Some redacted_mark}) \<and>
   (\<forall>q. (\<forall>f \<in> set paths. \<not> same_path_prefix (split_on 46 f) q \<and> \<not> same_path_prefix q (split_on 46 f)) \<longrightarrow>
      path_get q (redact_outbox_payload payload paths) = path_get q payload) \<and>
   (json_wf payload \<longrightarrow> json_wf (redact_outbox_payload payload paths))"
proof (intro conjI)
  show "\<forall>f \<in> set paths. path_get (split_on 46 f) (redact_outbox_payload payload paths) \<in>
      {None, Some redacted_mark}"
    using redact_all_clean [of _ paths payload]
    unfolding path_clean_def redact_outbox_payload_def by auto
  show "\<forall>q. (\<forall>f \<in> set paths. \<not> same_path_prefix (split_on 46 f) q \<and> \<not> same_path_prefix q (split_on 46 f)) \<longrightarrow>
      path_get q (redact_outbox_payload payload paths) = path_get q payload"
    using redact_all_other [of paths _ payload] unfolding redact_outbox_payload_def by blast
  have "json_wf j \<Longrightarrow> json_wf (fold (\<lambda>path. redact_path (split_on 46 path)) fs j)" for fs j
    by (induction fs arbitrary: j) (simp_all add: redact_path_wf)
  then show "json_wf payload \<longrightarrow> json_wf (redact_outbox_payload payload paths)"
    unfolding redact_outbox_payload_def by blast
qed

definition sample_payload :: json where
  "sample_payload = jobj [(''title'', jlit ''report''),
     (''subjects'', JArr [jobj [(''name'', jlit ''A. B.''), (''role'', jlit ''ceo'')]])]"

lemma redact_outbox_payload_exact_witness:
  "path_get [lit ''subjects'', lit ''0'', lit ''name'']
     (redact_outbox_payload sample_payload [lit ''subjects.0.name'', lit ''absent.path'']) =
       Some redacted_mark \<and>
   path_get [lit ''title''] (redact_outbox_payload sample_payload [lit ''subjects.0.name'', lit ''absent.path'']) =
       Some (jlit ''report'')"
proof
  let ?fs = "[lit ''subjects.0.name'', lit ''absent.path'']"
  let ?out = "redact_outbox_payload sample_payload ?fs"
  have split: "split_on 46 (lit ''subjects.0.name'') = [lit ''subjects'', lit ''0'', lit ''name'']"
    "split_on 46 (lit ''absent.path'') = [lit ''absent'', lit ''path'']"
    by (simp_all add: of_char_def)
  show "path_get [lit ''subjects'', lit ''0'', lit ''name''] ?out = Some redacted_mark"
  proof -
    have "path_get [lit ''subjects'', lit ''0'', lit ''name''] ?out \<noteq> None"
      by code_simp
    with redact_outbox_payload_exact [of ?fs sample_payload] show ?thesis
      unfolding list.set ball_simps split by blast
  qed
  have "\<forall>f \<in> set ?fs. \<not> same_path_prefix (split_on 46 f) [lit ''title''] \<and>
      \<not> same_path_prefix [lit ''title''] (split_on 46 f)"
    by code_simp
  with redact_outbox_payload_exact [of ?fs sample_payload]
  have "path_get [lit ''title''] ?out = path_get [lit ''title''] sample_payload" by blast
  also have "\<dots> = Some (jlit ''report'')"
    by code_simp
  finally show "path_get [lit ''title''] ?out = Some (jlit ''report'')" .
qed

definition sample_event :: "uuid \<Rightarrow> stream_event" where
  "sample_event u = \<lparr>se_schema_version = 1, se_event_id = u,
     se_produced_at = \<lparr>instant = 0, utcoffset = Some 0\<rparr>, se_producer_run_id = 0,
     se_source_id = ''kap'', se_actor_id = None, se_actor_kind = None, se_traceparent = None,
     se_request_id = None,
     se_body = EntityCreatedEvent \<lparr>ec_entity_id = 5, ec_entity_type = lit ''company'',
       ec_legal_name = lit ''X'', ec_primary_identifier_namespace = None,
       ec_primary_identifier_value = None\<rparr>\<rparr>"

end
