(* ===== verification/Uuid_Text.thy ===== *)
theory Uuid_Text
  imports Py_Values
begin

text \<open>
  \<open>uuid.UUID(text)\<close>, as the consumer and the redaction cache use it to read event ids back,
  and the round trip with \<open>str(uuid)\<close>.
\<close>

definition hex_val :: "nat \<Rightarrow> nat option" where
  "hex_val c =
     (if 48 \<le> c \<and> c \<le> 57 then Some (c - 48)
      else if 97 \<le> c \<and> c \<le> 102 then Some (c - 87)
      else if 65 \<le> c \<and> c \<le> 70 then Some (c - 55)
      else None)"

text \<open>\<open>int(s, 16)\<close>: white space, sign, an optional \<open>0x\<close>, digits with single underscores.\<close>

fun hex_digits_val :: "bool \<Rightarrow> nat \<Rightarrow> pystr \<Rightarrow> nat option" where
  "hex_digits_val prev acc [] = (if prev then Some acc else None)"
| "hex_digits_val prev acc (c # cs) =
     (case hex_val c of
        Some d \<Rightarrow> hex_digits_val True (acc * 16 + d) cs
      | None \<Rightarrow> if c = 95 \<and> prev then hex_digits_val False acc cs else None)"

definition hex_prefixed :: "pystr \<Rightarrow> nat option" where
  "hex_prefixed s =
     (case s of
        z # x # cs \<Rightarrow>
          if z = 48 \<and> (x = 120 \<or> x = 88) then
            hex_digits_val False 0 (case cs of [] \<Rightarrow> [] | c # ds \<Rightarrow> if c = 95 then ds else cs)
          else hex_digits_val False 0 s
      | _ \<Rightarrow> hex_digits_val False 0 s)"

definition py_int16 :: "pystr \<Rightarrow> int option" where
  "py_int16 s =
     (case int_text s of
        [] \<Rightarrow> None
      | c # cs \<Rightarrow>
          if c = 45 then map_option (\<lambda>n. - int n) (hex_prefixed cs)
          else if c = 43 then map_option int (hex_prefixed cs)
          else map_option int (hex_prefixed (c # cs)))"

text \<open>\<open>s.replace(sub, "")\<close> for a non-empty \<open>sub\<close>: occurrences from the left, none overlapping.\<close>

function remove_all :: "pystr \<Rightarrow> pystr \<Rightarrow> pystr" where
  "remove_all sub [] = []"
| "remove_all sub (c # cs) =
     (if sub \<noteq> [] \<and> take (length sub) (c # cs) = sub then remove_all sub (drop (length sub) (c # cs))
      else c # remove_all sub cs)"
  by pat_completeness auto
termination
  by (relation "measure (\<lambda>(sub, s). length s)") (auto simp: Suc_le_eq)

definition strip_chars :: "pystr \<Rightarrow> pystr \<Rightarrow> pystr" where
  "strip_chars cs s = rev (dropWhile (\<lambda>c. c \<in> set cs) (rev (dropWhile (\<lambda>c. c \<in> set cs) s)))"

definition uuid_parse :: "pystr \<Rightarrow> uuid option" where
  "uuid_parse s =
     (let h = filter (\<lambda>c. c \<noteq> 45)
                (strip_chars (lit ''{}'') (remove_all (lit ''uuid:'') (remove_all (lit ''urn:'') s)))
      in if length h \<noteq> 32 then None
         else case py_int16 h of
                None \<Rightarrow> None
              | Some i \<Rightarrow> if 0 \<le> i \<and> i < 2 ^ 128 then Some (word_of_int i) else None)"

section \<open>The round trip\<close>

lemma hex_val_digit: "d < 16 \<Longrightarrow> hex_val (hex_digit d) = Some d"
  by (auto simp: hex_val_def hex_digit_def)

lemma hex_digit_range:
  "d < 16 \<Longrightarrow> 48 \<le> hex_digit d \<and> hex_digit d \<le> 57 \<or> 97 \<le> hex_digit d \<and> hex_digit d \<le> 102"
  by (auto simp: hex_digit_def)

lemma hex_digits_val_map:
  "(\<And>d. d \<in> set ds \<Longrightarrow> d < 16) \<Longrightarrow> ds \<noteq> [] \<Longrightarrow>
   hex_digits_val p acc (map hex_digit ds) = Some (foldl (\<lambda>a d. a * 16 + d) acc ds)"
proof (induction ds arbitrary: p acc)
  case (Cons d ds)
  show ?case
  proof (cases "ds = []")
    case True
    with Cons.prems show ?thesis by (simp add: hex_val_digit)
  next
    case False
    with Cons show ?thesis by (simp add: hex_val_digit)
  qed
qed simp

lemma foldl_hex:
  "foldl (\<lambda>a d. a * 16 + d) a (map (\<lambda>i. n div 16 ^ i mod 16) (rev [0..<k])) = a * 16 ^ k + n mod (16 ^ k :: nat)"
proof (induction k arbitrary: a)
  case (Suc k)
  have "n mod 16 ^ Suc k = (n div 16 ^ k mod 16) * 16 ^ k + n mod 16 ^ k"
    using mod_mult2_eq [of n "16 ^ k" 16] by (simp add: mult.commute)
  moreover have "foldl (\<lambda>a d. a * 16 + d) a (map (\<lambda>i. n div 16 ^ i mod 16) (rev [0..<Suc k])) =
      (a * 16 + n div 16 ^ k mod 16) * 16 ^ k + n mod 16 ^ k"
    using Suc.IH [of "a * 16 + n div 16 ^ k mod 16"] by simp
  ultimately show ?case by (simp add: algebra_simps)
qed simp

lemma remove_all_absent: "hd sub \<notin> set s \<Longrightarrow> sub \<noteq> [] \<Longrightarrow> remove_all sub s = s"
proof (induction sub s rule: remove_all.induct)
  case (2 sub c cs)
  then have "take (length sub) (c # cs) \<noteq> sub" by (cases sub) auto
  with 2 show ?case by simp
qed simp

lemma strip_chars_absent: "set s \<inter> set cs = {} \<Longrightarrow> strip_chars cs s = s"
proof -
  assume "set s \<inter> set cs = {}"
  then have "dropWhile (\<lambda>c. c \<in> set cs) s = s" "dropWhile (\<lambda>c. c \<in> set cs) (rev s) = rev s"
    by (auto simp: dropWhile_eq_self_iff hd_rev disjoint_iff dest: hd_in_set last_in_set)
  then show ?thesis by (simp add: strip_chars_def)
qed

definition uuid_digits :: "uuid \<Rightarrow> nat list" where
  "uuid_digits u = map (\<lambda>i. unat u div 16 ^ i mod 16) (rev [0..<32])"

lemma uuid_digits_less: "d \<in> set (uuid_digits u) \<Longrightarrow> d < 16"
  by (auto simp: uuid_digits_def)

lemma uuid_digits_length: "length (uuid_digits u) = 32"
  by (simp add: uuid_digits_def)

lemma uuid_str_digits:
  "uuid_str u = (let h = map hex_digit (uuid_digits u)
     in take 8 h @ 45 # take 4 (drop 8 h) @ 45 # take 4 (drop 12 h) @ 45 #
        take 4 (drop 16 h) @ 45 # drop 20 h)"
  unfolding uuid_str_def uuid_digits_def Let_def by (simp only: map_map comp_def)

lemma uuid_str_chars: "set (uuid_str u) \<subseteq> insert 45 (hex_digit ` {..<16})"
  unfolding uuid_str_digits Let_def
  using uuid_digits_less by (fastforce dest: in_set_takeD in_set_dropD)

lemma take_drop_join: "take x (drop y h) @ drop (x + y) h = drop y h"
  by (metis append_take_drop_id drop_drop)

lemma uuid_str_filter: "filter (\<lambda>c. c \<noteq> 45) (uuid_str u) = map hex_digit (uuid_digits u)"
proof -
  let ?h = "map hex_digit (uuid_digits u)"
  have "filter (\<lambda>c. c \<noteq> 45) s = s" if "set s \<subseteq> set ?h" for s
    using that uuid_digits_less hex_digit_range by (force simp: filter_id_conv)
  then have "filter (\<lambda>c. c \<noteq> 45) (uuid_str u) =
      take 8 ?h @ take 4 (drop 8 ?h) @ take 4 (drop 12 ?h) @ take 4 (drop 16 ?h) @ drop 20 ?h"
    unfolding uuid_str_digits Let_def
    by (simp only: filter_append filter.simps set_take_subset set_drop_subset
        subset_trans [OF set_take_subset set_drop_subset] simp_thms if_False not_False_eq_True)
  also have "\<dots> = ?h"
    using take_drop_join [of 4 16 ?h] take_drop_join [of 4 12 ?h] take_drop_join [of 4 8 ?h]
    by (simp only: numeral_plus_numeral add_num_simps append_take_drop_id)
  finally show ?thesis .
qed

lemma py_int16_digits:
  assumes "length ds = 32" and "\<And>d. d \<in> set ds \<Longrightarrow> d < 16"
  shows "py_int16 (map hex_digit ds) = Some (int (foldl (\<lambda>a d. a * 16 + d) 0 ds))"
proof -
  obtain d e es where ds: "ds = d # e # es" using assms(1) by (cases ds rule: list.exhaust; cases "tl ds") auto
  have ok: "32 < hex_digit x \<and> hex_digit x < 128 \<and> hex_digit x \<noteq> 45 \<and> hex_digit x \<noteq> 43 \<and> hex_digit x \<noteq> 120 \<and> hex_digit x \<noteq> 88"
    if "x < 16" for x
    using hex_digit_range [OF that] by auto
  have "int_text (map hex_digit ds) = map hex_digit ds"
    using ok assms(2) by (intro int_text_plain) auto
  moreover have "hex_prefixed (map hex_digit ds) = hex_digits_val False 0 (map hex_digit ds)"
    using ok [of e] assms(2) ds
    by (auto simp: hex_prefixed_def split: nat.splits)
  ultimately show ?thesis
    using ok [of d] assms(2) ds hex_digits_val_map [of ds False 0]
    by (simp add: py_int16_def)
qed

lemma uuid_round_trip: "uuid_parse (uuid_str u) = Some u"
proof -
  have chars: "c = 45 \<or> 48 \<le> c \<and> c \<le> 57 \<or> 97 \<le> c \<and> c \<le> 102" if "c \<in> set (uuid_str u)" for c
    using that uuid_str_chars [of u] hex_digit_range by fastforce
  have "remove_all (lit ''urn:'') (uuid_str u) = uuid_str u"
    "remove_all (lit ''uuid:'') (uuid_str u) = uuid_str u"
    using chars [of 117] by (auto intro!: remove_all_absent)
  moreover have "strip_chars (lit ''{}'') (uuid_str u) = uuid_str u"
    using chars [of 123] chars [of 125] by (intro strip_chars_absent) auto
  ultimately have h: "filter (\<lambda>c. c \<noteq> 45)
      (strip_chars (lit ''{}'') (remove_all (lit ''uuid:'') (remove_all (lit ''urn:'') (uuid_str u)))) =
      map hex_digit (uuid_digits u)"
    by (simp only: uuid_str_filter)
  have lt: "unat u < 16 ^ 32" using unsigned_less [of u, where 'a = nat] by simp
  have "foldl (\<lambda>a d. a * 16 + d) 0 (uuid_digits u) = unat u"
    unfolding uuid_digits_def using foldl_hex [of 0 "unat u" 32] lt by simp
  then have "py_int16 (map hex_digit (uuid_digits u)) = Some (int (unat u))"
    using py_int16_digits [OF uuid_digits_length uuid_digits_less] by simp
  moreover have "int (unat u) = uint u" by simp
  moreover have "0 \<le> uint u" "uint u < 2 ^ 128" using unsigned_less [of u, where 'a = int] by simp_all
  ultimately show ?thesis
    unfolding uuid_parse_def Let_def h by (simp del: int_nat_eq add: uuid_digits_length)
qed

end
