(* ===== verification/Py_Json.thy ===== *)
theory Py_Json
  imports Py_Values "HOL-Library.List_Lexorder"
begin

text \<open>
  Decoded JSON as Python sees it: the numbers a double stands for and \<open>==\<close>. The model's JSON
  values carry a double as its 64 bits.
\<close>

section \<open>Equality\<close>

text \<open>
  \<open>==\<close> compares numbers across \<open>bool\<close>, \<open>int\<close> and \<open>float\<close> by value and dictionaries by key. A
  finite double is an integer multiple of \<open>2 ^ - 1074\<close>; numbers are compared as such multiples.
  An infinity equals itself only and a NaN equals nothing.
\<close>

definition float_units :: "64 word \<Rightarrow> (int + bool) option" where
  "float_units w =
     (let neg = bit w 63;
          e = unat (take_bit 11 (drop_bit 52 w));
          m = uint (take_bit 52 w)
      in if e = 2047 then (if m = 0 then Some (Inr neg) else None)
         else Some (Inl ((if neg then - 1 else 1) * (if e = 0 then m else (2 ^ 52 + m) * 2 ^ (e - 1)))))"

definition num_units :: "json \<Rightarrow> (int + bool) option" where
  "num_units j = (case j of
     JBool b \<Rightarrow> Some (Inl (if b then 2 ^ 1074 else 0))
   | JInt i \<Rightarrow> Some (Inl (i * 2 ^ 1074))
   | JFloat w \<Rightarrow> float_units w
   | _ \<Rightarrow> None)"

lemma zip_size [termination_simp]: "(x, y) \<in> set (zip xs ys) \<Longrightarrow> size x < Suc (size_list size xs)"
  using size_list_estimation' [of x xs "size x" size] by (auto dest: set_zip_leftD)

lemma pair_size [termination_simp]: "(k, v) \<in> set xs \<Longrightarrow> size v < Suc (size_list (size_prod (\<lambda>_. 0) size) xs)"
  by (induction xs) auto

fun json_eq :: "json \<Rightarrow> json \<Rightarrow> bool" where
  "json_eq JNull b = (b = JNull)"
| "json_eq (JStr s) b = (b = JStr s)"
| "json_eq (JArr xs) b = (case b of
     JArr ys \<Rightarrow> length xs = length ys \<and> list_all (\<lambda>(x, y). json_eq x y) (zip xs ys)
   | _ \<Rightarrow> False)"
| "json_eq (JObj xs) b = (case b of
     JObj ys \<Rightarrow> length xs = length ys \<and>
       list_all (\<lambda>(k, v). case map_of ys k of None \<Rightarrow> False | Some w \<Rightarrow> json_eq v w) xs
   | _ \<Rightarrow> False)"
| "json_eq a b = (num_units a \<noteq> None \<and> num_units a = num_units b)"

definition float_finite :: "64 word \<Rightarrow> bool" where
  "float_finite w \<longleftrightarrow> take_bit 11 (drop_bit 52 w) \<noteq> (2047 :: 64 word)"

section \<open>Sorted keys\<close>

text \<open>The value that \<open>json.dumps(..., sort_keys=True)\<close> writes: the keys of every object in the order of their code points.
  Python's dictionaries have no key twice.\<close>

fun sort_json :: "json \<Rightarrow> json" where
  "sort_json (JArr xs) = JArr (map sort_json xs)"
| "sort_json (JObj kvs) = JObj (sort_key fst (map (\<lambda>kv. (fst kv, sort_json (snd kv))) kvs))"
| "sort_json j = j"

lemma map_of_insort: "map_of (insort_key fst x xs) = map_of (x # xs)"
  by (induction xs) (auto simp: fun_eq_iff)

lemma map_of_sorted: "map_of (sort_key fst xs) = map_of xs"
  by (induction xs) (simp_all add: map_of_insort fun_eq_iff)

lemma map_of_sort_json:
  "map_of (sort_key fst (map (\<lambda>kv. (fst kv, sort_json (snd kv))) kvs)) k = map_option sort_json (map_of kvs k)"
proof -
  have "map_of (map (\<lambda>kv. (fst kv, f (snd kv))) kvs) k = map_option f (map_of kvs k)" for f :: "json \<Rightarrow> json"
    by (induction kvs) auto
  then show ?thesis by (simp add: map_of_sorted)
qed

end
