(* ===== verification/Redaction.thy ===== *)
theory Redaction
  imports Redis_Keys Stream_Events Uuid_Text Py_Json "HOL-Library.Multiset"
begin

text \<open>
  The redaction registry (\<open>streams/redaction.py\<close>): the canonical payload hash, reading an entry
  from Postgres, the Redis cache in front of it, and the insert through the
  \<open>SECURITY DEFINER\<close> function of migration 0018. Parameters: \<open>sha\<close> is SHA-256 as a hexadecimal
  text, \<open>dumps\<close> / \<open>loads\<close> are \<open>json.dumps\<close> of a key-sorted value and \<open>json.loads\<close>, and \<open>jsonb\<close> is
  what Postgres gives back for a stored JSONB value.
\<close>

definition canonical_payload_hash :: "(pystr \<Rightarrow> pystr) \<Rightarrow> (json \<Rightarrow> pystr) \<Rightarrow> json \<Rightarrow> pystr" where
  "canonical_payload_hash sha dumps payload = sha (dumps (sort_json payload))"

definition redaction_lock_key :: "uuid \<Rightarrow> pystr" where
  "redaction_lock_key u = lit ''streams.redaction:'' @ uuid_str u"

definition redaction_cache_key :: "uuid \<Rightarrow> pystr" where
  "redaction_cache_key u = lit ''streams:redaction_registry:'' @ uuid_str u"

definition REDACTION_CACHE_TTL_SECONDS :: int where
  "REDACTION_CACHE_TTL_SECONDS = 24 * 3600"

record registry_entry =
  rg_event_id :: uuid
  rg_redaction_reason :: pystr
  rg_original_stream :: pystr
  rg_redacted_payload :: json
  rg_redacted_payload_hash :: pystr
  rg_original_payload_hash :: pystr

definition dict_of :: "json \<Rightarrow> error + json" where
  "dict_of j = (case j of JObj kvs \<Rightarrow> Inr (JObj kvs) | _ \<Rightarrow> Inl (PyE TypeError))"

definition entry_of_row :: "redaction_entry \<Rightarrow> error + registry_entry" where
  "entry_of_row r =
     (case dict_of (rr_redacted_payload r) of
        Inl e \<Rightarrow> Inl e
      | Inr p \<Rightarrow> Inr
          \<lparr>rg_event_id = rr_event_id r, rg_redaction_reason = rr_redaction_reason r,
           rg_original_stream = rr_original_stream r, rg_redacted_payload = p,
           rg_redacted_payload_hash = rr_redacted_payload_hash r,
           rg_original_payload_hash = rr_original_payload_hash r\<rparr>)"

definition fetch_registry_entry :: "uuid \<Rightarrow> db \<Rightarrow> error + registry_entry option" where
  "fetch_registry_entry u d =
     (case sql_find (\<lambda>r. rr_event_id r = u) (redactions d) of
        None \<Rightarrow> Inr None
      | Some r \<Rightarrow> (case entry_of_row r of Inl e \<Rightarrow> Inl e | Inr x \<Rightarrow> Inr (Some x)))"

section \<open>The cache\<close>

definition entry_json :: "registry_entry \<Rightarrow> json" where
  "entry_json x = jobj
     [(''event_id'', JStr (uuid_str (rg_event_id x))),
      (''redaction_reason'', JStr (rg_redaction_reason x)),
      (''original_stream'', JStr (rg_original_stream x)),
      (''redacted_payload'', rg_redacted_payload x),
      (''redacted_payload_hash'', JStr (rg_redacted_payload_hash x)),
      (''original_payload_hash'', JStr (rg_original_payload_hash x))]"

definition cache_registry_entry ::
  "'r kv_api \<Rightarrow> (json \<Rightarrow> pystr) \<Rightarrow> registry_entry \<Rightarrow> (error, 'r world, unit) op" where
  "cache_registry_entry K dumps x =
     kv_set K (redaction_cache_key (rg_event_id x)) (dumps (sort_json (entry_json x)))
       REDACTION_CACHE_TTL_SECONDS"

definition jfield :: "string \<Rightarrow> json \<Rightarrow> error + json" where
  "jfield k j = (case j of
     JObj kvs \<Rightarrow> (case map_of kvs (lit k) of None \<Rightarrow> Inl (PyE KeyError) | Some v \<Rightarrow> Inr v)
   | _ \<Rightarrow> Inl (PyE TypeError))"

text \<open>\<open>str(v)\<close>; of the values the code never stores under these keys it is \<open>pystr_of\<close>.\<close>

definition py_text :: "(json \<Rightarrow> pystr) \<Rightarrow> json \<Rightarrow> pystr" where
  "py_text pystr_of j = (case j of JStr s \<Rightarrow> s | _ \<Rightarrow> pystr_of j)"

definition entry_of_json :: "(json \<Rightarrow> pystr) \<Rightarrow> json \<Rightarrow> error + registry_entry" where
  "entry_of_json pystr_of data =
     (case jfield ''event_id'' data of Inl e \<Rightarrow> Inl e | Inr jid \<Rightarrow>
     (case jid of JStr t \<Rightarrow> (case uuid_parse t of None \<Rightarrow> Inl (PyE ValueError) | Some u \<Rightarrow>
     (case jfield ''redaction_reason'' data of Inl e \<Rightarrow> Inl e | Inr reason \<Rightarrow>
     (case jfield ''original_stream'' data of Inl e \<Rightarrow> Inl e | Inr stream \<Rightarrow>
     (case jfield ''redacted_payload'' data of Inl e \<Rightarrow> Inl e | Inr payload \<Rightarrow>
     (case dict_of payload of Inl e \<Rightarrow> Inl e | Inr p \<Rightarrow>
     (case jfield ''redacted_payload_hash'' data of Inl e \<Rightarrow> Inl e | Inr rh \<Rightarrow>
     (case jfield ''original_payload_hash'' data of Inl e \<Rightarrow> Inl e | Inr oh \<Rightarrow>
        Inr \<lparr>rg_event_id = u, rg_redaction_reason = py_text pystr_of reason,
             rg_original_stream = py_text pystr_of stream, rg_redacted_payload = p,
             rg_redacted_payload_hash = py_text pystr_of rh,
             rg_original_payload_hash = py_text pystr_of oh\<rparr>)))))))
      | _ \<Rightarrow> Inl (PyE AttributeError)))"

definition fetch_cached_registry_entry ::
  "'r kv_api \<Rightarrow> (json \<Rightarrow> pystr) \<Rightarrow> (pystr \<Rightarrow> json option) \<Rightarrow> (json \<Rightarrow> pystr) \<Rightarrow> uuid \<Rightarrow>
   (error, 'r world, registry_entry option) op" where
  "fetch_cached_registry_entry K dumps loads pystr_of u =
     bnd (kv_get K (redaction_cache_key u)) (\<lambda>raw.
       case raw of
         Some t \<Rightarrow>
           (case loads t of
              None \<Rightarrow> raise (PyE ValueError)
            | Some data \<Rightarrow> bnd (lift (entry_of_json pystr_of data)) (\<lambda>x. ret (Some x)))
       | None \<Rightarrow>
           bnd (\<lambda>w. (fetch_registry_entry u (wdb w), w)) (\<lambda>entry.
             case entry of
               None \<Rightarrow> ret None
             | Some x \<Rightarrow> thn (cache_registry_entry K dumps x) (ret (Some x))))"

section \<open>Writing\<close>

text \<open>
  \<open>write_registry_entry\<close>: the database function takes the event's advisory lock and inserts;
  the primary key refuses a second entry for an event.
\<close>

definition write_registry_entry ::
  "(json \<Rightarrow> json) \<Rightarrow> ctx \<Rightarrow> registry_entry \<Rightarrow> int option \<Rightarrow> (error, db, unit) op" where
  "write_registry_entry jsonb c x redacted_at = (\<lambda>d.
     if rg_event_id x \<in> rr_event_id ` set (redactions d) then (Inl (ServiceE IntegrityError), d)
     else (Inr (), d\<lparr>redactions := redactions d @
       [\<lparr>rr_event_id = rg_event_id x, rr_redaction_reason = rg_redaction_reason x,
         rr_redacted_at = (case redacted_at of Some t \<Rightarrow> t | None \<Rightarrow> ctx_now c),
         rr_original_stream = rg_original_stream x,
         rr_redacted_payload = jsonb (sort_json (rg_redacted_payload x)),
         rr_redacted_payload_hash = rg_redacted_payload_hash x,
         rr_original_payload_hash = rg_original_payload_hash x,
         rr_actor_id = None, rr_actor_kind = None, rr_request_id = None\<rparr>]\<rparr>))"

section \<open>Properties\<close>

text \<open>Two values that differ only in the order of object keys, at any depth.\<close>

inductive reordered :: "json \<Rightarrow> json \<Rightarrow> bool" where
  same: "reordered j j"
| arr: "list_all2 reordered xs ys \<Longrightarrow> reordered (JArr xs) (JArr ys)"
| obj: "list_all2 (\<lambda>a b. fst a = fst b \<and> reordered (snd a) (snd b)) kvs lvs \<Longrightarrow>
    mset lvs = mset mvs \<Longrightarrow> distinct (map fst kvs) \<Longrightarrow> reordered (JObj kvs) (JObj mvs)"

lemma sort_key_perm:
  fixes xs ys :: "('k :: linorder \<times> 'v) list"
  assumes "mset xs = mset ys" and "distinct (map fst xs)"
  shows "sort_key fst xs = sort_key fst ys"
proof (rule sort_key_inj_key_eq)
  show "mset xs = mset (sort_key fst ys)" using assms(1) by simp
  show "inj_on fst (set xs)" using assms(2) by (simp add: distinct_map)
qed simp

lemma sort_json_reordered: "reordered j j' \<Longrightarrow> sort_json j = sort_json j'"
proof (induction rule: reordered.induct)
  case (arr xs ys)
  then have "map sort_json xs = map sort_json ys"
    by (induction rule: list_all2_induct) auto
  then show ?case by simp
next
  case (obj kvs lvs mvs)
  let ?g = "\<lambda>kv. (fst kv, sort_json (snd kv))"
  have map: "map ?g kvs = map ?g lvs"
    using obj.IH(1) by (induction rule: list_all2_induct) auto
  have "distinct (map fst (map ?g kvs))" using obj.hyps(2) by (simp add: comp_def)
  moreover have "mset (map ?g kvs) = mset (map ?g mvs)" using map obj.hyps(1) by simp
  ultimately show ?case by (simp add: sort_key_perm)
qed simp

lemma sort_json_idem: "sort_json (sort_json j) = sort_json j"
proof (induction j rule: json_induct)
  case (JObj kvs)
  let ?g = "\<lambda>kv. (fst kv, sort_json (snd kv))"
  have "map ?g (sort_key fst (map ?g kvs)) = sort_key fst (map ?g kvs)"
    using JObj by (intro map_idI) auto
  then show ?case by (simp add: sorted_sort_id [of "map fst _"] sort_key_id_if_sorted)
qed simp_all

lemma fetch_append:
  assumes "u \<notin> rr_event_id ` set (redactions d)" and "rr_event_id r = u"
  shows "sql_find (\<lambda>r. rr_event_id r = u) (redactions d @ [r]) = Some r"
proof -
  have "sql_find (\<lambda>r. rr_event_id r = u) (redactions d) = None"
    using assms(1) by (force simp: sql_find_None_iff)
  with assms(2) show ?thesis by (simp add: sql_find_append)
qed

text \<open>A stored redaction passes its own integrity check and cannot be replaced. After an
  entry was written whose hash is the canonical hash of its payload, the entry read back carries
  a payload with exactly that hash, although JSONB storage may reorder object keys; and every
  later write for the same event is refused and leaves the table as it is.\<close>

lemma registry_write_then_fetch:
  assumes "rg_event_id x \<notin> rr_event_id ` set (redactions d)"
    and "rg_redacted_payload_hash x = canonical_payload_hash sha dumps (rg_redacted_payload x)"
    and "\<exists>kvs. jsonb (sort_json (rg_redacted_payload x)) = JObj kvs"
    and "reordered (sort_json (rg_redacted_payload x)) (jsonb (sort_json (rg_redacted_payload x)))"
  shows "\<exists>d' y. write_registry_entry jsonb c x at d = (Inr (), d') \<and>
    fetch_registry_entry (rg_event_id x) d' = Inr (Some y) \<and>
    canonical_payload_hash sha dumps (rg_redacted_payload y) = rg_redacted_payload_hash y \<and>
    rg_redacted_payload_hash y = rg_redacted_payload_hash x \<and>
    (\<forall>z t c'. rg_event_id z = rg_event_id x \<longrightarrow>
       write_registry_entry jsonb c' z t d' = (Inl (ServiceE IntegrityError), d'))"
proof -
  obtain kvs where kvs: "jsonb (sort_json (rg_redacted_payload x)) = JObj kvs" using assms(3) by blast
  have sorted: "sort_json (JObj kvs) = sort_json (rg_redacted_payload x)"
    using sort_json_reordered [OF assms(4)] by (simp add: kvs sort_json_idem)
  obtain d' where w: "write_registry_entry jsonb c x at d = (Inr (), d')"
    using assms(1) by (simp add: write_registry_entry_def)
  let ?y = "\<lparr>rg_event_id = rg_event_id x, rg_redaction_reason = rg_redaction_reason x,
      rg_original_stream = rg_original_stream x, rg_redacted_payload = JObj kvs,
      rg_redacted_payload_hash = rg_redacted_payload_hash x,
      rg_original_payload_hash = rg_original_payload_hash x\<rparr>"
  have "fetch_registry_entry (rg_event_id x) d' = Inr (Some ?y)"
    using w assms(1) fetch_append [OF assms(1)]
    by (auto simp: write_registry_entry_def fetch_registry_entry_def entry_of_row_def dict_of_def kvs)
  moreover have "canonical_payload_hash sha dumps (JObj kvs) = rg_redacted_payload_hash x"
    unfolding assms(2) canonical_payload_hash_def sorted ..
  moreover have "\<forall>z t c'. rg_event_id z = rg_event_id x \<longrightarrow>
      write_registry_entry jsonb c' z t d' = (Inl (ServiceE IntegrityError), d')"
    using w assms(1) by (auto simp: write_registry_entry_def)
  ultimately show ?thesis using w by (intro exI [of _ d'] exI [of _ ?y]) simp
qed

definition sample_entry :: registry_entry where
  "sample_entry = \<lparr>rg_event_id = 9, rg_redaction_reason = lit ''Art.17'',
     rg_original_stream = lit ''aslan.entity.created'',
     rg_redacted_payload = JObj [(lit ''b'', JInt 1), (lit ''a'', JNull)],
     rg_redacted_payload_hash = [7], rg_original_payload_hash = [8]\<rparr>"

lemma registry_write_then_fetch_witness:
  "\<exists>d' y. write_registry_entry id sample_ctx sample_entry None (empty_db []) = (Inr (), d') \<and>
    fetch_registry_entry (rg_event_id sample_entry) d' = Inr (Some y) \<and>
    canonical_payload_hash (\<lambda>_. [7]) (\<lambda>_. []) (rg_redacted_payload y) = rg_redacted_payload_hash y \<and>
    rg_redacted_payload_hash y = rg_redacted_payload_hash sample_entry \<and>
    (\<forall>z t c'. rg_event_id z = rg_event_id sample_entry \<longrightarrow>
       write_registry_entry id c' z t d' = (Inl (ServiceE IntegrityError), d'))"
  by (rule registry_write_then_fetch)
    (simp_all add: sample_entry_def empty_db_def canonical_payload_hash_def reordered.same)

lemma jfield_sorted:
  "distinct (map fst kvs) \<Longrightarrow> jfield k (sort_json (JObj kvs)) =
     (case map_of kvs (lit k) of None \<Rightarrow> Inl (PyE KeyError) | Some v \<Rightarrow> Inr (sort_json v))"
  by (simp add: jfield_def map_of_sort_json split: option.splits)

lemma entry_of_sorted_json:
  assumes "rg_redacted_payload x = JObj kvs"
  shows "entry_of_json pystr_of (sort_json (entry_json x)) =
    Inr (x\<lparr>rg_redacted_payload := sort_json (JObj kvs)\<rparr>)"
proof -
  have "distinct (map fst (map (\<lambda>(k, v). (lit k, v))
     [(''event_id'', JStr (uuid_str (rg_event_id x))),
      (''redaction_reason'', JStr (rg_redaction_reason x)),
      (''original_stream'', JStr (rg_original_stream x)),
      (''redacted_payload'', rg_redacted_payload x),
      (''redacted_payload_hash'', JStr (rg_redacted_payload_hash x)),
      (''original_payload_hash'', JStr (rg_original_payload_hash x))]))"
    by simp
  note f = jfield_sorted [OF this]
  have "jfield ''event_id'' (sort_json (entry_json x)) = Inr (JStr (uuid_str (rg_event_id x)))"
    "jfield ''redaction_reason'' (sort_json (entry_json x)) = Inr (JStr (rg_redaction_reason x))"
    "jfield ''original_stream'' (sort_json (entry_json x)) = Inr (JStr (rg_original_stream x))"
    "jfield ''redacted_payload'' (sort_json (entry_json x)) = Inr (sort_json (JObj kvs))"
    "jfield ''redacted_payload_hash'' (sort_json (entry_json x)) = Inr (JStr (rg_redacted_payload_hash x))"
    "jfield ''original_payload_hash'' (sort_json (entry_json x)) = Inr (JStr (rg_original_payload_hash x))"
    unfolding entry_json_def jobj_def f by (simp_all add: assms)
  then show ?thesis
    unfolding entry_of_json_def by (simp add: uuid_round_trip py_text_def dict_of_def)
qed

text \<open>The cache returns what was cached. Writing an entry to the Redis cache and looking
  the event up again gives the same entry with its payload keys sorted, so with the same
  canonical hash, and leaves the database alone.\<close>

lemma cache_round_trip:
  assumes "redis_keys K strings members pending" and "\<And>r. link K r = NoFault"
    and "rg_redacted_payload x = JObj kvs"
    and "loads (dumps (sort_json (entry_json x))) = Some (sort_json (entry_json x))"
    and "cache_registry_entry K dumps x w = (Inr (), w')"
  shows "\<exists>y. fetch_cached_registry_entry K dumps loads pystr_of (rg_event_id x) w' = (Inr (Some y), w') \<and>
    y = x\<lparr>rg_redacted_payload := sort_json (rg_redacted_payload x)\<rparr> \<and>
    canonical_payload_hash sha dumps (rg_redacted_payload y) =
      canonical_payload_hash sha dumps (rg_redacted_payload x)"
proof -
  let ?t = "dumps (sort_json (entry_json x))"
  let ?y = "x\<lparr>rg_redacted_payload := sort_json (JObj kvs)\<rparr>"
  have w': "w' = w\<lparr>wredis := sv_set K (redaction_cache_key (rg_event_id x)) ?t REDACTION_CACHE_TTL_SECONDS (wredis w)\<rparr>"
    using assms(2,5) by (simp add: cache_registry_entry_def kv_set_def call_def)
  then have "sv_get K (redaction_cache_key (rg_event_id x)) (wredis w') = Some ?t"
    by (simp add: redis_keys.get [OF assms(1)] redis_keys.set_strings [OF assms(1)])
  then have get: "kv_get K (redaction_cache_key (rg_event_id x)) w' = (Inr (Some ?t), w')"
    using assms(2) by (simp add: kv_get_def call_def)
  have "fetch_cached_registry_entry K dumps loads pystr_of (rg_event_id x) w' = (Inr (Some ?y), w')"
    unfolding fetch_cached_registry_entry_def
    by (simp add: bnd_eval get assms(4) entry_of_sorted_json [OF assms(3)] ret_def del: sort_json.simps)
  then show ?thesis
    by (intro exI [of _ ?y]) (simp add: assms(3) canonical_payload_hash_def sort_json_idem del: sort_json.simps)
qed

definition sample_redis_world :: "full_redis world" where
  "sample_redis_world = \<lparr>wdb = empty_db [], wredis = empty_redis\<rparr>"

lemma cache_round_trip_witness:
  "\<exists>w' y. cache_registry_entry full_keys (\<lambda>_. []) sample_entry sample_redis_world = (Inr (), w') \<and>
    fetch_cached_registry_entry full_keys (\<lambda>_. []) (\<lambda>_. Some (sort_json (entry_json sample_entry)))
      (\<lambda>_. []) (rg_event_id sample_entry) w' = (Inr (Some y), w') \<and>
    y = sample_entry\<lparr>rg_redacted_payload := sort_json (rg_redacted_payload sample_entry)\<rparr>"
proof -
  obtain w' where w': "cache_registry_entry full_keys (\<lambda>_. []) sample_entry sample_redis_world = (Inr (), w')"
    by (simp add: cache_registry_entry_def kv_set_def call_def full_keys_def)
  have "\<And>r. link full_keys r = NoFault" by (simp add: full_keys_def)
  moreover have "rg_redacted_payload sample_entry = JObj [(lit ''b'', JInt 1), (lit ''a'', JNull)]"
    by (simp add: sample_entry_def)
  ultimately show ?thesis
    using cache_round_trip [OF full.redis_keys_axioms _ _ _ w', of _ "\<lambda>_. Some (sort_json (entry_json sample_entry))"
        "\<lambda>_. []" id] w' by blast
qed

end
