(* ===== verification/Consumer.thy ===== *)
theory Consumer
  imports Deadletter Redaction "HOL-Library.Sublist"
begin

text \<open>
  The stream consumer (\<open>streams/consumer.py\<close>): parsing and the schema gate, the processed-set
  and claim gates, the redaction check under the event's advisory lock, the acknowledgement
  (audit row first, then one Lua script), and the failure paths into dead-letter routing.

  The generator \<open>_process_message\<close> yields at most one delivery; what the caller does with it is
  the parameter \<open>react\<close>. Other workers act between the gates (\<open>ifr n\<close>). pydantic's validation of
  a payload is the parameter \<open>ce_validate\<close>; \<open>json.loads\<close>, \<open>json.dumps\<close>, SHA-256 and the text
  of exceptions and time stamps are parameters as well. Tracing and metrics are left out.
\<close>

definition CLAIM_LEASE_SECONDS :: int where
  "CLAIM_LEASE_SECONDS = 300"

definition PROCESSED_TTL_SECONDS :: int where
  "PROCESSED_TTL_SECONDS = 7 * 24 * 3600"

record stream_consumer =
  max_supported :: int
  min_supported :: int
  max_attempts_before_deadletter :: int
  deadletter_on_schema_mismatch :: bool
  owner_id :: string

record 'r consumer_env =
  ce_R :: "'r redis_api"
  ce_K :: "'r kv_api"
  ce_fuel :: nat
  ce_loads :: "pystr \<Rightarrow> json option"
  ce_dumps :: "json \<Rightarrow> pystr"
  ce_dumps_sorted :: "json \<Rightarrow> pystr"
  ce_validate :: "json \<Rightarrow> stream_event option"
  ce_sha :: "pystr \<Rightarrow> pystr"
  ce_pystr_of :: "json \<Rightarrow> pystr"
  ce_iso :: "int \<Rightarrow> pystr"
  ce_error_text :: "error \<Rightarrow> pystr"
  ce_traceback :: "error \<Rightarrow> pystr"

text \<open>One delivery handed to the caller.\<close>

record delivery =
  dv_event :: stream_event
  dv_redacted :: bool
  dv_message_id :: redis_id
  dv_stream :: string
  dv_group :: string
  dv_consumer :: string

definition processed_key :: "string \<Rightarrow> string \<Rightarrow> pystr" where
  "processed_key stream grp = lit (''stream:'' @ stream @ '':'' @ grp @ '':processed'')"

definition claim_key :: "string \<Rightarrow> string \<Rightarrow> uuid \<Rightarrow> pystr" where
  "claim_key stream grp u = lit (''stream:'' @ stream @ '':'' @ grp @ '':claim:'') @ uuid_str u"

definition failures_key :: "string \<Rightarrow> string \<Rightarrow> pystr" where
  "failures_key stream grp = lit (''stream:'' @ stream @ '':'' @ grp @ '':failures'')"

section \<open>Parsing and the schema gate\<close>

definition safe_uuid :: "pystr \<Rightarrow> uuid option" where
  "safe_uuid v = uuid_parse v"

definition field_event_id :: "fields \<Rightarrow> uuid option" where
  "field_event_id f = safe_uuid (case map_of f ''event_id'' of None \<Rightarrow> [] | Some v \<Rightarrow> v)"

definition parse_or_raise :: "'r consumer_env \<Rightarrow> string \<Rightarrow> fields \<Rightarrow> error + stream_event" where
  "parse_or_raise E stream f =
     (case map_of f ''payload'' of
        None \<Rightarrow> Inl (StreamE (StreamPayloadValidationError None stream))
      | Some raw \<Rightarrow>
          (case ce_loads E raw of
             None \<Rightarrow> Inl (StreamE (StreamPayloadValidationError (field_event_id f) stream))
           | Some payload \<Rightarrow>
               (case ce_validate E payload of
                  None \<Rightarrow> Inl (StreamE (StreamPayloadValidationError (field_event_id f) stream))
                | Some e \<Rightarrow> Inr e)))"

definition check_schema_version :: "stream_consumer \<Rightarrow> stream_event \<Rightarrow> string \<Rightarrow> error + unit" where
  "check_schema_version s e stream =
     (if se_schema_version e > max_supported s then
        Inl (StreamE (StreamSchemaVersionMismatch (se_event_id e) stream (se_schema_version e)
               (min_supported s, max_supported s) Newer))
      else if se_schema_version e < min_supported s then
        Inl (StreamE (StreamSchemaVersionMismatch (se_event_id e) stream (se_schema_version e)
               (min_supported s, max_supported s) Older))
      else Inr ())"

definition event_from_registry ::
  "'r consumer_env \<Rightarrow> string \<Rightarrow> uuid \<Rightarrow> json \<Rightarrow> pystr \<Rightarrow> error + stream_event" where
  "event_from_registry E stream u payload payload_hash =
     (if canonical_payload_hash (ce_sha E) (ce_dumps_sorted E) payload \<noteq> payload_hash then
        Inl (StreamE (StreamRedactionIntegrityError u stream))
      else case ce_validate E payload of
        None \<Rightarrow> Inl (StreamE (StreamPayloadValidationError (Some u) stream))
      | Some e \<Rightarrow>
          if se_event_id e \<noteq> u then Inl (StreamE (StreamPayloadValidationError (Some u) stream))
          else Inr e)"

section \<open>Failure paths\<close>

definition route_request ::
  "'r consumer_env \<Rightarrow> stream_consumer \<Rightarrow> string \<Rightarrow> string \<Rightarrow> string \<Rightarrow> redis_id \<Rightarrow> uuid \<Rightarrow> fields \<Rightarrow>
   int \<Rightarrow> pystr \<Rightarrow> route_args" where
  "route_request E s stream grp cname mid u f failure_count last_error =
     \<lparr>ra_stream = stream, ra_group = grp, ra_consumer_name = cname, ra_message_id = mid,
      ra_event_id = u, ra_failure_count = failure_count, ra_last_error = last_error,
      ra_payload_excerpt = take 4096 (ce_dumps E (jobj (map (\<lambda>(k, v). (k, JStr v)) f))),
      ra_owner_id = owner_id s\<rparr>"

definition route ::
  "'r consumer_env \<Rightarrow> stream_consumer \<Rightarrow> ctx \<Rightarrow> (nat \<Rightarrow> 'r world \<Rightarrow> 'r world) \<Rightarrow> (nat \<Rightarrow> db \<Rightarrow> db) \<Rightarrow>
   string \<Rightarrow> string \<Rightarrow> string \<Rightarrow> redis_id \<Rightarrow> uuid \<Rightarrow> fields \<Rightarrow> int \<Rightarrow> pystr \<Rightarrow> (error, 'r world, unit) op" where
  "route E s c ifr env stream grp cname mid u f failure_count last_error =
     bnd (route_to_deadletter (ce_R E) (ce_fuel E) (\<lambda>t. ce_loads E t \<noteq> None) (\<lambda>t. ce_dumps E (JStr t)) c ifr env
            (route_request E s stream grp cname mid u f failure_count last_error)) (\<lambda>result.
       case result of
         RoutingComplete _ \<Rightarrow> ignoring (kv_xack (ce_K E) stream grp mid)
       | RoutingReconciledByAdoption _ \<Rightarrow> ignoring (kv_xack (ce_K E) stream grp mid)
       | RoutingAborted \<Rightarrow> ret ())"

definition handle_permanent_failure ::
  "'r consumer_env \<Rightarrow> stream_consumer \<Rightarrow> ctx \<Rightarrow> (nat \<Rightarrow> 'r world \<Rightarrow> 'r world) \<Rightarrow> (nat \<Rightarrow> db \<Rightarrow> db) \<Rightarrow>
   string \<Rightarrow> string \<Rightarrow> string \<Rightarrow> redis_id \<Rightarrow> uuid option \<Rightarrow> fields \<Rightarrow> error \<Rightarrow> (error, 'r world, unit) op" where
  "handle_permanent_failure E s c ifr env stream grp cname mid u f err =
     route E s c ifr env stream grp cname mid (case u of None \<Rightarrow> 0 | Some x \<Rightarrow> x) f
       (max_attempts_before_deadletter s + 1) (take 4000 (ce_error_text E err))"

definition handle_caller_exception ::
  "'r consumer_env \<Rightarrow> stream_consumer \<Rightarrow> ctx \<Rightarrow> (nat \<Rightarrow> 'r world \<Rightarrow> 'r world) \<Rightarrow> (nat \<Rightarrow> db \<Rightarrow> db) \<Rightarrow>
   delivery \<Rightarrow> fields \<Rightarrow> pystr \<Rightarrow> (error, 'r world, unit) op" where
  "handle_caller_exception E s c ifr env dv f last_error =
     thn (ignoring (kv_del (ce_K E) (claim_key (dv_stream dv) (dv_group dv) (se_event_id (dv_event dv)))))
    (bnd (kv_hincrby (ce_K E) (failures_key (dv_stream dv) (dv_group dv)) (rid_str (dv_message_id dv)) 1) (\<lambda>failures.
       if failures > max_attempts_before_deadletter s then
         route E s c ifr env (dv_stream dv) (dv_group dv) (dv_consumer dv) (dv_message_id dv)
           (se_event_id (dv_event dv)) f failures last_error
       else ret ()))"

section \<open>The gates\<close>

text \<open>The completed-dedup gate: a processed event is acknowledged and skipped.\<close>

definition skip_if_processed ::
  "'r consumer_env \<Rightarrow> string \<Rightarrow> string \<Rightarrow> redis_id \<Rightarrow> uuid \<Rightarrow> (error, 'r world, bool) op" where
  "skip_if_processed E stream grp mid u =
     bnd (kv_sismember (ce_K E) (processed_key stream grp) (uuid_str u)) (\<lambda>seen.
       if seen then thn (kv_xack (ce_K E) stream grp mid) (ret True) else ret False)"

definition claim_payload :: "'r consumer_env \<Rightarrow> ctx \<Rightarrow> string \<Rightarrow> redis_id \<Rightarrow> pystr" where
  "claim_payload E c cname mid =
     ce_dumps E (jobj [(''owner'', jlit cname), (''message_id'', JStr (rid_str mid)),
                       (''claimed_at'', JStr (ce_iso E (ctx_now c)))])"

text \<open>\<open>json.loads(existing).get("owner")\<close>, with \<open>None\<close> for malformed text.\<close>

definition claim_owner :: "'r consumer_env \<Rightarrow> pystr \<Rightarrow> error + json option" where
  "claim_owner E t =
     (case ce_loads E t of
        None \<Rightarrow> Inr None
      | Some (JObj kvs) \<Rightarrow> Inr (map_of kvs (lit ''owner''))
      | Some _ \<Rightarrow> Inl (PyE AttributeError))"

text \<open>The in-flight claim: \<open>True\<close> when this consumer may go on.\<close>

definition take_claim ::
  "'r consumer_env \<Rightarrow> ctx \<Rightarrow> string \<Rightarrow> string \<Rightarrow> string \<Rightarrow> redis_id \<Rightarrow> uuid \<Rightarrow> (error, 'r world, bool) op" where
  "take_claim E c stream grp cname mid u =
     bnd (kv_set_nx (ce_K E) (claim_key stream grp u) (claim_payload E c cname mid) CLAIM_LEASE_SECONDS) (\<lambda>claimed.
       if claimed then ret True
       else bnd (kv_get (ce_K E) (claim_key stream grp u)) (\<lambda>existing.
         case existing of
           None \<Rightarrow> ret False
         | Some t \<Rightarrow>
             if t = [] then ret False
             else bnd (lift (claim_owner E t)) (\<lambda>owner.
               if owner = Some (jlit cname) then ret True
               else bnd (skip_if_processed E stream grp mid u) (\<lambda>_. ret False))))"

text \<open>
  Step 4: under the event's advisory lock the registry is read again. Its entry, or else the
  one found earlier, replaces the event. A failure releases the claim before it is raised.
\<close>

definition final_event ::
  "'r consumer_env \<Rightarrow> string \<Rightarrow> stream_event \<Rightarrow> stream_event option \<Rightarrow> db \<Rightarrow> error + stream_event \<times> bool" where
  "final_event E stream e candidate d =
     (case fetch_registry_entry (se_event_id e) d of
        Inl x \<Rightarrow> Inl x
      | Inr (Some x) \<Rightarrow>
          (case event_from_registry E stream (se_event_id e) (rg_redacted_payload x) (rg_redacted_payload_hash x) of
             Inl y \<Rightarrow> Inl y
           | Inr e' \<Rightarrow> Inr (e', True))
      | Inr None \<Rightarrow>
          (case candidate of
             Some e' \<Rightarrow> Inr (e', True)
           | None \<Rightarrow> Inr (e, False)))"

definition releases_claim :: "error \<Rightarrow> bool" where
  "releases_claim x = (case x of
     ServiceE _ \<Rightarrow> True
   | StreamE (StreamPayloadValidationError _ _) \<Rightarrow> True
   | StreamE (StreamRedactionIntegrityError _ _) \<Rightarrow> True
   | _ \<Rightarrow> False)"

definition lock_and_check ::
  "'r consumer_env \<Rightarrow> string \<Rightarrow> string \<Rightarrow> stream_event \<Rightarrow> stream_event option \<Rightarrow>
   (error, 'r world, stream_event \<times> bool) op" where
  "lock_and_check E stream grp e candidate = (\<lambda>w.
     case final_event E stream e candidate (wdb w) of
       Inr r \<Rightarrow> (Inr r, w)
     | Inl x \<Rightarrow>
         if releases_claim x then
           thn (kv_del (ce_K E) (claim_key stream grp (se_event_id e))) (raise x) w
         else (Inl x, w))"

definition redacted_candidate ::
  "'r consumer_env \<Rightarrow> string \<Rightarrow> uuid \<Rightarrow> registry_entry option \<Rightarrow> error + stream_event option" where
  "redacted_candidate E stream u early =
     (case early of
        None \<Rightarrow> Inr None
      | Some x \<Rightarrow>
          (case event_from_registry E stream u (rg_redacted_payload x) (rg_redacted_payload_hash x) of
             Inl y \<Rightarrow> Inl y
           | Inr e \<Rightarrow> Inr (Some e)))"

text \<open>Steps 1 to 4 for a parsed event of a supported version; \<open>None\<close> when it is not yielded.\<close>

definition event_gates ::
  "'r consumer_env \<Rightarrow> ctx \<Rightarrow> (nat \<Rightarrow> 'r world \<Rightarrow> 'r world) \<Rightarrow> string \<Rightarrow> string \<Rightarrow> string \<Rightarrow> redis_id \<Rightarrow>
   stream_event \<Rightarrow> (error, 'r world, delivery option) op" where
  "event_gates E c ifr stream grp cname mid e =
     bnd (fetch_cached_registry_entry (ce_K E) (ce_dumps_sorted E) (ce_loads E) (ce_pystr_of E) (se_event_id e)) (\<lambda>early.
     bnd (lift (redacted_candidate E stream (se_event_id e) early)) (\<lambda>candidate.
     thn (modify (ifr 11))
    (bnd (skip_if_processed E stream grp mid (se_event_id e)) (\<lambda>skip.
       if skip then ret None
       else
         thn (modify (ifr 12))
        (bnd (take_claim E c stream grp cname mid (se_event_id e)) (\<lambda>mine.
           if \<not> mine then ret None
           else
             thn (modify (ifr 13))
            (bnd (lock_and_check E stream grp e candidate) (\<lambda>(e', red).
               ret (Some \<lparr>dv_event = e', dv_redacted = red, dv_message_id = mid, dv_stream = stream,
                          dv_group = grp, dv_consumer = cname\<rparr>))))))))) "

definition process_gates ::
  "'r consumer_env \<Rightarrow> stream_consumer \<Rightarrow> ctx \<Rightarrow> (nat \<Rightarrow> 'r world \<Rightarrow> 'r world) \<Rightarrow> (nat \<Rightarrow> db \<Rightarrow> db) \<Rightarrow>
   string \<Rightarrow> string \<Rightarrow> string \<Rightarrow> redis_id \<Rightarrow> fields \<Rightarrow> (error, 'r world, delivery option) op" where
  "process_gates E s c ifr env stream grp cname mid f =
     (case parse_or_raise E stream f of
        Inl (StreamE (StreamPayloadValidationError u st)) \<Rightarrow>
          thn (handle_permanent_failure E s c ifr env stream grp cname mid u f
                 (StreamE (StreamPayloadValidationError u st))) (ret None)
      | Inl x \<Rightarrow> raise x
      | Inr e \<Rightarrow>
          (case check_schema_version s e stream of
             Inl x \<Rightarrow>
               if deadletter_on_schema_mismatch s then
                 thn (handle_permanent_failure E s c ifr env stream grp cname mid
                        (Some (se_event_id e)) f x) (ret None)
               else raise x
           | Inr _ \<Rightarrow> event_gates E c ifr stream grp cname mid e))"

section \<open>Acknowledgement\<close>

text \<open>The Lua script: four commands, executed by the server as one step.\<close>

definition ack_script :: "'r kv_api \<Rightarrow> delivery \<Rightarrow> 'r \<Rightarrow> 'r" where
  "ack_script K dv r =
     (let st = dv_stream dv; g = dv_group dv; u = se_event_id (dv_event dv);
          r1 = sv_sadd K (processed_key st g) (uuid_str u) r;
          r2 = sv_expire K (processed_key st g) PROCESSED_TTL_SECONDS r1;
          r3 = sv_del K (claim_key st g u) r2
      in sv_xack K st g (dv_message_id dv) r3)"

definition ack_audit :: "ctx \<Rightarrow> delivery \<Rightarrow> (error, db, unit) op" where
  "ack_audit c dv = audit c
     \<lparr>ar_operation = (if dv_redacted dv then ''stream.consumed_redacted'' else ''stream.consume_ack''),
      ar_target_schema = ''streams'', ar_target_table = ''consumer'',
      ar_target_pk = jobj [(''event_id'', JStr (uuid_str (se_event_id (dv_event dv))))],
      ar_before = None, ar_after = None,
      ar_metadata = jobj
        [(''event_id'', JStr (uuid_str (se_event_id (dv_event dv)))),
         (''stream_name'', jlit (dv_stream dv)), (''group_name'', jlit (dv_group dv)),
         (''consumer_name'', jlit (dv_consumer dv)),
         (''redis_message_id'', JStr (rid_str (dv_message_id dv))),
         (''redacted'', JBool (dv_redacted dv))],
      ar_ingestion_run_id = None\<rparr>"

definition ack :: "'r consumer_env \<Rightarrow> ctx \<Rightarrow> delivery \<Rightarrow> (error, 'r world, unit) op" where
  "ack E c dv =
     thn (in_db (ack_audit c dv))
    (call (ce_K E) (\<lambda>r. ((), ack_script (ce_K E) dv r)))"

text \<open>
  What the caller does with a delivery: acknowledge it, go on without, or throw into the
  generator. An error of the acknowledgement surfaces in the caller's frame.
\<close>

datatype reaction = CallsAck | Drops | Throws error

datatype outcome = NotYielded | Acked delivery | Unacked delivery

definition process_message ::
  "'r consumer_env \<Rightarrow> stream_consumer \<Rightarrow> ctx \<Rightarrow> (nat \<Rightarrow> 'r world \<Rightarrow> 'r world) \<Rightarrow> (nat \<Rightarrow> db \<Rightarrow> db) \<Rightarrow>
   (delivery \<Rightarrow> reaction) \<Rightarrow> string \<Rightarrow> string \<Rightarrow> string \<Rightarrow> redis_id \<Rightarrow> fields \<Rightarrow> (error, 'r world, outcome) op" where
  "process_message E s c ifr env react stream grp cname mid f =
     bnd (process_gates E s c ifr env stream grp cname mid f) (\<lambda>d.
       case d of
         None \<Rightarrow> ret NotYielded
       | Some dv \<Rightarrow>
           (case react dv of
              CallsAck \<Rightarrow> thn (ack E c dv) (ret (Acked dv))
            | Drops \<Rightarrow> ret (Unacked dv)
            | Throws x \<Rightarrow>
                thn (handle_caller_exception E s c ifr env dv f (take 4000 (ce_traceback E x)))
                (raise x)))"

text \<open>
  One round of \<open>consume\<close>: the entries \<open>XAUTOCLAIM\<close> returns from the cursor on (none when it
  fails), then those of \<open>XREADGROUP\<close>, each through \<open>_process_message\<close>. The two commands are
  the parameters \<open>claim\<close> and \<open>reads\<close>. The value is what became of the messages and the next cursor.
\<close>

definition consume_round ::
  "'r consumer_env \<Rightarrow> stream_consumer \<Rightarrow> ctx \<Rightarrow> (nat \<Rightarrow> 'r world \<Rightarrow> 'r world) \<Rightarrow> (nat \<Rightarrow> db \<Rightarrow> db) \<Rightarrow>
   (delivery \<Rightarrow> reaction) \<Rightarrow>
   (redis_id \<Rightarrow> 'r \<Rightarrow> (service_error + redis_id \<times> (redis_id \<times> fields) list) \<times> 'r) \<Rightarrow>
   ('r \<Rightarrow> (service_error + (redis_id \<times> fields) list) \<times> 'r) \<Rightarrow>
   string \<Rightarrow> string \<Rightarrow> string \<Rightarrow> redis_id \<Rightarrow> (error, 'r world, outcome list \<times> redis_id) op" where
  "consume_round E s c ifr env react claim reads stream grp cname cursor =
     bnd (\<lambda>w. case claim cursor (wredis w) of
            (Inl _, r) \<Rightarrow> (Inr (cursor, []), w\<lparr>wredis := r\<rparr>)
          | (Inr x, r) \<Rightarrow> (Inr x, w\<lparr>wredis := r\<rparr>)) (\<lambda>(cursor', claimed).
     bnd (collect (\<lambda>(mid, f). process_message E s c ifr env react stream grp cname mid f) claimed) (\<lambda>a.
     bnd (\<lambda>w. case reads (wredis w) of
            (Inl x, r) \<Rightarrow> (Inl (ServiceE x), w\<lparr>wredis := r\<rparr>)
          | (Inr es, r) \<Rightarrow> (Inr es, w\<lparr>wredis := r\<rparr>)) (\<lambda>fresh.
     bnd (collect (\<lambda>(mid, f). process_message E s c ifr env react stream grp cname mid f) fresh) (\<lambda>b.
     ret (a @ b, cursor')))))"

text \<open>The first \<open>n\<close> rounds of the endless loop.\<close>

fun consume ::
  "'r consumer_env \<Rightarrow> stream_consumer \<Rightarrow> ctx \<Rightarrow> (nat \<Rightarrow> 'r world \<Rightarrow> 'r world) \<Rightarrow> (nat \<Rightarrow> db \<Rightarrow> db) \<Rightarrow>
   (delivery \<Rightarrow> reaction) \<Rightarrow>
   (redis_id \<Rightarrow> 'r \<Rightarrow> (service_error + redis_id \<times> (redis_id \<times> fields) list) \<times> 'r) \<Rightarrow>
   ('r \<Rightarrow> (service_error + (redis_id \<times> fields) list) \<times> 'r) \<Rightarrow>
   string \<Rightarrow> string \<Rightarrow> string \<Rightarrow> nat \<Rightarrow> redis_id \<Rightarrow> (error, 'r world, outcome list) op" where
  "consume E s c ifr env react claim reads stream grp cname 0 cursor = ret []"
| "consume E s c ifr env react claim reads stream grp cname (Suc n) cursor =
     bnd (consume_round E s c ifr env react claim reads stream grp cname cursor) (\<lambda>(os, cursor').
     bnd (consume E s c ifr env react claim reads stream grp cname n cursor') (\<lambda>rest.
     ret (os @ rest)))"

text \<open>
  \<open>ensure_group\<close>: a \<open>ResponseError\<close> whose text names \<open>BUSYGROUP\<close> means that the group exists.
  \<open>Inl (Some t)\<close> is a \<open>ResponseError\<close> with text \<open>t\<close>, \<open>Inl None\<close> another failure of the call.
\<close>

definition ensure_group ::
  "('r \<Rightarrow> (pystr option + unit) \<times> 'r) \<Rightarrow> (error, 'r world, unit) op" where
  "ensure_group xgroup_create = (\<lambda>w. case xgroup_create (wredis w) of
       (Inr _, r) \<Rightarrow> (Inr (), w\<lparr>wredis := r\<rparr>)
     | (Inl (Some t), r) \<Rightarrow>
         (if sublist (lit ''BUSYGROUP'') t then Inr () else Inl (ServiceE RedisError), w\<lparr>wredis := r\<rparr>)
     | (Inl None, r) \<Rightarrow> (Inl (ServiceE RedisError), w\<lparr>wredis := r\<rparr>))"

end
