(* ===== verification/Deadletter_Protocol.thy ===== *)
theory Deadletter_Protocol
  imports Deadletter
begin

text \<open>
  Correctness of the dead-letter routing protocol, as a rely-guarantee argument: the
  invariant \<open>dl_inv\<close> of the three dead-letter tables, the order \<open>dl_le\<close> in which they
  evolve (a routed row keeps its Redis id for ever, an index row is never replaced), and
  the proof that every step of every worker keeps both, whatever the other workers do in
  between as long as they keep them too.
\<close>

section \<open>Invariant and order\<close>

definition dl_inv :: "db \<Rightarrow> bool" where
  "dl_inv d \<longleftrightarrow>
     distinct (map dl_failure_id (dl_log d)) \<and> distinct (map log_key (dl_log d)) \<and>
     (\<forall>l \<in> set (dl_log d). dl_failure_id l < dl_seq d \<and>
        (dl_redis_message_id l = None \<longleftrightarrow> dl_routed_at_redis l = None) \<and>
        (\<forall>r. dl_redis_message_id l = Some r \<longrightarrow> index_of (dl_failure_id l) d = Some r)) \<and>
     (\<forall>i \<in> set (dl_index d). ix_failure_id i < dl_seq d) \<and>
     (\<forall>i \<in> set (dl_intent d). it_failure_id i \<in> dl_failure_id ` set (dl_log d))"

definition dl_le :: "db \<Rightarrow> db \<Rightarrow> bool" where
  "dl_le d d' \<longleftrightarrow>
     (\<forall>l \<in> set (dl_log d). \<exists>l' \<in> set (dl_log d').
        dl_failure_id l' = dl_failure_id l \<and> log_key l' = log_key l \<and>
        (\<forall>r. dl_redis_message_id l = Some r \<longrightarrow> dl_redis_message_id l' = Some r)) \<and>
     (\<forall>fid r. index_of fid d = Some r \<longrightarrow> index_of fid d' = Some r)"

interpretation dl_growth: growth dl_le
proof
  fix s show "dl_le s s" by (auto simp: dl_le_def)
next
  fix s t u assume st: "dl_le s t" and tu: "dl_le t u"
  show "dl_le s u"
    unfolding dl_le_def
  proof (intro conjI ballI allI impI)
    fix l assume "l \<in> set (dl_log s)"
    with st obtain l' where "l' \<in> set (dl_log t)" "dl_failure_id l' = dl_failure_id l"
      "log_key l' = log_key l" "\<forall>r. dl_redis_message_id l = Some r \<longrightarrow> dl_redis_message_id l' = Some r"
      unfolding dl_le_def by blast
    moreover from tu \<open>l' \<in> set (dl_log t)\<close> obtain l'' where "l'' \<in> set (dl_log u)"
      "dl_failure_id l'' = dl_failure_id l'" "log_key l'' = log_key l'"
      "\<forall>r. dl_redis_message_id l' = Some r \<longrightarrow> dl_redis_message_id l'' = Some r"
      unfolding dl_le_def by blast
    ultimately show "\<exists>l'' \<in> set (dl_log u). dl_failure_id l'' = dl_failure_id l \<and>
        log_key l'' = log_key l \<and>
        (\<forall>r. dl_redis_message_id l = Some r \<longrightarrow> dl_redis_message_id l'' = Some r)"
      by (intro bexI [of _ l'']) auto
  next
    fix fid r assume "index_of fid s = Some r"
    with st tu show "index_of fid u = Some r" by (simp add: dl_le_def)
  qed
qed

text \<open>What the protocol establishes for a message: its log row carries the Redis id.\<close>

definition routed :: "db \<Rightarrow> route_args \<Rightarrow> redis_id \<Rightarrow> bool" where
  "routed d a rid \<longleftrightarrow>
     (\<exists>l \<in> set (dl_log d). log_key l = args_key a \<and> dl_redis_message_id l = Some rid \<and>
        index_of (dl_failure_id l) d = Some rid)"

definition logged :: "db \<Rightarrow> route_args \<Rightarrow> int \<Rightarrow> bool" where
  "logged d a fid \<longleftrightarrow> (\<exists>l \<in> set (dl_log d). dl_failure_id l = fid \<and> log_key l = args_key a)"

lemma routed_mono: "routed d a rid \<Longrightarrow> dl_le d d' \<Longrightarrow> routed d' a rid"
  unfolding routed_def dl_le_def by metis

lemma logged_mono: "logged d a fid \<Longrightarrow> dl_le d d' \<Longrightarrow> logged d' a fid"
  unfolding logged_def dl_le_def by metis

lemma index_mono: "index_of fid d = Some r \<Longrightarrow> dl_le d d' \<Longrightarrow> index_of fid d' = Some r"
  by (simp add: dl_le_def)

lemma logged_row:
  assumes "dl_inv d" "logged d a fid"
  obtains l where "l \<in> set (dl_log d)" "dl_failure_id l = fid" "log_key l = args_key a"
    "log_of fid d = Some l"
proof -
  from assms(2) obtain l where l: "l \<in> set (dl_log d)" "dl_failure_id l = fid" "log_key l = args_key a"
    by (auto simp: logged_def)
  moreover have "log_of fid d = Some l"
    using assms(1) l sql_find_unique [of dl_failure_id "dl_log d" l]
    by (simp add: log_of_def dl_inv_def)
  ultimately show thesis by (rule that)
qed

lemma routedI:
  assumes "dl_inv d" "l \<in> set (dl_log d)" "log_key l = args_key a" "dl_redis_message_id l = Some rid"
  shows "routed d a rid"
  using assms unfolding routed_def dl_inv_def by blast

lemma intent_logged:
  assumes "dl_inv d" "i \<in> set (dl_intent d)"
  shows "it_failure_id i \<in> dl_failure_id ` set (dl_log d)" "it_failure_id i < dl_seq d"
  using assms unfolding dl_inv_def by fastforce+

section \<open>Single statements\<close>

lemma index_of_other_fields [simp]:
  "index_of fid (d\<lparr>dl_log := x\<rparr>) = index_of fid d"
  "index_of fid (d\<lparr>dl_intent := y\<rparr>) = index_of fid d"
  "index_of fid (d\<lparr>dl_seq := z\<rparr>) = index_of fid d"
  "index_of fid (d\<lparr>audit_events := u\<rparr>) = index_of fid d"
  by (simp_all add: index_of_def)

lemma dl_inv_audit [simp]: "dl_inv (d\<lparr>audit_events := u\<rparr>) \<longleftrightarrow> dl_inv d"
  by (simp add: dl_inv_def)

lemma dl_le_audit [simp]:
  "dl_le d (e\<lparr>audit_events := u\<rparr>) \<longleftrightarrow> dl_le d e"
  by (simp add: dl_le_def)

lemma dl_inv_intent:
  "dl_inv d \<Longrightarrow> (\<And>i. i \<in> set is \<Longrightarrow> it_failure_id i \<in> dl_failure_id ` set (dl_log d)) \<Longrightarrow>
   dl_inv (d\<lparr>dl_intent := is\<rparr>)"
  by (simp add: dl_inv_def)

lemma dl_le_intent [simp]: "dl_le d (e\<lparr>dl_intent := is\<rparr>) \<longleftrightarrow> dl_le d e"
  by (simp add: dl_le_def)

lemma index_insert_dn:
  "index_of fid (d\<lparr>dl_index := sql_insert_dn ix_failure_id \<lparr>ix_failure_id = f, ix_redis_message_id = r\<rparr> (dl_index d)\<rparr>) =
     (case index_of fid d of Some x \<Rightarrow> Some x | None \<Rightarrow> if f = fid then Some r else None)"
  by (simp add: index_of_def sql_insert_dn_find split: option.splits)

text \<open>Adding an index row keeps both, provided the failure has a log row.\<close>

lemma index_insert_keeps:
  fixes r :: redis_id
  assumes inv: "dl_inv d" and logged: "logged d a fid"
  defines "d' \<equiv> d\<lparr>dl_index := sql_insert_dn ix_failure_id
      \<lparr>ix_failure_id = fid, ix_redis_message_id = r\<rparr> (dl_index d)\<rparr>"
  shows "dl_inv d' \<and> dl_le d d'"
proof
  have "fid < dl_seq d" using inv logged by (auto simp: dl_inv_def logged_def)
  moreover have "set (sql_insert_dn ix_failure_id \<lparr>ix_failure_id = fid, ix_redis_message_id = r\<rparr> (dl_index d))
      \<subseteq> insert \<lparr>ix_failure_id = fid, ix_redis_message_id = r\<rparr> (set (dl_index d))"
    by (auto simp: sql_insert_dn_def)
  ultimately show "dl_inv d'"
    using inv unfolding dl_inv_def d'_def by (auto simp: index_insert_dn)
  show "dl_le d d'"
    by (auto simp: dl_le_def d'_def index_insert_dn)
qed

definition routed_row :: "ctx \<Rightarrow> int \<Rightarrow> redis_id \<Rightarrow> deadletter_log \<Rightarrow> deadletter_log" where
  "routed_row c fid rid l = (if dl_failure_id l = fid \<and> dl_routed_at_redis l = None
     then l\<lparr>dl_redis_message_id := Some rid, dl_routed_at_redis := Some (ctx_now c)\<rparr> else l)"

lemma mark_routed_map: "mark_routed c fid rid ls = map (routed_row c fid rid) ls"
  by (simp add: mark_routed_def sql_update_def routed_row_def cong: map_cong)

lemma routed_row_fields [simp]:
  "dl_failure_id (routed_row c fid rid l) = dl_failure_id l"
  "log_key (routed_row c fid rid l) = log_key l"
  "dl_redis_message_id (routed_row c fid rid l) =
     (if dl_failure_id l = fid \<and> dl_routed_at_redis l = None then Some rid else dl_redis_message_id l)"
  "dl_routed_at_redis (routed_row c fid rid l) =
     (if dl_failure_id l = fid \<and> dl_routed_at_redis l = None then Some (ctx_now c)
      else dl_routed_at_redis l)"
  by (simp_all add: routed_row_def log_key_def)

lemma dl_le_map:
  assumes "\<And>l. l \<in> set (dl_log d) \<Longrightarrow> dl_failure_id (f l) = dl_failure_id l \<and>
    log_key (f l) = log_key l \<and>
    (\<forall>r. dl_redis_message_id l = Some r \<longrightarrow> dl_redis_message_id (f l) = Some r)"
  shows "dl_le d (d\<lparr>dl_log := map f (dl_log d)\<rparr>)"
  unfolding dl_le_def
proof (intro conjI ballI)
  fix l assume "l \<in> set (dl_log d)"
  with assms show "\<exists>l' \<in> set (dl_log (d\<lparr>dl_log := map f (dl_log d)\<rparr>)).
      dl_failure_id l' = dl_failure_id l \<and> log_key l' = log_key l \<and>
      (\<forall>r. dl_redis_message_id l = Some r \<longrightarrow> dl_redis_message_id l' = Some r)"
    by (intro bexI [of _ "f l"]) auto
qed simp

text \<open>The race-detecting update keeps both when it writes the indexed id.\<close>

lemma mark_routed_keeps:
  fixes c :: ctx
  assumes inv: "dl_inv d" and idx: "index_of fid d = Some rid"
  defines "d' \<equiv> d\<lparr>dl_log := mark_routed c fid rid (dl_log d)\<rparr>"
  shows "dl_inv d' \<and> dl_le d d'"
proof
  show "dl_inv d'"
    using inv idx unfolding dl_inv_def d'_def by (auto simp: mark_routed_map comp_def image_image)
  have "dl_redis_message_id l = None"
    if "l \<in> set (dl_log d)" "dl_routed_at_redis l = None" for l
    using inv that by (simp add: dl_inv_def)
  then show "dl_le d d'"
    unfolding d'_def mark_routed_map by (intro dl_le_map) auto
qed

lemma mark_routed_routed:
  assumes inv: "dl_inv d" and "logged d a fid" and idx: "index_of fid d = Some rid"
  shows "routed (d\<lparr>dl_log := mark_routed c fid rid (dl_log d)\<rparr>) a rid"
proof -
  obtain l where l: "l \<in> set (dl_log d)" "dl_failure_id l = fid" "log_key l = args_key a"
    using assms(2) by (auto simp: logged_def)
  have "dl_redis_message_id (routed_row c fid rid l) = Some rid"
    using inv idx l by (cases "dl_redis_message_id l") (auto simp: dl_inv_def)
  then show ?thesis
    using idx l unfolding routed_def by (auto simp: mark_routed_map)
qed

section \<open>Specifications of the steps\<close>

text \<open>\<open>ok d0 d\<close>: the invariant holds and the tables have evolved from \<open>d0\<close>.\<close>

definition ok :: "db \<Rightarrow> db \<Rightarrow> bool" where
  "ok d0 d \<longleftrightarrow> dl_inv d \<and> dl_le d0 d"

lemma ok_step: "ok d0 d \<Longrightarrow> dl_inv d' \<Longrightarrow> dl_le d d' \<Longrightarrow> ok d0 d'"
  by (auto simp: ok_def intro: dl_growth.le_trans)

lemma okD: "ok d0 d \<Longrightarrow> dl_inv d"
  by (simp add: ok_def)

lemma ok_refl: "dl_inv d \<Longrightarrow> ok d d"
  by (simp add: ok_def dl_growth.le_refl)

lemma ok_audit [simp]: "ok d0 (d\<lparr>audit_events := u\<rparr>) \<longleftrightarrow> ok d0 d"
  by (simp add: ok_def)

lemma logged_frame [simp]:
  "logged (d\<lparr>audit_events := u\<rparr>) a fid \<longleftrightarrow> logged d a fid"
  "logged (d\<lparr>dl_intent := y\<rparr>) a fid \<longleftrightarrow> logged d a fid"
  by (simp_all add: logged_def)

lemma routed_frame [simp]:
  "routed (d\<lparr>audit_events := u\<rparr>) a rid \<longleftrightarrow> routed d a rid"
  "routed (d\<lparr>dl_intent := y\<rparr>) a rid \<longleftrightarrow> routed d a rid"
  by (simp_all add: routed_def)

lemma spec_deadletter_audit:
  "(\<And>d u. P d \<Longrightarrow> P (d\<lparr>audit_events := u\<rparr>)) \<Longrightarrow>
   spec P (deadletter_audit c oper fid md) (\<lambda>_. P) (\<lambda>_. True)"
  by (rule specI) (auto simp: deadletter_audit_def audit_eval split: if_splits)

lemma spec_step_1:
  "spec (ok d0) (step_1_log_insert c loads_ok dumps a)
     (\<lambda>(fid, ex) d. ok d0 d \<and> logged d a fid \<and> (\<forall>rid. ex = Some rid \<longrightarrow> routed d a rid)) E"
proof (rule specI)
  fix d x d' assume ok: "ok d0 d" and run: "step_1_log_insert c loads_ok dumps a d = (Inr x, d')"
  show "(\<lambda>(fid, ex) d. ok d0 d \<and> logged d a fid \<and> (\<forall>rid. ex = Some rid \<longrightarrow> routed d a rid)) x d'"
  proof (cases "sql_find (\<lambda>l. log_key l = args_key a) (dl_log d)")
    case (Some l)
    then have l: "l \<in> set (dl_log d)" "log_key l = args_key a"
      by (auto dest: sql_find_Some_iff)
    have "dl_inv (d\<lparr>dl_seq := dl_seq d + 1\<rparr>)" "dl_le d (d\<lparr>dl_seq := dl_seq d + 1\<rparr>)"
      using okD [OF ok] by (auto simp: dl_inv_def dl_le_def)
    then have "ok d0 (d\<lparr>dl_seq := dl_seq d + 1\<rparr>)"
      using ok by (blast intro: ok_step)
    then show ?thesis
      using run l Some
      by (auto simp: step_1_log_insert_def logged_def intro!: routedI dest: okD)
  next
    case None
    then have fresh: "args_key a \<notin> log_key ` set (dl_log d)"
      by (auto simp: sql_find_None_iff)
    have seq: "dl_seq d \<notin> dl_failure_id ` set (dl_log d)" "index_of (dl_seq d) d = None"
      using okD [OF ok] by (auto simp: dl_inv_def index_of_def sql_find_None_iff)
    from run None have x: "x = (dl_seq d, None)" and
      d': "\<exists>l. d' = d\<lparr>dl_log := dl_log d @ [l], dl_seq := dl_seq d + 1\<rparr> \<and>
        dl_failure_id l = dl_seq d \<and> log_key l = args_key a \<and>
        dl_routed_at_redis l = None \<and> dl_redis_message_id l = None"
      by (auto simp: step_1_log_insert_def log_key_def args_key_def)
    then obtain l where d': "d' = d\<lparr>dl_log := dl_log d @ [l], dl_seq := dl_seq d + 1\<rparr>"
      and l: "dl_failure_id l = dl_seq d" "log_key l = args_key a"
        "dl_routed_at_redis l = None" "dl_redis_message_id l = None" by blast
    have "dl_inv d'"
      using okD [OF ok] fresh seq l unfolding d' dl_inv_def by auto
    moreover have "dl_le d d'"
      unfolding d' dl_le_def by auto
    ultimately have "ok d0 d'" using ok by (blast intro: ok_step)
    moreover have "logged d' a (dl_seq d)" using l by (auto simp: d' logged_def)
    ultimately show ?thesis by (simp add: x)
  qed
next
  fix d e d' assume "step_1_log_insert c loads_ok dumps a d = (Inl e, d')"
  then show "E d'" by (auto simp: step_1_log_insert_def split: option.splits)
qed

lemma spec_step_3:
  "spec (\<lambda>d. ok d0 d \<and> logged d a fid) (step_3_index_insert fid rid)
     (\<lambda>_ d. ok d0 d \<and> logged d a fid \<and> index_of fid d = Some rid) (\<lambda>_. True)"
proof (rule specI)
  fix d x d' assume pre: "ok d0 d \<and> logged d a fid" and run: "step_3_index_insert fid rid d = (Inr x, d')"
  let ?r = "\<lparr>ix_failure_id = fid, ix_redis_message_id = rid\<rparr>"
  let ?d = "d\<lparr>dl_index := sql_insert_dn ix_failure_id ?r (dl_index d)\<rparr>"
  from run have none: "index_of fid d = None"
    by (auto simp: step_3_index_insert_def split: if_splits)
  then have "fid \<notin> ix_failure_id ` set (dl_index d)"
    by (auto simp: index_of_def sql_find_None_iff)
  with run none have d': "d' = ?d\<lparr>dl_intent := sql_delete (\<lambda>i. it_failure_id i = fid) (dl_intent d)\<rparr>"
    by (auto simp: step_3_index_insert_def sql_insert_dn_def)
  have keeps: "dl_inv ?d \<and> dl_le d ?d"
    using pre by (intro index_insert_keeps) (auto dest: okD)
  then have "dl_inv d'"
    unfolding d' by (intro dl_inv_intent) (auto simp: dl_inv_def sql_delete_def)
  moreover have "dl_le d d'" using keeps by (simp add: d')
  moreover have "index_of fid d' = Some rid" using none by (simp add: d' index_insert_dn)
  ultimately show "ok d0 d' \<and> logged d' a fid \<and> index_of fid d' = Some rid"
    using pre by (blast intro: ok_step logged_mono)
qed simp

lemma spec_step_4_log:
  "spec (\<lambda>d. ok d0 d \<and> logged d a fid \<and> index_of fid d = Some rid)
     (step_4_update_log c a fid rid)
     (\<lambda>lost d. ok d0 d \<and> routed d a rid \<and> (\<forall>winner. lost = Some winner \<longrightarrow> winner = rid))
     (\<lambda>_. True)"
proof (rule specI)
  fix d lost d'
  assume pre: "ok d0 d \<and> logged d a fid \<and> index_of fid d = Some rid"
    and run: "step_4_update_log c a fid rid d = (Inr lost, d')"
  let ?p = "\<lambda>l. dl_failure_id l = fid \<and> dl_routed_at_redis l = None"
  show "ok d0 d' \<and> routed d' a rid \<and> (\<forall>winner. lost = Some winner \<longrightarrow> winner = rid)"
  proof (cases "sql_count ?p (dl_log d) = 0")
    case True
    obtain l where l: "l \<in> set (dl_log d)" "dl_failure_id l = fid" "log_key l = args_key a"
      "log_of fid d = Some l"
      using pre logged_row okD by blast
    with run True obtain winner where w: "dl_redis_message_id l = Some winner" "lost = Some winner" "d' = d"
      by (auto simp: step_4_update_log_def split: option.splits)
    have "winner = rid"
      using pre l w by (force simp: ok_def dl_inv_def)
    then show ?thesis
      using pre l w by (auto intro: routedI dest: okD)
  next
    case False
    let ?d = "d\<lparr>dl_log := mark_routed c fid rid (dl_log d)\<rparr>"
    from run False obtain u where d': "d' = ?d\<lparr>audit_events := u\<rparr>" and "lost = None"
      by (auto simp: step_4_update_log_def deadletter_audit_def split: if_splits)
    have "ok d0 ?d"
      using pre mark_routed_keeps by (blast intro: ok_step dest: okD)
    moreover have "routed ?d a rid"
      using pre mark_routed_routed okD by blast
    ultimately show ?thesis using d' \<open>lost = None\<close> by simp
  qed
qed simp

text \<open>World-level predicates are stated on the committed database.\<close>

lemma spec_in_db':
  assumes "spec P m Q (\<lambda>_. True)" and "\<And>w. E' w \<longleftrightarrow> E (wdb w)" and "\<And>d. P d \<Longrightarrow> E d"
  shows "spec (\<lambda>w. P (wdb w)) (in_db m) (\<lambda>x w. Q x (wdb w)) E'"
  by (rule spec_weaken [OF spec_in_db [OF assms(1)]]) (use assms(2,3) in auto)

definition done_with :: "db \<Rightarrow> route_args \<Rightarrow> routing_result \<Rightarrow> 'r world \<Rightarrow> bool" where
  "done_with d0 a res w \<longleftrightarrow> ok d0 (wdb w) \<and>
     (case res of
        RoutingComplete rid \<Rightarrow> routed (wdb w) a rid
      | RoutingReconciledByAdoption rid \<Rightarrow> routed (wdb w) a rid
      | RoutingAborted \<Rightarrow> True)"

lemma spec_step_4:
  "spec (\<lambda>w. ok d0 (wdb w) \<and> logged (wdb w) a fid \<and> index_of fid (wdb w) = Some rid)
     (step_4_update_log_and_audit R c a fid rid our_xadd)
     (done_with d0 a) (\<lambda>w. ok d0 (wdb w))"
  unfolding step_4_update_log_and_audit_def
proof (rule spec_bnd)
  show "spec (\<lambda>w. ok d0 (wdb w) \<and> logged (wdb w) a fid \<and> index_of fid (wdb w) = Some rid)
     (in_db (step_4_update_log c a fid rid))
     (\<lambda>lost w. ok d0 (wdb w) \<and> routed (wdb w) a rid \<and> (\<forall>winner. lost = Some winner \<longrightarrow> winner = rid))
     (\<lambda>w. ok d0 (wdb w))"
    by (rule spec_in_db' [OF spec_step_4_log, where E = "ok d0"]) auto
next
  fix lost
  show "spec (\<lambda>w. ok d0 (wdb w) \<and> routed (wdb w) a rid \<and> (\<forall>winner. lost = Some winner \<longrightarrow> winner = rid))
     (case lost of None \<Rightarrow> ret (RoutingComplete rid)
      | Some winner \<Rightarrow>
          if our_xadd \<and> winner \<noteq> rid then
            thn (in_db (drop_own_index fid rid))
             (thn (try_redis (xdel R (deadletter_stream (ra_stream a)) rid))
               (ret (RoutingComplete winner)))
          else ret (RoutingComplete winner))
     (done_with d0 a) (\<lambda>w. ok d0 (wdb w))"
    by (auto simp: spec_def ret_def done_with_def split: option.splits)
qed

section \<open>Acquisition and adoption\<close>

definition adopted :: "db \<Rightarrow> route_args \<Rightarrow> int \<Rightarrow> adoption_result \<Rightarrow> db \<Rightarrow> bool" where
  "adopted d0 a fid ad d \<longleftrightarrow> ok d0 d \<and> logged d a fid \<and>
     (action ad = ReconciledByUs \<longrightarrow>
        (\<exists>rid. adopted_message_id ad = Some rid \<and> routed d a rid))"

lemma spec_reconcile_orphan:
  "spec (\<lambda>d. ok d0 d \<and> logged d a fid) (reconcile_orphan c fid existing orphan)
     (adopted d0 a fid) (\<lambda>_. True)"
proof (rule specI)
  fix d ad d' assume pre: "ok d0 d \<and> logged d a fid"
    and run: "reconcile_orphan c fid existing orphan d = (Inr ad, d')"
  let ?d1 = "d\<lparr>dl_index := sql_insert_dn ix_failure_id
      \<lparr>ix_failure_id = fid, ix_redis_message_id = orphan\<rparr> (dl_index d)\<rparr>"
  have "dl_inv ?d1 \<and> dl_le d ?d1"
    using pre by (intro index_insert_keeps) (auto dest: okD)
  then have ok1: "ok d0 ?d1" "logged ?d1 a fid"
    using pre by (blast intro: ok_step logged_mono)+
  obtain rid where rid: "index_of fid ?d1 = Some rid"
    by (cases "index_of fid d") (auto simp: index_insert_dn)
  let ?d2 = "?d1\<lparr>dl_log := mark_routed c fid rid (dl_log d)\<rparr>"
  have ok2: "ok d0 ?d2" "logged ?d2 a fid" "routed ?d2 a rid"
    using ok1 rid mark_routed_keeps [of ?d1 fid rid c] mark_routed_routed [of ?d1 a fid rid c]
    by (auto intro: ok_step logged_mono dest: okD)
  let ?d3 = "?d2\<lparr>dl_intent := sql_delete (\<lambda>i. it_failure_id i = fid) (dl_intent d)\<rparr>"
  have "dl_inv ?d3"
    using okD [OF ok2(1)] by (auto simp: dl_inv_def sql_delete_def)
  then have ok3: "ok d0 ?d3" using ok2(1) by (auto intro: ok_step simp: dl_growth.le_refl)
  from run rid obtain u where "d' = ?d3\<lparr>audit_events := u\<rparr>"
    and "ad = \<lparr>action = ReconciledByUs, lower_bound = None, adopted_message_id = Some rid\<rparr>"
    by (auto simp: reconcile_orphan_def deadletter_audit_def split: if_splits)
  with ok2 ok3 show "adopted d0 a fid ad d'" by (simp add: adopted_def)
qed simp

lemma spec_replace_and_own:
  "spec (\<lambda>d. ok d0 d \<and> logged d a fid) (replace_and_own c fid me lb existing)
     (adopted d0 a fid) (\<lambda>_. True)"
proof (rule specI)
  fix d ad d' assume pre: "ok d0 d \<and> logged d a fid"
    and run: "replace_and_own c fid me lb existing d = (Inr ad, d')"
  from run obtain u f where d': "d' = d\<lparr>dl_intent := sql_update (\<lambda>i. it_failure_id i = fid) f (dl_intent d),
      audit_events := u\<rparr>" and f: "\<And>i. it_failure_id (f i) = it_failure_id i" and "action ad = Own"
    by (fastforce simp: replace_and_own_def deadletter_audit_def split: if_splits)
  have "dl_inv (d\<lparr>dl_intent := sql_update (\<lambda>i. it_failure_id i = fid) f (dl_intent d)\<rparr>)"
    using pre f by (intro dl_inv_intent) (auto simp: sql_update_def dl_inv_def dest: okD)
  then have "ok d0 d'" using pre by (auto simp: d' intro: ok_step simp: dl_growth.le_refl)
  with pre show "adopted d0 a fid ad d'" using \<open>action ad = Own\<close> by (simp add: adopted_def d')
qed simp

lemma spec_adopt_existing:
  "spec (\<lambda>d. ok d0 d \<and> logged d a fid)
     (adopt_existing R r fuel c fid me lb stream existing) (adopted d0 a fid) (\<lambda>_. True)"
proof -
  have heartbeat: "ok d0 (d\<lparr>dl_intent := sql_update (\<lambda>i. it_failure_id i = fid)
      (\<lambda>i. i\<lparr>it_owner_heartbeat_at := ctx_now c\<rparr>) (dl_intent d)\<rparr>)" if "ok d0 d" for d
  proof -
    have "dl_inv (d\<lparr>dl_intent := sql_update (\<lambda>i. it_failure_id i = fid)
      (\<lambda>i. i\<lparr>it_owner_heartbeat_at := ctx_now c\<rparr>) (dl_intent d)\<rparr>)"
      using okD [OF that] by (intro dl_inv_intent) (auto simp: sql_update_def dl_inv_def)
    with that show ?thesis by (auto intro: ok_step simp: dl_growth.le_refl)
  qed
  show ?thesis
    unfolding adopt_existing_def
  proof (rule spec_if; (rule spec_if)?)
    show "spec (\<lambda>d. ok d0 d \<and> logged d a fid)
      (thn (modify (\<lambda>d. d\<lparr>dl_intent := sql_update (\<lambda>i. it_failure_id i = fid)
           (\<lambda>i. i\<lparr>it_owner_heartbeat_at := ctx_now c\<rparr>) (dl_intent d)\<rparr>))
        (ret \<lparr>action = Own, lower_bound = Some (it_redis_lower_bound_id existing),
              adopted_message_id = None\<rparr>))
      (adopted d0 a fid) (\<lambda>_. True)"
      by (rule spec_thn [where P' = "\<lambda>d. ok d0 d \<and> logged d a fid"])
        (auto intro!: spec_modify spec_ret heartbeat simp: adopted_def)
    show "spec (\<lambda>d. ok d0 d \<and> logged d a fid)
      (ret \<lparr>action = Abort, lower_bound = None, adopted_message_id = None\<rparr>)
      (adopted d0 a fid) (\<lambda>_. True)"
      by (rule spec_ret) (simp add: adopted_def)
    show "spec (\<lambda>d. ok d0 d \<and> logged d a fid)
      (bnd (lift (find_orphan_in_deadletter_stream R r fuel stream
              (it_redis_lower_bound_id existing) fid 10000))
        (case_option (replace_and_own c fid me lb existing) (reconcile_orphan c fid existing)))
      (adopted d0 a fid) (\<lambda>_. True)"
      by (rule spec_bnd [OF spec_lift])
        (auto intro!: spec_case_option spec_replace_and_own spec_reconcile_orphan)
  qed
qed

text \<open>What another worker may commit between two statements.\<close>

definition dl_rely :: "(db \<Rightarrow> db) \<Rightarrow> bool" where
  "dl_rely f \<longleftrightarrow> (\<forall>d. dl_inv d \<longrightarrow> dl_inv (f d) \<and> dl_le d (f d))"

lemma rely_ok: "dl_rely f \<Longrightarrow> ok d0 d \<Longrightarrow> ok d0 (f d)"
  by (meson dl_rely_def okD ok_step)

lemma rely_logged: "dl_rely f \<Longrightarrow> ok d0 d \<Longrightarrow> logged d a fid \<Longrightarrow> logged (f d) a fid"
  by (meson dl_rely_def logged_mono okD)

lemma spec_acquire:
  assumes "\<And>n. dl_rely (env n)"
  shows "spec (\<lambda>d. ok d0 d \<and> logged d a fid)
     (acquire_or_adopt_intent R r fuel c env fid me lb stream attempt)
     (adopted d0 a fid) (\<lambda>_. True)"
proof (induction "4 - attempt" arbitrary: attempt rule: less_induct)
  case less
  show ?case
  proof (rule specI)
    fix d ad d' assume pre: "ok d0 d \<and> logged d a fid"
      and run: "acquire_or_adopt_intent R r fuel c env fid me lb stream attempt d = (Inr ad, d')"
    show "adopted d0 a fid ad d'"
    proof (cases "intent_of fid d")
      case None
      have "fid \<in> dl_failure_id ` set (dl_log d)" using pre by (auto simp: logged_def)
      moreover from run None obtain i where d': "d' = d\<lparr>dl_intent := dl_intent d @ [i]\<rparr>"
        and "it_failure_id i = fid" "action ad = Own"
        by (subst (asm) acquire_or_adopt_intent.simps) auto
      moreover have "\<And>j. j \<in> set (dl_intent d) \<Longrightarrow> it_failure_id j \<in> dl_failure_id ` set (dl_log d)"
        using pre by (auto simp: ok_def dl_inv_def)
      ultimately have "dl_inv d'"
        using pre unfolding d' by (intro dl_inv_intent) (auto dest: okD)
      then have "ok d0 d'" using pre by (auto simp: d' intro: ok_step simp: dl_growth.le_refl)
      then show ?thesis using pre \<open>action ad = Own\<close> by (simp add: adopted_def d')
    next
      case (Some i)
      let ?d = "env attempt d"
      have pre': "ok d0 ?d \<and> logged ?d a fid"
        using pre assms by (blast intro: rely_ok rely_logged)
      show ?thesis
      proof (cases "intent_of fid ?d")
        case None
        with run Some have "\<not> 3 < attempt + 1" and
          "acquire_or_adopt_intent R r fuel c env fid me lb stream (attempt + 1) ?d = (Inr ad, d')"
          by (subst (asm) acquire_or_adopt_intent.simps, auto simp: Let_def split: if_splits)+
        moreover from \<open>\<not> 3 < attempt + 1\<close> have "4 - (attempt + 1) < 4 - attempt" by simp
        ultimately show ?thesis
          using pre' by (blast dest: spec_InrD [OF less])
      next
        case (Some existing)
        with run \<open>intent_of fid d = Some i\<close> have
          "adopt_existing R r fuel c fid me lb stream existing ?d = (Inr ad, d')"
          by (subst (asm) acquire_or_adopt_intent.simps) (auto simp: Let_def)
        with pre' show ?thesis by (rule spec_InrD [OF spec_adopt_existing])
      qed
    qed
  qed simp
qed

section \<open>The whole protocol\<close>

definition world_rely :: "('r world \<Rightarrow> 'r world) \<Rightarrow> bool" where
  "world_rely f \<longleftrightarrow> (\<forall>w. dl_inv (wdb w) \<longrightarrow> dl_inv (wdb (f w)) \<and> dl_le (wdb w) (wdb (f w)))"

lemma spec_interfere:
  assumes "world_rely f"
  shows "spec (\<lambda>w. ok d0 (wdb w) \<and> logged (wdb w) a fid) (modify f)
           (\<lambda>_ w. ok d0 (wdb w) \<and> logged (wdb w) a fid) E"
    and "spec (\<lambda>w. ok d0 (wdb w) \<and> logged (wdb w) a fid \<and> index_of fid (wdb w) = Some rid) (modify f)
           (\<lambda>_ w. ok d0 (wdb w) \<and> logged (wdb w) a fid \<and> index_of fid (wdb w) = Some rid) E"
    and "spec (\<lambda>w. adopted d0 a fid ad (wdb w)) (modify f) (\<lambda>_ w. adopted d0 a fid ad (wdb w)) E"
  using assms unfolding world_rely_def adopted_def
  by (auto intro!: spec_modify intro: ok_step logged_mono index_mono routed_mono dest: okD)

lemma spec_route_lost:
  "spec (\<lambda>w. ok d0 (wdb w) \<and> logged (wdb w) a fid) (route_lost R c a fid rid e)
     (done_with d0 a) (\<lambda>w. ok d0 (wdb w))"
  unfolding route_lost_def
proof (rule spec_thn)
  show "spec (\<lambda>w. ok d0 (wdb w) \<and> logged (wdb w) a fid)
      (try_redis (xdel R (deadletter_stream (ra_stream a)) rid))
      (\<lambda>_ w. ok d0 (wdb w) \<and> logged (wdb w) a fid) (\<lambda>w. ok d0 (wdb w))"
    by (rule spec_try_redis)
  show "spec (\<lambda>w. ok d0 (wdb w) \<and> logged (wdb w) a fid)
      (bnd (gets (\<lambda>w. index_of fid (wdb w)))
        (case_option (raise e) (\<lambda>wr. step_4_update_log_and_audit R c a fid wr False)))
      (done_with d0 a) (\<lambda>w. ok d0 (wdb w))"
  proof (rule spec_bnd)
    show "spec (\<lambda>w. ok d0 (wdb w) \<and> logged (wdb w) a fid) (gets (\<lambda>w. index_of fid (wdb w)))
        (\<lambda>x w. ok d0 (wdb w) \<and> logged (wdb w) a fid \<and> index_of fid (wdb w) = x)
        (\<lambda>w. ok d0 (wdb w))"
      by (rule spec_gets) simp
    fix winner
    show "spec (\<lambda>w. ok d0 (wdb w) \<and> logged (wdb w) a fid \<and> index_of fid (wdb w) = winner)
        (case_option (raise e) (\<lambda>wr. step_4_update_log_and_audit R c a fid wr False) winner)
        (done_with d0 a) (\<lambda>w. ok d0 (wdb w))"
      by (cases winner) (auto intro: spec_raise spec_step_4)
  qed
qed

lemma spec_route_store:
  assumes "\<And>n. world_rely (ifr n)"
  shows "spec (\<lambda>w. ok d0 (wdb w) \<and> logged (wdb w) a fid) (route_store R c ifr a fid rid)
     (done_with d0 a) (\<lambda>w. ok d0 (wdb w))"
proof (rule spec_pre)
  fix w :: "'a world" assume L: "ok d0 (wdb w) \<and> logged (wdb w) a fid"
  obtain res w' where run: "in_db (step_3_index_insert fid rid) w = (res, w')"
    by (cases "in_db (step_3_index_insert fid rid) w")
  show "spec (\<lambda>t. t = w) (route_store R c ifr a fid rid) (done_with d0 a) (\<lambda>w. ok d0 (wdb w))"
  proof (cases res)
    case (Inl e)
    with run have "w' = w" using in_db_Inl by blast
    with Inl run L spec_route_lost [of d0 a fid R c rid e] show ?thesis
      by (simp add: spec_def route_store_def)
  next
    case (Inr u)
    with run L have I: "ok d0 (wdb w') \<and> logged (wdb w') a fid \<and> index_of fid (wdb w') = Some rid"
      using spec_InrD [OF spec_in_db [OF spec_step_3 [of d0 a fid rid]], of w u w'] by blast
    have "spec (\<lambda>w. ok d0 (wdb w) \<and> logged (wdb w) a fid \<and> index_of fid (wdb w) = Some rid)
        (thn (modify (ifr 5)) (step_4_update_log_and_audit R c a fid rid True))
        (done_with d0 a) (\<lambda>w. ok d0 (wdb w))"
      by (rule spec_thn [OF spec_interfere(2) [OF assms] spec_step_4])
    with Inr run I show ?thesis by (simp add: spec_def route_store_def)
  qed
qed

lemma spec_route_own:
  assumes "\<And>n. world_rely (ifr n)"
  shows "spec (\<lambda>w. ok d0 (wdb w) \<and> logged (wdb w) a fid) (route_own R c ifr a fid)
     (done_with d0 a) (\<lambda>w. ok d0 (wdb w))"
  unfolding route_own_def
proof (rule spec_bnd)
  show "spec (\<lambda>w. ok d0 (wdb w) \<and> logged (wdb w) a fid)
      (on_redis (xadd R (deadletter_stream (ra_stream a)) (deadletter_fields a fid)))
      (\<lambda>_ w. ok d0 (wdb w) \<and> logged (wdb w) a fid) (\<lambda>w. ok d0 (wdb w))"
    by (rule spec_weaken [OF spec_on_redis [where P = "\<lambda>d. ok d0 d \<and> logged d a fid"]]) auto
qed (rule spec_thn [OF spec_interfere(1) [OF assms] spec_route_store [OF assms]])

lemma spec_capture:
  "spec P (capture_redis_lower_bound R dls) (\<lambda>_. P) E"
  by (simp add: spec_def capture_redis_lower_bound_def)

lemma spec_acquire_world:
  assumes "\<And>n. dl_rely (env n)"
  shows "spec (\<lambda>w. ok d0 (wdb w) \<and> logged (wdb w) a fid)
     (\<lambda>w. in_db (acquire_or_adopt_intent R (wredis w) fuel c env fid me lb stream 0) w)
     (\<lambda>ad w. adopted d0 a fid ad (wdb w)) (\<lambda>w. ok d0 (wdb w))"
proof (rule spec_pre)
  fix w :: "'a world" assume L: "ok d0 (wdb w) \<and> logged (wdb w) a fid"
  have acq: "spec (\<lambda>w. ok d0 (wdb w) \<and> logged (wdb w) a fid)
      (in_db (acquire_or_adopt_intent R (wredis w) fuel c env fid me lb stream 0))
      (\<lambda>ad w. adopted d0 a fid ad (wdb w)) (\<lambda>w. ok d0 (wdb w) \<and> logged (wdb w) a fid)"
    using assms by (intro spec_in_db spec_acquire)
  show "spec (\<lambda>t. t = w)
     (\<lambda>w. in_db (acquire_or_adopt_intent R (wredis w) fuel c env fid me lb stream 0) w)
     (\<lambda>ad w. adopted d0 a fid ad (wdb w)) (\<lambda>w. ok d0 (wdb w))"
    using L spec_InrD [OF acq] spec_InlD [OF acq] by (intro specI) blast+
qed

lemma spec_adoption_cases:
  assumes "\<And>n. world_rely (ifr n)"
  shows "spec (\<lambda>w. adopted d0 a fid ad (wdb w))
     (case action ad of
        Abort \<Rightarrow> ret RoutingAborted
      | ReconciledByUs \<Rightarrow>
          (case adopted_message_id ad of
             None \<Rightarrow> raise (PyE AssertionError)
           | Some rid \<Rightarrow> ret (RoutingReconciledByAdoption rid))
      | Own \<Rightarrow> route_own R c ifr a fid)
     (done_with d0 a) (\<lambda>w. ok d0 (wdb w))"
proof (cases "action ad")
  case Own
  then show ?thesis
    by (auto intro: spec_weaken [OF spec_route_own [OF assms]] simp: adopted_def)
next
  case ReconciledByUs
  then show ?thesis
    by (cases "adopted_message_id ad")
      (auto intro!: spec_ret spec_raise simp: adopted_def done_with_def)
next
  case Abort
  then show ?thesis by (auto intro!: spec_ret simp: adopted_def done_with_def)
qed

lemma spec_route:
  assumes ifr: "\<And>n. world_rely (ifr n)" and env: "\<And>n. dl_rely (env n)"
  shows "spec (\<lambda>w. ok d0 (wdb w)) (route_to_deadletter R fuel loads_ok dumps c ifr env a)
     (done_with d0 a) (\<lambda>w. ok d0 (wdb w))"
proof -
  let ?L = "\<lambda>fid w. ok d0 (wdb w) \<and> logged (wdb w) a fid"
  let ?I = "\<lambda>fid idx w. ok d0 (wdb w) \<and> logged (wdb w) a fid \<and> index_of fid (wdb w) = idx"
  have step_1: "spec (\<lambda>w. ok d0 (wdb w)) (in_db (step_1_log_insert c loads_ok dumps a))
      (\<lambda>x w. ok d0 (wdb w) \<and> logged (wdb w) a (fst x) \<and>
         (\<forall>rid. snd x = Some rid \<longrightarrow> routed (wdb w) a rid)) (\<lambda>w. ok d0 (wdb w))"
    by (rule spec_weaken [OF spec_in_db [OF spec_step_1]]) auto
  let ?A = "\<lambda>fid. thn (modify (ifr 2))
        (bnd (capture_redis_lower_bound R (deadletter_stream (ra_stream a))) (\<lambda>lb.
         bnd (\<lambda>w. in_db (acquire_or_adopt_intent R (wredis w) fuel c env fid
                           (ra_owner_id a) lb (ra_stream a) 0) w) (\<lambda>adoption.
         thn (modify (ifr 3))
         (case action adoption of
            Abort \<Rightarrow> ret RoutingAborted
          | ReconciledByUs \<Rightarrow>
              (case adopted_message_id adoption of
                 None \<Rightarrow> raise (PyE AssertionError)
               | Some rid \<Rightarrow> ret (RoutingReconciledByAdoption rid))
          | Own \<Rightarrow> route_own R c ifr a fid))))"
  have adopt: "spec (?L fid) (?A fid) (done_with d0 a) (\<lambda>w. ok d0 (wdb w))" for fid
    by (intro spec_thn [OF spec_interfere(1)] spec_bnd [OF spec_capture]
          spec_bnd [OF spec_acquire_world] spec_thn [OF spec_interfere(3)] spec_adoption_cases ifr env)
  have lookup: "spec (?L fid) (gets (\<lambda>w. index_of fid (wdb w))) (?I fid) E" for fid E
    by (rule spec_gets) simp
  have index: "spec (?L fid)
      (thn (modify (ifr 1)) (bnd (gets (\<lambda>w. index_of fid (wdb w))) (\<lambda>idx.
         case idx of None \<Rightarrow> ?A fid | Some rid \<Rightarrow> step_4_update_log_and_audit R c a fid rid False)))
      (done_with d0 a) (\<lambda>w. ok d0 (wdb w))" for fid
  proof (rule spec_thn [OF spec_interfere(1) [OF ifr] spec_bnd [OF lookup]])
    show "spec (?I fid idx) (case idx of None \<Rightarrow> ?A fid
        | Some rid \<Rightarrow> step_4_update_log_and_audit R c a fid rid False)
        (done_with d0 a) (\<lambda>w. ok d0 (wdb w))" for idx
      by (cases idx) (auto intro: spec_weaken [OF adopt] spec_weaken [OF spec_step_4])
  qed
  show ?thesis
    unfolding route_to_deadletter_def
  proof (rule spec_bnd [OF step_1], simp only: case_prod_unfold, rule spec_case_option)
    fix x :: "int \<times> redis_id option"
    show "spec (\<lambda>w. ok d0 (wdb w) \<and> logged (wdb w) a (fst x) \<and> (\<forall>rid. snd x = Some rid \<longrightarrow> routed (wdb w) a rid))
      (thn (modify (ifr 1)) (bnd (gets (\<lambda>w. index_of (fst x) (wdb w))) (\<lambda>idx.
         case idx of None \<Rightarrow> ?A (fst x) | Some rid \<Rightarrow> step_4_update_log_and_audit R c a (fst x) rid False)))
      (done_with d0 a) (\<lambda>w. ok d0 (wdb w))"
      by (rule spec_weaken [OF index]) auto
  next
    fix x :: "int \<times> redis_id option" and rid assume "snd x = Some rid"
    then show "spec (\<lambda>w. ok d0 (wdb w) \<and> logged (wdb w) a (fst x) \<and> (\<forall>rid. snd x = Some rid \<longrightarrow> routed (wdb w) a rid))
      (ret (RoutingComplete rid)) (done_with d0 a) (\<lambda>w. ok d0 (wdb w))"
      by (auto intro!: spec_ret simp: done_with_def)
  qed
qed

lemma route_guarantee:
  assumes "dl_inv (wdb w)" and "\<And>n. world_rely (ifr n)" and "\<And>n. dl_rely (env n)"
    and "route_to_deadletter R fuel loads_ok dumps c ifr env a w = (res, w')"
  shows "dl_inv (wdb w') \<and> dl_le (wdb w) (wdb w') \<and>
    (\<forall>rid. res = Inr (RoutingComplete rid) \<or> res = Inr (RoutingReconciledByAdoption rid) \<longrightarrow>
       routed (wdb w') a rid)"
proof -
  have spec: "spec (\<lambda>v. ok (wdb w) (wdb v)) (route_to_deadletter R fuel loads_ok dumps c ifr env a)
      (done_with (wdb w) a) (\<lambda>v. ok (wdb w) (wdb v))"
    by (rule spec_route [OF assms(2,3)])
  have ok: "ok (wdb w) (wdb w)" using assms(1) by (rule ok_refl)
  show ?thesis
  proof (cases res)
    case (Inl e)
    with spec_InlD [OF spec ok] assms(4) have "ok (wdb w) (wdb w')" by blast
    with Inl show ?thesis by (simp add: ok_def)
  next
    case (Inr r)
    with spec_InrD [OF spec ok] assms(4) have "done_with (wdb w) a r w'" by blast
    with Inr show ?thesis by (auto simp: done_with_def ok_def)
  qed
qed

text \<open>C3. Agreement and non-interference of dead-letter routing. Whatever the other workers
  commit between two steps, as long as they keep the invariant and never change a routed id
  or an index row, a routing call keeps the same: the invariant holds afterwards, every
  Redis id that had been recorded is still recorded, on success and on error. When the call
  reports completion, or reconciliation by adoption, with id \<open>rid\<close>, the message's log row
  and its index row both carry exactly \<open>rid\<close>.\<close>

theorem route_agreement:
  assumes "dl_inv (wdb w)" and "\<And>n. world_rely (ifr n)" and "\<And>n. dl_rely (env n)"
    and "route_to_deadletter R fuel loads_ok dumps c ifr env a w = (res, w')"
  shows "dl_inv (wdb w') \<and> dl_le (wdb w) (wdb w') \<and>
    (\<forall>rid. res = Inr (RoutingComplete rid) \<or> res = Inr (RoutingReconciledByAdoption rid) \<longrightarrow>
       routed (wdb w') a rid)"
  using assms by (rule route_guarantee)


section \<open>Runs without interference\<close>

lemma dl_inv_fresh:
  assumes "dl_inv d"
  shows "index_of (dl_seq d) d = None" "intent_of (dl_seq d) d = None"
    "log_of (dl_seq d) d = None"
    "sql_delete (\<lambda>i. it_failure_id i = dl_seq d) (dl_intent d) = dl_intent d"
    "sql_count (\<lambda>l. dl_failure_id l = dl_seq d \<and> dl_routed_at_redis l = None) (dl_log d) = 0"
proof -
  have "it_failure_id i \<noteq> dl_seq d" if "i \<in> set (dl_intent d)" for i
    using intent_logged(2) [OF assms that] by simp
  then show "intent_of (dl_seq d) d = None"
    "sql_delete (\<lambda>i. it_failure_id i = dl_seq d) (dl_intent d) = dl_intent d"
    by (auto simp: intent_of_def sql_find_None_iff sql_delete_def filter_id_conv)
qed (use assms in \<open>auto simp: dl_inv_def index_of_def log_of_def sql_find_None_iff sql_count_zero_iff\<close>)

definition new_log_row ::
  "ctx \<Rightarrow> (pystr \<Rightarrow> bool) \<Rightarrow> (pystr \<Rightarrow> pystr) \<Rightarrow> route_args \<Rightarrow> int \<Rightarrow> deadletter_log" where
  "new_log_row c loads_ok dumps a fid =
     \<lparr>dl_failure_id = fid, dl_stream_name = ra_stream a,
      dl_deadletter_stream = deadletter_stream (ra_stream a),
      dl_event_id = ra_event_id a, dl_original_message_id = ra_message_id a,
      dl_group_name = ra_group a, dl_consumer_name = ra_consumer_name a,
      dl_failure_count = ra_failure_count a, dl_last_error = take 8000 (ra_last_error a),
      dl_payload_excerpt = coerce_jsonb_str loads_ok dumps (ra_payload_excerpt a),
      dl_routed_at = ctx_now c, dl_routed_at_redis = None, dl_redis_message_id = None,
      dl_actor_id = None, dl_actor_kind = None, dl_request_id = None\<rparr>"

lemma step_1_fresh:
  "args_key a \<notin> log_key ` set (dl_log d) \<Longrightarrow>
   step_1_log_insert c loads_ok dumps a d =
     (Inr (dl_seq d, None),
      d\<lparr>dl_log := dl_log d @ [new_log_row c loads_ok dumps a (dl_seq d)], dl_seq := dl_seq d + 1\<rparr>)"
proof -
  assume "args_key a \<notin> log_key ` set (dl_log d)"
  then have "sql_find (\<lambda>l. log_key l = args_key a) (dl_log d) = None"
    by (force simp: sql_find_None_iff)
  then show ?thesis by (simp add: step_1_log_insert_def new_log_row_def)
qed

lemma capture_eval:
  "\<exists>lb. capture_redis_lower_bound R st w = (Inr lb, w)"
  by (simp add: capture_redis_lower_bound_def)

text \<open>The routing audit of one message.\<close>

definition routing_audit :: "ctx \<Rightarrow> route_args \<Rightarrow> int \<Rightarrow> redis_id \<Rightarrow> audit_log \<Rightarrow> audit_log" where
  "routing_audit c a fid rid l = log_event (attributed_event c
     \<lparr>ar_operation = ''stream.deadletter'', ar_target_schema = ''streams'',
      ar_target_table = ''deadletter_log'', ar_target_pk = jobj [(''failure_id'', JInt fid)],
      ar_before = None, ar_after = None,
      ar_metadata = jobj [(''event_id'', JStr (uuid_str (ra_event_id a))),
        (''failure_id'', JInt fid), (''stream_name'', jlit (ra_stream a)),
        (''group_name'', jlit (ra_group a)), (''redis_message_id'', JStr (rid_str rid))],
      ar_ingestion_run_id = None\<rparr>) l"

lemma step_4_hit:
  assumes "\<not> (ctx_actor c = None \<and> ctx_strict c)"
    and "sql_count (\<lambda>l. dl_failure_id l = fid \<and> dl_routed_at_redis l = None) (dl_log (wdb w)) \<noteq> 0"
  shows "step_4_update_log_and_audit R c a fid rid ours w =
    (Inr (RoutingComplete rid),
     w\<lparr>wdb := (wdb w)\<lparr>dl_log := mark_routed c fid rid (dl_log (wdb w)),
        audit_events := routing_audit c a fid rid (audit_events (wdb w))\<rparr>\<rparr>)"
proof -
  have "in_db (step_4_update_log c a fid rid) w = (Inr None,
      w\<lparr>wdb := (wdb w)\<lparr>dl_log := mark_routed c fid rid (dl_log (wdb w)),
        audit_events := routing_audit c a fid rid (audit_events (wdb w))\<rparr>\<rparr>)"
    using assms
    by (intro in_db_eval) (auto simp: step_4_update_log_def deadletter_audit_def routing_audit_def ret_def)
  then show ?thesis
    by (simp add: step_4_update_log_and_audit_def bnd_def ret_def)
qed

text \<open>C32. The first routing of a message, undisturbed: it adds exactly one entry to the
  dead-letter stream, one log row and one index row that carry the id of that entry, and one
  \<open>stream.deadletter\<close> audit row; no intent is left behind.\<close>

theorem route_fresh:
  assumes inv: "dl_inv (wdb w)"
    and fresh: "args_key a \<notin> log_key ` set (dl_log (wdb w))"
    and audit: "\<not> (ctx_actor c = None \<and> ctx_strict c)"
    and add: "xadd R (deadletter_stream (ra_stream a)) (deadletter_fields a (dl_seq (wdb w))) (wredis w)
      = (Inr rid, r')"
  shows "route_to_deadletter R fuel loads_ok dumps c (\<lambda>_ w. w) (\<lambda>_ d. d) a w =
    (Inr (RoutingComplete rid),
     w\<lparr>wdb := (wdb w)\<lparr>dl_log := dl_log (wdb w) @
           [(new_log_row c loads_ok dumps a (dl_seq (wdb w)))
             \<lparr>dl_redis_message_id := Some rid, dl_routed_at_redis := Some (ctx_now c)\<rparr>],
         dl_seq := dl_seq (wdb w) + 1,
         dl_index := dl_index (wdb w) @
           [\<lparr>ix_failure_id = dl_seq (wdb w), ix_redis_message_id = rid\<rparr>],
         audit_events := routing_audit c a (dl_seq (wdb w)) rid (audit_events (wdb w))\<rparr>,
       wredis := r'\<rparr>)"
proof -
  let ?d = "wdb w" and ?fid = "dl_seq (wdb w)"
  let ?row = "new_log_row c loads_ok dumps a ?fid"
  let ?d1 = "?d\<lparr>dl_log := dl_log ?d @ [?row], dl_seq := ?fid + 1\<rparr>"
  obtain lb where lb: "capture_redis_lower_bound R (deadletter_stream (ra_stream a)) (w\<lparr>wdb := ?d1\<rparr>)
      = (Inr lb, w\<lparr>wdb := ?d1\<rparr>)"
    using capture_eval by blast
  let ?it = "\<lparr>it_failure_id = ?fid, it_stream_name = ra_stream a, it_intent_at = ctx_now c,
      it_redis_lower_bound_id = lb, it_owner_id = ra_owner_id a, it_owner_heartbeat_at = ctx_now c\<rparr>"
  let ?d2 = "?d1\<lparr>dl_intent := dl_intent ?d @ [?it]\<rparr>"
  let ?d3 = "?d1\<lparr>dl_index := dl_index ?d @ [\<lparr>ix_failure_id = ?fid, ix_redis_message_id = rid\<rparr>]\<rparr>"
  note none = dl_inv_fresh [OF inv]
  have s1: "in_db (step_1_log_insert c loads_ok dumps a) w = (Inr (?fid, None), w\<lparr>wdb := ?d1\<rparr>)"
    using step_1_fresh [OF fresh] by (rule in_db_eval)
  have acq: "in_db (acquire_or_adopt_intent R r fuel c (\<lambda>_ d. d) ?fid (ra_owner_id a) lb (ra_stream a) 0)
      (w\<lparr>wdb := ?d1\<rparr>) = (Inr \<lparr>action = Own, lower_bound = Some lb, adopted_message_id = None\<rparr>,
        w\<lparr>wdb := ?d2\<rparr>)" for r
  proof -
    have "acquire_or_adopt_intent R r fuel c (\<lambda>_ d. d) ?fid (ra_owner_id a) lb (ra_stream a) 0 ?d1 =
        (Inr \<lparr>action = Own, lower_bound = Some lb, adopted_message_id = None\<rparr>, ?d2)" for r
      using none(2) by (subst acquire_or_adopt_intent.simps) (simp add: intent_of_def)
    then show ?thesis by (simp add: in_db_eval)
  qed
  have s3: "in_db (step_3_index_insert ?fid rid) (w\<lparr>wdb := ?d2, wredis := r'\<rparr>) =
      (Inr (), w\<lparr>wdb := ?d3, wredis := r'\<rparr>)"
  proof -
    have "step_3_index_insert ?fid rid ?d2 = (Inr (), ?d3)"
      using none(1,4) by (simp add: step_3_index_insert_def index_of_def sql_delete_def)
    then show ?thesis by (simp add: in_db_eval)
  qed
  have mark: "mark_routed c ?fid rid (dl_log ?d3) = dl_log ?d @
      [?row\<lparr>dl_redis_message_id := Some rid, dl_routed_at_redis := Some (ctx_now c)\<rparr>]"
    using sql_update_none [OF none(5)] by (simp add: mark_routed_def sql_update_def new_log_row_def)
  have s4: "step_4_update_log_and_audit R c a ?fid rid True (w\<lparr>wdb := ?d3, wredis := r'\<rparr>) =
    (Inr (RoutingComplete rid), w\<lparr>wdb := ?d3\<lparr>dl_log := mark_routed c ?fid rid (dl_log ?d3),
        audit_events := routing_audit c a ?fid rid (audit_events ?d3)\<rparr>, wredis := r'\<rparr>)"
    using step_4_hit [OF audit, of ?fid "w\<lparr>wdb := ?d3, wredis := r'\<rparr>"]
    by (simp add: sql_count_def new_log_row_def)
  have own: "route_own R c (\<lambda>_ w. w) a ?fid (w\<lparr>wdb := ?d2\<rparr>) =
      step_4_update_log_and_audit R c a ?fid rid True (w\<lparr>wdb := ?d3, wredis := r'\<rparr>)"
    by (simp add: route_own_def bnd_def on_redis_def add route_store_def s3)
  have "route_to_deadletter R fuel loads_ok dumps c (\<lambda>_ w. w) (\<lambda>_ d. d) a w =
      route_own R c (\<lambda>_ w. w) a ?fid (w\<lparr>wdb := ?d2\<rparr>)"
    unfolding route_to_deadletter_def
    using none(1) by (simp add: bnd_eval s1 lb acq)
  also have "\<dots> = (Inr (RoutingComplete rid), w\<lparr>wdb := ?d3\<lparr>dl_log := dl_log ?d @
      [?row\<lparr>dl_redis_message_id := Some rid, dl_routed_at_redis := Some (ctx_now c)\<rparr>],
        audit_events := routing_audit c a ?fid rid (audit_events ?d3)\<rparr>, wredis := r'\<rparr>)"
    unfolding own s4 mark ..
  finally show ?thesis by simp
qed


text \<open>The database after a stale intent was reconciled with the entry its owner left behind.\<close>

definition reconciled_db :: "ctx \<Rightarrow> int \<Rightarrow> deadletter_xadd_intent \<Rightarrow> redis_id \<Rightarrow> db \<Rightarrow> db" where
  "reconciled_db c fid it i d = snd (reconcile_orphan c fid it i d)"

lemma reconcile_orphan_eval:
  assumes "\<not> (ctx_actor c = None \<and> ctx_strict c)" and "index_of fid d = None"
  shows "reconcile_orphan c fid it i d =
      (Inr \<lparr>action = ReconciledByUs, lower_bound = None, adopted_message_id = Some i\<rparr>,
       reconciled_db c fid it i d)"
    and "intent_of fid (reconciled_db c fid it i d) = None"
    and "\<exists>u. reconciled_db c fid it i d =
      d\<lparr>dl_index := sql_insert_dn ix_failure_id \<lparr>ix_failure_id = fid, ix_redis_message_id = i\<rparr> (dl_index d),
        dl_log := mark_routed c fid i (dl_log d),
        dl_intent := sql_delete (\<lambda>j. it_failure_id j = fid) (dl_intent d), audit_events := u\<rparr>"
proof -
  have "\<exists>u. reconcile_orphan c fid it i d =
      (Inr \<lparr>action = ReconciledByUs, lower_bound = None, adopted_message_id = Some i\<rparr>,
       d\<lparr>dl_index := sql_insert_dn ix_failure_id \<lparr>ix_failure_id = fid, ix_redis_message_id = i\<rparr> (dl_index d),
         dl_log := mark_routed c fid i (dl_log d),
         dl_intent := sql_delete (\<lambda>j. it_failure_id j = fid) (dl_intent d), audit_events := u\<rparr>)"
    using assms(2) unfolding reconcile_orphan_def
    by (simp add: index_insert_dn deadletter_audit_def assms(1) ret_def del: not_None_eq) (rule exI, rule refl)
  then obtain u where u: "reconcile_orphan c fid it i d =
      (Inr \<lparr>action = ReconciledByUs, lower_bound = None, adopted_message_id = Some i\<rparr>,
       d\<lparr>dl_index := sql_insert_dn ix_failure_id \<lparr>ix_failure_id = fid, ix_redis_message_id = i\<rparr> (dl_index d),
         dl_log := mark_routed c fid i (dl_log d),
         dl_intent := sql_delete (\<lambda>j. it_failure_id j = fid) (dl_intent d), audit_events := u\<rparr>)" ..
  then show "reconcile_orphan c fid it i d =
      (Inr \<lparr>action = ReconciledByUs, lower_bound = None, adopted_message_id = Some i\<rparr>,
       reconciled_db c fid it i d)"
    by (simp add: reconciled_db_def)
  show "intent_of fid (reconciled_db c fid it i d) = None"
    by (simp add: reconciled_db_def u intent_of_def sql_find_None_iff sql_delete_def)
  show "\<exists>u. reconciled_db c fid it i d =
      d\<lparr>dl_index := sql_insert_dn ix_failure_id \<lparr>ix_failure_id = fid, ix_redis_message_id = i\<rparr> (dl_index d),
        dl_log := mark_routed c fid i (dl_log d),
        dl_intent := sql_delete (\<lambda>j. it_failure_id j = fid) (dl_intent d), audit_events := u\<rparr>"
    by (simp add: reconciled_db_def u) (rule exI, rule refl)
qed

text \<open>Crash recovery: when a worker died between its \<open>XADD\<close> and its index insert, its
  intent has gone stale, and its entry (or another entry of the same failure at or above the
  recorded bound) is in the dead-letter stream, another worker's routing call finds an entry of
  the failure, adopts its id and sends nothing: the stream is unchanged, the log and index rows
  carry the id, the intent is gone.\<close>

lemma route_stale_adoption:
  assumes redis: "redis_streams R entries"
    and up: "redis_up R (wredis w) (deadletter_stream (ra_stream a))"
    and fuel: "length (entries (wredis w) (deadletter_stream (ra_stream a))) < fuel"
    and audit: "\<not> (ctx_actor c = None \<and> ctx_strict c)"
    and inv: "dl_inv (wdb w)"
    and row: "sql_find (\<lambda>l. log_key l = args_key a) (dl_log (wdb w)) = Some l"
      "dl_redis_message_id l = None" "index_of (dl_failure_id l) (wdb w) = None"
    and it: "intent_of (dl_failure_id l) (wdb w) = Some it" "it_owner_id it \<noteq> ra_owner_id a"
      "stale_age \<le> ctx_now c - it_owner_heartbeat_at it"
    and landed: "e \<in> set (entries (wredis w) (deadletter_stream (ra_stream a)))"
      "it_redis_lower_bound_id it \<le> fst e" "entry_failure_id (snd e) = Some (dl_failure_id l)"
  shows "\<exists>i w'. route_to_deadletter R fuel loads_ok dumps c (\<lambda>_ w. w) (\<lambda>_ d. d) a w =
      (Inr (RoutingReconciledByAdoption i), w') \<and> wredis w' = wredis w \<and>
    (\<exists>f. (i, f) \<in> set (entries (wredis w) (deadletter_stream (ra_stream a))) \<and>
         entry_failure_id f = Some (dl_failure_id l)) \<and>
    routed (wdb w') a i \<and> intent_of (dl_failure_id l) (wdb w') = None"
proof -
  let ?d = "wdb w" and ?fid = "dl_failure_id l"
  let ?E = "entries (wredis w) (deadletter_stream (ra_stream a))"
  let ?F = "filter (\<lambda>e. it_redis_lower_bound_id it \<le> fst e) ?E"
  let ?d1 = "?d\<lparr>dl_seq := dl_seq ?d + 1\<rparr>"
  have "page_hit ?fid ?F \<noteq> None"
    unfolding page_hit_None using landed by (simp add: bex_simps) (metis prod.collapse)
  then obtain i where i: "page_hit ?fid ?F = Some i" by blast
  then have hit: "\<exists>f. (i, f) \<in> set ?E \<and> entry_failure_id f = Some ?fid"
    using page_hit_Some by fastforce
  have scan: "find_orphan_in_deadletter_stream R (wredis w) fuel (ra_stream a)
      (it_redis_lower_bound_id it) ?fid 10000 = Inr (Some i)"
    using redis_streams.find_orphan_complete [OF redis, of 10000] up fuel i
    by (simp add: deadletter_stream_def)
  let ?d2 = "reconciled_db c ?fid it i ?d1"
  have idx1: "index_of ?fid ?d1 = None" using row(3) by simp
  note rec = reconcile_orphan_eval [OF audit idx1]
  have "acquire_or_adopt_intent R (wredis w) fuel c (\<lambda>_ d. d) ?fid (ra_owner_id a) lb (ra_stream a) 0 ?d1 =
      (Inr \<lparr>action = ReconciledByUs, lower_bound = None, adopted_message_id = Some i\<rparr>, ?d2)" for lb
    using it scan rec(1)
    by (subst acquire_or_adopt_intent.simps) (simp add: intent_of_def adopt_existing_def)
  then have acq: "in_db (acquire_or_adopt_intent R (wredis w) fuel c (\<lambda>_ d. d) ?fid (ra_owner_id a) lb (ra_stream a) 0)
      (w\<lparr>wdb := ?d1\<rparr>) = (Inr \<lparr>action = ReconciledByUs, lower_bound = None, adopted_message_id = Some i\<rparr>,
      w\<lparr>wdb := ?d2\<rparr>)" for lb
    by (simp add: in_db_eval)
  have s1: "in_db (step_1_log_insert c loads_ok dumps a) w = (Inr (?fid, None), w\<lparr>wdb := ?d1\<rparr>)"
    using row by (intro in_db_eval) (simp add: step_1_log_insert_def)
  obtain lb where lb: "capture_redis_lower_bound R (deadletter_stream (ra_stream a)) (w\<lparr>wdb := ?d1\<rparr>)
      = (Inr lb, w\<lparr>wdb := ?d1\<rparr>)"
    using capture_eval by blast
  have run: "route_to_deadletter R fuel loads_ok dumps c (\<lambda>_ w. w) (\<lambda>_ d. d) a w =
      (Inr (RoutingReconciledByAdoption i), w\<lparr>wdb := ?d2\<rparr>)"
    unfolding route_to_deadletter_def
    using row(3) by (simp add: bnd_eval s1 lb acq ret_def)
  have inv1: "dl_inv ?d1" using inv by (auto simp: dl_inv_def)
  have log1: "logged ?d1 a ?fid"
    using row(1) sql_find_Some_iff by (fastforce simp: logged_def)
  let ?d1' = "?d1\<lparr>dl_index := sql_insert_dn ix_failure_id
      \<lparr>ix_failure_id = ?fid, ix_redis_message_id = i\<rparr> (dl_index ?d1)\<rparr>"
  have "dl_inv ?d1' \<and> dl_le ?d1 ?d1'" by (rule index_insert_keeps [OF inv1 log1])
  moreover have "index_of ?fid ?d1' = Some i" using idx1 by (simp only: index_insert_dn) simp
  ultimately have "routed (?d1'\<lparr>dl_log := mark_routed c ?fid i (dl_log ?d1')\<rparr>) a i"
    using log1 by (intro mark_routed_routed) (auto intro: logged_mono)
  then have "routed ?d2 a i"
    using rec(3) [of it i] by (auto simp: routed_def index_of_def)
  with run hit rec(2) show ?thesis by fastforce
qed


section \<open>Instances\<close>

definition sample_args :: route_args where
  "sample_args = \<lparr>ra_stream = ''aslan.documents.new'', ra_group = ''chunkers'',
     ra_consumer_name = ''worker-1'', ra_message_id = Rid 40 0, ra_event_id = 7,
     ra_failure_count = 6, ra_last_error = lit ''boom'', ra_payload_excerpt = [],
     ra_owner_id = ''worker-1''\<rparr>"

definition sample_world :: "mem_server world" where
  "sample_world = \<lparr>wdb = empty_db [''kap''], wredis = mem_empty\<rparr>"

lemma sample_inv: "dl_inv (wdb sample_world)"
  by (simp add: dl_inv_def sample_world_def empty_db_def)

lemma id_rely: "world_rely (\<lambda>w. w)" "dl_rely (\<lambda>d. d)"
  by (simp_all add: world_rely_def dl_rely_def dl_growth.le_refl)

theorem route_agreement_witness:
  "case route_to_deadletter mem_api 5 (\<lambda>_. True) id sample_ctx (\<lambda>_ w. w) (\<lambda>_ d. d) sample_args
      sample_world of (res, w') \<Rightarrow>
    dl_inv (wdb w') \<and> dl_le (wdb sample_world) (wdb w') \<and>
    (\<forall>rid. res = Inr (RoutingComplete rid) \<or> res = Inr (RoutingReconciledByAdoption rid) \<longrightarrow>
       routed (wdb w') sample_args rid)"
  using route_agreement [OF sample_inv id_rely surjective_pairing] by (simp add: case_prod_unfold)

theorem route_fresh_witness:
  "\<exists>w'. route_to_deadletter mem_api 5 (\<lambda>_. True) id sample_ctx (\<lambda>_ w. w) (\<lambda>_ d. d) sample_args
      sample_world = (Inr (RoutingComplete (Rid 1 0)), w') \<and>
    length (ms_entries (wredis w') ''aslan.documents.new.deadletter'') = 1"
  using route_fresh [of sample_world sample_args sample_ctx mem_api "Rid 1 0" _ 5 "\<lambda>_. True" id, OF sample_inv]
  by (simp add: sample_world_def empty_db_def mem_api_def sample_args_def
      deadletter_stream_def)

text \<open>A worker died after its \<open>XADD\<close>: the entry is in the stream, the intent is stale.\<close>

definition crashed_world :: "mem_server world" where
  "crashed_world = \<lparr>wdb = (empty_db [''kap''])\<lparr>
      dl_log := [new_log_row sample_ctx (\<lambda>_. True) id sample_args 1], dl_seq := 2,
      dl_intent := [\<lparr>it_failure_id = 1, it_stream_name = ''aslan.documents.new'', it_intent_at = 0,
        it_redis_lower_bound_id = rid_zero, it_owner_id = ''worker-0'', it_owner_heartbeat_at = 0\<rparr>]\<rparr>,
     wredis = ms_add ''aslan.documents.new.deadletter'' (deadletter_fields sample_args 1) mem_empty\<rparr>"

lemma route_stale_adoption_witness:
  "\<exists>w'. route_to_deadletter mem_api 5 (\<lambda>_. True) id (sample_ctx\<lparr>ctx_now := 10 ^ 8\<rparr>) (\<lambda>_ w. w) (\<lambda>_ d. d)
      sample_args crashed_world = (Inr (RoutingReconciledByAdoption (Rid 1 0)), w') \<and>
    wredis w' = wredis crashed_world"
proof -
  let ?E = "ms_entries (wredis crashed_world) (deadletter_stream (ra_stream sample_args))"
  let ?row = "new_log_row sample_ctx (\<lambda>_. True) id sample_args 1"
  let ?it = "\<lparr>it_failure_id = 1, it_stream_name = ''aslan.documents.new'', it_intent_at = 0,
        it_redis_lower_bound_id = rid_zero, it_owner_id = ''worker-0'', it_owner_heartbeat_at = 0\<rparr>"
  have E: "?E = [(Rid 1 0, deadletter_fields sample_args 1)]"
    by (simp add: crashed_world_def sample_args_def deadletter_stream_def)
  have inv: "dl_inv (wdb crashed_world)"
    by (simp add: crashed_world_def empty_db_def dl_inv_def new_log_row_def)
  have fid: "entry_failure_id (deadletter_fields sample_args 1) = Some 1"
    by (simp add: entry_failure_id_def deadletter_fields_def py_int_int_str)
  have own: "ra_owner_id sample_args = ''worker-1''" by (simp add: sample_args_def)
  have row: "sql_find (\<lambda>l. log_key l = args_key sample_args) (dl_log (wdb crashed_world)) = Some ?row"
    "dl_redis_message_id ?row = None" "dl_failure_id ?row = 1" "index_of 1 (wdb crashed_world) = None"
    "intent_of 1 (wdb crashed_world) = Some ?it"
    by (simp_all add: crashed_world_def new_log_row_def log_key_def args_key_def empty_db_def
        index_of_def intent_of_def)
  have "\<exists>i w'. route_to_deadletter mem_api 5 (\<lambda>_. True) id (sample_ctx\<lparr>ctx_now := 10 ^ 8\<rparr>)
        (\<lambda>_ w. w) (\<lambda>_ d. d) sample_args crashed_world =
        (Inr (RoutingReconciledByAdoption i), w') \<and> wredis w' = wredis crashed_world \<and>
      (\<exists>f. (i, f) \<in> set ?E \<and> entry_failure_id f = Some (dl_failure_id ?row)) \<and>
      routed (wdb w') sample_args i \<and> intent_of (dl_failure_id ?row) (wdb w') = None"
    by (rule route_stale_adoption [OF mem.redis_streams_axioms mem_up _ _ inv row(1,2),
          where it = ?it and e = "(Rid 1 0, deadletter_fields sample_args 1)"])
      (simp_all add: E row fid own stale_age_def rid_zero_def less_eq_redis_id_def)
  then show ?thesis by (simp add: E) blast
qed

text \<open>C35. The orphan scan is complete and returns: on a server that answers, with fuel for
  the entries of the stream, it returns the first entry at or above the bound whose
  \<open>failure_id\<close> field reads as the wanted number, and \<open>None\<close> only when there is none,
  however the pages fall.\<close>

theorem orphan_scan_complete:
  assumes "redis_streams R entries" and "0 < psize"
    and "redis_up R r (deadletter_stream stream)"
    and "length (entries r (deadletter_stream stream)) < fuel"
  shows "find_orphan_in_deadletter_stream R r fuel stream lb fid psize =
    Inr (map_option fst (List.find (\<lambda>e. entry_failure_id (snd e) = Some fid)
      (filter (\<lambda>e. lb \<le> fst e) (entries r (deadletter_stream stream)))))"
  using redis_streams.find_orphan_complete [OF assms(1,2)] assms(3,4)
  by (simp add: deadletter_stream_def page_hit_def)

theorem orphan_scan_complete_witness:
  "find_orphan_in_deadletter_stream mem_api (wredis crashed_world) 2 ''aslan.documents.new''
     (Rid 0 0) 1 1 = Inr (Some (Rid 1 0))"
proof -
  have "ms_entries (wredis crashed_world) (deadletter_stream ''aslan.documents.new'') =
      [(Rid 1 0, deadletter_fields sample_args 1)]"
    by (simp add: crashed_world_def deadletter_stream_def)
  then show ?thesis
    using orphan_scan_complete [OF mem.redis_streams_axioms _ mem_up, of 1 _ _ 2]
    by (simp add: less_eq_redis_id_def entry_failure_id_def deadletter_fields_def py_int_int_str)
qed

end
