(* ===== verification/Consumer_Delivery.thy ===== *)
theory Consumer_Delivery
  imports Consumer Deadletter_Protocol
begin

text \<open>
  Delivery guarantees of the consumer: a redacted event is only delivered in its redacted
  form, an acknowledged event is not delivered again, a claimed event is not delivered to a
  second consumer, and a message that cannot be parsed leaves the pending list only after
  its dead-letter routing is recorded.
\<close>

section \<open>Redaction\<close>

lemma event_from_registry_Inr:
  "event_from_registry E stream u payload h = Inr e \<Longrightarrow>
     canonical_payload_hash (ce_sha E) (ce_dumps_sorted E) payload = h \<and>
     ce_validate E payload = Some e \<and> se_event_id e = u"
  by (auto simp: event_from_registry_def split: if_splits option.splits)

lemma candidate_Inr:
  "redacted_candidate E stream u early = Inr (Some e) \<Longrightarrow> se_event_id e = u"
  by (auto simp: redacted_candidate_def dest: event_from_registry_Inr split: option.splits sum.splits)

text \<open>What a yielded event is, given the candidate of the early lookup.\<close>

definition yields_redacted ::
  "'r consumer_env \<Rightarrow> stream_event \<Rightarrow> stream_event \<times> bool \<Rightarrow> db \<Rightarrow> bool" where
  "yields_redacted E e r d \<longleftrightarrow> se_event_id (fst r) = se_event_id e \<and>
     (\<forall>x. fetch_registry_entry (se_event_id e) d = Inr (Some x) \<longrightarrow>
        snd r \<and> ce_validate E (rg_redacted_payload x) = Some (fst r) \<and>
        canonical_payload_hash (ce_sha E) (ce_dumps_sorted E) (rg_redacted_payload x) =
          rg_redacted_payload_hash x) \<and>
     (\<not> snd r \<longrightarrow> fst r = e \<and> fetch_registry_entry (se_event_id e) d = Inr None)"

lemma final_event_Inr:
  assumes "final_event E stream e candidate d = Inr r"
    and "\<And>e'. candidate = Some e' \<Longrightarrow> se_event_id e' = se_event_id e"
  shows "yields_redacted E e r d"
  using assms
  by (auto simp: final_event_def yields_redacted_def dest!: event_from_registry_Inr
      split: sum.splits option.splits)

lemma lock_and_check_Inr:
  "lock_and_check E stream grp e candidate w = (Inr r, w') \<Longrightarrow>
   w' = w \<and> final_event E stream e candidate (wdb w) = Inr r"
  by (auto simp: lock_and_check_def thn_def bnd_Inr_iff split: sum.splits if_splits)

text \<open>The gates of a delivery, in order.\<close>

lemma event_gates_Some:
  assumes "event_gates E c ifr stream grp cname mid e w = (Inr (Some dv), w')"
  obtains early w1 candidate w2 w3 where
    "fetch_cached_registry_entry (ce_K E) (ce_dumps_sorted E) (ce_loads E) (ce_pystr_of E) (se_event_id e) w =
       (Inr early, w1)"
    and "redacted_candidate E stream (se_event_id e) early = Inr candidate"
    and "skip_if_processed E stream grp mid (se_event_id e) (ifr 11 w1) = (Inr False, w2)"
    and "take_claim E c stream grp cname mid (se_event_id e) (ifr 12 w2) = (Inr True, w3)"
    and "w' = ifr 13 w3" and "final_event E stream e candidate (wdb w') = Inr (dv_event dv, dv_redacted dv)"
    and "dv_message_id dv = mid" and "dv_stream dv = stream" and "dv_group dv = grp" and "dv_consumer dv = cname"
proof -
  obtain early w1 where 1: "fetch_cached_registry_entry (ce_K E) (ce_dumps_sorted E) (ce_loads E) (ce_pystr_of E)
      (se_event_id e) w = (Inr early, w1)"
    and r1: "bnd (lift (redacted_candidate E stream (se_event_id e) early)) (\<lambda>candidate.
     thn (modify (ifr 11))
    (bnd (skip_if_processed E stream grp mid (se_event_id e)) (\<lambda>skip.
       if skip then ret None
       else
         thn (modify (ifr 12))
        (bnd (take_claim E c stream grp cname mid (se_event_id e)) (\<lambda>mine.
           if \<not> mine then ret None
           else
             thn (modify (ifr 13))
            (bnd (lock_and_check E stream grp e candidate) (\<lambda>(e', red).
               ret (Some \<lparr>dv_event = e', dv_redacted = red, dv_message_id = mid, dv_stream = stream,
                          dv_group = grp, dv_consumer = cname\<rparr>)))))))) w1 = (Inr (Some dv), w')"
    using assms unfolding event_gates_def bnd_Inr_iff [of "fetch_cached_registry_entry _ _ _ _ _"] by blast
  obtain candidate where 2: "redacted_candidate E stream (se_event_id e) early = Inr candidate"
    using r1 by (cases "redacted_candidate E stream (se_event_id e) early") simp_all
  obtain skip w2 where 3: "skip_if_processed E stream grp mid (se_event_id e) (ifr 11 w1) = (Inr skip, w2)"
    and r3: "(if skip then ret None
       else
         thn (modify (ifr 12))
        (bnd (take_claim E c stream grp cname mid (se_event_id e)) (\<lambda>mine.
           if \<not> mine then ret None
           else
             thn (modify (ifr 13))
            (bnd (lock_and_check E stream grp e candidate) (\<lambda>(e', red).
               ret (Some \<lparr>dv_event = e', dv_redacted = red, dv_message_id = mid, dv_stream = stream,
                          dv_group = grp, dv_consumer = cname\<rparr>)))))) w2 = (Inr (Some dv), w')"
    using r1 by (auto simp: 2 bnd_Inr_iff [of "skip_if_processed _ _ _ _ _"])
  have skip: "\<not> skip" using r3 by (cases skip) simp_all
  obtain mine w3 where 4: "take_claim E c stream grp cname mid (se_event_id e) (ifr 12 w2) = (Inr mine, w3)"
    and r4: "(if \<not> mine then ret None
           else
             thn (modify (ifr 13))
            (bnd (lock_and_check E stream grp e candidate) (\<lambda>(e', red).
               ret (Some \<lparr>dv_event = e', dv_redacted = red, dv_message_id = mid, dv_stream = stream,
                          dv_group = grp, dv_consumer = cname\<rparr>)))) w3 = (Inr (Some dv), w')"
    using r3 skip by (auto simp: bnd_Inr_iff [of "take_claim _ _ _ _ _ _ _"])
  have mine: "mine" using r4 by (cases mine) simp_all
  obtain e' red w4 where 5: "lock_and_check E stream grp e candidate (ifr 13 w3) = (Inr (e', red), w4)"
    and dv: "dv = \<lparr>dv_event = e', dv_redacted = red, dv_message_id = mid, dv_stream = stream,
                  dv_group = grp, dv_consumer = cname\<rparr>" and w': "w' = w4"
    using r4 mine by (auto simp: bnd_Inr_iff)
  have "w4 = ifr 13 w3" "final_event E stream e candidate (wdb (ifr 13 w3)) = Inr (e', red)"
    using lock_and_check_Inr [OF 5] by simp_all
  with 1 2 3 4 skip mine dv w' show thesis by (intro that) simp_all
qed

lemma process_gates_Some:
  assumes "process_gates E s c ifr env stream grp cname mid f w = (Inr (Some dv), w')"
  obtains e where "parse_or_raise E stream f = Inr e" "check_schema_version s e stream = Inr ()"
    "event_gates E c ifr stream grp cname mid e w = (Inr (Some dv), w')"
proof (cases "parse_or_raise E stream f")
  case (Inl x)
  with assms have False
    by (auto simp: process_gates_def thn_Inr_iff split: error.splits stream_error.splits)
  then show thesis ..
next
  case (Inr e)
  show thesis
  proof (cases "check_schema_version s e stream")
    case (Inl x)
    with Inr assms have False by (auto simp: process_gates_def thn_Inr_iff split: if_splits)
    then show thesis ..
  next
    case (Inr u)
    with \<open>parse_or_raise E stream f = Inr e\<close> assms show thesis
      by (intro that [of e]) (simp_all add: process_gates_def)
  qed
qed

text \<open>C1. Redaction is enforced at delivery. A yielded event has the id of the parsed message
  and a supported version. If the registry holds an entry for that event when the consumer
  checks it under the lock, what is yielded is the registry's payload, verified against its
  stored hash, and marked redacted. The original form is yielded only if there is no entry.\<close>

theorem delivery_respects_redaction:
  assumes "process_gates E s c ifr env stream grp cname mid f w = (Inr (Some dv), w')"
  shows "\<exists>e. parse_or_raise E stream f = Inr e \<and>
    min_supported s \<le> se_schema_version e \<and> se_schema_version e \<le> max_supported s \<and>
    yields_redacted E e (dv_event dv, dv_redacted dv) (wdb w')"
proof -
  obtain e where e: "parse_or_raise E stream f = Inr e" "check_schema_version s e stream = Inr ()"
    and g: "event_gates E c ifr stream grp cname mid e w = (Inr (Some dv), w')"
    using assms by (rule process_gates_Some)
  have "min_supported s \<le> se_schema_version e \<and> se_schema_version e \<le> max_supported s"
    using e(2) by (auto simp: check_schema_version_def split: if_splits)
  moreover have "yields_redacted E e (dv_event dv, dv_redacted dv) (wdb w')"
    using g by (rule event_gates_Some) (auto intro: final_event_Inr dest: candidate_Inr)
  ultimately show ?thesis using e(1) by blast
qed

section \<open>At most one processing\<close>

lemma skip_if_processed_seen:
  assumes "redis_keys K strings members pending" and "ce_K E = K"
    and "uuid_str u \<in> members (wredis w) (processed_key stream grp)"
  shows "skip_if_processed E stream grp mid u w \<noteq> (Inr False, w')"
  using assms redis_keys.ismember [OF assms(1)]
  by (auto simp: skip_if_processed_def kv_sismember_def thn_def bnd_Inr_iff call_Inr_iff split: if_splits)

text \<open>The processed sets only grow (within their time to live).\<close>

definition keeps_processed :: "('r \<Rightarrow> pystr \<Rightarrow> pystr set) \<Rightarrow> ('r world \<Rightarrow> 'r world) \<Rightarrow> bool" where
  "keeps_processed members g \<longleftrightarrow> (\<forall>w k. members (wredis w) k \<subseteq> members (wredis (g w)) k)"

lemma fetch_cached_members:
  assumes "redis_keys K strings members pending"
    and "fetch_cached_registry_entry K dumps loads pystr_of u w = (Inr early, w')"
  shows "members (wredis w') = members (wredis w)"
proof -
  obtain raw w1 where get: "kv_get K (redaction_cache_key u) w = (Inr raw, w1)"
    and rest: "(case raw of
         Some t \<Rightarrow>
           (case loads t of
              None \<Rightarrow> raise (PyE ValueError)
            | Some data \<Rightarrow> bnd (lift (entry_of_json pystr_of data)) (\<lambda>x. ret (Some x)))
       | None \<Rightarrow>
           bnd (\<lambda>w. (fetch_registry_entry u (wdb w), w)) (\<lambda>entry.
             case entry of
               None \<Rightarrow> ret None
             | Some x \<Rightarrow> thn (cache_registry_entry K dumps x) (ret (Some x)))) w1 = (Inr early, w')"
    using assms(2) unfolding fetch_cached_registry_entry_def bnd_Inr_iff [of "kv_get _ _"] by blast
  have w1: "members (wredis w1) = members (wredis w)"
    using get by (auto simp: kv_get_def call_Inr_iff)
  have "members (wredis w') = members (wredis w1)"
    using rest redis_keys.set_frame(1) [OF assms(1)]
    by (auto simp: bnd_Inr_iff thn_Inr_iff cache_registry_entry_def kv_set_def call_Inr_iff
        split: option.splits sum.splits)
  with w1 show ?thesis by simp
qed

lemma logged_operation:
  "\<exists>ev. events (log_event (attributed_event c r) l) = events l @ [ev] \<and> ev_operation ev = ar_operation r"
  by (cases "ctx_actor c") (simp_all add: log_event_def attributed_event_def)

lemma ack_effect:
  assumes "redis_keys K strings members pending" and "ce_K E = K"
    and "ack E c dv w = (Inr (), w')"
  shows "uuid_str (se_event_id (dv_event dv)) \<in> members (wredis w') (processed_key (dv_stream dv) (dv_group dv))"
    and "strings (wredis w') (claim_key (dv_stream dv) (dv_group dv) (se_event_id (dv_event dv))) = None"
    and "dv_message_id dv \<notin> pending (wredis w') (dv_stream dv) (dv_group dv)"
    and "\<exists>ev. events (audit_events (wdb w')) = events (audit_events (wdb w)) @ [ev] \<and>
      ev_operation ev = (if dv_redacted dv then ''stream.consumed_redacted'' else ''stream.consume_ack'')"
proof -
  obtain w1 where w1: "in_db (ack_audit c dv) w = (Inr (), w1)" and w': "w' = w1\<lparr>wredis := ack_script K dv (wredis w1)\<rparr>"
    using assms(2,3) by (auto simp: ack_def thn_Inr_iff call_Inr_iff)
  note keys = redis_keys.key_simps [OF assms(1)]
  show "uuid_str (se_event_id (dv_event dv)) \<in> members (wredis w') (processed_key (dv_stream dv) (dv_group dv))"
    by (simp add: w' ack_script_def Let_def keys)
  show "strings (wredis w') (claim_key (dv_stream dv) (dv_group dv) (se_event_id (dv_event dv))) = None"
    by (simp add: w' ack_script_def Let_def keys)
  show "dv_message_id dv \<notin> pending (wredis w') (dv_stream dv) (dv_group dv)"
    by (simp add: w' ack_script_def Let_def keys)
  show "\<exists>ev. events (audit_events (wdb w')) = events (audit_events (wdb w)) @ [ev] \<and>
      ev_operation ev = (if dv_redacted dv then ''stream.consumed_redacted'' else ''stream.consume_ack'')"
  proof -
    obtain r where r: "ack_audit c dv = audit c r" "ar_operation r =
        (if dv_redacted dv then ''stream.consumed_redacted'' else ''stream.consume_ack'')"
      by (simp add: ack_audit_def)
    with w1 w' have "audit_events (wdb w') = log_event (attributed_event c r) (audit_events (wdb w))"
      by (auto simp: in_db_Inr_iff audit_Inr_iff)
    with r(2) logged_operation [of c r] show ?thesis by metis
  qed
qed

text \<open>C31. An acknowledgement writes exactly one audit row, removes the message from the pending
  list and releases the claim. From then on, and as long as the processed set keeps its members
  (it expires seven days after the last acknowledgement of the group), a consumer of the group
  that begins to examine a message with the same event id does not yield it. A consumer that was
  past the look-up in the processed set before the acknowledgement can still yield it
  (\<open>overlapping_ack_yields_twice\<close>).\<close>

theorem acked_event_not_redelivered:
  assumes K: "redis_keys (ce_K E) strings members pending"
    and ack: "ack E c dv w = (Inr (), w1)"
    and later: "\<And>k. members (wredis w1) k \<subseteq> members (wredis w2) k"
    and rely: "keeps_processed members (ifr 11)"
    and same: "se_event_id e = se_event_id (dv_event dv)"
  shows "event_gates E c' ifr (dv_stream dv) (dv_group dv) cname mid e w2 \<noteq> (Inr (Some dv'), w3) \<and>
    dv_message_id dv \<notin> pending (wredis w1) (dv_stream dv) (dv_group dv) \<and>
    strings (wredis w1) (claim_key (dv_stream dv) (dv_group dv) (se_event_id e)) = None \<and>
    (\<exists>ev. events (audit_events (wdb w1)) = events (audit_events (wdb w)) @ [ev])"
proof -
  let ?u = "se_event_id e" and ?k = "processed_key (dv_stream dv) (dv_group dv)"
  note eff = ack_effect [OF K refl ack, folded same]
  have seen: "uuid_str ?u \<in> members (wredis w2) ?k" using eff(1) later by blast
  have "event_gates E c' ifr (dv_stream dv) (dv_group dv) cname mid e w2 \<noteq> (Inr (Some dv'), w3)"
  proof
    assume "event_gates E c' ifr (dv_stream dv) (dv_group dv) cname mid e w2 = (Inr (Some dv'), w3)"
    then obtain early v1 v2 where
      f: "fetch_cached_registry_entry (ce_K E) (ce_dumps_sorted E) (ce_loads E) (ce_pystr_of E) ?u w2 = (Inr early, v1)"
      and s: "skip_if_processed E (dv_stream dv) (dv_group dv) mid ?u (ifr 11 v1) = (Inr False, v2)"
      by (rule event_gates_Some)
    have "uuid_str ?u \<in> members (wredis v1) ?k"
      using seen fetch_cached_members [OF K f] by simp
    then have "uuid_str ?u \<in> members (wredis (ifr 11 v1)) ?k"
      using rely unfolding keeps_processed_def by blast
    with s skip_if_processed_seen [OF K refl] show False by blast
  qed
  then show ?thesis using eff(2,3,4) by blast
qed

section \<open>One owner at a time\<close>

lemma take_claim_held:
  assumes K: "redis_keys (ce_K E) strings members pending"
    and held: "strings (wredis w) (claim_key stream grp u) = Some t" "t \<noteq> []"
      "claim_owner E t = Inr (Some (jlit owner))" and other: "owner \<noteq> cname"
  shows "take_claim E c stream grp cname mid u w \<noteq> (Inr True, w')"
proof -
  have get: "sv_get (ce_K E) (claim_key stream grp u) (wredis w) = Some t"
    using held(1) by (simp add: redis_keys.get [OF K])
  have "jlit owner \<noteq> jlit cname" using other by (simp add: jlit_def)
  then show ?thesis
    using get held(2,3)
    by (auto simp: take_claim_def kv_set_nx_def kv_get_def bnd_Inr_iff call_Inr_iff)
qed

lemma take_claim_True:
  assumes K: "redis_keys (ce_K E) strings members pending"
    and rt: "claim_owner E (claim_payload E c cname mid) = Inr (Some (jlit cname))"
    and empty: "ce_loads E [] = None"
    and "take_claim E c stream grp cname mid u w = (Inr True, w')"
  shows "\<exists>t. strings (wredis w') (claim_key stream grp u) = Some t \<and> t \<noteq> [] \<and>
    claim_owner E t = Inr (Some (jlit cname))"
proof (cases "sv_get (ce_K E) (claim_key stream grp u) (wredis w)")
  case None
  let ?t = "claim_payload E c cname mid"
  have w': "w' = w\<lparr>wredis := sv_set (ce_K E) (claim_key stream grp u) ?t CLAIM_LEASE_SECONDS (wredis w)\<rparr>"
    using assms(4) None by (auto simp: take_claim_def kv_set_nx_def bnd_Inr_iff call_Inr_iff)
  have "?t \<noteq> []" using rt empty by (auto simp: claim_owner_def)
  then show ?thesis
    using rt by (simp add: w' redis_keys.set_strings [OF K])
next
  case (Some t)
  from assms(4) Some have "t \<noteq> [] \<and> claim_owner E t = Inr (Some (jlit cname)) \<and> w' = w"
    by (auto simp: take_claim_def kv_set_nx_def kv_get_def bnd_Inr_iff call_Inr_iff split: if_splits sum.splits)
  with Some show ?thesis by (simp add: redis_keys.get [OF K])
qed

definition keeps_claims :: "('r \<Rightarrow> pystr \<Rightarrow> pystr option) \<Rightarrow> ('r world \<Rightarrow> 'r world) \<Rightarrow> bool" where
  "keeps_claims strings g \<longleftrightarrow> (\<forall>w k t. strings (wredis w) k = Some t \<longrightarrow> strings (wredis (g w)) k = Some t)"


lemma cache_key_not_claim_key: "redaction_cache_key u \<noteq> claim_key stream grp v"
  by (simp add: redaction_cache_key_def claim_key_def lit_def)

lemma fetch_cached_claims:
  assumes "redis_keys K strings members pending"
    and "fetch_cached_registry_entry K dumps loads pystr_of u w = (Inr early, w')"
  shows "strings (wredis w') (claim_key stream grp v) = strings (wredis w) (claim_key stream grp v)"
  using assms(2) redis_keys.set_strings [OF assms(1)] cache_key_not_claim_key [THEN not_sym]
  by (auto simp: fetch_cached_registry_entry_def bnd_Inr_iff thn_Inr_iff kv_get_def cache_registry_entry_def
      kv_set_def call_Inr_iff split: option.splits sum.splits)

lemma skip_False: "skip_if_processed E stream grp mid u w = (Inr False, w') \<Longrightarrow> w' = w"
  by (auto simp: skip_if_processed_def kv_sismember_def bnd_Inr_iff thn_Inr_iff call_Inr_iff split: if_splits)

text \<open>A delivery has one owner. The claim text \<open>json.dumps\<close> wrote names its writer when it
  is read back. While the claim of a yielded event stands (it is not released, and its lease has
  not run out), no message with the same event id is yielded to a consumer of another name in
  the group.\<close>

lemma claimed_event_not_shared:
  assumes K: "redis_keys (ce_K E) strings members pending"
    and rt: "claim_owner E (claim_payload E c cname mid) = Inr (Some (jlit cname))"
    and empty: "ce_loads E [] = None"
    and first: "event_gates E c ifr stream grp cname mid e w = (Inr (Some dv), w1)"
    and rely: "keeps_claims strings (ifr 13)" "keeps_claims strings (ifr' 11)" "keeps_claims strings (ifr' 12)"
    and held: "strings (wredis w2) (claim_key stream grp (se_event_id e)) =
      strings (wredis w1) (claim_key stream grp (se_event_id e))"
    and other: "cname \<noteq> cname'" and same: "se_event_id e' = se_event_id e"
  shows "event_gates E c' ifr' stream grp cname' mid' e' w2 \<noteq> (Inr (Some dv'), w3)"
proof
  let ?k = "claim_key stream grp (se_event_id e)"
  obtain v2 v3 where "take_claim E c stream grp cname mid (se_event_id e) (ifr 12 v2) = (Inr True, v3)"
    and w1: "w1 = ifr 13 v3"
    using first by (rule event_gates_Some)
  then obtain t where t: "strings (wredis v3) ?k = Some t" "t \<noteq> []" "claim_owner E t = Inr (Some (jlit cname))"
    using take_claim_True [OF K rt empty] by blast
  have claim: "strings (wredis w2) ?k = Some t"
    using t(1) rely(1) unfolding held w1 keeps_claims_def by blast
  assume "event_gates E c' ifr' stream grp cname' mid' e' w2 = (Inr (Some dv'), w3)"
  then obtain early u1 u2 u3 where
    f: "fetch_cached_registry_entry (ce_K E) (ce_dumps_sorted E) (ce_loads E) (ce_pystr_of E) (se_event_id e) w2 =
      (Inr early, u1)"
    and s: "skip_if_processed E stream grp mid' (se_event_id e) (ifr' 11 u1) = (Inr False, u2)"
    and g: "take_claim E c' stream grp cname' mid' (se_event_id e) (ifr' 12 u2) = (Inr True, u3)"
    unfolding same [symmetric] by (rule event_gates_Some)
  have "strings (wredis u1) ?k = Some t" using claim fetch_cached_claims [OF K f] by simp
  then have "strings (wredis u2) ?k = Some t"
    using rely(2) skip_False [OF s] unfolding keeps_claims_def by blast
  then have "strings (wredis (ifr' 12 u2)) ?k = Some t"
    using rely(3) unfolding keeps_claims_def by blast
  with g take_claim_held [OF K _ t(2,3) other] show False by blast
qed

section \<open>Messages that cannot be parsed\<close>

text \<open>A message that does not parse is never yielded and never lost. It is routed to the
  dead-letter stream; it is acknowledged only after its log and index rows carry the routed id.
  When the routing is aborted or fails nothing is acknowledged, so it stays pending. The
  dead-letter invariant holds afterwards in every case.\<close>

lemma unparsable_routed_before_ack:
  assumes inv: "dl_inv (wdb w)" and rely: "\<And>n. world_rely (ifr n)" "\<And>n. dl_rely (env n)"
    and bad: "parse_or_raise E stream f = Inl x"
    and run: "process_gates E s c ifr env stream grp cname mid f w = (res, w')"
  shows "\<exists>a r1 w1. args_key a = (stream, grp, mid) \<and>
    route_to_deadletter (ce_R E) (ce_fuel E) (\<lambda>t. ce_loads E t \<noteq> None) (\<lambda>t. ce_dumps E (JStr t)) c ifr env a w =
      (r1, w1) \<and> wdb w' = wdb w1 \<and> dl_inv (wdb w') \<and> dl_le (wdb w) (wdb w') \<and>
    (case r1 of
       Inl y \<Rightarrow> res = Inl y \<and> w' = w1
     | Inr RoutingAborted \<Rightarrow> res = Inr None \<and> w' = w1
     | Inr (RoutingComplete rid) \<Rightarrow> res = Inr None \<and> routed (wdb w') a rid \<and>
         (wredis w' = wredis w1 \<or> wredis w' = sv_xack (ce_K E) stream grp mid (wredis w1))
     | Inr (RoutingReconciledByAdoption rid) \<Rightarrow> res = Inr None \<and> routed (wdb w') a rid \<and>
         (wredis w' = wredis w1 \<or> wredis w' = sv_xack (ce_K E) stream grp mid (wredis w1)))"
proof -
  obtain u st where x: "x = StreamE (StreamPayloadValidationError u st)"
    using bad by (auto simp: parse_or_raise_def split: option.splits)
  define a where "a = route_request E s stream grp cname mid (case u of None \<Rightarrow> 0 | Some v \<Rightarrow> v) f
    (max_attempts_before_deadletter s + 1) (take 4000 (ce_error_text E x))"
  obtain r1 w1 where r: "route_to_deadletter (ce_R E) (ce_fuel E) (\<lambda>t. ce_loads E t \<noteq> None)
      (\<lambda>t. ce_dumps E (JStr t)) c ifr env a w = (r1, w1)"
    by fastforce
  note g = route_guarantee [OF inv rely r]
  have key: "args_key a = (stream, grp, mid)" by (simp add: a_def args_key_def route_request_def)
  have acked: "\<exists>w2. ignoring (kv_xack (ce_K E) stream grp mid) w1 = (Inr (), w2) \<and> wdb w2 = wdb w1 \<and>
      (wredis w2 = wredis w1 \<or> wredis w2 = sv_xack (ce_K E) stream grp mid (wredis w1))"
    by (auto simp: ignoring_def kv_xack_def call_def split: fault.splits)
  have run': "process_gates E s c ifr env stream grp cname mid f w =
      thn (route E s c ifr env stream grp cname mid (case u of None \<Rightarrow> 0 | Some v \<Rightarrow> v) f
        (max_attempts_before_deadletter s + 1) (take 4000 (ce_error_text E x))) (ret None) w"
    by (simp add: process_gates_def bad x handle_permanent_failure_def)
  show ?thesis
  proof (cases r1)
    case (Inl y)
    then have "res = Inl y \<and> w' = w1"
      using run r by (simp add: run' thn_def bnd_def route_def a_def)
    with Inl g r key show ?thesis by auto
  next
    case (Inr rr)
    with acked run r have "res = Inr None \<and> (if rr = RoutingAborted then w' = w1 else wdb w' = wdb w1 \<and>
      (wredis w' = wredis w1 \<or> wredis w' = sv_xack (ce_K E) stream grp mid (wredis w1)))"
      by (cases rr) (auto simp: run' thn_def bnd_def route_def a_def ret_def)
    with Inr g r key show ?thesis by (cases rr) auto
  qed
qed

section \<open>The whole loop\<close>

text \<open>Whatever a call on the key space does, the database is as before.\<close>

lemma keeps_call: "keeps (\<lambda>w. P (wdb w)) (call K f)"
  unfolding keeps_def using call_wdb by (metis prod.collapse)

lemma keeps_kv:
  "keeps (\<lambda>w. P (wdb w)) (kv_get K k)" "keeps (\<lambda>w. P (wdb w)) (kv_set K k v ex)"
  "keeps (\<lambda>w. P (wdb w)) (kv_set_nx K k v ex)" "keeps (\<lambda>w. P (wdb w)) (kv_del K k)"
  "keeps (\<lambda>w. P (wdb w)) (kv_sismember K k m)" "keeps (\<lambda>w. P (wdb w)) (kv_hincrby K k f n)"
  "keeps (\<lambda>w. P (wdb w)) (kv_xack K st g i)"
  unfolding kv_get_def kv_set_def kv_set_nx_def kv_del_def kv_sismember_def kv_hincrby_def kv_xack_def
  by (rule keeps_call)+

lemma keeps_ignoring: "keeps P m \<Longrightarrow> keeps P (ignoring m)"
  by (fastforce simp: keeps_def ignoring_def split: prod.splits sum.splits)

lemma keeps_fetch_cached:
  "keeps (\<lambda>w. P (wdb w)) (fetch_cached_registry_entry K dumps loads pystr_of u)"
  unfolding fetch_cached_registry_entry_def cache_registry_entry_def
  by (intro keeps_bnd keeps_kv keeps_case_option keeps_thn keeps_ret keeps_raise keeps_lift)
    (simp add: keeps_def)

lemma keeps_skip: "keeps (\<lambda>w. P (wdb w)) (skip_if_processed E stream grp mid u)"
  unfolding skip_if_processed_def by (intro keeps_bnd keeps_kv keeps_if keeps_thn keeps_ret)

lemma keeps_take_claim: "keeps (\<lambda>w. P (wdb w)) (take_claim E c stream grp cname mid u)"
  unfolding take_claim_def
  by (intro keeps_bnd keeps_kv keeps_if keeps_case_option keeps_skip keeps_lift keeps_ret)

lemma keeps_lock_and_check:
  fixes E :: "'a consumer_env"
  shows "keeps (\<lambda>w. P (wdb w)) (lock_and_check E stream grp e candidate)"
proof (rule keepsI)
  fix w :: "'a world" assume P: "P (wdb w)"
  have "keeps (\<lambda>w. P (wdb w)) (thn (kv_del (ce_K E) k) (raise x))" for k x
    by (intro keeps_thn keeps_kv keeps_raise)
  with P show "P (wdb (snd (lock_and_check E stream grp e candidate w)))"
    unfolding lock_and_check_def keeps_def by (auto split: sum.splits)
qed

lemma keeps_event_gates:
  assumes "\<And>n. world_rely (ifr n)"
  shows "keeps (\<lambda>w. ok d0 (wdb w)) (event_gates E c ifr stream grp cname mid e)"
proof -
  have ifr: "keeps (\<lambda>w. ok d0 (wdb w)) (modify (ifr n))" for n
    using assms [of n] by (intro keeps_modify) (meson ok_step okD world_rely_def)
  show ?thesis
    unfolding event_gates_def
    by (simp only: case_prod_unfold, intro keeps_bnd keeps_thn keeps_if keeps_ret keeps_lift ifr
        keeps_fetch_cached keeps_skip keeps_take_claim keeps_lock_and_check)
qed

lemma keeps_route:
  fixes ifr :: "nat \<Rightarrow> 'r world \<Rightarrow> 'r world"
  assumes "\<And>n. world_rely (ifr n)" and "\<And>n. dl_rely (env n)"
  shows "keeps (\<lambda>w. ok d0 (wdb w)) (route E s c ifr env stream grp cname mid u f n t)"
proof -
  have "keeps (\<lambda>w. ok d0 (wdb w)) (route_to_deadletter R fuel ok' dumps c ifr env a)" for R fuel ok' dumps a
  proof (rule keepsI)
    fix w :: "'r world" assume w: "ok d0 (wdb w)"
    show "ok d0 (wdb (snd (route_to_deadletter R fuel ok' dumps c ifr env a w)))"
      using route_guarantee [where ifr = ifr and env = env, OF okD [OF w] assms surjective_pairing] ok_step [OF w]
      by meson
  qed
  then show ?thesis
    unfolding route_def
    by (intro keeps_bnd) (auto intro: keeps_ret keeps_ignoring keeps_kv split: routing_result.splits)
qed

lemma keeps_process_message:
  assumes "\<And>n. world_rely (ifr n)" and "\<And>n. dl_rely (env n)"
  shows "keeps (\<lambda>w. ok d0 (wdb w)) (process_message E s c ifr env react stream grp cname mid f)"
proof -
  note route = keeps_route [OF assms]
  have gates: "keeps (\<lambda>w. ok d0 (wdb w)) (process_gates E s c ifr env stream grp cname mid f)"
    unfolding process_gates_def handle_permanent_failure_def
    by (auto intro!: keeps_thn route keeps_ret keeps_raise keeps_event_gates assms
        split: sum.splits error.splits stream_error.splits)
  have ack: "keeps (\<lambda>w. ok d0 (wdb w)) (ack E c dv)" for dv
    unfolding ack_def
  proof (intro keeps_thn keeps_call)
    show "keeps (\<lambda>w. ok d0 (wdb w)) (in_db (ack_audit c dv))"
      unfolding ack_audit_def by (auto simp: keeps_def in_db_def run_tx_def audit_eval)
  qed
  have caller: "keeps (\<lambda>w. ok d0 (wdb w)) (handle_caller_exception E s c ifr env dv f t)" for dv t
    unfolding handle_caller_exception_def
    by (intro keeps_thn keeps_bnd keeps_ignoring keeps_kv keeps_if route keeps_ret)
  show ?thesis
    unfolding process_message_def
    by (intro keeps_bnd gates keeps_case_option keeps_ret)
      (auto intro: keeps_thn keeps_ret keeps_raise ack caller split: reaction.splits)
qed

text \<open>The consumer loop, run for any number of rounds, on any batches Redis hands out and
  with any behaviour of the caller, keeps the dead-letter tables' invariant and never changes a
  recorded Redis id, whether it goes on or ends with an error.\<close>

lemma consume_keeps_deadletter_ids:
  assumes "\<And>n. world_rely (ifr n)" and "\<And>n. dl_rely (env n)" and "dl_inv (wdb w)"
    and "consume E s c ifr env react claim reads stream grp cname n cursor w = (res, w')"
  shows "dl_inv (wdb w') \<and> dl_le (wdb w) (wdb w')"
proof -
  let ?P = "\<lambda>v. ok (wdb w) (wdb v)"
  have msg: "keeps ?P (collect (\<lambda>(mid, f). process_message E s c ifr env react stream grp cname mid f) es)" for es
    by (intro keeps_collect) (auto intro: keeps_process_message assms(1,2))
  have round: "keeps ?P (consume_round E s c ifr env react claim reads stream grp cname cur)" for cur
    unfolding consume_round_def
  proof (intro keeps_bnd)
    show "keeps ?P (\<lambda>w. case claim cur (wredis w) of
            (Inl _, r) \<Rightarrow> (Inr (cur, []), w\<lparr>wredis := r\<rparr>)
          | (Inr x, r) \<Rightarrow> (Inr x, w\<lparr>wredis := r\<rparr>))"
      by (auto simp: keeps_def split: prod.splits sum.splits)
    have reads: "keeps ?P (\<lambda>w. case reads (wredis w) of
            (Inl x, r) \<Rightarrow> (Inl (ServiceE x), w\<lparr>wredis := r\<rparr>)
          | (Inr es, r) \<Rightarrow> (Inr es, w\<lparr>wredis := r\<rparr>))"
      by (auto simp: keeps_def split: prod.splits sum.splits)
    fix x :: "redis_id \<times> (redis_id \<times> fields) list"
    show "keeps ?P (case x of (cursor', claimed) \<Rightarrow>
        bnd (collect (\<lambda>(mid, f). process_message E s c ifr env react stream grp cname mid f) claimed) (\<lambda>a.
        bnd (\<lambda>w. case reads (wredis w) of
            (Inl x, r) \<Rightarrow> (Inl (ServiceE x), w\<lparr>wredis := r\<rparr>)
          | (Inr es, r) \<Rightarrow> (Inr es, w\<lparr>wredis := r\<rparr>)) (\<lambda>fresh.
        bnd (collect (\<lambda>(mid, f). process_message E s c ifr env react stream grp cname mid f) fresh) (\<lambda>b.
        ret (a @ b, cursor')))))"
      by (cases x) (simp only: prod.case, intro keeps_bnd msg reads keeps_ret)
  qed
  have "keeps ?P (consume E s c ifr env react claim reads stream grp cname n cursor)"
  proof (induction n arbitrary: cursor)
    case (Suc n)
    show ?case
      unfolding consume.simps
      by (intro keeps_bnd round) (simp only: case_prod_unfold, intro keeps_bnd Suc keeps_ret)
  qed (simp add: keeps_ret)
  from keepsD [OF this assms(4)] ok_refl [OF assms(3)] show ?thesis by (simp add: ok_def)
qed

section \<open>Instances\<close>

text \<open>A consumer whose JSON texts are opaque codes: \<open>[1]\<close> is a message payload, \<open>[2]\<close> the claim.\<close>

definition sample_consumer_env :: "full_redis consumer_env" where
  "sample_consumer_env =
     \<lparr>ce_R = full_streams, ce_K = full_keys, ce_fuel = 5,
      ce_loads = (\<lambda>t. if t = [1] then Some (JInt 1)
         else if t = [2] then Some (jobj [(''owner'', jlit ''worker-1'')]) else None),
      ce_dumps = (\<lambda>_. [2]), ce_dumps_sorted = (\<lambda>_. [3]),
      ce_validate = (\<lambda>j. if j = JInt 1 then Some (sample_event 9) else None),
      ce_sha = (\<lambda>_. [7]), ce_pystr_of = (\<lambda>_. []), ce_iso = (\<lambda>_. []),
      ce_error_text = (\<lambda>_. []), ce_traceback = (\<lambda>_. [])\<rparr>"

definition sample_consumer :: stream_consumer where
  "sample_consumer = \<lparr>max_supported = 1, min_supported = 1, max_attempts_before_deadletter = 5,
     deadletter_on_schema_mismatch = True, owner_id = ''worker-1''\<rparr>"

definition sample_delivery :: delivery where
  "sample_delivery = \<lparr>dv_event = sample_event 9, dv_redacted = False, dv_message_id = Rid 40 0,
     dv_stream = ''aslan.entity.created'', dv_group = ''g'', dv_consumer = ''worker-1''\<rparr>"

lemma sample_redis_world_simps [simp]:
  "wdb sample_redis_world = empty_db []" "wredis sample_redis_world = empty_redis"
  by (simp_all add: sample_redis_world_def)

lemma sample_gates:
  "\<exists>w'. process_gates sample_consumer_env sample_consumer sample_ctx (\<lambda>_ w. w) (\<lambda>_ d. d)
      ''aslan.entity.created'' ''g'' ''worker-1'' (Rid 40 0) [(''payload'', [1])] sample_redis_world =
      (Inr (Some sample_delivery), w')"
  "\<exists>w'. event_gates sample_consumer_env sample_ctx (\<lambda>_ w. w)
      ''aslan.entity.created'' ''g'' ''worker-1'' (Rid 40 0) (sample_event 9) sample_redis_world =
      (Inr (Some sample_delivery), w')"
proof -
  show 2: "\<exists>w'. event_gates sample_consumer_env sample_ctx (\<lambda>_ w. w)
      ''aslan.entity.created'' ''g'' ''worker-1'' (Rid 40 0) (sample_event 9) sample_redis_world =
      (Inr (Some sample_delivery), w')"
    by (simp add: event_gates_def sample_consumer_env_def fetch_cached_registry_entry_def kv_get_def call_def
        full_keys_def empty_redis_def fetch_registry_entry_def empty_db_def redacted_candidate_def
        skip_if_processed_def kv_sismember_def take_claim_def kv_set_nx_def lock_and_check_def final_event_def
        bnd_def thn_def ret_def modify_def lift_def sample_delivery_def)
  have "parse_or_raise sample_consumer_env ''aslan.entity.created'' [(''payload'', [1])] = Inr (sample_event 9)"
    by (simp add: parse_or_raise_def sample_consumer_env_def)
  moreover have "check_schema_version sample_consumer (sample_event 9) ''aslan.entity.created'' = Inr ()"
    by (simp add: check_schema_version_def sample_consumer_def sample_event_def)
  ultimately show "\<exists>w'. process_gates sample_consumer_env sample_consumer sample_ctx (\<lambda>_ w. w) (\<lambda>_ d. d)
      ''aslan.entity.created'' ''g'' ''worker-1'' (Rid 40 0) [(''payload'', [1])] sample_redis_world =
      (Inr (Some sample_delivery), w')"
    using 2 by (simp add: process_gates_def)
qed

theorem delivery_respects_redaction_witness:
  "\<exists>w'. yields_redacted sample_consumer_env (sample_event 9) (sample_event 9, False) (wdb w') \<and>
    process_gates sample_consumer_env sample_consumer sample_ctx (\<lambda>_ w. w) (\<lambda>_ d. d)
      ''aslan.entity.created'' ''g'' ''worker-1'' (Rid 40 0) [(''payload'', [1])] sample_redis_world =
      (Inr (Some sample_delivery), w')"
proof -
  obtain w' where g: "process_gates sample_consumer_env sample_consumer sample_ctx (\<lambda>_ w. w) (\<lambda>_ d. d)
      ''aslan.entity.created'' ''g'' ''worker-1'' (Rid 40 0) [(''payload'', [1])] sample_redis_world =
      (Inr (Some sample_delivery), w')"
    using sample_gates(1) by blast
  have "parse_or_raise sample_consumer_env ''aslan.entity.created'' [(''payload'', [1])] = Inr (sample_event 9)"
    by (simp add: parse_or_raise_def sample_consumer_env_def)
  then have "yields_redacted sample_consumer_env (sample_event 9)
      (dv_event sample_delivery, dv_redacted sample_delivery) (wdb w')"
    using delivery_respects_redaction [OF g] by simp
  with g show ?thesis by (auto simp: sample_delivery_def)
qed

lemma sample_K: "redis_keys (ce_K sample_consumer_env) fr_strings fr_sets fr_pending"
  using full.redis_keys_axioms by (simp add: sample_consumer_env_def)

theorem acked_event_not_redelivered_witness:
  "\<exists>w1. ack sample_consumer_env sample_ctx sample_delivery sample_redis_world = (Inr (), w1) \<and>
    event_gates sample_consumer_env sample_ctx (\<lambda>_ w. w) ''aslan.entity.created'' ''g'' ''worker-2''
      (Rid 41 0) (sample_event 9) w1 \<noteq> (Inr (Some sample_delivery), w1)"
proof -
  obtain w1 where a: "ack sample_consumer_env sample_ctx sample_delivery sample_redis_world = (Inr (), w1)"
    by (simp add: ack_def ack_audit_def audit_eval sample_ctx_fields in_db_eval thn_def bnd_def call_def
        sample_consumer_env_def full_keys_def)
  have "keeps_processed fr_sets (\<lambda>w. w)" by (simp add: keeps_processed_def)
  moreover have "se_event_id (sample_event 9) = se_event_id (dv_event sample_delivery)"
    "dv_stream sample_delivery = ''aslan.entity.created''" "dv_group sample_delivery = ''g''"
    by (simp_all add: sample_delivery_def)
  ultimately show ?thesis
    using acked_event_not_redelivered [OF sample_K a subset_refl, of "\<lambda>_ w. w" "sample_event 9"
        sample_ctx "''worker-2''" "Rid 41 0" sample_delivery w1] a by auto
qed

text \<open>Two messages with the same event id: \<open>worker-2\<close> has found the event unprocessed when \<open>worker-1\<close>
  acknowledges it, which releases the claim; \<open>worker-2\<close> then gets the claim and yields the event again.\<close>

lemma overlapping_ack_yields_twice:
  "\<exists>w1 w2 dv. event_gates sample_consumer_env sample_ctx (\<lambda>_ w. w)
      ''aslan.entity.created'' ''g'' ''worker-1'' (Rid 40 0) (sample_event 9) sample_redis_world =
      (Inr (Some sample_delivery), w1) \<and>
    event_gates sample_consumer_env sample_ctx
      (\<lambda>n w. if n = 12 then snd (ack sample_consumer_env sample_ctx sample_delivery w) else w)
      ''aslan.entity.created'' ''g'' ''worker-2'' (Rid 41 0) (sample_event 9) w1 =
      (Inr (Some dv), w2) \<and>
    dv_event dv = dv_event sample_delivery \<and>
    uuid_str (se_event_id (sample_event 9)) \<in> fr_sets (wredis w2) (processed_key ''aslan.entity.created'' ''g'')"
proof -
  let ?w1 = "sample_redis_world\<lparr>wredis := sv_set full_keys (claim_key ''aslan.entity.created'' ''g'' (se_event_id (sample_event 9)))
    [2] CLAIM_LEASE_SECONDS empty_redis\<rparr>"
  have first: "event_gates sample_consumer_env sample_ctx (\<lambda>_ w. w)
      ''aslan.entity.created'' ''g'' ''worker-1'' (Rid 40 0) (sample_event 9) sample_redis_world =
      (Inr (Some sample_delivery), ?w1)"
    by (simp add: event_gates_def sample_consumer_env_def fetch_cached_registry_entry_def kv_get_def call_def
        full_keys_def empty_redis_def fetch_registry_entry_def empty_db_def redacted_candidate_def
        skip_if_processed_def kv_sismember_def take_claim_def kv_set_nx_def lock_and_check_def final_event_def
        bnd_def thn_def ret_def modify_def lift_def sample_delivery_def claim_payload_def)
  show ?thesis
    by (rule exI [of _ ?w1], simp add: first)
      (simp add: event_gates_def sample_consumer_env_def fetch_cached_registry_entry_def kv_get_def call_def
        full_keys_def empty_redis_def fetch_registry_entry_def empty_db_def redacted_candidate_def
        skip_if_processed_def kv_sismember_def take_claim_def kv_set_nx_def lock_and_check_def final_event_def
        bnd_def thn_def ret_def modify_def lift_def sample_delivery_def ack_def ack_audit_def audit_eval
        sample_ctx_fields in_db_eval ack_script_def Let_def cache_key_not_claim_key)
qed

lemma claimed_event_not_shared_witness:
  "\<exists>w1. event_gates sample_consumer_env sample_ctx (\<lambda>_ w. w)
      ''aslan.entity.created'' ''g'' ''worker-1'' (Rid 40 0) (sample_event 9) sample_redis_world =
      (Inr (Some sample_delivery), w1) \<and>
    event_gates sample_consumer_env sample_ctx (\<lambda>_ w. w)
      ''aslan.entity.created'' ''g'' ''worker-2'' (Rid 41 0) (sample_event 9) w1 \<noteq>
      (Inr (Some sample_delivery), w1)"
proof -
  obtain w1 where g: "event_gates sample_consumer_env sample_ctx (\<lambda>_ w. w)
      ''aslan.entity.created'' ''g'' ''worker-1'' (Rid 40 0) (sample_event 9) sample_redis_world =
      (Inr (Some sample_delivery), w1)"
    using sample_gates(2) by blast
  have "claim_owner sample_consumer_env (claim_payload sample_consumer_env sample_ctx ''worker-1'' (Rid 40 0)) =
      Inr (Some (jlit ''worker-1''))" "ce_loads sample_consumer_env [] = None"
    by (simp_all add: claim_owner_def claim_payload_def sample_consumer_env_def jobj_def)
  moreover have "keeps_claims fr_strings (\<lambda>w. w)" by (simp add: keeps_claims_def)
  ultimately show ?thesis
    using claimed_event_not_shared [OF sample_K _ _ g, of "\<lambda>_ w. w" w1 "''worker-2''" "sample_event 9"
        sample_ctx "Rid 41 0" sample_delivery w1] g by simp
qed

lemma unparsable_routed_before_ack_witness:
  "case process_gates sample_consumer_env sample_consumer sample_ctx (\<lambda>_ w. w) (\<lambda>_ d. d)
      ''aslan.entity.created'' ''g'' ''worker-1'' (Rid 40 0) [] sample_redis_world of (res, w') \<Rightarrow>
    dl_inv (wdb w')"
proof -
  have "parse_or_raise sample_consumer_env ''aslan.entity.created'' [] =
      Inl (StreamE (StreamPayloadValidationError None ''aslan.entity.created''))"
    by (simp add: parse_or_raise_def)
  moreover have "dl_inv (wdb sample_redis_world)" by (simp add: dl_inv_def empty_db_def)
  ultimately show ?thesis
    using unparsable_routed_before_ack [OF _ id_rely _ surjective_pairing, of sample_redis_world
        sample_consumer_env "''aslan.entity.created''" "[]"] unfolding case_prod_unfold by blast
qed

lemma consume_keeps_deadletter_ids_witness:
  "case consume sample_consumer_env sample_consumer sample_ctx (\<lambda>_ w. w) (\<lambda>_ d. d) (\<lambda>_. CallsAck)
      (\<lambda>i r. (Inr (i, []), r)) (\<lambda>r. (Inr [(Rid 40 0, [(''payload'', [1])]), (Rid 41 0, [])], r))
      ''aslan.entity.created'' ''g'' ''worker-1'' 3 rid_zero sample_redis_world of (res, w') \<Rightarrow>
    dl_inv (wdb w')"
proof -
  have "dl_inv (wdb sample_redis_world)" by (simp add: dl_inv_def empty_db_def)
  from consume_keeps_deadletter_ids [where ifr = "\<lambda>_ w. w" and env = "\<lambda>_ d. d", OF id_rely this surjective_pairing] show ?thesis
    unfolding case_prod_unfold by blast
qed

end
