(* ===== verification/Stream_Producer.thy ===== *)
theory Stream_Producer
  imports Stream_Events
begin

text \<open>
  The transactional outbox writer (\<open>streams/producer.py\<close>). The producer runs on the
  caller's session: \<open>committed\<close> is what the session's transaction started from, \<open>work\<close> what
  it sees now. \<open>session.rollback()\<close> goes back to \<open>committed\<close>; the counters behind
  \<open>BIGSERIAL\<close> columns do not go back. The \<open>traceparent\<close> that OpenTelemetry would inject is
  the parameter \<open>tp\<close>, the rendering of time stamps in the payload the parameter \<open>fmt\<close>.
\<close>

section \<open>Sessions\<close>

record session =
  committed :: db
  work :: db

definition in_work :: "(error, db, 'a) op \<Rightarrow> (error, session, 'a) op" where
  "in_work m = (\<lambda>s. case m (work s) of (r, d) \<Rightarrow> (r, s\<lparr>work := d\<rparr>))"

definition rolled_back :: "db \<Rightarrow> db \<Rightarrow> db" where
  "rolled_back d w = d\<lparr>run_seq := run_seq w, outbox_seq := outbox_seq w, dl_seq := dl_seq w,
     series_seq := series_seq w, ident_seq := ident_seq w,
     audit_events := (audit_events d)\<lparr>event_seq := event_seq (audit_events w)\<rparr>\<rparr>"

definition rollback :: "session \<Rightarrow> session" where
  "rollback s = s\<lparr>work := rolled_back (committed s) (work s)\<rparr>"

definition commit :: "session \<Rightarrow> session" where
  "commit s = s\<lparr>committed := work s\<rparr>"

section \<open>The producer\<close>

definition resolve_stream :: "stream_event \<Rightarrow> string option \<Rightarrow> error + string" where
  "resolve_stream e explicit =
     (case explicit of
        Some s \<Rightarrow> Inr s
      | None \<Rightarrow>
          (case event_kind e of
             None \<Rightarrow> Inl (StreamE (UnknownEventKind ''None''))
           | Some k \<Rightarrow>
               (case map_of STREAM_FOR_EVENT_KIND k of
                  None \<Rightarrow> Inl (StreamE (UnknownEventKind k))
                | Some s \<Rightarrow> Inr s)))"

definition stamp :: "int \<Rightarrow> actor option \<Rightarrow> pystr option \<Rightarrow> stream_event \<Rightarrow> stream_event" where
  "stamp run a tp e =
     (let e1 = (if se_producer_run_id e \<noteq> run then e\<lparr>se_producer_run_id := run\<rparr> else e);
          e2 = (case a of
                  Some x \<Rightarrow> if se_actor_id e = None
                    then e1\<lparr>se_actor_id := Some (actor_id x), se_actor_kind := Some (actor_kind x)\<rparr> else e1
                | None \<Rightarrow> e1)
      in if se_traceparent e = None then (case tp of None \<Rightarrow> e2 | Some t \<Rightarrow> e2\<lparr>se_traceparent := Some t\<rparr>)
         else e2)"

text \<open>
  \<open>_insert_outbox\<close>. The insert takes an id from the sequence and then fails on the unique
  \<open>event_id\<close> or on the references to \<open>src.ingestion_run\<close> and \<open>src.source\<close>; every such
  failure rolls the session back and is reported as a duplicate event id.
\<close>

definition outbox_row :: "(datetime \<Rightarrow> pystr) \<Rightarrow> ctx \<Rightarrow> int \<Rightarrow> stream_event \<Rightarrow> string \<Rightarrow> outbox" where
  "outbox_row fmt c oid e stream =
     \<lparr>ob_id = oid, ob_stream_name = stream, ob_event_id = se_event_id e,
      ob_schema_version = se_schema_version e, ob_payload = model_dump fmt e,
      ob_producer_run_id = se_producer_run_id e, ob_source_id = se_source_id e,
      ob_created_at = ctx_now c, ob_published_at = None, ob_redis_message_id = None,
      ob_publish_attempts = 0, ob_last_attempt_at = None, ob_last_error = None,
      ob_audit =
        \<lparr>ac_actor_id = map_option actor_id (ctx_actor c),
         ac_actor_kind = map_option actor_kind (ctx_actor c),
         ac_client_ip = Option.bind (ctx_actor c)
           (\<lambda>a. Option.bind (client_ip a) (\<lambda>ip. if ip = [] then None else Some ip)),
         ac_user_agent = Option.bind (ctx_actor c) user_agent,
         ac_request_id = se_request_id e\<rparr>\<rparr>"

definition outbox_insertable :: "stream_event \<Rightarrow> db \<Rightarrow> bool" where
  "outbox_insertable e d \<longleftrightarrow>
     se_event_id e \<notin> ob_event_id ` set (outboxes d) \<and>
     se_producer_run_id e \<in> run_id ` set (runs d) \<and> se_source_id e \<in> set (sources d)"

definition insert_outbox ::
  "(datetime \<Rightarrow> pystr) \<Rightarrow> ctx \<Rightarrow> stream_event \<Rightarrow> string \<Rightarrow> (error, session, int) op" where
  "insert_outbox fmt c e stream = (\<lambda>s.
     let d = work s; s1 = s\<lparr>work := d\<lparr>outbox_seq := outbox_seq d + 1\<rparr>\<rparr>
     in if outbox_insertable e d then
          (Inr (outbox_seq d),
           s1\<lparr>work := (work s1)\<lparr>outboxes := outboxes d @ [outbox_row fmt c (outbox_seq d) e stream]\<rparr>\<rparr>)
        else (Inl (StreamE (StreamEventIdConflict (se_event_id e) stream)), rollback s1))"

definition publish_audit :: "ctx \<Rightarrow> int \<Rightarrow> json \<Rightarrow> json \<Rightarrow> (error, db, unit) op" where
  "publish_audit c run pk md = audit c
     \<lparr>ar_operation = ''stream.publish'', ar_target_schema = ''streams'', ar_target_table = ''outbox'',
      ar_target_pk = pk, ar_before = None, ar_after = None, ar_metadata = md,
      ar_ingestion_run_id = Some run\<rparr>"

definition publish ::
  "(datetime \<Rightarrow> pystr) \<Rightarrow> pystr option \<Rightarrow> ctx \<Rightarrow> int \<Rightarrow> stream_event \<Rightarrow> string option \<Rightarrow>
   (error, session, int) op" where
  "publish fmt tp c run e stream =
     bnd (lift (resolve_stream e stream)) (\<lambda>resolved.
     thn (assert_actor_or_strict_raise c)
    (let stamped = stamp run (ctx_actor c) tp e
     in bnd (insert_outbox fmt c stamped resolved) (\<lambda>oid.
        thn (in_work (publish_audit c run (jobj [(''outbox_id'', JInt oid)])
               (jobj [(''event_id'', JStr (uuid_str (se_event_id stamped))),
                      (''stream_name'', jlit resolved),
                      (''schema_version'', JInt (se_schema_version stamped)),
                      (''kind'', jlit (case event_kind stamped of None \<Rightarrow> ''stream.event'' | Some k \<Rightarrow> k)),
                      (''outbox_id'', JInt oid)])))
       (ret oid))))"

text \<open>Phase 0 of \<open>publish_many\<close>: the first event id that occurs twice.\<close>

fun first_dup :: "uuid set \<Rightarrow> stream_event list \<Rightarrow> uuid option" where
  "first_dup seen [] = None"
| "first_dup seen (e # es) =
     (if se_event_id e \<in> seen then Some (se_event_id e) else first_dup (insert (se_event_id e) seen) es)"

fun resolve_all :: "string option \<Rightarrow> stream_event list \<Rightarrow> error + string list" where
  "resolve_all stream [] = Inr []"
| "resolve_all stream (e # es) =
     (case resolve_stream e stream of
        Inl x \<Rightarrow> Inl x
      | Inr s \<Rightarrow> (case resolve_all stream es of Inl x \<Rightarrow> Inl x | Inr ss \<Rightarrow> Inr (s # ss)))"

definition batch_metadata :: "stream_event list \<Rightarrow> string list \<Rightarrow> json" where
  "batch_metadata stamped streams =
     jobj [(''event_count'', JInt (int (length stamped))),
           (''event_ids'', JArr (map (\<lambda>e. JStr (uuid_str (se_event_id e))) (take 100 stamped))),
           (''streams'', JArr (map jlit (take 20 (sort (remdups streams)))))]"

definition publish_many ::
  "(datetime \<Rightarrow> pystr) \<Rightarrow> pystr option \<Rightarrow> ctx \<Rightarrow> int \<Rightarrow> stream_event list \<Rightarrow> string option \<Rightarrow>
   (error, session, int list) op" where
  "publish_many fmt tp c run es stream =
     (if es = [] then ret []
      else case first_dup {} es of
        Some u \<Rightarrow> raise (StreamE (StreamEventIdConflict u
          (case stream of Some s \<Rightarrow> if s = [] then ''<resolve-per-event>'' else s
                        | None \<Rightarrow> ''<resolve-per-event>'')))
      | None \<Rightarrow>
          thn (assert_actor_or_strict_raise c)
         (bnd (lift (resolve_all stream es)) (\<lambda>streams.
          let stamped = map (stamp run (ctx_actor c) tp) es
          in bnd (collect (\<lambda>(s, e). insert_outbox fmt c e s) (zip streams stamped)) (\<lambda>oids.
             thn (in_work (publish_audit c run (jobj [(''batch_first_outbox_id'', JInt (hd oids))])
                    (batch_metadata stamped streams)))
            (ret oids)))))"

section \<open>Properties\<close>

lemma stamp_run [simp]: "se_producer_run_id (stamp run a tp e) = run"
  by (auto simp: stamp_def Let_def split: option.splits)

lemma stamp_keeps [simp]:
  "se_event_id (stamp run a tp e) = se_event_id e"
  "se_source_id (stamp run a tp e) = se_source_id e"
  "se_schema_version (stamp run a tp e) = se_schema_version e"
  "se_body (stamp run a tp e) = se_body e"
  "se_request_id (stamp run a tp e) = se_request_id e"
  "event_kind (stamp run a tp e) = event_kind e"
  by (auto simp: stamp_def Let_def event_kind_def split: option.splits)

lemma stamp_actor: "se_actor_id e \<noteq> None \<Longrightarrow> se_actor_id (stamp run a tp e) = se_actor_id e"
  "se_actor_id e = None \<Longrightarrow> se_actor_id (stamp run a tp e) = map_option actor_id a"
  by (auto simp: stamp_def Let_def split: option.splits)

lemma in_work_eval: "m (work s) = (r, d) \<Longrightarrow> in_work m s = (r, s\<lparr>work := d\<rparr>)"
  by (simp add: in_work_def)

lemma first_dup_None: "first_dup seen es = None \<longleftrightarrow>
    distinct (map se_event_id es) \<and> se_event_id ` set es \<inter> seen = {}"
  by (induction seen es rule: first_dup.induct) auto

lemma resolve_all_length: "resolve_all stream es = Inr ss \<Longrightarrow> length ss = length es"
  by (induction es arbitrary: ss) (auto split: sum.splits)

lemma resolve_all_nth: "resolve_all stream es = Inr ss \<Longrightarrow> i < length es \<Longrightarrow>
    resolve_stream (es ! i) stream = Inr (ss ! i)"
  by (induction es arbitrary: ss i) (auto simp: nth_Cons split: sum.splits nat.splits)

text \<open>The table of outbox rows is well formed.\<close>

definition outbox_ok :: "db \<Rightarrow> bool" where
  "outbox_ok d \<longleftrightarrow>
     distinct (map ob_event_id (outboxes d)) \<and> distinct (map ob_id (outboxes d)) \<and>
     (\<forall>r \<in> set (outboxes d). ob_id r < outbox_seq d \<and>
        ob_producer_run_id r \<in> run_id ` set (runs d) \<and> ob_source_id r \<in> set (sources d))"

definition session_ok :: "session \<Rightarrow> bool" where
  "session_ok s \<longleftrightarrow> outbox_ok (committed s) \<and> outbox_ok (work s) \<and>
     outbox_seq (committed s) \<le> outbox_seq (work s)"

lemma outbox_ok_audit [simp]: "outbox_ok (d\<lparr>audit_events := l\<rparr>) \<longleftrightarrow> outbox_ok d"
  by (simp add: outbox_ok_def)

lemma outbox_ok_seq: "outbox_ok d \<Longrightarrow> outbox_seq d \<le> n \<Longrightarrow> outbox_ok (d\<lparr>outbox_seq := n\<rparr>)"
  by (auto simp: outbox_ok_def)

lemma rolled_back_ok:
  "outbox_ok d \<Longrightarrow> outbox_seq d \<le> outbox_seq w \<Longrightarrow> outbox_ok (rolled_back d w)"
  by (auto simp: outbox_ok_def rolled_back_def)

lemma insert_outbox_ok: "keeps session_ok (insert_outbox fmt c e stream)"
proof (rule keepsI)
  fix s assume ok: "session_ok s"
  show "session_ok (snd (insert_outbox fmt c e stream s))"
  proof (cases "outbox_insertable e (work s)")
    case True
    with ok show ?thesis
      by (auto simp: insert_outbox_def Let_def session_ok_def outbox_insertable_def outbox_ok_def
          outbox_row_def)
  next
    case False
    have "outbox_ok (rolled_back (committed s) ((work s)\<lparr>outbox_seq := outbox_seq (work s) + 1\<rparr>))"
      using ok by (intro rolled_back_ok) (auto simp: session_ok_def)
    with False ok show ?thesis
      by (simp add: insert_outbox_def Let_def rollback_def session_ok_def rolled_back_def)
  qed
qed

lemma publish_audit_ok: "keeps session_ok (in_work (publish_audit c run pk md))"
  by (auto simp: keeps_def in_work_def publish_audit_def audit_eval session_ok_def)

lemma publish_keeps_ok: "keeps session_ok (publish fmt tp c run e stream)"
  unfolding publish_def Let_def
  by (intro keeps_intros assert_actor_keeps insert_outbox_ok publish_audit_ok)

lemma publish_many_keeps_ok: "keeps session_ok (publish_many fmt tp c run es stream)"
  unfolding publish_many_def Let_def case_prod_unfold
  by (intro keeps_intros assert_actor_keeps insert_outbox_ok publish_audit_ok)

subsection \<open>A batch\<close>

text \<open>The rows of a batch, numbered from the current sequence value.\<close>

fun batch_rows ::
  "(datetime \<Rightarrow> pystr) \<Rightarrow> ctx \<Rightarrow> int \<Rightarrow> (string \<times> stream_event) list \<Rightarrow> outbox list" where
  "batch_rows fmt c n [] = []"
| "batch_rows fmt c n ((s, e) # ses) = outbox_row fmt c n e s # batch_rows fmt c (n + 1) ses"

lemma batch_rows_ids: "map ob_id (batch_rows fmt c n ses) = map (\<lambda>i. n + int i) [0..<length ses]"
proof (induction ses arbitrary: n)
  case (Cons x ses)
  obtain s e where x: "x = (s, e)" by (cases x)
  have "map (\<lambda>i. n + int i) [0..<Suc (length ses)] = n # map (\<lambda>i. n + 1 + int i) [0..<length ses]"
    by (simp add: upt_conv_Cons map_Suc_upt [symmetric] comp_def del: upt_Suc)
  with Cons.IH [of "n + 1"] show ?case by (simp add: x outbox_row_def)
qed simp

lemma batch_rows_events: "map ob_event_id (batch_rows fmt c n ses) = map (se_event_id \<circ> snd) ses"
  by (induction fmt c n ses rule: batch_rows.induct) (simp_all add: outbox_row_def)

lemma insert_outbox_hit:
  "outbox_insertable e (work s) \<Longrightarrow>
   insert_outbox fmt c e stream s = (Inr (outbox_seq (work s)),
     s\<lparr>work := (work s)\<lparr>outboxes := outboxes (work s) @ [outbox_row fmt c (outbox_seq (work s)) e stream],
       outbox_seq := outbox_seq (work s) + 1\<rparr>\<rparr>)"
  by (simp add: insert_outbox_def Let_def)

lemma insert_all:
  assumes "distinct (map (se_event_id \<circ> snd) ses)"
    and "\<And>s e. (s, e) \<in> set ses \<Longrightarrow> outbox_insertable e (work w)"
  shows "collect (\<lambda>(s, e). insert_outbox fmt c e s) ses w =
    (Inr (map (\<lambda>i. outbox_seq (work w) + int i) [0..<length ses]),
     w\<lparr>work := (work w)\<lparr>outboxes := outboxes (work w) @ batch_rows fmt c (outbox_seq (work w)) ses,
       outbox_seq := outbox_seq (work w) + int (length ses)\<rparr>\<rparr>)"
  using assms
proof (induction ses arbitrary: w)
  case Nil
  show ?case by (simp add: ret_def)
next
  case (Cons x ses)
  obtain s e where x: "x = (s, e)" by (cases x)
  let ?n = "outbox_seq (work w)"
  let ?w = "w\<lparr>work := (work w)\<lparr>outboxes := outboxes (work w) @ [outbox_row fmt c ?n e s],
      outbox_seq := ?n + 1\<rparr>\<rparr>"
  have one: "insert_outbox fmt c e s w = (Inr ?n, ?w)"
    using Cons.prems(2) x by (intro insert_outbox_hit) auto
  have "outbox_insertable e' (work ?w)" if "(s', e') \<in> set ses" for s' e'
  proof -
    have "outbox_insertable e' (work w)" using Cons.prems(2) that by auto
    moreover have "se_event_id e' \<noteq> se_event_id e"
      using Cons.prems(1) that by (force simp: x image_iff)
    ultimately show ?thesis by (simp add: outbox_insertable_def outbox_row_def)
  qed
  then have rest: "collect (\<lambda>(s, e). insert_outbox fmt c e s) ses ?w =
      (Inr (map (\<lambda>i. outbox_seq (work ?w) + int i) [0..<length ses]),
       ?w\<lparr>work := (work ?w)\<lparr>outboxes := outboxes (work ?w) @ batch_rows fmt c (outbox_seq (work ?w)) ses,
         outbox_seq := outbox_seq (work ?w) + int (length ses)\<rparr>\<rparr>)"
    using Cons.prems(1) by (intro Cons.IH) auto
  have ids: "map (\<lambda>i. ?n + int i) [0..<Suc (length ses)] =
      ?n # map (\<lambda>i. ?n + 1 + int i) [0..<length ses]"
    by (simp add: upt_conv_Cons map_Suc_upt [symmetric] comp_def del: upt_Suc)
  show ?case
    using rest by (simp add: x bnd_eval one ids ret_def del: upt_Suc)
qed

lemma insert_outbox_miss:
  "\<not> outbox_insertable e (work s) \<Longrightarrow>
   insert_outbox fmt c e stream s = (Inl (StreamE (StreamEventIdConflict (se_event_id e) stream)),
     s\<lparr>work := rolled_back (committed s) ((work s)\<lparr>outbox_seq := outbox_seq (work s) + 1\<rparr>)\<rparr>)"
  by (simp add: insert_outbox_def Let_def rollback_def)

lemma insert_all_Inr:
  assumes "collect (\<lambda>(s, e). insert_outbox fmt c e s) ses w = (Inr ys, w')"
  shows "ys = map (\<lambda>i. outbox_seq (work w) + int i) [0..<length ses] \<and>
    w' = w\<lparr>work := (work w)\<lparr>outboxes := outboxes (work w) @ batch_rows fmt c (outbox_seq (work w)) ses,
       outbox_seq := outbox_seq (work w) + int (length ses)\<rparr>\<rparr>"
  using assms
proof (induction ses arbitrary: w ys)
  case Nil
  then show ?case by simp
next
  case (Cons x ses)
  obtain s e where x: "x = (s, e)" by (cases x)
  let ?n = "outbox_seq (work w)"
  let ?w = "w\<lparr>work := (work w)\<lparr>outboxes := outboxes (work w) @ [outbox_row fmt c ?n e s],
      outbox_seq := ?n + 1\<rparr>\<rparr>"
  have "outbox_insertable e (work w)"
    using Cons.prems insert_outbox_miss by (fastforce simp: x bnd_Inr_iff)
  then have one: "insert_outbox fmt c e s w = (Inr ?n, ?w)" by (rule insert_outbox_hit)
  with Cons.prems obtain zs where
    rest: "collect (\<lambda>(s, e). insert_outbox fmt c e s) ses ?w = (Inr zs, w')" and ys: "ys = ?n # zs"
    by (auto simp: x bnd_Inr_iff)
  have ids: "map (\<lambda>i. ?n + int i) [0..<Suc (length ses)] =
      ?n # map (\<lambda>i. ?n + 1 + int i) [0..<length ses]"
    by (simp add: upt_conv_Cons map_Suc_upt [symmetric] comp_def del: upt_Suc)
  show ?case
    using Cons.IH [OF rest] by (simp add: x ys ids del: upt_Suc)
qed

lemma insert_all_Inl:
  assumes "collect (\<lambda>(s, e). insert_outbox fmt c e s) ses w = (Inl x, w')"
  shows "\<exists>u st d. x = StreamE (StreamEventIdConflict u st) \<and>
    w' = w\<lparr>work := rolled_back (committed w) d\<rparr>"
  using assms
proof (induction ses arbitrary: w)
  case Nil
  then show ?case by simp
next
  case (Cons y ses)
  obtain s e where y: "y = (s, e)" by (cases y)
  show ?case
  proof (cases "outbox_insertable e (work w)")
    case True
    let ?w = "w\<lparr>work := (work w)\<lparr>outboxes := outboxes (work w) @
        [outbox_row fmt c (outbox_seq (work w)) e s], outbox_seq := outbox_seq (work w) + 1\<rparr>\<rparr>"
    have "insert_outbox fmt c e s w = (Inr (outbox_seq (work w)), ?w)"
      using True by (rule insert_outbox_hit)
    with Cons.prems have "collect (\<lambda>(s, e). insert_outbox fmt c e s) ses ?w = (Inl x, w')"
      by (auto simp: y bnd_Inl_iff)
    from Cons.IH [OF this] show ?thesis by simp
  next
    case False
    with Cons.prems insert_outbox_miss [OF False, of fmt c s] show ?thesis
      by (auto simp: y bnd_Inl_iff)
  qed
qed

lemma audit_allowed:
  assumes "assert_actor_or_strict_raise c s = (Inr u, s')"
  shows "s' = s \<and> \<not> (ctx_actor c = None \<and> ctx_strict c)"
  using assms by (auto simp: assert_actor_cases split: if_splits)

definition batch_audit :: "ctx \<Rightarrow> int \<Rightarrow> int \<Rightarrow> stream_event list \<Rightarrow> string list \<Rightarrow> audit_event" where
  "batch_audit c run first stamped streams = attributed_event c
     \<lparr>ar_operation = ''stream.publish'', ar_target_schema = ''streams'', ar_target_table = ''outbox'',
      ar_target_pk = jobj [(''batch_first_outbox_id'', JInt first)], ar_before = None, ar_after = None,
      ar_metadata = batch_metadata stamped streams, ar_ingestion_run_id = Some run\<rparr>"

text \<open>What a successful batch leaves in the session.\<close>

definition batch_done ::
  "(datetime \<Rightarrow> pystr) \<Rightarrow> ctx \<Rightarrow> int \<Rightarrow> stream_event list \<Rightarrow> string list \<Rightarrow> session \<Rightarrow> session" where
  "batch_done fmt c run stamped streams s =
     (let d = work s; n = outbox_seq d
      in s\<lparr>work := d\<lparr>outboxes := outboxes d @ batch_rows fmt c n (zip streams stamped),
           outbox_seq := n + int (length stamped),
           audit_events := log_event (batch_audit c run n stamped streams) (audit_events d)\<rparr>\<rparr>)"

lemma batch_finish:
  assumes "es \<noteq> []" and "length streams = length es" and "\<not> (ctx_actor c = None \<and> ctx_strict c)"
    and "collect (\<lambda>(s, e). insert_outbox fmt c e s) (zip streams (map f es)) s = (Inr oids, s1)"
  shows "thn (in_work (publish_audit c run (jobj [(''batch_first_outbox_id'', JInt (hd oids))])
        (batch_metadata (map f es) streams))) (ret oids) s1 =
      (Inr (map (\<lambda>i. outbox_seq (work s) + int i) [0..<length es]), batch_done fmt c run (map f es) streams s)"
proof -
  from insert_all_Inr [OF assms(4)] assms(2)
  have oids: "oids = map (\<lambda>i. outbox_seq (work s) + int i) [0..<length es]"
    and s1: "s1 = s\<lparr>work := (work s)\<lparr>outboxes := outboxes (work s) @
         batch_rows fmt c (outbox_seq (work s)) (zip streams (map f es)),
       outbox_seq := outbox_seq (work s) + int (length es)\<rparr>\<rparr>" by simp_all
  have hd: "hd oids = outbox_seq (work s)"
    using assms(1) by (simp add: oids hd_map upt_conv_Cons)
  have "in_work (publish_audit c run (jobj [(''batch_first_outbox_id'', JInt (hd oids))])
        (batch_metadata (map f es) streams)) s1 = (Inr (), batch_done fmt c run (map f es) streams s)"
    using assms(3) by (simp add: in_work_def publish_audit_def audit_eval hd s1 batch_done_def
        batch_audit_def Let_def)
  then show ?thesis by (simp add: thn_eval oids ret_def)
qed

text \<open>C4. A batch publish is all or nothing. When it returns, it has appended one outbox row
  per event, in order, with consecutive ids from the sequence, which it returns, and exactly one
  audit row for the whole batch (nothing at all for an empty batch). When it raises, the
  session is unchanged, or, after a conflicting insert, its transaction is back where it
  started: the committed tables, with only counters advanced.\<close>

theorem publish_many_all_or_nothing:
  "case publish_many fmt tp c run es stream s of
     (Inr oids, s') \<Rightarrow>
       (es = [] \<and> oids = [] \<and> s' = s) \<or>
       (\<exists>streams. resolve_all stream es = Inr streams \<and> distinct (map se_event_id es) \<and>
          oids = map (\<lambda>i. outbox_seq (work s) + int i) [0..<length es] \<and>
          s' = batch_done fmt c run (map (stamp run (ctx_actor c) tp) es) streams s)
   | (Inl x, s') \<Rightarrow> s' = s \<or>
       (\<exists>u st d. x = StreamE (StreamEventIdConflict u st) \<and>
          s' = s\<lparr>work := rolled_back (committed s) d\<rparr>)"
proof -
  let ?f = "stamp run (ctx_actor c) tp"
  consider "es = []" | u where "es \<noteq> []" "first_dup {} es = Some u"
    | "es \<noteq> []" "first_dup {} es = None" "ctx_actor c = None \<and> ctx_strict c"
    | x where "es \<noteq> []" "first_dup {} es = None" "\<not> (ctx_actor c = None \<and> ctx_strict c)"
        "resolve_all stream es = Inl x"
    | streams where "es \<noteq> []" "first_dup {} es = None" "\<not> (ctx_actor c = None \<and> ctx_strict c)"
        "resolve_all stream es = Inr streams"
    by (metis not_None_eq sum.exhaust)
  then show ?thesis
  proof cases
    case 5
    let ?ses = "zip streams (map ?f es)"
    have run: "publish_many fmt tp c run es stream s =
        bnd (collect (\<lambda>(s, e). insert_outbox fmt c e s) ?ses) (\<lambda>oids.
          thn (in_work (publish_audit c run (jobj [(''batch_first_outbox_id'', JInt (hd oids))])
                 (batch_metadata (map ?f es) streams))) (ret oids)) s"
      using 5 by (auto simp: publish_many_def thn_def bnd_def assert_actor_cases Let_def lift_def)
    obtain r s1 where step: "collect (\<lambda>(s, e). insert_outbox fmt c e s) ?ses s = (r, s1)"
      by (cases "collect (\<lambda>(s, e). insert_outbox fmt c e s) ?ses s")
    show ?thesis
    proof (cases r)
      case (Inl x)
      with step insert_all_Inl [of fmt c ?ses s x s1] show ?thesis
        by (simp add: run bnd_fail)
    next
      case (Inr oids)
      with step have step: "collect (\<lambda>(s, e). insert_outbox fmt c e s) ?ses s = (Inr oids, s1)" by simp
      have "distinct (map se_event_id es)" using 5 by (simp add: first_dup_None)
      then show ?thesis
        using batch_finish [OF 5(1) resolve_all_length [OF 5(4)] 5(3) step] 5(4)
        by (simp add: run bnd_eval step)
    qed
  qed (simp_all add: publish_many_def ret_def raise_def thn_def bnd_def assert_actor_cases lift_def)
qed

text \<open>A batch of events with distinct fresh ids, resolvable streams, an allowed actor, a
  known run and known sources is published: the call returns the ids of its rows.\<close>

lemma publish_many_succeeds:
  assumes "es \<noteq> []" and "distinct (map se_event_id es)"
    and "\<not> (ctx_actor c = None \<and> ctx_strict c)" and "resolve_all stream es = Inr streams"
    and "\<And>e. e \<in> set es \<Longrightarrow> outbox_insertable (stamp run (ctx_actor c) tp e) (work s)"
  shows "publish_many fmt tp c run es stream s =
    (Inr (map (\<lambda>i. outbox_seq (work s) + int i) [0..<length es]),
     batch_done fmt c run (map (stamp run (ctx_actor c) tp) es) streams s)"
proof -
  let ?f = "stamp run (ctx_actor c) tp"
  let ?ses = "zip streams (map ?f es)"
  have len: "length streams = length es" using assms(4) by (rule resolve_all_length)
  have dup: "first_dup {} es = None" using assms(2) by (simp add: first_dup_None)
  have "map (se_event_id \<circ> snd) ?ses = map se_event_id es"
    by (simp add: len flip: map_map) (simp add: comp_def)
  then have "collect (\<lambda>(s, e). insert_outbox fmt c e s) ?ses s =
      (Inr (map (\<lambda>i. outbox_seq (work s) + int i) [0..<length ?ses]),
       s\<lparr>work := (work s)\<lparr>outboxes := outboxes (work s) @ batch_rows fmt c (outbox_seq (work s)) ?ses,
         outbox_seq := outbox_seq (work s) + int (length ?ses)\<rparr>\<rparr>)" (is "_ = (Inr ?oids, ?s1)")
    using assms(2,5) by (intro insert_all) (auto dest!: set_zip_rightD)
  note step = this
  have "publish_many fmt tp c run es stream s =
        bnd (collect (\<lambda>(s, e). insert_outbox fmt c e s) ?ses) (\<lambda>oids.
          thn (in_work (publish_audit c run (jobj [(''batch_first_outbox_id'', JInt (hd oids))])
                 (batch_metadata (map ?f es) streams))) (ret oids)) s"
    using assms(1,3,4) dup
    by (auto simp: publish_many_def thn_def bnd_def assert_actor_cases Let_def lift_def)
  also have "\<dots> = thn (in_work (publish_audit c run (jobj [(''batch_first_outbox_id'', JInt (hd ?oids))])
                 (batch_metadata (map ?f es) streams))) (ret ?oids) ?s1"
    by (rule bnd_eval) (rule step)
  also have "\<dots> = (Inr (map (\<lambda>i. outbox_seq (work s) + int i) [0..<length es]),
      batch_done fmt c run (map ?f es) streams s)"
    by (rule batch_finish [OF assms(1) len assms(3) step])
  finally show ?thesis .
qed

text \<open>A session on the sample database.\<close>

definition sample_session :: session where
  "sample_session = \<lparr>committed = sample_db, work = sample_db\<rparr>"

lemma sample_resolves: "resolve_stream (sample_event u) None = Inr ''aslan.entity.created''"
  by (simp add: resolve_stream_def sample_event_def event_kind_def STREAM_FOR_EVENT_KIND_def)

lemma sample_insertable:
  "outbox_insertable (stamp 1 a tp (sample_event u)) (work sample_session)"
  by (simp add: outbox_insertable_def sample_session_def sample_db_def empty_db_def sample_run_def)
    (simp add: sample_event_def)

lemma publish_many_succeeds_witness:
  "publish_many (\<lambda>_. []) None sample_ctx 1 [sample_event 1, sample_event 2] None sample_session =
    (Inr [1, 2], batch_done (\<lambda>_. []) sample_ctx 1
       (map (stamp 1 (ctx_actor sample_ctx) None) [sample_event 1, sample_event 2])
       [''aslan.entity.created'', ''aslan.entity.created''] sample_session)"
proof -
  have "outbox_seq (work sample_session) = 1"
    by (simp add: sample_session_def sample_db_def empty_db_def)
  moreover have "distinct (map se_event_id [sample_event 1, sample_event 2])"
    by (simp add: sample_event_def)
  ultimately show ?thesis
    using publish_many_succeeds [of "[sample_event 1, sample_event 2]" sample_ctx None
        "[''aslan.entity.created'', ''aslan.entity.created'']" 1 None sample_session "\<lambda>_. []"]
      sample_insertable
    by (auto simp: sample_resolves upt_conv_Cons)
qed

text \<open>A publish whose event id is already in the outbox (or whose run or source is not
  known) raises \<open>StreamEventIdConflict\<close> and, through \<open>session.rollback()\<close>, throws away everything
  the caller's transaction had done so far, not only the producer's own row.\<close>

lemma publish_conflict_discards_caller_work:
  assumes "resolve_stream e stream = Inr st" and "\<not> (ctx_actor c = None \<and> ctx_strict c)"
    and "\<not> outbox_insertable (stamp run (ctx_actor c) tp e) (work s)"
  shows "\<exists>d. publish fmt tp c run e stream s =
    (Inl (StreamE (StreamEventIdConflict (se_event_id e) st)),
     s\<lparr>work := rolled_back (committed s) d\<rparr>)"
  using assms insert_outbox_miss [OF assms(3), of fmt c st]
  by (auto simp: publish_def thn_def bnd_def assert_actor_cases Let_def lift_def)

lemma publish_conflict_discards_caller_work_witness:
  "\<exists>d. publish (\<lambda>_. []) None sample_ctx 7 (sample_event 1) None
      (sample_session\<lparr>work := sample_db\<lparr>sources := [''kap'', ''evds'']\<rparr>\<rparr>) =
    (Inl (StreamE (StreamEventIdConflict 1 ''aslan.entity.created'')),
     sample_session\<lparr>work := rolled_back sample_db d\<rparr>)"
proof -
  have "\<not> outbox_insertable (stamp 7 (ctx_actor sample_ctx) None (sample_event 1))
      (work (sample_session\<lparr>work := sample_db\<lparr>sources := [''kap'', ''evds'']\<rparr>\<rparr>))"
    by (simp add: outbox_insertable_def sample_session_def sample_db_def empty_db_def sample_run_def)
  from publish_conflict_discards_caller_work [OF sample_resolves _ this, of "\<lambda>_. []"]
  show ?thesis by (simp add: sample_session_def) (simp add: sample_event_def)
qed

end
