(* ===== verification/Outbox_Drainer.thy ===== *)
theory Outbox_Drainer
  imports Redis_Service Stream_Producer
begin

text \<open>
  The outbox drainer (\<open>streams/outbox_drainer.py\<close>): pending rows are sent to Redis with
  \<open>XADD\<close>, every sent copy is recorded in \<open>streams.event_id_to_redis\<close> by an independent
  transaction, and a failed attempt is followed by a scan that records a copy whose \<open>XADD\<close>
  was accepted without the drainer seeing the response.

  A state holds the committed database, the view of the drainer's open transaction, Redis, and
  the rows whose failed reconciliation was logged. An independent transaction commits at once and
  is visible to the open one. The statements of a row's savepoint take effect together or not at
  all; which database statements fail is the parameter \<open>dbf\<close>, for the statements of a row, and
  \<open>de_bdbf\<close>, for those of an iteration. A statement that fails outside the handlers of the code ends
  the iteration, and what it did in its own transaction is rolled back. \<open>ifr\<close> is what other workers
  do between a failed attempt and the scan. \<open>dumps\<close> is \<open>json.dumps\<close>, \<open>tb\<close> the formatted traceback,
  \<open>secs\<close> the float of a duration, \<open>pystr_of\<close> the \<open>str\<close> of the JSON values for which the model has
  no text of its own. A JSONB column gives back the JSON value that was stored.

  Not covered: a drainer that is cancelled or dies inside a row. \<open>except Exception\<close> does not catch
  \<open>CancelledError\<close>, so neither the scan nor the log record happens then.
\<close>

record 'r dstate =
  ds_committed :: db
  ds_work :: db
  ds_redis :: 'r
  ds_logged :: "outbox list"

text \<open>The world of the drainer: with the log records of failed reconciliations, each the row whose
  \<open>outbox_id\<close> the record names.\<close>

record 'r drain_world = "'r world" +
  dw_logged :: "outbox list"

definition drainer_actor :: actor where
  "drainer_actor = \<lparr>actor_id = ''system:streams.outbox_drainer'', actor_kind = System,
     client_ip = None, user_agent = None, request_id = None, actor_metadata = []\<rparr>"

section \<open>The redaction lookup table\<close>

definition er_key :: "event_id_to_redis \<Rightarrow> uuid \<times> string \<times> redis_id" where
  "er_key r = (er_event_id r, er_stream_name r, er_redis_message_id r)"

definition index_copy :: "ctx \<Rightarrow> uuid \<Rightarrow> string \<Rightarrow> redis_id \<Rightarrow> db \<Rightarrow> db" where
  "index_copy c u st rid d = d\<lparr>event_redis := sql_insert_dn er_key
     \<lparr>er_event_id = u, er_stream_name = st, er_redis_message_id = rid,
      er_published_at = ctx_now c, er_redacted_at = None\<rparr> (event_redis d)\<rparr>"

interpretation er_table: first_writer_table er_key "sql_insert_dn er_key"
    "\<lambda>k. sql_find (\<lambda>r. er_key r = k)"
  by (rule sql_insert_dn_first_writer)

definition index_now :: "ctx \<Rightarrow> uuid \<Rightarrow> string \<Rightarrow> redis_id \<Rightarrow> 'r dstate \<Rightarrow> 'r dstate" where
  "index_now c u st rid s =
     s\<lparr>ds_committed := index_copy c u st rid (ds_committed s),
       ds_work := index_copy c u st rid (ds_work s)\<rparr>"

section \<open>One row\<close>

definition capture_stream_lower_bound :: "'r redis_api \<Rightarrow> 'r \<Rightarrow> string \<Rightarrow> redis_id" where
  "capture_stream_lower_bound R r st =
     (case xrev_last R r st of
        Inl _ \<Rightarrow> rid_zero
      | Inr None \<Rightarrow> rid_zero
      | Inr (Some i) \<Rightarrow> if i = rid_zero then rid_zero else rid_next i)"

text \<open>\<open>str(payload.get(key) or "")\<close>.\<close>

definition text_or_empty :: "(json \<Rightarrow> pystr) \<Rightarrow> json option \<Rightarrow> pystr" where
  "text_or_empty pystr_of v =
     (case v of
        None \<Rightarrow> []
      | Some JNull \<Rightarrow> []
      | Some (JStr t) \<Rightarrow> t
      | Some (JBool b) \<Rightarrow> if b then lit ''True'' else []
      | Some (JInt i) \<Rightarrow> if i = 0 then [] else int_str i
      | Some (JArr xs) \<Rightarrow> if xs = [] then [] else pystr_of (JArr xs)
      | Some (JObj kvs) \<Rightarrow> if kvs = [] then [] else pystr_of (JObj kvs)
      | Some (JFloat x) \<Rightarrow> if x = 0 \<or> x = 2 ^ 63 then [] else pystr_of (JFloat x))"

definition xadd_fields :: "(json \<Rightarrow> pystr) \<Rightarrow> (json \<Rightarrow> pystr) \<Rightarrow> outbox \<Rightarrow> error + fields" where
  "xadd_fields dumps pystr_of row =
     (case ob_payload row of
        JObj kvs \<Rightarrow> Inr
          [(''event_id'', uuid_str (ob_event_id row)),
           (''schema_version'', int_str (ob_schema_version row)),
           (''payload'', dumps (JObj kvs)),
           (''traceparent'', text_or_empty pystr_of (map_of kvs (lit ''traceparent''))),
           (''kind'', text_or_empty pystr_of (map_of kvs (lit ''kind'')))]
      | _ \<Rightarrow> Inl (PyE AttributeError))"

text \<open>The database statements that may fail: of a row, and of an iteration.\<close>

datatype drain_stmt =
    BeginSavepoint
  | IndexInsert
  | SavepointWrites
  | MatchInsert redis_id
  | BumpWrites

datatype batch_stmt = SelectPending | BatchCommit | PendingCount

definition mark_published :: "ctx \<Rightarrow> int \<Rightarrow> redis_id \<Rightarrow> db \<Rightarrow> db" where
  "mark_published c oid rid d = d\<lparr>outboxes := sql_update (\<lambda>r. ob_id r = oid)
     (\<lambda>r. r\<lparr>ob_published_at := Some (ctx_now c), ob_redis_message_id := Some rid\<rparr>) (outboxes d)\<rparr>"

definition attempt_row ::
  "'r redis_api \<Rightarrow> (json \<Rightarrow> pystr) \<Rightarrow> (json \<Rightarrow> pystr) \<Rightarrow> (outbox \<Rightarrow> drain_stmt \<Rightarrow> bool) \<Rightarrow> nat \<Rightarrow>
   ctx \<Rightarrow> outbox \<Rightarrow> (error, 'r dstate, unit) op" where
  "attempt_row R dumps pystr_of dbf maxlen c row =
     bnd (lift (xadd_fields dumps pystr_of row)) (\<lambda>f.
     bnd (\<lambda>s. case xadd_maxlen R (ob_stream_name row) f maxlen (ds_redis s) of
             (Inl x, r) \<Rightarrow> (Inl (ServiceE x), s\<lparr>ds_redis := r\<rparr>)
           | (Inr rid, r) \<Rightarrow> (Inr rid, s\<lparr>ds_redis := r\<rparr>)) (\<lambda>rid.
     thn (unless (\<not> dbf row IndexInsert) (ServiceE SQLAlchemyError))
    (thn (modify (index_now c (ob_event_id row) (ob_stream_name row) rid))
    (thn (unless (\<not> dbf row SavepointWrites) (ServiceE SQLAlchemyError))
    (modify (\<lambda>s. s\<lparr>ds_work := index_copy c (ob_event_id row) (ob_stream_name row) rid
                               (mark_published c (ob_id row) rid (ds_work s))\<rparr>))))))"

definition entry_event_id :: "fields \<Rightarrow> pystr option" where
  "entry_event_id f = map_of f ''event_id''"

text \<open>One page: every entry of the event is indexed, each in its own transaction; \<open>bad\<close> are the ids whose
  insert fails.\<close>

fun index_page ::
  "ctx \<Rightarrow> (redis_id \<Rightarrow> bool) \<Rightarrow> uuid \<Rightarrow> string \<Rightarrow> (redis_id \<times> fields) list \<Rightarrow> (error, 'r dstate, unit) op" where
  "index_page c bad u st [] = ret ()"
| "index_page c bad u st (e # page) = thn
     (if entry_event_id (snd e) = Some (uuid_str u) then
        thn (unless (\<not> bad (fst e)) (ServiceE SQLAlchemyError)) (modify (index_now c u st (fst e)))
      else ret ())
     (index_page c bad u st page)"

fun reconcile_pages ::
  "'r redis_api \<Rightarrow> ctx \<Rightarrow> (redis_id \<Rightarrow> bool) \<Rightarrow> uuid \<Rightarrow> string \<Rightarrow> redis_id \<Rightarrow> nat \<Rightarrow> redis_id \<Rightarrow>
   (error, 'r dstate, unit) op" where
  "reconcile_pages R c bad u st hi 0 cur = raise OutOfFuel"
| "reconcile_pages R c bad u st hi (Suc fuel) cur = (\<lambda>s.
     case xrange R (ds_redis s) st cur hi 1000 of
       Inl x \<Rightarrow> (Inl (ServiceE x), s)
     | Inr page \<Rightarrow>
         if page = [] then (Inr (), s)
         else (let cur' = rid_next (fst (last page))
               in thn (index_page c bad u st page)
                    (if hi < cur' then ret () else reconcile_pages R c bad u st hi fuel cur') s))"

definition reconcile_unindexed_xadd ::
  "'r redis_api \<Rightarrow> nat \<Rightarrow> ctx \<Rightarrow> (redis_id \<Rightarrow> bool) \<Rightarrow> uuid \<Rightarrow> string \<Rightarrow> redis_id \<Rightarrow> (error, 'r dstate, unit) op" where
  "reconcile_unindexed_xadd R fuel c bad u st lb = (\<lambda>s.
     case xinfo_last R (ds_redis s) st of
       Inl RedisNoSuchKey \<Rightarrow> (Inr (), s)
     | Inl x \<Rightarrow> (Inl (ServiceE x), s)
     | Inr None \<Rightarrow> (Inr (), s)
     | Inr (Some hi) \<Rightarrow> if hi < lb then (Inr (), s) else reconcile_pages R c bad u st hi fuel lb s)"

text \<open>A failed scan is logged with the id of the row, and the drainer goes on.\<close>

definition reconcile_catches :: "error \<Rightarrow> bool" where
  "reconcile_catches e = (case e of ServiceE _ \<Rightarrow> True | PyE AttributeError \<Rightarrow> True | PyE ValueError \<Rightarrow> True
     | PyE TypeError \<Rightarrow> True | PyE RuntimeError \<Rightarrow> True | _ \<Rightarrow> False)"

definition log_failure :: "outbox \<Rightarrow> (error, 'r dstate, unit) op \<Rightarrow> (error, 'r dstate, unit) op" where
  "log_failure row m = (\<lambda>s. case m s of
     (Inl e, s') \<Rightarrow> if reconcile_catches e then (Inr (), s'\<lparr>ds_logged := ds_logged s' @ [row]\<rparr>) else (Inl e, s')
   | (Inr _, s') \<Rightarrow> (Inr (), s'))"

definition bump_attempts :: "ctx \<Rightarrow> int \<Rightarrow> pystr \<Rightarrow> db \<Rightarrow> db" where
  "bump_attempts c oid err d = d\<lparr>outboxes := sql_update (\<lambda>r. ob_id r = oid)
     (\<lambda>r. r\<lparr>ob_publish_attempts := ob_publish_attempts r + 1,
            ob_last_attempt_at := Some (ctx_now c), ob_last_error := Some err\<rparr>) (outboxes d)\<rparr>"

record 'r drain_env =
  de_fuel :: "'r \<Rightarrow> string \<Rightarrow> nat"
  de_dumps :: "json \<Rightarrow> pystr"
  de_pystr_of :: "json \<Rightarrow> pystr"
  de_dbf :: "outbox \<Rightarrow> drain_stmt \<Rightarrow> bool"
  de_bdbf :: "batch_stmt \<Rightarrow> bool"
  de_tb :: "error \<Rightarrow> pystr"
  de_ifr :: "'r dstate \<Rightarrow> 'r dstate"
  de_secs :: "int \<Rightarrow> 64 word"
  de_locked :: "outbox \<Rightarrow> bool"

definition attempt_failed ::
  "'r redis_api \<Rightarrow> 'r drain_env \<Rightarrow> ctx \<Rightarrow> outbox \<Rightarrow> redis_id \<Rightarrow> error \<Rightarrow> (error, 'r dstate, bool) op" where
  "attempt_failed R v c row lb e =
     thn (modify (de_ifr v))
    (thn (log_failure row (\<lambda>s. reconcile_unindexed_xadd R (de_fuel v (ds_redis s) (ob_stream_name row)) c
            (\<lambda>rid. de_dbf v row (MatchInsert rid)) (ob_event_id row) (ob_stream_name row) lb s))
    (thn (unless (\<not> de_dbf v row BumpWrites) (ServiceE SQLAlchemyError))
    (thn (modify (\<lambda>s. s\<lparr>ds_work := bump_attempts c (ob_id row) (take 4000 (de_tb v e)) (ds_work s)\<rparr>))
    (ret False))))"

definition drain_row ::
  "'r redis_api \<Rightarrow> 'r drain_env \<Rightarrow> nat \<Rightarrow> ctx \<Rightarrow> outbox \<Rightarrow> (error, 'r dstate, bool) op" where
  "drain_row R v maxlen c row =
     thn (unless (\<not> de_dbf v row BeginSavepoint) (ServiceE SQLAlchemyError))
    (bnd (gets (\<lambda>s. capture_stream_lower_bound R (ds_redis s) (ob_stream_name row))) (\<lambda>lb s.
       case attempt_row R (de_dumps v) (de_pystr_of v) (de_dbf v) maxlen c row s of
         (Inr _, s') \<Rightarrow> (Inr True, s')
       | (Inl e, s') \<Rightarrow> attempt_failed R v c row lb e s'))"

section \<open>One batch\<close>

definition pending_rows :: "('r drain_env) \<Rightarrow> nat \<Rightarrow> db \<Rightarrow> outbox list" where
  "pending_rows v n d =
     take n (sort_key ob_created_at (filter (\<lambda>r. ob_published_at r = None \<and> \<not> de_locked v r) (outboxes d)))"

fun drain_rows ::
  "'r redis_api \<Rightarrow> 'r drain_env \<Rightarrow> nat \<Rightarrow> ctx \<Rightarrow> outbox list \<Rightarrow> (error, 'r dstate, int \<times> int) op" where
  "drain_rows R v maxlen c [] = ret (0, 0)"
| "drain_rows R v maxlen c (row # rows) =
     bnd (drain_row R v maxlen c row) (\<lambda>ok.
     bnd (drain_rows R v maxlen c rows) (\<lambda>(drained, failures).
       ret (if ok then (drained + 1, failures) else (drained, failures + 1))))"

text \<open>Ages are durations from the creation of the oldest and the newest row of the batch.\<close>

definition drain_one_batch ::
  "'r redis_api \<Rightarrow> 'r drain_env \<Rightarrow> nat \<Rightarrow> nat \<Rightarrow> ctx \<Rightarrow> (error, 'r dstate, int \<times> int \<times> int \<times> int) op" where
  "drain_one_batch R v batch_size maxlen c =
     thn (unless (\<not> de_bdbf v SelectPending) (ServiceE SQLAlchemyError))
    (bnd (gets (\<lambda>s. pending_rows v batch_size (ds_work s))) (\<lambda>rows.
       if rows = [] then ret (0, 0, 0, 0)
       else (let ts = map ob_created_at rows; oldest = Min (set ts); newest = Max (set ts)
             in bnd (drain_rows R v maxlen c rows) (\<lambda>(drained, failures).
                  ret (drained, ctx_now c - oldest, ctx_now c - newest, failures)))))"

definition drained_audit :: "'r drain_env \<Rightarrow> ctx \<Rightarrow> int \<times> int \<times> int \<times> int \<Rightarrow> (error, db, unit) op" where
  "drained_audit v c counts = (case counts of (drained, oldest_age, newest_age, failures) \<Rightarrow>
     audit c
       \<lparr>ar_operation = ''stream.outbox_drained'', ar_target_schema = ''streams'',
        ar_target_table = ''outbox'', ar_target_pk = jobj [(''batch_drained_count'', JInt drained)],
        ar_before = None, ar_after = None,
        ar_metadata = jobj [(''drained_count'', JInt drained),
          (''oldest_age_s'', JFloat (de_secs v oldest_age)),
          (''newest_age_s'', JFloat (de_secs v newest_age)),
          (''any_failure_count'', JInt failures)],
        ar_ingestion_run_id = None\<rparr>)"

text \<open>
  One iteration of \<open>drain_outbox\<close>, run under the drainer's own actor: batch, audit row when
  something was drained, commit, count of the pending rows. When something raises before the
  commit, the open transaction is gone and what was committed on its own stays. With \<open>once\<close> the
  daemon is this iteration; otherwise it repeats it.
\<close>

definition batch_and_audit ::
  "'r redis_api \<Rightarrow> 'r drain_env \<Rightarrow> nat \<Rightarrow> nat \<Rightarrow> ctx \<Rightarrow> (error, 'r dstate, unit) op" where
  "batch_and_audit R v batch_size maxlen c =
     bnd (drain_one_batch R v batch_size maxlen c) (\<lambda>counts.
     thn (if 0 < fst counts then
            (\<lambda>s. case drained_audit v c counts (ds_work s) of (res, d) \<Rightarrow> (res, s\<lparr>ds_work := d\<rparr>))
          else ret ())
         (unless (\<not> de_bdbf v BatchCommit) (ServiceE SQLAlchemyError)))"

definition drain_iteration ::
  "'r redis_api \<Rightarrow> 'r drain_env \<Rightarrow> nat \<Rightarrow> nat \<Rightarrow> ctx \<Rightarrow> (error, 'r drain_world, unit) op" where
  "drain_iteration R v batch_size maxlen c0 = (\<lambda>w.
     case batch_and_audit R v batch_size maxlen (c0\<lparr>ctx_actor := Some drainer_actor\<rparr>)
         \<lparr>ds_committed = wdb w, ds_work = wdb w, ds_redis = wredis w, ds_logged = dw_logged w\<rparr> of
       (Inl e, s) \<Rightarrow> (Inl e, w\<lparr>wdb := ds_committed s, wredis := ds_redis s, dw_logged := ds_logged s\<rparr>)
     | (Inr _, s) \<Rightarrow> (if de_bdbf v PendingCount then Inl (ServiceE SQLAlchemyError) else Inr (),
                      w\<lparr>wdb := ds_work s, wredis := ds_redis s, dw_logged := ds_logged s\<rparr>))"

fun drain_outbox ::
  "'r redis_api \<Rightarrow> (nat \<Rightarrow> 'r drain_env) \<Rightarrow> nat \<Rightarrow> nat \<Rightarrow> nat \<Rightarrow> (nat \<Rightarrow> ctx) \<Rightarrow> (error, 'r drain_world, unit) op" where
  "drain_outbox R v batch_size maxlen 0 c = ret ()"
| "drain_outbox R v batch_size maxlen (Suc n) c =
     thn (drain_iteration R (v n) batch_size maxlen (c n)) (drain_outbox R v batch_size maxlen n c)"

section \<open>Every copy of an event can be found\<close>

text \<open>
  The table by which a redaction finds the copies of an event is complete for a stream, up to the
  log: every entry that carries an event id is indexed under that id, or the log has a record of a
  failed reconciliation of a row of that event and stream.
\<close>

definition indexed_keys :: "db \<Rightarrow> (uuid \<times> string \<times> redis_id) set" where
  "indexed_keys d = er_key ` set (event_redis d)"

definition logged_keys :: "outbox list \<Rightarrow> (uuid \<times> string) set" where
  "logged_keys rows = (\<lambda>r. (ob_event_id r, ob_stream_name r)) ` set rows"

definition copies_found ::
  "('r \<Rightarrow> string \<Rightarrow> (redis_id \<times> fields) list) \<Rightarrow> string \<Rightarrow> db \<Rightarrow> outbox list \<Rightarrow> 'r \<Rightarrow> bool" where
  "copies_found entries st d rows r \<longleftrightarrow>
     (\<forall>e \<in> set (entries r st). \<forall>u. entry_event_id (snd e) = Some (uuid_str u) \<longrightarrow>
        (u, st, fst e) \<in> indexed_keys d \<or> (u, st) \<in> logged_keys rows)"

text \<open>The same except for copies of one event at or above an id.\<close>

definition copies_but ::
  "('r \<Rightarrow> string \<Rightarrow> (redis_id \<times> fields) list) \<Rightarrow> string \<Rightarrow> uuid \<Rightarrow> redis_id \<Rightarrow> db \<Rightarrow> outbox list \<Rightarrow> 'r \<Rightarrow> bool" where
  "copies_but entries st v lb d rows r \<longleftrightarrow>
     (\<forall>e \<in> set (entries r st). \<forall>u. entry_event_id (snd e) = Some (uuid_str u) \<longrightarrow>
        (u, st, fst e) \<in> indexed_keys d \<or> (u, st) \<in> logged_keys rows \<or> u = v \<and> lb \<le> fst e)"

definition view_ok :: "'r dstate \<Rightarrow> bool" where
  "view_ok s \<longleftrightarrow> indexed_keys (ds_committed s) \<subseteq> indexed_keys (ds_work s)"

text \<open>What the other workers may do: they index what they add, unindex nothing, and do not write the
  log of this drainer. What they commit is seen by the open transaction.\<close>

definition drain_rely ::
  "('r \<Rightarrow> string \<Rightarrow> (redis_id \<times> fields) list) \<Rightarrow> ('r dstate \<Rightarrow> 'r dstate) \<Rightarrow> bool" where
  "drain_rely entries f \<longleftrightarrow> (\<forall>s. (view_ok s \<longrightarrow> view_ok (f s)) \<and> ds_logged (f s) = ds_logged s \<and>
     indexed_keys (ds_committed s) \<subseteq> indexed_keys (ds_committed (f s)) \<and>
     (\<forall>st. \<forall>e \<in> set (entries (ds_redis (f s)) st). \<forall>u. entry_event_id (snd e) = Some (uuid_str u) \<longrightarrow>
        e \<in> set (entries (ds_redis s) st) \<or> (u, st, fst e) \<in> indexed_keys (ds_committed (f s))))"

lemma rely_copies:
  assumes "drain_rely entries f"
  shows "copies_found entries st (ds_committed s) l (ds_redis s) \<Longrightarrow>
      copies_found entries st (ds_committed (f s)) l (ds_redis (f s))"
    and "copies_but entries st v lb (ds_committed s) l (ds_redis s) \<Longrightarrow>
      copies_but entries st v lb (ds_committed (f s)) l (ds_redis (f s))"
  using assms unfolding drain_rely_def copies_found_def copies_but_def by blast+

lemma index_copy_keys [simp]: "indexed_keys (index_copy c u st rid d) = insert (u, st, rid) (indexed_keys d)"
  by (simp add: indexed_keys_def index_copy_def sql_insert_dn_keys) (simp add: er_key_def)

lemma outbox_writes_keys [simp]:
  "indexed_keys (mark_published c oid rid d) = indexed_keys d"
  "indexed_keys (bump_attempts c oid err d) = indexed_keys d"
  by (simp_all add: indexed_keys_def mark_published_def bump_attempts_def)

lemma index_now_fields [simp]:
  "ds_committed (index_now c u st rid s) = index_copy c u st rid (ds_committed s)"
  "ds_work (index_now c u st rid s) = index_copy c u st rid (ds_work s)"
  "ds_redis (index_now c u st rid s) = ds_redis s"
  "ds_logged (index_now c u st rid s) = ds_logged s"
  by (simp_all add: index_now_def)

text \<open>What a scan leaves, whether it fails or not: more indexed copies, and when it returns, all
  entries of the event in its range.\<close>

definition scanned ::
  "uuid \<Rightarrow> string \<Rightarrow> (redis_id \<times> fields) list \<Rightarrow> 'r dstate \<Rightarrow> error + unit \<Rightarrow> 'r dstate \<Rightarrow> bool" where
  "scanned u st page s res s' \<longleftrightarrow> ds_redis s' = ds_redis s \<and> ds_logged s' = ds_logged s \<and>
     (\<exists>K. indexed_keys (ds_committed s') = indexed_keys (ds_committed s) \<union> K \<and>
        indexed_keys (ds_work s') = indexed_keys (ds_work s) \<union> K \<and>
        (case res of
           Inl e \<Rightarrow> reconcile_catches e
         | Inr _ \<Rightarrow> \<forall>e \<in> set page. entry_event_id (snd e) = Some (uuid_str u) \<longrightarrow> (u, st, fst e) \<in> K))"

lemma scanned_done: "page = [] \<Longrightarrow> scanned u st page s (Inr ()) s"
  by (auto simp: scanned_def intro: exI [of _ "{}"])

lemma scanned_fail: "reconcile_catches e \<Longrightarrow> scanned u st page s (Inl e) s"
  by (auto simp: scanned_def intro: exI [of _ "{}"])

lemma scanned_append:
  assumes "scanned u st p s (Inr ()) s1" and "scanned u st q s1 res s'"
  shows "scanned u st (p @ q) s res s'"
proof -
  from assms obtain K L where
    "indexed_keys (ds_committed s1) = indexed_keys (ds_committed s) \<union> K"
    "indexed_keys (ds_work s1) = indexed_keys (ds_work s) \<union> K"
    "\<forall>e \<in> set p. entry_event_id (snd e) = Some (uuid_str u) \<longrightarrow> (u, st, fst e) \<in> K"
    "indexed_keys (ds_committed s') = indexed_keys (ds_committed s1) \<union> L"
    "indexed_keys (ds_work s') = indexed_keys (ds_work s1) \<union> L"
    "case res of Inl e \<Rightarrow> reconcile_catches e
       | Inr _ \<Rightarrow> \<forall>e \<in> set q. entry_event_id (snd e) = Some (uuid_str u) \<longrightarrow> (u, st, fst e) \<in> L"
    by (auto simp: scanned_def)
  with assms show ?thesis
    unfolding scanned_def by (intro conjI exI [of _ "K \<union> L"]) (auto split: sum.splits)
qed

lemma scanned_prefix:
  "scanned u st p s (Inl e) s' \<Longrightarrow> scanned u st q s (Inl e) s'"
  by (simp add: scanned_def)

lemma index_page_scanned:
  "index_page c bad u st p s = (res, s') \<Longrightarrow> scanned u st p s res s'"
proof (induction p arbitrary: s)
  case (Cons e p)
  show ?case
  proof (cases "entry_event_id (snd e) = Some (uuid_str u)")
    case False
    with Cons have "scanned u st p s res s'" by simp
    moreover have "scanned u st [e] s (Inr ()) s" using False by (auto simp: scanned_def intro: exI [of _ "{}"])
    ultimately show ?thesis using scanned_append [of u st "[e]" s s p res s'] by simp
  next
    case match: True
    show ?thesis
    proof (cases "bad (fst e)")
      case True
      with match Cons.prems show ?thesis
        by (auto simp: thn_def unless_def raise_def bnd_def reconcile_catches_def intro: scanned_fail)
    next
      case False
      let ?s = "index_now c u st (fst e) s"
      have "scanned u st [e] s (Inr ()) ?s" by (auto simp: scanned_def intro!: exI [of _ "{(u, st, fst e)}"])
      moreover have "scanned u st p ?s res s'"
        using Cons match False by (simp add: thn_def unless_def)
      ultimately show ?thesis using scanned_append [of u st "[e]" s ?s p res s'] by simp
    qed
  qed
next
  case Nil
  then show ?case using scanned_done [of "[]" u st s] by (auto simp: ret_def)
qed

context redis_streams
begin

lemma reconcile_pages_scanned:
  assumes "length (filter (in_range cur hi) (entries (ds_redis s) st)) < fuel"
    and "reconcile_pages R c bad u st hi fuel cur s = (res, s')"
  shows "scanned u st (filter (in_range cur hi) (entries (ds_redis s) st)) s res s'"
  using assms
proof (induction fuel arbitrary: cur s)
  case (Suc fuel)
  let ?F = "filter (in_range cur hi) (entries (ds_redis s) st)"
  let ?P = "take 1000 ?F"
  show ?case
  proof (cases "xrange R (ds_redis s) st cur hi 1000")
    case (Inl x)
    with Suc.prems(2) show ?thesis by (auto simp: reconcile_catches_def intro: scanned_fail)
  next
    case (Inr page)
    then have page: "page = ?P" using xrange_page by fastforce
    show ?thesis
    proof (cases "?P = []")
      case True
      then have "?F = []" by (cases ?F) auto
      with Suc.prems(2) Inr page show ?thesis by (auto intro: scanned_done)
    next
      case False
      let ?c = "rid_next (fst (last ?P))"
      have rest: "filter (in_range ?c hi) (entries (ds_redis s) st) = drop 1000 ?F"
        using False by (rule next_page)
      have fuel: "length (drop 1000 ?F) < fuel"
        using Suc.prems(1) False by (cases ?F) auto
      have run: "thn (index_page c bad u st ?P) (if hi < ?c then ret () else reconcile_pages R c bad u st hi fuel ?c) s =
          (res, s')"
        using Suc.prems(2) Inr page False by (simp only: reconcile_pages.simps Let_def sum.case if_False)
      obtain r1 s1 where one: "index_page c bad u st ?P s = (r1, s1)"
        by (cases "index_page c bad u st ?P s")
      note first = index_page_scanned [OF one]
      show ?thesis
      proof (cases r1)
        case (Inl e)
        with run one first show ?thesis by (auto simp: thn_def bnd_def intro: scanned_prefix)
      next
        case (Inr z)
        then have first': "scanned u st ?P s (Inr ()) s1" using first by simp
        then have redis: "ds_redis s1 = ds_redis s" by (simp add: scanned_def)
        have "scanned u st (drop 1000 ?F) s1 res s'"
        proof (cases "hi < ?c")
          case True
          then have "drop 1000 ?F = []" using filter_in_range_empty rest by metis
          with True run one Inr show ?thesis by (auto simp: thn_def bnd_def ret_def intro: scanned_done)
        next
          case False
          then have "reconcile_pages R c bad u st hi fuel ?c s1 = (res, s')"
            using run one Inr by (simp add: thn_def bnd_def)
          with Suc.IH [of ?c s1] fuel rest redis show ?thesis by simp
        qed
        from scanned_append [OF first' this] show ?thesis by (simp only: append_take_drop_id)
      qed
    qed
  qed
qed simp

text \<open>After a scan that returns every copy is indexed; a scan that raises loses nothing and raises an error
  the drainer catches.\<close>

lemma reconcile_scanned:
  assumes fuel: "length (entries (ds_redis s) st) < fuel"
    and run: "reconcile_unindexed_xadd R fuel c bad u st lb s = (res, s')"
  shows "\<exists>p. scanned u st p s res s' \<and> (res = Inr () \<longrightarrow> (\<forall>e \<in> set (entries (ds_redis s) st). lb \<le> fst e \<longrightarrow> e \<in> set p))"
proof -
  let ?E = "entries (ds_redis s) st"
  have here: ?thesis if "(res, s') = (Inr (), s)" "\<forall>e \<in> set ?E. \<not> lb \<le> fst e"
    using that scanned_done [of "[]" u st s] by (intro exI [of _ "[]"]) auto
  show ?thesis
  proof (cases "xinfo_last R (ds_redis s) st")
    case (Inl x)
    show ?thesis
    proof (cases "x = RedisNoSuchKey")
      case True
      with Inl have "?E = []" by (simp add: xinfo_no_key)
      with Inl True run show ?thesis by (intro here) (simp_all add: reconcile_unindexed_xadd_def)
    next
      case False
      with Inl run have "(res, s') = (Inl (ServiceE x), s)"
        by (simp add: reconcile_unindexed_xadd_def split: service_error.splits)
      then show ?thesis by (auto simp: reconcile_catches_def intro!: exI [of _ "[]"] scanned_fail)
    qed
  next
    case (Inr b)
    show ?thesis
    proof (cases b)
      case None
      with Inr have "?E = []" by (simp add: xinfo_None)
      with Inr None run show ?thesis by (intro here) (simp_all add: reconcile_unindexed_xadd_def)
    next
      case (Some hi)
      with Inr have hi: "?E \<noteq> []" "fst (last ?E) = hi" using xinfo_Some by blast+
      have le: "fst e \<le> hi" if "e \<in> set ?E" for e
        using entry_le_last [OF that] hi by simp
      show ?thesis
      proof (cases "hi < lb")
        case True
        with Inr Some run le show ?thesis
          by (intro here) (auto simp: reconcile_unindexed_xadd_def dest: leD le_less_trans)
      next
        case False
        let ?p = "filter (in_range lb hi) ?E"
        have "length ?p < fuel" using fuel by (meson le_less_trans length_filter_le)
        moreover have "reconcile_pages R c bad u st hi fuel lb s = (res, s')"
          using run Inr Some False by (simp add: reconcile_unindexed_xadd_def)
        ultimately have "scanned u st ?p s res s'" by (rule reconcile_pages_scanned)
        then show ?thesis using le by (intro exI [of _ ?p]) (auto simp: in_range_def)
      qed
    qed
  qed
qed

text \<open>The bound captured before an \<open>XADD\<close> is at or below the id it assigns.\<close>

lemma capture_le:
  assumes "\<forall>e \<in> set (entries r st). fst e < i" and "rid_ok i"
  shows "capture_stream_lower_bound R r st \<le> i"
proof -
  have zero: "rid_zero \<le> i" by (cases i) (auto simp: rid_zero_def less_eq_redis_id_def)
  show ?thesis
  proof (cases "xrev_last R r st")
    case (Inr b)
    show ?thesis
    proof (cases b)
      case (Some l)
      with Inr have "entries r st \<noteq> []" "fst (last (entries r st)) = l" using xrev_last_Some by blast+
      with assms(1) have "l < i" using last_in_set by blast
      with Inr Some zero assms(2) show ?thesis
        by (simp add: capture_stream_lower_bound_def rid_next_least)
    qed (use Inr zero in \<open>simp add: capture_stream_lower_bound_def\<close>)
  qed (use zero in \<open>simp add: capture_stream_lower_bound_def\<close>)
qed

text \<open>After the \<open>XADD\<close> of a row, successful or not, at most its own copy is not indexed.\<close>

lemma xadd_copies_but:
  assumes "xadd_maxlen R st f n r = (res, r')" and "0 < n"
    and "entry_event_id f = Some (uuid_str u)" and "copies_found entries st d l r"
  shows "copies_but entries st u (capture_stream_lower_bound R r st) d l r'"
proof -
  have "(\<exists>k. entries r' st = drop k (entries r st)) \<or>
      (\<exists>i. (\<exists>k. entries r' st = drop k (entries r st) @ [(i, f)]) \<and> (\<forall>e \<in> set (entries r st). fst e < i))"
  proof (cases res)
    case (Inl x)
    with assms(1) have "xadd_maxlen R st f n r = (Inl x, r')" by simp
    from xadd_maxlen_error [OF this assms(2)] show ?thesis .
  next
    case (Inr i)
    with assms(1) have "xadd_maxlen R st f n r = (Inr i, r')" by simp
    from xadd_maxlen_ok [OF this assms(2)] show ?thesis by blast
  qed
  then consider k where "entries r' st = drop k (entries r st)"
    | i k where "entries r' st = drop k (entries r st) @ [(i, f)]" "\<forall>e \<in> set (entries r st). fst e < i"
    by blast
  then show ?thesis
  proof cases
    case 1
    then show ?thesis
      using assms(4) by (auto simp: copies_but_def copies_found_def dest: in_set_dropD)
  next
    case 2
    have "rid_ok i" using entries_rid_ok [of "(i, f)" r' st] 2(1) by simp
    then have "capture_stream_lower_bound R r st \<le> i" using 2(2) capture_le by blast
    then show ?thesis
      using assms(3,4) 2(1) by (auto simp: copies_but_def copies_found_def dest: in_set_dropD)
  qed
qed

end

section \<open>The drainer keeps the lookup table complete\<close>

text \<open>How an attempt on a row can end.\<close>

lemma attempt_cases:
  assumes "attempt_row R dumps pystr_of dbf maxlen c row s = (res, s')"
  obtains (no_fields) e where "res = Inl e" "s' = s"
  | (not_indexed) e f x r where "res = Inl e" "xadd_fields dumps pystr_of row = Inr f"
      "xadd_maxlen R (ob_stream_name row) f maxlen (ds_redis s) = (x, r)" "s' = s\<lparr>ds_redis := r\<rparr>"
  | (not_marked) e f rid r where "res = Inl e" "xadd_fields dumps pystr_of row = Inr f"
      "xadd_maxlen R (ob_stream_name row) f maxlen (ds_redis s) = (Inr rid, r)"
      "s' = index_now c (ob_event_id row) (ob_stream_name row) rid (s\<lparr>ds_redis := r\<rparr>)"
  | (sent) f rid r where "res = Inr ()" "xadd_fields dumps pystr_of row = Inr f"
      "xadd_maxlen R (ob_stream_name row) f maxlen (ds_redis s) = (Inr rid, r)"
      "s' = (index_now c (ob_event_id row) (ob_stream_name row) rid (s\<lparr>ds_redis := r\<rparr>))
         \<lparr>ds_work := index_copy c (ob_event_id row) (ob_stream_name row) rid (mark_published c (ob_id row) rid
           (index_copy c (ob_event_id row) (ob_stream_name row) rid (ds_work s)))\<rparr>"
proof (cases "xadd_fields dumps pystr_of row")
  case (Inl e)
  with assms show thesis by (intro no_fields [of e]) (auto simp: attempt_row_def)
next
  case (Inr f)
  obtain x r where x: "xadd_maxlen R (ob_stream_name row) f maxlen (ds_redis s) = (x, r)"
    by (cases "xadd_maxlen R (ob_stream_name row) f maxlen (ds_redis s)")
  show thesis
  proof (cases x)
    case (Inl e)
    with assms \<open>xadd_fields dumps pystr_of row = Inr f\<close> x show thesis
      by (intro not_indexed [of "ServiceE e" f x r]) (auto simp: attempt_row_def bnd_def lift_def)
  next
    case (Inr rid)
    note fx = \<open>xadd_fields dumps pystr_of row = Inr f\<close> x [unfolded Inr]
    show thesis
    proof (cases "dbf row IndexInsert")
      case True
      with assms fx show thesis
        by (intro not_indexed [of "ServiceE SQLAlchemyError" f "Inr rid" r])
          (auto simp: attempt_row_def bnd_def lift_def thn_def unless_def raise_def)
    next
      case F: False
      show thesis
      proof (cases "dbf row SavepointWrites")
        case True
        with F assms fx show thesis
          by (intro not_marked [of "ServiceE SQLAlchemyError" f rid r])
            (auto simp: attempt_row_def bnd_def lift_def thn_def unless_def raise_def ret_def modify_def)
      next
        case False
        with F assms fx show thesis
          by (intro sent [of f rid r])
            (auto simp: attempt_row_def bnd_def lift_def thn_def unless_def raise_def ret_def modify_def)
      qed
    qed
  qed
qed

lemma xadd_fields_event:
  "xadd_fields dumps pystr_of row = Inr f \<Longrightarrow> entry_event_id f = Some (uuid_str (ob_event_id row))"
  by (auto simp: xadd_fields_def entry_event_id_def split: json.splits)

definition drain_inv ::
  "('r \<Rightarrow> string \<Rightarrow> (redis_id \<times> fields) list) \<Rightarrow> string \<Rightarrow> 'r dstate \<Rightarrow> bool" where
  "drain_inv entries st s \<longleftrightarrow> view_ok s \<and> copies_found entries st (ds_committed s) (ds_logged s) (ds_redis s)"

text \<open>The assumptions under which the drainer works: Redis is a server of streams, which may fail at
  any call; the others index what they add; and the fuel covers a stream.\<close>

definition drain_setting ::
  "'r redis_api \<Rightarrow> ('r \<Rightarrow> string \<Rightarrow> (redis_id \<times> fields) list) \<Rightarrow> 'r drain_env \<Rightarrow> nat \<Rightarrow> bool" where
  "drain_setting R entries v maxlen \<longleftrightarrow> redis_streams R entries \<and> 0 < maxlen \<and>
     drain_rely entries (de_ifr v) \<and> (\<forall>r st. length (entries r st) < de_fuel v r st)"

lemma copies_found_mono:
  "copies_found entries st d l r \<Longrightarrow> indexed_keys d \<subseteq> indexed_keys d' \<Longrightarrow> logged_keys l \<subseteq> logged_keys l' \<Longrightarrow>
   copies_found entries st d' l' r"
  unfolding copies_found_def by blast

lemma copies_grow:
  "copies_found entries st d l r \<Longrightarrow> indexed_keys d \<subseteq> indexed_keys d' \<Longrightarrow> copies_found entries st d' l r"
  by (rule copies_found_mono [OF _ _ subset_refl])

lemma copies_found_but: "copies_found entries st d l r \<Longrightarrow> copies_but entries st u lb d l r"
  by (auto simp: copies_found_def copies_but_def)

lemma logged_keys_snoc [simp]:
  "logged_keys (rows @ [row]) = insert (ob_event_id row, ob_stream_name row) (logged_keys rows)"
  by (simp add: logged_keys_def)

lemma attempt_inv:
  assumes set: "drain_setting R entries v maxlen" and inv: "drain_inv entries st s"
    and run: "attempt_row R (de_dumps v) (de_pystr_of v) (de_dbf v) maxlen c row s = (res, s')"
  shows "view_ok s'"
    and "res = Inr () \<or> st \<noteq> ob_stream_name row \<Longrightarrow>
      copies_found entries st (ds_committed s') (ds_logged s') (ds_redis s')"
    and "st = ob_stream_name row \<Longrightarrow> copies_but entries st (ob_event_id row)
      (capture_stream_lower_bound R (ds_redis s) st) (ds_committed s') (ds_logged s') (ds_redis s')"
proof -
  let ?st = "ob_stream_name row" and ?u = "ob_event_id row"
  have R: "redis_streams R entries" and n: "0 < maxlen" using set by (simp_all add: drain_setting_def)
  have v: "view_ok s" and cp: "copies_found entries st (ds_committed s) (ds_logged s) (ds_redis s)"
    using inv by (simp_all add: drain_inv_def)
  have frame: "entries r' st = entries r st" if "xadd_maxlen R ?st f maxlen r = (x, r')" "st \<noteq> ?st" for f r x r'
    using redis_streams.xadd_maxlen_frame [OF R that] .
  have but: "copies_but entries st ?u (capture_stream_lower_bound R (ds_redis s) st) (ds_committed s) (ds_logged s) r"
    if "xadd_fields dumps pystr_of row = Inr f" "xadd_maxlen R ?st f maxlen (ds_redis s) = (x, r)" "st = ?st"
    for dumps pystr_of f x r
    using redis_streams.xadd_copies_but [OF R that(2) n xadd_fields_event [OF that(1)]] cp that(3) by simp
  have added: "copies_found entries st (index_copy c ?u ?st rid (ds_committed s)) (ds_logged s) r"
    if fx: "xadd_fields dumps pystr_of row = Inr f" and ax: "xadd_maxlen R ?st f maxlen (ds_redis s) = (Inr rid, r)"
    for dumps pystr_of f rid r
  proof (cases "st = ?st")
    case True
    obtain k where "entries r st = drop k (entries (ds_redis s) st) @ [(rid, f)]"
      using redis_streams.xadd_maxlen_ok [OF R ax n] True by blast
    then show ?thesis
      using cp xadd_fields_event [OF fx] True
      by (auto simp: copies_found_def dest: in_set_dropD)
  next
    case False
    with frame [OF ax] cp show ?thesis by (auto simp: copies_found_def)
  qed
  have all: "view_ok s' \<and>
      (res = Inr () \<or> st \<noteq> ?st \<longrightarrow> copies_found entries st (ds_committed s') (ds_logged s') (ds_redis s')) \<and>
      (st = ?st \<longrightarrow> copies_but entries st ?u (capture_stream_lower_bound R (ds_redis s) st)
        (ds_committed s') (ds_logged s') (ds_redis s'))"
    using run
  proof (cases rule: attempt_cases)
    case (no_fields e)
    then show ?thesis using v cp by (auto simp: copies_but_def copies_found_def)
  next
    case (not_indexed e f x r)
    then show ?thesis
      using v cp but [OF not_indexed(2,3)] frame [OF not_indexed(3)]
      by (simp add: view_ok_def copies_found_def)
  next
    case (not_marked e f rid r)
    with v added [OF not_marked(2,3)] show ?thesis
      by (auto simp: view_ok_def intro: copies_found_but)
  next
    case (sent f rid r)
    with v added [OF sent(2,3)] show ?thesis
      by (auto simp: view_ok_def intro: copies_found_but)
  qed
  then show "view_ok s'" by blast
  from all show "res = Inr () \<or> st \<noteq> ?st \<Longrightarrow> copies_found entries st (ds_committed s') (ds_logged s') (ds_redis s')" by blast
  from all show "st = ?st \<Longrightarrow> copies_but entries st ?u (capture_stream_lower_bound R (ds_redis s) st)
      (ds_committed s') (ds_logged s') (ds_redis s')" by blast
qed

lemma log_failure_scanned:
  assumes run: "log_failure row (\<lambda>s. reconcile_unindexed_xadd R (fuel s) c bad u st lb s) s = (res, s')"
    and scan: "\<And>r v. reconcile_unindexed_xadd R (fuel s) c bad u st lb s = (r, v) \<Longrightarrow> \<exists>p. scanned u st p s r v \<and> Q r p"
  shows "res = Inr () \<and> (\<exists>r v p. scanned u st p s r v \<and> Q r p \<and>
    (r = Inr () \<and> s' = v \<or> (\<exists>e. r = Inl e) \<and> s' = v\<lparr>ds_logged := ds_logged v @ [row]\<rparr>))"
proof -
  obtain r v where m: "reconcile_unindexed_xadd R (fuel s) c bad u st lb s = (r, v)"
    by (cases "reconcile_unindexed_xadd R (fuel s) c bad u st lb s")
  obtain p where p: "scanned u st p s r v" "Q r p" using scan [OF m] by blast
  show ?thesis
  proof (cases r)
    case (Inl e)
    with p have "reconcile_catches e" by (auto simp: scanned_def)
    with run m Inl p show ?thesis by (auto simp: log_failure_def)
  next
    case (Inr z)
    with run m p show ?thesis by (auto simp: log_failure_def)
  qed
qed

text \<open>After a failed attempt: the scan has indexed the copy, or the log names the row.\<close>

lemma attempt_failed_inv:
  assumes set: "drain_setting R entries v maxlen" and view: "view_ok s"
    and other: "st \<noteq> ob_stream_name row \<Longrightarrow> copies_found entries st (ds_committed s) (ds_logged s) (ds_redis s)"
    and own: "st = ob_stream_name row \<Longrightarrow>
      copies_but entries st (ob_event_id row) lb (ds_committed s) (ds_logged s) (ds_redis s)"
    and run: "attempt_failed R v c row lb e s = (res, s')"
  shows "drain_inv entries st s'"
proof -
  let ?st = "ob_stream_name row" and ?u = "ob_event_id row" and ?s0 = "de_ifr v s"
  let ?fuel = "\<lambda>s. de_fuel v (ds_redis s) ?st" and ?bad = "\<lambda>rid. de_dbf v row (MatchInsert rid)"
  have rely: "drain_rely entries (de_ifr v)" and fuel: "length (entries (ds_redis ?s0) ?st) < ?fuel ?s0"
    and R: "redis_streams R entries"
    using set by (simp_all add: drain_setting_def)
  have view0: "view_ok ?s0" and log0: "ds_logged ?s0 = ds_logged s"
    using view rely by (simp_all add: drain_rely_def)
  let ?log = "log_failure row (\<lambda>s. reconcile_unindexed_xadd R (?fuel s) c ?bad ?u ?st lb s)"
  let ?Q = "\<lambda>r p. r = Inr () \<longrightarrow> (\<forall>e \<in> set (entries (ds_redis ?s0) ?st). lb \<le> fst e \<longrightarrow> e \<in> set p)"
  obtain lres s2 where log: "?log ?s0 = (lres, s2)" by (cases "?log ?s0")
  have "lres = Inr () \<and> (\<exists>r v p. scanned ?u ?st p ?s0 r v \<and> ?Q r p \<and>
    (r = Inr () \<and> s2 = v \<or> (\<exists>e. r = Inl e) \<and> s2 = v\<lparr>ds_logged := ds_logged v @ [row]\<rparr>))"
    by (rule log_failure_scanned [OF log]) (rule redis_streams.reconcile_scanned [OF R fuel])
  then obtain r s1 p where lres: "lres = Inr ()" and scan: "scanned ?u ?st p ?s0 r s1" "?Q r p"
    and s2: "r = Inr () \<and> s2 = s1 \<or> (\<exists>e. r = Inl e) \<and> s2 = s1\<lparr>ds_logged := ds_logged s1 @ [row]\<rparr>" by blast
  from scan(1) obtain K where K: "ds_redis s1 = ds_redis ?s0" "ds_logged s1 = ds_logged ?s0"
    "indexed_keys (ds_committed s1) = indexed_keys (ds_committed ?s0) \<union> K"
    "indexed_keys (ds_work s1) = indexed_keys (ds_work ?s0) \<union> K"
    "case r of Inl e \<Rightarrow> reconcile_catches e
       | Inr _ \<Rightarrow> \<forall>e \<in> set p. entry_event_id (snd e) = Some (uuid_str ?u) \<longrightarrow> (?u, ?st, fst e) \<in> K"
    unfolding scanned_def by blast
  have "copies_found entries st (ds_committed s2) (ds_logged s2) (ds_redis s2)"
  proof (cases "st = ?st")
    case True
    have but: "copies_but entries st ?u lb (ds_committed ?s0) (ds_logged s) (ds_redis ?s0)"
      using rely_copies(2) [OF rely own [OF True]] .
    show ?thesis
    proof (cases "r = Inr ()")
      case Inr: True
      with s2 have s2: "s2 = s1" by auto
      have found: "(?u, ?st, fst e) \<in> K"
        if "e \<in> set (entries (ds_redis ?s0) ?st)" "entry_event_id (snd e) = Some (uuid_str ?u)" "lb \<le> fst e" for e
        using that K(5) scan(2) Inr by auto
      show ?thesis
        using but unfolding copies_found_def copies_but_def s2 K(1,2,3) log0 True by (blast intro: found)
    next
      case False
      with s2 have "s2 = s1\<lparr>ds_logged := ds_logged s1 @ [row]\<rparr>" by auto
      with but K True log0 show ?thesis unfolding copies_found_def copies_but_def by auto
    qed
  next
    case False
    have "copies_found entries st (ds_committed ?s0) (ds_logged s) (ds_redis ?s0)"
      using rely_copies(1) [OF rely other [OF False]] .
    moreover have "indexed_keys (ds_committed ?s0) \<subseteq> indexed_keys (ds_committed s2)"
      "logged_keys (ds_logged s) \<subseteq> logged_keys (ds_logged s2)" "ds_redis s2 = ds_redis ?s0"
      using s2 K log0 by auto
    ultimately show ?thesis by (simp add: copies_found_mono)
  qed
  moreover have "view_ok s2" using view0 K s2 by (auto simp: view_ok_def)
  ultimately have s2': "drain_inv entries st s2" by (simp add: drain_inv_def)
  moreover have "s' = s2 \<or> (\<exists>err. s' = s2\<lparr>ds_work := bump_attempts c (ob_id row) err (ds_work s2)\<rparr>)"
    using run log lres
    by (auto simp: attempt_failed_def thn_def bnd_def modify_def unless_def ret_def raise_def split: if_splits)
  ultimately show ?thesis by (auto simp: drain_inv_def view_ok_def)
qed

lemma drain_row_inv:
  assumes set: "drain_setting R entries v maxlen"
  shows "keeps (drain_inv entries st) (drain_row R v maxlen c row)"
proof (rule keepsI)
  fix s assume inv: "drain_inv entries st s"
  let ?lb = "capture_stream_lower_bound R (ds_redis s) (ob_stream_name row)"
  obtain res s' where run: "attempt_row R (de_dumps v) (de_pystr_of v) (de_dbf v) maxlen c row s = (res, s')"
    by (cases "attempt_row R (de_dumps v) (de_pystr_of v) (de_dbf v) maxlen c row s")
  note att = attempt_inv [OF set inv run]
  show "drain_inv entries st (snd (drain_row R v maxlen c row s))"
  proof (cases res)
    case (Inr u)
    with att(1,2) run inv show ?thesis
      by (auto simp: drain_row_def thn_def bnd_def unless_def ret_def raise_def gets_def drain_inv_def)
  next
    case (Inl e)
    have "drain_inv entries st (snd (attempt_failed R v c row ?lb e s'))"
      using att by (intro attempt_failed_inv [OF set _ _ _ surjective_pairing]) auto
    with run inv Inl show ?thesis
      by (auto simp: drain_row_def thn_def bnd_def unless_def ret_def raise_def gets_def)
  qed
qed

lemma drain_rows_inv:
  assumes set: "drain_setting R entries v maxlen"
  shows "keeps (drain_inv entries st) (drain_rows R v maxlen c rows)"
  by (induction rows) (auto intro!: keeps_ret keeps_bnd drain_row_inv [OF set] split: prod.split)

lemma drain_batch_inv:
  assumes set: "drain_setting R entries v maxlen"
  shows "keeps (drain_inv entries st) (drain_one_batch R v n maxlen c)"
  unfolding drain_one_batch_def Let_def
  by (auto intro!: keeps_thn keeps_unless keeps_bnd keeps_gets keeps_ret drain_rows_inv [OF set] split: prod.split)

lemma drain_inv_audit: "drain_inv entries st s \<Longrightarrow> drain_inv entries st (s\<lparr>ds_work := (ds_work s)\<lparr>audit_events := u\<rparr>\<rparr>)"
  by (simp add: drain_inv_def view_ok_def indexed_keys_def)

lemma batch_and_audit_inv:
  assumes set: "drain_setting R entries v maxlen"
  shows "keeps (drain_inv entries st) (batch_and_audit R v n maxlen c)"
proof -
  have audit: "keeps (drain_inv entries st) (\<lambda>s. case drained_audit v c counts (ds_work s) of (res, d) \<Rightarrow> (res, s\<lparr>ds_work := d\<rparr>))"
    for counts
    by (rule keepsI) (auto simp: drained_audit_def audit_eval case_prod_unfold intro: drain_inv_audit)
  show ?thesis
    unfolding batch_and_audit_def
    by (intro keeps_bnd drain_batch_inv [OF set] keeps_thn keeps_unless) (simp add: audit keeps_ret)
qed

lemma drain_iteration_inv:
  fixes R :: "'r redis_api"
  assumes set: "drain_setting R entries v maxlen"
  shows "keeps (\<lambda>w. copies_found entries st (wdb w) (dw_logged w) (wredis w)) (drain_iteration R v n maxlen c)"
proof (rule keepsI)
  fix w :: "'r drain_world" assume inv: "copies_found entries st (wdb w) (dw_logged w) (wredis w)"
  let ?s = "\<lparr>ds_committed = wdb w, ds_work = wdb w, ds_redis = wredis w, ds_logged = dw_logged w\<rparr>"
  let ?c = "c\<lparr>ctx_actor := Some drainer_actor\<rparr>"
  obtain res s where batch: "batch_and_audit R v n maxlen ?c ?s = (res, s)"
    by (cases "batch_and_audit R v n maxlen ?c ?s")
  have "drain_inv entries st ?s" using inv by (simp add: drain_inv_def view_ok_def)
  from keepsD [OF batch_and_audit_inv [OF set] batch this] have "drain_inv entries st s" .
  then have "copies_found entries st (ds_committed s) (ds_logged s) (ds_redis s)"
    "copies_found entries st (ds_work s) (ds_logged s) (ds_redis s)"
    by (auto simp: drain_inv_def view_ok_def intro: copies_grow)
  with batch show "(\<lambda>w. copies_found entries st (wdb w) (dw_logged w) (wredis w)) (snd (drain_iteration R v n maxlen c w))"
    by (auto simp: drain_iteration_def split: sum.splits)
qed


section \<open>What a drain does to the outbox\<close>

lemma drain_row_sent:
  assumes "ob_payload row = JObj kvs" and "\<And>st. \<not> de_dbf v row st"
    and "\<And>st f r. \<exists>i r'. xadd_maxlen R st f maxlen r = (Inr i, r')"
  shows "\<exists>rid s'. drain_row R v maxlen c row s = (Inr True, s') \<and>
    outboxes (ds_work s') = outboxes (mark_published c (ob_id row) rid (ds_work s))"
proof -
  obtain f where f: "xadd_fields (de_dumps v) (de_pystr_of v) row = Inr f"
    using assms(1) by (simp add: xadd_fields_def)
  obtain rid r where x: "xadd_maxlen R (ob_stream_name row) f maxlen (ds_redis s) = (Inr rid, r)"
    using assms(3) by blast
  have "\<exists>s'. attempt_row R (de_dumps v) (de_pystr_of v) (de_dbf v) maxlen c row s = (Inr (), s') \<and>
      outboxes (ds_work s') = outboxes (mark_published c (ob_id row) rid (ds_work s))"
    using assms(2) f x
    by (simp add: attempt_row_def bnd_def lift_def thn_def unless_def ret_def modify_def
        index_copy_def mark_published_def)
  then show ?thesis using assms(2)
    by (auto simp: drain_row_def thn_def unless_def gets_def bnd_def ret_def)
qed

lemma drain_rows_sent:
  assumes "\<And>row. row \<in> set rows \<Longrightarrow> \<exists>kvs. ob_payload row = JObj kvs"
    and "\<And>row st. \<not> de_dbf v row st"
    and "\<And>st f r. \<exists>i r'. xadd_maxlen R st f maxlen r = (Inr i, r')"
  shows "\<exists>s'. drain_rows R v maxlen c rows s = (Inr (int (length rows), 0), s') \<and>
    (\<forall>r \<in> set (outboxes (ds_work s')). ob_published_at r \<noteq> None \<or>
       r \<in> set (outboxes (ds_work s)) \<and> ob_id r \<notin> ob_id ` set rows)"
  using assms(1)
proof (induction rows arbitrary: s)
  case Nil
  then show ?case by (simp add: ret_def)
next
  case (Cons row rows)
  obtain kvs where "ob_payload row = JObj kvs" using Cons.prems [OF list.set_intros(1)] by blast
  with drain_row_sent [OF this assms(2,3), of c s] obtain rid s1 where
    one: "drain_row R v maxlen c row s = (Inr True, s1)"
    and out: "outboxes (ds_work s1) = outboxes (mark_published c (ob_id row) rid (ds_work s))" by blast
  have s1: "ob_published_at r \<noteq> None \<or> r \<in> set (outboxes (ds_work s)) \<and> ob_id r \<noteq> ob_id row"
    if "r \<in> set (outboxes (ds_work s1))" for r
    using that by (auto simp: out mark_published_def sql_update_def)
  obtain s' where "drain_rows R v maxlen c rows s1 = (Inr (int (length rows), 0), s')"
    and rest: "\<forall>r \<in> set (outboxes (ds_work s')). ob_published_at r \<noteq> None \<or>
       r \<in> set (outboxes (ds_work s1)) \<and> ob_id r \<notin> ob_id ` set rows"
    using Cons.IH [OF Cons.prems [OF list.set_intros(2)]] by blast
  with one have "drain_rows R v maxlen c (row # rows) s = (Inr (int (length (row # rows)), 0), s')"
    by (simp add: bnd_def ret_def)
  moreover have "\<forall>r \<in> set (outboxes (ds_work s')). ob_published_at r \<noteq> None \<or>
       r \<in> set (outboxes (ds_work s)) \<and> ob_id r \<notin> ob_id ` set (row # rows)"
    using rest s1 by fastforce
  ultimately show ?case by blast
qed

text \<open>With Redis accepting every \<open>XADD\<close> and no failing database statement, one drain
  iteration whose batch covers the pending rows publishes all of them and returns.\<close>

lemma drain_iteration_publishes_pending:
  assumes payloads: "\<And>row. row \<in> set (outboxes (wdb w)) \<Longrightarrow> \<exists>kvs. ob_payload row = JObj kvs"
    and db: "\<And>row st. \<not> de_dbf v row st" "\<And>st. \<not> de_bdbf v st"
    and redis: "\<And>st f r. \<exists>i r'. xadd_maxlen R st f maxlen r = (Inr i, r')"
    and free: "\<And>row. \<not> de_locked v row"
    and size: "length (filter (\<lambda>r. ob_published_at r = None) (outboxes (wdb w))) \<le> n"
  shows "\<exists>w'. drain_iteration R v n maxlen c w = (Inr (), w') \<and>
    (\<forall>r \<in> set (outboxes (wdb w')). ob_published_at r \<noteq> None)"
proof -
  let ?s = "\<lparr>ds_committed = wdb w, ds_work = wdb w, ds_redis = wredis w, ds_logged = dw_logged w\<rparr>"
  let ?c = "c\<lparr>ctx_actor := Some drainer_actor\<rparr>"
  let ?rows = "pending_rows v n (wdb w)"
  have rows: "?rows = sort_key ob_created_at (filter (\<lambda>r. ob_published_at r = None) (outboxes (wdb w)))"
    using size free by (simp add: pending_rows_def)
  have "\<exists>kvs. ob_payload r = JObj kvs" if "r \<in> set ?rows" for r
    using that payloads by (auto simp: rows)
  then obtain s' where
    run: "drain_rows R v maxlen ?c ?rows ?s = (Inr (int (length ?rows), 0), s')"
    and out: "\<forall>r \<in> set (outboxes (ds_work s')). ob_published_at r \<noteq> None \<or>
       r \<in> set (outboxes (wdb w)) \<and> ob_id r \<notin> ob_id ` set ?rows"
    using drain_rows_sent [OF _ db(1) redis, where rows = ?rows and c = ?c and s = ?s] by auto
  have all: "ob_published_at r \<noteq> None" if "r \<in> set (outboxes (ds_work s'))" for r
    using out that by (force simp: rows)
  have "\<exists>w' u. drain_iteration R v n maxlen c w = (Inr (), w') \<and> wdb w' = (ds_work s')\<lparr>audit_events := u\<rparr>"
  proof (cases "?rows = []")
    case True
    then have "s' = ?s" using run by (simp add: ret_def)
    moreover have "d\<lparr>audit_events := audit_events d\<rparr> = d" for d :: db by simp
    ultimately show ?thesis using True
      by (intro exI [of _ w] exI [of _ "audit_events (wdb w)"])
        (simp add: drain_iteration_def batch_and_audit_def drain_one_batch_def db thn_def unless_def gets_def bnd_def
          ret_def)
  next
    case False
    with run show ?thesis
      by (simp add: drain_iteration_def batch_and_audit_def drain_one_batch_def Let_def drained_audit_def audit_eval db
          thn_def unless_def gets_def bnd_def ret_def) blast
  qed
  with all show ?thesis by fastforce
qed

section \<open>Instances\<close>

definition sample_env :: "mem_server drain_env" where
  "sample_env = \<lparr>de_fuel = (\<lambda>r st. Suc (length (ms_entries r st))), de_dumps = (\<lambda>_. []),
     de_pystr_of = (\<lambda>_. []), de_dbf = (\<lambda>_ _. False), de_bdbf = (\<lambda>_. False), de_tb = (\<lambda>_. []), de_ifr = (\<lambda>s. s),
     de_secs = (\<lambda>_. 0), de_locked = (\<lambda>_. False)\<rparr>"

definition pending_world :: "mem_server drain_world" where
  "pending_world = \<lparr>wdb = sample_db\<lparr>outboxes :=
       [outbox_row (\<lambda>_. []) sample_ctx 1 (sample_event 9) ''aslan.entity.created'']\<rparr>,
     wredis = mem_empty, dw_logged = []\<rparr>"

lemma sample_setting: "drain_setting mem_api ms_entries sample_env 100000"
  by (simp add: drain_setting_def mem.redis_streams_axioms drain_rely_def sample_env_def)


lemma drain_iteration_publishes_pending_witness:
  "\<exists>w'. drain_iteration mem_api sample_env 100 100000 sample_ctx pending_world = (Inr (), w') \<and>
    (\<forall>r \<in> set (outboxes (wdb w')). ob_published_at r \<noteq> None)"
  by (rule drain_iteration_publishes_pending)
    (simp_all add: pending_world_def sample_env_def mem_api_def outbox_row_def model_dump_def jobj_def)

end
