(* ===== verification/Janitor.thy ===== *)
theory Janitor
  imports Deadletter_Protocol "HOL-Library.List_Lexorder" "HOL-Library.Char_ord"
begin

text \<open>
  The dead-letter janitor (\<open>streams/janitor.py\<close>) with its four reconciliation passes, and the
  intent heartbeat (\<open>streams/heartbeat.py\<close>). Each row of a pass is handled in its own
  transaction: when it raises, its database work is rolled back while what was done in Redis
  stays, and the errors the passes catch are logged and skipped. \<open>XREVRANGE\<close> and the JSON text
  of a stored excerpt are parameters.

  Other workers act between the rows and, under READ COMMITTED, between the statements of a row:
  \<open>ifr p n\<close> is what they commit before row \<open>n\<close> of pass \<open>p\<close>; \<open>env\<close> what they commit inside the
  acquisition of an intent (\<open>env 0\<close> to \<open>env 3\<close>), between the acquisition and the row lock of pass 2
  (\<open>env 4\<close>), and while a transaction that is rolled back in the end was open (\<open>env 5\<close>);
  \<open>mid k fid\<close> what they commit while pass 4 looks at an entry of the failure \<open>fid\<close>: before its
  second SELECT, before its INSERT and before its UPDATE. From its \<open>SELECT .. FOR UPDATE\<close> on, pass 2
  holds the log row of the failure. Migration 0017 makes \<open>deadletter_redis_index.failure_id\<close> and
  \<open>deadletter_xadd_intent.failure_id\<close> reference that row, so an insert of either by another worker
  waits for its key, and an update of the log row waits for the lock: the rest of the transaction is
  one step as far as the failure is concerned. The other passes write nothing but audit rows and
  intents outside these points.
\<close>

section \<open>Heartbeat\<close>

text \<open>One iteration of \<open>heartbeat_active_intents\<close>.\<close>

definition heartbeat_active_intents :: "ctx \<Rightarrow> string \<Rightarrow> db \<Rightarrow> db" where
  "heartbeat_active_intents c me d = d\<lparr>dl_intent := sql_update (\<lambda>i. it_owner_id i = me)
     (\<lambda>i. i\<lparr>it_owner_heartbeat_at := ctx_now c\<rparr>) (dl_intent d)\<rparr>"

section \<open>Transactions and caught errors\<close>

definition janitor_actor :: actor where
  "janitor_actor = \<lparr>actor_id = ''system:streams.deadletter_janitor'', actor_kind = System,
     client_ip = None, user_agent = None, request_id = None, actor_metadata = []\<rparr>"

definition on_db :: "(error, db, 'a) op \<Rightarrow> (error, 'r world, 'a) op" where
  "on_db m = (\<lambda>w. case m (wdb w) of (res, d) \<Rightarrow> (res, w\<lparr>wdb := d\<rparr>))"

text \<open>A transaction that is rolled back leaves what the others committed meanwhile.\<close>

definition world_tx :: "('r world \<Rightarrow> db) \<Rightarrow> (error, 'r world, 'a) op \<Rightarrow> (error, 'r world, 'a) op" where
  "world_tx others m = (\<lambda>w. case m w of
     (Inl e, w') \<Rightarrow> (Inl e, w'\<lparr>wdb := others w\<rparr>)
   | (Inr x, w') \<Rightarrow> (Inr x, w'))"

text \<open>The \<open>except\<close> clauses: the cycle and passes 1 to 3 list \<open>RuntimeError\<close>, pass 4 does not.\<close>

definition janitor_catches :: "error \<Rightarrow> bool" where
  "janitor_catches e = (case e of ServiceE _ \<Rightarrow> True | PyE ValueError \<Rightarrow> True | PyE TypeError \<Rightarrow> True
     | PyE RuntimeError \<Rightarrow> True | _ \<Rightarrow> False)"

definition pass_4_catches :: "error \<Rightarrow> bool" where
  "pass_4_catches e = (case e of ServiceE _ \<Rightarrow> True | PyE ValueError \<Rightarrow> True | PyE TypeError \<Rightarrow> True | _ \<Rightarrow> False)"

definition swallow :: "(error \<Rightarrow> bool) \<Rightarrow> (error, 'r world, 'a) op \<Rightarrow> (error, 'r world, unit) op" where
  "swallow catches m = (\<lambda>w. case m w of
     (Inl e, w') \<Rightarrow> (if catches e then Inr () else Inl e, w')
   | (Inr _, w') \<Rightarrow> (Inr (), w'))"

fun each_row :: "(nat \<Rightarrow> 'r world \<Rightarrow> 'r world) \<Rightarrow> nat \<Rightarrow> ('x \<Rightarrow> (error, 'r world, unit) op) \<Rightarrow> 'x list \<Rightarrow>
   (error, 'r world, unit) op" where
  "each_row ifr n f [] = ret ()"
| "each_row ifr n f (x # xs) = thn (modify (ifr n)) (thn (f x) (each_row ifr (Suc n) f xs))"

section \<open>Pass 1: stale intents\<close>

definition five_minutes :: int where
  "five_minutes = 300 * 10 ^ 6"

definition stale_intents :: "ctx \<Rightarrow> db \<Rightarrow> (int \<times> string) list" where
  "stale_intents c d = map (\<lambda>i. (it_failure_id i, it_stream_name i))
     (take 100 (sort_key it_intent_at (filter (\<lambda>i. it_intent_at i < ctx_now c - five_minutes \<and>
        it_owner_heartbeat_at i < ctx_now c - stale_age) (dl_intent d))))"

definition acquire_for ::
  "'r redis_api \<Rightarrow> nat \<Rightarrow> ctx \<Rightarrow> (nat \<Rightarrow> db \<Rightarrow> db) \<Rightarrow> string \<Rightarrow> int \<times> string \<Rightarrow>
   (error, 'r world, adoption_result) op" where
  "acquire_for R fuel c env me row = (case row of (fid, st) \<Rightarrow>
     bnd (capture_redis_lower_bound R (deadletter_stream st)) (\<lambda>lb w.
       on_db (acquire_or_adopt_intent R (wredis w) fuel c env fid me lb st 0) w))"

definition pass_1_row ::
  "'r redis_api \<Rightarrow> nat \<Rightarrow> ctx \<Rightarrow> (nat \<Rightarrow> db \<Rightarrow> db) \<Rightarrow> string \<Rightarrow> int \<times> string \<Rightarrow> (error, 'r world, unit) op" where
  "pass_1_row R fuel c env me row = swallow janitor_catches (world_tx (\<lambda>v. env 5 (wdb v)) (bnd (acquire_for R fuel c env me row) (\<lambda>result.
     if action result = Own then
       on_db (modify (\<lambda>d. d\<lparr>dl_intent := sql_delete (\<lambda>i. it_failure_id i = fst row) (dl_intent d)\<rparr>))
     else ret ())))"

definition pass_1_intent_reconciliation ::
  "'r redis_api \<Rightarrow> nat \<Rightarrow> ctx \<Rightarrow> (nat \<Rightarrow> 'r world \<Rightarrow> 'r world) \<Rightarrow> (nat \<Rightarrow> db \<Rightarrow> db) \<Rightarrow> string \<Rightarrow>
   (error, 'r world, unit) op" where
  "pass_1_intent_reconciliation R fuel c ifr env me =
     bnd (gets (\<lambda>w. stale_intents c (wdb w))) (each_row ifr 0 (pass_1_row R fuel c env me))"

section \<open>Pass 2: stuck rows\<close>

definition stuck_rows :: "ctx \<Rightarrow> db \<Rightarrow> (int \<times> string) list" where
  "stuck_rows c d = map (\<lambda>l. (dl_failure_id l, dl_stream_name l))
     (take 100 (sort_key dl_routed_at (filter (\<lambda>l. dl_routed_at_redis l = None \<and>
        dl_routed_at l < ctx_now c - five_minutes) (dl_log d))))"

definition index_dn :: "int \<Rightarrow> redis_id \<Rightarrow> db \<Rightarrow> db" where
  "index_dn fid rid d = d\<lparr>dl_index := sql_insert_dn ix_failure_id
     \<lparr>ix_failure_id = fid, ix_redis_message_id = rid\<rparr> (dl_index d)\<rparr>"

definition resolve_canonical_orphan ::
  "'r redis_api \<Rightarrow> nat \<Rightarrow> string \<Rightarrow> int \<Rightarrow> (error, 'r world, redis_id option) op" where
  "resolve_canonical_orphan R fuel st fid =
     bnd (gets (\<lambda>w. index_of fid (wdb w))) (\<lambda>indexed.
       case indexed of
         Some rid \<Rightarrow> ret (Some rid)
       | None \<Rightarrow>
           bnd (\<lambda>w. (find_orphan_in_deadletter_stream R (wredis w) fuel st rid_zero fid 10000, w)) (\<lambda>orphan.
             case orphan of
               None \<Rightarrow> ret None
             | Some rid \<Rightarrow> thn (on_db (modify (index_dn fid rid))) (ret (Some rid))))"

definition janitor_fields :: "(pystr \<Rightarrow> pystr) \<Rightarrow> deadletter_log \<Rightarrow> fields" where
  "janitor_fields excerpt_text l =
     [(''event_id'', uuid_str (dl_event_id l)),
      (''failure_id'', int_str (dl_failure_id l)),
      (''stream_name'', lit (dl_stream_name l)),
      (''group_name'', lit (dl_group_name l)),
      (''failure_count'', int_str (dl_failure_count l)),
      (''last_error'', dl_last_error l),
      (''payload'', excerpt_text (dl_payload_excerpt l)),
      (''recovered_by'', lit ''stream_deadletter_janitor'')]"

text \<open>\<open>target_pk @> {"failure_id": fid}\<close> on an audit row.\<close>

definition pk_has_failure :: "int \<Rightarrow> json \<Rightarrow> bool" where
  "pk_has_failure fid pk =
     (case pk of JObj kvs \<Rightarrow> map_of kvs (lit ''failure_id'') = Some (JInt fid) | _ \<Rightarrow> False)"

definition audited :: "string \<Rightarrow> int \<Rightarrow> db \<Rightarrow> bool" where
  "audited oper fid d =
     list_ex (\<lambda>e. ev_operation e = oper \<and> pk_has_failure fid (ev_target_pk e)) (events (audit_events d))"

text \<open>The database work once the canonical id is known.\<close>

definition finish_log :: "ctx \<Rightarrow> deadletter_log \<Rightarrow> int \<Rightarrow> redis_id \<Rightarrow> (error, db, unit) op" where
  "finish_log c l fid rid =
     thn (modify (\<lambda>d. d\<lparr>dl_log := mark_routed c fid rid (dl_log d)\<rparr>))
    (thn (modify (\<lambda>d. d\<lparr>dl_intent := sql_delete (\<lambda>i. it_failure_id i = fid) (dl_intent d)\<rparr>))
    (bnd (gets (audited ''stream.deadletter_orphan_lost'' fid)) (\<lambda>lost.
     thn (if lost then
            deadletter_audit c ''stream.deadletter_orphan_lost_recovered'' fid
              (jobj [(''redis_message_id'', JStr (rid_str rid)), (''stream_name'', jlit (dl_stream_name l)),
                     (''via'', jlit ''janitor_pass2_redrive'')])
          else ret ())
    (deadletter_audit c ''stream.deadletter'' fid
       (jobj [(''event_id'', JStr (uuid_str (dl_event_id l))), (''failure_id'', JInt fid),
              (''stream_name'', jlit (dl_stream_name l)), (''group_name'', jlit (dl_group_name l)),
              (''redis_message_id'', JStr (rid_str rid)), (''recovered_by_janitor'', JBool True)])))))"

definition finish_routing_after_adoption ::
  "'r redis_api \<Rightarrow> nat \<Rightarrow> (pystr \<Rightarrow> pystr) \<Rightarrow> ctx \<Rightarrow> int \<Rightarrow> (error, 'r world, unit) op" where
  "finish_routing_after_adoption R fuel excerpt_text c fid =
     bnd (gets (\<lambda>w. log_of fid (wdb w))) (\<lambda>row.
       case row of
         None \<Rightarrow> raise (ServiceE NoResultFound)
       | Some l \<Rightarrow>
           bnd (resolve_canonical_orphan R fuel (dl_stream_name l) fid) (\<lambda>canonical.
           bnd (case canonical of
                  Some rid \<Rightarrow> ret rid
                | None \<Rightarrow>
                    bnd (on_redis (xadd R (deadletter_stream (dl_stream_name l)) (janitor_fields excerpt_text l))) (\<lambda>rid.
                    thn (on_db (modify (index_dn fid rid))) (ret rid))) (\<lambda>rid.
           on_db (finish_log c l fid rid))))"

definition pass_2_row ::
  "'r redis_api \<Rightarrow> nat \<Rightarrow> (pystr \<Rightarrow> pystr) \<Rightarrow> ctx \<Rightarrow> (nat \<Rightarrow> db \<Rightarrow> db) \<Rightarrow> string \<Rightarrow> int \<times> string \<Rightarrow>
   (error, 'r world, unit) op" where
  "pass_2_row R fuel excerpt_text c env me row = swallow janitor_catches (world_tx (\<lambda>v. env 5 (wdb v))
     (bnd (acquire_for R fuel c env me row) (\<lambda>result.
        if action result = Own then
          thn (on_db (modify (env 4))) (finish_routing_after_adoption R fuel excerpt_text c (fst row))
        else ret ())))"

definition pass_2_stuck_row_scan ::
  "'r redis_api \<Rightarrow> nat \<Rightarrow> (pystr \<Rightarrow> pystr) \<Rightarrow> ctx \<Rightarrow> (nat \<Rightarrow> 'r world \<Rightarrow> 'r world) \<Rightarrow> (nat \<Rightarrow> db \<Rightarrow> db) \<Rightarrow> string \<Rightarrow>
   (error, 'r world, unit) op" where
  "pass_2_stuck_row_scan R fuel excerpt_text c ifr env me =
     bnd (gets (\<lambda>w. stuck_rows c (wdb w))) (each_row ifr 0 (pass_2_row R fuel excerpt_text c env me))"

section \<open>Pass 3: indexed entries that are gone\<close>

definition indexed_rows :: "db \<Rightarrow> (int \<times> redis_id \<times> string) list" where
  "indexed_rows d = take 1000 (sort_key fst (concat (map (\<lambda>i.
     (case log_of (ix_failure_id i) d of
        None \<Rightarrow> []
      | Some l \<Rightarrow> [(ix_failure_id i, ix_redis_message_id i, dl_stream_name l)])) (dl_index d))))"

definition pass_3_row :: "'r redis_api \<Rightarrow> ctx \<Rightarrow> int \<times> redis_id \<times> string \<Rightarrow> (error, 'r world, unit) op" where
  "pass_3_row R c row = (case row of (fid, rid, st) \<Rightarrow> swallow janitor_catches (world_tx wdb
     (bnd (read_redis (\<lambda>r. xrange R r (deadletter_stream st) rid rid 1)) (\<lambda>es.
        if es \<noteq> [] then ret ()
        else bnd (gets (\<lambda>w. audited ''stream.deadletter_index_orphaned_in_redis'' fid (wdb w))) (\<lambda>seen.
          if seen then ret ()
          else on_db (audit c
            \<lparr>ar_operation = ''stream.deadletter_index_orphaned_in_redis'', ar_target_schema = ''streams'',
             ar_target_table = ''deadletter_redis_index'', ar_target_pk = jobj [(''failure_id'', JInt fid)],
             ar_before = None, ar_after = None,
             ar_metadata = jobj [(''redis_message_id'', JStr (rid_str rid)), (''stream_name'', jlit st),
               (''reason'', jlit ''redis_entry_missing_postgres_index_intact'')],
             ar_ingestion_run_id = None\<rparr>))))))"

definition pass_3_index_to_stream_verification ::
  "'r redis_api \<Rightarrow> ctx \<Rightarrow> (nat \<Rightarrow> 'r world \<Rightarrow> 'r world) \<Rightarrow> (error, 'r world, unit) op" where
  "pass_3_index_to_stream_verification R c ifr =
     bnd (gets (\<lambda>w. indexed_rows (wdb w))) (each_row ifr 0 (pass_3_row R c))"

section \<open>Pass 4: entries without an index row\<close>

definition xdel_audit :: "ctx \<Rightarrow> string \<Rightarrow> int \<Rightarrow> json \<Rightarrow> (error, db, unit) op" where
  "xdel_audit c tab fid md = audit c
     \<lparr>ar_operation = ''stream.deadletter_orphan_xdel'', ar_target_schema = ''streams'',
      ar_target_table = tab, ar_target_pk = jobj [(''failure_id'', JInt fid)],
      ar_before = None, ar_after = None, ar_metadata = md, ar_ingestion_run_id = None\<rparr>"

definition drop_entry ::
  "'r redis_api \<Rightarrow> ctx \<Rightarrow> string \<Rightarrow> redis_id \<Rightarrow> string \<Rightarrow> int \<Rightarrow> json \<Rightarrow> (error, 'r world, unit) op" where
  "drop_entry R c st rid tab fid md = world_tx wdb
     (thn (on_redis (xdel R (deadletter_stream st) rid)) (on_db (xdel_audit c tab fid md)))"

definition index_entry ::
  "ctx \<Rightarrow> ('r world \<Rightarrow> 'r world) \<Rightarrow> string \<Rightarrow> redis_id \<Rightarrow> int \<Rightarrow> (error, 'r world, unit) op" where
  "index_entry c others st rid fid = world_tx (\<lambda>v. wdb (others v))
     (thn (on_db (modify (index_dn fid rid)))
     (thn (modify others)
     (thn (on_db (modify (\<lambda>d. d\<lparr>dl_log := mark_routed c fid rid (dl_log d)\<rparr>)))
     (on_db (deadletter_audit c ''stream.deadletter_orphan_reconciled'' fid
        (jobj [(''redis_message_id'', JStr (rid_str rid)), (''stream_name'', jlit st),
               (''via'', jlit ''pass4_recent_stream_scan'')]))))))"

definition reconcile_pass4_entry ::
  "'r redis_api \<Rightarrow> ctx \<Rightarrow> (nat \<Rightarrow> int \<Rightarrow> 'r world \<Rightarrow> 'r world) \<Rightarrow> string \<Rightarrow> redis_id \<Rightarrow> int \<Rightarrow>
   (error, 'r world, unit) op" where
  "reconcile_pass4_entry R c mid st rid fid = swallow pass_4_catches
     (bnd (gets (\<lambda>w. index_of fid (wdb w))) (\<lambda>existing.
       thn (modify (mid 1 fid))
       (case existing of
         Some canonical \<Rightarrow>
           if canonical = rid then ret ()
           else drop_entry R c st rid ''deadletter_redis_index'' fid
                (jobj [(''redis_message_id'', JStr (rid_str rid)),
                       (''canonical_redis_message_id'', JStr (rid_str canonical)),
                       (''stream_name'', jlit st), (''reason'', jlit ''duplicate_orphan_already_indexed'')])
       | None \<Rightarrow>
           bnd (gets (\<lambda>w. log_of fid (wdb w))) (\<lambda>row.
             thn (modify (mid 2 fid))
             (if row = None then
               drop_entry R c st rid ''deadletter_log'' fid
                  (jobj [(''redis_message_id'', JStr (rid_str rid)), (''stream_name'', jlit st),
                         (''reason'', jlit ''orphan_without_postgres_log'')])
             else index_entry c (mid 3 fid) st rid fid)))))"

text \<open>An entry of a stream; a \<open>failure_id\<close> that is no number is an error of the whole pass.\<close>

definition pass_4_entry ::
  "'r redis_api \<Rightarrow> ctx \<Rightarrow> (nat \<Rightarrow> int \<Rightarrow> 'r world \<Rightarrow> 'r world) \<Rightarrow> string \<Rightarrow> redis_id \<times> fields \<Rightarrow>
   (error, 'r world, unit) op" where
  "pass_4_entry R c mid st e =
     (case map_of (snd e) ''failure_id'' of
        None \<Rightarrow> ret ()
      | Some t \<Rightarrow>
          (case py_int t of
             None \<Rightarrow> raise (PyE ValueError)
           | Some fid \<Rightarrow> reconcile_pass4_entry R c mid st (fst e) fid))"

definition pass_4_stream ::
  "'r redis_api \<Rightarrow> ('r \<Rightarrow> string \<Rightarrow> nat \<Rightarrow> service_error + (redis_id \<times> fields) list) \<Rightarrow> ctx \<Rightarrow>
   (nat \<Rightarrow> 'r world \<Rightarrow> 'r world) \<Rightarrow> (nat \<Rightarrow> int \<Rightarrow> 'r world \<Rightarrow> 'r world) \<Rightarrow> nat \<Rightarrow> string \<Rightarrow>
   (error, 'r world, unit) op" where
  "pass_4_stream R xrevrange c ifr mid window st = (\<lambda>w.
     case xrevrange (wredis w) (deadletter_stream st) window of
       Inl _ \<Rightarrow> (Inr (), w)
     | Inr es \<Rightarrow> each_row ifr 0 (pass_4_entry R c mid st) es w)"

definition pass_4_stream_to_index_defense_in_depth ::
  "'r redis_api \<Rightarrow> ('r \<Rightarrow> string \<Rightarrow> nat \<Rightarrow> service_error + (redis_id \<times> fields) list) \<Rightarrow> ctx \<Rightarrow>
   (nat \<Rightarrow> 'r world \<Rightarrow> 'r world) \<Rightarrow> (nat \<Rightarrow> int \<Rightarrow> 'r world \<Rightarrow> 'r world) \<Rightarrow> nat \<Rightarrow> (error, 'r world, unit) op" where
  "pass_4_stream_to_index_defense_in_depth R xrevrange c ifr mid window =
     bnd (gets (\<lambda>w. sort (remdups (map dl_stream_name (dl_log (wdb w))))))
       (for_each (pass_4_stream R xrevrange c ifr mid window))"

section \<open>The daemon\<close>

definition janitor_cycle ::
  "'r redis_api \<Rightarrow> ('r \<Rightarrow> string \<Rightarrow> nat \<Rightarrow> service_error + (redis_id \<times> fields) list) \<Rightarrow> nat \<Rightarrow>
   (pystr \<Rightarrow> pystr) \<Rightarrow> ctx \<Rightarrow> (nat \<Rightarrow> nat \<Rightarrow> 'r world \<Rightarrow> 'r world) \<Rightarrow> (nat \<Rightarrow> db \<Rightarrow> db) \<Rightarrow>
   (nat \<Rightarrow> int \<Rightarrow> 'r world \<Rightarrow> 'r world) \<Rightarrow> string \<Rightarrow> nat \<Rightarrow> (error, 'r world, unit) op" where
  "janitor_cycle R xrevrange fuel excerpt_text c0 ifr env mid me window =
     (let c = c0\<lparr>ctx_actor := Some janitor_actor\<rparr>
      in swallow janitor_catches
          (thn (pass_1_intent_reconciliation R fuel c (ifr 1) env me)
          (thn (pass_2_stuck_row_scan R fuel excerpt_text c (ifr 2) env me)
          (thn (pass_3_index_to_stream_verification R c (ifr 3))
          (pass_4_stream_to_index_defense_in_depth R xrevrange c (ifr 4) mid window)))))"

text \<open>\<open>n\<close> cycles, the last argument counting the ones to go; with \<open>once\<close> the daemon is one cycle.
  The clock, the interference and the statements of other workers are those of the cycle.\<close>

fun stream_deadletter_janitor ::
  "'r redis_api \<Rightarrow> ('r \<Rightarrow> string \<Rightarrow> nat \<Rightarrow> service_error + (redis_id \<times> fields) list) \<Rightarrow> nat \<Rightarrow>
   (pystr \<Rightarrow> pystr) \<Rightarrow> (nat \<Rightarrow> ctx) \<Rightarrow> (nat \<Rightarrow> nat \<Rightarrow> nat \<Rightarrow> 'r world \<Rightarrow> 'r world) \<Rightarrow>
   (nat \<Rightarrow> nat \<Rightarrow> db \<Rightarrow> db) \<Rightarrow> (nat \<Rightarrow> nat \<Rightarrow> int \<Rightarrow> 'r world \<Rightarrow> 'r world) \<Rightarrow> string \<Rightarrow> nat \<Rightarrow> nat \<Rightarrow>
   (error, 'r world, unit) op" where
  "stream_deadletter_janitor R xrevrange fuel excerpt_text c ifr env mid me window 0 = ret ()"
| "stream_deadletter_janitor R xrevrange fuel excerpt_text c ifr env mid me window (Suc n) =
     thn (janitor_cycle R xrevrange fuel excerpt_text (c n) (ifr n) (env n) (mid n) me window)
         (stream_deadletter_janitor R xrevrange fuel excerpt_text c ifr env mid me window n)"

section \<open>What every pass keeps\<close>

lemma logged_ex: "fid \<in> dl_failure_id ` set (dl_log d) \<Longrightarrow> \<exists>a. logged d a fid"
proof -
  assume "fid \<in> dl_failure_id ` set (dl_log d)"
  then obtain l where l: "l \<in> set (dl_log d)" "dl_failure_id l = fid" by blast
  let ?a = "\<lparr>ra_stream = dl_stream_name l, ra_group = dl_group_name l, ra_consumer_name = [],
      ra_message_id = dl_original_message_id l, ra_event_id = 0, ra_failure_count = 0, ra_last_error = [],
      ra_payload_excerpt = [], ra_owner_id = []\<rparr>"
  have "logged d ?a fid" using l by (auto simp: logged_def log_key_def args_key_def)
  then show ?thesis ..
qed

lemma spec_on_db:
  "spec P m Q E \<Longrightarrow> spec (\<lambda>w. P (wdb w)) (on_db m) (\<lambda>x w. Q x (wdb w)) (\<lambda>w. E (wdb w))"
  unfolding spec_def on_db_def by (auto split: prod.splits sum.splits)

lemma keeps_world_tx:
  fixes m :: "(error, 'r world, 'a) op"
  assumes "spec (\<lambda>w. P (wdb w)) m (\<lambda>_ w. P (wdb w)) (\<lambda>_. True)" and "\<And>v. P (wdb v) \<Longrightarrow> P (others v)"
  shows "keeps (\<lambda>w. P (wdb w)) (world_tx others m)"
proof (rule keepsI)
  fix w :: "'r world" assume "P (wdb w)"
  with assms show "P (wdb (snd (world_tx others m w)))"
    unfolding spec_def world_tx_def by (auto split: prod.splits sum.splits)
qed

lemma keeps_swallow: "keeps P m \<Longrightarrow> keeps P (swallow catches m)"
  unfolding keeps_def swallow_def by (fastforce split: prod.splits sum.splits)

lemma index_dn_keeps:
  assumes "ok d0 d" "logged d a fid" "index_of fid d = None"
  shows "ok d0 (index_dn fid rid d)" "logged (index_dn fid rid d) a fid"
    "index_of fid (index_dn fid rid d) = Some rid"
  using assms index_insert_keeps [of d a fid rid] okD [OF assms(1)]
  by (auto simp: index_dn_def index_insert_dn intro: ok_step logged_mono)

lemma delete_intent_keeps:
  "ok d0 d \<Longrightarrow> ok d0 (d\<lparr>dl_intent := sql_delete p (dl_intent d)\<rparr>)"
  by (rule ok_step, assumption, rule dl_inv_intent)
    (auto dest: okD simp: dl_inv_def sql_delete_def dl_growth.le_refl)

lemma spec_acquire_for:
  assumes "\<And>n. dl_rely (env n)"
  shows "spec (\<lambda>w. ok d0 (wdb w) \<and> logged (wdb w) a fid) (acquire_for R fuel c env me (fid, st))
    (\<lambda>ad w. adopted d0 a fid ad (wdb w)) (\<lambda>_. True)"
proof -
  have "spec (\<lambda>w. ok d0 (wdb w) \<and> logged (wdb w) a fid)
      (\<lambda>w. on_db (acquire_or_adopt_intent R (wredis w) fuel c env fid me lb st 0) w)
      (\<lambda>ad w. adopted d0 a fid ad (wdb w)) (\<lambda>_. True)" for lb
  proof (rule specI)
    fix w ad w' assume pre: "ok d0 (wdb w) \<and> logged (wdb w) a fid"
      and "on_db (acquire_or_adopt_intent R (wredis w) fuel c env fid me lb st 0) w = (Inr ad, w')"
    from spec_InrD [OF spec_on_db [OF spec_acquire [where env = env, OF assms]] this]
    show "adopted d0 a fid ad (wdb w')" .
  qed simp
  then show ?thesis
    unfolding acquire_for_def prod.case
    by (rule spec_bnd [OF spec_capture])
qed

lemma pass_1_row_keeps:
  fixes w :: "'r world"
  assumes env: "\<And>n. dl_rely (env n)"
    and w: "ok d0 (wdb w)" "logged (wdb w) a (fst row)"
  shows "ok d0 (wdb (snd (pass_1_row R fuel c env me row w)))"
proof -
  let ?P = "\<lambda>d. ok d0 d \<and> logged d a (fst row)"
  have "keeps (\<lambda>w :: 'r world. ?P (wdb w)) (pass_1_row R fuel c env me row)"
    unfolding pass_1_row_def
  proof (intro keeps_swallow keeps_world_tx [where P = ?P] spec_bnd)
    show "?P (env 5 (wdb v))" if "?P (wdb v)" for v :: "'r world"
      using that rely_ok [OF env] rely_logged [OF env] by blast
    show "spec (\<lambda>w. ?P (wdb w)) (acquire_for R fuel c env me row)
        (\<lambda>ad w. adopted d0 a (fst row) ad (wdb w)) (\<lambda>_. True)"
      using spec_acquire_for [where env = env, OF env, of d0 a "fst row" R fuel c me "snd row"] by simp
    show "spec (\<lambda>w. adopted d0 a (fst row) ad (wdb w))
        (if action ad = Own then
          on_db (modify (\<lambda>d. d\<lparr>dl_intent := sql_delete (\<lambda>i. it_failure_id i = fst row) (dl_intent d)\<rparr>))
         else ret ()) (\<lambda>_ w. ?P (wdb w)) (\<lambda>_. True)" for ad
      by (auto simp: spec_def on_db_def modify_def ret_def adopted_def intro: delete_intent_keeps)
  qed
  with w show ?thesis by (simp add: keeps_def)
qed

lemma spec_resolve_canonical:
  "spec (\<lambda>w. ok d0 (wdb w) \<and> logged (wdb w) a fid) (resolve_canonical_orphan R fuel st fid)
     (\<lambda>r w. ok d0 (wdb w) \<and> logged (wdb w) a fid \<and> index_of fid (wdb w) = r) (\<lambda>_. True)"
proof (rule specI)
  fix w r w' assume pre: "ok d0 (wdb w) \<and> logged (wdb w) a fid"
    and run: "resolve_canonical_orphan R fuel st fid w = (Inr r, w')"
  show "ok d0 (wdb w') \<and> logged (wdb w') a fid \<and> index_of fid (wdb w') = r"
  proof (cases "index_of fid (wdb w)")
    case None
    then show ?thesis
      using pre run index_dn_keeps [of d0 "wdb w" a fid]
      by (auto simp: resolve_canonical_orphan_def bnd_Inr_iff thn_Inr_iff on_db_def modify_def split: option.splits)
  next
    case (Some rid)
    with pre run show ?thesis by (simp add: resolve_canonical_orphan_def)
  qed
qed simp

lemma finish_log_run:
  assumes "finish_log c l fid rid d = (Inr (), d')"
  shows "\<exists>u. d' = d\<lparr>dl_log := mark_routed c fid rid (dl_log d),
    dl_intent := sql_delete (\<lambda>i. it_failure_id i = fid) (dl_intent d), audit_events := u\<rparr>"
  using assms by (auto simp: finish_log_def deadletter_audit_def audit_Inr_iff split: if_splits)

lemma finish_log_keeps:
  assumes "finish_log c l fid rid d = (Inr (), d')" and "ok d0 d" and "index_of fid d = Some rid"
  shows "ok d0 d'"
proof -
  obtain u where d': "d' = d\<lparr>dl_log := mark_routed c fid rid (dl_log d),
    dl_intent := sql_delete (\<lambda>i. it_failure_id i = fid) (dl_intent d), audit_events := u\<rparr>"
    using finish_log_run [OF assms(1)] by blast
  let ?d1 = "d\<lparr>dl_log := mark_routed c fid rid (dl_log d)\<rparr>"
  have "ok d0 ?d1" using assms(2,3) mark_routed_keeps okD by (blast intro: ok_step)
  from delete_intent_keeps [OF this, of "\<lambda>i. it_failure_id i = fid"] show ?thesis by (simp add: d')
qed

lemma spec_finish_routing:
  "spec (\<lambda>w. ok d0 (wdb w) \<and> logged (wdb w) a fid) (finish_routing_after_adoption R fuel excerpt_text c fid)
     (\<lambda>_ w. ok d0 (wdb w)) (\<lambda>_. True)"
proof (rule specI)
  fix w x w' assume pre: "ok d0 (wdb w) \<and> logged (wdb w) a fid"
    and run: "finish_routing_after_adoption R fuel excerpt_text c fid w = (Inr x, w')"
  from run obtain l where l: "log_of fid (wdb w) = Some l"
    by (cases "log_of fid (wdb w)") (auto simp: finish_routing_after_adoption_def)
  let ?add = "\<lambda>canonical. case canonical of
      Some rid \<Rightarrow> ret rid
    | None \<Rightarrow> bnd (on_redis (xadd R (deadletter_stream (dl_stream_name l)) (janitor_fields excerpt_text l))) (\<lambda>rid.
              thn (on_db (modify (index_dn fid rid))) (ret rid))"
  obtain canonical w1 where res: "resolve_canonical_orphan R fuel (dl_stream_name l) fid w = (Inr canonical, w1)"
    and run1: "bnd (?add canonical) (\<lambda>rid. on_db (finish_log c l fid rid)) w1 = (Inr x, w')"
    using run by (auto simp: finish_routing_after_adoption_def l bnd_Inr_iff [of "resolve_canonical_orphan _ _ _ _"])
  note c1 = spec_InrD [OF spec_resolve_canonical pre res]
  obtain rid w2 where add: "?add canonical w1 = (Inr rid, w2)" and fin: "on_db (finish_log c l fid rid) w2 = (Inr x, w')"
    using run1 unfolding bnd_Inr_iff by blast
  have "ok d0 (wdb w2) \<and> index_of fid (wdb w2) = Some rid"
  proof (cases canonical)
    case None
    then obtain r where "w2 = w1\<lparr>wredis := r, wdb := index_dn fid rid (wdb w1)\<rparr>"
      using add by (auto simp: bnd_Inr_iff thn_Inr_iff on_db_def modify_def on_redis_def split: prod.splits sum.splits)
    with c1 None index_dn_keeps [of d0 "wdb w1" a fid rid] show ?thesis by simp
  qed (use add c1 in auto)
  with fin finish_log_keeps show "ok d0 (wdb w')"
    by (auto simp: on_db_def split: prod.splits) 
qed simp

lemma pass_2_row_keeps:
  fixes w :: "'r world"
  assumes env: "\<And>n. dl_rely (env n)"
    and w: "ok d0 (wdb w)" "logged (wdb w) a (fst row)"
  shows "ok d0 (wdb (snd (pass_2_row R fuel excerpt_text c env me row w)))"
proof -
  let ?P = "\<lambda>d. ok d0 d \<and> logged d a (fst row)"
  let ?finish = "thn (on_db (modify (env 4))) (finish_routing_after_adoption R fuel excerpt_text c (fst row))"
  have acq: "spec (\<lambda>w. ?P (wdb w)) (acquire_for R fuel c env me row)
      (\<lambda>ad w. adopted d0 a (fst row) ad (wdb w)) (\<lambda>_. True)"
    using spec_acquire_for [where env = env, OF env, of d0 a "fst row" R fuel c me "snd row"] by simp
  have wait: "spec (\<lambda>w. ?P (wdb w)) (on_db (modify (env 4))) (\<lambda>_ w. ?P (wdb w)) (\<lambda>_. True)"
    using rely_ok [OF env] rely_logged [OF env] by (intro specI) (auto simp: on_db_def modify_def)
  have "spec (\<lambda>w. ?P (wdb w)) ?finish (\<lambda>_ w. ok d0 (wdb w)) (\<lambda>_. True)"
    unfolding thn_def by (rule spec_bnd [OF wait spec_finish_routing])
  then have fin: "spec (\<lambda>w. adopted d0 a (fst row) ad (wdb w))
      (if action ad = Own then ?finish else ret ()) (\<lambda>_ w. ok d0 (wdb w)) (\<lambda>_. True)" for ad
    by (auto intro!: spec_if spec_ret elim!: spec_weaken simp: adopted_def)
  have "ok d0 (env 5 (wdb v))" if "ok d0 (wdb v)" for v :: "'r world"
    using that by (rule rely_ok [OF env])
  with spec_bnd [OF acq fin]
  have "spec (\<lambda>w :: 'r world. ?P (wdb w)) (world_tx (\<lambda>v. env 5 (wdb v)) (bnd (acquire_for R fuel c env me row) (\<lambda>ad.
      if action ad = Own then ?finish else ret ()))) (\<lambda>_ w. ok d0 (wdb w)) (\<lambda>w. ok d0 (wdb w))"
    unfolding spec_def world_tx_def by (fastforce split: prod.splits sum.splits)
  with w show ?thesis
    unfolding pass_2_row_def swallow_def spec_def by (fastforce split: prod.splits sum.splits)
qed

lemma pass_3_row_keeps: "keeps (\<lambda>w. ok d0 (wdb w)) (pass_3_row R c row)"
proof (cases row)
  case (fields fid rid st)
  show ?thesis
    unfolding fields pass_3_row_def prod.case
    by (intro keeps_swallow keeps_world_tx)
      (auto intro!: specI simp: bnd_Inr_iff on_db_def audit_eval read_redis_def split: if_splits sum.splits)
qed

text \<open>
  Pass 4 reads, decides and writes with other workers in between. \<open>unindexed_meanwhile mid\<close>: no one
  indexes a failure between the SELECTs of pass 4 on it and its INSERT.
\<close>

definition unindexed_meanwhile :: "(nat \<Rightarrow> int \<Rightarrow> 'r world \<Rightarrow> 'r world) \<Rightarrow> bool" where
  "unindexed_meanwhile mid \<longleftrightarrow> (\<forall>k \<in> {1, 2}. \<forall>fid w.
     index_of fid (wdb w) = None \<longrightarrow> index_of fid (wdb (mid k fid w)) = None)"

lemma drop_entry_keeps:
  "keeps (\<lambda>w. ok d0 (wdb w)) (drop_entry R c st rid tab fid md)"
  unfolding drop_entry_def
  by (intro keeps_world_tx specI)
    (auto simp: thn_Inr_iff on_redis_def on_db_def xdel_audit_def audit_eval
      split: prod.splits sum.splits if_splits)

lemma index_entry_keeps:
  fixes others :: "'r world \<Rightarrow> 'r world"
  assumes rely: "world_rely others"
    and w: "ok d0 (wdb w)" "logged (wdb w) a fid" "index_of fid (wdb w) = None"
  shows "ok d0 (wdb (snd (index_entry c others st rid fid w)))"
proof -
  let ?v = "others (w\<lparr>wdb := index_dn fid rid (wdb w)\<rparr>)"
  have undone: "ok d0 (wdb (others w))" using rely w(1) by (meson world_rely_def okD ok_step)
  have i: "ok d0 (index_dn fid rid (wdb w))" "index_of fid (index_dn fid rid (wdb w)) = Some rid"
    using index_dn_keeps [OF w] by simp_all
  have "dl_inv (wdb ?v) \<and> dl_le (index_dn fid rid (wdb w)) (wdb ?v)"
    using rely okD [OF i(1)] unfolding world_rely_def by (auto dest: spec [of _ "w\<lparr>wdb := index_dn fid rid (wdb w)\<rparr>"])
  with i have "ok d0 (wdb ?v)" "index_of fid (wdb ?v) = Some rid"
    by (auto intro: ok_step index_mono)
  then have "ok d0 ((wdb ?v)\<lparr>dl_log := mark_routed c fid rid (dl_log (wdb ?v))\<rparr>)"
    using mark_routed_keeps okD by (blast intro: ok_step)
  with undone show ?thesis
    by (auto simp: index_entry_def world_tx_def thn_def bnd_def on_db_def modify_def
        deadletter_audit_def audit_eval)
qed

lemma reconcile_pass4_keeps:
  fixes R :: "'r redis_api"
  assumes mid: "\<And>k fid. world_rely (mid k fid)" and quiet: "unindexed_meanwhile mid"
  shows "keeps (\<lambda>w. ok d0 (wdb w)) (reconcile_pass4_entry R c mid st rid fid)"
  unfolding reconcile_pass4_entry_def
proof (intro keeps_swallow keepsI)
  fix w :: "'r world"
  assume w: "ok d0 (wdb w)"
  have step: "ok d0 (wdb (mid k fid v))" if "ok d0 (wdb v)" for k v
    using mid that by (meson world_rely_def okD ok_step)
  have stay: "index_of fid (wdb (mid k fid v)) = None" if "index_of fid (wdb v) = None" "k = 1 \<or> k = 2" for k v
    using quiet that unfolding unindexed_meanwhile_def by auto
  have drop: "ok d0 (wdb (snd (drop_entry R c st rid tab fid md v)))" if "ok d0 (wdb v)" for tab md v
    using keepsD [OF drop_entry_keeps surjective_pairing that] .
  let ?w1 = "mid 1 fid w" and ?w2 = "mid 2 fid (mid 1 fid w)"
  have ins: "ok d0 (wdb (snd (index_entry c (mid 3 fid) st rid fid ?w2)))"
    if none: "index_of fid (wdb w) = None" and "log_of fid (wdb ?w1) \<noteq> None"
  proof -
    from that(2) obtain a where a: "logged (wdb ?w1) a fid"
      using logged_ex [of fid "wdb ?w1"] by (auto simp: log_of_def dest: sql_find_Some_iff)
    have "dl_le (wdb ?w1) (wdb ?w2)" using mid [of 2 fid] okD [OF step [OF w, of 1]] by (simp add: world_rely_def)
    with a have "logged (wdb ?w2) a fid" by (rule logged_mono)
    moreover have "index_of fid (wdb ?w2) = None" using none by (intro stay) auto
    ultimately show ?thesis using step [OF step [OF w]] by (intro index_entry_keeps [OF mid])
  qed
  show "ok d0 (wdb (snd (bnd (gets (\<lambda>w. index_of fid (wdb w))) (\<lambda>existing.
       thn (modify (mid 1 fid))
       (case existing of
         Some canonical \<Rightarrow>
           if canonical = rid then ret ()
           else drop_entry R c st rid ''deadletter_redis_index'' fid
                (jobj [(''redis_message_id'', JStr (rid_str rid)),
                       (''canonical_redis_message_id'', JStr (rid_str canonical)),
                       (''stream_name'', jlit st), (''reason'', jlit ''duplicate_orphan_already_indexed'')])
       | None \<Rightarrow>
           bnd (gets (\<lambda>w. log_of fid (wdb w))) (\<lambda>row.
             thn (modify (mid 2 fid))
             (if row = None then
               drop_entry R c st rid ''deadletter_log'' fid
                  (jobj [(''redis_message_id'', JStr (rid_str rid)), (''stream_name'', jlit st),
                         (''reason'', jlit ''orphan_without_postgres_log'')])
             else index_entry c (mid 3 fid) st rid fid)))) w)))"
    using step [OF w] step [OF step [OF w]] drop ins
    by (auto simp: bnd_def thn_def gets_def modify_def ret_def split: option.split)
qed

lemma pass_4_entry_keeps:
  assumes "\<And>k fid. world_rely (mid k fid)" and "unindexed_meanwhile mid"
  shows "keeps (\<lambda>w. ok d0 (wdb w)) (pass_4_entry R c mid st e)"
  unfolding pass_4_entry_def
  by (intro keeps_case_option keeps_ret keeps_raise reconcile_pass4_keeps assms)

lemma rely_keeps: "world_rely f \<Longrightarrow> ok d0 (wdb w) \<Longrightarrow> ok d0 (wdb (f w))"
  by (meson world_rely_def okD ok_step)

lemma each_row_keeps:
  fixes w :: "'r world"
  assumes ifr: "\<And>n. world_rely (ifr n)"
    and step: "\<And>x v. x \<in> set xs \<Longrightarrow> ok d0 (wdb v) \<Longrightarrow> ok d0 (wdb (snd (f x v)))"
    and "ok d0 (wdb w)"
  shows "ok d0 (wdb (snd (each_row ifr n f xs w)))"
  using step \<open>ok d0 (wdb w)\<close>
proof (induction xs arbitrary: n w)
  case (Cons x xs)
  have "keeps (\<lambda>w :: 'r world. ok d0 (wdb w)) (modify (ifr m))" for m
    using rely_keeps [OF ifr] by (intro keeps_modify)
  moreover have "keeps (\<lambda>w :: 'r world. ok d0 (wdb w)) (f x)" using Cons.prems(1) by (intro keepsI) simp
  moreover have "keeps (\<lambda>w :: 'r world. ok d0 (wdb w)) (each_row ifr (Suc n) f xs)"
    using Cons.IH Cons.prems(1) by (intro keepsI) simp
  ultimately have "keeps (\<lambda>w. ok d0 (wdb w)) (each_row ifr n f (x # xs))"
    unfolding each_row.simps by (intro keeps_thn)
  with Cons.prems(2) show ?case by (simp add: keeps_def)
qed (simp add: ret_def)

lemma keeps_each_row:
  fixes ifr :: "nat \<Rightarrow> 'r world \<Rightarrow> 'r world"
  assumes "\<And>n. world_rely (ifr n)" and "\<And>x. keeps (\<lambda>w. ok d0 (wdb w)) (f x)"
  shows "keeps (\<lambda>w. ok d0 (wdb w)) (each_row ifr n f xs)"
  using assms by (intro keepsI each_row_keeps) (auto simp: keeps_def)

text \<open>
  The rows a pass selects are logged when it selects them, and stay so. Measured from that
  moment the passes keep \<open>ok\<close>.
\<close>

lemma selected_rows_keep:
  fixes f :: "int \<times> string \<Rightarrow> (error, 'r world, unit) op"
  assumes ifr: "\<And>n. world_rely (ifr n)"
    and step: "\<And>x a v d0. ok d0 (wdb v) \<Longrightarrow> logged (wdb v) a (fst x) \<Longrightarrow> ok d0 (wdb (snd (f x v)))"
    and rows: "\<And>d x. dl_inv d \<Longrightarrow> x \<in> set (rows d) \<Longrightarrow> fst x \<in> dl_failure_id ` set (dl_log d)"
  shows "keeps (\<lambda>w. ok d0 (wdb w)) (bnd (gets (\<lambda>w. rows (wdb w))) (each_row ifr n f))"
proof (rule keepsI)
  fix w :: "'r world" assume w: "ok d0 (wdb w)"
  have "ok (wdb w) (wdb (snd (each_row ifr n f (rows (wdb w)) w)))"
  proof (rule each_row_keeps [OF ifr])
    fix x and v :: "'r world" assume x: "x \<in> set (rows (wdb w))" and v: "ok (wdb w) (wdb v)"
    obtain a where "logged (wdb w) a (fst x)" using rows [OF okD [OF w] x] logged_ex by blast
    with v have "logged (wdb v) a (fst x)" by (auto simp: ok_def intro: logged_mono)
    with v show "ok (wdb w) (wdb (snd (f x v)))" by (rule step)
  qed (use w okD ok_refl in blast)
  with w show "ok d0 (wdb (snd (bnd (gets (\<lambda>w. rows (wdb w))) (each_row ifr n f) w)))"
    by (auto simp: bnd_def gets_def ok_def intro: dl_growth.le_trans)
qed

lemma stale_intents_logged:
  "dl_inv d \<Longrightarrow> x \<in> set (stale_intents c d) \<Longrightarrow> fst x \<in> dl_failure_id ` set (dl_log d)"
  using intent_logged(1) by (auto simp: stale_intents_def dest!: in_set_takeD)

lemma stuck_rows_logged:
  "x \<in> set (stuck_rows c d) \<Longrightarrow> fst x \<in> dl_failure_id ` set (dl_log d)"
  by (auto simp: stuck_rows_def dest!: in_set_takeD)

lemma pass_keeps:
  fixes ifr :: "nat \<Rightarrow> 'r world \<Rightarrow> 'r world"
  assumes ifr: "\<And>n. world_rely (ifr n)" and env: "\<And>n. dl_rely (env n)"
    and mid: "\<And>k fid. world_rely (mid k fid)" "unindexed_meanwhile mid"
  shows "keeps (\<lambda>w. ok d0 (wdb w)) (pass_1_intent_reconciliation R fuel c ifr env me)"
    and "keeps (\<lambda>w. ok d0 (wdb w)) (pass_2_stuck_row_scan R fuel excerpt_text c ifr env me)"
    and "keeps (\<lambda>w. ok d0 (wdb w)) (pass_3_index_to_stream_verification R c ifr)"
    and "keeps (\<lambda>w. ok d0 (wdb w)) (pass_4_stream_to_index_defense_in_depth R xrevrange c ifr mid window)"
proof -
  show "keeps (\<lambda>w. ok d0 (wdb w)) (pass_1_intent_reconciliation R fuel c ifr env me)"
    unfolding pass_1_intent_reconciliation_def
    by (rule selected_rows_keep [where ifr = ifr, OF ifr])
      (auto intro: pass_1_row_keeps [where env = env, OF env] stale_intents_logged)
  show "keeps (\<lambda>w. ok d0 (wdb w)) (pass_2_stuck_row_scan R fuel excerpt_text c ifr env me)"
    unfolding pass_2_stuck_row_scan_def
    by (rule selected_rows_keep [where ifr = ifr, OF ifr])
      (auto intro: pass_2_row_keeps [where env = env, OF env] stuck_rows_logged)
  show "keeps (\<lambda>w. ok d0 (wdb w)) (pass_3_index_to_stream_verification R c ifr)"
    unfolding pass_3_index_to_stream_verification_def
    by (intro keeps_bnd keeps_gets keeps_each_row ifr pass_3_row_keeps)
  have "keeps (\<lambda>w. ok d0 (wdb w)) (pass_4_stream R xrevrange c ifr mid window st)" for st
    using keeps_each_row [where ifr = ifr and f = "pass_4_entry R c mid st", OF ifr pass_4_entry_keeps [OF mid]]
    unfolding pass_4_stream_def keeps_def by (auto split: sum.splits)
  then show "keeps (\<lambda>w. ok d0 (wdb w)) (pass_4_stream_to_index_defense_in_depth R xrevrange c ifr mid window)"
    unfolding pass_4_stream_to_index_defense_in_depth_def
    by (intro keeps_bnd keeps_gets keeps_for_each)
qed

text \<open>C12. The janitor is a good citizen of the routing protocol. Over any number of cycles, with
  other workers acting before every row and between the statements of a row, it keeps the
  dead-letter invariant and never changes a recorded Redis id or an index row, also when passes
  fail. One condition is on the others: between the SELECTs of pass 4 on a failure and its INSERT
  nobody inserts an index row for that failure. Without it pass 4 can break the invariant
  (\<open>pass_4_conflict_breaks_agreement\<close>).\<close>

theorem janitor_keeps_deadletter_ids:
  assumes ifr: "\<And>i p n. world_rely (ifr i p n)" and env: "\<And>i n. dl_rely (env i n)"
    and mid: "\<And>i k fid. world_rely (mid i k fid)" "\<And>i. unindexed_meanwhile (mid i)" and "dl_inv (wdb w)"
    and "stream_deadletter_janitor R xrevrange fuel excerpt_text c ifr env mid me window n w = (res, w')"
  shows "dl_inv (wdb w') \<and> dl_le (wdb w) (wdb w')"
proof -
  let ?P = "\<lambda>v. ok (wdb w) (wdb v)"
  have "keeps ?P (janitor_cycle R xrevrange fuel excerpt_text c0 (ifr i) (env i) (mid i) me window)" for c0 i
    unfolding janitor_cycle_def Let_def
    by (intro keeps_swallow keeps_thn pass_keeps [where env = "env i" and mid = "mid i", OF ifr env mid])
  then have "keeps ?P (stream_deadletter_janitor R xrevrange fuel excerpt_text c ifr env mid me window n)"
    by (induction n) (auto intro: keeps_ret keeps_thn)
  from keepsD [OF this assms(6)] ok_refl [OF assms(5)] show ?thesis by (simp add: ok_def)
qed

end
