(* ===== verification/Janitor_Recovery.thy ===== *)
theory Janitor_Recovery
  imports Janitor
begin

text \<open>
  What the janitor and the heartbeat achieve: a worker that keeps its heartbeat is never
  robbed of its intent, a stuck row is routed by one run of pass 2 without a duplicate entry,
  and the run in which pass 4 and a live worker together lose an entry.
\<close>

section \<open>Heartbeat\<close>

lemma heartbeat_intent:
  "intent_of fid d = Some it \<Longrightarrow> it_owner_id it = me \<Longrightarrow>
   intent_of fid (heartbeat_active_intents c me d) = Some (it\<lparr>it_owner_heartbeat_at := ctx_now c\<rparr>)"
  by (simp add: intent_of_def heartbeat_active_intents_def sql_find_update_key)

text \<open>A live owner keeps its intent. Until 60 seconds after a heartbeat of the owner, every
  other worker that tries to acquire the same failure is told to abort and changes nothing, and
  pass 1 of the janitor does not select the intent.\<close>

lemma heartbeat_blocks_adoption:
  assumes "intent_of fid d = Some it" and "it_owner_id it = me" and "me \<noteq> other"
    and "distinct (map it_failure_id (dl_intent d))"
    and "ctx_now c' - ctx_now c < stale_age"
  shows "acquire_or_adopt_intent R r fuel c' (\<lambda>_ d. d) fid other lb st 0 (heartbeat_active_intents c me d) =
      (Inr \<lparr>action = Abort, lower_bound = None, adopted_message_id = None\<rparr>, heartbeat_active_intents c me d) \<and>
    fid \<notin> fst ` set (stale_intents c' (heartbeat_active_intents c me d))"
proof -
  let ?d = "heartbeat_active_intents c me d"
  have it: "intent_of fid ?d = Some (it\<lparr>it_owner_heartbeat_at := ctx_now c\<rparr>)"
    using assms(1,2) by (rule heartbeat_intent)
  have abort: "acquire_or_adopt_intent R r fuel c' (\<lambda>_ d. d) fid other lb st 0 ?d =
      (Inr \<lparr>action = Abort, lower_bound = None, adopted_message_id = None\<rparr>, ?d)"
    using it assms(2,3,5) by (subst acquire_or_adopt_intent.simps) (simp add: adopt_existing_def ret_def)
  have keys: "map it_failure_id (dl_intent ?d) = map it_failure_id (dl_intent d)"
    by (simp add: heartbeat_active_intents_def sql_update_keys)
  have "it_owner_heartbeat_at j = ctx_now c" if j: "j \<in> set (dl_intent ?d)" "it_failure_id j = fid" for j
    using it sql_find_unique [of it_failure_id "dl_intent ?d" j] assms(4) j keys by (auto simp: intent_of_def)
  then have "fid \<notin> fst ` set (stale_intents c' ?d)"
    using assms(5) by (force simp: stale_intents_def dest!: in_set_takeD)
  with abort show ?thesis by blast
qed

lemma heartbeat_blocks_adoption_witness:
  "let d = heartbeat_active_intents sample_ctx ''worker-0'' (wdb crashed_world) in
   acquire_or_adopt_intent mem_api mem_empty 5 (sample_ctx\<lparr>ctx_now := ctx_now sample_ctx + 59 * 10 ^ 6\<rparr>)
     (\<lambda>_ d. d) 1 ''worker-1'' rid_zero ''s'' 0 d =
     (Inr \<lparr>action = Abort, lower_bound = None, adopted_message_id = None\<rparr>, d)"
proof -
  obtain it where it: "intent_of 1 (wdb crashed_world) = Some it" "it_owner_id it = ''worker-0''"
    "distinct (map it_failure_id (dl_intent (wdb crashed_world)))"
    by (simp add: crashed_world_def intent_of_def)
  show ?thesis
    unfolding Let_def
    by (rule heartbeat_blocks_adoption [OF it(1,2) _ it(3), THEN conjunct1]) (simp_all add: stale_age_def)
qed

section \<open>Stuck rows\<close>

text \<open>Pass 4 between its SELECTs and its INSERT. A worker that holds the row of the failure as its own
  commits its index row after pass 4 has read that there is none: the INSERT of pass 4 does nothing,
  and its UPDATE still records the id of the entry it looks at. The log names one entry and the index
  another.\<close>

lemma pass_4_conflict_breaks_agreement:
  assumes inv: "dl_inv (wdb w)" and row: "log_of fid (wdb w) = Some l" "dl_routed_at_redis l = None"
    and free: "index_of fid (wdb w) = None" and "rid \<noteq> other"
    and audit: "\<not> (ctx_actor c = None \<and> ctx_strict c)"
    and mid: "mid = (\<lambda>k _ v. if k = 2 then snd (in_db (step_3_index_insert fid other) v) else v)"
    and run: "reconcile_pass4_entry R c mid st rid fid w = (res, w')"
  shows "index_of fid (wdb w') = Some other \<and>
    (\<exists>l' \<in> set (dl_log (wdb w')). dl_failure_id l' = fid \<and> dl_redis_message_id l' = Some rid) \<and>
    \<not> dl_inv (wdb w')"
proof -
  let ?d = "(wdb w)\<lparr>dl_index := dl_index (wdb w) @ [\<lparr>ix_failure_id = fid, ix_redis_message_id = other\<rparr>],
      dl_intent := sql_delete (\<lambda>i. it_failure_id i = fid) (dl_intent (wdb w))\<rparr>"
  have stored: "snd (in_db (step_3_index_insert fid other) w) = w\<lparr>wdb := ?d\<rparr>"
    using free by (simp add: in_db_def run_tx_def step_3_index_insert_def)
  have idx: "index_of fid ?d = Some other"
    using free by (simp add: index_of_def sql_find_append)
  have dn: "index_dn fid rid ?d = ?d"
    using idx by (auto simp: index_dn_def sql_insert_dn_def index_of_def dest: sql_find_Some_iff)
  obtain u where w': "wdb w' = ?d\<lparr>dl_log := mark_routed c fid rid (dl_log (wdb w)), audit_events := u\<rparr>"
    using run row(1) free audit
    by (auto simp: reconcile_pass4_entry_def mid stored index_entry_def dn swallow_def world_tx_def bnd_def thn_def
        gets_def modify_def on_db_def deadletter_audit_def audit_eval)
  have l: "l \<in> set (dl_log (wdb w))" "dl_failure_id l = fid"
    using row(1) by (auto simp: log_of_def dest: sql_find_Some_iff)
  then have "routed_row c fid rid l \<in> set (dl_log (wdb w'))" by (simp add: w' mark_routed_map)
  then have log: "\<exists>l' \<in> set (dl_log (wdb w')). dl_failure_id l' = fid \<and> dl_redis_message_id l' = Some rid"
    using l row(2) by (intro bexI [of _ "routed_row c fid rid l"]) simp_all
  moreover have ix: "index_of fid (wdb w') = Some other" using idx by (simp add: w' index_of_def)
  moreover have "\<not> dl_inv (wdb w')" using log ix \<open>rid \<noteq> other\<close> unfolding dl_inv_def by fastforce
  ultimately show ?thesis by blast
qed

lemma finish_log_ok:
  assumes "\<not> (ctx_actor c = None \<and> ctx_strict c)"
  shows "\<exists>u. finish_log c l fid rid d = (Inr (), d\<lparr>dl_log := mark_routed c fid rid (dl_log d),
    dl_intent := sql_delete (\<lambda>i. it_failure_id i = fid) (dl_intent d), audit_events := u\<rparr>)"
  using assms by (auto simp: finish_log_def deadletter_audit_def audit_eval)

lemma log_of_mark:
  "log_of fid d = Some l \<Longrightarrow> dl_routed_at_redis l = None \<Longrightarrow>
   log_of fid (d\<lparr>dl_log := mark_routed c fid rid (dl_log d), dl_intent := x, audit_events := u\<rparr>) =
     Some (l\<lparr>dl_redis_message_id := Some rid, dl_routed_at_redis := Some (ctx_now c)\<rparr>)"
  using sql_find_Some_iff [of "\<lambda>l. dl_failure_id l = fid" "dl_log d" l]
  by (simp add: log_of_def mark_routed_def sql_find_update_key)

lemma index_of_index_dn:
  "index_of fid (index_dn fid rid d) = (case index_of fid d of Some x \<Rightarrow> Some x | None \<Rightarrow> Some rid)"
  by (simp add: index_dn_def index_insert_dn split: option.splits)

text \<open>The entry a stuck row already has: the indexed one, or else the first of its failure in the stream.\<close>

definition prior_copy :: "int \<Rightarrow> db \<Rightarrow> (redis_id \<times> fields) list \<Rightarrow> redis_id option" where
  "prior_copy fid d es = (case index_of fid d of Some x \<Rightarrow> Some x | None \<Rightarrow> page_hit fid es)"

text \<open>Pass 2 settles a stuck row. With Redis answering, one transaction routes a log row that
  has no Redis id and no intent: the log row and the index row carry one id, no intent is left.
  If the failure has an entry already, indexed or not, its id is taken and the stream is not
  touched; otherwise exactly one entry is added.\<close>

lemma pass_2_settles_stuck_row:
  assumes redis: "redis_streams R entries"
    and up: "redis_up R (wredis w) (deadletter_stream (dl_stream_name l))"
    and fuel: "length (entries (wredis w) (deadletter_stream (dl_stream_name l))) < fuel"
    and add: "xadd R (deadletter_stream (dl_stream_name l)) (janitor_fields excerpt_text l) (wredis w) = (Inr i, r')"
    and audit: "\<not> (ctx_actor c = None \<and> ctx_strict c)"
    and row: "log_of fid (wdb w) = Some l" "dl_routed_at_redis l = None" "intent_of fid (wdb w) = None"
    and quiet: "env 4 = (\<lambda>d. d)"
  shows "\<exists>w' rid. pass_2_row R fuel excerpt_text c env me (fid, dl_stream_name l) w = (Inr (), w') \<and>
    index_of fid (wdb w') = Some rid \<and> intent_of fid (wdb w') = None \<and>
    log_of fid (wdb w') = Some (l\<lparr>dl_redis_message_id := Some rid, dl_routed_at_redis := Some (ctx_now c)\<rparr>) \<and>
    (case prior_copy fid (wdb w) (entries (wredis w) (deadletter_stream (dl_stream_name l))) of
       Some x \<Rightarrow> rid = x \<and> wredis w' = wredis w
     | None \<Rightarrow> rid = i \<and> wredis w' = r')"
proof -
  let ?dls = "deadletter_stream (dl_stream_name l)"
  let ?E = "entries (wredis w) ?dls"
  obtain lb where lb: "capture_redis_lower_bound R ?dls w = (Inr lb, w)" using capture_eval by blast
  let ?it = "\<lparr>it_failure_id = fid, it_stream_name = dl_stream_name l, it_intent_at = ctx_now c,
      it_redis_lower_bound_id = lb, it_owner_id = me, it_owner_heartbeat_at = ctx_now c\<rparr>"
  let ?d1 = "(wdb w)\<lparr>dl_intent := dl_intent (wdb w) @ [?it]\<rparr>"
  have acq: "acquire_for R fuel c env me (fid, dl_stream_name l) w =
      (Inr \<lparr>action = Own, lower_bound = Some lb, adopted_message_id = None\<rparr>, w\<lparr>wdb := ?d1\<rparr>)"
    unfolding acquire_for_def prod.case bnd_def lb using row(3)
    by (simp add: on_db_def) (subst acquire_or_adopt_intent.simps, simp)
  have scan: "find_orphan_in_deadletter_stream R (wredis w) fuel (dl_stream_name l) rid_zero fid 10000 =
      Inr (page_hit fid ?E)"
  proof -
    have "filter (\<lambda>e. rid_zero \<le> fst e) ?E = ?E"
      by (auto simp: rid_zero_def less_eq_redis_id_def filter_id_conv)
    then show ?thesis
      using redis_streams.find_orphan_complete [OF redis, of 10000] up fuel by (simp add: deadletter_stream_def)
  qed
  define rid where "rid = (case prior_copy fid (wdb w) ?E of Some x \<Rightarrow> x | None \<Rightarrow> i)"
  define r where "r = (case prior_copy fid (wdb w) ?E of Some x \<Rightarrow> wredis w | None \<Rightarrow> r')"
  define d2 where "d2 = (if index_of fid (wdb w) = None then index_dn fid rid ?d1 else ?d1)"
  have log1: "log_of fid ?d1 = Some l" using row(1) by (simp add: log_of_def)
  have idx1: "index_of fid ?d1 = index_of fid (wdb w)" by simp
  let ?d3 = "\<lambda>u. d2\<lparr>dl_log := mark_routed c fid rid (dl_log d2),
    dl_intent := sql_delete (\<lambda>i. it_failure_id i = fid) (dl_intent d2), audit_events := u\<rparr>"
  obtain u where fin: "finish_log c l fid rid d2 = (Inr (), ?d3 u)"
    using finish_log_ok [OF audit, of l fid rid d2] by blast
  have run: "finish_routing_after_adoption R fuel excerpt_text c fid (w\<lparr>wdb := ?d1\<rparr>) = (Inr (), \<lparr>wdb = ?d3 u, wredis = r\<rparr>)"
    unfolding finish_routing_after_adoption_def resolve_canonical_orphan_def
    using fin add
    by (auto simp: bnd_def thn_def gets_def ret_def modify_def log1 idx1 scan on_db_def on_redis_def
        d2_def rid_def r_def prior_copy_def split: option.splits)
  have "pass_2_row R fuel excerpt_text c env me (fid, dl_stream_name l) w = (Inr (), \<lparr>wdb = ?d3 u, wredis = r\<rparr>)"
    unfolding pass_2_row_def swallow_def world_tx_def bnd_def acq
    by (simp add: run quiet thn_def bnd_def on_db_def modify_def)
  moreover have "index_of fid (?d3 u) = Some rid"
    by (auto simp: d2_def rid_def index_of_index_dn prior_copy_def split: option.splits)
  moreover have "intent_of fid (?d3 u) = None"
    by (simp add: intent_of_def sql_delete_def sql_find_None_iff)
  moreover have "log_of fid d2 = Some l" using log1 by (simp add: d2_def index_dn_def log_of_def)
  note log_of_mark [OF this row(2)]
  ultimately show ?thesis
    by (intro exI [of _ "\<lparr>wdb = ?d3 u, wredis = r\<rparr>"] exI [of _ rid])
      (auto simp: rid_def r_def split: option.splits)
qed

lemma pass_2_settles_stuck_row_witness:
  "\<exists>w'. pass_2_row mem_api 5 id sample_ctx (\<lambda>_ d. d) ''janitor'' (1, ''aslan.documents.new'')
      (crashed_world\<lparr>wdb := (wdb crashed_world)\<lparr>dl_intent := []\<rparr>\<rparr>) = (Inr (), w') \<and>
    index_of 1 (wdb w') = Some (Rid 1 0) \<and> wredis w' = wredis crashed_world"
proof -
  let ?w = "crashed_world\<lparr>wdb := (wdb crashed_world)\<lparr>dl_intent := []\<rparr>\<rparr>"
  let ?l = "new_log_row sample_ctx (\<lambda>_. True) id sample_args 1"
  have l: "log_of 1 (wdb ?w) = Some ?l" "dl_routed_at_redis ?l = None" "intent_of 1 (wdb ?w) = None"
    "dl_stream_name ?l = ''aslan.documents.new''" "index_of 1 (wdb ?w) = None"
    by (simp_all add: crashed_world_def log_of_def intent_of_def new_log_row_def sample_args_def index_of_def empty_db_def)
  have E: "ms_entries (wredis ?w) (deadletter_stream (dl_stream_name ?l)) = [(Rid 1 0, deadletter_fields sample_args 1)]"
    unfolding l(4) by (simp add: crashed_world_def deadletter_stream_def)
  have "page_hit 1 [(Rid 1 0, deadletter_fields sample_args 1)] = Some (Rid 1 0)"
    by (simp add: page_hit_def entry_failure_id_def deadletter_fields_def py_int_int_str)
  then have prior: "prior_copy 1 (wdb ?w) (ms_entries (wredis ?w) (deadletter_stream (dl_stream_name ?l))) = Some (Rid 1 0)"
    unfolding E prior_copy_def l(5) by simp
  obtain i r' where add: "xadd mem_api (deadletter_stream (dl_stream_name ?l)) (janitor_fields id ?l) (wredis ?w) = (Inr i, r')"
    by (simp add: mem_api_def)
  have "length (ms_entries (wredis ?w) (deadletter_stream (dl_stream_name ?l))) < 5" unfolding E by simp
  from pass_2_settles_stuck_row [OF mem.redis_streams_axioms mem_up this add _ l(1-3), of sample_ctx "\<lambda>_ d. d" "''janitor''"]
  show ?thesis unfolding prior unfolding l(4) by (auto simp: sample_ctx_fields)
qed

section \<open>A race that loses an entry\<close>

text \<open>C36. Pass 4 can make a live worker delete its own entry. A worker has added its entry and
  not yet inserted the index row; pass 4 sees the entry and indexes it on the worker's behalf.
  The worker's insert then conflicts, it takes that for a lost race, deletes its entry without
  comparing ids, and reports the routing as complete: log and index name an entry that no
  longer exists.\<close>

theorem pass_4_race_loses_entry:
  "\<exists>w'. route_to_deadletter mem_api 5 (\<lambda>_. True) id sample_ctx
      (\<lambda>n w. if n = 4 then snd (reconcile_pass4_entry mem_api sample_ctx (\<lambda>_ _ w. w) ''aslan.documents.new'' (Rid 1 0) 1 w) else w)
      (\<lambda>_ d. d) sample_args sample_world = (Inr (RoutingComplete (Rid 1 0)), w') \<and>
    routed (wdb w') sample_args (Rid 1 0) \<and>
    ms_entries (wredis w') ''aslan.documents.new.deadletter'' = []"
proof -
  have acq: "acquire_or_adopt_intent mem_api r 5 sample_ctx (\<lambda>_ d. d) fid me lb st 0 d =
      (Inr \<lparr>action = Own, lower_bound = Some lb, adopted_message_id = None\<rparr>,
       d\<lparr>dl_intent := dl_intent d @ [\<lparr>it_failure_id = fid, it_stream_name = st, it_intent_at = ctx_now sample_ctx,
         it_redis_lower_bound_id = lb, it_owner_id = me, it_owner_heartbeat_at = ctx_now sample_ctx\<rparr>]\<rparr>)"
    if "intent_of fid d = None" for r fid me lb st d
    using that by (subst acquire_or_adopt_intent.simps) simp
  have api: "xadd mem_api st f r = (Inr (Rid (ms_clock r) 0), ms_add st f r)" "xdel mem_api st i r = (Inr (), ms_del st i r)"
    "xinfo_last mem_api r st = (if ms_entries r st = [] then Inl RedisNoSuchKey
       else Inr (Some (fst (last (ms_entries r st)))))" for st f r i
    by (simp_all add: mem_api_def)
  show ?thesis
    unfolding route_to_deadletter_def route_own_def route_store_def route_lost_def step_4_update_log_and_audit_def
      reconcile_pass4_entry_def index_entry_def
    by (simp add: sample_world_def empty_db_def sample_args_def bnd_def thn_def gets_def modify_def ret_def
        in_db_def run_tx_def step_1_log_insert_def api capture_redis_lower_bound_def acq intent_of_def
        index_of_def log_key_def args_key_def on_redis_def on_db_def deadletter_stream_def log_of_def index_dn_def
        swallow_def world_tx_def mark_routed_def sql_update_def sql_insert_dn_def sql_count_def
        deadletter_audit_def audit_eval sample_ctx_fields step_3_index_insert_def
        try_redis_def step_4_update_log_def routed_def)
qed

theorem janitor_keeps_deadletter_ids_witness:
  "case stream_deadletter_janitor mem_api (\<lambda>r st n. Inr (take n (rev (ms_entries r st)))) 5 id (\<lambda>_. sample_ctx)
      (\<lambda>_ _ _ w. w) (\<lambda>_ _ d. d) (\<lambda>_ _ _ w. w) ''janitor'' 10 3 crashed_world of (res, w') \<Rightarrow>
    dl_inv (wdb w') \<and> dl_le (wdb crashed_world) (wdb w')"
proof -
  have inv: "dl_inv (wdb crashed_world)"
    by (simp add: crashed_world_def empty_db_def dl_inv_def new_log_row_def)
  have quiet: "unindexed_meanwhile (\<lambda>_ _ w :: mem_server world. w)" by (simp add: unindexed_meanwhile_def)
  show ?thesis
    using janitor_keeps_deadletter_ids [where ifr = "\<lambda>_ _ _ w. w" and env = "\<lambda>_ _ d. d" and mid = "\<lambda>_ _ _ w. w",
        OF id_rely id_rely(1) quiet inv surjective_pairing]
    unfolding case_prod_unfold by blast
qed

end
