(* ===== verification/Watermarks.thy ===== *)
theory Watermarks
  imports Database
begin

text \<open>
  The watermark store (\<open>ingestion/watermarks.py\<close>): cursors per (source, job, key) with a
  compare-and-swap \<open>advance\<close>, an unconditional \<open>set\<close>, and lookups. Its contract is a
  compare-and-swap register per key (\<open>cas_store\<close>); the table, with its audit rows, refines it.
\<close>

section \<open>Operations\<close>

type_synonym wm_id = "string \<times> string \<times> string"

definition wm_id :: "watermark \<Rightarrow> wm_id" where
  "wm_id r = (wm_source_id r, wm_job_name r, wm_key r)"

definition watermark_get :: "wm_id \<Rightarrow> db \<Rightarrow> string option" where
  "watermark_get k d = map_option wm_cursor_value (sql_find (\<lambda>r. wm_id r = k) (watermarks d))"

definition watermark_row :: "ctx \<Rightarrow> wm_id \<Rightarrow> string \<Rightarrow> watermark" where
  "watermark_row c k v = \<lparr>wm_source_id = fst k, wm_job_name = fst (snd k), wm_key = snd (snd k),
     wm_cursor_value = v, wm_updated_at = ctx_now c, wm_audit = audit_cols_of (ctx_actor c)\<rparr>"

definition watermark_pk :: "wm_id \<Rightarrow> (string \<times> json) list" where
  "watermark_pk k = [(''source_id'', jlit (fst k)), (''job_name'', jlit (fst (snd k))), (''key'', jlit (snd (snd k)))]"

definition watermark_snap :: "wm_id \<Rightarrow> string \<Rightarrow> json" where
  "watermark_snap k v = jobj (watermark_pk k @ [(''cursor_value'', jlit v)])"

definition watermark_audit ::
  "ctx \<Rightarrow> string \<Rightarrow> wm_id \<Rightarrow> string option \<Rightarrow> string \<Rightarrow> json \<Rightarrow> (error, db, unit) op" where
  "watermark_audit c oper k old new md = audit c
     \<lparr>ar_operation = oper, ar_target_schema = ''src'', ar_target_table = ''watermark'',
      ar_target_pk = jobj (watermark_pk k), ar_before = map_option (watermark_snap k) old,
      ar_after = Some (watermark_snap k new), ar_metadata = md, ar_ingestion_run_id = None\<rparr>"

text \<open>
  \<open>advance\<close>: insert-only without an expected cursor, conditional update with one. An insert for
  a source that does not exist violates the foreign key.
\<close>

definition advance :: "ctx \<Rightarrow> wm_id \<Rightarrow> string \<Rightarrow> string option \<Rightarrow> (error, db, bool) op" where
  "advance c k new expected = thn (assert_actor_or_strict_raise c)
     (case expected of
        None \<Rightarrow> (\<lambda>d.
          if k \<in> wm_id ` set (watermarks d) then (Inr False, d)
          else if fst k \<notin> set (sources d) then (Inl (ServiceE IntegrityError), d)
          else thn (modify (\<lambda>d. d\<lparr>watermarks := watermarks d @ [watermark_row c k new]\<rparr>))
              (thn (watermark_audit c ''watermark.advance'' k None new (jobj [(''path'', jlit ''insert'')]))
              (ret True)) d)
      | Some e \<Rightarrow> (\<lambda>d.
          if sql_count (\<lambda>r. wm_id r = k \<and> wm_cursor_value r = e) (watermarks d) = 1 then
            thn (modify (\<lambda>d. d\<lparr>watermarks := sql_update (\<lambda>r. wm_id r = k \<and> wm_cursor_value r = e)
                   (\<lambda>_. watermark_row c k new) (watermarks d)\<rparr>))
           (thn (watermark_audit c ''watermark.advance'' k (Some e) new (jobj [(''path'', jlit ''cas'')]))
           (ret True)) d
          else (Inr False, d)))"

definition force_set :: "ctx \<Rightarrow> wm_id \<Rightarrow> string \<Rightarrow> (error, db, unit) op" where
  "force_set c k v = thn (assert_actor_or_strict_raise c)
     (bnd (gets (watermark_get k)) (\<lambda>existing.
        if existing = Some v then
          watermark_audit c ''watermark.idempotent_hit'' k (Some v) v (jobj [(''returned_existing'', JBool True)])
        else (\<lambda>d.
          if existing = None \<and> fst k \<notin> set (sources d) then (Inl (ServiceE IntegrityError), d)
          else thn (modify (\<lambda>d. d\<lparr>watermarks :=
                 (if existing = None then watermarks d @ [watermark_row c k v]
                  else sql_update (\<lambda>r. wm_id r = k) (\<lambda>_. watermark_row c k v) (watermarks d))\<rparr>))
              (watermark_audit c (if existing = None then ''watermark.set'' else ''watermark.force_set'') k existing v
                 (jobj [])) d)))"

definition list_for_job :: "string \<Rightarrow> string \<Rightarrow> db \<Rightarrow> (string \<times> string) list" where
  "list_for_job sid job d = map (\<lambda>r. (wm_key r, wm_cursor_value r))
     (filter (\<lambda>r. wm_source_id r = sid \<and> wm_job_name r = job) (watermarks d))"

section \<open>A compare-and-swap register per key\<close>

locale cas_store =
  fixes look :: "'k \<Rightarrow> 's \<Rightarrow> 'v option"
    and adv :: "'k \<Rightarrow> 'v \<Rightarrow> 'v option \<Rightarrow> 's \<Rightarrow> bool \<times> 's"
    and inv :: "'s \<Rightarrow> bool"
    and allowed :: "'k \<Rightarrow> 's \<Rightarrow> bool"
  assumes adv_result: "inv s \<Longrightarrow> allowed k s \<Longrightarrow> fst (adv k new expected s) \<longleftrightarrow> look k s = expected"
    and adv_look: "inv s \<Longrightarrow> allowed k s \<Longrightarrow> look k' (snd (adv k new expected s)) =
      (if look k s = expected \<and> k' = k then Some new else look k' s)"
    and adv_inv: "inv s \<Longrightarrow> inv (snd (adv k new expected s))"
    and adv_allowed: "allowed k' (snd (adv k new expected s)) = allowed k' s"
begin

fun race :: "'k \<Rightarrow> 'v option \<Rightarrow> 'v list \<Rightarrow> 's \<Rightarrow> bool list \<times> 's" where
  "race k expected [] s = ([], s)"
| "race k expected (v # vs) s =
     (case adv k v expected s of (b, s') \<Rightarrow> (case race k expected vs s' of (bs, s'') \<Rightarrow> (b # bs, s'')))"

lemma race_lost:
  assumes "inv s" "allowed k s" "look k s \<noteq> expected"
  shows "fst (race k expected vs s) = replicate (length vs) False \<and> look k (snd (race k expected vs s)) = look k s"
  using assms
proof (induction vs arbitrary: s)
  case (Cons v vs)
  obtain b s' where a: "adv k v expected s = (b, s')" by fastforce
  from Cons.prems adv_result [of s k v expected] adv_look [of s k k v expected] adv_inv [of s k v expected]
    adv_allowed [of k k v expected s] a
  have "\<not> b" "look k s' = look k s" "inv s'" "allowed k s'" by auto
  with Cons.IH [of s'] Cons.prems(3) show ?case by (simp add: a case_prod_unfold)
qed simp

lemma race_single_winner:
  assumes "inv s" "allowed k s" "look k s = expected" "Some v \<noteq> expected"
  shows "fst (race k expected (v # vs) s) = True # replicate (length vs) False \<and>
    look k (snd (race k expected (v # vs) s)) = Some v"
proof -
  obtain b s' where a: "adv k v expected s = (b, s')" by fastforce
  from assms adv_result [of s k v expected] adv_look [of s k k v expected] adv_inv [of s k v expected]
    adv_allowed [of k k v expected s] a
  have "b" "look k s' = Some v" "inv s'" "allowed k s'" by auto
  with race_lost [of s' k expected vs] assms(4) show ?thesis by (simp add: a case_prod_unfold)
qed

end

section \<open>The table refines it\<close>

definition wm_ok :: "db \<Rightarrow> bool" where
  "wm_ok d \<longleftrightarrow> distinct (map wm_id (watermarks d))"

abbreviation actor_allowed :: "ctx \<Rightarrow> bool" where
  "actor_allowed c \<equiv> \<not> (ctx_actor c = None \<and> ctx_strict c)"

lemma wm_id_row [simp]: "wm_id (watermark_row c k v) = k"
  by (simp add: wm_id_def watermark_row_def)

lemma wm_value_row [simp]: "wm_cursor_value (watermark_row c k v) = v"
  by (simp add: watermark_row_def)

lemma count_cursor_list:
  "distinct (map wm_id t) \<Longrightarrow> sql_count (\<lambda>r. wm_id r = k \<and> wm_cursor_value r = e) t =
    (if map_option wm_cursor_value (sql_find (\<lambda>r. wm_id r = k) t) = Some e then 1 else 0)"
proof (induction t)
  case (Cons r t)
  have "sql_count (\<lambda>r. wm_id r = k \<and> wm_cursor_value r = e) t = 0" if "wm_id r = k"
    using Cons.prems that unfolding sql_count_zero_iff by (force simp: image_iff)
  with Cons show ?case by (cases "wm_id r = k") (simp_all add: sql_count_def)
qed (simp add: sql_count_def)

lemma count_cursor:
  "wm_ok d \<Longrightarrow> sql_count (\<lambda>r. wm_id r = k \<and> wm_cursor_value r = e) (watermarks d) =
    (if watermark_get k d = Some e then 1 else 0)"
  unfolding wm_ok_def watermark_get_def by (rule count_cursor_list)

lemma map_id_update:
  "map wm_id (sql_update (\<lambda>r. wm_id r = k \<and> p r) (\<lambda>_. watermark_row c k v) t) = map wm_id t"
  by (auto simp: sql_update_def)

lemma find_update_row:
  "sql_find (\<lambda>r. wm_id r = k') (sql_update (\<lambda>r. wm_id r = k \<and> p r) (\<lambda>_. watermark_row c k v) t) =
     map_option (\<lambda>r. if wm_id r = k \<and> p r then watermark_row c k v else r) (sql_find (\<lambda>r. wm_id r = k') t)"
  by (induction t) (auto simp: sql_update_def)

lemma watermark_audit_eval:
  "actor_allowed c \<Longrightarrow> \<exists>ev. watermark_audit c oper k old new md d =
     (Inr (), d\<lparr>audit_events := log_event ev (audit_events d)\<rparr>) \<and> ev_operation ev = oper"
  by (cases "ctx_actor c") (auto simp: watermark_audit_def audit_eval attributed_event_def)

text \<open>The outcome of \<open>advance\<close>: a compare-and-swap on the cursor, with one audit row when it hits.\<close>

lemma advance_cas:
  assumes ok: "wm_ok d" and allowed: "actor_allowed c" and src: "fst k \<in> set (sources d)"
  shows "\<exists>d'. advance c k new expected d = (Inr (watermark_get k d = expected), d') \<and> wm_ok d' \<and>
    sources d' = sources d \<and>
    (\<forall>k'. watermark_get k' d' = (if watermark_get k d = expected \<and> k' = k then Some new else watermark_get k' d)) \<and>
    (if watermark_get k d = expected
     then \<exists>ev. events (audit_events d') = events (audit_events d) @ [ev] \<and> ev_operation ev = ''watermark.advance''
     else d' = d)"
proof (cases expected)
  case None
  have absent: "k \<in> wm_id ` set (watermarks d) \<longleftrightarrow> watermark_get k d \<noteq> None"
    by (force simp: watermark_get_def sql_find_None_iff)
  let ?d1 = "d\<lparr>watermarks := watermarks d @ [watermark_row c k new]\<rparr>"
  obtain ev where ev: "watermark_audit c ''watermark.advance'' k None new (jobj [(''path'', jlit ''insert'')]) ?d1 =
      (Inr (), ?d1\<lparr>audit_events := log_event ev (audit_events ?d1)\<rparr>)" "ev_operation ev = ''watermark.advance''"
    using watermark_audit_eval [OF allowed] by blast
  show ?thesis
  proof (cases "watermark_get k d")
    case None
    have "watermark_get k' (?d1\<lparr>audit_events := u\<rparr>) = (if k' = k then Some new else watermark_get k' d)" for k' u
      using None by (auto simp: watermark_get_def sql_find_append split: option.splits)
    moreover have "wm_ok (?d1\<lparr>audit_events := u\<rparr>)" for u using ok absent None by (simp add: wm_ok_def)
    ultimately show ?thesis
      using \<open>expected = None\<close> None absent allowed src ev
      by (auto simp: advance_def assert_actor_cases thn_def bnd_def modify_def ret_def log_event_def)
  next
    case (Some x)
    with \<open>expected = None\<close> absent allowed ok show ?thesis
      by (auto simp: advance_def assert_actor_cases thn_def bnd_def)
  qed
next
  case (Some e)
  let ?d1 = "d\<lparr>watermarks := sql_update (\<lambda>r. wm_id r = k \<and> wm_cursor_value r = e) (\<lambda>_. watermark_row c k new) (watermarks d)\<rparr>"
  obtain ev where ev: "watermark_audit c ''watermark.advance'' k (Some e) new (jobj [(''path'', jlit ''cas'')]) ?d1 =
      (Inr (), ?d1\<lparr>audit_events := log_event ev (audit_events ?d1)\<rparr>)" "ev_operation ev = ''watermark.advance''"
    using watermark_audit_eval [OF allowed] by blast
  show ?thesis
  proof (cases "watermark_get k d = Some e")
    case True
    have "watermark_get k' (?d1\<lparr>audit_events := u\<rparr>) = (if k' = k then Some new else watermark_get k' d)" for k' u
      using True sql_find_Some_iff [of "\<lambda>r. wm_id r = k'" "watermarks d"]
      by (cases "sql_find (\<lambda>r. wm_id r = k') (watermarks d)") (auto simp: watermark_get_def find_update_row)
    moreover have "wm_ok (?d1\<lparr>audit_events := u\<rparr>)" for u using ok by (simp add: wm_ok_def map_id_update)
    ultimately show ?thesis
      using Some True allowed ev count_cursor [OF ok, of k e]
      by (auto simp: advance_def assert_actor_cases thn_def bnd_def modify_def ret_def log_event_def)
  next
    case False
    with Some allowed ok count_cursor [OF ok, of k e] show ?thesis
      by (auto simp: advance_def assert_actor_cases thn_def bnd_def)
  qed
qed

definition advance_in :: "ctx \<Rightarrow> wm_id \<Rightarrow> string \<Rightarrow> string option \<Rightarrow> db \<Rightarrow> bool \<times> db" where
  "advance_in c k new expected d =
     (case advance c k new expected d of (Inr b, d') \<Rightarrow> (b, d') | (Inl _, d') \<Rightarrow> (False, d'))"

lemma advance_frame:
  "sources (snd (advance c k new expected d)) = sources d"
  "wm_ok d \<Longrightarrow> wm_ok (snd (advance c k new expected d))"
  by (auto simp: advance_def thn_def bnd_def modify_def ret_def assert_actor_cases watermark_audit_def audit_eval
      wm_ok_def map_id_update split: option.splits)

interpretation wm: cas_store watermark_get "advance_in c" "\<lambda>d. wm_ok d \<and> actor_allowed c"
  "\<lambda>k d. fst k \<in> set (sources d)" for c
proof
  fix d and k k' :: wm_id and new and expected :: "string option"
  assume *: "wm_ok d \<and> actor_allowed c" "fst k \<in> set (sources d)"
  obtain d' where a: "advance c k new expected d = (Inr (watermark_get k d = expected), d')"
    and g: "\<forall>k'. watermark_get k' d' = (if watermark_get k d = expected \<and> k' = k then Some new else watermark_get k' d)"
    using advance_cas [of d c k new expected] * by blast
  show "fst (advance_in c k new expected d) \<longleftrightarrow> watermark_get k d = expected"
    by (simp add: advance_in_def a)
  show "watermark_get k' (snd (advance_in c k new expected d)) =
      (if watermark_get k d = expected \<and> k' = k then Some new else watermark_get k' d)"
    using spec [OF g, of k'] by (simp add: advance_in_def a)
next
  fix d and k k' :: wm_id and new and expected :: "string option"
  have snd: "snd (advance_in c k new expected d) = snd (advance c k new expected d)"
    by (simp add: advance_in_def split: prod.splits sum.splits)
  show "(fst k' \<in> set (sources (snd (advance_in c k new expected d)))) = (fst k' \<in> set (sources d))"
    by (simp add: snd advance_frame)
  assume "wm_ok d \<and> actor_allowed c"
  then show "wm_ok (snd (advance_in c k new expected d)) \<and> actor_allowed c"
    by (simp add: snd advance_frame)
qed

interpretation wm_advance: audited_mutation "\<lambda>c (k, new, expected). advance c k new expected"
proof
  fix c :: ctx and x d assume *: "ctx_strict c" "ctx_actor c = None"
  show "\<exists>e. (case x of (k, new, expected) \<Rightarrow> advance c k new expected) d = (Inl e, d)"
    using * by (auto simp: advance_def assert_actor_cases thn_def bnd_def split: prod.splits)
next
  fix c :: ctx and x
  have "trail.grows (advance c k new expected)" for k new expected
    unfolding trail.grows_def trail_le_def
    by (auto simp: advance_def thn_def bnd_def modify_def ret_def assert_actor_cases watermark_audit_def audit_eval
        log_event_le log_growth.le_refl split: option.splits)
  then show "trail.grows (case x of (k, new, expected) \<Rightarrow> advance c k new expected)"
    by (simp split: prod.splits)
qed

interpretation wm_set: audited_mutation "\<lambda>c (k, v). force_set c k v"
proof
  fix c :: ctx and x d assume *: "ctx_strict c" "ctx_actor c = None"
  show "\<exists>e. (case x of (k, v) \<Rightarrow> force_set c k v) d = (Inl e, d)"
    using * by (auto simp: force_set_def assert_actor_cases thn_def bnd_def split: prod.splits)
next
  fix c :: ctx and x
  have "trail.grows (force_set c k v)" for k v
    unfolding trail.grows_def trail_le_def
    by (auto simp: force_set_def thn_def bnd_def modify_def gets_def assert_actor_cases watermark_audit_def audit_eval
        log_event_le log_growth.le_refl)
  then show "trail.grows (case x of (k, v) \<Rightarrow> force_set c k v)"
    by (simp split: prod.splits)
qed

section \<open>Properties\<close>

text \<open>C11. \<open>advance\<close> refines an atomic compare-and-swap on a register per key: with an allowed actor
  and a known source it returns exactly whether the cursor was the expected one (\<open>None\<close>: absent),
  changes that key alone, and writes one \<open>watermark.advance\<close> audit row when it hits; a miss
  leaves the database as it is.\<close>

theorem advance_refines_cas:
  assumes "wm_ok d" and "\<not> (ctx_actor c = None \<and> ctx_strict c)" and "fst k \<in> set (sources d)"
  shows "\<exists>d'. advance c k new expected d = (Inr (watermark_get k d = expected), d') \<and> wm_ok d' \<and>
    (\<lambda>k'. watermark_get k' d') =
      (if watermark_get k d = expected then (\<lambda>k'. watermark_get k' d)(k \<mapsto> new) else (\<lambda>k'. watermark_get k' d)) \<and>
    (if watermark_get k d = expected
     then \<exists>ev. events (audit_events d') = events (audit_events d) @ [ev] \<and> ev_operation ev = ''watermark.advance''
     else d' = d)"
  using advance_cas [OF assms, of new expected] by (auto simp: fun_eq_iff)

definition sample_wm :: wm_id where
  "sample_wm = (''kap'', ''daily'', ''cursor'')"

theorem advance_refines_cas_witness:
  "\<exists>d'. advance sample_ctx sample_wm ''5'' None (empty_db [''kap'']) = (Inr True, d') \<and>
    watermark_get sample_wm d' = Some ''5''"
proof -
  have empty: "wm_ok (empty_db [''kap''])" "fst sample_wm \<in> set (sources (empty_db [''kap'']))"
    "watermark_get sample_wm (empty_db [''kap'']) = None"
    by (simp_all add: wm_ok_def empty_db_def sample_wm_def watermark_get_def)
  obtain d' where "advance sample_ctx sample_wm ''5'' None (empty_db [''kap'']) = (Inr True, d')"
    "(\<lambda>k'. watermark_get k' d') = (\<lambda>k'. watermark_get k' (empty_db [''kap'']))(sample_wm \<mapsto> ''5'')"
    using advance_refines_cas [OF empty(1) _ empty(2), of sample_ctx "''5''" None] empty(3)
    by (auto simp: sample_ctx_fields)
  from this(1) fun_cong [OF this(2), of sample_wm] show ?thesis by simp
qed

text \<open>Concurrent workers that read the same cursor and all try to advance it: exactly the first
  to commit wins, every other attempt is a miss, and its cursor stands at the end.\<close>

lemma advance_single_winner:
  assumes "wm_ok d" and "\<not> (ctx_actor c = None \<and> ctx_strict c)" and "fst k \<in> set (sources d)"
    and "watermark_get k d = expected" and "Some v \<noteq> expected"
  shows "fst (wm.race c k expected (v # vs) d) = True # replicate (length vs) False \<and>
    watermark_get k (snd (wm.race c k expected (v # vs) d)) = Some v"
  using wm.race_single_winner [of d c k expected v vs] assms by blast

lemma advance_single_winner_witness:
  "fst (wm.race sample_ctx sample_wm None [''5'', ''6'', ''7''] (empty_db [''kap''])) = [True, False, False]"
  using advance_single_winner [of "empty_db [''kap'']" sample_ctx sample_wm None "''5''" "[''6'', ''7'']"]
  by (simp add: wm_ok_def empty_db_def sample_ctx_fields sample_wm_def watermark_get_def)

end
