(* ===== verification/Ingestion_Run.thy ===== *)
theory Ingestion_Run
  imports Database
begin

text \<open>
  The ingestion run scope (\<open>ingestion/run.py\<close>): the run row is inserted and committed as
  \<open>running\<close>, the body works with a handle that counts in memory, and on every exit the row is
  closed with the counters, the buffered metadata audits and a completion audit in one commit.
  The body is a list of calls on the handle and the exception it ends with, if any; what it does
  in other sessions is not part of the state. The audit rows of the handle's calls are written
  on the run's own connection and become durable with the closing commit.
\<close>

section \<open>The handle\<close>

record run_handle =
  h_id :: int
  h_source_id :: string
  h_job_name :: string
  h_started_at :: int
  h_rows :: int
  h_docs :: int
  h_bytes :: int
  h_errors :: int
  h_metadata :: "json option"
  h_pending_metadata_audits :: "(json option \<times> json) list"

datatype handle_call = IncrementRows int | IncrementDocs int | IncrementBytes int | IncrementErrors int
  | SetMetadata json

definition run_audit ::
  "ctx \<Rightarrow> int \<Rightarrow> string \<Rightarrow> json option \<Rightarrow> json option \<Rightarrow> json \<Rightarrow> (error, db, unit) op" where
  "run_audit c rid oper before after md = audit c
     \<lparr>ar_operation = oper, ar_target_schema = ''src'', ar_target_table = ''ingestion_run'',
      ar_target_pk = jobj [(''ingestion_run_id'', JInt rid)], ar_before = before, ar_after = after,
      ar_metadata = md, ar_ingestion_run_id = Some rid\<rparr>"

definition set_metadata :: "json \<Rightarrow> run_handle \<Rightarrow> run_handle" where
  "set_metadata j h = h\<lparr>h_metadata := Some j,
     h_pending_metadata_audits := h_pending_metadata_audits h @ [(h_metadata h, j)]\<rparr>"

text \<open>
  A call on the handle: the exception it raises, if any, the handle and the connection's view of
  the database. The counter of \<open>increment_rows\<close> is raised before its audit row is written.
\<close>

definition increment_rows :: "ctx \<Rightarrow> int \<Rightarrow> run_handle \<Rightarrow> db \<Rightarrow> error option \<times> run_handle \<times> db" where
  "increment_rows c n h d =
     (let h' = h\<lparr>h_rows := h_rows h + n\<rparr>
      in case run_audit c (h_id h) ''ingestion_run.increment_rows'' (Some (jobj [(''rows'', JInt (h_rows h))]))
                (Some (jobj [(''rows'', JInt (h_rows h'))])) (jobj [(''delta'', JInt n)]) d of
           (Inl e, d') \<Rightarrow> (Some e, h', d')
         | (Inr _, d') \<Rightarrow> (None, h', d'))"

definition handle_step :: "ctx \<Rightarrow> handle_call \<Rightarrow> run_handle \<Rightarrow> db \<Rightarrow> error option \<times> run_handle \<times> db" where
  "handle_step c x h d =
     (case x of
        IncrementRows n \<Rightarrow> increment_rows c n h d
      | IncrementDocs n \<Rightarrow> (None, h\<lparr>h_docs := h_docs h + n\<rparr>, d)
      | IncrementBytes n \<Rightarrow> (None, h\<lparr>h_bytes := h_bytes h + n\<rparr>, d)
      | IncrementErrors n \<Rightarrow> (None, h\<lparr>h_errors := h_errors h + n\<rparr>, d)
      | SetMetadata j \<Rightarrow> (None, set_metadata j h, d))"

fun run_body :: "ctx \<Rightarrow> handle_call list \<Rightarrow> run_handle \<Rightarrow> db \<Rightarrow> error option \<times> run_handle \<times> db" where
  "run_body c [] h d = (None, h, d)"
| "run_body c (x # xs) h d =
     (case handle_step c x h d of
        (Some e, h', d') \<Rightarrow> (Some e, h', d')
      | (None, h', d') \<Rightarrow> run_body c xs h' d')"

section \<open>Opening and closing\<close>

definition truncate_tb :: "nat \<Rightarrow> pystr \<Rightarrow> pystr" where
  "truncate_tb limit tb = (if length tb \<le> limit then tb else drop (length tb - limit) tb)"

definition new_run :: "ctx \<Rightarrow> int \<Rightarrow> string \<Rightarrow> string \<Rightarrow> string option \<Rightarrow> json \<Rightarrow> ingestion_run" where
  "new_run c rid sid job cfg md =
     \<lparr>run_id = rid, run_source_id = sid, run_job_name = job, run_started_at = ctx_now c,
      run_finished_at = None, run_status = Running, run_error_count = 0, run_rows_written = 0,
      run_docs_written = 0, run_bytes_written = 0, run_error = None, run_config_hash = cfg,
      run_metadata = md, run_actor_id = map_option actor_id (ctx_actor c),
      run_actor_kind = map_option actor_kind (ctx_actor c)\<rparr>"

definition new_handle :: "ctx \<Rightarrow> int \<Rightarrow> string \<Rightarrow> string \<Rightarrow> run_handle" where
  "new_handle c rid sid job =
     \<lparr>h_id = rid, h_source_id = sid, h_job_name = job, h_started_at = ctx_now c, h_rows = 0, h_docs = 0,
      h_bytes = 0, h_errors = 0, h_metadata = None, h_pending_metadata_audits = []\<rparr>"

definition open_run ::
  "ctx \<Rightarrow> string \<Rightarrow> string \<Rightarrow> string option \<Rightarrow> json option \<Rightarrow> (error, db, run_handle) op" where
  "open_run c sid job cfg md =
     bnd (gets (\<lambda>d. sid \<in> set (sources d))) (\<lambda>known.
       if \<not> known then raise (DBE (UnknownSource sid))
       else bnd (gets run_seq) (\<lambda>rid.
         let md' = (case md of None \<Rightarrow> JObj [] | Some j \<Rightarrow> j)
         in thn (modify (\<lambda>d. d\<lparr>runs := runs d @ [new_run c rid sid job cfg md'], run_seq := rid + 1\<rparr>))
           (thn (run_audit c rid ''ingestion_run.start'' None
                  (Some (jobj [(''ingestion_run_id'', JInt rid), (''source_id'', jlit sid), (''job_name'', jlit job),
                               (''config_hash'', jopt jlit cfg), (''metadata'', md'),
                               (''status'', jlit ''running'')])) (jobj []))
           (ret (new_handle c rid sid job)))))"

definition closed_row :: "int \<Rightarrow> run_handle \<Rightarrow> run_status \<Rightarrow> pystr option \<Rightarrow> ingestion_run \<Rightarrow> ingestion_run" where
  "closed_row now h status err r = r\<lparr>run_status := status, run_finished_at := Some now,
     run_rows_written := h_rows h, run_docs_written := h_docs h, run_bytes_written := h_bytes h,
     run_error_count := h_errors h, run_error := err,
     run_metadata := (case h_metadata h of None \<Rightarrow> run_metadata r | Some j \<Rightarrow> j)\<rparr>"

definition status_str :: "run_status \<Rightarrow> string" where
  "status_str s = (case s of Running \<Rightarrow> ''running'' | Succeeded \<Rightarrow> ''succeeded'' | Failed \<Rightarrow> ''failed'')"

text \<open>\<open>accepts\<close>: the database takes the closing UPDATE, whose counters go into BIGINT columns.\<close>

definition bigint :: "int \<Rightarrow> bool" where
  "bigint i \<longleftrightarrow> - (2 ^ 63) \<le> i \<and> i < 2 ^ 63"

definition counters_fit :: "run_handle \<Rightarrow> bool" where
  "counters_fit h \<longleftrightarrow> bigint (h_rows h) \<and> bigint (h_docs h) \<and> bigint (h_bytes h) \<and> bigint (h_errors h)"

definition close_run ::
  "(run_handle \<Rightarrow> bool) \<Rightarrow> ctx \<Rightarrow> run_handle \<Rightarrow> run_status \<Rightarrow> pystr option \<Rightarrow> (error, db, unit) op" where
  "close_run accepts c h status err =
     thn (unless (accepts h) (ServiceE SQLAlchemyError))
    (thn (modify (\<lambda>d. d\<lparr>runs := sql_update (\<lambda>r. run_id r = h_id h) (closed_row (ctx_now c) h status err) (runs d)\<rparr>))
    (thn (for_each (\<lambda>(before, after). run_audit c (h_id h) ''ingestion_run.set_metadata''
              (map_option (\<lambda>j. jobj [(''metadata'', j)]) before) (Some (jobj [(''metadata'', after)])) (jobj []))
            (h_pending_metadata_audits h))
    (run_audit c (h_id h) ''ingestion_run.complete'' None
       (Some (jobj [(''ingestion_run_id'', JInt (h_id h)), (''status'', jlit (status_str status)),
                    (''rows_written'', JInt (h_rows h)), (''docs_written'', JInt (h_docs h)),
                    (''bytes_written'', JInt (h_bytes h)), (''error_count'', JInt (h_errors h))]))
       (jobj [(''error_truncated'', JBool (err \<noteq> None))]))))"

text \<open>
  The context manager on the committed database. The audit actor of the scope is \<open>actor\<close> when
  given; \<open>ending\<close> is the exception the body ends with, \<open>tb\<close> the traceback text of an exception.
  The clock of the closing transaction is \<open>t\<close>; \<open>up\<close> tells whether the database can be reached then.
  If closing fails, what the connection had not committed is lost, and its error is what the caller
  sees.
\<close>

definition scope_ctx :: "actor option \<Rightarrow> ctx \<Rightarrow> ctx" where
  "scope_ctx actor c = (case actor of None \<Rightarrow> c | Some a \<Rightarrow> c\<lparr>ctx_actor := Some a\<rparr>)"

definition ingestion_run_scope ::
  "(error \<Rightarrow> pystr) \<Rightarrow> bool \<Rightarrow> actor option \<Rightarrow> ctx \<Rightarrow> int \<Rightarrow> string \<Rightarrow> string \<Rightarrow> string option \<Rightarrow> json option \<Rightarrow>
   handle_call list \<Rightarrow> error option \<Rightarrow> (error, db, run_handle) op" where
  "ingestion_run_scope tb up actor c0 t sid job cfg md calls ending =
     (let c = scope_ctx actor c0; c' = c\<lparr>ctx_now := t\<rparr>
      in thn (assert_actor_or_strict_raise c)
        (bnd (run_tx (open_run c sid job cfg md)) (\<lambda>h0 d1.
         case run_body c' calls h0 d1 of
           (raised, h, d2) \<Rightarrow>
             let exc = (case raised of Some e \<Rightarrow> Some e | None \<Rightarrow> ending)
             in case close_run (\<lambda>h. up \<and> counters_fit h) c' h (if exc = None then Succeeded else Failed)
                       (map_option (\<lambda>e. truncate_tb 4000 (tb e)) exc) d2 of
                  (Inl e, _) \<Rightarrow> (Inl e, d1)
                | (Inr _, d3) \<Rightarrow> (case exc of None \<Rightarrow> Inr h | Some e \<Rightarrow> Inl e, d3))))"

section \<open>Every run is closed\<close>

definition runs_ok :: "db \<Rightarrow> bool" where
  "runs_ok d \<longleftrightarrow> (\<forall>r \<in> set (runs d). run_id r < run_seq d)"

text \<open>The effect of the body's calls on the counters and the metadata.\<close>

definition rows_of :: "handle_call list \<Rightarrow> int" where
  "rows_of xs = sum_list (map (\<lambda>x. case x of IncrementRows n \<Rightarrow> n | _ \<Rightarrow> 0) xs)"

definition docs_of :: "handle_call list \<Rightarrow> int" where
  "docs_of xs = sum_list (map (\<lambda>x. case x of IncrementDocs n \<Rightarrow> n | _ \<Rightarrow> 0) xs)"

definition bytes_of :: "handle_call list \<Rightarrow> int" where
  "bytes_of xs = sum_list (map (\<lambda>x. case x of IncrementBytes n \<Rightarrow> n | _ \<Rightarrow> 0) xs)"

definition errors_of :: "handle_call list \<Rightarrow> int" where
  "errors_of xs = sum_list (map (\<lambda>x. case x of IncrementErrors n \<Rightarrow> n | _ \<Rightarrow> 0) xs)"

definition metadata_of :: "handle_call list \<Rightarrow> json list" where
  "metadata_of xs = List.map_filter (\<lambda>x. case x of SetMetadata j \<Rightarrow> Some j | _ \<Rightarrow> None) xs"

text \<open>
  The audit rows a run leaves, each as its run, operation, state before, state after and metadata:
  the start; one row per \<open>increment_rows\<close> with the counter before and after; one per \<open>set_metadata\<close>
  with the metadata before and after; the completion with the status and all counters.
\<close>

type_synonym audit_entry = "int option \<times> string \<times> json option \<times> json option \<times> json"

definition audit_entry :: "audit_event \<Rightarrow> audit_entry" where
  "audit_entry e = (ev_ingestion_run_id e, ev_operation e, ev_before e, ev_after e, ev_metadata e)"

abbreviation trail_of :: "db \<Rightarrow> audit_entry list" where
  "trail_of d \<equiv> map audit_entry (events (audit_events d))"

definition start_entry :: "int \<Rightarrow> string \<Rightarrow> string \<Rightarrow> string option \<Rightarrow> json \<Rightarrow> audit_entry" where
  "start_entry rid sid job cfg md = (Some rid, ''ingestion_run.start'', None,
     Some (jobj [(''ingestion_run_id'', JInt rid), (''source_id'', jlit sid), (''job_name'', jlit job),
                 (''config_hash'', jopt jlit cfg), (''metadata'', md), (''status'', jlit ''running'')]), jobj [])"

fun row_entries :: "int \<Rightarrow> int \<Rightarrow> handle_call list \<Rightarrow> audit_entry list" where
  "row_entries rid k [] = []"
| "row_entries rid k (IncrementRows n # xs) =
     (Some rid, ''ingestion_run.increment_rows'', Some (jobj [(''rows'', JInt k)]),
      Some (jobj [(''rows'', JInt (k + n))]), jobj [(''delta'', JInt n)]) # row_entries rid (k + n) xs"
| "row_entries rid k (_ # xs) = row_entries rid k xs"

fun changes :: "json option \<Rightarrow> json list \<Rightarrow> (json option \<times> json) list" where
  "changes old [] = []"
| "changes old (j # js) = (old, j) # changes (Some j) js"

definition metadata_entry :: "int \<Rightarrow> json option \<times> json \<Rightarrow> audit_entry" where
  "metadata_entry rid p = (Some rid, ''ingestion_run.set_metadata'',
     map_option (\<lambda>j. jobj [(''metadata'', j)]) (fst p), Some (jobj [(''metadata'', snd p)]), jobj [])"

text \<open>When the closing statements succeed, the status they write, and the metadata a run starts with.\<close>

definition closing_succeeds :: "bool \<Rightarrow> handle_call list \<Rightarrow> bool" where
  "closing_succeeds up xs \<longleftrightarrow>
     up \<and> bigint (rows_of xs) \<and> bigint (docs_of xs) \<and> bigint (bytes_of xs) \<and> bigint (errors_of xs)"

definition exit_status :: "error option \<Rightarrow> run_status" where
  "exit_status ending = (if ending = None then Succeeded else Failed)"

definition given_metadata :: "json option \<Rightarrow> json" where
  "given_metadata md = (case md of None \<Rightarrow> JObj [] | Some j \<Rightarrow> j)"

definition complete_entry :: "int \<Rightarrow> run_status \<Rightarrow> int \<Rightarrow> int \<Rightarrow> int \<Rightarrow> int \<Rightarrow> bool \<Rightarrow> audit_entry" where
  "complete_entry rid status rows docs bytes errors failed = (Some rid, ''ingestion_run.complete'', None,
     Some (jobj [(''ingestion_run_id'', JInt rid), (''status'', jlit (status_str status)),
                 (''rows_written'', JInt rows), (''docs_written'', JInt docs),
                 (''bytes_written'', JInt bytes), (''error_count'', JInt errors)]),
     jobj [(''error_truncated'', JBool failed)])"

lemma run_audit_ok:
  "\<not> (ctx_actor c = None \<and> ctx_strict c) \<Longrightarrow>
   \<exists>l. run_audit c rid oper b a md d = (Inr (), d\<lparr>audit_events := l\<rparr>) \<and>
     map audit_entry (events l) = trail_of d @ [(Some rid, oper, b, a, md)]"
  by (cases "ctx_actor c") (auto simp: run_audit_def audit_eval log_event_def audit_entry_def attributed_event_def)

lemmas call_summaries = rows_of_def docs_of_def bytes_of_def errors_of_def metadata_of_def List.map_filter_def

lemma summaries_Cons:
  "rows_of (x # xs) = rows_of [x] + rows_of xs" "docs_of (x # xs) = docs_of [x] + docs_of xs"
  "bytes_of (x # xs) = bytes_of [x] + bytes_of xs" "errors_of (x # xs) = errors_of [x] + errors_of xs"
  "metadata_of (x # xs) = metadata_of [x] @ metadata_of xs"
  by (simp_all add: call_summaries)

lemma row_entries_Cons: "row_entries rid k (x # xs) = row_entries rid k [x] @ row_entries rid (k + rows_of [x]) xs"
  by (cases x) (simp_all add: call_summaries)

lemma changes_append: "changes m (js @ ks) = changes m js @ changes (if js = [] then m else Some (last js)) ks"
  by (induction js arbitrary: m) auto

definition stepped :: "handle_call list \<Rightarrow> run_handle \<Rightarrow> db \<Rightarrow> run_handle \<Rightarrow> audit_log \<Rightarrow> bool" where
  "stepped xs h d h' l \<longleftrightarrow>
    h_id h' = h_id h \<and> h_rows h' = h_rows h + rows_of xs \<and> h_docs h' = h_docs h + docs_of xs \<and>
    h_bytes h' = h_bytes h + bytes_of xs \<and> h_errors h' = h_errors h + errors_of xs \<and>
    h_pending_metadata_audits h' = h_pending_metadata_audits h @ changes (h_metadata h) (metadata_of xs) \<and>
    h_metadata h' = (if metadata_of xs = [] then h_metadata h else Some (last (metadata_of xs))) \<and>
    map audit_entry (events l) = trail_of d @ row_entries (h_id h) (h_rows h) xs"

lemma handle_step_ok:
  assumes "\<not> (ctx_actor c = None \<and> ctx_strict c)"
  shows "\<exists>h' l. handle_step c x h d = (None, h', d\<lparr>audit_events := l\<rparr>) \<and> stepped [x] h d h' l"
proof (cases "\<exists>n. x = IncrementRows n")
  case True
  then obtain n where x: "x = IncrementRows n" ..
  obtain l where "run_audit c (h_id h) ''ingestion_run.increment_rows'' (Some (jobj [(''rows'', JInt (h_rows h))]))
      (Some (jobj [(''rows'', JInt (h_rows h + n))])) (jobj [(''delta'', JInt n)]) d = (Inr (), d\<lparr>audit_events := l\<rparr>)"
    "map audit_entry (events l) = trail_of d @ [(Some (h_id h), ''ingestion_run.increment_rows'',
       Some (jobj [(''rows'', JInt (h_rows h))]), Some (jobj [(''rows'', JInt (h_rows h + n))]), jobj [(''delta'', JInt n)])]"
    using run_audit_ok [OF assms] by blast
  then show ?thesis
    by (intro exI [of _ "h\<lparr>h_rows := h_rows h + n\<rparr>"] exI [of _ l])
      (simp add: x handle_step_def increment_rows_def Let_def stepped_def call_summaries)
next
  case False
  have d: "d = d\<lparr>audit_events := audit_events d\<rparr>" by simp
  show ?thesis
    using False
    by (cases x; intro exI [of _ "fst (snd (handle_step c x h d))"] exI [of _ "audit_events d"])
      (auto simp: handle_step_def set_metadata_def stepped_def call_summaries)
qed

lemma run_body_ok:
  assumes "\<not> (ctx_actor c = None \<and> ctx_strict c)"
  shows "\<exists>h' l. run_body c xs h d = (None, h', d\<lparr>audit_events := l\<rparr>) \<and> stepped xs h d h' l"
proof (induction xs arbitrary: h d)
  case Nil
  then show ?case
    by (intro exI [of _ h] exI [of _ "audit_events d"]) (simp add: stepped_def call_summaries)
next
  case (Cons x xs)
  obtain h1 l1 where s: "handle_step c x h d = (None, h1, d\<lparr>audit_events := l1\<rparr>)" "stepped [x] h d h1 l1"
    using handle_step_ok [OF assms] by blast
  obtain h2 l2 where t: "run_body c xs h1 (d\<lparr>audit_events := l1\<rparr>) = (None, h2, d\<lparr>audit_events := l2\<rparr>)"
    "stepped xs h1 (d\<lparr>audit_events := l1\<rparr>) h2 l2"
    using Cons.IH [of h1 "d\<lparr>audit_events := l1\<rparr>"] by auto
  have "stepped (x # xs) h d h2 l2"
    using s(2) t(2) unfolding stepped_def summaries_Cons [of x xs] row_entries_Cons [of _ _ x xs] changes_append by auto
  with s(1) t(1) show ?case by auto
qed

lemma metadata_audits_ok:
  assumes "\<not> (ctx_actor c = None \<and> ctx_strict c)"
  shows "\<exists>l. for_each (\<lambda>(before, after). run_audit c rid ''ingestion_run.set_metadata''
        (map_option (\<lambda>j. jobj [(''metadata'', j)]) before) (Some (jobj [(''metadata'', after)])) (jobj [])) ps d =
      (Inr (), d\<lparr>audit_events := l\<rparr>) \<and>
    map audit_entry (events l) = trail_of d @ map (metadata_entry rid) ps"
proof (induction ps arbitrary: d)
  case Nil
  then show ?case by (intro exI [of _ "audit_events d"]) (simp add: ret_def)
next
  case (Cons p ps)
  obtain before after where p: "p = (before, after)" by (cases p)
  obtain l1 where 1: "run_audit c rid ''ingestion_run.set_metadata'' (map_option (\<lambda>j. jobj [(''metadata'', j)]) before)
      (Some (jobj [(''metadata'', after)])) (jobj []) d = (Inr (), d\<lparr>audit_events := l1\<rparr>)"
    "map audit_entry (events l1) = trail_of d @ [metadata_entry rid p]"
    using run_audit_ok [OF assms] by (fastforce simp: metadata_entry_def p)
  obtain l2 where 2: "for_each (\<lambda>(before, after). run_audit c rid ''ingestion_run.set_metadata''
        (map_option (\<lambda>j. jobj [(''metadata'', j)]) before) (Some (jobj [(''metadata'', after)])) (jobj [])) ps
      (d\<lparr>audit_events := l1\<rparr>) = (Inr (), d\<lparr>audit_events := l2\<rparr>)"
    "map audit_entry (events l2) = map audit_entry (events l1) @ map (metadata_entry rid) ps"
    using Cons.IH [of "d\<lparr>audit_events := l1\<rparr>"] by auto
  show ?case
    by (rule exI [of _ l2], simp only: for_each.simps thn_def bnd_def p prod.case 1(1) sum.case 2(1)) (simp add: 1(2) 2(2) p)
qed

lemma close_run_ok:
  assumes "\<not> (ctx_actor c = None \<and> ctx_strict c)" and "accepts h"
  shows "\<exists>l. close_run accepts c h status err d =
      (Inr (), d\<lparr>runs := sql_update (\<lambda>r. run_id r = h_id h) (closed_row (ctx_now c) h status err) (runs d),
                audit_events := l\<rparr>) \<and>
    map audit_entry (events l) = trail_of d @ map (metadata_entry (h_id h)) (h_pending_metadata_audits h) @
      [complete_entry (h_id h) status (h_rows h) (h_docs h) (h_bytes h) (h_errors h) (err \<noteq> None)]"
proof -
  let ?d1 = "d\<lparr>runs := sql_update (\<lambda>r. run_id r = h_id h) (closed_row (ctx_now c) h status err) (runs d)\<rparr>"
  obtain l1 where 1: "for_each (\<lambda>(before, after). run_audit c (h_id h) ''ingestion_run.set_metadata''
              (map_option (\<lambda>j. jobj [(''metadata'', j)]) before) (Some (jobj [(''metadata'', after)])) (jobj []))
            (h_pending_metadata_audits h) ?d1 = (Inr (), ?d1\<lparr>audit_events := l1\<rparr>)"
    "map audit_entry (events l1) = trail_of d @ map (metadata_entry (h_id h)) (h_pending_metadata_audits h)"
    using metadata_audits_ok [OF assms(1), of "h_id h" "h_pending_metadata_audits h" ?d1] by auto
  obtain l2 where 2: "run_audit c (h_id h) ''ingestion_run.complete'' None
       (Some (jobj [(''ingestion_run_id'', JInt (h_id h)), (''status'', jlit (status_str status)),
                    (''rows_written'', JInt (h_rows h)), (''docs_written'', JInt (h_docs h)),
                    (''bytes_written'', JInt (h_bytes h)), (''error_count'', JInt (h_errors h))]))
       (jobj [(''error_truncated'', JBool (err \<noteq> None))]) (?d1\<lparr>audit_events := l1\<rparr>) =
      (Inr (), ?d1\<lparr>audit_events := l2\<rparr>)"
    "map audit_entry (events l2) = map audit_entry (events l1) @
      [complete_entry (h_id h) status (h_rows h) (h_docs h) (h_bytes h) (h_errors h) (err \<noteq> None)]"
    using run_audit_ok [OF assms(1), of "h_id h" _ _ _ _ "?d1\<lparr>audit_events := l1\<rparr>"]
    unfolding complete_entry_def by fastforce
  show ?thesis
    using assms(2) unfolding close_run_def
    by (intro exI [of _ l2], simp only: unless_def if_True thn_modify thn_def bnd_ret bnd_modify)
      (simp only: thn_def bnd_def 1(1) 2(1) prod.case sum.case, simp add: 1(2) 2(2))
qed

lemma open_run_ok:
  assumes "\<not> (ctx_actor c = None \<and> ctx_strict c)" and "sid \<in> set (sources d)"
  shows "\<exists>l. open_run c sid job cfg md d =
      (Inr (new_handle c (run_seq d) sid job),
       d\<lparr>runs := runs d @ [new_run c (run_seq d) sid job cfg (case md of None \<Rightarrow> JObj [] | Some j \<Rightarrow> j)], run_seq := run_seq d + 1, audit_events := l\<rparr>) \<and>
    map audit_entry (events l) = trail_of d @ [start_entry (run_seq d) sid job cfg (case md of None \<Rightarrow> JObj [] | Some j \<Rightarrow> j)]"
  using assms
  by (cases "ctx_actor c")
    (auto simp: open_run_def run_audit_def audit_eval ret_def log_event_def Let_def audit_entry_def start_entry_def
      attributed_event_def)

text \<open>The scope up to its closing statements: the row it has opened, the handle the body leaves, and the trail so far.\<close>

lemma scope_until_closing:
  assumes src: "sid \<in> set (sources d)"
    and actor: "\<not> (ctx_actor (scope_ctx actor c) = None \<and> ctx_strict (scope_ctx actor c))"
  obtains h l0 l1 where "ingestion_run_scope tb up actor c t sid job cfg md calls ending d =
      (let row = new_run (scope_ctx actor c) (run_seq d) sid job cfg (given_metadata md);
           d1 = d\<lparr>runs := runs d @ [row], run_seq := run_seq d + 1, audit_events := l0\<rparr>
       in case close_run (\<lambda>h. up \<and> counters_fit h) ((scope_ctx actor c)\<lparr>ctx_now := t\<rparr>) h (exit_status ending)
                (map_option (\<lambda>e. truncate_tb 4000 (tb e)) ending) (d1\<lparr>audit_events := l1\<rparr>) of
         (Inl e, _) \<Rightarrow> (Inl e, d1) | (Inr _, d3) \<Rightarrow> (case ending of None \<Rightarrow> Inr h | Some e \<Rightarrow> Inl e, d3))"
    "h_id h = run_seq d" "h_rows h = rows_of calls" "h_docs h = docs_of calls" "h_bytes h = bytes_of calls"
    "h_errors h = errors_of calls" "h_metadata h = (if metadata_of calls = [] then None else Some (last (metadata_of calls)))"
    "h_pending_metadata_audits h = changes None (metadata_of calls)"
    "map audit_entry (events l0) = trail_of d @ [start_entry (run_seq d) sid job cfg (given_metadata md)]"
    "map audit_entry (events l1) = map audit_entry (events l0) @ row_entries (run_seq d) 0 calls"
proof -
  let ?c = "scope_ctx actor c"
  have actor': "\<not> (ctx_actor (?c\<lparr>ctx_now := t\<rparr>) = None \<and> ctx_strict (?c\<lparr>ctx_now := t\<rparr>))" using actor by simp
  define h0 where "h0 = new_handle ?c (run_seq d) sid job"
  define row where "row = new_run ?c (run_seq d) sid job cfg (given_metadata md)"
  obtain l0 where o: "open_run ?c sid job cfg md d =
      (Inr h0, d\<lparr>runs := runs d @ [row], run_seq := run_seq d + 1, audit_events := l0\<rparr>)"
    and l0: "map audit_entry (events l0) = trail_of d @ [start_entry (run_seq d) sid job cfg (given_metadata md)]"
    using open_run_ok [OF actor src, of job cfg md] unfolding h0_def row_def given_metadata_def by blast
  let ?d1 = "d\<lparr>runs := runs d @ [row], run_seq := run_seq d + 1, audit_events := l0\<rparr>"
  obtain h l1 where b: "run_body (?c\<lparr>ctx_now := t\<rparr>) calls h0 ?d1 = (None, h, ?d1\<lparr>audit_events := l1\<rparr>)" "stepped calls h0 ?d1 h l1"
    using run_body_ok [OF actor'] by blast
  have h0: "h_id h0 = run_seq d" "h_rows h0 = 0" "h_docs h0 = 0" "h_bytes h0 = 0" "h_errors h0 = 0"
      "h_metadata h0 = None" "h_pending_metadata_audits h0 = []"
    by (simp_all add: h0_def new_handle_def)
  have a: "assert_actor_or_strict_raise ?c d = (Inr (), d)" using actor by (auto simp: assert_actor_cases)
  show thesis
  proof (rule that [of l0 h l1, OF _ _ _ _ _ _ _ _ l0])
    show "ingestion_run_scope tb up actor c t sid job cfg md calls ending d =
      (let row = new_run (scope_ctx actor c) (run_seq d) sid job cfg (given_metadata md);
           d1 = d\<lparr>runs := runs d @ [row], run_seq := run_seq d + 1, audit_events := l0\<rparr>
       in case close_run (\<lambda>h. up \<and> counters_fit h) ((scope_ctx actor c)\<lparr>ctx_now := t\<rparr>) h (exit_status ending)
                (map_option (\<lambda>e. truncate_tb 4000 (tb e)) ending) (d1\<lparr>audit_events := l1\<rparr>) of
         (Inl e, _) \<Rightarrow> (Inl e, d1) | (Inr _, d3) \<Rightarrow> (case ending of None \<Rightarrow> Inr h | Some e \<Rightarrow> Inl e, d3))"
      unfolding ingestion_run_scope_def Let_def thn_def bnd_def a run_tx_def exit_status_def row_def [symmetric]
      by (simp only: o b(1) prod.case sum.case option.case)
  qed (use b(2) h0 in \<open>simp_all add: stepped_def\<close>)
qed

text \<open>C10. What a run leaves. With a known source and an allowed actor the scope adds exactly one row to
  \<open>src.ingestion_run\<close>. When the closing statements succeed, that is the database is up and every counter
  fits its BIGINT column, the row is closed at the time of exit: succeeded if the body returned, failed if
  it raised, with the row, document, byte and error counts the body's calls add up to, the last metadata
  it set and the last 4000 characters of the traceback; the audit trail has grown by exactly the start, each
  \<open>increment_rows\<close> with the count before and after, each \<open>set_metadata\<close> with the metadata before and
  after, and the completion with these numbers; and the body's exception is passed on. When they do not
  succeed, the row stays \<open>running\<close> with zero counts, only the start is in the trail, and the caller gets the
  database error.\<close>

theorem ingestion_run_closed_with_counts:
  assumes ok: "runs_ok d" and src: "sid \<in> set (sources d)"
    and actor: "\<not> (ctx_actor (scope_ctx actor c) = None \<and> ctx_strict (scope_ctx actor c))"
  shows "\<exists>h r d'. ingestion_run_scope tb up actor c t sid job cfg md calls ending d =
      (if \<not> closing_succeeds up calls then Inl (ServiceE SQLAlchemyError) else case ending of None \<Rightarrow> Inr h | Some e \<Rightarrow> Inl e, d') \<and>
    runs d' = runs d @ [r] \<and> run_seq d' = run_seq d + 1 \<and> run_id r = run_seq d \<and> run_source_id r = sid \<and>
    run_status r = (if closing_succeeds up calls then exit_status ending else Running) \<and> run_finished_at r = (if closing_succeeds up calls then Some t else None) \<and>
    run_rows_written r = (if closing_succeeds up calls then rows_of calls else 0) \<and> run_docs_written r = (if closing_succeeds up calls then docs_of calls else 0) \<and>
    run_bytes_written r = (if closing_succeeds up calls then bytes_of calls else 0) \<and> run_error_count r = (if closing_succeeds up calls then errors_of calls else 0) \<and>
    run_metadata r = (if closing_succeeds up calls \<and> metadata_of calls \<noteq> [] then last (metadata_of calls) else given_metadata md) \<and>
    run_error r = (if closing_succeeds up calls then map_option (\<lambda>e. truncate_tb 4000 (tb e)) ending else None) \<and>
    trail_of d' = trail_of d @ start_entry (run_seq d) sid job cfg (given_metadata md) #
      (if closing_succeeds up calls then row_entries (run_seq d) 0 calls @
         map (metadata_entry (run_seq d)) (changes None (metadata_of calls)) @
         [complete_entry (run_seq d) (exit_status ending) (rows_of calls) (docs_of calls) (bytes_of calls) (errors_of calls) (ending \<noteq> None)]
       else [])"
proof -
  let ?c' = "(scope_ctx actor c)\<lparr>ctx_now := t\<rparr>" and ?err = "map_option (\<lambda>e. truncate_tb 4000 (tb e)) ending"
  let ?row = "new_run (scope_ctx actor c) (run_seq d) sid job cfg (given_metadata md)" and ?acc = "\<lambda>h. up \<and> counters_fit h"
  obtain h l0 l1 where run: "ingestion_run_scope tb up actor c t sid job cfg md calls ending d =
      (case close_run ?acc ?c' h (exit_status ending) ?err (d\<lparr>runs := runs d @ [?row], run_seq := run_seq d + 1, audit_events := l1\<rparr>) of
         (Inl e, _) \<Rightarrow> (Inl e, d\<lparr>runs := runs d @ [?row], run_seq := run_seq d + 1, audit_events := l0\<rparr>)
       | (Inr _, d3) \<Rightarrow> (case ending of None \<Rightarrow> Inr h | Some e \<Rightarrow> Inl e, d3))"
    and h: "h_id h = run_seq d" "h_rows h = rows_of calls" "h_docs h = docs_of calls" "h_bytes h = bytes_of calls"
    "h_errors h = errors_of calls" "h_metadata h = (if metadata_of calls = [] then None else Some (last (metadata_of calls)))"
    "h_pending_metadata_audits h = changes None (metadata_of calls)"
    and trail: "map audit_entry (events l0) = trail_of d @ [start_entry (run_seq d) sid job cfg (given_metadata md)]"
    "map audit_entry (events l1) = map audit_entry (events l0) @ row_entries (run_seq d) 0 calls"
    by (rule scope_until_closing [OF src actor, of tb up t job cfg md calls ending]) (simp add: Let_def)
  let ?d2 = "d\<lparr>runs := runs d @ [?row], run_seq := run_seq d + 1, audit_events := l1\<rparr>"
  have acc: "?acc h \<longleftrightarrow> closing_succeeds up calls" using h by (simp add: counters_fit_def closing_succeeds_def)
  show ?thesis
  proof (cases "closing_succeeds up calls")
    case False
    then have "close_run ?acc ?c' h (exit_status ending) ?err ?d2 = (Inl (ServiceE SQLAlchemyError), ?d2)"
      using acc by (auto simp: close_run_def unless_def thn_def raise_def bnd_def)
    with run False trail(1) show ?thesis by (simp add: new_run_def)
  next
    case True
    have "\<not> (ctx_actor ?c' = None \<and> ctx_strict ?c')" using actor by simp
    from close_run_ok [OF this, of ?acc h "exit_status ending" ?err ?d2] acc True obtain l2 where
      cl: "close_run ?acc ?c' h (exit_status ending) ?err ?d2 =
        (Inr (), ?d2\<lparr>runs := sql_update (\<lambda>r. run_id r = h_id h) (closed_row t h (exit_status ending) ?err) (runs ?d2),
                     audit_events := l2\<rparr>)"
      "map audit_entry (events l2) = trail_of ?d2 @ map (metadata_entry (h_id h)) (h_pending_metadata_audits h) @
        [complete_entry (h_id h) (exit_status ending) (h_rows h) (h_docs h) (h_bytes h) (h_errors h) (?err \<noteq> None)]"
      by auto
    have "sql_update (\<lambda>r. run_id r = h_id h) f (runs d) = runs d" for f
      using ok h(1) unfolding sql_update_def runs_ok_def by (intro map_idI) fastforce
    then have runs: "sql_update (\<lambda>r. run_id r = h_id h) f (runs ?d2) = runs d @ [f ?row]" for f
      using h(1) by (simp add: sql_update_def new_run_def)
    show ?thesis
      unfolding run cl(1) prod.case sum.case runs using True
      by (intro exI [of _ h] exI [of _ "closed_row t h (exit_status ending) ?err ?row"]
          exI [of _ "?d2\<lparr>runs := runs d @ [closed_row t h (exit_status ending) ?err ?row], audit_events := l2\<rparr>"])
        (simp add: cl(2) closed_row_def new_run_def h trail)
  qed
qed

definition sample_calls :: "handle_call list" where
  "sample_calls = [IncrementRows 3, SetMetadata (JObj []), IncrementErrors 1, IncrementDocs 7, IncrementRows 2]"

theorem ingestion_run_closed_with_counts_witness:
  "\<exists>r d'. ingestion_run_scope (\<lambda>_. []) True None sample_ctx 9 ''kap'' ''daily'' None None sample_calls
      (Some (PyE ValueError)) (empty_db [''kap'']) = (Inl (PyE ValueError), d') \<and>
    runs d' = [r] \<and> run_status r = Failed \<and> run_rows_written r = 5 \<and> run_docs_written r = 7 \<and> run_error_count r = 1 \<and>
    trail_of d' = start_entry 1 ''kap'' ''daily'' None (JObj []) # row_entries 1 0 sample_calls @
      [metadata_entry 1 (None, JObj []), complete_entry 1 Failed 5 7 0 1 True]"
proof -
  have calls: "rows_of sample_calls = 5" "docs_of sample_calls = 7" "bytes_of sample_calls = 0" "errors_of sample_calls = 1"
    "metadata_of sample_calls = [JObj []]"
    by (simp_all add: call_summaries sample_calls_def)
  have closes: "closing_succeeds True sample_calls" by (simp add: closing_succeeds_def calls bigint_def)
  have d: "runs_ok (empty_db [''kap''])" "''kap'' \<in> set (sources (empty_db [''kap'']))" "run_seq (empty_db [''kap'']) = 1"
    "runs (empty_db [''kap'']) = []" "trail_of (empty_db [''kap'']) = []"
    by (simp_all add: runs_ok_def empty_db_def)
  have actor: "\<not> (ctx_actor (scope_ctx None sample_ctx) = None \<and> ctx_strict (scope_ctx None sample_ctx))"
    by (simp add: scope_ctx_def sample_ctx_fields)
  from ingestion_run_closed_with_counts [OF d(1,2) actor, of "\<lambda>_. []" True 9 "''daily''" None None sample_calls "Some (PyE ValueError)"]
  show ?thesis
    unfolding d(3-5) by (auto simp only: closes calls exit_status_def given_metadata_def) simp
qed

end
