(* ===== verification/Registry.thy ===== *)
theory Registry
  imports Database
begin

text \<open>
  The entity registry (\<open>registry/client.py\<close>, \<open>registry/normalizers.py\<close>, \<open>schemas/entity.py\<close>):
  resolution of identifiers at a date, creation and update of entities, identifiers with
  half-open validity windows, relationships and sectors, every mutation with its audit row.
  The constraints of the tables (keys, foreign keys, checks and the exclusion of overlapping
  windows) stand in the statements that they guard; a failing statement is an error result.
\<close>

section \<open>Normalizers\<close>

definition normalize_tax_number :: "pystr \<Rightarrow> error + pystr" where
  "normalize_tax_number v =
     (let cleaned = filter is_digit v
      in if length cleaned \<noteq> 10 then Inl (PyE ValueError) else Inr cleaned)"

text \<open>\<open>str.upper\<close> over all of Unicode is a parameter.\<close>

definition normalize_ticker :: "(pystr \<Rightarrow> pystr) \<Rightarrow> pystr \<Rightarrow> pystr" where
  "normalize_ticker upper v = upper (strip v)"

definition normalize_isin :: "(pystr \<Rightarrow> pystr) \<Rightarrow> pystr \<Rightarrow> error + pystr" where
  "normalize_isin upper v =
     (let cleaned = upper (strip v)
      in if length cleaned \<noteq> 12 then Inl (PyE ValueError) else Inr cleaned)"

section \<open>The client\<close>

text \<open>
  The client object and what it reads of its surroundings: the run and the cached source,
  today's date for Python and for the server, the next \<open>gen_random_uuid()\<close>, the texts of dates,
  time stamps and decimals, and the value of \<open>metadata || :md::jsonb\<close>, which the database
  computes. Dates are ordinals.
\<close>

record registry_client =
  rc_run_id :: int
  rc_source_id_cache :: "string option"
  rc_today :: int
  rc_pg_today :: int
  rc_uuid :: "db \<Rightarrow> uuid"
  rc_date_str :: "int \<Rightarrow> pystr"
  rc_dt_str :: "int \<Rightarrow> pystr"
  rc_dec_str :: "decimal \<Rightarrow> pystr"
  rc_jsonb_concat :: "json \<Rightarrow> json \<Rightarrow> error + json"

text \<open>1900-01-01 and 9999-12-31.\<close>

definition min_date :: int where
  "min_date = 693596"

definition max_date :: int where
  "max_date = 3652059"

definition source_id_of :: "registry_client \<Rightarrow> (error, db, string) op" where
  "source_id_of C = (case rc_source_id_cache C of
     Some s \<Rightarrow> ret s
   | None \<Rightarrow> (\<lambda>d. case sql_find (\<lambda>r. run_id r = rc_run_id C) (runs d) of
       None \<Rightarrow> (Inl (RegistryE RegistryConstraintViolation), d)
     | Some r \<Rightarrow> (Inr (run_source_id r), d)))"

definition emit_audit ::
  "registry_client \<Rightarrow> ctx \<Rightarrow> string \<Rightarrow> string \<Rightarrow> json \<Rightarrow> json option \<Rightarrow> json option \<Rightarrow> json \<Rightarrow> (error, db, unit) op" where
  "emit_audit C c oper table pk before after md = audit c
     \<lparr>ar_operation = oper, ar_target_schema = ''ref'', ar_target_table = table, ar_target_pk = pk,
      ar_before = before, ar_after = after, ar_metadata = md, ar_ingestion_run_id = Some (rc_run_id C)\<rparr>"

definition returned_existing :: json where
  "returned_existing = jobj [(''returned_existing'', JBool True)]"

section \<open>Reads\<close>

definition valid_at :: "int \<Rightarrow> identifier_row \<Rightarrow> bool" where
  "valid_at day r \<longleftrightarrow> id_valid_from r \<le> day \<and> day < id_valid_to r"

text \<open>\<open>ORDER BY is_primary DESC, identifier_id DESC\<close>: the minor key first, then a stable sort on the major one.\<close>

definition by_rank :: "identifier_row list \<Rightarrow> identifier_row list" where
  "by_rank rs = sort_key (\<lambda>r. if id_is_primary r then 0 else 1 :: int) (sort_key (\<lambda>r. - id_id r) rs)"

definition day_or_today :: "registry_client \<Rightarrow> int option \<Rightarrow> int" where
  "day_or_today C as_of = (case as_of of None \<Rightarrow> rc_today C | Some d \<Rightarrow> d)"

definition resolve :: "registry_client \<Rightarrow> string \<Rightarrow> pystr \<Rightarrow> int option \<Rightarrow> db \<Rightarrow> uuid option" where
  "resolve C ns v as_of d =
     (case by_rank (filter (\<lambda>r. id_namespace r = ns \<and> id_value r = v \<and> valid_at (day_or_today C as_of) r) (identifiers d)) of
        [] \<Rightarrow> None
      | r # _ \<Rightarrow> Some (id_entity_id r))"

definition resolve_or_raise :: "registry_client \<Rightarrow> string \<Rightarrow> pystr \<Rightarrow> int option \<Rightarrow> (error, db, uuid) op" where
  "resolve_or_raise C ns v as_of = (\<lambda>d. case resolve C ns v as_of d of
     None \<Rightarrow> (Inl (RegistryE EntityNotFound), d)
   | Some u \<Rightarrow> (Inr u, d))"

text \<open>The \<open>Entity\<close> model the client returns: the row without its audit columns.\<close>

record entity_model =
  em_id :: uuid
  em_type :: string
  em_legal_name :: pystr
  em_short_name :: "pystr option"
  em_country_code :: string
  em_domicile :: "pystr option"
  em_incorporation_dt :: "int option"
  em_status :: string
  em_fiscal_year_end :: "int option"
  em_parent_entity_id :: "uuid option"
  em_metadata :: json
  em_source_id :: string
  em_ingestion_run_id :: int
  em_created_at :: int
  em_updated_at :: int

text \<open>\<open>row.metadata or {}\<close>, then the model's \<open>dict\<close> field rejects what is not an object.\<close>

definition dict_or_empty :: "json \<Rightarrow> error + json" where
  "dict_or_empty j = (case j of
     JObj kvs \<Rightarrow> Inr (JObj kvs)
   | JNull \<Rightarrow> Inr (JObj [])
   | JBool b \<Rightarrow> (if b then Inl (PyE ValueError) else Inr (JObj []))
   | JInt i \<Rightarrow> (if i \<noteq> 0 then Inl (PyE ValueError) else Inr (JObj []))
   | JFloat w \<Rightarrow> (if w \<noteq> 0 \<and> w \<noteq> 2 ^ 63 then Inl (PyE ValueError) else Inr (JObj []))
   | JStr s \<Rightarrow> (if s \<noteq> [] then Inl (PyE ValueError) else Inr (JObj []))
   | JArr xs \<Rightarrow> (if xs \<noteq> [] then Inl (PyE ValueError) else Inr (JObj [])))"

definition row_to_entity :: "entity \<Rightarrow> error + entity_model" where
  "row_to_entity e = (case dict_or_empty (en_metadata e) of
     Inl x \<Rightarrow> Inl x
   | Inr md \<Rightarrow> Inr \<lparr>em_id = en_id e, em_type = en_type e, em_legal_name = en_legal_name e,
       em_short_name = en_short_name e, em_country_code = en_country_code e, em_domicile = en_domicile e,
       em_incorporation_dt = en_incorporation_dt e, em_status = en_status e,
       em_fiscal_year_end = en_fiscal_year_end e, em_parent_entity_id = en_parent_entity_id e,
       em_metadata = md, em_source_id = en_source_id e, em_ingestion_run_id = en_ingestion_run_id e,
       em_created_at = en_created_at e, em_updated_at = en_updated_at e\<rparr>)"

definition get_entity :: "uuid \<Rightarrow> (error, db, entity_model) op" where
  "get_entity u = (\<lambda>d. case sql_find (\<lambda>e. en_id e = u) (entities d) of
     None \<Rightarrow> (Inl (RegistryE EntityNotFound), d)
   | Some e \<Rightarrow> (row_to_entity e, d))"

definition identifiers_for :: "registry_client \<Rightarrow> uuid \<Rightarrow> int option \<Rightarrow> db \<Rightarrow> (string \<times> pystr) list" where
  "identifiers_for C u as_of d =
     foldl (\<lambda>out r. if id_namespace r \<in> fst ` set out then out else out @ [(id_namespace r, id_value r)]) []
       (by_rank (filter (\<lambda>r. id_entity_id r = u \<and> valid_at (day_or_today C as_of) r) (identifiers d)))"

section \<open>Identifiers\<close>

text \<open>
  The exclusion constraint: two rows of one (namespace, value) have disjoint half-open windows
  (\<open>&&\<close> on date ranges; an empty range overlaps nothing, and a range of a later start than end
  is an error of \<open>daterange\<close>).
\<close>

definition overlaps :: "identifier_row \<Rightarrow> identifier_row \<Rightarrow> bool" where
  "overlaps r q \<longleftrightarrow> id_namespace r = id_namespace q \<and> id_value r = id_value q \<and>
     id_valid_from r < id_valid_to r \<and> id_valid_from q < id_valid_to q \<and>
     id_valid_from r < id_valid_to q \<and> id_valid_from q < id_valid_to r"

definition identifier_insertable :: "identifier_row \<Rightarrow> db \<Rightarrow> bool" where
  "identifier_insertable r d \<longleftrightarrow> id_entity_id r \<in> en_id ` set (entities d) \<and>
     id_valid_from r \<le> id_valid_to r \<and> (\<forall>q \<in> set (identifiers d). \<not> overlaps r q)"

definition date_or :: "int \<Rightarrow> int option \<Rightarrow> int" where
  "date_or dflt x = (case x of None \<Rightarrow> dflt | Some d \<Rightarrow> d)"

definition date_json :: "registry_client \<Rightarrow> string \<Rightarrow> int option \<Rightarrow> json" where
  "date_json C dflt x = (case x of None \<Rightarrow> jlit dflt | Some d \<Rightarrow> JStr (rc_date_str C d))"

definition uuid_json :: "uuid \<Rightarrow> json" where
  "uuid_json u = JStr (uuid_str u)"

definition new_identifier ::
  "registry_client \<Rightarrow> ctx \<Rightarrow> string \<Rightarrow> uuid \<Rightarrow> string \<Rightarrow> pystr \<Rightarrow> int option \<Rightarrow> int option \<Rightarrow> bool \<Rightarrow> int \<Rightarrow>
   identifier_row" where
  "new_identifier C c src eid ns v vf vt prim i = \<lparr>id_id = i, id_entity_id = eid, id_namespace = ns, id_value = v,
     id_valid_from = date_or min_date vf, id_valid_to = date_or max_date vt, id_is_primary = prim,
     id_source_id = src, id_ingestion_run_id = rc_run_id C, id_created_at = ctx_now c,
     id_audit = audit_cols_of (ctx_actor c)\<rparr>"

definition same_window_start :: "string \<Rightarrow> pystr \<Rightarrow> int option \<Rightarrow> identifier_row \<Rightarrow> bool" where
  "same_window_start ns v vf r \<longleftrightarrow>
     id_namespace r = ns \<and> id_value r = v \<and> id_valid_from r = date_or min_date vf"

definition put_identifier ::
  "registry_client \<Rightarrow> ctx \<Rightarrow> string \<Rightarrow> uuid \<Rightarrow> string \<Rightarrow> pystr \<Rightarrow> int option \<Rightarrow> int option \<Rightarrow> bool \<Rightarrow>
   (error, db, unit) op" where
  "put_identifier C c src eid ns v vf vt prim = (\<lambda>d.
     case filter (same_window_start ns v vf) (identifiers d) of
       x # _ # _ \<Rightarrow> (Inl (ServiceE MultipleResultsFound), d)
     | [x] \<Rightarrow>
         if id_entity_id x \<noteq> eid then (Inl (RegistryE IdentifierConflict), d)
         else let snap = jobj [(''identifier_id'', JInt (id_id x)), (''entity_id'', uuid_json (id_entity_id x)),
                  (''namespace'', jlit ns), (''value'', JStr v),
                  (''valid_from'', JStr (rc_date_str C (id_valid_from x)))]
              in emit_audit C c ''identifier.idempotent_hit'' ''identifier''
                   (jobj [(''identifier_id'', JInt (id_id x))]) (Some snap) (Some snap) returned_existing d
     | [] \<Rightarrow>
         let r = new_identifier C c src eid ns v vf vt prim (ident_seq d);
             d1 = d\<lparr>ident_seq := ident_seq d + 1\<rparr>
         in if \<not> identifier_insertable r d then (Inl (RegistryE IdentifierConflict), d1)
            else emit_audit C c ''identifier.add'' ''identifier''
               (jobj [(''identifier_id'', JInt (id_id r))]) None
               (Some (jobj [(''identifier_id'', JInt (id_id r)), (''entity_id'', uuid_json eid),
                  (''namespace'', jlit ns), (''value'', JStr v),
                  (''valid_from'', date_json C ''1900-01-01'' vf), (''valid_to'', date_json C ''9999-12-31'' vt),
                  (''is_primary'', JBool prim)])) (jobj [])
               (d1\<lparr>identifiers := identifiers d @ [r]\<rparr>))"

definition add_identifier ::
  "registry_client \<Rightarrow> ctx \<Rightarrow> uuid \<Rightarrow> string \<Rightarrow> pystr \<Rightarrow> int option \<Rightarrow> int option \<Rightarrow> bool \<Rightarrow> (error, db, unit) op" where
  "add_identifier C c eid ns v vf vt prim = thn (assert_actor_or_strict_raise c)
     (bnd (source_id_of C) (\<lambda>src. put_identifier C c src eid ns v vf vt prim))"

text \<open>
  \<open>expire_identifier\<close>. Migration 0044 installs a trigger on \<open>ref.identifier\<close> that rejects every
  row update; \<open>no_update\<close> says whether it is there. Without it the statement ends the window.
\<close>

definition expire_match :: "string \<Rightarrow> pystr \<Rightarrow> int \<Rightarrow> identifier_row \<Rightarrow> bool" where
  "expire_match ns v day r \<longleftrightarrow> id_namespace r = ns \<and> id_value r = v \<and> valid_at day r"

definition expired :: "ctx \<Rightarrow> int \<Rightarrow> identifier_row \<Rightarrow> identifier_row" where
  "expired c day r = r\<lparr>id_valid_to := day, id_audit := audit_cols_of (ctx_actor c)\<rparr>"

definition identifier_snap :: "registry_client \<Rightarrow> identifier_row \<Rightarrow> string \<Rightarrow> pystr \<Rightarrow> int \<Rightarrow> json" where
  "identifier_snap C x ns v vt = jobj [(''identifier_id'', JInt (id_id x)), (''entity_id'', uuid_json (id_entity_id x)),
     (''namespace'', jlit ns), (''value'', JStr v), (''valid_from'', JStr (rc_date_str C (id_valid_from x))),
     (''valid_to'', JStr (rc_date_str C vt))]"

definition expire_identifier ::
  "bool \<Rightarrow> registry_client \<Rightarrow> ctx \<Rightarrow> string \<Rightarrow> pystr \<Rightarrow> int \<Rightarrow> (error, db, unit) op" where
  "expire_identifier no_update C c ns v day = thn (assert_actor_or_strict_raise c) (\<lambda>d.
     let old = filter (expire_match ns v day) (identifiers d);
         d1 = d\<lparr>identifiers := sql_update (expire_match ns v day) (expired c day) (identifiers d)\<rparr>
     in if no_update \<and> old \<noteq> [] then (Inl (ServiceE SQLAlchemyError), d)
        else case old of
          [] \<Rightarrow> (Inl (RegistryE EntityNotFound), d1)
        | [x] \<Rightarrow> emit_audit C c ''identifier.expire'' ''identifier'' (jobj [(''identifier_id'', JInt (id_id x))])
            (Some (identifier_snap C x ns v (id_valid_to x))) (Some (identifier_snap C x ns v day)) (jobj []) d1
        | x # _ # _ \<Rightarrow> (Inl (ServiceE MultipleResultsFound), d1))"

section \<open>Entities\<close>

record entity_in =
  ei_type :: string
  ei_legal_name :: pystr
  ei_identifiers :: "(string \<times> pystr) list"
  ei_short_name :: "pystr option"
  ei_country_code :: string
  ei_domicile :: "pystr option"
  ei_incorporation_dt :: "int option"
  ei_status :: string
  ei_fiscal_year_end :: "int option"
  ei_parent_entity_id :: "uuid option"
  ei_metadata :: "json option"

definition entity_types :: "string list" where
  "entity_types = [''company'', ''fund'', ''instrument'', ''index'', ''sovereign'', ''sector'', ''founder'', ''other'']"

definition entity_statuses :: "string list" where
  "entity_statuses = [''active'', ''suspended'', ''delisted'', ''merged'', ''dissolved'']"

text \<open>A \<open>CHAR(2)\<close> value: padded with blanks, and too long unless the excess is blank.\<close>

definition char_2 :: "string \<Rightarrow> string option" where
  "char_2 s = (if set (drop 2 s) \<subseteq> {CHR '' ''} then Some (take 2 (s @ ''  '')) else None)"

definition json_or :: "(pystr \<Rightarrow> json) \<Rightarrow> pystr option \<Rightarrow> json" where
  "json_or f x = (case x of None \<Rightarrow> JNull | Some v \<Rightarrow> f v)"

definition entity_json :: "registry_client \<Rightarrow> entity_model \<Rightarrow> json" where
  "entity_json C e = jobj
     [(''entity_id'', uuid_json (em_id e)), (''type'', jlit (em_type e)), (''legal_name'', JStr (em_legal_name e)),
      (''short_name'', json_or JStr (em_short_name e)), (''country_code'', jlit (em_country_code e)),
      (''domicile'', json_or JStr (em_domicile e)),
      (''incorporation_dt'', json_or JStr (map_option (rc_date_str C) (em_incorporation_dt e))),
      (''status'', jlit (em_status e)),
      (''fiscal_year_end'', json_or JStr (map_option (rc_date_str C) (em_fiscal_year_end e))),
      (''parent_entity_id'', json_or JStr (map_option uuid_str (em_parent_entity_id e))),
      (''metadata'', em_metadata e), (''source_id'', jlit (em_source_id e)),
      (''ingestion_run_id'', JInt (em_ingestion_run_id e)), (''created_at'', JStr (rc_dt_str C (em_created_at e))),
      (''updated_at'', JStr (rc_dt_str C (em_updated_at e)))]"

definition new_entity :: "registry_client \<Rightarrow> ctx \<Rightarrow> string \<Rightarrow> entity_in \<Rightarrow> string \<Rightarrow> uuid \<Rightarrow> entity" where
  "new_entity C c src a cc u = \<lparr>en_id = u, en_type = ei_type a, en_legal_name = ei_legal_name a,
     en_short_name = ei_short_name a, en_country_code = cc, en_domicile = ei_domicile a,
     en_incorporation_dt = ei_incorporation_dt a, en_fiscal_year_end = ei_fiscal_year_end a,
     en_status = ei_status a, en_parent_entity_id = ei_parent_entity_id a,
     en_metadata = (case ei_metadata a of None \<Rightarrow> JObj [] | Some j \<Rightarrow> j),
     en_source_id = src, en_ingestion_run_id = rc_run_id C, en_created_at = ctx_now c, en_updated_at = ctx_now c,
     en_audit = audit_cols_of (ctx_actor c)\<rparr>"

definition insert_entity :: "registry_client \<Rightarrow> ctx \<Rightarrow> string \<Rightarrow> entity_in \<Rightarrow> (error, db, uuid) op" where
  "insert_entity C c src a = (\<lambda>d.
     let u = rc_uuid C d in
     case char_2 (ei_country_code a) of
       None \<Rightarrow> (Inl (ServiceE SQLAlchemyError), d)
     | Some cc \<Rightarrow>
         if u \<in> en_id ` set (entities d) \<or> ei_type a \<notin> set entity_types \<or> ei_status a \<notin> set entity_statuses \<or>
            (case ei_parent_entity_id a of None \<Rightarrow> False | Some p \<Rightarrow> p \<noteq> u \<and> p \<notin> en_id ` set (entities d))
         then (Inl (ServiceE IntegrityError), d)
         else (Inr u, d\<lparr>entities := entities d @ [new_entity C c src a cc u]\<rparr>))"

definition identifier_matches :: "registry_client \<Rightarrow> (string \<times> pystr) list \<Rightarrow> db \<Rightarrow> identifier_row list" where
  "identifier_matches C pairs d =
     filter (\<lambda>r. (id_namespace r, id_value r) \<in> set pairs \<and> valid_at (rc_pg_today C) r) (identifiers d)"

definition add_missing ::
  "registry_client \<Rightarrow> ctx \<Rightarrow> uuid \<Rightarrow> identifier_row list \<Rightarrow> (string \<times> pystr) list \<Rightarrow> (error, db, unit) op" where
  "add_missing C c u rows pairs = for_each (\<lambda>p.
     if p \<in> (\<lambda>r. (id_namespace r, id_value r)) ` set rows then ret ()
     else add_identifier C c u (fst p) (snd p) None None False) pairs"

definition existing_entity ::
  "registry_client \<Rightarrow> ctx \<Rightarrow> string \<Rightarrow> entity_in \<Rightarrow> identifier_row list \<Rightarrow> uuid \<Rightarrow> (error, db, entity_model) op" where
  "existing_entity C c src a rows u = bnd (get_entity u) (\<lambda>e.
     if em_source_id e \<noteq> src then raise (RegistryE EntityMergeRequired)
     else if \<exists>r \<in> set rows. id_source_id r \<noteq> src then raise (RegistryE EntityMergeRequired)
     else thn (add_missing C c u rows (ei_identifiers a))
         (thn (emit_audit C c ''entity.idempotent_hit'' ''entity'' (jobj [(''entity_id'', uuid_json (em_id e))])
                (Some (entity_json C e)) (Some (entity_json C e)) returned_existing)
         (ret e)))"

definition fresh_entity :: "registry_client \<Rightarrow> ctx \<Rightarrow> string \<Rightarrow> entity_in \<Rightarrow> (error, db, entity_model) op" where
  "fresh_entity C c src a = bnd (insert_entity C c src a) (\<lambda>u.
     thn (for_each (\<lambda>p. add_identifier C c u (fst p) (snd p) None None False) (ei_identifiers a))
    (bnd (get_entity u) (\<lambda>e.
     thn (emit_audit C c ''entity.create'' ''entity'' (jobj [(''entity_id'', uuid_json (em_id e))])
            None (Some (entity_json C e)) (jobj []))
    (ret e))))"

definition create_entity :: "registry_client \<Rightarrow> ctx \<Rightarrow> entity_in \<Rightarrow> (error, db, entity_model) op" where
  "create_entity C c a = thn (assert_actor_or_strict_raise c)
     (bnd (source_id_of C) (\<lambda>src.
      bnd (gets (identifier_matches C (ei_identifiers a))) (\<lambda>rows.
        case remdups (map id_entity_id rows) of
          [] \<Rightarrow> fresh_entity C c src a
        | [u] \<Rightarrow> existing_entity C c src a rows u
        | _ # _ # _ \<Rightarrow> raise (RegistryE EntityMergeRequired))))"

record entity_patch =
  ep_legal_name :: "pystr option"
  ep_short_name :: "pystr option"
  ep_status :: "string option"
  ep_fiscal_year_end :: "int option"
  ep_domicile :: "pystr option"
  ep_metadata :: "json option"

definition patch_or :: "'a option \<Rightarrow> 'a \<Rightarrow> 'a" where
  "patch_or p old = (case p of None \<Rightarrow> old | Some v \<Rightarrow> v)"

definition patched :: "ctx \<Rightarrow> entity_patch \<Rightarrow> json \<Rightarrow> entity \<Rightarrow> entity" where
  "patched c p md e = e\<lparr>en_legal_name := patch_or (ep_legal_name p) (en_legal_name e),
     en_short_name := (if ep_short_name p = None then en_short_name e else ep_short_name p),
     en_status := patch_or (ep_status p) (en_status e),
     en_fiscal_year_end := (if ep_fiscal_year_end p = None then en_fiscal_year_end e else ep_fiscal_year_end p),
     en_domicile := (if ep_domicile p = None then en_domicile e else ep_domicile p),
     en_metadata := md, en_updated_at := ctx_now c, en_audit := audit_cols_of (ctx_actor c)\<rparr>"

definition patch_row :: "registry_client \<Rightarrow> ctx \<Rightarrow> entity_patch \<Rightarrow> uuid \<Rightarrow> (error, db, unit) op" where
  "patch_row C c p u = (\<lambda>d. case sql_find (\<lambda>e. en_id e = u) (entities d) of
     None \<Rightarrow> (Inr (), d)
   | Some e \<Rightarrow>
       (case (case ep_metadata p of None \<Rightarrow> Inr (en_metadata e) | Some j \<Rightarrow> rc_jsonb_concat C (en_metadata e) j) of
          Inl x \<Rightarrow> (Inl x, d)
        | Inr md \<Rightarrow>
            if en_status (patched c p md e) \<notin> set entity_statuses then (Inl (ServiceE IntegrityError), d)
            else (Inr (), d\<lparr>entities := sql_update (\<lambda>e. en_id e = u) (patched c p md) (entities d)\<rparr>)))"

definition update_entity :: "registry_client \<Rightarrow> ctx \<Rightarrow> uuid \<Rightarrow> entity_patch \<Rightarrow> (error, db, entity_model) op" where
  "update_entity C c u p = thn (assert_actor_or_strict_raise c)
     (bnd (get_entity u) (\<lambda>before.
      thn (patch_row C c p u)
     (bnd (get_entity u) (\<lambda>after.
      thn (emit_audit C c ''entity.update'' ''entity'' (jobj [(''entity_id'', uuid_json u)])
             (Some (entity_json C before)) (Some (entity_json C after)) (jobj []))
     (ret after)))))"

end
