(* ===== verification/Registry_Graph.thy ===== *)
theory Registry_Graph
  imports Registry Py_Json
begin

text \<open>
  Relationships between entities and sectors (\<open>link\<close>, \<open>upsert_sector\<close>, \<open>assign_sector\<close> of
  \<open>registry/client.py\<close>): upserts that recognise a call which would change nothing.
\<close>

section \<open>Python equality of decimals\<close>

definition dec_eq :: "decimal \<Rightarrow> decimal \<Rightarrow> bool" where
  "dec_eq a b = (let e = min (snd a) (snd b)
     in fst a * 10 ^ nat (snd a - e) = fst b * 10 ^ nat (snd b - e))"

definition weight_eq :: "decimal option \<Rightarrow> decimal option \<Rightarrow> bool" where
  "weight_eq a b = (case (a, b) of
     (None, None) \<Rightarrow> True | (Some x, Some y) \<Rightarrow> dec_eq x y | _ \<Rightarrow> False)"

section \<open>Relationships\<close>

definition weight_json :: "registry_client \<Rightarrow> decimal option \<Rightarrow> json" where
  "weight_json C w = (case w of None \<Rightarrow> JNull | Some x \<Rightarrow> JStr (rc_dec_str C x))"

definition relationship_snap ::
  "registry_client \<Rightarrow> int \<Rightarrow> uuid \<Rightarrow> uuid \<Rightarrow> string \<Rightarrow> decimal option \<Rightarrow> int \<Rightarrow> int \<Rightarrow> json \<Rightarrow> json" where
  "relationship_snap C i p ch rt w vf vt md = jobj
     [(''relationship_id'', JInt i), (''parent_id'', uuid_json p), (''child_id'', uuid_json ch), (''rel_type'', jlit rt),
      (''weight'', weight_json C w), (''valid_from'', JStr (rc_date_str C vf)), (''valid_to'', JStr (rc_date_str C vt)),
      (''metadata'', md)]"

text \<open>\<open>x or {}\<close> on a decoded JSON value.\<close>

definition or_empty :: "json \<Rightarrow> json" where
  "or_empty j = (if j = JNull \<or> j = JBool False \<or> j = JInt 0 \<or> j = JStr [] \<or> j = JArr [] \<or> j = JFloat 0 \<or> j = JFloat (2 ^ 63)
     then JObj [] else j)"

definition rel_key :: "entity_relationship \<Rightarrow> uuid \<times> uuid \<times> string \<times> int" where
  "rel_key r = (rl_parent_id r, rl_child_id r, rl_type r, rl_valid_from r)"

definition new_relationship ::
  "registry_client \<Rightarrow> ctx \<Rightarrow> string \<Rightarrow> uuid \<Rightarrow> uuid \<Rightarrow> string \<Rightarrow> decimal option \<Rightarrow> int \<Rightarrow> int \<Rightarrow> json \<Rightarrow> int \<Rightarrow>
   entity_relationship" where
  "new_relationship C c src p ch rt w vf vt md i = \<lparr>rl_id = i, rl_parent_id = p, rl_child_id = ch, rl_type = rt,
     rl_weight = w, rl_valid_from = vf, rl_valid_to = vt, rl_metadata = md, rl_source_id = src,
     rl_ingestion_run_id = rc_run_id C, rl_created_at = ctx_now c, rl_audit = audit_cols_of (ctx_actor c)\<rparr>"

text \<open>\<open>INSERT ... ON CONFLICT DO UPDATE\<close>: the sequence advances in either case.\<close>

definition upsert_relationship :: "entity_relationship \<Rightarrow> (error, db, unit) op" where
  "upsert_relationship r = (\<lambda>d.
     let d1 = d\<lparr>rel_seq := rel_seq d + 1\<rparr> in
     if rl_parent_id r = rl_child_id r \<or> rl_parent_id r \<notin> en_id ` set (entities d) \<or>
        rl_child_id r \<notin> en_id ` set (entities d) then (Inl (ServiceE IntegrityError), d1)
     else if rel_key r \<in> rel_key ` set (relationships d) then
       (Inr (), d1\<lparr>relationships := sql_update (\<lambda>x. rel_key x = rel_key r)
          (\<lambda>x. x\<lparr>rl_weight := rl_weight r, rl_valid_to := rl_valid_to r, rl_metadata := rl_metadata r,
                 rl_audit := rl_audit r\<rparr>) (relationships d)\<rparr>)
     else (Inr (), d1\<lparr>relationships := relationships d @ [r]\<rparr>))"

definition link ::
  "registry_client \<Rightarrow> ctx \<Rightarrow> uuid \<Rightarrow> uuid \<Rightarrow> string \<Rightarrow> decimal option \<Rightarrow> int option \<Rightarrow> int option \<Rightarrow> json option \<Rightarrow>
   (error, db, unit) op" where
  "link C c p ch rt w valid_from valid_to metadata = thn (assert_actor_or_strict_raise c)
     (bnd (source_id_of C) (\<lambda>src.
      let vf = date_or min_date valid_from; vt = date_or max_date valid_to;
          md_in = (case metadata of None \<Rightarrow> JObj [] | Some j \<Rightarrow> or_empty j);
          stored = (case metadata of None \<Rightarrow> JObj [] | Some j \<Rightarrow> j);
          snap = (\<lambda>x. relationship_snap C (rl_id x) p ch rt (rl_weight x) vf (rl_valid_to x) (or_empty (rl_metadata x)));
          find = sql_find (\<lambda>x. rel_key x = (p, ch, rt, vf))
      in bnd (gets (\<lambda>d. find (relationships d))) (\<lambda>existing.
         if (case existing of None \<Rightarrow> False | Some x \<Rightarrow>
               weight_eq (rl_weight x) w \<and> rl_valid_to x = vt \<and> json_eq (or_empty (rl_metadata x)) md_in) then
           emit_audit C c ''entity_relationship.idempotent_hit'' ''entity_relationship''
             (jobj [(''relationship_id'', JInt (rl_id (the existing)))])
             (Some (snap (the existing))) (Some (snap (the existing))) returned_existing
         else
           thn (\<lambda>d. upsert_relationship (new_relationship C c src p ch rt w vf vt stored (rel_seq d)) d)
          (bnd (gets (\<lambda>d. find (relationships d))) (\<lambda>row. case row of
             None \<Rightarrow> raise (ServiceE NoResultFound)
           | Some x \<Rightarrow> emit_audit C c ''entity_relationship.link'' ''entity_relationship''
               (jobj [(''relationship_id'', JInt (rl_id x))]) (map_option snap existing)
               (Some (relationship_snap C (rl_id x) p ch rt w vf vt md_in)) (jobj []))))))"

section \<open>Sectors\<close>

record sector_in =
  si_id :: string
  si_taxonomy :: string
  si_code :: string
  si_name_tr :: pystr
  si_name_en :: "pystr option"
  si_parent_sector_id :: "string option"

definition sector_values :: "sector \<Rightarrow> sector_in" where
  "sector_values s = \<lparr>si_id = sc_id s, si_taxonomy = sc_taxonomy s, si_code = sc_code s, si_name_tr = sc_name_tr s,
     si_name_en = sc_name_en s, si_parent_sector_id = sc_parent_sector_id s\<rparr>"

definition sector_row :: "ctx \<Rightarrow> sector_in \<Rightarrow> sector" where
  "sector_row c a = \<lparr>sc_id = si_id a, sc_taxonomy = si_taxonomy a, sc_code = si_code a, sc_name_tr = si_name_tr a,
     sc_name_en = si_name_en a, sc_parent_sector_id = si_parent_sector_id a, sc_audit = audit_cols_of (ctx_actor c)\<rparr>"

definition sector_snap :: "sector_in \<Rightarrow> json" where
  "sector_snap a = jobj [(''sector_id'', jlit (si_id a)), (''taxonomy'', jlit (si_taxonomy a)), (''code'', jlit (si_code a)),
     (''name_tr'', JStr (si_name_tr a)), (''name_en'', json_or JStr (si_name_en a)),
     (''parent_sector_id'', json_or JStr (map_option lit (si_parent_sector_id a)))]"

definition put_sector :: "sector \<Rightarrow> (error, db, unit) op" where
  "put_sector s = (\<lambda>d.
     if (\<exists>x \<in> set (sectors d). sc_id x \<noteq> sc_id s \<and> sc_taxonomy x = sc_taxonomy s \<and> sc_code x = sc_code s) \<or>
        (case sc_parent_sector_id s of None \<Rightarrow> False | Some p \<Rightarrow> p \<noteq> sc_id s \<and> p \<notin> sc_id ` set (sectors d))
     then (Inl (ServiceE IntegrityError), d)
     else (Inr (), d\<lparr>sectors := sql_upsert sc_id s (sectors d)\<rparr>))"

definition upsert_sector :: "registry_client \<Rightarrow> ctx \<Rightarrow> sector_in \<Rightarrow> (error, db, unit) op" where
  "upsert_sector C c a = thn (assert_actor_or_strict_raise c)
     (bnd (gets (\<lambda>d. sql_find (\<lambda>s. sc_id s = si_id a) (sectors d))) (\<lambda>existing.
        let pk = jobj [(''sector_id'', jlit (si_id a))] in
        if map_option sector_values existing = Some a then
          emit_audit C c ''sector.idempotent_hit'' ''sector'' pk (Some (sector_snap a)) (Some (sector_snap a)) returned_existing
        else thn (put_sector (sector_row c a))
          (emit_audit C c ''sector.upsert'' ''sector'' pk
             (map_option (\<lambda>s. sector_snap (sector_values s)) existing) (Some (sector_snap a)) (jobj []))))"

definition es_key :: "entity_sector \<Rightarrow> uuid \<times> string \<times> int" where
  "es_key s = (es_entity_id s, es_sector_id s, es_valid_from s)"

definition assignment_pk :: "registry_client \<Rightarrow> uuid \<Rightarrow> string \<Rightarrow> int \<Rightarrow> json" where
  "assignment_pk C u sid vf = jobj [(''entity_id'', uuid_json u), (''sector_id'', jlit sid), (''valid_from'', JStr (rc_date_str C vf))]"

definition assignment_snap :: "registry_client \<Rightarrow> uuid \<Rightarrow> string \<Rightarrow> bool \<Rightarrow> int \<Rightarrow> int \<Rightarrow> json" where
  "assignment_snap C u sid prim vf vt = jobj [(''entity_id'', uuid_json u), (''sector_id'', jlit sid), (''is_primary'', JBool prim),
     (''valid_from'', JStr (rc_date_str C vf)), (''valid_to'', JStr (rc_date_str C vt))]"

definition put_assignment :: "entity_sector \<Rightarrow> (error, db, unit) op" where
  "put_assignment s = (\<lambda>d.
     if es_entity_id s \<notin> en_id ` set (entities d) \<or> es_sector_id s \<notin> sc_id ` set (sectors d)
     then (Inl (ServiceE IntegrityError), d)
     else (Inr (), d\<lparr>entity_sectors := sql_upsert es_key s (entity_sectors d)\<rparr>))"

definition assign_sector ::
  "registry_client \<Rightarrow> ctx \<Rightarrow> uuid \<Rightarrow> string \<Rightarrow> bool \<Rightarrow> int option \<Rightarrow> int option \<Rightarrow> (error, db, unit) op" where
  "assign_sector C c u sid prim valid_from valid_to = thn (assert_actor_or_strict_raise c)
     (let vf = date_or min_date valid_from; vt = date_or max_date valid_to; pk = assignment_pk C u sid vf;
          snap = (\<lambda>x. assignment_snap C u sid (es_is_primary x) vf (es_valid_to x))
      in bnd (gets (\<lambda>d. sql_find (\<lambda>s. es_key s = (u, sid, vf)) (entity_sectors d))) (\<lambda>existing.
         if map_option (\<lambda>x. (es_is_primary x, es_valid_to x)) existing = Some (prim, vt) then
           emit_audit C c ''entity_sector.idempotent_hit'' ''entity_sector'' pk
             (map_option snap existing) (map_option snap existing) returned_existing
         else thn (put_assignment \<lparr>es_entity_id = u, es_sector_id = sid, es_is_primary = prim,
               es_valid_from = vf, es_valid_to = vt, es_audit = audit_cols_of (ctx_actor c)\<rparr>)
           (emit_audit C c ''entity_sector.upsert'' ''entity_sector'' pk (map_option snap existing)
              (Some (assignment_snap C u sid prim vf vt)) (jobj []))))"

end
