(* ===== verification/Registry_Laws.thy ===== *)
theory Registry_Laws
  imports Registry_Graph
begin

text \<open>
  What the registry guarantees: the table constraints hold after every sequence of calls, an
  identifier resolves to one entity at any date, additions and expiries change resolution on
  their window and nowhere else, creation is idempotent, and a repeated call changes no row.
\<close>

section \<open>The constraints of the tables\<close>

definition ident_key :: "identifier_row \<Rightarrow> string \<times> pystr \<times> int" where
  "ident_key r = (id_namespace r, id_value r, id_valid_from r)"

definition ident_ok :: "uuid set \<Rightarrow> identifier_row list \<Rightarrow> int \<Rightarrow> bool" where
  "ident_ok ents t seq \<longleftrightarrow> distinct (map id_id t) \<and> distinct (map ident_key t) \<and>
     (\<forall>r \<in> set t. id_id r < seq \<and> id_valid_from r \<le> id_valid_to r \<and> id_entity_id r \<in> ents) \<and>
     (\<forall>r \<in> set t. \<forall>q \<in> set t. r \<noteq> q \<longrightarrow> \<not> overlaps r q)"

definition entity_ok :: "entity list \<Rightarrow> bool" where
  "entity_ok t \<longleftrightarrow> distinct (map en_id t) \<and>
     (\<forall>e \<in> set t. en_type e \<in> set entity_types \<and> en_status e \<in> set entity_statuses \<and>
        (\<forall>p. en_parent_entity_id e = Some p \<longrightarrow> p \<in> en_id ` set t))"

definition sector_ok :: "sector list \<Rightarrow> bool" where
  "sector_ok t \<longleftrightarrow> distinct (map sc_id t) \<and>
     (\<forall>s \<in> set t. \<forall>q \<in> set t. sc_taxonomy s = sc_taxonomy q \<and> sc_code s = sc_code q \<longrightarrow> sc_id s = sc_id q) \<and>
     (\<forall>s \<in> set t. \<forall>p. sc_parent_sector_id s = Some p \<longrightarrow> p \<in> sc_id ` set t)"

definition assignment_ok :: "uuid set \<Rightarrow> string set \<Rightarrow> entity_sector list \<Rightarrow> bool" where
  "assignment_ok ents secs t \<longleftrightarrow> distinct (map es_key t) \<and>
     (\<forall>s \<in> set t. es_entity_id s \<in> ents \<and> es_sector_id s \<in> secs)"

definition relationship_ok :: "uuid set \<Rightarrow> entity_relationship list \<Rightarrow> int \<Rightarrow> bool" where
  "relationship_ok ents t seq \<longleftrightarrow> distinct (map rel_key t) \<and> distinct (map rl_id t) \<and>
     (\<forall>r \<in> set t. rl_id r < seq \<and> rl_parent_id r \<noteq> rl_child_id r \<and> rl_parent_id r \<in> ents \<and> rl_child_id r \<in> ents)"

definition reg_ok :: "db \<Rightarrow> bool" where
  "reg_ok d \<longleftrightarrow> ident_ok (en_id ` set (entities d)) (identifiers d) (ident_seq d) \<and> entity_ok (entities d) \<and>
     sector_ok (sectors d) \<and>
     assignment_ok (en_id ` set (entities d)) (sc_id ` set (sectors d)) (entity_sectors d) \<and>
     relationship_ok (en_id ` set (entities d)) (relationships d) (rel_seq d)"

text \<open>The parts grow with what they refer to.\<close>

lemma ident_ok_mono: "ident_ok E t n \<Longrightarrow> E \<subseteq> E' \<Longrightarrow> n \<le> n' \<Longrightarrow> ident_ok E' t n'"
  unfolding ident_ok_def by force

lemma assignment_ok_mono: "assignment_ok E S t \<Longrightarrow> E \<subseteq> E' \<Longrightarrow> S \<subseteq> S' \<Longrightarrow> assignment_ok E' S' t"
  unfolding assignment_ok_def by blast

lemma relationship_ok_mono: "relationship_ok E t n \<Longrightarrow> E \<subseteq> E' \<Longrightarrow> n \<le> n' \<Longrightarrow> relationship_ok E' t n'"
  unfolding relationship_ok_def by force

lemma reg_ok_audit [simp]: "reg_ok (d\<lparr>audit_events := l\<rparr>) = reg_ok d"
  by (simp add: reg_ok_def)

lemma keeps_reg_audit [keeps_intros]: "keeps reg_ok (emit_audit C c oper table pk b a md)"
  by (simp add: emit_audit_def keeps_audit)

lemma keeps_source [keeps_intros]: "keeps P (source_id_of C)"
  by (auto simp: keeps_def source_id_of_def ret_def split: option.splits)

lemma keeps_get_entity [keeps_intros]: "keeps P (get_entity u)"
  by (auto simp: keeps_def get_entity_def split: option.splits)

text \<open>A step that reads the state first and then runs a computation chosen by it.\<close>

lemma keeps_local: "(\<And>d. P d \<Longrightarrow> P (snd (f d d))) \<Longrightarrow> keeps P (\<lambda>d. f d d)"
  by (simp add: keeps_def)

lemma overlaps_sym: "overlaps r q \<longleftrightarrow> overlaps q r"
  by (auto simp: overlaps_def)

lemma ident_ok_append:
  assumes ok: "ident_ok E t n" and new: "id_id r = n" "id_valid_from r \<le> id_valid_to r" "id_entity_id r \<in> E"
    and key: "ident_key r \<notin> ident_key ` set t" and free: "\<forall>q \<in> set t. \<not> overlaps r q"
  shows "ident_ok E (t @ [r]) (n + 1)"
  unfolding ident_ok_def
proof (intro conjI)
  show "distinct (map id_id (t @ [r]))" using ok new(1) unfolding ident_ok_def by fastforce
  show "distinct (map ident_key (t @ [r]))" using ok key unfolding ident_ok_def by simp
  show "\<forall>q \<in> set (t @ [r]). id_id q < n + 1 \<and> id_valid_from q \<le> id_valid_to q \<and> id_entity_id q \<in> E"
    using ok new unfolding ident_ok_def by force
  show "\<forall>a \<in> set (t @ [r]). \<forall>b \<in> set (t @ [r]). a \<noteq> b \<longrightarrow> \<not> overlaps a b"
  proof (intro ballI impI)
    fix a b assume "a \<in> set (t @ [r])" "b \<in> set (t @ [r])" "a \<noteq> b"
    then consider "a \<in> set t" "b \<in> set t" "a \<noteq> b" | "a = r" "b \<in> set t" | "a \<in> set t" "b = r" by auto
    then show "\<not> overlaps a b"
      using ok free overlaps_sym [of a b] by cases (auto simp: ident_ok_def)
  qed
qed

lemma reg_ok_add_identifier:
  assumes "reg_ok d" and "identifier_insertable r d" and "id_id r = ident_seq d"
    and "ident_key r \<notin> ident_key ` set (identifiers d)"
  shows "reg_ok (d\<lparr>ident_seq := ident_seq d + 1, identifiers := identifiers d @ [r]\<rparr>)"
  using assms ident_ok_append [of "en_id ` set (entities d)" "identifiers d" "ident_seq d" r]
  by (simp add: reg_ok_def identifier_insertable_def)

lemma same_window_start_key:
  "same_window_start ns v vf q \<longleftrightarrow> ident_key q = (ns, v, date_or min_date vf)"
  by (auto simp: same_window_start_def ident_key_def)

lemma new_identifier_fields [simp]:
  "ident_key (new_identifier C c src eid ns v vf vt prim i) = (ns, v, date_or min_date vf)"
  "id_id (new_identifier C c src eid ns v vf vt prim i) = i"
  "id_entity_id (new_identifier C c src eid ns v vf vt prim i) = eid"
  "id_namespace (new_identifier C c src eid ns v vf vt prim i) = ns"
  "id_value (new_identifier C c src eid ns v vf vt prim i) = v"
  "id_valid_from (new_identifier C c src eid ns v vf vt prim i) = date_or min_date vf"
  "id_valid_to (new_identifier C c src eid ns v vf vt prim i) = date_or max_date vt"
  "id_source_id (new_identifier C c src eid ns v vf vt prim i) = src"
  by (simp_all add: new_identifier_def ident_key_def)

lemma reg_ok_seq: "reg_ok d \<Longrightarrow> reg_ok (d\<lparr>ident_seq := ident_seq d + 1\<rparr>)"
  by (auto simp: reg_ok_def intro: ident_ok_mono)

lemma emit_audit_logs:
  assumes "\<not> (ctx_actor c = None \<and> ctx_strict c)"
  obtains ev where "emit_audit C c oper table pk b a md d = (Inr (), d\<lparr>audit_events := log_event ev (audit_events d)\<rparr>)"
    "ev_operation ev = oper"
proof
  let ?r = "\<lparr>ar_operation = oper, ar_target_schema = ''ref'', ar_target_table = table, ar_target_pk = pk,
    ar_before = b, ar_after = a, ar_metadata = md, ar_ingestion_run_id = Some (rc_run_id C)\<rparr>"
  show "emit_audit C c oper table pk b a md d = (Inr (), d\<lparr>audit_events := log_event (attributed_event c ?r) (audit_events d)\<rparr>)"
    using assms unfolding emit_audit_def audit_eval by simp
  show "ev_operation (attributed_event c ?r) = oper" by (simp add: attributed_event_def split: option.splits)
qed

text \<open>The outcomes of \<open>add_identifier\<close>: a refusal, a hit that changes no row, or the new row.\<close>

lemma put_identifier_outcome:
  assumes "put_identifier C c src eid ns v vf vt prim d = (res, d')"
  obtains (refused) e n where "res = Inl e" "0 \<le> n" "d' = d\<lparr>ident_seq := ident_seq d + n\<rparr>"
  | (unaudited) "ctx_actor c = None" "ctx_strict c"
  | (hit) x ev where "res = Inr ()" "filter (same_window_start ns v vf) (identifiers d) = [x]" "id_entity_id x = eid"
      "d' = d\<lparr>audit_events := log_event ev (audit_events d)\<rparr>" "ev_operation ev = ''identifier.idempotent_hit''"
  | (added) ev where "res = Inr ()" "filter (same_window_start ns v vf) (identifiers d) = []"
      "identifier_insertable (new_identifier C c src eid ns v vf vt prim (ident_seq d)) d"
      "d' = d\<lparr>audit_events := log_event ev (audit_events d), ident_seq := ident_seq d + 1,
         identifiers := identifiers d @ [new_identifier C c src eid ns v vf vt prim (ident_seq d)]\<rparr>"
      "ev_operation ev = ''identifier.add''"
proof (cases "ctx_actor c = None \<and> ctx_strict c")
  case True
  then show ?thesis by (intro unaudited) auto
next
  case allowed: False
  have same: "d\<lparr>ident_seq := ident_seq d + 0\<rparr> = d" by simp
  consider "filter (same_window_start ns v vf) (identifiers d) = []"
    | x where "filter (same_window_start ns v vf) (identifiers d) = [x]"
    | x y zs where "filter (same_window_start ns v vf) (identifiers d) = x # y # zs"
    by (metis list.exhaust)
  then show ?thesis
  proof cases
    case 1
    show ?thesis
    proof (cases "identifier_insertable (new_identifier C c src eid ns v vf vt prim (ident_seq d)) d")
      case True
      let ?d1 = "d\<lparr>ident_seq := ident_seq d + 1,
        identifiers := identifiers d @ [new_identifier C c src eid ns v vf vt prim (ident_seq d)]\<rparr>"
      obtain ev where "put_identifier C c src eid ns v vf vt prim d =
          (Inr (), ?d1\<lparr>audit_events := log_event ev (audit_events ?d1)\<rparr>)" "ev_operation ev = ''identifier.add''"
        unfolding put_identifier_def using 1 True emit_audit_logs [OF allowed, of C "''identifier.add''" "''identifier''" _ _ _ _ ?d1]
        by (simp add: Let_def) blast
      with 1 True assms show ?thesis by (intro added [of ev]) auto
    next
      case False
      show ?thesis using assms 1 False by (intro refused [of _ 1]) (auto simp: put_identifier_def Let_def)
    qed
  next
    case (2 x)
    show ?thesis
    proof (cases "id_entity_id x = eid")
      case True
      obtain ev where "put_identifier C c src eid ns v vf vt prim d =
          (Inr (), d\<lparr>audit_events := log_event ev (audit_events d)\<rparr>)" "ev_operation ev = ''identifier.idempotent_hit''"
        unfolding put_identifier_def
        using 2 True emit_audit_logs [OF allowed, of C "''identifier.idempotent_hit''" "''identifier''" _ _ _ _ d]
        by (simp add: Let_def) blast
      with 2 True assms show ?thesis by (intro hit [of x ev]) auto
    next
      case False
      show ?thesis using assms 2 False by (intro refused [of _ 0]) (auto simp: put_identifier_def)
    qed
  next
    case 3
    show ?thesis using assms 3 by (intro refused [of _ 0]) (auto simp: put_identifier_def)
  qed
qed

lemma keeps_assert_actor:
  "(\<not> (ctx_actor c = None \<and> ctx_strict c) \<Longrightarrow> keeps P m) \<Longrightarrow> keeps P (thn (assert_actor_or_strict_raise c) m)"
  by (auto simp: keeps_def thn_def bnd_def assert_actor_cases)

lemma no_window_start_key:
  "filter (same_window_start ns v vf) t = [] \<Longrightarrow> (ns, v, date_or min_date vf) \<notin> ident_key ` set t"
  by (force simp: filter_empty_conv same_window_start_key)

lemma put_identifier_keeps:
  assumes "\<not> (ctx_actor c = None \<and> ctx_strict c)"
  shows "keeps reg_ok (put_identifier C c src eid ns v vf vt prim)"
proof (rule keepsI)
  fix d assume ok: "reg_ok d"
  obtain res d' where run: "put_identifier C c src eid ns v vf vt prim d = (res, d')" by fastforce
  then have "reg_ok d'"
  proof (cases rule: put_identifier_outcome)
    case (refused e n)
    with ok show ?thesis by (auto simp: reg_ok_def intro: ident_ok_mono)
  next
    case (added ev)
    have "reg_ok (d\<lparr>ident_seq := ident_seq d + 1,
        identifiers := identifiers d @ [new_identifier C c src eid ns v vf vt prim (ident_seq d)]\<rparr>)"
      using ok added(3) no_window_start_key [OF added(2)] by (intro reg_ok_add_identifier) simp_all
    then show ?thesis unfolding added(4) by (simp add: reg_ok_def)
  qed (use ok assms in auto)
  with run show "reg_ok (snd (put_identifier C c src eid ns v vf vt prim d))" by simp
qed

lemma add_identifier_keeps [keeps_intros]: "keeps reg_ok (add_identifier C c eid ns v vf vt prim)"
  unfolding add_identifier_def
  by (intro keeps_assert_actor keeps_bnd keeps_source put_identifier_keeps)

lemma overlaps_expired: "valid_at day r \<Longrightarrow> overlaps (expired c day r) q \<Longrightarrow> overlaps r q"
  by (auto simp: overlaps_def expired_def valid_at_def)

lemma expired_fields [simp]:
  "id_id (expired c day r) = id_id r" "ident_key (expired c day r) = ident_key r"
  "id_valid_from (expired c day r) = id_valid_from r" "id_valid_to (expired c day r) = day"
  "id_entity_id (expired c day r) = id_entity_id r" "id_namespace (expired c day r) = id_namespace r"
  "id_value (expired c day r) = id_value r"
  by (simp_all add: expired_def ident_key_def)

lemma ident_ok_expire:
  assumes ok: "ident_ok E t n"
  shows "ident_ok E (sql_update (expire_match ns v day) (expired c day) t) n"
proof -
  define f where "f r = (if expire_match ns v day r then expired c day r else r)" for r
  have sub: "overlaps r q" if "overlaps (f r) (f q)" for r q
    using that overlaps_expired [of day r c] overlaps_expired [of day q c r] overlaps_sym
    by (auto simp: f_def expire_match_def split: if_splits)
  have keys: "map id_id (map f t) = map id_id t" "map ident_key (map f t) = map ident_key t"
    by (simp_all add: f_def)
  have "ident_ok E (map f t) n"
    unfolding ident_ok_def keys
  proof (intro conjI ballI impI)
    fix a b assume "a \<in> set (map f t)" "b \<in> set (map f t)" "a \<noteq> b"
    then obtain r q where "a = f r" "b = f q" "r \<in> set t" "q \<in> set t" "r \<noteq> q" by auto
    with ok sub show "\<not> overlaps a b" unfolding ident_ok_def by blast
  qed (use ok in \<open>auto simp: ident_ok_def f_def expire_match_def valid_at_def\<close>)
  then show ?thesis unfolding sql_update_def f_def [abs_def] .
qed

lemma emit_audit_reg_ok: "reg_ok d \<Longrightarrow> reg_ok (snd (emit_audit C c oper table pk b a md d))"
  using keeps_reg_audit by (simp add: keeps_def)

lemma expire_identifier_keeps [keeps_intros]: "keeps reg_ok (expire_identifier nu C c ns v day)"
  unfolding expire_identifier_def
proof (intro keeps_assert_actor keepsI)
  fix d assume ok: "reg_ok d"
  then have "reg_ok (d\<lparr>identifiers := sql_update (expire_match ns v day) (expired c day) (identifiers d)\<rparr>)"
    by (simp add: reg_ok_def ident_ok_expire)
  with ok show "reg_ok (snd ((\<lambda>d. let old = filter (expire_match ns v day) (identifiers d);
      d1 = d\<lparr>identifiers := sql_update (expire_match ns v day) (expired c day) (identifiers d)\<rparr>
      in if nu \<and> old \<noteq> [] then (Inl (ServiceE SQLAlchemyError), d)
        else case old of
          [] \<Rightarrow> (Inl (RegistryE EntityNotFound), d1)
        | [x] \<Rightarrow> emit_audit C c ''identifier.expire'' ''identifier'' (jobj [(''identifier_id'', JInt (id_id x))])
            (Some (identifier_snap C x ns v (id_valid_to x))) (Some (identifier_snap C x ns v day)) (jobj []) d1
        | x # _ # _ \<Rightarrow> (Inl (ServiceE MultipleResultsFound), d1)) d))"
    by (auto simp: Let_def emit_audit_reg_ok split: list.splits)
qed

section \<open>Entities keep the constraints\<close>

lemma entity_ok_append:
  assumes "entity_ok t" "en_id e \<notin> en_id ` set t" "en_type e \<in> set entity_types" "en_status e \<in> set entity_statuses"
    and "\<And>p. en_parent_entity_id e = Some p \<Longrightarrow> p = en_id e \<or> p \<in> en_id ` set t"
  shows "entity_ok (t @ [e])"
  using assms unfolding entity_ok_def by auto

lemma insert_entity_outcome:
  assumes "insert_entity C c src a d = (res, d')"
  obtains (refused) e where "res = Inl e" "d' = d"
  | (inserted) cc where "res = Inr (rc_uuid C d)" "rc_uuid C d \<notin> en_id ` set (entities d)" "char_2 (ei_country_code a) = Some cc"
      "d' = d\<lparr>entities := entities d @ [new_entity C c src a cc (rc_uuid C d)]\<rparr>"
      "entity_ok (entities d) \<Longrightarrow> entity_ok (entities d')"
proof (cases "char_2 (ei_country_code a)")
  case None
  with assms show ?thesis by (intro refused) (auto simp: insert_entity_def)
next
  case (Some cc)
  let ?u = "rc_uuid C d"
  let ?bad = "?u \<in> en_id ` set (entities d) \<or> ei_type a \<notin> set entity_types \<or> ei_status a \<notin> set entity_statuses \<or>
    (case ei_parent_entity_id a of None \<Rightarrow> False | Some p \<Rightarrow> p \<noteq> ?u \<and> p \<notin> en_id ` set (entities d))"
  show ?thesis
  proof (cases ?bad)
    case True
    with Some assms show ?thesis by (intro refused) (auto simp: insert_entity_def Let_def)
  next
    case False
    then have "entity_ok (entities d @ [new_entity C c src a cc ?u])" if "entity_ok (entities d)"
      using that by (intro entity_ok_append) (auto simp: new_entity_def split: option.splits)
    with False Some assms show ?thesis by (intro inserted [of cc]) (auto simp: insert_entity_def Let_def)
  qed
qed

lemma insert_entity_keeps [keeps_intros]: "keeps reg_ok (insert_entity C c src a)"
proof (rule keepsI)
  fix d assume ok: "reg_ok d"
  obtain res d' where run: "insert_entity C c src a d = (res, d')" by fastforce
  then have "reg_ok d'"
    using ok by (cases rule: insert_entity_outcome)
      (auto simp: reg_ok_def intro: ident_ok_mono assignment_ok_mono relationship_ok_mono)
  with run show "reg_ok (snd (insert_entity C c src a d))" by simp
qed

lemma create_entity_keeps [keeps_intros]: "keeps reg_ok (create_entity C c a)"
  unfolding create_entity_def fresh_entity_def existing_entity_def add_missing_def
  by (intro keeps_assert_actor keeps_intros) (auto intro!: keeps_intros split: list.splits)

lemma patched_fields [simp]: "en_id (patched c p md e) = en_id e" "en_type (patched c p md e) = en_type e"
  "en_parent_entity_id (patched c p md e) = en_parent_entity_id e"
  by (simp_all add: patched_def)

lemma patch_row_keeps [keeps_intros]: "keeps reg_ok (patch_row C c p u)"
proof (rule keepsI)
  fix d assume ok: "reg_ok d"
  have *: "reg_ok (d\<lparr>entities := sql_update (\<lambda>e. en_id e = u) (patched c p md) (entities d)\<rparr>)"
    if e: "sql_find (\<lambda>e. en_id e = u) (entities d) = Some e" and st: "en_status (patched c p md e) \<in> set entity_statuses"
    for e md
  proof -
    let ?t = "sql_update (\<lambda>e. en_id e = u) (patched c p md) (entities d)"
    have ids: "map en_id ?t = map en_id (entities d)" by (simp add: sql_update_keys)
    then have ids': "en_id ` set ?t = en_id ` set (entities d)" by (metis set_map)
    have "x = e" if "x \<in> set (entities d)" "en_id x = u" for x
      using ok e that sql_find_unique [of en_id "entities d" x] by (auto simp: reg_ok_def entity_ok_def)
    then have "entity_ok ?t"
      using ok st unfolding entity_ok_def ids ids' reg_ok_def by (auto simp: sql_update_def)
    with ok show ?thesis by (simp add: reg_ok_def ids')
  qed
  with ok show "reg_ok (snd (patch_row C c p u d))"
    by (auto simp: patch_row_def split: option.splits sum.splits)
qed

lemma update_entity_keeps [keeps_intros]: "keeps reg_ok (update_entity C c u p)"
  unfolding update_entity_def by (intro keeps_intros)

section \<open>Relationships and sectors keep the constraints\<close>

lemma relationship_ok_append:
  assumes "relationship_ok E t n" "rl_id r = n" "rl_parent_id r \<noteq> rl_child_id r" "rl_parent_id r \<in> E" "rl_child_id r \<in> E"
    and "rel_key r \<notin> rel_key ` set t"
  shows "relationship_ok E (t @ [r]) (n + 1)"
  using assms unfolding relationship_ok_def by fastforce

lemma relationship_ok_update:
  assumes "relationship_ok E t n"
  shows "relationship_ok E (sql_update p (\<lambda>x. x\<lparr>rl_weight := w, rl_valid_to := vt, rl_metadata := md, rl_audit := ac\<rparr>) t) n"
proof -
  have "map rel_key (sql_update p (\<lambda>x. x\<lparr>rl_weight := w, rl_valid_to := vt, rl_metadata := md, rl_audit := ac\<rparr>) t) = map rel_key t"
    by (rule sql_update_keys) (simp add: rel_key_def)
  moreover have "map rl_id (sql_update p (\<lambda>x. x\<lparr>rl_weight := w, rl_valid_to := vt, rl_metadata := md, rl_audit := ac\<rparr>) t) = map rl_id t"
    by (rule sql_update_keys) simp
  ultimately show ?thesis
    using assms unfolding relationship_ok_def by (elim ssubst) (auto simp: sql_update_def)
qed

lemma upsert_relationship_keeps:
  "keeps reg_ok (\<lambda>d. upsert_relationship (new_relationship C c src p ch rt w vf vt md (rel_seq d)) d)"
proof (rule keepsI)
  fix d assume ok: "reg_ok d"
  define r where "r = new_relationship C c src p ch rt w vf vt md (rel_seq d)"
  have t: "relationship_ok (en_id ` set (entities d)) (relationships d) (rel_seq d)" and "rl_id r = rel_seq d"
    using ok by (simp_all add: reg_ok_def r_def new_relationship_def)
  with ok relationship_ok_append [OF t, of r] relationship_ok_mono [OF t subset_refl, of "rel_seq d + 1"]
    relationship_ok_mono [OF relationship_ok_update [OF t] subset_refl, of "rel_seq d + 1"]
  show "reg_ok (snd (upsert_relationship (new_relationship C c src p ch rt w vf vt md (rel_seq d)) d))"
    unfolding r_def [symmetric] by (simp add: upsert_relationship_def Let_def reg_ok_def)
qed

lemma link_keeps [keeps_intros]: "keeps reg_ok (link C c p ch rt w vf vt md)"
  unfolding link_def Let_def
  by (intro keeps_assert_actor keeps_intros upsert_relationship_keeps)

lemma sector_ok_upsert:
  assumes t: "sector_ok t"
    and code: "\<forall>x \<in> set t. sc_id x \<noteq> sc_id s \<longrightarrow> \<not> (sc_taxonomy x = sc_taxonomy s \<and> sc_code x = sc_code s)"
    and parent: "\<And>p. sc_parent_sector_id s = Some p \<Longrightarrow> p = sc_id s \<or> p \<in> sc_id ` set t"
  shows "sector_ok (sql_upsert sc_id s t)"
  unfolding sector_ok_def
proof (intro conjI ballI allI impI)
  show "distinct (map sc_id (sql_upsert sc_id s t))" using t by (simp add: sector_ok_def sql_upsert_distinct)
next
  fix x y assume "x \<in> set (sql_upsert sc_id s t)" "y \<in> set (sql_upsert sc_id s t)"
    "sc_taxonomy x = sc_taxonomy y \<and> sc_code x = sc_code y"
  moreover from this sql_upsert_member [of x sc_id s t] sql_upsert_member [of y sc_id s t]
  have "x = s \<or> x \<in> set t \<and> sc_id x \<noteq> sc_id s" "y = s \<or> y \<in> set t \<and> sc_id y \<noteq> sc_id s" by blast+
  ultimately show "sc_id x = sc_id y" using t code unfolding sector_ok_def by metis
next
  fix x p assume x: "x \<in> set (sql_upsert sc_id s t)" and p: "sc_parent_sector_id x = Some p"
  show "p \<in> sc_id ` set (sql_upsert sc_id s t)"
    using sql_upsert_member [OF x] t parent p unfolding sql_upsert_keys sector_ok_def by blast
qed

lemma put_sector_keeps [keeps_intros]: "keeps reg_ok (put_sector s)"
proof (rule keepsI)
  fix d assume ok: "reg_ok d"
  let ?bad = "(\<exists>x \<in> set (sectors d). sc_id x \<noteq> sc_id s \<and> sc_taxonomy x = sc_taxonomy s \<and> sc_code x = sc_code s) \<or>
    (case sc_parent_sector_id s of None \<Rightarrow> False | Some p \<Rightarrow> p \<noteq> sc_id s \<and> p \<notin> sc_id ` set (sectors d))"
  show "reg_ok (snd (put_sector s d))"
  proof (cases ?bad)
    case True
    with ok show ?thesis unfolding put_sector_def by simp
  next
    case False
    then have "sector_ok (sql_upsert sc_id s (sectors d))"
      using ok by (intro sector_ok_upsert) (auto simp: reg_ok_def split: option.splits)
    moreover have "assignment_ok (en_id ` set (entities d)) (insert (sc_id s) (sc_id ` set (sectors d))) (entity_sectors d)"
      using ok by (auto simp: reg_ok_def intro: assignment_ok_mono)
    ultimately have "reg_ok (d\<lparr>sectors := sql_upsert sc_id s (sectors d)\<rparr>)"
      using ok by (simp add: reg_ok_def sql_upsert_keys)
    with False show ?thesis unfolding put_sector_def by (simp only: if_False snd_conv)
  qed
qed

lemma upsert_sector_keeps [keeps_intros]: "keeps reg_ok (upsert_sector C c a)"
  unfolding upsert_sector_def Let_def by (intro keeps_assert_actor keeps_intros)

lemma put_assignment_keeps [keeps_intros]: "keeps reg_ok (put_assignment s)"
proof (rule keepsI)
  fix d assume ok: "reg_ok d"
  have "assignment_ok E S (sql_upsert es_key s t)"
    if "assignment_ok E S t" "es_entity_id s \<in> E" "es_sector_id s \<in> S" for E S t
    using that by (auto simp: assignment_ok_def sql_upsert_distinct dest!: sql_upsert_member)
  with ok show "reg_ok (snd (put_assignment s d))" by (simp add: put_assignment_def reg_ok_def)
qed

lemma assign_sector_keeps [keeps_intros]: "keeps reg_ok (assign_sector C c u sid prim vf vt)"
  unfolding assign_sector_def Let_def by (intro keeps_assert_actor keeps_intros)

section \<open>Sequences of calls\<close>

datatype registry_call =
    CreateEntity entity_in
  | AddIdentifier uuid string pystr "int option" "int option" bool
  | UpdateEntity uuid entity_patch
  | ExpireIdentifier string pystr int
  | Link uuid uuid string "decimal option" "int option" "int option" "json option"
  | UpsertSector sector_in
  | AssignSector uuid string bool "int option" "int option"

definition registry_call :: "bool \<Rightarrow> registry_client \<Rightarrow> ctx \<Rightarrow> registry_call \<Rightarrow> (error, db, unit) op" where
  "registry_call no_update C c k = (case k of
     CreateEntity a \<Rightarrow> bnd (create_entity C c a) (\<lambda>_. ret ())
   | AddIdentifier u ns v vf vt prim \<Rightarrow> add_identifier C c u ns v vf vt prim
   | UpdateEntity u p \<Rightarrow> bnd (update_entity C c u p) (\<lambda>_. ret ())
   | ExpireIdentifier ns v day \<Rightarrow> expire_identifier no_update C c ns v day
   | Link p ch rt w vf vt md \<Rightarrow> link C c p ch rt w vf vt md
   | UpsertSector a \<Rightarrow> upsert_sector C c a
   | AssignSector u sid prim vf vt \<Rightarrow> assign_sector C c u sid prim vf vt)"

lemma registry_call_keeps: "keeps reg_ok (registry_call nu C c k)"
  by (cases k) (auto simp: registry_call_def intro!: keeps_intros)

text \<open>C8. The constraints of the registry tables are an invariant: whatever calls a session makes,
  for whatever clients and actors, failed calls included, identifier windows of one
  (namespace, value) stay disjoint, keys unique and references intact.\<close>

theorem registry_keeps_constraints:
  assumes "reg_ok d"
  shows "reg_ok (snd (for_each (\<lambda>(C, c, k). registry_call nu C c k) calls d))"
proof -
  have "keeps reg_ok (for_each (\<lambda>(C, c, k). registry_call nu C c k) calls)"
    by (rule keeps_for_each) (simp add: registry_call_keeps split: prod.splits)
  with assms show ?thesis by (simp add: keeps_def)
qed

lemma trail_same: "(\<And>d. audit_events (snd (m d)) = audit_events d) \<Longrightarrow> trail.grows m"
  by (simp add: trail.grows_def trail_le_def log_growth.le_refl)

lemma trail_get: "trail.grows (get_entity u)"
  by (rule trail_same) (simp add: get_entity_def split: option.splits)

lemma trail_source: "trail.grows (source_id_of C)"
  by (rule trail_same) (auto simp: source_id_of_def ret_def split: option.splits)

lemma trail_emit: "trail.grows (emit_audit C c oper table pk b a md)"
  unfolding emit_audit_def by (rule audit_trail)

lemma emit_audit_le: "audit_events d = l \<Longrightarrow> log_le l (audit_events (snd (emit_audit C c oper table pk b a md d)))"
  using trail_emit unfolding trail.grows_def trail_le_def by blast

lemma trail_put_identifier: "trail.grows (put_identifier C c src eid ns v vf vt prim)"
  unfolding put_identifier_def trail.grows_def trail_le_def
  by (auto simp: Let_def log_growth.le_refl intro!: emit_audit_le split: list.splits)

lemma trail_add_identifier: "trail.grows (add_identifier C c u ns v vf vt prim)"
  unfolding add_identifier_def
  by (intro trail.grows_intros assert_actor_trail trail_source trail_put_identifier)

lemma trail_expire: "trail.grows (expire_identifier nu C c ns v day)"
  unfolding expire_identifier_def
  by (intro trail.grows_thn assert_actor_trail)
    (auto simp: trail.grows_def trail_le_def Let_def log_growth.le_refl intro!: emit_audit_le split: list.splits)

lemma trail_insert_entity: "trail.grows (insert_entity C c src a)"
  by (rule trail_same) (auto simp: insert_entity_def Let_def split: option.splits)

lemma trail_patch_row: "trail.grows (patch_row C c p u)"
  by (rule trail_same) (auto simp: patch_row_def split: option.splits sum.splits)

lemma trail_upsert_relationship: "trail.grows (\<lambda>d. upsert_relationship (r d) d)"
  by (rule trail_same) (simp add: upsert_relationship_def Let_def)

lemma trail_put_sector: "trail.grows (put_sector s)"
  by (rule trail_same) (simp add: put_sector_def)

lemma trail_put_assignment: "trail.grows (put_assignment s)"
  by (rule trail_same) (simp add: put_assignment_def)

lemmas registry_trail = trail.grows_intros assert_actor_trail trail_source trail_get trail_emit trail_add_identifier
  trail_expire trail_insert_entity trail_patch_row trail_upsert_relationship trail_put_sector trail_put_assignment

lemma trail_create_entity: "trail.grows (create_entity C c a)"
  unfolding create_entity_def fresh_entity_def existing_entity_def add_missing_def
  by (intro registry_trail) (auto intro!: registry_trail split: list.splits)

lemma registry_call_trail: "trail.grows (registry_call nu C c k)"
proof (cases k)
  case (CreateEntity a)
  then show ?thesis by (simp add: registry_call_def trail.grows_bnd trail_create_entity trail.grows_ret)
next
  case (UpdateEntity u p)
  then show ?thesis
    unfolding registry_call_def by (simp add: update_entity_def) (intro registry_trail)
next
  case (Link p ch rt w vf vt md)
  then show ?thesis
    unfolding registry_call_def by (simp add: link_def Let_def) (intro registry_trail)
next
  case (UpsertSector a)
  then show ?thesis
    unfolding registry_call_def by (simp add: upsert_sector_def Let_def) (intro registry_trail)
next
  case (AssignSector u sid prim vf vt)
  then show ?thesis
    unfolding registry_call_def by (simp add: assign_sector_def Let_def) (intro registry_trail)
qed (simp_all add: registry_call_def trail_add_identifier trail_expire)

interpretation registry: audited_mutation "\<lambda>c (C, k). registry_call nu C c k" for nu
proof
  fix c :: ctx and d and x :: "registry_client \<times> registry_call"
  assume "ctx_strict c" "ctx_actor c = None"
  then show "\<exists>e. (case x of (C, k) \<Rightarrow> registry_call nu C c k) d = (Inl e, d)"
    by (cases x; cases "snd x") (auto simp: registry_call_def create_entity_def add_identifier_def update_entity_def
        expire_identifier_def link_def upsert_sector_def assign_sector_def thn_def bnd_def assert_actor_cases)
qed (auto simp: registry_call_trail split: prod.splits)

section \<open>Resolution\<close>

lemma set_by_rank [simp]: "set (by_rank rs) = set rs"
  by (simp add: by_rank_def)

lemma by_rank_Nil_iff [simp]: "by_rank rs = [] \<longleftrightarrow> rs = []"
  by (metis set_by_rank set_empty)

lemma by_rank_Nil [simp]: "by_rank [] = []"
  by (simp add: by_rank_def)

lemma valid_unique:
  assumes "ident_ok E t n" "r \<in> set t" "q \<in> set t" "ident_key r = (ns, v, f)" "ident_key q = (ns, v, g)"
    "valid_at day r" "valid_at day q"
  shows "r = q"
  using assms unfolding ident_ok_def by (force simp: overlaps_def ident_key_def valid_at_def)

lemma resolve_None_iff:
  "resolve C ns v (Some day) d = None \<longleftrightarrow>
     (\<forall>r \<in> set (identifiers d). \<not> (id_namespace r = ns \<and> id_value r = v \<and> valid_at day r))"
proof -
  let ?f = "filter (\<lambda>r. id_namespace r = ns \<and> id_value r = v \<and> valid_at day r) (identifiers d)"
  have "resolve C ns v (Some day) d = None \<longleftrightarrow> by_rank ?f = []"
    unfolding resolve_def day_or_today_def option.case by (cases "by_rank ?f") simp_all
  then show ?thesis by (auto simp: filter_empty_conv)
qed

lemma resolve_valid:
  assumes ok: "reg_ok d" and r: "r \<in> set (identifiers d)" "id_namespace r = ns" "id_value r = v" "valid_at day r"
  shows "resolve C ns v (Some day) d = Some (id_entity_id r)"
proof -
  let ?f = "filter (\<lambda>r. id_namespace r = ns \<and> id_value r = v \<and> valid_at day r) (identifiers d)"
  have all: "q = r" if "q \<in> set ?f" for q
    using that r ok valid_unique [of _ "identifiers d" _ q r ns v] by (auto simp: reg_ok_def ident_key_def)
  show ?thesis
  proof (cases "by_rank ?f")
    case Nil
    then have "set (by_rank ?f) = {}" by simp
    with r show ?thesis by auto
  next
    case (Cons q qs)
    then have "q \<in> set ?f" by (metis list.set_intros(1) set_by_rank)
    with all Cons show ?thesis by (simp add: resolve_def day_or_today_def)
  qed
qed

text \<open>Resolution is determined by the rows that are valid at the date.\<close>

lemma resolve_Some_iff:
  assumes "reg_ok d"
  shows "resolve C ns v (Some day) d = Some u \<longleftrightarrow>
    (\<exists>r \<in> set (identifiers d). id_namespace r = ns \<and> id_value r = v \<and> valid_at day r \<and> id_entity_id r = u)"
  using resolve_valid [OF assms] resolve_None_iff [of C ns v day d] by (metis option.distinct(1) option.inject)

lemma resolve_cong:
  assumes "reg_ok d" "reg_ok d'"
    and "\<And>u. (\<exists>r \<in> set (identifiers d). id_namespace r = ns \<and> id_value r = v \<and> valid_at day r \<and> id_entity_id r = u) \<longleftrightarrow>
      (\<exists>r \<in> set (identifiers d'). id_namespace r = ns \<and> id_value r = v \<and> valid_at day r \<and> id_entity_id r = u)"
  shows "resolve C ns v (Some day) d = resolve C ns v (Some day) d'"
proof -
  have "resolve C ns v (Some day) d = Some u \<longleftrightarrow> resolve C ns v (Some day) d' = Some u" for u
    using assms by (simp add: resolve_Some_iff)
  then show ?thesis by (metis not_Some_eq)
qed

lemma add_identifier_added:
  assumes "add_identifier C c eid ns v vf vt prim d = (Inr (), d')"
  obtains (hit) x ev where "filter (same_window_start ns v vf) (identifiers d) = [x]" "id_entity_id x = eid"
      "d' = d\<lparr>audit_events := log_event ev (audit_events d)\<rparr>" "ev_operation ev = ''identifier.idempotent_hit''"
  | (added) ev src where "filter (same_window_start ns v vf) (identifiers d) = []" "source_id_of C d = (Inr src, d)"
      "identifier_insertable (new_identifier C c src eid ns v vf vt prim (ident_seq d)) d"
      "d' = d\<lparr>audit_events := log_event ev (audit_events d), ident_seq := ident_seq d + 1,
         identifiers := identifiers d @ [new_identifier C c src eid ns v vf vt prim (ident_seq d)]\<rparr>"
      "ev_operation ev = ''identifier.add''"
proof -
  obtain src where src: "source_id_of C d = (Inr src, d)" and allowed: "\<not> (ctx_actor c = None \<and> ctx_strict c)"
    and put: "put_identifier C c src eid ns v vf vt prim d = (Inr (), d')"
    using assms by (auto simp: add_identifier_def thn_Inr_iff bnd_Inr_iff assert_actor_cases source_id_of_def
        split: option.splits if_splits)
  from put show thesis
    by (cases rule: put_identifier_outcome) (use src allowed hit added in auto)
qed

text \<open>C9. What an added identifier changes. After an \<open>add_identifier\<close> that stored a row, the pair
  resolves to the entity at every day of its half-open window, and every other pair and every
  day outside the window resolve as before.\<close>

theorem add_identifier_resolution:
  assumes ok: "reg_ok d" and run: "add_identifier C c eid ns v vf vt prim d = (Inr (), d')"
    and new: "\<forall>r \<in> set (identifiers d). \<not> same_window_start ns v vf r"
  shows "resolve C' ns' v' (Some day) d' =
    (if ns' = ns \<and> v' = v \<and> date_or min_date vf \<le> day \<and> day < date_or max_date vt then Some eid
     else resolve C' ns' v' (Some day) d)"
proof -
  have ok': "reg_ok d'" using keepsD [OF add_identifier_keeps run ok] .
  from run new obtain src where d': "identifiers d' = identifiers d @ [new_identifier C c src eid ns v vf vt prim (ident_seq d)]"
    by (cases rule: add_identifier_added) (auto simp: filter_eq_Cons_iff)
  show ?thesis
  proof (cases "ns' = ns \<and> v' = v \<and> date_or min_date vf \<le> day \<and> day < date_or max_date vt")
    case True
    then show ?thesis
      using resolve_valid [OF ok', of "new_identifier C c src eid ns v vf vt prim (ident_seq d)" ns v day C']
      by (simp add: d' valid_at_def)
  next
    case False
    then show ?thesis
      using resolve_cong [OF ok' ok, of ns' v' day C'] by (auto simp: d' valid_at_def)
  qed
qed

text \<open>What an expiry changes. Without the update trigger, ending a window at a day makes the pair
  unresolvable from that day to the former end of the window, and nothing else changes.\<close>

lemma expire_identifier_resolution:
  assumes ok: "reg_ok d" and run: "expire_identifier False C c ns v day d = (Inr (), d')"
  shows "\<exists>r \<in> set (identifiers d). id_namespace r = ns \<and> id_value r = v \<and> valid_at day r \<and>
    (\<forall>C' ns' v' t. resolve C' ns' v' (Some t) d' =
       (if ns' = ns \<and> v' = v \<and> day \<le> t \<and> t < id_valid_to r then None else resolve C' ns' v' (Some t) d))"
proof -
  have ok': "reg_ok d'" using keepsD [OF expire_identifier_keeps run ok] .
  from run obtain r where r: "filter (expire_match ns v day) (identifiers d) = [r]"
    and d': "identifiers d' = sql_update (expire_match ns v day) (expired c day) (identifiers d)"
    by (cases "filter (expire_match ns v day) (identifiers d)"; cases "tl (filter (expire_match ns v day) (identifiers d))")
      (auto simp: expire_identifier_def thn_def bnd_def assert_actor_cases Let_def emit_audit_def audit_Inr_iff
        split: if_splits)
  have mem: "r \<in> set (identifiers d)" "id_namespace r = ns" "id_value r = v" "valid_at day r"
    using r by (auto simp: filter_eq_Cons_iff expire_match_def)
  have only: "expire_match ns v day q \<longleftrightarrow> q = r" if "q \<in> set (identifiers d)" for q
  proof -
    have "expire_match ns v day q \<longleftrightarrow> q \<in> set (filter (expire_match ns v day) (identifiers d))" using that by simp
    then show ?thesis unfolding r by simp
  qed
  have rows: "set (identifiers d') = insert (expired c day r) (set (identifiers d) - {r})"
    using mem only unfolding d' sql_update_def by (auto simp: image_iff)
  have "resolve C' ns' v' (Some t) d' = (if ns' = ns \<and> v' = v \<and> day \<le> t \<and> t < id_valid_to r then None
      else resolve C' ns' v' (Some t) d)" for C' ns' v' t
  proof (cases "ns' = ns \<and> v' = v \<and> day \<le> t \<and> t < id_valid_to r")
    case True
    have "q = r" if "q \<in> set (identifiers d)" "id_namespace q = ns" "id_value q = v" "valid_at t q" for q
      using that mem True ok valid_unique [of _ "identifiers d" _ q r ns v _ _ t]
      by (auto simp: reg_ok_def ident_key_def valid_at_def)
    with True show ?thesis unfolding resolve_None_iff by (auto simp: rows valid_at_def resolve_None_iff)
  next
    case False
    then have "valid_at t (expired c day r) \<longleftrightarrow> valid_at t r" if "ns' = ns" "v' = v"
      using that mem(4) by (auto simp: valid_at_def)
    then show ?thesis
      using False mem resolve_cong [OF ok' ok, of ns' v' t C'] by (auto simp: rows)
  qed
  with mem show ?thesis by blast
qed

text \<open>With the trigger of migration 0044 no active identifier can be expired: the call fails
  and changes nothing.\<close>

lemma expire_identifier_blocked:
  assumes "resolve C' ns v (Some day) d = Some u"
  shows "\<exists>e. expire_identifier True C c ns v day d = (Inl e, d)"
proof -
  have "filter (expire_match ns v day) (identifiers d) \<noteq> []"
    using assms resolve_None_iff [of C' ns v day d] by (auto simp: filter_empty_conv expire_match_def)
  then show ?thesis by (simp add: expire_identifier_def thn_def bnd_def assert_actor_cases Let_def)
qed

end
