(* ===== verification/Registry_Create.thy ===== *)
theory Registry_Create
  imports Registry_Laws
begin

text \<open>
  Creation of entities is idempotent and respects the owner of an entity; concrete runs of the
  registry.
\<close>

section \<open>The loop over identifiers\<close>

text \<open>Both branches of \<open>create_entity\<close> run it; the fresh one skips nothing.\<close>

abbreviation pair_of :: "identifier_row \<Rightarrow> string \<times> pystr" where
  "pair_of r \<equiv> (id_namespace r, id_value r)"

lemma fresh_loop:
  "for_each (\<lambda>p. add_identifier C c u (fst p) (snd p) None None False) ps = add_missing C c u [] ps"
  by (simp add: add_missing_def)

lemma source_id_of_cong:
  "runs d' = runs d \<Longrightarrow> source_id_of C d = (Inr src, d) \<Longrightarrow> source_id_of C d' = (Inr src, d')"
  by (auto simp: source_id_of_def ret_def split: option.splits)

definition default_row :: "string \<Rightarrow> uuid \<Rightarrow> identifier_row \<Rightarrow> bool" where
  "default_row src u r \<longleftrightarrow> id_entity_id r = u \<and> id_source_id r = src \<and> id_valid_from r = min_date \<and> id_valid_to r = max_date"

lemma add_missing_result:
  assumes "add_missing C c u rows ps d = (Inr (), d')" and "source_id_of C d = (Inr src, d)"
  shows "entities d' = entities d \<and> runs d' = runs d \<and>
    (\<exists>news. identifiers d' = identifiers d @ news \<and>
       (\<forall>r \<in> set news. default_row src u r \<and> pair_of r \<in> set ps)) \<and>
    (\<forall>p \<in> set ps. p \<in> pair_of ` set rows \<or>
       (\<exists>r \<in> set (identifiers d'). same_window_start (fst p) (snd p) None r \<and> id_entity_id r = u))"
  using assms
proof (induction ps arbitrary: d)
  case Nil
  then show ?case by (auto simp: add_missing_def)
next
  case (Cons p ps)
  from Cons.prems(1) obtain d1 where first: "(if p \<in> pair_of ` set rows then ret ()
      else add_identifier C c u (fst p) (snd p) None None False) d = (Inr (), d1)"
    and rest: "add_missing C c u rows ps d1 = (Inr (), d')"
    by (auto simp: add_missing_def thn_Inr_iff)
  have step: "entities d1 = entities d \<and> runs d1 = runs d \<and>
    (\<exists>news. identifiers d1 = identifiers d @ news \<and> (\<forall>r \<in> set news. default_row src u r \<and> pair_of r = p)) \<and>
    (p \<in> pair_of ` set rows \<or> (\<exists>r \<in> set (identifiers d1). same_window_start (fst p) (snd p) None r \<and> id_entity_id r = u))"
  proof (cases "p \<in> pair_of ` set rows")
    case True
    with first show ?thesis by auto
  next
    case False
    with first have "add_identifier C c u (fst p) (snd p) None None False d = (Inr (), d1)" by simp
    then show ?thesis
    proof (cases rule: add_identifier_added)
      case (hit x ev)
      then have "x \<in> set (identifiers d)" "same_window_start (fst p) (snd p) None x"
        by (auto simp: filter_eq_Cons_iff)
      with hit show ?thesis by auto
    next
      case (added ev s)
      with Cons.prems(2) show ?thesis by (auto simp: default_row_def same_window_start_def date_or_def)
    qed
  qed
  have "source_id_of C d1 = (Inr src, d1)" using source_id_of_cong [of d1 d, OF _ Cons.prems(2)] step by blast
  note more = Cons.IH [OF rest this]
  from step obtain n1 where n1: "identifiers d1 = identifiers d @ n1" "\<forall>r \<in> set n1. default_row src u r \<and> pair_of r = p" by blast
  from more obtain n2 where n2: "identifiers d' = identifiers d1 @ n2"
    "\<forall>r \<in> set n2. default_row src u r \<and> pair_of r \<in> set ps" by blast
  have "\<exists>news. identifiers d' = identifiers d @ news \<and> (\<forall>r \<in> set news. default_row src u r \<and> pair_of r \<in> set (p # ps))"
    using n1 n2 by (intro exI [of _ "n1 @ n2"]) auto
  moreover have "\<forall>q \<in> set (p # ps). q \<in> pair_of ` set rows \<or>
      (\<exists>r \<in> set (identifiers d'). same_window_start (fst q) (snd q) None r \<and> id_entity_id r = u)"
  proof
    fix q assume q: "q \<in> set (p # ps)"
    have sub: "set (identifiers d1) \<subseteq> set (identifiers d')" by (simp add: n2(1))
    show "q \<in> pair_of ` set rows \<or> (\<exists>r \<in> set (identifiers d'). same_window_start (fst q) (snd q) None r \<and> id_entity_id r = u)"
    proof (cases "q = p")
      case True
      with step sub show ?thesis by blast
    next
      case False
      with q more show ?thesis by simp
    qed
  qed
  ultimately show ?case using step more by simp
qed

lemma add_missing_hits:
  assumes "\<forall>p \<in> set ps. p \<in> pair_of ` set rows \<or>
      (\<exists>x. filter (same_window_start (fst p) (snd p) None) (identifiers d) = [x] \<and> id_entity_id x = u)"
    and "source_id_of C d = (Inr src, d)" and allowed: "\<not> (ctx_actor c = None \<and> ctx_strict c)"
  shows "\<exists>l. add_missing C c u rows ps d = (Inr (), d\<lparr>audit_events := l\<rparr>)"
  using assms(1,2)
proof (induction ps arbitrary: d)
  case Nil
  then show ?case by (auto simp: add_missing_def intro: exI [of _ "audit_events d"])
next
  case (Cons p ps)
  have "\<exists>l. (if p \<in> pair_of ` set rows then ret ()
      else add_identifier C c u (fst p) (snd p) None None False) d = (Inr (), d\<lparr>audit_events := l\<rparr>)"
  proof (cases "p \<in> pair_of ` set rows")
    case True
    then show ?thesis by (auto intro: exI [of _ "audit_events d"])
  next
    case False
    with Cons.prems(1) obtain x where x: "filter (same_window_start (fst p) (snd p) None) (identifiers d) = [x]"
      "id_entity_id x = u" by auto
    obtain res d' where run: "put_identifier C c src u (fst p) (snd p) None None False d = (res, d')" by fastforce
    then have "res = Inr () \<and> (\<exists>l. d' = d\<lparr>audit_events := l\<rparr>)"
      using x allowed unfolding put_identifier_def
      by (auto simp: Let_def emit_audit_def audit_eval)
    with False run Cons.prems(2) allowed show ?thesis
      by (auto simp: add_identifier_def thn_def bnd_def assert_actor_cases)
  qed
  then obtain l where l: "(if p \<in> pair_of ` set rows then ret ()
      else add_identifier C c u (fst p) (snd p) None None False) d = (Inr (), d\<lparr>audit_events := l\<rparr>)" ..
  have "\<exists>l'. add_missing C c u rows ps (d\<lparr>audit_events := l\<rparr>) = (Inr (), d\<lparr>audit_events := l\<rparr>\<lparr>audit_events := l'\<rparr>)"
    using Cons.prems by (intro Cons.IH) (auto intro: source_id_of_cong)
  with l show ?case by (auto simp: add_missing_def thn_eval)
qed

section \<open>What a successful creation leaves behind\<close>

lemma remdups_single: "xs \<noteq> [] \<Longrightarrow> \<forall>x \<in> set xs. x = u \<Longrightarrow> remdups xs = [u]"
proof (induction xs)
  case (Cons x xs)
  then show ?case by (cases xs) auto
qed simp

text \<open>The state in which a further creation with the same identifiers finds the entity.\<close>

definition settled :: "registry_client \<Rightarrow> (string \<times> pystr) list \<Rightarrow> string \<Rightarrow> entity_model \<Rightarrow> db \<Rightarrow> bool" where
  "settled C ps src e d \<longleftrightarrow> source_id_of C d = (Inr src, d) \<and> em_source_id e = src \<and>
     get_entity (em_id e) d = (Inr e, d) \<and>
     (\<forall>r \<in> set (identifier_matches C ps d). id_entity_id r = em_id e \<and> id_source_id r = src) \<and>
     (\<forall>p \<in> set ps. p \<in> pair_of ` set (identifier_matches C ps d) \<or>
        (\<exists>r \<in> set (identifiers d). same_window_start (fst p) (snd p) None r \<and> id_entity_id r = em_id e))"

lemma get_entity_id: "get_entity u d = (Inr e, d') \<Longrightarrow> em_id e = u \<and> d' = d"
  by (auto simp: get_entity_def row_to_entity_def dest!: sql_find_Some_iff split: option.splits sum.splits)

lemma get_entity_cong: "entities d' = entities d \<Longrightarrow> get_entity u d = (Inr e, d) \<Longrightarrow> get_entity u d' = (Inr e, d')"
  by (auto simp: get_entity_def split: option.splits)

lemma source_id_of_same: "source_id_of C d = (res, d') \<Longrightarrow> d' = d"
  by (auto simp: source_id_of_def ret_def split: option.splits)

lemma matches_after:
  assumes "identifiers d' = identifiers d @ news" "r \<in> set (identifier_matches C ps d')"
  shows "r \<in> set (identifier_matches C ps d) \<or> r \<in> set news"
  using assms by (auto simp: identifier_matches_def)

lemma settledI:
  assumes "source_id_of C d' = (Inr src, d')" "em_source_id e = src" "get_entity (em_id e) d' = (Inr e, d')"
    and ids: "identifiers d' = identifiers d @ news" and news: "\<forall>r \<in> set news. default_row src (em_id e) r"
    and old: "\<forall>r \<in> set (identifier_matches C ps d). id_entity_id r = em_id e \<and> id_source_id r = src"
    and cover: "\<forall>p \<in> set ps. p \<in> pair_of ` set (identifier_matches C ps d) \<or>
      (\<exists>r \<in> set (identifiers d'). same_window_start (fst p) (snd p) None r \<and> id_entity_id r = em_id e)"
  shows "settled C ps src e d'"
proof -
  have "id_entity_id r = em_id e \<and> id_source_id r = src" if "r \<in> set (identifier_matches C ps d')" for r
    using matches_after [OF ids that] news old by (auto simp: default_row_def)
  moreover have "set (identifier_matches C ps d) \<subseteq> set (identifier_matches C ps d')"
    by (auto simp: identifier_matches_def ids)
  with cover have "\<forall>p \<in> set ps. p \<in> pair_of ` set (identifier_matches C ps d') \<or>
      (\<exists>r \<in> set (identifiers d'). same_window_start (fst p) (snd p) None r \<and> id_entity_id r = em_id e)"
    by blast
  ultimately show ?thesis using assms(1-3) by (simp add: settled_def)
qed

lemma existing_entity_settled:
  assumes run: "existing_entity C c src a (identifier_matches C (ei_identifiers a) d) u d = (Inr e, d')"
    and src: "source_id_of C d = (Inr src, d)"
    and one: "\<forall>r \<in> set (identifier_matches C (ei_identifiers a) d). id_entity_id r = u"
  shows "settled C (ei_identifiers a) src e d' \<and>
    (\<exists>news. identifiers d' = identifiers d @ news \<and> (\<forall>r \<in> set news. default_row src (em_id e) r))"
proof -
  let ?rows = "identifier_matches C (ei_identifiers a) d"
  from run obtain d1 where e: "get_entity u d = (Inr e, d)" and own: "em_source_id e = src"
    and rows: "\<forall>r \<in> set ?rows. id_source_id r = src"
    and loop: "add_missing C c u ?rows (ei_identifiers a) d = (Inr (), d1)"
    and same: "identifiers d' = identifiers d1" "entities d' = entities d1" "runs d' = runs d1"
    by (auto simp: existing_entity_def bnd_Inr_iff thn_Inr_iff emit_audit_def audit_Inr_iff
        dest!: get_entity_id [THEN conjunct2] split: if_splits)
  from add_missing_result [OF loop src] obtain news where
    news: "identifiers d1 = identifiers d @ news" "\<forall>r \<in> set news. default_row src u r"
    and tabs: "entities d1 = entities d" "runs d1 = runs d"
    and all: "\<forall>p \<in> set (ei_identifiers a). p \<in> pair_of ` set ?rows \<or>
       (\<exists>r \<in> set (identifiers d1). same_window_start (fst p) (snd p) None r \<and> id_entity_id r = u)" by blast
  have id: "em_id e = u" using get_entity_id [OF e] by simp
  have ids: "identifiers d' = identifiers d @ news" using news same by simp
  have "settled C (ei_identifiers a) src e d'"
  proof (rule settledI [OF _ own _ ids])
    show "source_id_of C d' = (Inr src, d')" using src same tabs by (intro source_id_of_cong [of d' d]) simp_all
    show "get_entity (em_id e) d' = (Inr e, d')" using e same tabs by (intro get_entity_cong [of d' d]) (simp_all add: id)
  qed (use news one rows all same in \<open>simp_all add: id\<close>)
  with ids news(2) show ?thesis unfolding id by blast
qed

lemma fresh_entity_settled:
  assumes ok: "reg_ok d" and run: "fresh_entity C c src a d = (Inr e, d')"
    and src: "source_id_of C d = (Inr src, d)" and none: "identifier_matches C (ei_identifiers a) d = []"
  shows "settled C (ei_identifiers a) src e d' \<and>
    (\<exists>news. identifiers d' = identifiers d @ news \<and> (\<forall>r \<in> set news. default_row src (em_id e) r) \<and>
       (\<forall>p \<in> set (ei_identifiers a). \<exists>r \<in> set news. pair_of r = p))"
proof -
  from run obtain u d0 d1 d2 where ins: "insert_entity C c src a d = (Inr u, d0)"
    and loop: "add_missing C c u [] (ei_identifiers a) d0 = (Inr (), d1)"
    and got: "get_entity u d1 = (Inr e, d2)"
    and same2: "identifiers d' = identifiers d2" "entities d' = entities d2" "runs d' = runs d2"
    unfolding fresh_entity_def fresh_loop bnd_Inr_iff thn_Inr_iff emit_audit_def audit_Inr_iff ret_iff
    by (elim exE conjE) simp
  have e: "get_entity u d1 = (Inr e, d1)"
    and same: "identifiers d' = identifiers d1" "entities d' = entities d1" "runs d' = runs d1"
    using got same2 get_entity_id [OF got] by simp_all
  obtain cc where u: "u \<notin> en_id ` set (entities d)"
    and d0: "d0 = d\<lparr>entities := entities d @ [new_entity C c src a cc u]\<rparr>"
    using ins by (rule insert_entity_outcome) (simp, metis sum.inject(2))
  have src0: "source_id_of C d0 = (Inr src, d0)" using src by (intro source_id_of_cong [of d0 d]) (simp_all add: d0)
  from add_missing_result [OF loop src0] obtain news where
    news: "identifiers d1 = identifiers d @ news" "\<forall>r \<in> set news. default_row src u r"
    and tabs: "entities d1 = entities d0" "runs d1 = runs d"
    and all: "\<forall>p \<in> set (ei_identifiers a).
       \<exists>r \<in> set (identifiers d1). same_window_start (fst p) (snd p) None r \<and> id_entity_id r = u"
    by (auto simp: d0)
  have id: "em_id e = u" using get_entity_id [OF e] by simp
  have "r \<in> set news" if "r \<in> set (identifiers d1)" "id_entity_id r = u" for r
    using that u ok by (auto simp: news reg_ok_def ident_ok_def)
  with all have mine: "\<forall>p \<in> set (ei_identifiers a). \<exists>r \<in> set news. pair_of r = p"
    by (force simp: same_window_start_def)
  have "sql_find (\<lambda>x. en_id x = u) (entities d) = None" using u by (force simp: sql_find_None_iff)
  then have own: "em_source_id e = src"
    using e by (auto simp: get_entity_def tabs d0 sql_find_append row_to_entity_def new_entity_def
        split: if_splits sum.splits)
  have ids: "identifiers d' = identifiers d @ news" using news same by simp
  have "settled C (ei_identifiers a) src e d'"
  proof (rule settledI [OF _ own _ ids])
    show "source_id_of C d' = (Inr src, d')" using src same tabs by (intro source_id_of_cong [of d' d]) simp_all
    show "get_entity (em_id e) d' = (Inr e, d')" using e same by (intro get_entity_cong [of d' d1]) (simp_all add: id)
  qed (use news none all same in \<open>simp_all add: id\<close>)
  with ids news(2) mine show ?thesis unfolding id by blast
qed

text \<open>Both branches together: the entity is settled, only default rows were added, and one of them or
  an earlier match is active today.\<close>

lemma create_entity_settled:
  assumes ok: "reg_ok d" and run: "create_entity C c a d = (Inr e, d')"
    and some: "ei_identifiers a \<noteq> []" and today: "min_date \<le> rc_pg_today C" "rc_pg_today C < max_date"
  obtains src news where "settled C (ei_identifiers a) src e d'" "identifiers d' = identifiers d @ news"
    "\<forall>r \<in> set news. default_row src (em_id e) r" "identifier_matches C (ei_identifiers a) d' \<noteq> []"
    "source_id_of C d = (Inr src, d)"
proof -
  let ?ps = "ei_identifiers a"
  from run obtain src where src: "source_id_of C d = (Inr src, d)"
    and branch: "(case remdups (map id_entity_id (identifier_matches C ?ps d)) of
        [] \<Rightarrow> fresh_entity C c src a
      | [u] \<Rightarrow> existing_entity C c src a (identifier_matches C ?ps d) u
      | _ # _ # _ \<Rightarrow> raise (RegistryE EntityMergeRequired)) d = (Inr e, d')"
    unfolding create_entity_def
    by (auto simp: thn_Inr_iff bnd_Inr_iff assert_actor_cases gets_def split: if_splits dest: source_id_of_same)
  consider (none) "identifier_matches C ?ps d = []"
    | (one) u where "remdups (map id_entity_id (identifier_matches C ?ps d)) = [u]"
    | (many) u v us where "remdups (map id_entity_id (identifier_matches C ?ps d)) = u # v # us"
    by (metis list.exhaust map_is_Nil_conv remdups_eq_nil_iff)
  then show thesis
  proof cases
    case none
    with branch have "fresh_entity C c src a d = (Inr e, d')" by simp
    from fresh_entity_settled [OF ok this src none] obtain news where
      s: "settled C ?ps src e d'" "identifiers d' = identifiers d @ news" "\<forall>r \<in> set news. default_row src (em_id e) r"
      and all: "\<forall>p \<in> set ?ps. \<exists>r \<in> set news. pair_of r = p" by blast
    obtain p where "p \<in> set ?ps" using some by (cases ?ps) auto
    with all obtain r where "r \<in> set news" "pair_of r \<in> set ?ps" by metis
    with s(2,3) today have "r \<in> set (identifier_matches C ?ps d')"
      by (auto simp: identifier_matches_def default_row_def valid_at_def)
    with s src that show thesis by (metis empty_iff empty_set)
  next
    case (one u)
    then have uniq: "\<forall>r \<in> set (identifier_matches C ?ps d). id_entity_id r = u"
      by (metis empty_iff empty_set image_eqI insert_iff list.simps(15) set_map set_remdups)
    from one branch have "existing_entity C c src a (identifier_matches C ?ps d) u d = (Inr e, d')" by simp
    from existing_entity_settled [OF this src uniq] obtain news where
      s: "settled C ?ps src e d'" "identifiers d' = identifiers d @ news" "\<forall>r \<in> set news. default_row src (em_id e) r"
      by blast
    have "identifier_matches C ?ps d \<noteq> []" using one by auto
    then have "identifier_matches C ?ps d' \<noteq> []" by (simp add: identifier_matches_def s(2))
    with s src that show thesis by blast
  next
    case many
    with branch show thesis by simp
  qed
qed

section \<open>Idempotence and ownership\<close>

lemma window_start_unique:
  assumes "ident_ok E t n" "r \<in> set t" "same_window_start ns v vf r"
  shows "filter (same_window_start ns v vf) t = [r]"
proof -
  have "distinct (map ident_key t)" using assms(1) by (simp add: ident_ok_def)
  then show ?thesis
    using assms(2,3)
    by (induction t) (auto simp: same_window_start_key filter_empty_conv image_iff)
qed

text \<open>Without identifiers there is nothing to find an earlier entity by: every such creation inserts one more entity,
  under an id that was not in the table.\<close>

lemma create_entity_without_identifiers:
  assumes run: "create_entity C c a d = (Inr e, d')" and none: "ei_identifiers a = []"
  shows "\<exists>r. entities d' = entities d @ [r] \<and> en_id r = em_id e \<and> em_id e \<notin> en_id ` set (entities d)"
proof -
  have "identifier_matches C (ei_identifiers a) d = []" by (simp add: identifier_matches_def none)
  with run obtain src where fresh: "fresh_entity C c src a d = (Inr e, d')"
    by (auto simp: create_entity_def thn_Inr_iff bnd_Inr_iff assert_actor_cases gets_def dest!: source_id_of_same split: if_splits)
  then obtain u d0 d1 where ins: "insert_entity C c src a d = (Inr u, d0)"
    and got: "get_entity u d0 = (Inr e, d1)" and same: "entities d' = entities d1"
    unfolding fresh_entity_def bnd_Inr_iff thn_Inr_iff emit_audit_def audit_Inr_iff none by (auto simp: ret_def)
  obtain cc where "rc_uuid C d \<notin> en_id ` set (entities d)" "u = rc_uuid C d"
    "entities d0 = entities d @ [new_entity C c src a cc (rc_uuid C d)]"
    using ins by (rule insert_entity_outcome) auto
  then show ?thesis using get_entity_id [OF got] same by (auto simp: new_entity_def)
qed

text \<open>C7. Creating an entity that has at least one identifier is idempotent. A creation that succeeded,
  repeated on the same day by any actor, returns the same entity and changes no row of any table; only
  the audit trail grows. The entity it returns belongs to the source of the run.\<close>

theorem create_entity_idempotent:
  assumes ok: "reg_ok d" and run: "create_entity C c a d = (Inr e, d')"
    and some: "ei_identifiers a \<noteq> []" and today: "min_date \<le> rc_pg_today C" "rc_pg_today C < max_date"
    and allowed: "\<not> (ctx_actor c' = None \<and> ctx_strict c')"
  shows "(\<exists>l. create_entity C c' a d' = (Inr e, d'\<lparr>audit_events := l\<rparr>)) \<and>
    source_id_of C d = (Inr (em_source_id e), d)"
proof -
  let ?rows = "identifier_matches C (ei_identifiers a) d'"
  obtain src where s: "settled C (ei_identifiers a) src e d'" and ne: "?rows \<noteq> []" and src: "source_id_of C d = (Inr src, d)"
    using create_entity_settled [OF ok run some today] by blast
  have own: "source_id_of C d' = (Inr src, d')" "em_source_id e = src" "get_entity (em_id e) d' = (Inr e, d')"
    and rows: "\<forall>r \<in> set ?rows. id_entity_id r = em_id e \<and> id_source_id r = src"
    using s by (auto simp: settled_def)
  have "reg_ok d'" using keepsD [OF create_entity_keeps run ok] .
  then have "\<forall>p \<in> set (ei_identifiers a). p \<in> pair_of ` set ?rows \<or>
      (\<exists>x. filter (same_window_start (fst p) (snd p) None) (identifiers d') = [x] \<and> id_entity_id x = em_id e)"
    using s window_start_unique unfolding settled_def reg_ok_def by metis
  from add_missing_hits [OF this own(1) allowed]
  obtain l where l: "add_missing C c' (em_id e) ?rows (ei_identifiers a) d' = (Inr (), d'\<lparr>audit_events := l\<rparr>)" by blast
  obtain l' where l': "emit_audit C c' ''entity.idempotent_hit'' ''entity'' (jobj [(''entity_id'', uuid_json (em_id e))])
      (Some (entity_json C e)) (Some (entity_json C e)) returned_existing (d'\<lparr>audit_events := l\<rparr>) =
      (Inr (), d'\<lparr>audit_events := l'\<rparr>)"
    by (rule emit_audit_logs [OF allowed, of C "''entity.idempotent_hit''" "''entity''"
        "jobj [(''entity_id'', uuid_json (em_id e))]" "Some (entity_json C e)" "Some (entity_json C e)" returned_existing
        "d'\<lparr>audit_events := l\<rparr>"]) simp
  have "remdups (map id_entity_id ?rows) = [em_id e]" using ne rows by (intro remdups_single) auto
  moreover have "existing_entity C c' src a ?rows (em_id e) d' = (Inr e, d'\<lparr>audit_events := l'\<rparr>)"
    using own rows l l' unfolding existing_entity_def by (simp add: bnd_def thn_def ret_def)
  ultimately have "create_entity C c' a d' = (Inr e, d'\<lparr>audit_events := l'\<rparr>)"
    using own allowed unfolding create_entity_def thn_def bnd_def assert_actor_cases gets_def by auto
  with src own show ?thesis by auto
qed

text \<open>What creation promises. If none of the pairs has a row of the default window that has been
  expired, then after a successful creation every given pair resolves today to the returned
  entity, and the entity belongs to the source of the run.\<close>

lemma create_entity_resolves:
  assumes ok: "reg_ok d" and run: "create_entity C c a d = (Inr e, d')"
    and some: "ei_identifiers a \<noteq> []" and today: "min_date \<le> rc_pg_today C" "rc_pg_today C < max_date"
    and live: "\<forall>r \<in> set (identifiers d). (id_namespace r, id_value r) \<in> set (ei_identifiers a) \<longrightarrow>
      id_valid_from r = min_date \<longrightarrow> rc_pg_today C < id_valid_to r"
  shows "\<forall>(ns, v) \<in> set (ei_identifiers a). resolve C' ns v (Some (rc_pg_today C)) d' = Some (em_id e)"
proof -
  let ?rows = "identifier_matches C (ei_identifiers a) d'"
  obtain src news where s: "settled C (ei_identifiers a) src e d'" and ids: "identifiers d' = identifiers d @ news"
    and news: "\<forall>r \<in> set news. default_row src (em_id e) r"
    using create_entity_settled [OF ok run some today] by metis
  have ok': "reg_ok d'" using keepsD [OF create_entity_keeps run ok] .
  have hit: "resolve C' (fst p) (snd p) (Some (rc_pg_today C)) d' = Some (em_id e)"
    if "p \<in> pair_of ` set ?rows" for p
    using that s resolve_valid [OF ok'] by (auto simp: settled_def identifier_matches_def)
  have "p \<in> pair_of ` set ?rows" if p: "p \<in> set (ei_identifiers a)" for p
  proof (rule ccontr)
    assume no: "p \<notin> pair_of ` set ?rows"
    with s p obtain r where r: "r \<in> set (identifiers d')" "same_window_start (fst p) (snd p) None r"
      unfolding settled_def by blast
    then have "pair_of r = p" "id_valid_from r = min_date"
      by (auto simp: same_window_start_def date_or_def)
    moreover from this r(1) live news today p have "valid_at (rc_pg_today C) r"
      by (auto simp: ids valid_at_def default_row_def)
    ultimately show False using no r(1) p by (force simp: identifier_matches_def)
  qed
  with hit show ?thesis by fastforce
qed

section \<open>Concrete runs\<close>

definition sample_client :: registry_client where
  "sample_client = \<lparr>rc_run_id = 1, rc_source_id_cache = Some ''kap'', rc_today = 740000, rc_pg_today = 740000,
     rc_uuid = (\<lambda>d. word_of_nat (Suc (length (entities d)))), rc_date_str = (\<lambda>_. []), rc_dt_str = (\<lambda>_. []),
     rc_dec_str = (\<lambda>_. []), rc_jsonb_concat = (\<lambda>_ j. Inr j)\<rparr>"

definition sample_company :: entity_in where
  "sample_company = \<lparr>ei_type = ''company'', ei_legal_name = lit ''THY'',
     ei_identifiers = [(''bist_ticker'', lit ''THYAO''), (''isin'', lit ''TRATHYAO91M5'')],
     ei_short_name = None, ei_country_code = ''TR'', ei_domicile = None, ei_incorporation_dt = None,
     ei_status = ''active'', ei_fiscal_year_end = None, ei_parent_entity_id = None, ei_metadata = None\<rparr>"

definition sample_registry :: db where
  "sample_registry = (empty_db [''kap''])\<lparr>entities := [new_entity sample_client sample_ctx ''kap'' sample_company ''TR'' 1]\<rparr>"

lemma empty_db_reg_ok: "reg_ok (empty_db srcs)"
  by (simp add: reg_ok_def empty_db_def ident_ok_def entity_ok_def sector_ok_def assignment_ok_def relationship_ok_def)

lemma sample_registry_ok: "reg_ok sample_registry"
  by (simp add: reg_ok_def sample_registry_def empty_db_def ident_ok_def entity_ok_def sector_ok_def assignment_ok_def
      relationship_ok_def new_entity_def sample_company_def entity_types_def entity_statuses_def)

lemma sample_add:
  "\<exists>d'. add_identifier sample_client sample_ctx 1 ''bist_ticker'' [84] (Some 700000) (Some 750000) True sample_registry = (Inr (), d') \<and>
    identifiers d' = [new_identifier sample_client sample_ctx ''kap'' 1 ''bist_ticker'' [84] (Some 700000) (Some 750000) True 1] \<and>
    entities d' = entities sample_registry \<and> reg_ok d'"
proof -
  have "\<exists>d'. add_identifier sample_client sample_ctx 1 ''bist_ticker'' [84] (Some 700000) (Some 750000) True sample_registry = (Inr (), d') \<and>
    identifiers d' = [new_identifier sample_client sample_ctx ''kap'' 1 ''bist_ticker'' [84] (Some 700000) (Some 750000) True 1] \<and>
    entities d' = entities sample_registry"
    by (simp add: add_identifier_def put_identifier_def source_id_of_def assert_actor_or_strict_raise_def Let_def
        sample_client_def sample_registry_def empty_db_def identifier_insertable_def new_entity_def emit_audit_def audit_eval
        date_or_def)
  then show ?thesis using keepsD [OF add_identifier_keeps _ sample_registry_ok] by blast
qed

lemma sample_create:
  "\<exists>e d'. create_entity sample_client sample_ctx sample_company (empty_db [''kap'']) = (Inr e, d')"
  by (simp add: create_entity_def fresh_entity_def insert_entity_def add_identifier_def put_identifier_def source_id_of_def assert_actor_or_strict_raise_def
      Let_def sample_client_def sample_company_def empty_db_def identifier_insertable_def new_entity_def emit_audit_def audit_eval
      date_or_def identifier_matches_def char_2_def entity_types_def entity_statuses_def new_identifier_def overlaps_def
      same_window_start_def min_date_def max_date_def get_entity_def row_to_entity_def dict_or_empty_def bnd_def thn_def
      gets_def ret_def)

theorem registry_keeps_constraints_witness:
  "reg_ok (snd (for_each (\<lambda>(C, c, k). registry_call False C c k)
     [(sample_client, sample_ctx, CreateEntity sample_company),
      (sample_client, sample_ctx, ExpireIdentifier ''isin'' (lit ''TRATHYAO91M5'') 740001)] (empty_db [''kap''])))"
  by (rule registry_keeps_constraints [OF empty_db_reg_ok])

theorem add_identifier_resolution_witness:
  "\<exists>d'. add_identifier sample_client sample_ctx 1 ''bist_ticker'' [84] (Some 700000) (Some 750000) True sample_registry = (Inr (), d') \<and>
    resolve sample_client ''bist_ticker'' [84] (Some 749999) d' = Some 1 \<and>
    resolve sample_client ''bist_ticker'' [84] (Some 750000) d' = None"
proof -
  obtain d' where run: "add_identifier sample_client sample_ctx 1 ''bist_ticker'' [84] (Some 700000) (Some 750000) True sample_registry = (Inr (), d')"
    using sample_add by blast
  have none: "\<forall>r \<in> set (identifiers sample_registry). \<not> same_window_start ''bist_ticker'' [84] (Some 700000) r"
    by (simp add: sample_registry_def empty_db_def)
  have "resolve sample_client ''bist_ticker'' [84] (Some 750000) sample_registry = None"
    by (simp add: resolve_None_iff sample_registry_def empty_db_def)
  with run add_identifier_resolution [OF sample_registry_ok run none, of sample_client "''bist_ticker''" "[84]"]
  show ?thesis by (simp add: date_or_def)
qed

lemma sample_expire:
  assumes "identifiers d = [new_identifier sample_client sample_ctx ''kap'' 1 ''bist_ticker'' [84] (Some 700000) (Some 750000) True 1]"
  shows "\<exists>d'. expire_identifier False sample_client sample_ctx ''bist_ticker'' [84] 740000 d = (Inr (), d')"
  by (simp add: expire_identifier_def assert_actor_or_strict_raise_def Let_def assms expire_match_def valid_at_def date_or_def
      emit_audit_def audit_eval)

lemma expire_identifier_resolution_witness:
  "\<exists>d d'. expire_identifier False sample_client sample_ctx ''bist_ticker'' [84] 740000 d = (Inr (), d') \<and>
    resolve sample_client ''bist_ticker'' [84] (Some 739999) d' = Some 1 \<and>
    resolve sample_client ''bist_ticker'' [84] (Some 740000) d' = None"
proof -
  obtain d where ids: "identifiers d = [new_identifier sample_client sample_ctx ''kap'' 1 ''bist_ticker'' [84] (Some 700000) (Some 750000) True 1]"
    and ok: "reg_ok d" using sample_add by blast
  obtain d' where run: "expire_identifier False sample_client sample_ctx ''bist_ticker'' [84] 740000 d = (Inr (), d')"
    using sample_expire [OF ids] by blast
  have "resolve sample_client ''bist_ticker'' [84] (Some 739999) d = Some 1"
    using resolve_valid [OF ok, of "new_identifier sample_client sample_ctx ''kap'' 1 ''bist_ticker'' [84] (Some 700000) (Some 750000) True 1"]
    by (simp add: ids valid_at_def date_or_def)
  with run expire_identifier_resolution [OF ok run]
  show ?thesis by (intro exI [of _ d] exI [of _ d']) (auto simp: ids date_or_def)
qed

lemma expire_identifier_blocked_witness:
  "\<exists>d e. resolve sample_client ''bist_ticker'' [84] (Some 740000) d = Some 1 \<and>
    expire_identifier True sample_client sample_ctx ''bist_ticker'' [84] 740000 d = (Inl e, d)"
proof -
  obtain d where ids: "identifiers d = [new_identifier sample_client sample_ctx ''kap'' 1 ''bist_ticker'' [84] (Some 700000) (Some 750000) True 1]"
    and ok: "reg_ok d" using sample_add by blast
  have res: "resolve sample_client ''bist_ticker'' [84] (Some 740000) d = Some 1"
    using resolve_valid [OF ok, of "new_identifier sample_client sample_ctx ''kap'' 1 ''bist_ticker'' [84] (Some 700000) (Some 750000) True 1"]
    by (simp add: ids valid_at_def date_or_def)
  with expire_identifier_blocked [OF res, of sample_client sample_ctx] show ?thesis by blast
qed

lemma sample_today: "ei_identifiers sample_company \<noteq> []" "min_date \<le> rc_pg_today sample_client" "rc_pg_today sample_client < max_date"
  by (simp_all add: sample_company_def sample_client_def min_date_def max_date_def)

theorem create_entity_idempotent_witness:
  "\<exists>e d' l. create_entity sample_client sample_ctx sample_company (empty_db [''kap'']) = (Inr e, d') \<and>
    create_entity sample_client sample_ctx sample_company d' = (Inr e, d'\<lparr>audit_events := l\<rparr>)"
proof -
  obtain e d' where run: "create_entity sample_client sample_ctx sample_company (empty_db [''kap'']) = (Inr e, d')"
    using sample_create by blast
  with create_entity_idempotent [OF empty_db_reg_ok run sample_today, of sample_ctx] show ?thesis by auto
qed

lemma create_entity_resolves_witness:
  "\<exists>e d'. create_entity sample_client sample_ctx sample_company (empty_db [''kap'']) = (Inr e, d') \<and>
    resolve sample_client ''bist_ticker'' (lit ''THYAO'') (Some 740000) d' = Some (em_id e)"
proof -
  obtain e d' where run: "create_entity sample_client sample_ctx sample_company (empty_db [''kap'']) = (Inr e, d')"
    using sample_create by blast
  have "\<forall>r \<in> set (identifiers (empty_db [''kap''])). (id_namespace r, id_value r) \<in> set (ei_identifiers sample_company) \<longrightarrow>
      id_valid_from r = min_date \<longrightarrow> rc_pg_today sample_client < id_valid_to r" by (simp add: empty_db_def)
  with run create_entity_resolves [OF empty_db_reg_ok run sample_today, of sample_client]
  show ?thesis by (auto simp: sample_company_def sample_client_def)
qed

end
