(* ===== verification/Ts_Pii.thy ===== *)
theory Ts_Pii
  imports Errors "HOL-Library.AList" "HOL-Library.Multiset" "HOL-Library.Sublist" "HOL-Library.List_Lexorder" "HOL-Library.Product_Lexorder"
begin

text \<open>
  Personal data in series metadata (\<open>timeseries/pii.py\<close> and the metadata guard of
  \<open>timeseries/writer.py\<close>): the recursive scan with structured paths, its restriction to one data
  subject, the guard against numeric object keys, and the scrub that replaces the found spans.
  The two regular expressions are a parameter \<open>M\<close>: the spans \<open>re.finditer\<close> gives for a pattern
  on a string.
\<close>

section \<open>Paths\<close>

datatype pelem = Idx nat | Key pystr

type_synonym path = "pelem list"

text \<open>
  Tuples are compared element by element. Python refuses to compare an index with a key; two
  paths of one document never make it (\<open>paths_comparable\<close> below), so any order between the two
  kinds will do.
\<close>

instantiation pelem :: linorder
begin

fun less_eq_pelem :: "pelem \<Rightarrow> pelem \<Rightarrow> bool" where
  "less_eq_pelem (Idx i) (Idx j) = (i \<le> j)"
| "less_eq_pelem (Idx i) (Key k) = True"
| "less_eq_pelem (Key k) (Idx i) = False"
| "less_eq_pelem (Key k) (Key l) = (k \<le> l)"

definition less_pelem :: "pelem \<Rightarrow> pelem \<Rightarrow> bool" where
  "less_pelem a b = (a \<le> b \<and> \<not> b \<le> a)"

instance
proof
  fix a b c :: pelem
  show "a < b \<longleftrightarrow> a \<le> b \<and> \<not> b \<le> a" by (simp add: less_pelem_def)
  show "a \<le> a" by (cases a) simp_all
  show "a \<le> b \<Longrightarrow> b \<le> c \<Longrightarrow> a \<le> c" by (cases a; cases b; cases c) simp_all
  show "a \<le> b \<Longrightarrow> b \<le> a \<Longrightarrow> a = b" by (cases a; cases b) simp_all
  show "a \<le> b \<or> b \<le> a" by (cases a; cases b) auto
qed

end

fun json_get :: "path \<Rightarrow> json \<Rightarrow> json option" where
  "json_get [] j = Some j"
| "json_get (Key k # p) (JObj kvs) = (case map_of kvs k of None \<Rightarrow> None | Some v \<Rightarrow> json_get p v)"
| "json_get (Idx i # p) (JArr xs) = (if i < length xs then json_get p (xs ! i) else None)"
| "json_get (_ # _) _ = None"

section \<open>Scanning\<close>

type_synonym matcher = "string \<Rightarrow> pystr \<Rightarrow> (nat \<times> nat) list"

record pii_finding =
  pf_path :: path
  pf_pattern :: string
  pf_text :: pystr
  pf_span :: "nat \<times> nat"
  pf_full :: pystr

definition PATTERN_TABLE :: "string list" where
  "PATTERN_TABLE = [''email'', ''name'']"

definition scan_string :: "matcher \<Rightarrow> path \<Rightarrow> pystr \<Rightarrow> pii_finding list" where
  "scan_string M p s = concat (map (\<lambda>pat. map (\<lambda>(a, b). \<lparr>pf_path = p, pf_pattern = pat,
     pf_text = take (b - a) (drop a s), pf_span = (a, b), pf_full = s\<rparr>) (M pat s)) PATTERN_TABLE)"

lemma enumerate_size [termination_simp]: "(i, x) \<in> set (enumerate n xs) \<Longrightarrow> size x < Suc (size_list size xs)"
proof (induction xs arbitrary: n)
  case (Cons a xs)
  then consider "x = a" | "(i, x) \<in> set (enumerate (Suc n) xs)" by auto
  then show ?case by cases (use Cons.IH [of "Suc n"] in \<open>simp_all add: less_SucI trans_less_add2\<close>)
qed simp

lemma dict_size [termination_simp]: "(k, v) \<in> set kvs \<Longrightarrow> size v < Suc (size_list (size_prod (\<lambda>_. 0) size) kvs)"
  by (induction kvs) auto

fun walk :: "matcher \<Rightarrow> path \<Rightarrow> json \<Rightarrow> pii_finding list" where
  "walk M p (JStr s) = scan_string M p s"
| "walk M p (JObj kvs) = concat (map (\<lambda>(k, v). walk M (p @ [Key k]) v) kvs)"
| "walk M p (JArr xs) = concat (map (\<lambda>(i, x). walk M (p @ [Idx i]) x) (enumerate 0 xs))"
| "walk M p _ = []"

definition find_pii_in_clear_text :: "matcher \<Rightarrow> string \<Rightarrow> pystr option \<Rightarrow> pii_finding list" where
  "find_pii_in_clear_text M field v = (case v of None \<Rightarrow> [] | Some s \<Rightarrow> scan_string M [Key (lit field)] s)"

type_synonym dict = "(pystr \<times> json) list"

definition DEFAULT_SKIP_TOP_LEVEL_KEYS :: "pystr list" where
  "DEFAULT_SKIP_TOP_LEVEL_KEYS = [lit ''subjects'']"

definition find_pii_in_metadata :: "matcher \<Rightarrow> pystr list \<Rightarrow> dict option \<Rightarrow> pii_finding list" where
  "find_pii_in_metadata M skip md = (case md of
     None \<Rightarrow> []
   | Some kvs \<Rightarrow> concat (map (\<lambda>(k, v). if k \<in> set skip then [] else walk M [Key k] v) kvs))"

text \<open>\<open>norm\<close> is NFC normalization followed by case folding.\<close>

definition find_pii_in_metadata_for_subject ::
  "matcher \<Rightarrow> (pystr \<Rightarrow> pystr) \<Rightarrow> pystr list \<Rightarrow> pystr list \<Rightarrow> dict option \<Rightarrow> pii_finding list" where
  "find_pii_in_metadata_for_subject M norm skip ids md =
     (let needles = map norm (filter (\<lambda>s. s \<noteq> []) ids)
      in if needles = [] then []
         else filter (\<lambda>f. let h = norm (pf_text f) in \<exists>n \<in> set needles. sublist n h \<or> sublist h n)
           (find_pii_in_metadata M skip md))"

section \<open>Numeric object keys\<close>

text \<open>\<open>re.match(r"^\d+$", k)\<close>: digits, and a final newline is let through.\<close>

definition numeric_key :: "pystr \<Rightarrow> bool" where
  "numeric_key k = (let ds = (if k \<noteq> [] \<and> last k = 10 then butlast k else k) in ds \<noteq> [] \<and> list_all (\<lambda>c. decimal_value c \<noteq> None) ds)"

fun first_error :: "('e + unit) list \<Rightarrow> 'e + unit" where
  "first_error [] = Inr ()"
| "first_error (Inl e # rs) = Inl e"
| "first_error (Inr _ # rs) = first_error rs"

text \<open>The writer's guard raises at the first numeric key.\<close>

fun validate_no_numeric_string_keys :: "json \<Rightarrow> error + unit" where
  "validate_no_numeric_string_keys (JObj kvs) = first_error (map (\<lambda>(k, v).
     if numeric_key k then Inl (ObservationE MetadataSchemaViolation) else validate_no_numeric_string_keys v) kvs)"
| "validate_no_numeric_string_keys (JArr xs) = first_error (map validate_no_numeric_string_keys xs)"
| "validate_no_numeric_string_keys _ = Inr ()"

text \<open>The deletion runtime's detection collects the paths of all of them.\<close>

fun walk_for_numeric_keys :: "path \<Rightarrow> json \<Rightarrow> path list" where
  "walk_for_numeric_keys p (JObj kvs) = concat (map (\<lambda>(k, v).
     (if numeric_key k then [p @ [Key k]] else []) @ walk_for_numeric_keys (p @ [Key k]) v) kvs)"
| "walk_for_numeric_keys p (JArr xs) = concat (map (\<lambda>(i, x). walk_for_numeric_keys (p @ [Idx i]) x) (enumerate 0 xs))"
| "walk_for_numeric_keys p _ = []"

definition has_numeric_string_keys :: "dict option \<Rightarrow> path list" where
  "has_numeric_string_keys md = (case md of None \<Rightarrow> [] | Some kvs \<Rightarrow> walk_for_numeric_keys [] (JObj kvs))"

definition path_to_jsonb_set_text_array :: "path \<Rightarrow> pystr list" where
  "path_to_jsonb_set_text_array p = map (\<lambda>e. case e of Idx i \<Rightarrow> nat_str i | Key k \<Rightarrow> k) p"

section \<open>Scrubbing\<close>

definition redaction_mark :: "string \<Rightarrow> pystr" where
  "redaction_mark pat = lit ''[REDACTED:Art.17:'' @ lit pat @ lit '']''"

definition splice :: "pii_finding \<Rightarrow> pystr \<Rightarrow> pystr" where
  "splice f s = take (fst (pf_span f)) s @ redaction_mark (pf_pattern f) @ drop (snd (pf_span f)) s"

text \<open>\<open>itertools.groupby\<close> on the path.\<close>

fun group_by_path :: "pii_finding list \<Rightarrow> (path \<times> pii_finding list) list" where
  "group_by_path [] = []"
| "group_by_path (f # fs) = (case group_by_path fs of
     [] \<Rightarrow> [(pf_path f, [f])]
   | (p, g) # gs \<Rightarrow> if p = pf_path f then (p, f # g) # gs else (pf_path f, [f]) # (p, g) # gs)"

text \<open>\<open>_set_at_path\<close>: a missing last key of an object is added, every other miss raises.\<close>

fun set_at_path :: "path \<Rightarrow> json \<Rightarrow> json \<Rightarrow> error + json" where
  "set_at_path [] v j = Inr j"
| "set_at_path [Key k] v (JObj kvs) = Inr (JObj (AList.update k v kvs))"
| "set_at_path [Idx i] v (JArr xs) = (if i < length xs then Inr (JArr (xs[i := v])) else Inl (PyE IndexError))"
| "set_at_path (Key k # e # p) v (JObj kvs) = (case map_of kvs k of
     None \<Rightarrow> Inl (PyE KeyError)
   | Some w \<Rightarrow> (case set_at_path (e # p) v w of Inl x \<Rightarrow> Inl x | Inr w' \<Rightarrow> Inr (JObj (AList.update k w' kvs))))"
| "set_at_path (Idx i # e # p) v (JArr xs) = (if i < length xs
     then (case set_at_path (e # p) v (xs ! i) of Inl x \<Rightarrow> Inl x | Inr w' \<Rightarrow> Inr (JArr (xs[i := w'])))
     else Inl (PyE IndexError))"
| "set_at_path _ v _ = Inl (PyE TypeError)"

text \<open>The string of one group: the spans are replaced from the last to the first.\<close>

definition scrub_group :: "pii_finding list \<Rightarrow> pystr" where
  "scrub_group g = fold splice (rev (sort_key pf_span (rev g))) (pf_full (hd g))"

fun scrub_groups :: "(path \<times> pii_finding list) list \<Rightarrow> json \<Rightarrow> error + json" where
  "scrub_groups [] j = Inr j"
| "scrub_groups ((p, g) # gs) j = (case set_at_path p (JStr (scrub_group g)) j of
     Inl x \<Rightarrow> Inl x | Inr j' \<Rightarrow> scrub_groups gs j')"

definition scrub_in_python :: "dict \<Rightarrow> pii_finding list \<Rightarrow> error + json" where
  "scrub_in_python md fs = (if fs = [] then Inr (JObj md)
     else scrub_groups (group_by_path (sort_key (\<lambda>f. (pf_path f, pf_span f)) fs)) (JObj md))"

section \<open>Guards and paths agree\<close>

lemma first_error_Inr: "first_error rs = Inr () \<longleftrightarrow> (\<forall>r \<in> set rs. r = Inr ())"
  by (induction rs rule: first_error.induct) auto

lemma enumerate_all: "(\<forall>(i, x) \<in> set (enumerate n xs). P x) \<longleftrightarrow> (\<forall>x \<in> set xs. P x)"
  by (induction xs arbitrary: n) auto

lemma no_numeric_keys_walk: "walk_for_numeric_keys p j = [] \<longleftrightarrow> validate_no_numeric_string_keys j = Inr ()"
proof (induction j arbitrary: p rule: validate_no_numeric_string_keys.induct)
  case (1 kvs)
  then show ?case by (auto simp: first_error_Inr split: if_splits)
next
  case (2 xs)
  have "walk_for_numeric_keys p (JArr xs) = [] \<longleftrightarrow>
      (\<forall>(i, x) \<in> set (enumerate 0 xs). walk_for_numeric_keys (p @ [Idx i]) x = [])" by auto
  also have "\<dots> \<longleftrightarrow> (\<forall>(i, x) \<in> set (enumerate 0 xs). validate_no_numeric_string_keys x = Inr ())"
    using 2 by (auto simp: in_set_enumerate_eq)
  finally show ?case unfolding enumerate_all by (simp add: first_error_Inr)
qed simp_all

text \<open>The writer's guard and the deletion runtime's detection recognise the same documents: metadata
  passes the guard exactly if the detection reports no path.\<close>

lemma numeric_key_guards_agree:
  "validate_no_numeric_string_keys (JObj md) = Inr () \<longleftrightarrow> has_numeric_string_keys (Some md) = []"
  by (simp only: has_numeric_string_keys_def option.case no_numeric_keys_walk)

text \<open>Two paths of one document differ first at two keys or at two indices.\<close>

lemma paths_comparable:
  assumes "json_get (p @ a # q) j \<noteq> None" "json_get (p @ b # r) j \<noteq> None"
  shows "(\<exists>i. a = Idx i) \<longleftrightarrow> (\<exists>i. b = Idx i)"
  using assms
proof (induction p arbitrary: j)
  case Nil
  then show ?case by (cases a; cases b; cases j) auto
next
  case (Cons e p)
  then show ?case by (cases e; cases j) (auto split: option.splits if_splits)
qed

lemma nat_str_inj: "nat_str m = nat_str n \<Longrightarrow> m = n"
  by (metis foldl_nat_str)

text \<open>The text form of a path loses nothing: two paths into one document that have the same
  \<open>text[]\<close> are the same path, with or without numeric keys.\<close>

lemma text_array_lossless:
  assumes "json_get p j \<noteq> None" "json_get q j \<noteq> None"
    and "path_to_jsonb_set_text_array p = path_to_jsonb_set_text_array q"
  shows "p = q"
  using assms
proof (induction p arbitrary: q j)
  case Nil
  then show ?case by (simp add: path_to_jsonb_set_text_array_def)
next
  case (Cons e p)
  then obtain e' q' where q: "q = e' # q'" by (cases q) (simp_all add: path_to_jsonb_set_text_array_def)
  have kinds: "(\<exists>i. e = Idx i) \<longleftrightarrow> (\<exists>i. e' = Idx i)"
    using paths_comparable [of "[]" e p j e' q'] Cons.prems q by simp
  have "e = e'"
    using Cons.prems(3) kinds unfolding q path_to_jsonb_set_text_array_def
    by (cases e; cases e') (auto dest: nat_str_inj)
  moreover obtain j' where "json_get p j' \<noteq> None" "json_get q' j' \<noteq> None"
    using Cons.prems(1,2) calculation unfolding q by (cases e'; cases j) (auto split: option.splits if_splits)
  ultimately show ?case
    using Cons.IH Cons.prems(3) by (simp add: q path_to_jsonb_set_text_array_def)
qed

section \<open>Scrubbing replaces exactly the found spans\<close>

text \<open>The reference: copy the text between the marks, from left to right.\<close>

fun mark_spans :: "nat \<Rightarrow> pystr \<Rightarrow> pii_finding list \<Rightarrow> pystr" where
  "mark_spans pos s [] = drop pos s"
| "mark_spans pos s (f # fs) = take (fst (pf_span f) - pos) (drop pos s) @ redaction_mark (pf_pattern f) @
     mark_spans (snd (pf_span f)) s fs"

fun chain :: "nat \<Rightarrow> nat \<Rightarrow> pii_finding list \<Rightarrow> bool" where
  "chain pos n [] = (pos \<le> n)"
| "chain pos n (f # fs) = (pos \<le> fst (pf_span f) \<and> fst (pf_span f) \<le> snd (pf_span f) \<and> chain (snd (pf_span f)) n fs)"

lemma chain_le: "chain pos n fs \<Longrightarrow> pos \<le> n"
  by (induction fs arbitrary: pos) (auto dest: order_trans)

lemma foldr_splice: "chain pos (length s) fs \<Longrightarrow> foldr splice fs s = take pos s @ mark_spans pos s fs"
proof (induction fs arbitrary: pos)
  case (Cons f fs)
  obtain a b where ab: "pf_span f = (a, b)" by fastforce
  with Cons.prems have le: "pos \<le> a" "a \<le> b" and rest: "chain b (length s) fs" by auto
  have n: "b \<le> length s" using chain_le [OF rest] .
  have "foldr splice (f # fs) s = splice f (take b s @ mark_spans b s fs)" using Cons.IH [OF rest] by simp
  also have "\<dots> = take a s @ redaction_mark (pf_pattern f) @ mark_spans b s fs"
    using le n by (simp add: splice_def ab min_def)
  also have "take a s = take pos s @ take (a - pos) (drop pos s)"
    using le take_add [of pos "a - pos" s] by simp
  finally show ?case by (simp add: ab)
qed simp

definition disjoint_spans :: "pii_finding list \<Rightarrow> bool" where
  "disjoint_spans fs \<longleftrightarrow> distinct fs \<and> (\<forall>f \<in> set fs. \<forall>g \<in> set fs. f \<noteq> g \<longrightarrow>
     snd (pf_span f) \<le> fst (pf_span g) \<or> snd (pf_span g) \<le> fst (pf_span f))"

lemma sorted_chain:
  assumes "sorted (map pf_span fs)" "disjoint_spans fs"
    and "\<forall>f \<in> set fs. pos \<le> fst (pf_span f) \<and> fst (pf_span f) < snd (pf_span f) \<and> snd (pf_span f) \<le> n" "pos \<le> n"
  shows "chain pos n fs"
  using assms
proof (induction fs arbitrary: pos)
  case (Cons f fs)
  have "snd (pf_span f) \<le> fst (pf_span g)" if g: "g \<in> set fs" for g
  proof -
    have "pf_span f \<le> pf_span g" using Cons.prems(1) g by simp
    then have "fst (pf_span f) \<le> fst (pf_span g)" by (auto simp: less_eq_prod_def)
    moreover have "f \<noteq> g" using Cons.prems(2) g by (auto simp: disjoint_spans_def)
    then have "snd (pf_span f) \<le> fst (pf_span g) \<or> snd (pf_span g) \<le> fst (pf_span f)"
      using Cons.prems(2) g by (auto simp: disjoint_spans_def)
    moreover have "fst (pf_span g) < snd (pf_span g)" using Cons.prems(3) g by simp
    ultimately show ?thesis by linarith
  qed
  then have "chain (snd (pf_span f)) n fs"
    using Cons.prems by (intro Cons.IH) (auto simp: disjoint_spans_def)
  with Cons.prems(3) show ?case by simp
qed simp

lemma scrub_group_cut:
  assumes g: "g \<noteq> []" "\<forall>f \<in> set g. pf_full f = s" and "disjoint_spans g"
    and "\<forall>f \<in> set g. fst (pf_span f) < snd (pf_span f) \<and> snd (pf_span f) \<le> length s"
  shows "scrub_group g = mark_spans 0 s (sort_key pf_span g)"
proof -
  have perm: "sort_key pf_span (rev g) = sort_key pf_span g"
  proof (rule sort_key_inj_key_eq)
    show "mset (rev g) = mset (sort_key pf_span g)" by simp
    show "inj_on pf_span (set (rev g))"
      using assms(3,4) by (force simp: inj_on_def disjoint_spans_def)
    show "sorted (map pf_span (sort_key pf_span g))" by simp
  qed
  have "chain 0 (length s) (sort_key pf_span g)"
    using assms(3,4) by (intro sorted_chain) (auto simp: disjoint_spans_def)
  then have "foldr splice (sort_key pf_span g) s = mark_spans 0 s (sort_key pf_span g)"
    using foldr_splice [of 0 s "sort_key pf_span g"] by simp
  moreover have "pf_full (hd g) = s" using g by simp
  ultimately show ?thesis by (simp add: scrub_group_def perm foldr_conv_fold)
qed

text \<open>The groups of a list that is sorted by path.\<close>

lemma group_by_path_hd: "xs \<noteq> [] \<Longrightarrow> \<exists>g gs. group_by_path xs = (pf_path (hd xs), g) # gs"
  by (cases xs) (auto split: list.splits)

lemma group_by_path_paths: "fst ` set (group_by_path xs) = pf_path ` set xs"
proof (induction xs)
  case (Cons f fs)
  show ?case
  proof (cases "group_by_path fs")
    case Nil
    with Cons.IH show ?thesis by simp
  next
    case groups: (Cons pg gs)
    obtain p g where pg: "pg = (p, g)" by fastforce
    have eq: "pf_path ` set fs = insert p (fst ` set gs)" using Cons.IH unfolding groups pg by simp
    show ?thesis by (cases "p = pf_path f") (auto simp: groups pg eq)
  qed
qed simp

lemma group_path_mem: "(p, g) \<in> set (group_by_path xs) \<Longrightarrow> p \<in> pf_path ` set xs"
  unfolding group_by_path_paths [symmetric] by (drule imageI [of _ _ fst]) (simp only: fst_conv)

lemma path_group_mem: "p \<in> pf_path ` set xs \<Longrightarrow> \<exists>g. (p, g) \<in> set (group_by_path xs)"
  unfolding group_by_path_paths [symmetric] by force

lemma group_by_path_sorted:
  assumes "sorted (map pf_path xs)"
  shows "distinct (map fst (group_by_path xs)) \<and>
    (\<forall>(p, g) \<in> set (group_by_path xs). g = filter (\<lambda>f. pf_path f = p) xs \<and> g \<noteq> [])"
  using assms
proof (induction xs)
  case (Cons f fs)
  then have IH: "distinct (map fst (group_by_path fs))"
    "\<forall>(p, g) \<in> set (group_by_path fs). g = filter (\<lambda>f. pf_path f = p) fs \<and> g \<noteq> []" by auto
  show ?case
  proof (cases "pf_path f \<in> pf_path ` set fs")
    case True
    then have ne: "fs \<noteq> []" by auto
    have "pf_path (hd fs) = pf_path f"
    proof (rule antisym)
      obtain h where h: "h \<in> set fs" "pf_path h = pf_path f" using True by auto
      show "pf_path (hd fs) \<le> pf_path f"
        using Cons.prems h ne by (cases fs) (auto)
      show "pf_path f \<le> pf_path (hd fs)" using Cons.prems ne by simp
    qed
    with group_by_path_hd [OF ne] obtain g gs where g: "group_by_path fs = (pf_path f, g) # gs" by auto
    then have "\<forall>(p, g') \<in> set gs. p \<noteq> pf_path f" using IH(1) by force
    moreover have "group_by_path (f # fs) = (pf_path f, f # g) # gs" by (simp add: g)
    ultimately show ?thesis using IH unfolding g by (auto split: prod.splits) metis
  next
    case False
    then have other: "p \<noteq> pf_path f" if "(p, g) \<in> set (group_by_path fs)" for p g
      using group_path_mem [OF that] False by blast
    then have other': "\<forall>pg \<in> set (group_by_path fs). fst pg \<noteq> pf_path f" by fastforce
    then have step: "group_by_path (f # fs) = (pf_path f, [f]) # group_by_path fs"
      by (cases "group_by_path fs") (auto split: prod.splits)
    have none: "filter (\<lambda>h. pf_path h = pf_path f) fs = []" using False by (force simp: filter_empty_conv image_iff)
    have dist: "pf_path f \<notin> fst ` set (group_by_path fs)" using False by (simp add: group_by_path_paths)
    show ?thesis unfolding step using IH other none dist by (auto split: prod.splits) metis
  qed
qed simp

text \<open>Writing at the path of a string changes no other scalar.\<close>

fun scalar :: "json \<Rightarrow> bool" where
  "scalar (JArr _) = False"
| "scalar (JObj _) = False"
| "scalar _ = True"

lemma map_of_alist_update: "map_of (AList.update k v kvs) l = (if l = k then Some v else map_of kvs l)"
  by (simp add: update_conv')

lemma set_at_path_other:
  assumes "json_get p j = Some (JStr s)" "p \<noteq> []"
  shows "\<exists>j'. set_at_path p (JStr t) j = Inr j' \<and> json_get p j' = Some (JStr t) \<and>
    (\<forall>q w. q \<noteq> p \<longrightarrow> json_get q j = Some w \<longrightarrow> scalar w \<longrightarrow> json_get q j' = Some w)"
  using assms
proof (induction p arbitrary: j)
  case (Cons e p)
  show ?case
  proof (cases e)
    case (Key k)
    with Cons.prems(1) obtain kvs w where j: "j = JObj kvs" "map_of kvs k = Some w" "json_get p w = Some (JStr s)"
      by (cases j) (auto split: option.splits)
    obtain w' where w': "(if p = [] then Inr (JStr t) else set_at_path p (JStr t) w) = Inr w'" "json_get p w' = Some (JStr t)"
      "\<forall>q v. q \<noteq> p \<longrightarrow> json_get q w = Some v \<longrightarrow> scalar v \<longrightarrow> json_get q w' = Some v"
    proof (cases "p = []")
      case True
      then have "json_get q w = Some v \<Longrightarrow> q = p" for q v using j(3) by (cases q; cases "hd q") auto
      with True that [of "JStr t"] show ?thesis by auto
    qed (use Cons.IH [OF j(3)] that in auto)
    have "set_at_path (e # p) (JStr t) j = Inr (JObj (AList.update k w' kvs))"
      using w'(1) j Key by (cases p) auto
    moreover have "json_get q (JObj (AList.update k w' kvs)) = Some v"
      if q: "q \<noteq> e # p" "json_get q j = Some v" "scalar v" for q v
    proof (cases q)
      case Nil
      with q j show ?thesis by auto
    next
      case (Cons e' q')
      with q j w'(3) Key show ?thesis by (cases e') (auto simp: map_of_alist_update split: option.splits)
    qed
    ultimately show ?thesis using w'(2) Key by (auto simp: map_of_alist_update)
  next
    case (Idx i)
    with Cons.prems(1) obtain xs where j: "j = JArr xs" "i < length xs" "json_get p (xs ! i) = Some (JStr s)"
      by (cases j) (auto split: if_splits)
    let ?w = "xs ! i"
    obtain w' where w': "(if p = [] then Inr (JStr t) else set_at_path p (JStr t) ?w) = Inr w'" "json_get p w' = Some (JStr t)"
      "\<forall>q v. q \<noteq> p \<longrightarrow> json_get q ?w = Some v \<longrightarrow> scalar v \<longrightarrow> json_get q w' = Some v"
    proof (cases "p = []")
      case True
      then have "json_get q ?w = Some v \<Longrightarrow> q = p" for q v using j(3) by (cases q; cases "hd q") auto
      with True that [of "JStr t"] show ?thesis by auto
    qed (use Cons.IH [OF j(3)] that in auto)
    have "set_at_path (e # p) (JStr t) j = Inr (JArr (xs[i := w']))"
      using w'(1) j Idx by (cases p) auto
    moreover have "json_get q (JArr (xs[i := w'])) = Some v"
      if q: "q \<noteq> e # p" "json_get q j = Some v" "scalar v" for q v
    proof (cases q)
      case Nil
      with q j show ?thesis by auto
    next
      case (Cons e' q')
      with q j w'(3) Idx show ?thesis by (cases e') (auto simp: nth_list_update split: if_splits)
    qed
    ultimately show ?thesis using w'(2) j(2) Idx by auto
  qed
qed simp

lemma enumerate_nth: "(i, x) \<in> set (enumerate 0 xs) \<Longrightarrow> i < length xs \<and> xs ! i = x"
  by (auto simp: in_set_enumerate_eq)

text \<open>A finding names a string of the document and a span the matcher gave for it.\<close>

lemma walk_sound:
  assumes "f \<in> set (walk M p j)" "json_wf j"
  shows "\<exists>q. pf_path f = p @ q \<and> json_get q j = Some (JStr (pf_full f)) \<and> pf_span f \<in> set (M (pf_pattern f) (pf_full f))"
  using assms
proof (induction M p j rule: walk.induct)
  case (1 M p s)
  then show ?case by (auto simp: scan_string_def)
next
  case (2 M p kvs)
  then obtain k v where kv: "(k, v) \<in> set kvs" "f \<in> set (walk M (p @ [Key k]) v)" by auto
  with 2 have "json_wf v" by force
  with 2(1) kv obtain q where "pf_path f = (p @ [Key k]) @ q" "json_get q v = Some (JStr (pf_full f))"
    "pf_span f \<in> set (M (pf_pattern f) (pf_full f))" by metis
  moreover have "map_of kvs k = Some v" using 2(3) kv(1) by (simp add: map_of_is_SomeI)
  ultimately show ?case by (intro exI [of _ "Key k # q"]) simp
next
  case (3 M p xs)
  then obtain i x where ix: "(i, x) \<in> set (enumerate 0 xs)" "f \<in> set (walk M (p @ [Idx i]) x)" by auto
  have nth: "i < length xs" "xs ! i = x" using enumerate_nth [OF ix(1)] by simp_all
  with 3(3) have "json_wf x" by auto
  with 3(1) ix obtain q where "pf_path f = (p @ [Idx i]) @ q" "json_get q x = Some (JStr (pf_full f))"
    "pf_span f \<in> set (M (pf_pattern f) (pf_full f))" by metis
  with nth show ?case by (intro exI [of _ "Idx i # q"]) simp
qed simp_all

lemma find_pii_sound:
  assumes "f \<in> set (find_pii_in_metadata M skip (Some md))" "json_wf (JObj md)"
  shows "json_get (pf_path f) (JObj md) = Some (JStr (pf_full f)) \<and> pf_path f \<noteq> [] \<and>
    pf_span f \<in> set (M (pf_pattern f) (pf_full f))"
proof -
  obtain k v where kv: "(k, v) \<in> set md" "f \<in> set (walk M [Key k] v)"
    using assms(1) by (auto simp: find_pii_in_metadata_def split: if_splits)
  with assms(2) have "json_wf v" "map_of md k = Some v" by (force, simp add: map_of_is_SomeI)
  with walk_sound [OF kv(2)] show ?thesis by auto
qed

lemma scrub_groups_result:
  assumes "distinct (map fst gs)" "\<forall>(p, g) \<in> set gs. p \<noteq> [] \<and> (\<exists>s. json_get p j = Some (JStr s))"
  shows "\<exists>j'. scrub_groups gs j = Inr j' \<and> (\<forall>(p, g) \<in> set gs. json_get p j' = Some (JStr (scrub_group g))) \<and>
    (\<forall>q w. q \<notin> fst ` set gs \<longrightarrow> json_get q j = Some w \<longrightarrow> scalar w \<longrightarrow> json_get q j' = Some w)"
  using assms
proof (induction gs arbitrary: j)
  case (Cons pg gs)
  obtain p g where pg: "pg = (p, g)" by fastforce
  with Cons.prems obtain s where s: "json_get p j = Some (JStr s)" "p \<noteq> []" by auto
  from set_at_path_other [OF s] obtain j1 where j1: "set_at_path p (JStr (scrub_group g)) j = Inr j1"
    "json_get p j1 = Some (JStr (scrub_group g))"
    and keep: "\<And>q w. q \<noteq> p \<Longrightarrow> json_get q j = Some w \<Longrightarrow> scalar w \<Longrightarrow> json_get q j1 = Some w" by blast
  have "q \<noteq> [] \<and> (\<exists>s. json_get q j1 = Some (JStr s))" if m: "(q, h) \<in> set gs" for q h
  proof -
    have "q \<noteq> p" using Cons.prems(1) m by (force simp: pg)
    moreover obtain t where "json_get q j = Some (JStr t)" "q \<noteq> []"
      using bspec [OF Cons.prems(2), of "(q, h)"] m by auto
    ultimately show ?thesis using keep [of q "JStr t"] by simp
  qed
  then have "\<forall>(p, g) \<in> set gs. p \<noteq> [] \<and> (\<exists>s. json_get p j1 = Some (JStr s))" by auto
  from Cons.IH [OF _ this] Cons.prems(1) obtain j' where j': "scrub_groups gs j1 = Inr j'"
    "\<forall>(p, g) \<in> set gs. json_get p j' = Some (JStr (scrub_group g))"
    and keep': "\<And>q w. q \<notin> fst ` set gs \<Longrightarrow> json_get q j1 = Some w \<Longrightarrow> scalar w \<Longrightarrow> json_get q j' = Some w"
    unfolding pg by auto
  have "json_get p j' = Some (JStr (scrub_group g))"
    using Cons.prems(1) by (intro keep' j1(2)) (auto simp: pg)
  moreover have "json_get q j' = Some w" if "q \<notin> fst ` set (pg # gs)" "json_get q j = Some w" "scalar w" for q w
    using that keep keep' by (simp add: pg)
  ultimately show ?case using j1(1) j'(1,2) by (auto simp: pg)
qed simp

text \<open>C30. Scrubbing is exact. For findings of the document whose spans on one string are disjoint, the
  result has at every string that was found the same text with each span replaced by its mark,
  as the left-to-right reference writes it, and every other scalar as before.\<close>

theorem scrub_exact:
  assumes wf: "json_wf (JObj md)" and fs: "set fs \<subseteq> set (find_pii_in_metadata M skip (Some md))"
    and spans: "\<forall>pat s. \<forall>(a, b) \<in> set (M pat s). a < b \<and> b \<le> length s"
    and disj: "\<forall>p. disjoint_spans (filter (\<lambda>f. pf_path f = p) fs)"
  shows "\<exists>j'. scrub_in_python md fs = Inr j' \<and>
    (\<forall>q s. json_get q (JObj md) = Some (JStr s) \<longrightarrow>
       json_get q j' = Some (JStr (mark_spans 0 s (sort_key pf_span (filter (\<lambda>f. pf_path f = q) fs))))) \<and>
    (\<forall>q w. q \<notin> pf_path ` set fs \<longrightarrow> json_get q (JObj md) = Some w \<longrightarrow> scalar w \<longrightarrow> json_get q j' = Some w)"
proof (cases "fs = []")
  case True
  then show ?thesis by (simp add: scrub_in_python_def)
next
  case False
  define xs where "xs = sort_key (\<lambda>f. (pf_path f, pf_span f)) fs"
  have set_xs [simp]: "set xs = set fs" by (simp add: xs_def)
  have sound: "json_get (pf_path f) (JObj md) = Some (JStr (pf_full f))" "pf_path f \<noteq> []"
    "fst (pf_span f) < snd (pf_span f) \<and> snd (pf_span f) \<le> length (pf_full f)" if "f \<in> set fs" for f
  proof -
    have f: "f \<in> set (find_pii_in_metadata M skip (Some md))" using fs that by blast
    note s = find_pii_sound [OF this wf]
    have "case pf_span f of (a, b) \<Rightarrow> a < b \<and> b \<le> length (pf_full f)"
      by (rule bspec [OF spans [THEN HOL.spec, THEN HOL.spec] s [THEN conjunct2, THEN conjunct2]])
    with s show "json_get (pf_path f) (JObj md) = Some (JStr (pf_full f))" "pf_path f \<noteq> []"
      "fst (pf_span f) < snd (pf_span f) \<and> snd (pf_span f) \<le> length (pf_full f)" by (simp_all add: case_prod_unfold)
  qed
  have "sorted (map pf_path xs)"
  proof -
    have "sorted (map (\<lambda>f. (pf_path f, pf_span f)) xs)" by (simp add: xs_def)
    then have "sorted_wrt (\<lambda>f g. (pf_path f, pf_span f) \<le> (pf_path g, pf_span g)) xs" by (simp add: sorted_map)
    then have "sorted_wrt (\<lambda>f g. pf_path f \<le> pf_path g) xs" by (rule sorted_wrt_mono_rel [rotated]) auto
    then show ?thesis by (simp add: sorted_map)
  qed
  from group_by_path_sorted [OF this] have dist: "distinct (map fst (group_by_path xs))"
    and grp: "\<And>p g. (p, g) \<in> set (group_by_path xs) \<Longrightarrow> g = filter (\<lambda>f. pf_path f = p) xs \<and> g \<noteq> []" by auto
  have "p \<noteq> [] \<and> (\<exists>s. json_get p (JObj md) = Some (JStr s))" if "(p, g) \<in> set (group_by_path xs)" for p g
    using group_path_mem [OF that] sound by auto
  then have "\<forall>(p, g) \<in> set (group_by_path xs). p \<noteq> [] \<and> (\<exists>s. json_get p (JObj md) = Some (JStr s))" by auto
  from scrub_groups_result [OF dist this] obtain j' where j': "scrub_groups (group_by_path xs) (JObj md) = Inr j'"
    and new: "\<And>p g. (p, g) \<in> set (group_by_path xs) \<Longrightarrow> json_get p j' = Some (JStr (scrub_group g))"
    and keep: "\<And>q w. q \<notin> pf_path ` set fs \<Longrightarrow> json_get q (JObj md) = Some w \<Longrightarrow> scalar w \<Longrightarrow> json_get q j' = Some w"
    unfolding group_by_path_paths set_xs by blast
  have "json_get q j' = Some (JStr (mark_spans 0 s (sort_key pf_span (filter (\<lambda>f. pf_path f = q) fs))))"
    if q: "json_get q (JObj md) = Some (JStr s)" for q s
  proof (cases "q \<in> pf_path ` set fs")
    case True
    then obtain g where qg: "(q, g) \<in> set (group_by_path xs)" using path_group_mem [of q xs] by auto
    then have g: "g = filter (\<lambda>f. pf_path f = q) xs" "g \<noteq> []" using grp by auto
    have mset: "mset g = mset (filter (\<lambda>f. pf_path f = q) fs)" by (simp add: g(1) xs_def)
    have d: "disjoint_spans g"
      using disj mset unfolding disjoint_spans_def by (metis mset_eq_imp_distinct_iff mset_eq_setD)
    have full: "\<forall>f \<in> set g. pf_full f = s" using sound q by (auto simp: g(1))
    have bounds: "\<forall>f \<in> set g. fst (pf_span f) < snd (pf_span f) \<and> snd (pf_span f) \<le> length s"
      using sound full by (auto simp: g(1))
    have "inj_on pf_span (set g)" using d bounds by (force simp: inj_on_def disjoint_spans_def)
    then have "sort_key pf_span g = sort_key pf_span (filter (\<lambda>f. pf_path f = q) fs)"
      using mset by (intro sort_key_inj_key_eq) simp_all
    with new [OF qg] scrub_group_cut [OF g(2) full d bounds] show ?thesis by simp
  next
    case False
    then have "filter (\<lambda>f. pf_path f = q) fs = []" by (force simp: filter_empty_conv image_iff)
    with keep [OF False q] show ?thesis by simp
  qed
  with j' keep False show ?thesis by (auto simp: scrub_in_python_def xs_def)
qed

text \<open>A document with two addresses in one string and a third elsewhere.\<close>

definition sample_matcher :: matcher where
  "sample_matcher pat s = (if pat = ''email'' \<and> s = [97, 64, 98, 46, 99, 32, 100, 64, 101, 46, 102] then [(0, 5), (6, 11)] else [])"

definition sample_metadata :: dict where
  "sample_metadata = [(lit ''note'', JStr [97, 64, 98, 46, 99, 32, 100, 64, 101, 46, 102]), (lit ''n'', JInt 1)]"

theorem scrub_exact_witness:
  "\<exists>j'. scrub_in_python sample_metadata (find_pii_in_metadata sample_matcher DEFAULT_SKIP_TOP_LEVEL_KEYS (Some sample_metadata)) = Inr j' \<and>
    json_get [Key (lit ''note'')] j' = Some (JStr (redaction_mark ''email'' @ [32] @ redaction_mark ''email''))"
proof -
  let ?fs = "find_pii_in_metadata sample_matcher DEFAULT_SKIP_TOP_LEVEL_KEYS (Some sample_metadata)"
  let ?note = "[97, 64, 98, 46, 99, 32, 100, 64, 101, 46, 102] :: pystr"
  have wf: "json_wf (JObj sample_metadata)" by (simp add: sample_metadata_def)
  have fs: "?fs = [\<lparr>pf_path = [Key (lit ''note'')], pf_pattern = ''email'', pf_text = [97, 64, 98, 46, 99], pf_span = (0, 5), pf_full = ?note\<rparr>,
      \<lparr>pf_path = [Key (lit ''note'')], pf_pattern = ''email'', pf_text = [100, 64, 101, 46, 102], pf_span = (6, 11), pf_full = ?note\<rparr>]"
    by (simp add: find_pii_in_metadata_def sample_metadata_def DEFAULT_SKIP_TOP_LEVEL_KEYS_def scan_string_def PATTERN_TABLE_def
        sample_matcher_def)
  have spans: "\<forall>pat s. \<forall>(a, b) \<in> set (sample_matcher pat s). a < b \<and> b \<le> length s" by (auto simp: sample_matcher_def)
  have disj: "\<forall>p. disjoint_spans (filter (\<lambda>f. pf_path f = p) ?fs)" unfolding fs by (auto simp: disjoint_spans_def)
  have nt: "json_get [Key (lit ''note'')] (JObj sample_metadata) = Some (JStr ?note)" by (simp add: sample_metadata_def)
  from scrub_exact [OF wf subset_refl spans disj] nt
  show ?thesis unfolding fs by auto
qed

end
