(* ===== verification/Py_Utf8.thy ===== *)
theory Py_Utf8
  imports Errors
begin

text \<open>
  \<open>str.encode("utf-8")\<close>: the bytes of a Python string, or a \<open>UnicodeEncodeError\<close> (a
  \<open>ValueError\<close>) on a surrogate code point. Distinct strings have distinct encodings, and an
  encoding can be read back from the front.
\<close>

type_synonym byte = "8 word"

definition encodable :: "nat \<Rightarrow> bool" where
  "encodable c \<longleftrightarrow> c < 0x110000 \<and> \<not> (0xD800 \<le> c \<and> c \<le> 0xDFFF)"

definition utf8_char :: "nat \<Rightarrow> nat list" where
  "utf8_char c =
     (if c < 0x80 then [c]
      else if c < 0x800 then [0xC0 + c div 64, 0x80 + c mod 64]
      else if c < 0x10000 then [0xE0 + c div 4096, 0x80 + c div 64 mod 64, 0x80 + c mod 64]
      else [0xF0 + c div 262144, 0x80 + c div 4096 mod 64, 0x80 + c div 64 mod 64, 0x80 + c mod 64])"

definition encode_utf8 :: "pystr \<Rightarrow> error + byte list" where
  "encode_utf8 s = (if list_all encodable s then Inr (map of_nat (concat (map utf8_char s))) else Inl (PyE ValueError))"

lemma utf8_char_bytes: "c < 0x110000 \<Longrightarrow> b \<in> set (utf8_char c) \<Longrightarrow> b < 256"
  by (auto simp: utf8_char_def split: if_splits)

lemma utf8_char_nonempty [simp]: "utf8_char c \<noteq> []"
  by (simp add: utf8_char_def)

lemma sextets: "c = c div 64 * 64 + c mod 64" "c = c div 4096 * 4096 + c div 64 mod 64 * 64 + c mod 64"
  "c = c div 262144 * 262144 + c div 4096 mod 64 * 4096 + c div 64 mod 64 * 64 + c mod 64" for c :: nat
proof -
  have 1: "x = x div 64 * 64 + x mod 64" for x :: nat by simp
  have 2: "x div 64 div 64 = x div 4096" "x div 4096 div 64 = x div 262144" for x :: nat by (simp_all add: div_mult2_eq [symmetric])
  show "c = c div 64 * 64 + c mod 64" by (rule 1)
  show 3: "c = c div 4096 * 4096 + c div 64 mod 64 * 64 + c mod 64" using 1 [of c] 1 [of "c div 64"] 2 [of c] by linarith
  show "c = c div 262144 * 262144 + c div 4096 mod 64 * 4096 + c div 64 mod 64 * 64 + c mod 64"
    using 3 1 [of "c div 4096"] 2 [of c] by linarith
qed

text \<open>The first byte tells the length of a character's encoding, the rest its value.\<close>

definition utf8_class :: "nat \<Rightarrow> nat" where
  "utf8_class c = (if c < 0x80 then 1 else if c < 0x800 then 2 else if c < 0x10000 then 3 else 4)"

lemma utf8_class_lead:
  "utf8_class c = (let b = hd (utf8_char c) in if b < 0xC0 then 1 else if b < 0xE0 then 2 else if b < 0xF0 then 3 else 4)"
proof -
  have "x div 64 < 32" if "x < 0x800" for x :: nat using that by (simp add: less_mult_imp_div_less)
  moreover have "x div 4096 < 16" if "x < 0x10000" for x :: nat using that by (simp add: less_mult_imp_div_less)
  ultimately show ?thesis by (simp add: utf8_class_def utf8_char_def)
qed

lemma utf8_char_length: "length (utf8_char c) = utf8_class c"
  by (simp add: utf8_class_def utf8_char_def)

lemma utf8_char_inj:
  assumes "utf8_char c = utf8_char d"
  shows "c = d"
proof -
  have same: "utf8_class c = utf8_class d" using assms utf8_char_length by metis
  consider "c < 0x80" "d < 0x80" | "\<not> c < 0x80" "c < 0x800" "\<not> d < 0x80" "d < 0x800"
    | "\<not> c < 0x800" "c < 0x10000" "\<not> d < 0x800" "d < 0x10000" | "\<not> c < 0x10000" "\<not> d < 0x10000"
    using same by (simp add: utf8_class_def split: if_splits)
  then show ?thesis
  proof cases
    case 1
    with assms show ?thesis by (simp add: utf8_char_def)
  next
    case 2
    with assms have "c div 64 = d div 64" "c mod 64 = d mod 64" by (simp_all add: utf8_char_def)
    then show ?thesis by (metis sextets(1))
  next
    case 3
    with assms have "c div 4096 = d div 4096" "c div 64 mod 64 = d div 64 mod 64" "c mod 64 = d mod 64"
      by (simp_all add: utf8_char_def)
    then show ?thesis by (metis sextets(2))
  next
    case 4
    with assms have "c div 262144 = d div 262144" "c div 4096 mod 64 = d div 4096 mod 64"
      "c div 64 mod 64 = d div 64 mod 64" "c mod 64 = d mod 64" by (simp_all add: utf8_char_def)
    then show ?thesis by (metis sextets(3))
  qed
qed

lemma utf8_char_prefix_free:
  assumes "utf8_char c @ r = utf8_char d @ s"
  shows "c = d \<and> r = s"
proof -
  have "hd (utf8_char c) = hd (utf8_char d)" using assms by (metis hd_append2 utf8_char_nonempty)
  then have "length (utf8_char c) = length (utf8_char d)" by (simp add: utf8_char_length utf8_class_lead)
  with assms show ?thesis by (simp add: append_eq_append_conv utf8_char_inj)
qed

lemma utf8_chars_inj: "concat (map utf8_char s) = concat (map utf8_char t) \<Longrightarrow> s = t"
proof (induction s arbitrary: t)
  case (Cons c s)
  from Cons.prems obtain d t' where "t = d # t'" by (cases t) auto
  with Cons show ?case using utf8_char_prefix_free [of c "concat (map utf8_char s)" d "concat (map utf8_char t')"] by auto
qed (auto simp: concat_eq_Nil_conv)

theorem encode_utf8_inj:
  assumes "encode_utf8 s = Inr bs" "encode_utf8 t = Inr bs"
  shows "s = t"
proof -
  have ok: "\<forall>c \<in> set s \<union> set t. c < 0x110000"
    using assms by (auto simp: encode_utf8_def list_all_iff encodable_def split: if_splits)
  have "map unat (map of_nat bs' :: byte list) = bs'" if "\<forall>b \<in> set bs'. b < 256" for bs'
    using that by (induction bs') (auto simp: unat_of_nat)
  moreover have "\<forall>b \<in> set (concat (map utf8_char u)). b < 256" if "u = s \<or> u = t" for u
    using that ok utf8_char_bytes by auto
  ultimately have "concat (map utf8_char s) = concat (map utf8_char t)"
    using assms by (metis encode_utf8_def old.sum.inject(2) sum.distinct(1))
  then show ?thesis by (rule utf8_chars_inj)
qed

lemma encode_utf8_ascii: "list_all (\<lambda>c. c < 128) s \<Longrightarrow> encode_utf8 s = Inr (map of_nat s)"
  by (induction s) (auto simp: encode_utf8_def utf8_char_def encodable_def split: if_splits)

end
