(* ===== verification/Ts_Payload.thy ===== *)
theory Ts_Payload
  imports Ts_Pii Py_Json Py_Utf8
begin

text \<open>
  Observations and their payload hash (\<open>schemas/timeseries.py\<close>), and the batch hash of
  \<open>timeseries/writer.py\<close>. The bytes that go into a hash are modelled; SHA-256, NFC,
  \<open>json.dumps\<close> and \<open>datetime.isoformat\<close> are parameters.
\<close>

section \<open>Observations\<close>

record observation_in =
  oi_ts :: datetime
  oi_as_of :: datetime
  oi_value :: "64 word option"
  oi_value_text :: "pystr option"
  oi_quality_flag :: int
  oi_metadata :: dict

definition ensure_tz_aware :: "datetime \<Rightarrow> error + datetime" where
  "ensure_tz_aware d = (if utcoffset d = None then Inl (PyE ValueError) else Inr d)"

text \<open>The validators of the model; a failing one is a \<open>ValueError\<close>.\<close>

definition mk_observation_in ::
  "datetime \<Rightarrow> datetime \<Rightarrow> 64 word option \<Rightarrow> pystr option \<Rightarrow> int \<Rightarrow> dict \<Rightarrow> error + observation_in" where
  "mk_observation_in ts as_of v t q md =
     (if utcoffset ts = None \<or> utcoffset as_of = None \<or> (v = None) = (t = None) then Inl (PyE ValueError)
      else Inr \<lparr>oi_ts = ts, oi_as_of = as_of, oi_value = v, oi_value_text = t, oi_quality_flag = q, oi_metadata = md\<rparr>)"

section \<open>The payload hash\<close>

record hash_env =
  he_sha :: "byte list \<Rightarrow> pystr"
  he_nfc :: "pystr \<Rightarrow> pystr"
  he_dumps :: "json \<Rightarrow> pystr"
  he_iso :: "datetime \<Rightarrow> string"

fun metadata_finite :: "json \<Rightarrow> bool" where
  "metadata_finite (JFloat w) = float_finite w"
| "metadata_finite (JObj kvs) = list_all (\<lambda>(k, v). metadata_finite v) kvs"
| "metadata_finite (JArr xs) = list_all metadata_finite xs"
| "metadata_finite _ = True"

text \<open>A dict comprehension keeps the place of the first and the value of the last of equal keys.\<close>

definition dict_of_pairs :: "(pystr \<times> json) list \<Rightarrow> dict" where
  "dict_of_pairs kvs = foldl (\<lambda>d (k, v). AList.update k v d) [] kvs"

function norm_json :: "(pystr \<Rightarrow> pystr) \<Rightarrow> json \<Rightarrow> json" where
  "norm_json nfc (JStr s) = JStr (nfc s)"
| "norm_json nfc (JObj kvs) = JObj (dict_of_pairs (map (\<lambda>(k, v). (nfc k, norm_json nfc v)) (sort_key fst kvs)))"
| "norm_json nfc (JArr xs) = JArr (map (norm_json nfc) xs)"
| "norm_json nfc JNull = JNull"
| "norm_json nfc (JBool b) = JBool b"
| "norm_json nfc (JInt i) = JInt i"
| "norm_json nfc (JFloat w) = JFloat w"
  by pat_completeness auto

termination
  by (relation "measure (\<lambda>(_, j). size j)") (auto simp: termination_simp)

text \<open>\<open>json.dumps\<close> with sorted keys and compact separators, encoded.\<close>

definition canonical_json :: "hash_env \<Rightarrow> dict \<Rightarrow> pystr" where
  "canonical_json E md = he_dumps E (norm_json (he_nfc E) (JObj md))"

definition canonical_json_bytes :: "hash_env \<Rightarrow> dict \<Rightarrow> error + byte list" where
  "canonical_json_bytes E md = encode_utf8 (canonical_json E md)"

text \<open>Big-endian bytes of the low \<open>n\<close> bytes of a number.\<close>

definition be_bytes :: "nat \<Rightarrow> int \<Rightarrow> byte list" where
  "be_bytes n i = map (\<lambda>k. word_of_int (i div 256 ^ k)) (rev [0..<n])"

definition ascii :: "string \<Rightarrow> byte list" where
  "ascii s = map of_char s"

definition PAYLOAD_HASH_DOMAIN :: "byte list" where
  "PAYLOAD_HASH_DOMAIN = ascii ''aslan-core/observation/v1'' @ [0]"

text \<open>\<open>len(x).to_bytes(4, "big")\<close>, then the bytes; a longer value overflows.\<close>

definition sized :: "byte list \<Rightarrow> error + byte list" where
  "sized bs = (if length bs < 2 ^ 32 then Inr (be_bytes 4 (int (length bs)) @ bs) else Inl (PyE OverflowError))"

definition sized_text :: "pystr \<Rightarrow> error + byte list" where
  "sized_text s = (case encode_utf8 s of Inl x \<Rightarrow> Inl x | Inr bs \<Rightarrow> sized bs)"

definition value_part :: "64 word option \<Rightarrow> byte list" where
  "value_part v = (case v of None \<Rightarrow> ascii ''v'' | Some w \<Rightarrow> ascii ''V'' @ be_bytes 8 (uint w))"

definition text_part :: "hash_env \<Rightarrow> pystr option \<Rightarrow> error + byte list" where
  "text_part E t = (case t of
     None \<Rightarrow> Inr (ascii ''t'')
   | Some s \<Rightarrow> (case sized_text (he_nfc E s) of Inl x \<Rightarrow> Inl x | Inr bs \<Rightarrow> Inr (ascii ''T'' @ bs)))"

definition flag_part :: "int \<Rightarrow> error + byte list" where
  "flag_part q = (if - (2 ^ 31) \<le> q \<and> q < 2 ^ 31 then Inr (ascii ''Q'' @ be_bytes 4 q) else Inl (PyE OverflowError))"

definition metadata_part :: "hash_env \<Rightarrow> dict \<Rightarrow> error + byte list" where
  "metadata_part E md = (case canonical_json_bytes E md of Inl x \<Rightarrow> Inl x | Inr js \<Rightarrow>
     (case sized js of Inl x \<Rightarrow> Inl x | Inr bs \<Rightarrow> Inr (ascii ''M'' @ bs)))"

definition payload_bytes :: "hash_env \<Rightarrow> observation_in \<Rightarrow> error + byte list" where
  "payload_bytes E o1 =
     (if \<not> metadata_finite (JObj (oi_metadata o1)) then Inl (ObservationE ObservationValidationError)
      else case text_part E (oi_value_text o1) of Inl x \<Rightarrow> Inl x | Inr t \<Rightarrow>
        (case flag_part (oi_quality_flag o1) of Inl x \<Rightarrow> Inl x | Inr q \<Rightarrow>
          (case metadata_part E (oi_metadata o1) of Inl x \<Rightarrow> Inl x | Inr m \<Rightarrow>
             Inr (PAYLOAD_HASH_DOMAIN @ value_part (oi_value o1) @ t @ q @ m))))"

definition payload_hash :: "hash_env \<Rightarrow> observation_in \<Rightarrow> error + pystr" where
  "payload_hash E o1 = map_sum id (he_sha E) (payload_bytes E o1)"

section \<open>The batch hash\<close>

text \<open>Aware datetimes are ordered by instant; the sort is stable.\<close>

definition obs_key :: "observation_in \<Rightarrow> int \<times> int" where
  "obs_key o1 = (instant (oi_ts o1), instant (oi_as_of o1))"

definition framed :: "byte list \<Rightarrow> byte list" where
  "framed bs = be_bytes 4 (int (length bs)) @ bs"

text \<open>The texts of \<open>isoformat\<close> and \<open>hexdigest\<close> are ASCII, and far shorter than \<open>2 ^ 32\<close>.\<close>

definition batch_item :: "hash_env \<Rightarrow> datetime \<times> datetime \<times> pystr \<Rightarrow> byte list" where
  "batch_item E i = (case i of (ts, as_of, ph) \<Rightarrow>
     framed (ascii (he_iso E ts)) @ framed (ascii (he_iso E as_of)) @ framed (map of_nat ph))"

text \<open>\<open>struct.pack(">Q", series_id)\<close> takes a 64-bit unsigned number.\<close>

definition batch_bytes :: "hash_env \<Rightarrow> int \<Rightarrow> (datetime \<times> datetime \<times> pystr) list \<Rightarrow> error + byte list" where
  "batch_bytes E sid items =
     (if 0 \<le> sid \<and> sid < 2 ^ 64
      then Inr (be_bytes 8 sid @ concat (map (batch_item E)
             (sort_key (\<lambda>(ts, as_of, _). (instant ts, instant as_of)) items)))
      else Inl (PyE StructError))"

definition compute_batch_hash :: "hash_env \<Rightarrow> int \<Rightarrow> (observation_in \<times> pystr) list \<Rightarrow> error + pystr" where
  "compute_batch_hash E sid deduped = map_sum id (he_sha E)
     (batch_bytes E sid (map (\<lambda>(o1, ph). (oi_ts o1, oi_as_of o1, ph)) deduped))"

section \<open>The bytes determine the payload\<close>

lemma be_bytes_length [simp]: "length (be_bytes n i) = n"
  by (simp add: be_bytes_def)

fun be_value :: "byte list \<Rightarrow> int" where
  "be_value [] = 0"
| "be_value (b # bs) = uint b * 256 ^ length bs + be_value bs"

lemma be_value_be_bytes: "be_value (be_bytes n i) = i mod 256 ^ n"
proof (induction n)
  case (Suc n)
  have "be_bytes (Suc n) i = word_of_int (i div 256 ^ n) # be_bytes n i" by (simp add: be_bytes_def)
  then have "be_value (be_bytes (Suc n) i) = (i div 256 ^ n mod 256) * 256 ^ n + i mod 256 ^ n"
    using Suc by (simp add: uint_word_of_int)
  also have "\<dots> = i mod (256 ^ n * 256)" by (simp add: zmod_zmult2_eq)
  finally show ?case by (simp add: mult.commute)
qed (simp add: be_bytes_def)

lemma be_bytes_inj: "be_bytes n i = be_bytes n j \<Longrightarrow> i mod 256 ^ n = j mod 256 ^ n"
  by (metis be_value_be_bytes)

text \<open>Length-prefixed fields can be read back from the front.\<close>

lemma frame_inj:
  assumes "be_bytes 4 (int (length a)) @ a @ r = be_bytes 4 (int (length b)) @ b @ s"
    and "length a < 2 ^ 32" "length b < 2 ^ 32"
  shows "a = b \<and> r = s"
proof -
  have "be_bytes 4 (int (length a)) = be_bytes 4 (int (length b))" and rest: "a @ r = b @ s"
    using assms(1) by (simp_all add: append_eq_append_conv)
  from be_bytes_inj [OF this(1)] have "length a = length b" using assms(2,3) by simp
  with rest show ?thesis by (simp add: append_eq_append_conv)
qed

lemma sized_inj: "sized a = Inr x \<Longrightarrow> sized b = Inr y \<Longrightarrow> x @ r = y @ s \<Longrightarrow> a = b \<and> r = s"
  using frame_inj [of a r b s] by (auto simp: sized_def split: if_splits)

lemma sized_text_inj:
  assumes "sized_text a = Inr x" "sized_text b = Inr y" "x @ r = y @ s"
  shows "a = b \<and> r = s"
proof -
  obtain a' b' where *: "encode_utf8 a = Inr a'" "sized a' = Inr x" "encode_utf8 b = Inr b'" "sized b' = Inr y"
    using assms(1,2) by (auto simp: sized_text_def split: sum.splits)
  with sized_inj [OF *(2,4) assms(3)] encode_utf8_inj [of a a' b] show ?thesis by simp
qed

lemma ascii_simps [simp]: "ascii [] = []" "ascii (c # s) = of_char c # ascii s" "length (ascii s) = length s"
  by (simp_all add: ascii_def)

lemma value_part_inj: "value_part v @ r = value_part w @ s \<Longrightarrow> v = w \<and> r = s"
proof (cases v; cases w)
  fix a b assume *: "v = Some a" "w = Some b" "value_part v @ r = value_part w @ s"
  then have "be_bytes 8 (uint a) = be_bytes 8 (uint b) \<and> r = s"
    by (simp add: value_part_def append_eq_append_conv)
  then have "uint a mod 256 ^ 8 = uint b mod 256 ^ 8" "r = s" by (auto dest: be_bytes_inj)
  moreover have "uint c mod 256 ^ 8 = uint c" for c :: "64 word"
    using uint_lt2p [of c] by (simp add: uint_ge_0)
  ultimately show ?thesis using * by (metis word_uint_eqI)
qed (auto simp: value_part_def)

lemma text_part_inj:
  assumes "text_part E t = Inr x" "text_part E u = Inr y" "x @ r = y @ s"
  shows "map_option (he_nfc E) t = map_option (he_nfc E) u \<and> r = s"
proof (cases t; cases u)
  fix v w assume tu: "t = Some v" "u = Some w"
  then obtain x' y' where *: "sized_text (he_nfc E v) = Inr x'" "sized_text (he_nfc E w) = Inr y'" "x' @ r = y' @ s"
    using assms by (auto simp: text_part_def split: sum.splits)
  then show ?thesis using sized_text_inj [OF *] tu by simp
qed (use assms in \<open>auto simp: text_part_def split: sum.splits\<close>)

lemma flag_part_inj:
  assumes "flag_part p = Inr x" "flag_part q = Inr y" "x @ r = y @ s"
  shows "p = q \<and> r = s"
proof -
  have "be_bytes 4 p = be_bytes 4 q" "r = s" and range: "- (2 ^ 31) \<le> p" "p < 2 ^ 31" "- (2 ^ 31) \<le> q" "q < 2 ^ 31"
    using assms by (auto simp: flag_part_def append_eq_append_conv split: if_splits)
  then have "p mod 2 ^ 32 = q mod 2 ^ 32" using be_bytes_inj [of 4 p q] by simp
  then obtain k where "p - q = 2 ^ 32 * k" by (metis mod_eq_dvd_iff dvdE)
  moreover from this range have "k < 1" "- 1 < k" by simp_all
  ultimately have "p - q = 0" by simp
  with \<open>r = s\<close> show ?thesis by simp
qed

lemma metadata_part_inj:
  assumes "metadata_part E m = Inr x" "metadata_part E n = Inr x"
  shows "canonical_json E m = canonical_json E n"
proof -
  obtain js js' where "encode_utf8 (canonical_json E m) = Inr js" "encode_utf8 (canonical_json E n) = Inr js'"
    "js = js'"
    using assms sized_inj [of _ _ _ _ "[]" "[]"]
    by (auto simp: metadata_part_def canonical_json_bytes_def split: sum.splits)
  then show ?thesis using encode_utf8_inj by blast
qed

text \<open>C29. The hashed bytes determine the payload. Two observations with the same bytes under the hash
  have the same value bit for bit, the same normalized text, the same quality flag and the same
  canonical metadata text: no boundary between fields can be shifted, and the encoding loses nothing.\<close>

theorem payload_bytes_injective:
  assumes "payload_bytes E a = Inr bs" "payload_bytes E b = Inr bs"
  shows "oi_value a = oi_value b \<and>
    map_option (he_nfc E) (oi_value_text a) = map_option (he_nfc E) (oi_value_text b) \<and>
    oi_quality_flag a = oi_quality_flag b \<and>
    canonical_json E (oi_metadata a) = canonical_json E (oi_metadata b)"
proof -
  obtain t q m where a: "text_part E (oi_value_text a) = Inr t" "flag_part (oi_quality_flag a) = Inr q"
    "metadata_part E (oi_metadata a) = Inr m" "bs = PAYLOAD_HASH_DOMAIN @ value_part (oi_value a) @ t @ q @ m"
    using assms(1) by (auto simp: payload_bytes_def split: if_splits sum.splits)
  obtain t' q' m' where b: "text_part E (oi_value_text b) = Inr t'" "flag_part (oi_quality_flag b) = Inr q'"
    "metadata_part E (oi_metadata b) = Inr m'" "bs = PAYLOAD_HASH_DOMAIN @ value_part (oi_value b) @ t' @ q' @ m'"
    using assms(2) by (auto simp: payload_bytes_def split: if_splits sum.splits)
  have "oi_value a = oi_value b" and 1: "t @ q @ m = t' @ q' @ m'"
    using value_part_inj [of "oi_value a" "t @ q @ m" "oi_value b" "t' @ q' @ m'"] a(4) b(4) by auto
  moreover note text_part_inj [OF a(1) b(1) 1]
  moreover from this have 2: "q @ m = q' @ m'" by simp
  moreover note flag_part_inj [OF a(2) b(2) 2]
  moreover from this have "m = m'" by simp
  ultimately show ?thesis using metadata_part_inj a(3) b(3) by blast
qed

text \<open>Likewise the bytes of a batch determine its series and, in key order, every time stamp pair with
  the payload hash bound to it.\<close>

lemma framed_inj:
  "framed a @ r = framed b @ s \<Longrightarrow> length a < 2 ^ 32 \<Longrightarrow> length b < 2 ^ 32 \<Longrightarrow> a = b \<and> r = s"
  using frame_inj [of a r b s] by (simp add: framed_def)

lemma batch_item_inj:
  assumes "batch_item E (ts, as_of, ph) @ r = batch_item E (ts', as_of', ph') @ s"
    and short: "\<And>d. length (he_iso E d) < 2 ^ 32" "length ph < 2 ^ 32" "length ph' < 2 ^ 32"
  shows "ascii (he_iso E ts) = ascii (he_iso E ts') \<and> ascii (he_iso E as_of) = ascii (he_iso E as_of') \<and>
    map of_nat ph = (map of_nat ph' :: byte list) \<and> r = s"
proof -
  have 1: "framed (ascii (he_iso E ts)) @ framed (ascii (he_iso E as_of)) @ framed (map of_nat ph) @ r =
    framed (ascii (he_iso E ts')) @ framed (ascii (he_iso E as_of')) @ framed (map of_nat ph') @ s"
    using assms(1) by (simp add: batch_item_def)
  note first = framed_inj [OF 1]
  then have "framed (ascii (he_iso E as_of)) @ framed (map of_nat ph) @ r =
    framed (ascii (he_iso E as_of')) @ framed (map of_nat ph') @ s" using short by simp
  note second = framed_inj [OF this]
  then have "framed (map of_nat ph) @ r = framed (map of_nat ph') @ s" using short by simp
  from framed_inj [OF this] first second short show ?thesis by simp
qed

definition sample_hash_env :: hash_env where
  "sample_hash_env = \<lparr>he_sha = (\<lambda>bs. replicate 64 48), he_nfc = id, he_dumps = (\<lambda>_. [123, 125]),
     he_iso = (\<lambda>d. ''2024-01-01T00:00:00+00:00'')\<rparr>"

definition sample_obs :: "int \<Rightarrow> int \<Rightarrow> observation_in" where
  "sample_obs ts as_of = \<lparr>oi_ts = \<lparr>instant = ts, utcoffset = Some 0\<rparr>, oi_as_of = \<lparr>instant = as_of, utcoffset = Some 0\<rparr>,
     oi_value = Some 7, oi_value_text = None, oi_quality_flag = 0, oi_metadata = []\<rparr>"

theorem payload_bytes_injective_witness:
  "\<exists>bs. payload_bytes sample_hash_env (sample_obs 1 2) = Inr bs \<and> payload_bytes sample_hash_env (sample_obs 5 6) = Inr bs \<and>
    oi_value (sample_obs 1 2) = oi_value (sample_obs 5 6)"
proof -
  have "\<exists>bs. payload_bytes sample_hash_env (sample_obs 1 2) = Inr bs \<and> payload_bytes sample_hash_env (sample_obs 5 6) = Inr bs"
    by (simp add: payload_bytes_def text_part_def flag_part_def metadata_part_def sized_def sample_obs_def sample_hash_env_def
        canonical_json_bytes_def canonical_json_def encode_utf8_def utf8_char_def encodable_def)
  then show ?thesis using payload_bytes_injective by blast
qed

end
