(* ===== verification/Pg_Types.thy ===== *)
theory Pg_Types
  imports Py_Utf8
begin

text \<open>
  What Postgres column types hold: text without NUL or lone surrogates, the same inside \<open>JSONB\<close>,
  the hexadecimal hashes the checks ask for, and blank-padded \<open>CHAR(2)\<close>.
\<close>

definition pg_text_ok :: "pystr \<Rightarrow> bool" where
  "pg_text_ok s \<longleftrightarrow> list_all (\<lambda>c. c \<noteq> 0 \<and> encodable c) s"

fun jsonb_ok :: "json \<Rightarrow> bool" where
  "jsonb_ok (JStr s) = pg_text_ok s"
| "jsonb_ok (JObj kvs) = list_all (\<lambda>(k, v). pg_text_ok k \<and> jsonb_ok v) kvs"
| "jsonb_ok (JArr xs) = list_all jsonb_ok xs"
| "jsonb_ok _ = True"

definition hex64 :: "pystr \<Rightarrow> bool" where
  "hex64 s \<longleftrightarrow> length s = 64 \<and> list_all (\<lambda>c. 48 \<le> c \<and> c \<le> 57 \<or> 97 \<le> c \<and> c \<le> 102) s"

definition char2 :: "string \<Rightarrow> string option" where
  "char2 s = (if length s \<le> 2 then Some (s @ replicate (2 - length s) CHR '' '')
     else if list_all (\<lambda>c. c = CHR '' '') (drop 2 s) then Some (take 2 s) else None)"

lemma char2_length: "char2 s = Some t \<Longrightarrow> length t = 2"
  by (auto simp: char2_def split: if_splits)

lemma hex64_strip: "hex64 s \<Longrightarrow> strip s = s"
  unfolding strip_def by (rule strip_by_none) (auto simp: hex64_def list_all_iff is_space_def)

end
