(* ===== verification/Ts_Write.thy ===== *)
theory Ts_Write
  imports Ts_Payload Pg_Types Database
begin

text \<open>
  \<open>ObservationWriter.write\<close> of \<open>timeseries/writer.py\<close>: validation and deduplication of a batch
  before any statement, chunked inserts with \<open>ON CONFLICT DO NOTHING\<close>, the comparison of hashes for
  the rows that were there already, and one audit event with a row per key. Phase 1, the advisory
  lock per series, makes the statements of one call run without another writer of the series; the
  model runs them in one piece. The Prometheus counters are left out.
\<close>

section \<open>The writer\<close>

text \<open>
  The run of the writer, the hashing environment, \<open>datetime.now(UTC)\<close> and the order in which Python
  iterates over a set of keys.
\<close>

record observation_writer =
  ow_run_id :: int
  ow_hash :: hash_env
  ow_utcnow :: int
  ow_iter :: "(int \<times> int) list \<Rightarrow> (int \<times> int) list"

record write_count =
  wc_attempted :: nat
  wc_inserted :: nat
  wc_updated :: nat
  wc_unchanged :: nat

subsection \<open>Phase 0\<close>

definition validate_row :: "observation_in \<Rightarrow> error + unit" where
  "validate_row o1 =
     (if utcoffset (oi_ts o1) = None then Inl (ObservationE ObservationValidationError)
      else if utcoffset (oi_as_of o1) = None then Inl (ObservationE ObservationValidationError)
      else if (oi_value o1 = None) = (oi_value_text o1 = None) then Inl (ObservationE ObservationValidationError)
      else Inr ())"

text \<open>Equal keys are equal instants; the series is the same throughout.\<close>

fun dedup :: "hash_env \<Rightarrow> int \<Rightarrow> ((int \<times> int) \<times> pystr) list \<Rightarrow> observation_in list \<Rightarrow> observation_in list \<Rightarrow>
  error + ((int \<times> int) \<times> pystr) list \<times> observation_in list" where
  "dedup E sid seen ded [] = Inr (seen, ded)"
| "dedup E sid seen ded (o1 # os) =
     (case validate_no_numeric_string_keys (JObj (oi_metadata o1)) of
        Inl x \<Rightarrow> Inl x
      | Inr _ \<Rightarrow> (case payload_hash E o1 of
          Inl x \<Rightarrow> Inl x
        | Inr ph \<Rightarrow> (case map_of seen (obs_key o1) of
            Some h \<Rightarrow>
              if h \<noteq> ph then Inl (ObservationE (ObservationConflict (Some (sid, obs_key o1)) (Some h) (Some ph)))
              else dedup E sid seen ded os
          | None \<Rightarrow> dedup E sid (seen @ [(obs_key o1, ph)]) (ded @ [o1]) os)))"

subsection \<open>Phase 2\<close>

definition obs_pk :: "observation \<Rightarrow> int \<times> int \<times> int" where
  "obs_pk r = (obs_series_id r, obs_ts r, obs_as_of r)"

text \<open>What a column cannot hold: a \<open>SMALLINT\<close> out of range, a text or \<open>JSONB\<close> with a NUL or a lone surrogate.\<close>

definition obs_fits :: "observation \<Rightarrow> bool" where
  "obs_fits r \<longleftrightarrow> - 32768 \<le> obs_quality_flag r \<and> obs_quality_flag r < 32768 \<and>
     (case obs_value_text r of None \<Rightarrow> True | Some t \<Rightarrow> pg_text_ok t) \<and> jsonb_ok (obs_metadata r)"

definition obs_checks :: "observation \<Rightarrow> bool" where
  "obs_checks r \<longleftrightarrow> (obs_value r = None) \<noteq> (obs_value_text r = None) \<and> hex64 (obs_payload_hash r)"

text \<open>
  The multi-row insert: row checks come before the conflict test, the foreign keys are checked for
  the rows inserted. It returns the keys of the new rows.
\<close>

definition insert_observations :: "observation list \<Rightarrow> (error, db, (int \<times> int) set) op" where
  "insert_observations rows = (\<lambda>d.
     let fresh = filter (\<lambda>r. obs_pk r \<notin> obs_pk ` set (observations d)) rows in
     if \<not> list_all obs_fits rows then (Inl (ServiceE SQLAlchemyError), d)
     else if \<not> list_all obs_checks rows then (Inl (ServiceE IntegrityError), d)
     else if \<not> list_all (\<lambda>r. obs_series_id r \<in> sr_id ` set (series d) \<and>
                        obs_ingestion_run_id r \<in> run_id ` set (runs d)) fresh
       then (Inl (ServiceE IntegrityError), d)
     else (Inr (set (map (\<lambda>r. (obs_ts r, obs_as_of r)) fresh)),
           d\<lparr>observations := fold (sql_insert_dn obs_pk) rows (observations d)\<rparr>))"

text \<open>\<open>str(actor.client_ip) if (actor and actor.client_ip) else None\<close>\<close>

definition client_ip_of :: "actor option \<Rightarrow> string option" where
  "client_ip_of a = Option.bind a (\<lambda>x. if client_ip x = Some [] then None else client_ip x)"

definition obs_row :: "observation_writer \<Rightarrow> ctx \<Rightarrow> int \<Rightarrow> observation_in \<times> pystr \<Rightarrow> observation" where
  "obs_row W c sid op = (case op of (o1, ph) \<Rightarrow>
     \<lparr>obs_series_id = sid, obs_ts = instant (oi_ts o1), obs_as_of = instant (oi_as_of o1),
      obs_value = oi_value o1, obs_value_text = oi_value_text o1, obs_quality_flag = oi_quality_flag o1,
      obs_ingestion_run_id = ow_run_id W, obs_payload_hash = ph, obs_metadata = JObj (oi_metadata o1),
      obs_audit = (audit_cols_of (ctx_actor c))\<lparr>ac_client_ip := client_ip_of (ctx_actor c)\<rparr>\<rparr>)"

fun with_hashes :: "hash_env \<Rightarrow> observation_in list \<Rightarrow> error + (observation_in \<times> pystr) list" where
  "with_hashes E [] = Inr []"
| "with_hashes E (o1 # os) =
     (case payload_hash E o1 of
        Inl x \<Rightarrow> Inl x
      | Inr ph \<Rightarrow> map_sum id (\<lambda>ps. (o1, ph) # ps) (with_hashes E os))"

text \<open>The comparison for the keys that the insert did not return.\<close>

fun reconcile_keys :: "int \<Rightarrow> ((int \<times> int) \<rightharpoonup> pystr) \<Rightarrow> ((int \<times> int) \<rightharpoonup> pystr) \<Rightarrow> (int \<times> int) list \<Rightarrow>
  error + (int \<times> int) set" where
  "reconcile_keys sid new_h old_h [] = Inr {}"
| "reconcile_keys sid new_h old_h (k # ks) =
     (case old_h k of
        None \<Rightarrow> Inl (ObservationE (ObservationConflict (Some (sid, k)) None (new_h k)))
      | Some h \<Rightarrow>
          if Some (strip h) \<noteq> new_h k
          then Inl (ObservationE (ObservationConflict (Some (sid, k)) (Some (strip h)) (new_h k)))
          else map_sum id (insert k) (reconcile_keys sid new_h old_h ks))"

definition existing_hashes :: "int \<Rightarrow> observation list \<Rightarrow> (int \<times> int) \<rightharpoonup> pystr" where
  "existing_hashes sid t = (\<lambda>k. map_option obs_payload_hash (sql_find (\<lambda>r. obs_pk r = (sid, k)) t))"

definition write_chunk ::
  "observation_writer \<Rightarrow> ctx \<Rightarrow> int \<Rightarrow> observation_in list \<Rightarrow> (error, db, (int \<times> int) set \<times> (int \<times> int) set) op" where
  "write_chunk W c sid chunk =
     bnd (lift (with_hashes (ow_hash W) chunk)) (\<lambda>ps.
     bnd (insert_observations (map (obs_row W c sid) ps)) (\<lambda>ins.
     (let new_h = map_of (rev (map (\<lambda>(o1, ph). (obs_key o1, ph)) ps));
          conflicted = filter (\<lambda>k. k \<notin> ins) (remdups (map obs_key chunk))
      in if conflicted = [] then ret (ins, {})
         else bnd (gets observations) (\<lambda>t.
              bnd (lift (reconcile_keys sid new_h (existing_hashes sid t) (ow_iter W conflicted))) (\<lambda>unch.
              ret (ins, unch))))))"

function chunks :: "nat \<Rightarrow> 'a list \<Rightarrow> 'a list list" where
  "chunks n xs = (if xs = [] \<or> n = 0 then [] else take n xs # chunks n (drop n xs))"
  by pat_completeness auto
termination
  by (relation "measure (\<lambda>(n, xs). length xs)") auto

declare chunks.simps [simp del]

fun write_chunks ::
  "observation_writer \<Rightarrow> ctx \<Rightarrow> int \<Rightarrow> observation_in list list \<Rightarrow> (error, db, (int \<times> int) set \<times> (int \<times> int) set) op" where
  "write_chunks W c sid [] = ret ({}, {})"
| "write_chunks W c sid (ch # chs) =
     bnd (write_chunk W c sid ch) (\<lambda>(i, u). bnd (write_chunks W c sid chs) (\<lambda>(i', u'). ret (i \<union> i', u \<union> u')))"

subsection \<open>The audit rows\<close>

definition min_dt :: "datetime list \<Rightarrow> datetime" where
  "min_dt ds = foldl (\<lambda>a d. if instant d < instant a then d else a) (hd ds) (tl ds)"

definition max_dt :: "datetime list \<Rightarrow> datetime" where
  "max_dt ds = foldl (\<lambda>a d. if instant a < instant d then d else a) (hd ds) (tl ds)"

definition batch_event_metadata ::
  "observation_writer \<Rightarrow> int \<Rightarrow> nat \<Rightarrow> observation_in list \<Rightarrow> pystr \<Rightarrow> nat \<Rightarrow> nat \<Rightarrow> json" where
  "batch_event_metadata W sid attempted ded bh inserted unchanged =
     (let iso = (\<lambda>d. JStr (lit (he_iso (ow_hash W) d))); tss = map oi_ts ded; ass = map oi_as_of ded in
      jobj ([(''batch_size'', JInt (int (length ded))), (''attempted'', JInt (int attempted)), (''series_id'', JInt sid),
       (''ts_min'', iso (min_dt tss)), (''ts_max'', iso (max_dt tss)),
       (''as_of_min'', iso (min_dt ass)), (''as_of_max'', iso (max_dt ass)),
       (''batch_payload_hash'', JStr bh), (''inserted'', JInt (int inserted)), (''unchanged'', JInt (int unchanged)),
       (''ingestion_run_id'', JInt (ow_run_id W))] @
       (if length ded < attempted then [(''duplicate_count'', JInt (int attempted - int (length ded)))] else [])))"

definition batch_event :: "observation_writer \<Rightarrow> ctx \<Rightarrow> int \<Rightarrow> json \<Rightarrow> audit_event" where
  "batch_event W c sid md =
     \<lparr>ev_event_id = 0, ev_occurred_at = ow_utcnow W,
      ev_actor_id = (case ctx_actor c of None \<Rightarrow> ''system:unknown'' | Some a \<Rightarrow> actor_id a),
      ev_actor_kind = (case ctx_actor c of None \<Rightarrow> System | Some a \<Rightarrow> actor_kind a),
      ev_client_ip = client_ip_of (ctx_actor c), ev_user_agent = Option.bind (ctx_actor c) user_agent,
      ev_request_id = Option.bind (ctx_actor c) request_id, ev_ingestion_run_id = Some (ow_run_id W),
      ev_operation = ''observation.write_batch'', ev_target_schema = ''ts'', ev_target_table = ''observation'',
      ev_target_pk = jobj [(''series_id'', JInt sid)], ev_before = None, ev_after = None, ev_metadata = md\<rparr>"

fun batch_key_rows ::
  "observation_writer \<Rightarrow> int \<Rightarrow> int \<Rightarrow> ((int \<times> int) \<times> pystr) list \<Rightarrow> (int \<times> int) set \<Rightarrow> (int \<times> int) set \<Rightarrow>
   observation_in list \<Rightarrow> error + observation_batch_key list" where
  "batch_key_rows W eid sid seen ins unch [] = Inr []"
| "batch_key_rows W eid sid seen ins unch (o1 # os) =
     (let k = obs_key o1 in
      if k \<notin> ins \<and> k \<notin> unch
      then Inl (ObservationE (ObservationConflict (Some (sid, k)) None (map_of seen k)))
      else map_sum id (\<lambda>rs.
        \<lparr>bk_event_id = eid, bk_occurred_at = ow_utcnow W, bk_series_id = sid, bk_ts = fst k, bk_as_of = snd k,
         bk_payload_hash = (case map_of seen k of None \<Rightarrow> [] | Some h \<Rightarrow> h),
         bk_action = (if k \<in> ins then Inserted else Unchanged)\<rparr> # rs)
        (batch_key_rows W eid sid seen ins unch os))"

definition bk_pk :: "observation_batch_key \<Rightarrow> int \<times> int \<times> int \<times> int \<times> int" where
  "bk_pk r = (bk_event_id r, bk_occurred_at r, bk_series_id r, bk_ts r, bk_as_of r)"

definition insert_batch_key :: "observation_batch_key \<Rightarrow> (error, db, unit) op" where
  "insert_batch_key r = (\<lambda>d.
     if bk_pk r \<in> bk_pk ` set (batch_keys d) \<or> \<not> hex64 (bk_payload_hash r) then (Inl (ServiceE IntegrityError), d)
     else (Inr (), d\<lparr>batch_keys := batch_keys d @ [r]\<rparr>))"

definition emit_write_batch_audit ::
  "observation_writer \<Rightarrow> ctx \<Rightarrow> int \<Rightarrow> nat \<Rightarrow> observation_in list \<Rightarrow> ((int \<times> int) \<times> pystr) list \<Rightarrow>
   (int \<times> int) set \<Rightarrow> (int \<times> int) set \<Rightarrow> nat \<Rightarrow> nat \<Rightarrow> (error, db, unit) op" where
  "emit_write_batch_audit W c sid attempted ded seen ins unch inserted unchanged =
     bnd (lift (with_hashes (ow_hash W) ded)) (\<lambda>ps.
     bnd (lift (compute_batch_hash (ow_hash W) sid ps)) (\<lambda>bh.
     bnd (gets (\<lambda>d. event_seq (audit_events d))) (\<lambda>eid.
     thn (modify (\<lambda>d. d\<lparr>audit_events := log_event
            (batch_event W c sid (batch_event_metadata W sid attempted ded bh inserted unchanged)) (audit_events d)\<rparr>))
     (bnd (lift (batch_key_rows W eid sid seen ins unch ded)) (\<lambda>rows.
      for_each insert_batch_key rows)))))"

section \<open>The call\<close>

definition chunk_size :: nat where
  "chunk_size = 500"

definition write_obs :: "observation_writer \<Rightarrow> ctx \<Rightarrow> int \<Rightarrow> observation_in list \<Rightarrow> (error, db, write_count) op" where
  "write_obs W c sid obs =
     thn (assert_actor_or_strict_raise c)
     (thn (lift (first_error (map validate_row obs)))
     (bnd (lift (dedup (ow_hash W) sid [] [] obs)) (\<lambda>(seen, ded).
      if ded = [] then ret \<lparr>wc_attempted = length obs, wc_inserted = 0, wc_updated = 0, wc_unchanged = 0\<rparr>
      else bnd (write_chunks W c sid (chunks chunk_size ded)) (\<lambda>(ins, unch).
           thn (emit_write_batch_audit W c sid (length obs) ded seen ins unch (card ins) (card unch))
           (ret \<lparr>wc_attempted = length obs, wc_inserted = card ins, wc_updated = 0, wc_unchanged = card unch\<rparr>)))))"

section \<open>What a successful call did\<close>

lemma with_hashes_Inr:
  "with_hashes E os = Inr ps \<Longrightarrow> map fst ps = os \<and> (\<forall>(o1, ph) \<in> set ps. payload_hash E o1 = Inr ph)"
  by (induction os arbitrary: ps) (auto simp: map_sum_Inr_iff split: sum.splits)

lemma reconcile_keys_Inr:
  "reconcile_keys sid new_h old_h ks = Inr u \<Longrightarrow> u = set ks \<and> (\<forall>k \<in> set ks. \<exists>h. old_h k = Some h \<and> new_h k = Some (strip h))"
  by (induction ks arbitrary: u) (auto simp: map_sum_Inr_iff split: option.splits if_splits)

lemma obs_row_simps [simp]:
  "obs_series_id (obs_row W c sid (o1, ph)) = sid" "obs_payload_hash (obs_row W c sid (o1, ph)) = ph"
  "obs_ts (obs_row W c sid (o1, ph)) = fst (obs_key o1)" "obs_as_of (obs_row W c sid (o1, ph)) = snd (obs_key o1)"
  "obs_ingestion_run_id (obs_row W c sid (o1, ph)) = ow_run_id W"
  by (simp_all add: obs_row_def obs_key_def)

lemma obs_pk_row [simp]: "obs_pk (obs_row W c sid (o1, ph)) = (sid, obs_key o1)"
  by (simp add: obs_pk_def)

definition obs_unique :: "db \<Rightarrow> bool" where
  "obs_unique d \<longleftrightarrow> distinct (map obs_pk (observations d))"

definition obs_keys :: "int \<Rightarrow> observation list \<Rightarrow> (int \<times> int) set" where
  "obs_keys sid t = {k. (sid, k) \<in> obs_pk ` set t}"

definition obs_stored :: "hash_env \<Rightarrow> int \<Rightarrow> db \<Rightarrow> observation_in \<Rightarrow> bool" where
  "obs_stored E sid d o1 \<longleftrightarrow> (\<exists>ph r. payload_hash E o1 = Inr ph \<and> r \<in> set (observations d) \<and>
     obs_pk r = (sid, obs_key o1) \<and> strip (obs_payload_hash r) = ph)"

text \<open>The effect of a piece of Phase 2: rows appended for the new keys, the others found with their hash.\<close>

definition wrote :: "observation_writer \<Rightarrow> ctx \<Rightarrow> int \<Rightarrow> observation_in list \<Rightarrow> (int \<times> int) set \<Rightarrow> (int \<times> int) set \<Rightarrow> db \<Rightarrow> db \<Rightarrow> bool" where
  "wrote W c sid os ins unch d d' \<longleftrightarrow> (\<exists>new. d' = d\<lparr>observations := observations d @ new\<rparr> \<and> obs_unique d' \<and>
     (\<forall>r \<in> set new. \<exists>o1 \<in> set os. \<exists>ph. payload_hash (ow_hash W) o1 = Inr ph \<and> r = obs_row W c sid (o1, ph)) \<and>
     ins = obs_keys sid new \<and> unch \<subseteq> obs_keys sid (observations d) \<and> ins \<union> unch = obs_key ` set os) \<and>
   (\<forall>o1 \<in> set os. obs_stored (ow_hash W) sid d' o1)"

lemma insert_observations_Inr:
  assumes "insert_observations (map (obs_row W c sid) ps) d = (Inr ins, d')" "obs_unique d"
  shows "\<exists>new. d' = d\<lparr>observations := observations d @ new\<rparr> \<and> obs_unique d' \<and> set new \<subseteq> obs_row W c sid ` set ps \<and>
    ins = obs_keys sid new \<and> ins = obs_key ` fst ` set ps - obs_keys sid (observations d) \<and>
    (\<forall>p \<in> set ps. hex64 (snd p))"
proof -
  let ?rows = "map (obs_row W c sid) ps" and ?t = "observations d"
  obtain new where new: "fold (sql_insert_dn obs_pk) ?rows ?t = ?t @ new" "set new \<subseteq> set ?rows"
    "obs_pk ` set new = obs_pk ` set ?rows - obs_pk ` set ?t" "distinct (map obs_pk new)"
    using fold_insert_dn [of obs_pk ?rows ?t] by auto
  have d': "d' = d\<lparr>observations := ?t @ new\<rparr>"
    and ins: "ins = set (map (\<lambda>r. (obs_ts r, obs_as_of r)) (filter (\<lambda>r. obs_pk r \<notin> obs_pk ` set ?t) ?rows))"
    and ok: "list_all obs_checks ?rows"
    using assms(1) new(1) by (auto simp: insert_observations_def Let_def split: if_splits)
  have pks: "obs_pk ` set ?rows = (\<lambda>k. (sid, k)) ` obs_key ` fst ` set ps" by force
  have "k \<in> ins \<longleftrightarrow> k \<in> obs_key ` fst ` set ps \<and> (sid, k) \<notin> obs_pk ` set ?t" for k
    unfolding ins by force
  then have "ins = obs_key ` fst ` set ps - obs_keys sid ?t"
    by (simp only: set_eq_iff Diff_iff obs_keys_def mem_Collect_eq simp_thms)
  moreover have "obs_keys sid new = obs_key ` fst ` set ps - obs_keys sid ?t"
    unfolding obs_keys_def new(3) pks by auto
  moreover have "obs_unique d'"
    using new(3,4) assms(2) by (auto simp: d' obs_unique_def)
  moreover have "\<forall>p \<in> set ps. hex64 (snd p)"
    using ok by (force simp: list_all_iff obs_checks_def)
  ultimately show ?thesis using d' new(2) by auto
qed

lemma map_of_rev_keys:
  "distinct (map (obs_key \<circ> fst) ps) \<Longrightarrow> (o1, ph) \<in> set ps \<Longrightarrow>
   map_of (rev (map (\<lambda>(o1, ph). (obs_key o1, ph)) ps)) (obs_key o1) = Some ph"
  by (rule map_of_is_SomeI) (force simp: rev_map [symmetric] comp_def case_prod_beta)+

lemma chunk_row_unique:
  "distinct (map (obs_key \<circ> fst) ps) \<Longrightarrow> (o1, ph) \<in> set ps \<Longrightarrow> (o2, ph2) \<in> set ps \<Longrightarrow> obs_key o1 = obs_key o2 \<Longrightarrow>
   (o1, ph) = (o2, ph2)"
  by (metis (no_types, lifting) comp_apply distinct_map fst_conv inj_onD)

lemma conflicted_unchanged:
  assumes "let conflicted = filter (\<lambda>k. k \<notin> ins) (remdups (map obs_key chunk)) in
      if conflicted = [] then unch = {} else reconcile_keys sid new_h old_h (ow_iter W conflicted) = Inr unch"
    and iter: "\<And>ks. set (ow_iter W ks) = set ks"
  shows "unch = obs_key ` set chunk - ins \<and> (\<forall>k \<in> unch. \<exists>h. old_h k = Some h \<and> new_h k = Some (strip h))"
proof -
  let ?cs = "filter (\<lambda>k. k \<notin> ins) (remdups (map obs_key chunk))"
  have cs: "set ?cs = obs_key ` set chunk - ins" by auto
  show ?thesis
  proof (cases "?cs = []")
    case True
    moreover from True have "unch = {}" using assms(1) by (simp only: Let_def if_True)
    ultimately show ?thesis using cs by (metis ball_empty empty_set)
  next
    case False
    then have "reconcile_keys sid new_h old_h (ow_iter W ?cs) = Inr unch"
      using assms(1) by (simp only: Let_def if_False)
    from reconcile_keys_Inr [OF this] show ?thesis unfolding iter cs by blast
  qed
qed

lemma write_chunk_wrote:
  assumes run: "write_chunk W c sid chunk d = (Inr (ins, unch), d')"
    and uniq: "obs_unique d" and iter: "\<And>ks. set (ow_iter W ks) = set ks"
    and dist: "distinct (map obs_key chunk)"
  shows "wrote W c sid chunk ins unch d d'"
proof -
  obtain ps d1 where ps: "with_hashes (ow_hash W) chunk = Inr ps"
    and insert: "insert_observations (map (obs_row W c sid) ps) d = (Inr ins, d1)" and d1: "d' = d1"
    and rest: "let conflicted = filter (\<lambda>k. k \<notin> ins) (remdups (map obs_key chunk)) in
      if conflicted = [] then unch = {} else
      reconcile_keys sid (map_of (rev (map (\<lambda>(o1, ph). (obs_key o1, ph)) ps)))
        (existing_hashes sid (observations d')) (ow_iter W conflicted) = Inr unch"
    using run by (auto simp: write_chunk_def Let_def bnd_Inr_iff lift_def gets_def split: if_splits sum.splits)
  have hash: "map fst ps = chunk" "\<And>o1 ph. (o1, ph) \<in> set ps \<Longrightarrow> payload_hash (ow_hash W) o1 = Inr ph"
    using with_hashes_Inr [OF ps] by auto
  from hash(1) have fsts: "fst ` set ps = set chunk" by (metis set_map)
  obtain new where new: "d1 = d\<lparr>observations := observations d @ new\<rparr>" "obs_unique d1" "set new \<subseteq> obs_row W c sid ` set ps"
    "ins = obs_keys sid new" "ins = obs_key ` set chunk - obs_keys sid (observations d)"
    and hex: "\<forall>p \<in> set ps. hex64 (snd p)"
    using insert_observations_Inr [OF insert uniq] unfolding fsts by (elim exE conjE) rule
  have dist': "distinct (map (obs_key \<circ> fst) ps)" using dist hash(1) by (metis map_map)
  define new_h where "new_h = map_of (rev (map (\<lambda>(o1, ph). (obs_key o1, ph)) ps))"
  have unch: "unch = obs_key ` set chunk - ins \<and>
    (\<forall>k \<in> unch. \<exists>h. existing_hashes sid (observations d1) k = Some h \<and> new_h k = Some (strip h))"
    unfolding new_h_def by (rule conflicted_unchanged [OF rest [unfolded d1] iter])
  have stored: "obs_stored (ow_hash W) sid d1 o1" if "o1 \<in> set chunk" for o1
  proof -
    from that fsts obtain ph where o1: "(o1, ph) \<in> set ps" by force
    have "\<exists>r \<in> set (observations d1). obs_pk r = (sid, obs_key o1) \<and> strip (obs_payload_hash r) = ph"
    proof (cases "obs_key o1 \<in> ins")
      case True
      then obtain r where r: "r \<in> set new" "obs_pk r = (sid, obs_key o1)" unfolding new(4) obs_keys_def by auto
      with new(3) obtain o2 ph2 where o2: "(o2, ph2) \<in> set ps" "r = obs_row W c sid (o2, ph2)" by force
      with r(2) have "(o1, ph) = (o2, ph2)" using chunk_row_unique [OF dist' o1] by simp
      then have "strip (obs_payload_hash r) = ph" using o2 hex hex64_strip by fastforce
      with r new(1) show ?thesis by auto
    next
      case False
      with that unch obtain h where "existing_hashes sid (observations d1) (obs_key o1) = Some h"
        "new_h (obs_key o1) = Some (strip h)" by blast
      then show ?thesis
        using map_of_rev_keys [OF dist' o1] by (auto simp: existing_hashes_def new_h_def dest: sql_find_Some_iff)
    qed
    with hash(2) [OF o1] show ?thesis by (auto simp: obs_stored_def)
  qed
  have "\<exists>o1 \<in> set chunk. \<exists>ph. payload_hash (ow_hash W) o1 = Inr ph \<and> r = obs_row W c sid (o1, ph)" if "r \<in> set new" for r
    using that new(3) hash(2) fsts by force
  moreover have "unch \<subseteq> obs_keys sid (observations d)" "ins \<union> unch = obs_key ` set chunk"
    using unch new(5) by auto
  ultimately show ?thesis unfolding wrote_def d1 using new(1,2,4) stored by blast
qed

lemma obs_keys_append [simp]: "obs_keys sid (t @ u) = obs_keys sid t \<union> obs_keys sid u"
  by (auto simp: obs_keys_def)

lemma obs_stored_append:
  "obs_stored E sid d o1 \<Longrightarrow> observations d' = observations d @ t \<Longrightarrow> obs_stored E sid d' o1"
  by (fastforce simp: obs_stored_def)

lemma wrote_append:
  assumes 1: "wrote W c sid os1 i1 u1 d d1" and 2: "wrote W c sid os2 i2 u2 d1 d2"
    and disj: "obs_key ` set os1 \<inter> obs_key ` set os2 = {}"
  shows "wrote W c sid (os1 @ os2) (i1 \<union> i2) (u1 \<union> u2) d d2"
proof -
  let ?from = "\<lambda>r os. \<exists>o1 \<in> set os. \<exists>ph. payload_hash (ow_hash W) o1 = Inr ph \<and> r = obs_row W c sid (o1, ph)"
  obtain n1 where n1: "d1 = d\<lparr>observations := observations d @ n1\<rparr>" "i1 = obs_keys sid n1"
    "u1 \<subseteq> obs_keys sid (observations d)" "i1 \<union> u1 = obs_key ` set os1" "\<forall>r \<in> set n1. ?from r os1"
    using 1 unfolding wrote_def by (elim exE conjE) rule
  obtain n2 where n2: "d2 = d1\<lparr>observations := observations d1 @ n2\<rparr>" "obs_unique d2" "i2 = obs_keys sid n2"
    "u2 \<subseteq> obs_keys sid (observations d1)" "i2 \<union> u2 = obs_key ` set os2" "\<forall>r \<in> set n2. ?from r os2"
    using 2 unfolding wrote_def by (elim exE conjE) rule
  have "u2 \<subseteq> obs_keys sid (observations d)" 
  proof
    fix k assume "k \<in> u2"
    with n2(5) disj n1(4) have "k \<notin> i1" by blast
    with \<open>k \<in> u2\<close> n2(4) n1(1,2) show "k \<in> obs_keys sid (observations d)" by auto
  qed
  moreover have "d2 = d\<lparr>observations := observations d @ (n1 @ n2)\<rparr>" using n1(1) n2(1) by simp
  moreover have "obs_stored (ow_hash W) sid d2 o1" if "o1 \<in> set (os1 @ os2)" for o1
    using that 1 2 n2(1) obs_stored_append [of "ow_hash W" sid d1 o1 d2 n2] by (auto simp: wrote_def)
  moreover have "\<forall>r \<in> set (n1 @ n2). ?from r (os1 @ os2)" using n1(5) n2(6) unfolding set_append by blast
  moreover have "(i1 \<union> i2) \<union> (u1 \<union> u2) = obs_key ` set (os1 @ os2)" using n1(4) n2(5) by auto
  moreover have "i1 \<union> i2 = obs_keys sid (n1 @ n2)" using n1(2) n2(3) by simp
  ultimately show ?thesis unfolding wrote_def using n1(3) n2(2) by (intro conjI exI [of _ "n1 @ n2"] ballI) auto
qed

lemma wrote_unique: "wrote W c sid os i u d d' \<Longrightarrow> obs_unique d'"
  by (auto simp: wrote_def)

lemma write_chunks_wrote:
  assumes "write_chunks W c sid chs d = (Inr (ins, unch), d')" "obs_unique d" "\<And>ks. set (ow_iter W ks) = set ks"
    and "distinct (map obs_key (concat chs))"
  shows "wrote W c sid (concat chs) ins unch d d'"
  using assms
proof (induction chs arbitrary: d ins unch)
  case Nil
  then have "ins = {}" "unch = {}" "d' = d" by simp_all
  with Nil.prems(2) show ?case
    unfolding wrote_def by (intro conjI exI [of _ "[]"]) (simp_all add: obs_keys_def)
next
  case (Cons ch chs)
  from Cons.prems(1) obtain i u d1 i' u' where
    1: "write_chunk W c sid ch d = (Inr (i, u), d1)" "write_chunks W c sid chs d1 = (Inr (i', u'), d')"
      "ins = i \<union> i'" "unch = u \<union> u'"
    by (auto simp: bnd_Inr_iff)
  have w: "wrote W c sid ch i u d d1" by (rule write_chunk_wrote [OF 1(1)]) (use Cons.prems in auto)
  have "wrote W c sid (concat chs) i' u' d1 d'"
    by (rule Cons.IH) (use Cons.prems 1 wrote_unique [OF w] in auto)
  from wrote_append [OF w this] Cons.prems(4) show ?case by (auto simp: 1)
qed

lemma chunks_concat [simp]: "0 < n \<Longrightarrow> concat (chunks n xs) = xs"
  by (induction n xs rule: chunks.induct) (subst chunks.simps, auto)

subsection \<open>Deduplication\<close>

definition dedup_ok :: "((int \<times> int) \<times> pystr) list \<Rightarrow> observation_in list \<Rightarrow> bool" where
  "dedup_ok seen ded \<longleftrightarrow> map fst seen = map obs_key ded \<and> distinct (map obs_key ded)"

lemma dedup_Inr:
  assumes "dedup E sid seen ded os = Inr (seen', ded')" "dedup_ok seen ded"
  shows "dedup_ok seen' ded' \<and> set ded \<subseteq> set ded' \<and> set ded' \<subseteq> set ded \<union> set os \<and>
    (\<forall>k h. map_of seen k = Some h \<longrightarrow> map_of seen' k = Some h) \<and>
    (\<forall>o1 \<in> set os. \<exists>ph. payload_hash E o1 = Inr ph \<and> map_of seen' (obs_key o1) = Some ph)"
  using assms
proof (induction E sid seen ded os rule: dedup.induct)
  case (2 E sid seen ded o1 os)
  from "2.prems"(1) obtain u ph where pre: "validate_no_numeric_string_keys (JObj (oi_metadata o1)) = Inr u"
    "payload_hash E o1 = Inr ph" by (auto split: sum.splits)
  show ?case
  proof (cases "map_of seen (obs_key o1)")
    case None
    then have fresh: "obs_key o1 \<notin> fst ` set seen" by (simp add: map_of_eq_None_iff)
    have "obs_key o1 \<notin> obs_key ` set ded"
      using fresh "2.prems"(2) unfolding dedup_ok_def by (metis list.set_map)
    then have ok: "dedup_ok (seen @ [(obs_key o1, ph)]) (ded @ [o1])"
      using "2.prems"(2) by (simp add: dedup_ok_def)
    have "dedup E sid (seen @ [(obs_key o1, ph)]) (ded @ [o1]) os = Inr (seen', ded')"
      using "2.prems"(1) pre None by simp
    note IH = "2.IH"(1) [OF pre None this ok]
    have "map_of (seen @ [(obs_key o1, ph)]) (obs_key o1) = Some ph" using None by (simp add: map_add_def)
    moreover have "map_of (seen @ [(obs_key o1, ph)]) k = Some h" if "map_of seen k = Some h" for k h
      using that by (simp add: map_add_def)
    ultimately have "map_of seen' (obs_key o1) = Some ph" "\<forall>k h. map_of seen k = Some h \<longrightarrow> map_of seen' k = Some h"
      using IH by blast+
    moreover have "set ded \<subseteq> set ded'" "set ded' \<subseteq> set ded \<union> set (o1 # os)" "dedup_ok seen' ded'"
      using IH by auto
    ultimately show ?thesis using IH pre(2) by (metis set_ConsD)
  next
    case (Some h)
    with "2.prems"(1) pre have "h = ph" and run: "dedup E sid seen ded os = Inr (seen', ded')"
      by (auto split: if_splits)
    then have "\<not> h \<noteq> ph" by simp
    note IH = "2.IH"(2) [OF pre Some this run "2.prems"(2)]
    moreover from IH Some \<open>h = ph\<close> have "map_of seen' (obs_key o1) = Some ph" by blast
    moreover have "set ded' \<subseteq> set ded \<union> set (o1 # os)" using IH by auto
    ultimately show ?thesis using pre(2) by (metis set_ConsD)
  qed
qed auto

subsection \<open>The audit rows\<close>

lemma insert_batch_keys_Inr:
  "for_each insert_batch_key rows d = (Inr u, d') \<Longrightarrow> d' = d\<lparr>batch_keys := batch_keys d @ rows\<rparr>"
proof (induction rows arbitrary: d)
  case (Cons r rows)
  then obtain d1 where "insert_batch_key r d = (Inr (), d1)" "for_each insert_batch_key rows d1 = (Inr u, d')"
    by (auto simp: thn_Inr_iff)
  with Cons.IH show ?case by (fastforce simp: insert_batch_key_def split: if_splits)
qed simp

lemma batch_key_rows_Inr:
  "batch_key_rows W eid sid seen ins unch os = Inr rows \<Longrightarrow>
   map (\<lambda>r. (bk_ts r, bk_as_of r)) rows = map obs_key os \<and>
   (\<forall>r \<in> set rows. bk_event_id r = eid \<and> bk_occurred_at r = ow_utcnow W \<and> bk_series_id r = sid \<and>
      bk_action r = (if (bk_ts r, bk_as_of r) \<in> ins then Inserted else Unchanged) \<and>
      bk_payload_hash r = (case map_of seen (bk_ts r, bk_as_of r) of None \<Rightarrow> [] | Some h \<Rightarrow> h))"
  by (induction os arbitrary: rows) (auto simp: map_sum_Inr_iff Let_def split: if_splits)

lemma emit_Inr:
  assumes "emit_write_batch_audit W c sid att ded seen ins unch i u d = (Inr x, d')"
  shows "\<exists>bh rows ps. with_hashes (ow_hash W) ded = Inr ps \<and> compute_batch_hash (ow_hash W) sid ps = Inr bh \<and>
    batch_key_rows W (event_seq (audit_events d)) sid seen ins unch ded = Inr rows \<and>
    d' = d\<lparr>audit_events := log_event (batch_event W c sid (batch_event_metadata W sid att ded bh i u)) (audit_events d),
           batch_keys := batch_keys d @ rows\<rparr>"
  using assms insert_batch_keys_Inr
  by (fastforce simp: emit_write_batch_audit_def bnd_Inr_iff thn_Inr_iff lift_def gets_def modify_def)

subsection \<open>The call\<close>

lemma write_obs_success:
  assumes "write_obs W c sid obs d = (Inr n, d')" "obs \<noteq> []" "obs_unique d" "\<And>ks. set (ow_iter W ks) = set ks"
  obtains seen ded ins unch d1 where "wrote W c sid ded ins unch d d1"
    and "emit_write_batch_audit W c sid (length obs) ded seen ins unch (card ins) (card unch) d1 = (Inr (), d')"
    and "n = \<lparr>wc_attempted = length obs, wc_inserted = card ins, wc_updated = 0, wc_unchanged = card unch\<rparr>"
    and "set ded \<subseteq> set obs" "obs_key ` set ded = obs_key ` set obs" "distinct (map obs_key ded)" "ded \<noteq> []"
    and "\<forall>o1 \<in> set obs. \<exists>ph. payload_hash (ow_hash W) o1 = Inr ph \<and> map_of seen (obs_key o1) = Some ph"
proof -
  let ?d = "dedup (ow_hash W) sid [] [] obs"
  obtain seen ded where ded: "?d = Inr (seen, ded)"
    using assms(1) by (cases ?d) (auto simp: write_obs_def thn_Inr_iff)
  have "dedup_ok [] []" by (simp add: dedup_ok_def)
  note info = dedup_Inr [OF ded this]
  have "obs_key ` set obs \<subseteq> fst ` set seen"
    using info by (metis domIff dom_map_of_conv_image_fst image_subsetI option.distinct(1))
  then have keys: "obs_key ` set ded = obs_key ` set obs"
    using info unfolding dedup_ok_def by (metis Un_empty_left image_mono list.set(1) list.set_map subset_antisym)
  then have "ded \<noteq> []" using assms(2) by auto
  then obtain ins unch d1 where run: "write_chunks W c sid (chunks chunk_size ded) d = (Inr (ins, unch), d1)"
    "emit_write_batch_audit W c sid (length obs) ded seen ins unch (card ins) (card unch) d1 = (Inr (), d')"
    "n = \<lparr>wc_attempted = length obs, wc_inserted = card ins, wc_updated = 0, wc_unchanged = card unch\<rparr>"
    using assms(1) ded by (auto simp: write_obs_def thn_Inr_iff bnd_Inr_iff assert_actor_cases lift_def split: if_splits)
  have "distinct (map obs_key (concat (chunks chunk_size ded)))" using info by (simp add: dedup_ok_def chunk_size_def)
  from write_chunks_wrote [OF run(1) assms(3,4) this] have "wrote W c sid ded ins unch d d1" by (simp add: chunk_size_def)
  from that [OF this run(2,3) _ keys] show thesis using info \<open>ded \<noteq> []\<close> by (auto simp: dedup_ok_def)
qed

lemma write_obs_empty: "write_obs W c sid [] d = (Inr n, d') \<Longrightarrow> d' = d \<and> n = \<lparr>wc_attempted = 0, wc_inserted = 0, wc_updated = 0, wc_unchanged = 0\<rparr>"
  by (auto simp: write_obs_def thn_Inr_iff assert_actor_cases lift_def bnd_def split: if_splits)

lemma wrote_new_keys:
  assumes "wrote W c sid os ins unch d d'" "k \<in> obs_key ` set os"
  shows "k \<in> ins \<longleftrightarrow> (sid, k) \<notin> obs_pk ` set (observations d)"
proof -
  obtain new where new: "d' = d\<lparr>observations := observations d @ new\<rparr>" "obs_unique d'"
    "ins = obs_keys sid new" "unch \<subseteq> obs_keys sid (observations d)" "ins \<union> unch = obs_key ` set os"
    using assms(1) unfolding wrote_def by (elim exE conjE) rule
  then have "obs_pk ` set (observations d) \<inter> obs_pk ` set new = {}" by (simp add: obs_unique_def)
  with new(3-5) assms(2) show ?thesis unfolding obs_keys_def by blast
qed

lemma wrote_cards:
  assumes "wrote W c sid os ins unch d d'"
  shows "card ins + card unch = card (obs_key ` set os) \<and> card ins + length (observations d) = length (observations d')"
proof -
  obtain new where new: "d' = d\<lparr>observations := observations d @ new\<rparr>" "obs_unique d'"
    "\<forall>r \<in> set new. \<exists>o1 \<in> set os. \<exists>ph. payload_hash (ow_hash W) o1 = Inr ph \<and> r = obs_row W c sid (o1, ph)"
    "ins = obs_keys sid new" "unch \<subseteq> obs_keys sid (observations d)" "ins \<union> unch = obs_key ` set os"
    using assms unfolding wrote_def by (elim exE conjE) rule
  have dist: "distinct (map obs_pk new)" using new(1,2) by (auto simp: obs_unique_def)
  have "ins \<inter> unch = {}"
  proof (rule equals0I)
    fix k assume k: "k \<in> ins \<inter> unch"
    then have "(sid, k) \<in> obs_pk ` set (observations d)" using new(5) unfolding obs_keys_def by auto
    moreover have "k \<in> obs_key ` set os" using k new(6) by auto
    ultimately show False using wrote_new_keys [OF assms] k by simp
  qed
  moreover have "finite ins" "finite unch" using new(6) by (metis List.finite_set finite_Un finite_imageI)+
  ultimately have "card ins + card unch = card (obs_key ` set os)" using new(6) card_Un_disjoint [of ins unch] by simp
  moreover have "obs_pk ` set new = Pair sid ` ins"
    using new(3) by (force simp: new(4) obs_keys_def)
  then have "card ins = length new"
    using distinct_card [OF dist] card_image [of "Pair sid" ins] by (simp add: inj_on_def)
  ultimately show ?thesis using new(1) by simp
qed

lemma write_appends:
  assumes "write_obs W c sid obs d = (Inr n, d')" "obs_unique d" "\<And>ks. set (ow_iter W ks) = set ks"
  shows "\<exists>new. observations d' = observations d @ new \<and> obs_unique d' \<and> length new = wc_inserted n \<and>
    (\<forall>r \<in> set new. \<exists>o1 \<in> set obs. \<exists>ph. payload_hash (ow_hash W) o1 = Inr ph \<and> r = obs_row W c sid (o1, ph))"
proof (cases "obs = []")
  case True
  with write_obs_empty assms(1,2) show ?thesis by fastforce
next
  case False
  obtain seen ded ins unch d1 where w: "wrote W c sid ded ins unch d d1"
    "emit_write_batch_audit W c sid (length obs) ded seen ins unch (card ins) (card unch) d1 = (Inr (), d')"
    "n = \<lparr>wc_attempted = length obs, wc_inserted = card ins, wc_updated = 0, wc_unchanged = card unch\<rparr>"
    "set ded \<subseteq> set obs"
    by (rule write_obs_success [OF assms(1) False assms(2,3)]) blast
  have same: "observations d' = observations d1" using emit_Inr [OF w(2)] by auto
  obtain new where new: "observations d' = observations d @ new"
    "\<forall>r \<in> set new. \<exists>o1 \<in> set obs. \<exists>ph. payload_hash (ow_hash W) o1 = Inr ph \<and> r = obs_row W c sid (o1, ph)"
    using w(1,4) same unfolding wrote_def by fastforce
  then have "length new = card ins" using wrote_cards [OF w(1)] same
    by (metis add.commute add_left_cancel length_append)
  moreover have "obs_unique d'" using wrote_unique [OF w(1)] same by (simp add: obs_unique_def)
  ultimately show ?thesis using new w(3) by auto
qed

lemma write_stores:
  assumes "write_obs W c sid obs d = (Inr n, d')" "obs_unique d" "\<And>ks. set (ow_iter W ks) = set ks"
  shows "(\<forall>o1 \<in> set obs. obs_stored (ow_hash W) sid d' o1) \<and>
    wc_attempted n = length obs \<and> wc_updated n = 0 \<and> wc_inserted n + wc_unchanged n = card (obs_key ` set obs)"
proof (cases "obs = []")
  case True
  with write_obs_empty assms(1,2) show ?thesis by fastforce
next
  case False
  obtain seen ded ins unch d1 where w: "wrote W c sid ded ins unch d d1"
    "emit_write_batch_audit W c sid (length obs) ded seen ins unch (card ins) (card unch) d1 = (Inr (), d')"
    "n = \<lparr>wc_attempted = length obs, wc_inserted = card ins, wc_updated = 0, wc_unchanged = card unch\<rparr>"
    "set ded \<subseteq> set obs" "obs_key ` set ded = obs_key ` set obs"
    "\<forall>o1 \<in> set obs. \<exists>ph. payload_hash (ow_hash W) o1 = Inr ph \<and> map_of seen (obs_key o1) = Some ph"
    by (rule write_obs_success [OF assms(1) False assms(2,3)]) blast
  have same: "observations d' = observations d1" using emit_Inr [OF w(2)] by auto
  have "obs_stored (ow_hash W) sid d' o1" if "o1 \<in> set obs" for o1
  proof -
    from that w(5) obtain o2 where o2: "o2 \<in> set ded" "obs_key o2 = obs_key o1" by force
    then have "obs_stored (ow_hash W) sid d1 o2" using w(1) by (simp add: wrote_def)
    moreover have "payload_hash (ow_hash W) o1 = payload_hash (ow_hash W) o2"
      using that o2 w(4,6) by (metis option.inject subsetD)
    ultimately show ?thesis using o2(2) same by (simp add: obs_stored_def)
  qed
  then show ?thesis using wrote_cards [OF w(1)] w(3,5) by auto
qed

text \<open>C13. A successful write is exact. It only appends rows; the primary key stays unique; every
  observation of the batch is afterwards stored under its key with its own payload hash, whether it
  was written now or before; every new row is a row of the batch; and the counters say so: the new
  rows and the ones found unchanged together are the distinct keys of the batch.\<close>

theorem write_exact:
  assumes "write_obs W c sid obs d = (Inr n, d')" "obs_unique d" "\<And>ks. set (ow_iter W ks) = set ks"
  shows "(\<exists>new. observations d' = observations d @ new \<and> length new = wc_inserted n \<and>
      (\<forall>r \<in> set new. \<exists>o1 \<in> set obs. \<exists>ph. payload_hash (ow_hash W) o1 = Inr ph \<and> r = obs_row W c sid (o1, ph))) \<and>
    obs_unique d' \<and> (\<forall>o1 \<in> set obs. obs_stored (ow_hash W) sid d' o1) \<and>
    wc_attempted n = length obs \<and> wc_updated n = 0 \<and> wc_inserted n + wc_unchanged n = card (obs_key ` set obs)"
  using write_appends [OF assms] write_stores [OF assms] by blast

text \<open>Every batch leaves its forensic record: one event, and under its id and time one row per
  distinct key of the batch, labelled as inserted exactly when the key was new, with the payload
  hash. The event's batch size is the number of these rows.\<close>

lemma write_batch_audited:
  assumes "write_obs W c sid obs d = (Inr n, d')" "obs \<noteq> []" "obs_unique d" "\<And>ks. set (ow_iter W ks) = set ks"
  shows "\<exists>e rows kvs. events (audit_events d') = events (audit_events d) @ [e] \<and>
    ev_operation e = ''observation.write_batch'' \<and> ev_metadata e = JObj kvs \<and>
    map_of kvs (lit ''batch_size'') = Some (JInt (int (length rows))) \<and>
    batch_keys d' = batch_keys d @ rows \<and> length rows = wc_inserted n + wc_unchanged n \<and>
    distinct (map (\<lambda>r. (bk_ts r, bk_as_of r)) rows) \<and>
    (\<lambda>r. (bk_ts r, bk_as_of r)) ` set rows = obs_key ` set obs \<and>
    (\<forall>r \<in> set rows. bk_event_id r = ev_event_id e \<and> bk_occurred_at r = ev_occurred_at e \<and> bk_series_id r = sid \<and>
      (bk_action r = Inserted \<longleftrightarrow> (sid, bk_ts r, bk_as_of r) \<notin> obs_pk ` set (observations d)) \<and>
      (\<exists>o1 \<in> set obs. obs_key o1 = (bk_ts r, bk_as_of r) \<and> payload_hash (ow_hash W) o1 = Inr (bk_payload_hash r)))"
proof -
  obtain seen ded ins unch d1 where w: "wrote W c sid ded ins unch d d1"
    "emit_write_batch_audit W c sid (length obs) ded seen ins unch (card ins) (card unch) d1 = (Inr (), d')"
    "n = \<lparr>wc_attempted = length obs, wc_inserted = card ins, wc_updated = 0, wc_unchanged = card unch\<rparr>"
    "obs_key ` set ded = obs_key ` set obs" "distinct (map obs_key ded)"
    "\<forall>o1 \<in> set obs. \<exists>ph. payload_hash (ow_hash W) o1 = Inr ph \<and> map_of seen (obs_key o1) = Some ph"
    by (rule write_obs_success [OF assms]) blast
  obtain bh rows where em: "batch_key_rows W (event_seq (audit_events d1)) sid seen ins unch ded = Inr rows"
    "d' = d1\<lparr>audit_events := log_event (batch_event W c sid
        (batch_event_metadata W sid (length obs) ded bh (card ins) (card unch))) (audit_events d1),
      batch_keys := batch_keys d1 @ rows\<rparr>"
    using emit_Inr [OF w(2)] by blast
  let ?key = "\<lambda>r. (bk_ts r, bk_as_of r)"
  note rows = batch_key_rows_Inr [OF em(1)]
  have frame: "batch_keys d1 = batch_keys d" "audit_events d1 = audit_events d" using w(1) by (auto simp: wrote_def)
  have keys: "?key ` set rows = obs_key ` set obs" using rows w(4) by (metis list.set_map)
  have len: "length rows = length ded" using rows by (metis length_map)
  have "card (obs_key ` set ded) = length ded" using distinct_card [OF w(5)] by simp
  then have count: "length rows = wc_inserted n + wc_unchanged n" using wrote_cards [OF w(1)] w(3) len by simp
  let ?e = "batch_event W c sid (batch_event_metadata W sid (length obs) ded bh (card ins) (card unch))\<lparr>ev_event_id := event_seq (audit_events d)\<rparr>"
  have ev: "events (audit_events d') = events (audit_events d) @ [?e]" using em(2) frame by (simp add: log_event_def)
  have row: "bk_event_id r = ev_event_id ?e \<and> bk_occurred_at r = ev_occurred_at ?e \<and> bk_series_id r = sid \<and>
      (bk_action r = Inserted \<longleftrightarrow> (sid, bk_ts r, bk_as_of r) \<notin> obs_pk ` set (observations d)) \<and>
      (\<exists>o1 \<in> set obs. obs_key o1 = ?key r \<and> payload_hash (ow_hash W) o1 = Inr (bk_payload_hash r))"
    if "r \<in> set rows" for r
  proof -
    from that keys obtain o1 where o1: "o1 \<in> set obs" "obs_key o1 = ?key r" by force
    with w(6) obtain ph where ph: "payload_hash (ow_hash W) o1 = Inr ph" "map_of seen (?key r) = Some ph" by metis
    have "?key r \<in> obs_key ` set ded" using w(4) o1 by (metis imageI)
    from wrote_new_keys [OF w(1) this] show ?thesis
      using rows that ph o1 frame by (auto simp: batch_event_def)
  qed
  obtain kvs where "ev_metadata ?e = JObj kvs" "map_of kvs (lit ''batch_size'') = Some (JInt (int (length rows)))"
    using len by (simp add: batch_event_def batch_event_metadata_def Let_def jobj_def)
  moreover have "distinct (map ?key rows)" using rows w(5) by simp
  moreover have "ev_operation ?e = ''observation.write_batch''" by (simp add: batch_event_def)
  moreover have "batch_keys d' = batch_keys d @ rows" using em(2) frame by simp
  ultimately show ?thesis using ev count keys row by blast
qed

section \<open>An audited mutation\<close>

text \<open>A call steps upwards in every order in which its three tables do.\<close>

lemma write_obs_grows:
  assumes gr: "growth le" and obs_le: "\<And>d t. set (observations d) \<subseteq> set t \<Longrightarrow> le d (d\<lparr>observations := t\<rparr>)"
    and event_le: "\<And>d e. le d (d\<lparr>audit_events := log_event e (audit_events d)\<rparr>)"
    and keys_le: "\<And>d t. le d (d\<lparr>batch_keys := t\<rparr>)"
  shows "growth.grows le (write_obs W c sid obs)"
proof -
  note intros = growth.grows_intros [OF gr] and refl = growth.le_refl [OF gr] and def = growth.grows_def [OF gr]
  have ins: "growth.grows le (insert_observations rows)" for rows
  proof -
    have "le d (snd (insert_observations rows d))" for d
      using fold_insert_dn [of obs_pk rows "observations d"]
      by (auto simp: insert_observations_def Let_def refl intro!: obs_le)
    then show ?thesis by (simp add: def)
  qed
  have chunk: "growth.grows le (write_chunk W c sid ch)" for ch
    unfolding write_chunk_def Let_def by (intro intros ins)
  have chunks: "growth.grows le (write_chunks W c sid chs)" for chs
    by (induction chs) (auto intro!: intros chunk split: prod.splits)
  have key: "growth.grows le (insert_batch_key r)" for r
    by (simp add: def insert_batch_key_def refl keys_le)
  have emit: "growth.grows le (emit_write_batch_audit W c sid n ded seen i u j k)" for n ded seen i u j k
    unfolding emit_write_batch_audit_def by (intro intros key event_le)
  have actor: "growth.grows le (assert_actor_or_strict_raise c)" by (simp add: def assert_actor_cases refl)
  show ?thesis unfolding write_obs_def
    by (intro growth.grows_thn [OF gr] actor growth.grows_bnd [OF gr] growth.grows_lift [OF gr])
      (auto intro!: intros chunks emit split: prod.splits)
qed

interpretation obs_write: audited_mutation "\<lambda>c (sid, obs). write_obs W c sid obs" for W
proof
  fix c :: ctx and x d assume "ctx_strict c" "ctx_actor c = None"
  then show "\<exists>e. (case x of (sid, obs) \<Rightarrow> write_obs W c sid obs) d = (Inl e, d)"
    by (auto simp: write_obs_def assert_actor_cases thn_def bnd_def split: prod.splits)
next
  have "trail.grows (write_obs W c sid obs)" for c sid obs
    by (rule write_obs_grows [OF trail.growth_axioms]) (auto simp: trail_le_def log_event_le log_growth.le_refl)
  then show "trail.grows (case x of (sid, obs) \<Rightarrow> write_obs W c sid obs)" for c x by (simp split: prod.splits)
qed

definition sample_writer :: observation_writer where
  "sample_writer = \<lparr>ow_run_id = 1, ow_hash = sample_hash_env, ow_utcnow = 1000, ow_iter = id\<rparr>"

definition sample_series_db :: db where
  "sample_series_db = (empty_db [''KAP''])\<lparr>
     runs := [\<lparr>run_id = 1, run_source_id = ''KAP'', run_job_name = ''daily'', run_started_at = 0, run_finished_at = None,
       run_status = Running, run_error_count = 0, run_rows_written = 0, run_docs_written = 0, run_bytes_written = 0,
       run_error = None, run_config_hash = None, run_metadata = JNull, run_actor_id = None, run_actor_kind = None\<rparr>],
     series := [\<lparr>sr_id = 1, sr_code = lit ''kap:close'', sr_source_id = ''KAP'', sr_entity_id = None, sr_metric = ''close'',
       sr_frequency = ''1d'', sr_unit = ''TRY'', sr_currency_code = None, sr_restatement_basis = ''nominal'',
       sr_accounting_standard = None, sr_consolidation = None, sr_period_type = None, sr_description = None,
       sr_pii_class = PiiNone, sr_metadata = JObj [], sr_audit = audit_cols_of None, sr_created_at = 0, sr_updated_at = 0\<rparr>],
     series_seq := 2,
     observations := [obs_row sample_writer sample_ctx 1 (sample_obs 1 2, replicate 64 48)]\<rparr>"

definition sample_batch :: "observation_in list" where
  "sample_batch = [sample_obs 1 2, sample_obs 1 3, sample_obs 1 3]"

lemma sample_hash [simp]: "payload_hash sample_hash_env (sample_obs a b) = Inr (replicate 64 48)"
  by (simp add: payload_hash_def payload_bytes_def text_part_def flag_part_def metadata_part_def sized_def sample_obs_def
      sample_hash_env_def canonical_json_bytes_def canonical_json_def encode_utf8_def utf8_char_def encodable_def)

lemma sample_batch_hash [simp]: "compute_batch_hash sample_hash_env 1 ps = Inr (replicate 64 48)"
  by (simp add: compute_batch_hash_def batch_bytes_def sample_hash_env_def)

lemma sample_obs_fields [simp]: "obs_key (sample_obs a b) = (a, b)" "validate_row (sample_obs a b) = Inr ()"
  "oi_metadata (sample_obs a b) = []"
  by (simp_all add: sample_obs_def obs_key_def validate_row_def)

lemma sample_row_checks [simp]:
  "obs_fits (obs_row W c sid (sample_obs a b, replicate 64 48))" "obs_checks (obs_row W c sid (sample_obs a b, replicate 64 48))"
  by (simp_all add: obs_fits_def obs_checks_def obs_row_def sample_obs_def hex64_def list_all_iff)

lemma sample_chunks: "chunks chunk_size [a, b] = [[a, b]]"
  by (simp add: chunks.simps chunk_size_def)

lemma sample_write_runs:
  "\<exists>d'. write_obs sample_writer sample_ctx 1 sample_batch sample_series_db =
     (Inr \<lparr>wc_attempted = 3, wc_inserted = 1, wc_updated = 0, wc_unchanged = 1\<rparr>, d')"
proof -
  let ?r = "obs_row sample_writer sample_ctx 1"
  have ded: "dedup sample_hash_env 1 [] [] sample_batch =
      Inr ([((1, 2), replicate 64 48), ((1, 3), replicate 64 48)], [sample_obs 1 2, sample_obs 1 3])"
    by (simp add: sample_batch_def)
  have chunk: "write_chunk sample_writer sample_ctx 1 [sample_obs 1 2, sample_obs 1 3] sample_series_db =
      (Inr ({(1, 3)}, {(1, 2)}), sample_series_db\<lparr>observations := observations sample_series_db @ [?r (sample_obs 1 3, replicate 64 48)]\<rparr>)"
    by (simp add: write_chunk_def sample_series_db_def sample_writer_def insert_observations_def empty_db_def Let_def
        existing_hashes_def sql_insert_dn_def gets_def lift_def bnd_def ret_def hex64_strip hex64_def list_all_iff)
  have "hex64 (replicate 64 48)" by (simp add: hex64_def list_all_iff)
  then show ?thesis
    using ded chunk
    by (simp add: write_obs_def sample_writer_def sample_batch_def sample_chunks assert_actor_cases thn_def bnd_def lift_def ret_def
        emit_write_batch_audit_def gets_def modify_def insert_batch_key_def bk_pk_def sample_series_db_def empty_db_def)
qed

lemma sample_series_db_ok [simp]: "obs_unique sample_series_db" "set (ow_iter sample_writer ks) = set ks"
  by (simp_all add: obs_unique_def sample_series_db_def sample_writer_def)

theorem write_exact_witness:
  "\<exists>n d'. write_obs sample_writer sample_ctx 1 sample_batch sample_series_db = (Inr n, d') \<and> obs_unique d' \<and>
     wc_inserted n = 1 \<and> obs_stored sample_hash_env 1 d' (sample_obs 1 3)"
proof -
  obtain n d' where "write_obs sample_writer sample_ctx 1 sample_batch sample_series_db = (Inr n, d')" "wc_inserted n = 1"
    using sample_write_runs by force
  with write_exact [OF this(1)] show ?thesis by (auto simp: sample_writer_def sample_batch_def)
qed

lemma write_batch_audited_witness:
  "\<exists>n d'. write_obs sample_writer sample_ctx 1 sample_batch sample_series_db = (Inr n, d') \<and>
     (\<exists>e rows. events (audit_events d') = events (audit_events sample_series_db) @ [e] \<and>
        batch_keys d' = batch_keys sample_series_db @ rows \<and> length rows = 2)"
proof -
  obtain n d' where run: "write_obs sample_writer sample_ctx 1 sample_batch sample_series_db = (Inr n, d')"
    "wc_inserted n + wc_unchanged n = 2"
    using sample_write_runs by force
  have "sample_batch \<noteq> []" by (simp add: sample_batch_def)
  from write_batch_audited [OF run(1) this] run show ?thesis by (simp add: sample_series_db_ok) blast
qed

end
