(* ===== verification/Ts_Read.thy ===== *)
theory Ts_Read
  imports Ts_Write
begin

text \<open>
  \<open>ObservationReader\<close> of \<open>timeseries/reader.py\<close>: the catalog row with its subjects, and the reads
  at a point in time, which keep for every time stamp the row with the latest \<open>as_of\<close> not after it.
  Time stamps are the instants they stand for.
\<close>

section \<open>Series\<close>

record series_out =
  so_row :: series_catalog
  so_subjects :: "(string \<times> string) list"

definition SUBJECT_ROLES :: "string list" where
  "SUBJECT_ROLES = [''data_subject'', ''reporter'', ''beneficial_owner'', ''insider'', ''executive'', ''board_member'', ''other'']"

definition FREQUENCIES :: "string list" where
  "FREQUENCIES = [''tick'', ''1s'', ''1m'', ''5m'', ''15m'', ''30m'', ''1h'', ''1d'', ''1w'', ''1mo'', ''1q'', ''1y'', ''irregular'']"

definition RESTATEMENT_BASES :: "string list" where
  "RESTATEMENT_BASES = [''nominal'', ''as_reported'', ''restated'', ''adjusted'']"

text \<open>The models validate what they are given: non-empty code and subject ids, known literals.\<close>

definition mk_subject_ref :: "string \<Rightarrow> string \<Rightarrow> error + string \<times> string" where
  "mk_subject_ref sid role =
     (if sid \<noteq> [] \<and> role \<in> set SUBJECT_ROLES then Inr (sid, role) else Inl (PyE ValueError))"

definition mk_series :: "series_catalog \<Rightarrow> (string \<times> string) list \<Rightarrow> error + series_out" where
  "mk_series r subj =
     (if sr_code r \<noteq> [] \<and> sr_frequency r \<in> set FREQUENCIES \<and> sr_restatement_basis r \<in> set RESTATEMENT_BASES
      then Inr \<lparr>so_row = r, so_subjects = subj\<rparr> else Inl (PyE ValueError))"

text \<open>\<open>order\<close> is the order of the database's collation.\<close>

definition get_series ::
  "((string \<times> string) list \<Rightarrow> (string \<times> string) list) \<Rightarrow> pystr \<Rightarrow> (error, db, series_out option) op" where
  "get_series order code =
     bnd (gets (\<lambda>d. sql_find (\<lambda>r. sr_code r = code) (series d))) (\<lambda>row. case row of
       None \<Rightarrow> ret None
     | Some r \<Rightarrow>
         bnd (gets (\<lambda>d. order (map (\<lambda>s. (sj_subject_id s, sj_role s)) (filter (\<lambda>s. sj_series_id s = sr_id r) (subjects d)))))
         (\<lambda>rows. bnd (collect (\<lambda>(i, role). lift (mk_subject_ref i role)) rows) (\<lambda>subj.
           bnd (lift (mk_series r subj)) (\<lambda>s. ret (Some s)))))"

definition scan_metadata_for_pii :: "matcher \<Rightarrow> series_out \<Rightarrow> pii_finding list" where
  "scan_metadata_for_pii M s = (case sr_metadata (so_row s) of
     JObj kvs \<Rightarrow> find_pii_in_metadata M DEFAULT_SKIP_TOP_LEVEL_KEYS (Some kvs) | _ \<Rightarrow> [])"

section \<open>Observations\<close>

record observation_out =
  ou_series_id :: int
  ou_ts :: int
  ou_as_of :: int
  ou_value :: "64 word option"
  ou_value_text :: "pystr option"
  ou_quality_flag :: int
  ou_ingestion_run_id :: int
  ou_metadata :: json

definition obs_out :: "observation \<Rightarrow> observation_out" where
  "obs_out r = \<lparr>ou_series_id = obs_series_id r, ou_ts = obs_ts r, ou_as_of = obs_as_of r, ou_value = obs_value r,
     ou_value_text = obs_value_text r, ou_quality_flag = obs_quality_flag r,
     ou_ingestion_run_id = obs_ingestion_run_id r, ou_metadata = obs_metadata r\<rparr>"

text \<open>\<open>DISTINCT ON (key)\<close> keeps the first row of each group of the ordered rows.\<close>

fun distinct_on :: "('r \<Rightarrow> 'k) \<Rightarrow> 'r list \<Rightarrow> 'r list" where
  "distinct_on key [] = []"
| "distinct_on key (r # rs) = r # filter (\<lambda>x. key x \<noteq> key r) (distinct_on key rs)"

definition visible :: "int \<Rightarrow> int option \<Rightarrow> observation \<Rightarrow> bool" where
  "visible sid pit r \<longleftrightarrow> obs_series_id r = sid \<and> (case pit of None \<Rightarrow> True | Some p \<Rightarrow> obs_as_of r \<le> p)"

definition latest :: "int \<Rightarrow> int option \<Rightarrow> (error, db, observation_out option) op" where
  "latest sid pit = gets (\<lambda>d.
     let sub = distinct_on (\<lambda>r. (obs_series_id r, obs_ts r))
                 (sort_key (\<lambda>r. (- obs_ts r, - obs_as_of r)) (filter (visible sid pit) (observations d)))
     in case sort_key (\<lambda>r. - obs_ts r) sub of [] \<Rightarrow> None | r # _ \<Rightarrow> Some (obs_out r))"

text \<open>The rows of the window; a negative \<open>LIMIT\<close> is refused by the database.\<close>

definition window_rows :: "int \<Rightarrow> int \<Rightarrow> int \<Rightarrow> int option \<Rightarrow> observation list \<Rightarrow> observation list" where
  "window_rows sid ts_start ts_end pit t =
     sort_key obs_ts (distinct_on (\<lambda>r. (obs_series_id r, obs_ts r))
       (sort_key (\<lambda>r. (obs_ts r, - obs_as_of r))
         (filter (\<lambda>r. visible sid pit r \<and> ts_start \<le> obs_ts r \<and> obs_ts r < ts_end) t)))"

definition range_obs :: "int \<Rightarrow> int \<Rightarrow> int \<Rightarrow> int option \<Rightarrow> int option \<Rightarrow> (error, db, observation_out list) op" where
  "range_obs sid ts_start ts_end pit lim =
     bnd (gets (\<lambda>d. window_rows sid ts_start ts_end pit (observations d))) (\<lambda>rows.
       case lim of
         None \<Rightarrow> ret (map obs_out rows)
       | Some l \<Rightarrow> if l < 0 then raise (ServiceE SQLAlchemyError) else ret (map obs_out (take (nat l) rows)))"

section \<open>The rows that count\<close>

text \<open>The reference: of a time stamp's visible rows the one recorded last.\<close>

definition current_row :: "observation list \<Rightarrow> int \<Rightarrow> int option \<Rightarrow> observation \<Rightarrow> bool" where
  "current_row t sid pit r \<longleftrightarrow> r \<in> set t \<and> visible sid pit r \<and>
     (\<forall>x \<in> set t. visible sid pit x \<and> obs_ts x = obs_ts r \<longrightarrow> obs_as_of x \<le> obs_as_of r)"

lemma distinct_on_subset: "set (distinct_on key xs) \<subseteq> set xs"
  by (induction xs) auto

lemma distinct_on_distinct: "distinct (map key (distinct_on key xs))"
  by (induction xs) (auto simp: distinct_map_filter)

lemma distinct_on_iff:
  "sorted (map f xs) \<Longrightarrow> inj_on f (set xs) \<Longrightarrow> distinct xs \<Longrightarrow>
   r \<in> set (distinct_on key xs) \<longleftrightarrow> r \<in> set xs \<and> (\<forall>x \<in> set xs. key x = key r \<longrightarrow> f r \<le> f x)"
proof (induction xs)
  case (Cons a xs)
  have IH: "r \<in> set (distinct_on key xs) \<longleftrightarrow> r \<in> set xs \<and> (\<forall>x \<in> set xs. key x = key r \<longrightarrow> f r \<le> f x)"
    using Cons by (auto simp: inj_on_def)
  have a: "f a \<le> f x" if "x \<in> set xs" for x using Cons.prems(1) that by auto
  have "\<not> f r \<le> f a" if "r \<in> set xs" using a [OF that] Cons.prems that by (metis inj_onD antisym distinct.simps(2) list.set_intros)
  with IH a show ?case by auto
qed simp

abbreviation group_key :: "observation \<Rightarrow> int \<times> int" where
  "group_key \<equiv> (\<lambda>r. (obs_series_id r, obs_ts r))"

lemma collapse_iff:
  fixes g :: "int \<Rightarrow> int"
  assumes "distinct (map obs_pk t)" "inj g"
  shows "r \<in> set (distinct_on group_key (sort_key (\<lambda>r. (g (obs_ts r), - obs_as_of r))
      (filter (\<lambda>r. visible sid pit r \<and> P (obs_ts r)) t))) \<longleftrightarrow> current_row t sid pit r \<and> P (obs_ts r)"
proof -
  let ?f = "\<lambda>r. (g (obs_ts r), - obs_as_of r)"
  let ?xs = "sort_key ?f (filter (\<lambda>r. visible sid pit r \<and> P (obs_ts r)) t)"
  have pk: "inj_on obs_pk (set t)" "distinct t" using assms(1) by (auto simp: distinct_map)
  have "inj_on ?f (set ?xs)"
  proof (rule inj_onI)
    fix x y assume "x \<in> set ?xs" "y \<in> set ?xs" "?f x = ?f y"
    then have "obs_pk x = obs_pk y" "x \<in> set t" "y \<in> set t"
      using assms(2) by (auto simp: obs_pk_def visible_def inj_eq)
    with pk(1) show "x = y" by (rule inj_onD)
  qed
  then have "r \<in> set (distinct_on group_key ?xs) \<longleftrightarrow>
      r \<in> set ?xs \<and> (\<forall>x \<in> set ?xs. group_key x = group_key r \<longrightarrow> ?f r \<le> ?f x)"
    using pk(2) by (intro distinct_on_iff) simp_all
  then show ?thesis by (auto simp: current_row_def visible_def)
qed

lemma collapse_distinct:
  assumes "\<And>r. r \<in> set xs \<Longrightarrow> obs_series_id r = sid"
  shows "distinct (map obs_ts (distinct_on group_key xs))"
proof -
  have "distinct (map group_key (distinct_on group_key xs))" by (rule distinct_on_distinct)
  moreover have "obs_series_id r = sid" if "r \<in> set (distinct_on group_key xs)" for r
    by (rule assms [OF subsetD [OF distinct_on_subset that]])
  ultimately show ?thesis by (simp add: distinct_map inj_on_def)
qed

lemma window_rows_sorted: "sorted_wrt (<) (map obs_ts (window_rows sid s e pit t))"
proof -
  let ?xs = "sort_key (\<lambda>r. (obs_ts r, - obs_as_of r)) (filter (\<lambda>r. visible sid pit r \<and> s \<le> obs_ts r \<and> obs_ts r < e) t)"
  have "distinct (map obs_ts (distinct_on group_key ?xs))"
    by (rule collapse_distinct) (auto simp: visible_def)
  then have "distinct (map obs_ts (window_rows sid s e pit t))"
    unfolding window_rows_def by (simp add: distinct_map)
  then show ?thesis by (simp add: window_rows_def strict_sorted_iff)
qed

lemma window_rows_set:
  "distinct (map obs_pk t) \<Longrightarrow>
   r \<in> set (window_rows sid s e pit t) \<longleftrightarrow> current_row t sid pit r \<and> s \<le> obs_ts r \<and> obs_ts r < e"
  using collapse_iff [of t id r sid pit "\<lambda>ts. s \<le> ts \<and> ts < e"] by (simp add: window_rows_def)

text \<open>C15. A range read is exact: the rows returned are, in strictly increasing time, the current rows of
  the half-open window, for every time stamp the one with the latest \<open>as_of\<close> not after the point in time;
  a limit keeps the first of them.\<close>

theorem range_exact:
  assumes "obs_unique d" and "lim = None \<or> (\<exists>l. lim = Some l \<and> 0 \<le> l)"
  shows "\<exists>rows. sorted_wrt (<) (map obs_ts rows) \<and>
    set rows = {r. current_row (observations d) sid pit r \<and> s \<le> obs_ts r \<and> obs_ts r < e} \<and>
    range_obs sid s e pit lim d = (Inr (map obs_out (case lim of None \<Rightarrow> rows | Some l \<Rightarrow> take (nat l) rows)), d)"
proof (intro exI conjI)
  let ?rows = "window_rows sid s e pit (observations d)"
  show "sorted_wrt (<) (map obs_ts ?rows)" by (rule window_rows_sorted)
  show "set ?rows = {r. current_row (observations d) sid pit r \<and> s \<le> obs_ts r \<and> obs_ts r < e}"
    using window_rows_set [of "observations d"] assms(1) by (auto simp: obs_unique_def)
  show "range_obs sid s e pit lim d = (Inr (map obs_out (case lim of None \<Rightarrow> ?rows | Some l \<Rightarrow> take (nat l) ?rows)), d)"
    using assms(2) by (auto simp: range_obs_def)
qed

text \<open>The latest observation is the current row of the latest time stamp.\<close>

lemma latest_exact:
  assumes "obs_unique d"
  shows "case fst (latest sid pit d) of
     Inr None \<Rightarrow> \<forall>r. \<not> current_row (observations d) sid pit r
   | Inr (Some x) \<Rightarrow> \<exists>r. x = obs_out r \<and> current_row (observations d) sid pit r \<and>
       (\<forall>y. current_row (observations d) sid pit y \<longrightarrow> obs_ts y \<le> obs_ts r)
   | Inl _ \<Rightarrow> False"
proof -
  let ?sub = "distinct_on group_key (sort_key (\<lambda>r. (- obs_ts r, - obs_as_of r)) (filter (visible sid pit) (observations d)))"
  have set: "r \<in> set (sort_key (\<lambda>r. - obs_ts r) ?sub) \<longleftrightarrow> current_row (observations d) sid pit r" for r
    using collapse_iff [of "observations d" uminus r sid pit "\<lambda>_. True"] assms by (simp add: obs_unique_def inj_def)
  show ?thesis
  proof (cases "sort_key (\<lambda>r. - obs_ts r) ?sub")
    case Nil
    then show ?thesis using set by (auto simp: latest_def gets_def Let_def)
  next
    case (Cons r rs)
    have "sorted (map (\<lambda>r. - obs_ts r) (r # rs))" unfolding Cons [symmetric] by simp
    then have "\<forall>y \<in> set (r # rs). obs_ts y \<le> obs_ts r" by auto
    then have "current_row (observations d) sid pit r \<and> (\<forall>y. current_row (observations d) sid pit y \<longrightarrow> obs_ts y \<le> obs_ts r)"
      using set unfolding Cons by (metis list.set_intros(1))
    then show ?thesis by (auto simp: latest_def gets_def Let_def Cons)
  qed
qed

section \<open>Replay at a point in time\<close>

lemma visible_append_future:
  "(\<And>r. r \<in> set new \<Longrightarrow> p < obs_as_of r) \<Longrightarrow> filter (\<lambda>r. visible sid (Some p) r \<and> Q r) (t @ new) = filter (\<lambda>r. visible sid (Some p) r \<and> Q r) t"
  by (force simp: visible_def filter_empty_conv)

text \<open>C16. History does not change. A write whose observations were all recorded after a point in time
  leaves every read at that point in time as it was, for all series, windows and limits: range and latest.\<close>

theorem pit_replay_stable:
  assumes "write_obs W c sid obs d = (Inr n, d')" "obs_unique d" "\<And>ks. set (ow_iter W ks) = set ks"
    and "\<And>o1. o1 \<in> set obs \<Longrightarrow> p < instant (oi_as_of o1)"
  shows "fst (range_obs sid' s e (Some p) lim d') = fst (range_obs sid' s e (Some p) lim d) \<and>
    fst (latest sid' (Some p) d') = fst (latest sid' (Some p) d)"
proof -
  obtain new where new: "observations d' = observations d @ new"
    "\<forall>r \<in> set new. \<exists>o1 \<in> set obs. \<exists>ph. payload_hash (ow_hash W) o1 = Inr ph \<and> r = obs_row W c sid (o1, ph)"
    using write_appends [OF assms(1-3)] by blast
  then have future: "p < obs_as_of r" if "r \<in> set new" for r
    using assms(4) that by (fastforce simp: obs_key_def)
  have "window_rows sid' s e (Some p) (observations d') = window_rows sid' s e (Some p) (observations d)"
    unfolding window_rows_def new(1) using visible_append_future [OF future] by simp
  moreover have "filter (visible sid' (Some p)) (observations d') = filter (visible sid' (Some p)) (observations d)"
    unfolding new(1) using visible_append_future [OF future, where Q = "\<lambda>_. True"] by simp
  ultimately show ?thesis
    by (cases lim) (simp_all add: range_obs_def ret_def raise_def, simp_all add: latest_def gets_def)
qed

theorem range_exact_witness:
  "obs_unique sample_series_db \<and> (\<exists>rows. set rows = {r. current_row (observations sample_series_db) 1 (Some 5) r \<and> 0 \<le> obs_ts r \<and> obs_ts r < 9} \<and>
     range_obs 1 0 9 (Some 5) (Some 3) sample_series_db = (Inr (map obs_out (take 3 rows)), sample_series_db))"
  using range_exact [of sample_series_db "Some 3" 1 "Some 5" 0 9] by auto

theorem pit_replay_stable_witness:
  "\<exists>n d'. write_obs sample_writer sample_ctx 1 sample_batch sample_series_db = (Inr n, d') \<and>
     fst (range_obs 1 0 9 (Some 1) None d') = fst (range_obs 1 0 9 (Some 1) None sample_series_db)"
proof -
  obtain n d' where run: "write_obs sample_writer sample_ctx 1 sample_batch sample_series_db = (Inr n, d')"
    using sample_write_runs by blast
  have "1 < instant (oi_as_of o1)" if "o1 \<in> set sample_batch" for o1
    using that by (auto simp: sample_batch_def sample_obs_def)
  with run show ?thesis using pit_replay_stable [OF run sample_series_db_ok, of 1] by blast
qed

end
