(* ===== verification/Ts_Series.thy ===== *)
theory Ts_Series
  imports Ts_Read
begin

text \<open>
  \<open>ObservationWriter.upsert_series\<close> of \<open>timeseries/writer.py\<close>: the guards on metadata and personal
  data, the race-safe insert, the reconciliation with an existing row (idempotent hit or change of
  fields) and the subjects of a series.
\<close>

section \<open>The call's arguments\<close>

record series_args =
  sa_code :: pystr
  sa_source_id :: string
  sa_metric :: string
  sa_frequency :: string
  sa_unit :: string
  sa_entity_id :: "uuid option"
  sa_currency_code :: "string option"
  sa_restatement_basis :: string
  sa_accounting_standard :: "string option"
  sa_consolidation :: "string option"
  sa_period_type :: "string option"
  sa_description :: "pystr option"
  sa_pii_class :: pii_class
  sa_metadata :: "dict option"
  sa_subjects :: "(string \<times> string) list"

text \<open>
  The run, the pattern matcher, the rows of \<open>ref.currency\<close>, and what other
  transactions commit between the look-up of the code and the insert.
\<close>

record series_writer =
  sw_run_id :: int
  sw_matcher :: matcher
  sw_currencies :: "string list"
  sw_env :: "db \<Rightarrow> db"

record series_result =
  ur_series_id :: int
  ur_created :: bool

definition meta_of :: "series_args \<Rightarrow> dict" where
  "meta_of A = (case sa_metadata A of None \<Rightarrow> [] | Some m \<Rightarrow> m)"

section \<open>Guards\<close>

definition raise_if_pii_clear_text :: "matcher \<Rightarrow> string \<Rightarrow> pystr option \<Rightarrow> error + unit" where
  "raise_if_pii_clear_text M field v =
     (if find_pii_in_clear_text M field v \<noteq> [] then Inl (ObservationE IdentifyingSeriesPiiInClearText) else Inr ())"

definition raise_if_pii_in_metadata :: "matcher \<Rightarrow> dict option \<Rightarrow> error + unit" where
  "raise_if_pii_in_metadata M md =
     (if find_pii_in_metadata M DEFAULT_SKIP_TOP_LEVEL_KEYS md \<noteq> [] then Inl (ObservationE IdentifyingSeriesMetadataPii)
      else Inr ())"

definition series_guards :: "matcher \<Rightarrow> series_args \<Rightarrow> (error, db, unit) op" where
  "series_guards M A =
     thn (case sa_metadata A of None \<Rightarrow> ret () | Some m \<Rightarrow> lift (validate_no_numeric_string_keys (JObj m)))
     (if sa_pii_class A = Identifying then
        thn (lift (raise_if_pii_clear_text M ''series_code'' (Some (sa_code A))))
        (thn (lift (raise_if_pii_clear_text M ''description'' (sa_description A)))
        (thn (unless (sa_subjects A \<noteq> []) (ObservationE IdentifyingSeriesMissingSubject))
             (lift (raise_if_pii_in_metadata M (sa_metadata A)))))
      else ret ())"

section \<open>Statements\<close>

text \<open>The subject rows: \<open>ON CONFLICT (series_id, subject_id, role) DO NOTHING\<close>.\<close>

definition sj_pk :: "series_subject \<Rightarrow> int \<times> string \<times> string" where
  "sj_pk s = (sj_series_id s, sj_subject_id s, sj_role s)"

definition insert_subject :: "ctx \<Rightarrow> int \<Rightarrow> string \<times> string \<Rightarrow> (error, db, unit) op" where
  "insert_subject c sid s = (\<lambda>d.
     let row = \<lparr>sj_series_id = sid, sj_subject_id = fst s, sj_role = snd s,
                sj_actor_id = map_option actor_id (ctx_actor c), sj_actor_kind = map_option actor_kind (ctx_actor c),
                sj_request_id = Option.bind (ctx_actor c) request_id, sj_created_at = ctx_now c\<rparr> in
     if snd s \<notin> set SUBJECT_ROLES then (Inl (ServiceE IntegrityError), d)
     else if sj_pk row \<in> sj_pk ` set (subjects d) then (Inr (), d)
     else if sid \<notin> sr_id ` set (series d) then (Inl (ServiceE IntegrityError), d)
     else (Inr (), d\<lparr>subjects := subjects d @ [row]\<rparr>))"

definition persist_subjects :: "ctx \<Rightarrow> int \<Rightarrow> (string \<times> string) list \<Rightarrow> (error, db, unit) op" where
  "persist_subjects c sid subs = (if subs = [] then ret () else for_each (insert_subject c sid) subs)"

text \<open>What the row's columns can hold, its checks and its foreign keys.\<close>

definition series_fits :: "series_args \<Rightarrow> bool" where
  "series_fits A \<longleftrightarrow> pg_text_ok (sa_code A) \<and> (case sa_description A of None \<Rightarrow> True | Some t \<Rightarrow> pg_text_ok t) \<and>
     metadata_finite (JObj (meta_of A)) \<and> jsonb_ok (JObj (meta_of A))"

definition series_checks :: "series_args \<Rightarrow> bool" where
  "series_checks A \<longleftrightarrow> sa_frequency A \<in> set FREQUENCIES \<and> sa_restatement_basis A \<in> set RESTATEMENT_BASES"

definition series_fks :: "series_writer \<Rightarrow> series_args \<Rightarrow> db \<Rightarrow> bool" where
  "series_fks S A d \<longleftrightarrow> sa_source_id A \<in> set (sources d) \<and>
     (case sa_entity_id A of None \<Rightarrow> True | Some u \<Rightarrow> u \<in> en_id ` set (entities d)) \<and>
     (case sa_currency_code A of None \<Rightarrow> True | Some k \<Rightarrow> k \<in> set (sw_currencies S))"

definition set_fields :: "ctx \<Rightarrow> series_args \<Rightarrow> series_catalog \<Rightarrow> series_catalog" where
  "set_fields c A r = r\<lparr>sr_source_id := sa_source_id A, sr_entity_id := sa_entity_id A, sr_metric := sa_metric A,
     sr_frequency := sa_frequency A, sr_unit := sa_unit A, sr_currency_code := sa_currency_code A,
     sr_restatement_basis := sa_restatement_basis A, sr_accounting_standard := sa_accounting_standard A,
     sr_consolidation := sa_consolidation A, sr_period_type := sa_period_type A, sr_description := sa_description A,
     sr_pii_class := sa_pii_class A, sr_metadata := JObj (meta_of A), sr_audit := audit_cols_of (ctx_actor c),
     sr_updated_at := ctx_now c\<rparr>"

definition new_series :: "ctx \<Rightarrow> series_args \<Rightarrow> int \<Rightarrow> series_catalog" where
  "new_series c A sid = \<lparr>sr_id = sid, sr_code = sa_code A, sr_source_id = sa_source_id A, sr_entity_id = sa_entity_id A,
     sr_metric = sa_metric A, sr_frequency = sa_frequency A, sr_unit = sa_unit A, sr_currency_code = sa_currency_code A,
     sr_restatement_basis = sa_restatement_basis A, sr_accounting_standard = sa_accounting_standard A,
     sr_consolidation = sa_consolidation A, sr_period_type = sa_period_type A, sr_description = sa_description A,
     sr_pii_class = sa_pii_class A, sr_metadata = JObj (meta_of A), sr_audit = audit_cols_of (ctx_actor c),
     sr_created_at = ctx_now c, sr_updated_at = ctx_now c\<rparr>"

text \<open>
  \<open>INSERT ... ON CONFLICT (series_code) DO NOTHING RETURNING series_id\<close>: the sequence advances even
  when the row is not inserted.
\<close>

definition insert_series :: "series_writer \<Rightarrow> ctx \<Rightarrow> series_args \<Rightarrow> (error, db, int option) op" where
  "insert_series S c A = (\<lambda>d.
     if \<not> series_fits A then (Inl (ServiceE SQLAlchemyError), d)
     else if \<not> series_checks A then (Inl (ServiceE IntegrityError), d)
     else let d1 = d\<lparr>series_seq := series_seq d + 1\<rparr> in
       if sa_code A \<in> sr_code ` set (series d) then (Inr None, d1)
       else if \<not> series_fks S A d then (Inl (ServiceE IntegrityError), d1)
       else (Inr (Some (series_seq d)), d1\<lparr>series := series d @ [new_series c A (series_seq d)]\<rparr>))"

definition update_series :: "series_writer \<Rightarrow> ctx \<Rightarrow> series_args \<Rightarrow> int \<Rightarrow> (error, db, unit) op" where
  "update_series S c A sid = (\<lambda>d.
     if \<not> series_fits A then (Inl (ServiceE SQLAlchemyError), d)
     else if \<not> series_checks A then (Inl (ServiceE IntegrityError), d)
     else if \<not> series_fks S A d then (Inl (ServiceE IntegrityError), d)
     else (Inr (), d\<lparr>series := sql_update (\<lambda>r. sr_id r = sid) (set_fields c A) (series d)\<rparr>))"

section \<open>Audit payloads\<close>

definition pii_str :: "pii_class \<Rightarrow> string" where
  "pii_str p = (case p of PiiNone \<Rightarrow> ''none'' | Pseudonymous \<Rightarrow> ''pseudonymous'' | Identifying \<Rightarrow> ''identifying'')"

definition series_payload :: "series_catalog \<Rightarrow> json" where
  "series_payload r = jobj [(''series_id'', JInt (sr_id r)), (''series_code'', JStr (sr_code r)),
     (''source_id'', jlit (sr_source_id r)), (''metric'', jlit (sr_metric r)), (''frequency'', jlit (sr_frequency r)),
     (''unit'', jlit (sr_unit r)), (''pii_class'', jlit (pii_str (sr_pii_class r))),
     (''restatement_basis'', jlit (sr_restatement_basis r)), (''metadata'', sr_metadata r)]"

definition series_full_payload :: "series_catalog \<Rightarrow> json" where
  "series_full_payload r = jobj [(''series_id'', JInt (sr_id r)), (''series_code'', JStr (sr_code r)),
     (''source_id'', jlit (sr_source_id r)), (''metric'', jlit (sr_metric r)), (''frequency'', jlit (sr_frequency r)),
     (''unit'', jlit (sr_unit r)), (''currency_code'', jopt jlit (sr_currency_code r)),
     (''restatement_basis'', jlit (sr_restatement_basis r)), (''accounting_standard'', jopt jlit (sr_accounting_standard r)),
     (''consolidation'', jopt jlit (sr_consolidation r)), (''period_type'', jopt jlit (sr_period_type r)),
     (''description'', jopt JStr (sr_description r)), (''pii_class'', jlit (pii_str (sr_pii_class r))),
     (''metadata'', sr_metadata r)]"

definition series_event :: "series_writer \<Rightarrow> string \<Rightarrow> int \<Rightarrow> json option \<Rightarrow> json option \<Rightarrow> json \<Rightarrow> audit_record" where
  "series_event S opn sid before after md =
     \<lparr>ar_operation = opn, ar_target_schema = ''ts'', ar_target_table = ''series_catalog'',
      ar_target_pk = jobj [(''series_id'', JInt sid)], ar_before = before, ar_after = after, ar_metadata = md,
      ar_ingestion_run_id = Some (sw_run_id S)\<rparr>"

section \<open>The branches\<close>

definition same_fields :: "series_args \<Rightarrow> series_catalog \<Rightarrow> bool" where
  "same_fields A r \<longleftrightarrow> sr_source_id r = sa_source_id A \<and> sr_entity_id r = sa_entity_id A \<and> sr_metric r = sa_metric A \<and>
     sr_frequency r = sa_frequency A \<and> sr_unit r = sa_unit A \<and> sr_currency_code r = sa_currency_code A \<and>
     sr_restatement_basis r = sa_restatement_basis A \<and> sr_accounting_standard r = sa_accounting_standard A \<and>
     sr_consolidation r = sa_consolidation A \<and> sr_period_type r = sa_period_type A \<and>
     sr_description r = sa_description A \<and> sr_pii_class r = sa_pii_class A \<and> json_eq (sr_metadata r) (JObj (meta_of A))"

definition immutable_changes :: "series_args \<Rightarrow> series_catalog \<Rightarrow> string list" where
  "immutable_changes A r =
     (if sr_source_id r \<noteq> sa_source_id A then [''source_id''] else []) @
     (if sr_frequency r \<noteq> sa_frequency A then [''frequency''] else []) @
     (if sr_unit r \<noteq> sa_unit A then [''unit''] else [])"

definition upsert_series_field_change ::
  "series_writer \<Rightarrow> ctx \<Rightarrow> series_args \<Rightarrow> series_catalog \<Rightarrow> (error, db, series_result) op" where
  "upsert_series_field_change S c A r =
     bnd (gets (\<lambda>d. sql_count (\<lambda>x. obs_series_id x = sr_id r) (observations d))) (\<lambda>obs_count.
     if immutable_changes A r \<noteq> [] \<and> 0 < obs_count then raise (ObservationE (SeriesCodeConflict (immutable_changes A r)))
     else thn (update_series S c A (sr_id r))
         (thn (persist_subjects c (sr_id r) (sa_subjects A))
         (thn (audit c (series_event S ''series.update'' (sr_id r) (Some (series_full_payload r))
                (Some (series_full_payload (set_fields c A r))) (JObj [])))
         (ret \<lparr>ur_series_id = sr_id r, ur_created = False\<rparr>))))"

definition reconcile_existing :: "series_writer \<Rightarrow> ctx \<Rightarrow> series_args \<Rightarrow> series_catalog \<Rightarrow> (error, db, series_result) op" where
  "reconcile_existing S c A r =
     (if same_fields A r then
        thn (persist_subjects c (sr_id r) (sa_subjects A))
        (thn (audit c (series_event S ''series.idempotent_hit'' (sr_id r) (Some (series_payload r)) (Some (series_payload r))
               (jobj [(''returned_existing'', JBool True)])))
        (ret \<lparr>ur_series_id = sr_id r, ur_created = False\<rparr>))
      else upsert_series_field_change S c A r)"

definition find_series :: "pystr \<Rightarrow> (error, db, series_catalog option) op" where
  "find_series code = gets (\<lambda>d. sql_find (\<lambda>r. sr_code r = code) (series d))"

definition upsert_series_fresh :: "series_writer \<Rightarrow> ctx \<Rightarrow> series_args \<Rightarrow> (error, db, series_result) op" where
  "upsert_series_fresh S c A =
     bnd (insert_series S c A) (\<lambda>sid_raw. case sid_raw of
       None \<Rightarrow> bnd (find_series (sa_code A)) (\<lambda>existing. case existing of
           None \<Rightarrow> raise (PyE AssertionError)
         | Some r \<Rightarrow> reconcile_existing S c A r)
     | Some sid \<Rightarrow>
         thn (persist_subjects c sid (sa_subjects A))
         (thn (audit c (series_event S ''series.upsert'' sid None (Some (series_payload (new_series c A sid))) (JObj [])))
         (ret \<lparr>ur_series_id = sid, ur_created = True\<rparr>)))"

definition upsert_series :: "series_writer \<Rightarrow> ctx \<Rightarrow> series_args \<Rightarrow> (error, db, series_result) op" where
  "upsert_series S c A =
     thn (assert_actor_or_strict_raise c)
     (thn (series_guards (sw_matcher S) A)
     (bnd (find_series (sa_code A)) (\<lambda>existing. case existing of
        None \<Rightarrow> thn (modify (sw_env S)) (upsert_series_fresh S c A)
      | Some r \<Rightarrow> reconcile_existing S c A r)))"

section \<open>Identity of a series\<close>

definition series_ok :: "db \<Rightarrow> bool" where
  "series_ok d \<longleftrightarrow> distinct (map sr_id (series d)) \<and> distinct (map sr_code (series d)) \<and>
     (\<forall>r \<in> set (series d). sr_id r < series_seq d)"

definition ident :: "series_catalog \<Rightarrow> int \<times> pystr \<times> string \<times> string \<times> string" where
  "ident r = (sr_id r, sr_code r, sr_source_id r, sr_frequency r, sr_unit r)"

definition observed :: "db \<Rightarrow> int \<Rightarrow> bool" where
  "observed d sid \<longleftrightarrow> (\<exists>x \<in> set (observations d). obs_series_id x = sid)"

text \<open>
  The order in which the catalog may change: keys stay unique, observations stay, and a series with
  observations keeps its code, source, frequency and unit.
\<close>

definition series_le :: "db \<Rightarrow> db \<Rightarrow> bool" where
  "series_le d d' \<longleftrightarrow> (series_ok d \<longrightarrow> series_ok d' \<and> set (observations d) \<subseteq> set (observations d') \<and>
     (\<forall>r \<in> set (series d). observed d (sr_id r) \<longrightarrow> ident r \<in> ident ` set (series d')))"

lemma ident_id: "ident r = ident r' \<Longrightarrow> sr_id r = sr_id r'"
  by (simp add: ident_def)

interpretation catalog: growth series_le
proof
  show "series_le d d" for d by (auto simp: series_le_def)
  fix d e f assume 1: "series_le d e" and 2: "series_le e f"
  show "series_le d f" unfolding series_le_def
  proof (intro impI conjI ballI)
    assume ok: "series_ok d"
    with 1 have ok': "series_ok e" by (simp add: series_le_def)
    with 2 show "series_ok f" by (simp add: series_le_def)
    show "set (observations d) \<subseteq> set (observations f)" using 1 2 ok ok' by (auto simp: series_le_def)
    fix r assume r: "r \<in> set (series d)" "observed d (sr_id r)"
    with 1 ok obtain r' where r': "r' \<in> set (series e)" "ident r = ident r'" by (auto simp: series_le_def)
    moreover have "observed e (sr_id r')" using 1 ok r(2) ident_id [OF r'(2)] by (auto simp: series_le_def observed_def)
    ultimately have "ident r' \<in> ident ` set (series f)" using 2 ok' unfolding series_le_def by blast
    then show "ident r \<in> ident ` set (series f)" using r'(2) by simp
  qed
qed

lemma series_le_frame:
  "series d' = series d \<Longrightarrow> series_seq d' = series_seq d \<Longrightarrow> set (observations d) \<subseteq> set (observations d') \<Longrightarrow> series_le d d'"
  by (auto simp: series_le_def series_ok_def)

lemma audit_catalog: "catalog.grows (audit c x)"
  by (auto simp: catalog.grows_def audit_eval intro: series_le_frame)

lemma assert_actor_catalog: "catalog.grows (assert_actor_or_strict_raise c)"
  by (simp add: catalog.grows_def assert_actor_cases catalog.le_refl)

lemma persist_catalog: "catalog.grows (persist_subjects c sid subs)"
proof -
  have "catalog.grows (insert_subject c sid s)" for s
    by (auto simp: catalog.grows_def insert_subject_def Let_def intro: series_le_frame)
  then show ?thesis unfolding persist_subjects_def by (intro catalog.grows_intros)
qed

lemma insert_series_catalog: "catalog.grows (insert_series S c A)"
proof -
  have "series_le d (snd (insert_series S c A d))" for d
    by (auto simp: insert_series_def Let_def series_le_def series_ok_def ident_def new_series_def)
  then show ?thesis by (simp add: catalog.grows_def)
qed

lemma update_series_le:
  assumes r: "r \<in> set (series d)" and guard: "immutable_changes A r = [] \<or> \<not> observed d (sr_id r)"
  shows "series_le d (snd (update_series S c A (sr_id r) d))"
proof -
  let ?t = "sql_update (\<lambda>x. sr_id x = sr_id r) (set_fields c A) (series d)"
  have keep: "ident x \<in> ident ` set ?t" if "series_ok d" "x \<in> set (series d)" "observed d (sr_id x)" for x
  proof -
    let ?x = "if sr_id x = sr_id r then set_fields c A x else x"
    have "ident ?x = ident x"
    proof (cases "sr_id x = sr_id r")
      case True
      with that r have "x = r" by (auto simp: series_ok_def distinct_map dest: inj_onD)
      with that guard True show ?thesis by (auto simp: ident_def set_fields_def immutable_changes_def split: if_splits)
    qed simp
    moreover have "?x \<in> set ?t"
      unfolding sql_update_def set_map by (rule image_eqI [of _ _ x]) (simp_all add: that(2))
    then have "ident ?x \<in> ident ` set ?t" by (rule imageI)
    ultimately show ?thesis by (simp only:)
  qed
  have "map sr_id ?t = map sr_id (series d)" "map sr_code ?t = map sr_code (series d)"
    by (simp_all add: sql_update_keys set_fields_def)
  moreover from this(1) have "\<forall>x \<in> set ?t. sr_id x < series_seq d" if "series_ok d"
    using that by (metis (mono_tags, lifting) imageE imageI list.set_map series_ok_def)
  ultimately have "series_le d (d\<lparr>series := ?t\<rparr>)"
    using keep by (auto simp: series_le_def series_ok_def)
  then show ?thesis by (simp add: update_series_def catalog.le_refl)
qed

lemma reconcile_le:
  assumes "r \<in> set (series d)"
  shows "series_le d (snd (reconcile_existing S c A r d))"
proof -
  have "series_le d (snd (upsert_series_field_change S c A r d))"
  proof (cases "immutable_changes A r \<noteq> [] \<and> 0 < sql_count (\<lambda>x. obs_series_id x = sr_id r) (observations d)")
    case True
    then show ?thesis by (simp add: upsert_series_field_change_def raise_def catalog.le_refl)
  next
    case False
    then have "immutable_changes A r = [] \<or> \<not> observed d (sr_id r)"
      by (auto simp: observed_def sql_count_zero_iff)
    from update_series_le [OF assms this] False show ?thesis
      by (auto simp: upsert_series_field_change_def
          intro!: catalog.le_thn catalog.grows_intros persist_catalog audit_catalog)
  qed
  moreover have "catalog.grows (thn (persist_subjects c i ss) (thn (audit c x) (ret v)))" for i ss x and v :: series_result
    by (intro catalog.grows_intros persist_catalog audit_catalog)
  ultimately show ?thesis by (simp add: reconcile_existing_def catalog.grows_def)
qed

lemma find_series_reconcile_le:
  assumes "\<And>d. sql_find (\<lambda>r. sr_code r = code) (series d) = None \<Longrightarrow> series_le d (snd (m d))"
  shows "series_le d (snd (bnd (find_series code) (\<lambda>x. case x of None \<Rightarrow> m | Some r \<Rightarrow> reconcile_existing S c A r) d))"
  using assms reconcile_le by (auto simp: find_series_def dest: sql_find_Some_iff split: option.splits)

lemma upsert_series_catalog:
  assumes "\<And>d. series_le d (sw_env S d)"
  shows "catalog.grows (upsert_series S c A)"
proof -
  have guards: "catalog.grows (series_guards M A)" for M
    unfolding series_guards_def by (intro catalog.grows_intros)
  have "series_le d (snd (upsert_series_fresh S c A d))" for d
    unfolding upsert_series_fresh_def
  proof (rule catalog.le_bnd)
    show "series_le d (snd (insert_series S c A d))" using insert_series_catalog by (simp add: catalog.grows_def)
    fix x d' assume "insert_series S c A d = (Inr x, d')"
    show "series_le d' (snd ((case x of None \<Rightarrow> bnd (find_series (sa_code A)) (\<lambda>existing. case existing of
           None \<Rightarrow> raise (PyE AssertionError) | Some r \<Rightarrow> reconcile_existing S c A r)
     | Some sid \<Rightarrow> thn (persist_subjects c sid (sa_subjects A))
         (thn (audit c (series_event S ''series.upsert'' sid None (Some (series_payload (new_series c A sid))) (JObj [])))
         (ret \<lparr>ur_series_id = sid, ur_created = True\<rparr>))) d'))"
    proof (cases x)
      case None
      then show ?thesis by (simp add: find_series_reconcile_le raise_def catalog.le_refl)
    next
      case (Some sid)
      have "catalog.grows (thn (persist_subjects c sid ss) (thn (audit c e) (ret v)))" for ss e and v :: series_result
        by (intro catalog.grows_intros persist_catalog audit_catalog)
      then show ?thesis by (simp add: Some catalog.grows_def)
    qed
  qed
  then have "catalog.grows (upsert_series_fresh S c A)" by (simp add: catalog.grows_def)
  then have "catalog.grows (thn (modify (sw_env S)) (upsert_series_fresh S c A))"
    by (intro catalog.grows_thn catalog.grows_modify assms)
  then have "catalog.grows (bnd (find_series (sa_code A)) (\<lambda>x. case x of None \<Rightarrow> thn (modify (sw_env S)) (upsert_series_fresh S c A)
      | Some r \<Rightarrow> reconcile_existing S c A r))"
    by (simp add: catalog.grows_def find_series_reconcile_le)
  then show ?thesis unfolding upsert_series_def
    by (intro catalog.grows_thn assert_actor_catalog guards)
qed

section \<open>Runs of calls\<close>

lemma write_obs_catalog: "catalog.grows (write_obs W c sid obs)"
  by (rule write_obs_grows [OF catalog.growth_axioms]; rule series_le_frame) auto

text \<open>
  A call in a transaction of its own; the caller goes on after an error, which undoes the call's writes
  and not what others committed meanwhile.
\<close>

datatype ts_call = Upsert series_writer series_args | Write observation_writer int "observation_in list"

definition ts_step :: "ctx \<times> ts_call \<Rightarrow> db \<Rightarrow> db" where
  "ts_step cc d = (case cc of
     (c, Upsert S A) \<Rightarrow> (case upsert_series S c A d of (Inl _, _) \<Rightarrow> sw_env S d | (Inr _, d') \<Rightarrow> d')
   | (c, Write W sid obs) \<Rightarrow> snd (run_tx (write_obs W c sid obs) d))"

fun call_rely :: "ts_call \<Rightarrow> bool" where
  "call_rely (Upsert S A) = (\<forall>d. series_le d (sw_env S d))"
| "call_rely (Write W sid obs) = True"

text \<open>C14. What observations mean does not change under them: through any sequence of calls, successful or
  not, a series that has observations keeps its code, source, frequency and unit, no observation is
  lost, and ids and codes stay unique, as long as the other transactions keep to the same.\<close>

theorem series_identity_immutable:
  assumes "series_ok d" "\<forall>(c, k) \<in> set calls. call_rely k"
  shows "series_ok (fold ts_step calls d) \<and> set (observations d) \<subseteq> set (observations (fold ts_step calls d)) \<and>
    (\<forall>r \<in> set (series d). observed d (sr_id r) \<longrightarrow> ident r \<in> ident ` set (series (fold ts_step calls d)))"
proof -
  have step: "series_le d' (ts_step ck d')" if "ck \<in> set calls" for ck d'
  proof -
    obtain c k where ck: "ck = (c, k)" by (cases ck)
    with that assms(2) have "call_rely k" by auto
    then show ?thesis
    proof (cases k)
      case (Upsert S A)
      with \<open>call_rely k\<close> have rely: "\<And>d. series_le d (sw_env S d)" by simp
      from catalog.growsD [OF upsert_series_catalog [OF this]] rely show ?thesis
        by (auto simp: ck ts_step_def Upsert split: prod.splits sum.splits)
    next
      case (Write W sid obs)
      with catalog.grows_run_tx [OF write_obs_catalog] show ?thesis by (simp add: ck ts_step_def catalog.grows_def)
    qed
  qed
  have "series_le d (fold ts_step calls d)"
    using step
  proof (induction calls arbitrary: d)
    case (Cons ck calls)
    have "series_le d (ts_step ck d)" by (rule Cons.prems) simp
    moreover have "series_le (ts_step ck d) (fold ts_step calls (ts_step ck d))" by (rule Cons.IH) (simp add: Cons.prems)
    ultimately show ?case by (simp add: catalog.le_trans)
  qed (simp add: catalog.le_refl)
  with assms(1) show ?thesis by (simp add: series_le_def)
qed

section \<open>Identifying series\<close>

lemma insert_subject_Inr:
  "insert_subject c sid s d = (Inr u, d') \<Longrightarrow> series d' = series d \<and> set (subjects d) \<subseteq> set (subjects d') \<and>
   (sid, s) \<in> sj_pk ` set (subjects d')"
  by (cases s) (auto simp: insert_subject_def Let_def sj_pk_def split: if_splits)

lemma persist_subjects_Inr:
  assumes "persist_subjects c sid subs d = (Inr u, d')"
  shows "series d' = series d \<and> (\<forall>s \<in> set subs. (sid, s) \<in> sj_pk ` set (subjects d'))"
proof -
  have "series d' = series d \<and> set (subjects d) \<subseteq> set (subjects d') \<and> (\<forall>s \<in> set subs. (sid, s) \<in> sj_pk ` set (subjects d'))"
    if "for_each (insert_subject c sid) subs d = (Inr u, d')" for d
    using that
  proof (induction subs arbitrary: d)
    case (Cons s subs)
    then obtain d1 where "insert_subject c sid s d = (Inr (), d1)" "for_each (insert_subject c sid) subs d1 = (Inr u, d')"
      by (auto simp: thn_Inr_iff)
    with insert_subject_Inr [OF this(1)] Cons.IH [OF this(2)] show ?case
      by (metis image_mono set_ConsD subsetD subset_trans)
  qed simp
  with assms show ?thesis by (auto simp: persist_subjects_def split: if_splits)
qed

definition series_matches :: "series_args \<Rightarrow> series_catalog \<Rightarrow> bool" where
  "series_matches A r \<longleftrightarrow> sr_code r = sa_code A \<and> sr_pii_class r = sa_pii_class A \<and> sr_description r = sa_description A \<and>
     (sr_metadata r = JObj (meta_of A) \<or> json_eq (sr_metadata r) (JObj (meta_of A)))"

definition series_settled :: "series_args \<Rightarrow> int \<Rightarrow> db \<Rightarrow> bool" where
  "series_settled A sid d \<longleftrightarrow> (\<exists>r \<in> set (series d). sr_id r = sid \<and> series_matches A r) \<and>
     (\<forall>s \<in> set (sa_subjects A). (sid, s) \<in> sj_pk ` set (subjects d))"

lemma settle:
  assumes "thn (persist_subjects c sid (sa_subjects A)) (thn (audit c e) (ret v)) d = (Inr u, d')"
    and "r \<in> set (series d)" "sr_id r = sid" "series_matches A r"
  shows "series_settled A sid d' \<and> u = v"
proof -
  from assms(1) obtain d1 x where p: "persist_subjects c sid (sa_subjects A) d = (Inr x, d1)"
    and rest: "u = v" "series d' = series d1" "subjects d' = subjects d1"
    by (auto simp: thn_Inr_iff audit_Inr_iff split: if_splits)
  from persist_subjects_Inr [OF p] assms(2-4) rest show ?thesis by (auto simp: series_settled_def)
qed

lemma reconcile_settled:
  assumes "reconcile_existing S c A r d = (Inr u, d')" "r \<in> set (series d)" "sr_code r = sa_code A"
  shows "series_settled A (ur_series_id u) d'"
proof (cases "same_fields A r")
  case True
  then have "series_matches A r" using assms(3) by (simp add: same_fields_def series_matches_def)
  with settle [OF _ assms(2) refl this] assms(1) True show ?thesis by (fastforce simp: reconcile_existing_def)
next
  case False
  let ?d = "d\<lparr>series := sql_update (\<lambda>x. sr_id x = sr_id r) (set_fields c A) (series d)\<rparr>"
  let ?e = "series_event S ''series.update'' (sr_id r) (Some (series_full_payload r)) (Some (series_full_payload (set_fields c A r))) (JObj [])"
  let ?k = "thn (persist_subjects c (sr_id r) (sa_subjects A)) (thn (audit c ?e)
      (ret \<lparr>ur_series_id = sr_id r, ur_created = False\<rparr>))"
  have "thn (update_series S c A (sr_id r)) ?k d = (Inr u, d')"
    using assms(1) False by (simp add: reconcile_existing_def upsert_series_field_change_def split: if_splits)
  then obtain d1 where "update_series S c A (sr_id r) d = (Inr (), d1)" "?k d1 = (Inr u, d')"
    by (auto simp: thn_Inr_iff [of "update_series S c A (sr_id r)"])
  moreover from this(1) have "d1 = ?d" by (auto simp: update_series_def split: if_splits)
  ultimately have "?k ?d = (Inr u, d')" by simp
  moreover have "set_fields c A r \<in> set (series ?d)" using assms(2) by (auto simp: sql_update_def)
  moreover have "sr_id (set_fields c A r) = sr_id r" "series_matches A (set_fields c A r)"
    using assms(3) by (simp_all add: set_fields_def series_matches_def)
  ultimately show ?thesis using settle by fastforce
qed

lemma upsert_settled:
  assumes "upsert_series S c A d = (Inr u, d')"
  shows "series_settled A (ur_series_id u) d'"
proof -
  have found: "series_settled A (ur_series_id u) d'"
    if "sql_find (\<lambda>r. sr_code r = sa_code A) (series e) = Some r" "reconcile_existing S c A r e = (Inr u, d')" for e r
    using that sql_find_Some_iff reconcile_settled by fastforce
  have fresh: "series_settled A (ur_series_id u) d'" if run: "upsert_series_fresh S c A e = (Inr u, d')" for e
  proof -
    obtain x e' where x: "insert_series S c A e = (Inr x, e')"
      using run unfolding upsert_series_fresh_def bnd_Inr_iff by blast
    show ?thesis
    proof (cases x)
      case None
      then show ?thesis using run x found
        by (auto simp: upsert_series_fresh_def bnd_eval [of "insert_series S c A" e, OF x] find_series_def split: option.splits)
    next
      case (Some sid)
      then have "new_series c A sid \<in> set (series e')" using x by (auto simp: insert_series_def Let_def split: if_splits)
      moreover have "sr_id (new_series c A sid) = sid" "series_matches A (new_series c A sid)"
        by (simp_all add: new_series_def series_matches_def)
      ultimately show ?thesis using run Some settle by (fastforce simp: upsert_series_fresh_def bnd_eval [of "insert_series S c A" e, OF x])
    qed
  qed
  from assms show ?thesis
    by (auto simp: upsert_series_def thn_Inr_iff find_series_def modify_def intro: found fresh split: option.splits)
qed

text \<open>An identifying series can always be found by its subjects and holds no personal data elsewhere:
  after a successful upsert with class identifying, the series is stored under its code, every subject
  named in the call (there is at least one) leads to it, and neither its code nor its description nor
  its metadata outside \<open>subjects\<close> contains a pattern of personal data.\<close>

lemma identifying_series_deletable:
  assumes "upsert_series S c A d = (Inr u, d')" "sa_pii_class A = Identifying"
  shows "(\<exists>r \<in> set (series d'). sr_id r = ur_series_id u \<and> series_matches A r \<and> sr_pii_class r = Identifying \<and>
      find_pii_in_clear_text (sw_matcher S) ''series_code'' (Some (sr_code r)) = [] \<and>
      find_pii_in_clear_text (sw_matcher S) ''description'' (sr_description r) = []) \<and>
    find_pii_in_metadata (sw_matcher S) DEFAULT_SKIP_TOP_LEVEL_KEYS (sa_metadata A) = [] \<and>
    sa_subjects A \<noteq> [] \<and> (\<forall>s \<in> set (sa_subjects A). (ur_series_id u, s) \<in> sj_pk ` set (subjects d'))"
proof -
  have "find_pii_in_clear_text (sw_matcher S) ''series_code'' (Some (sa_code A)) = [] \<and>
    find_pii_in_clear_text (sw_matcher S) ''description'' (sa_description A) = [] \<and>
    find_pii_in_metadata (sw_matcher S) DEFAULT_SKIP_TOP_LEVEL_KEYS (sa_metadata A) = [] \<and> sa_subjects A \<noteq> []"
    using assms by (auto simp: upsert_series_def thn_Inr_iff series_guards_def lift_def raise_if_pii_clear_text_def
        raise_if_pii_in_metadata_def split: if_splits)
  with upsert_settled [OF assms(1)] assms(2) show ?thesis
    unfolding series_settled_def series_matches_def by auto
qed

section \<open>Audited mutations\<close>

lemma persist_trail: "trail.grows (persist_subjects c sid subs)"
proof -
  have "trail.grows (insert_subject c sid s)" for s
    by (auto simp: trail.grows_def insert_subject_def Let_def trail_le_def log_growth.le_refl)
  then show ?thesis unfolding persist_subjects_def by (intro trail.grows_intros)
qed

lemma series_statements_trail: "trail.grows (insert_series S c A)" "trail.grows (update_series S c A sid)"
  by (auto simp: trail.grows_def insert_series_def update_series_def Let_def trail_le_def log_growth.le_refl)

lemma reconcile_trail: "trail.grows (reconcile_existing S c A r)"
  unfolding reconcile_existing_def upsert_series_field_change_def
  by (intro trail.grows_intros persist_trail audit_trail series_statements_trail)

interpretation series_upsert: audited_mutation "\<lambda>c A. upsert_series (S\<lparr>sw_env := id\<rparr>) c A" for S
proof
  show "\<exists>e. upsert_series (S\<lparr>sw_env := id\<rparr>) c A d = (Inl e, d)" if "ctx_strict c" "ctx_actor c = None" for c A d
    using that by (simp add: upsert_series_def assert_actor_cases thn_def bnd_def)
  have env: "trail.grows (modify (sw_env (S\<lparr>sw_env := id\<rparr>)))"
    by (intro trail.grows_modify) (simp add: trail.le_refl)
  have guards: "trail.grows (series_guards M A)" for M A
    unfolding series_guards_def by (intro trail.grows_intros)
  have find: "trail.grows (find_series code)" for code unfolding find_series_def by (rule trail.grows_gets)
  show "trail.grows (upsert_series (S\<lparr>sw_env := id\<rparr>) c A)" for c A
    unfolding upsert_series_def upsert_series_fresh_def
    by (intro trail.grows_thn assert_actor_trail guards trail.grows_bnd find trail.grows_case_option env
        reconcile_trail series_statements_trail persist_trail audit_trail trail.grows_raise trail.grows_ret)
qed

definition sample_series_writer :: series_writer where
  "sample_series_writer = \<lparr>sw_run_id = 1, sw_matcher = sample_matcher, sw_currencies = [''TRY''], sw_env = id\<rparr>"

definition sample_series_args :: series_args where
  "sample_series_args = \<lparr>sa_code = lit ''kap:salary'', sa_source_id = ''KAP'', sa_metric = ''salary'', sa_frequency = ''1y'',
     sa_unit = ''TRY'', sa_entity_id = None, sa_currency_code = Some ''TRY'', sa_restatement_basis = ''nominal'',
     sa_accounting_standard = None, sa_consolidation = None, sa_period_type = None, sa_description = None,
     sa_pii_class = Identifying, sa_metadata = None, sa_subjects = [(''subj-1'', ''executive'')]\<rparr>"

lemma sample_series_writer_fields [simp]: "sw_matcher sample_series_writer = sample_matcher" "sw_env sample_series_writer = id"
  by (simp_all add: sample_series_writer_def)

lemma sample_upsert_runs:
  "\<exists>d'. upsert_series sample_series_writer sample_ctx sample_series_args sample_series_db =
     (Inr \<lparr>ur_series_id = 2, ur_created = True\<rparr>, d')"
proof -
  have guards: "series_guards sample_matcher sample_series_args d = (Inr (), d)" for d
    by (simp add: series_guards_def sample_series_args_def raise_if_pii_clear_text_def raise_if_pii_in_metadata_def
        find_pii_in_clear_text_def find_pii_in_metadata_def scan_string_def sample_matcher_def PATTERN_TABLE_def thn_def lift_def bnd_def ret_def)
  have ok: "series_fits sample_series_args" "series_checks sample_series_args"
    by (simp_all add: series_fits_def series_checks_def sample_series_args_def pg_text_ok_def encodable_def meta_of_def
        FREQUENCIES_def RESTATEMENT_BASES_def)
  have "\<exists>d1. insert_series sample_series_writer sample_ctx sample_series_args sample_series_db = (Inr (Some 2), d1) \<and>
      subjects d1 = [] \<and> 2 \<in> sr_id ` set (series d1)"
    using ok by (simp add: insert_series_def Let_def sample_series_db_def empty_db_def series_fks_def sample_series_args_def
        sample_series_writer_def new_series_def)
  then obtain d1 where ins: "insert_series sample_series_writer sample_ctx sample_series_args sample_series_db = (Inr (Some 2), d1)"
    "subjects d1 = []" "2 \<in> sr_id ` set (series d1)" by blast
  have "\<exists>d2. persist_subjects sample_ctx 2 (sa_subjects sample_series_args) d1 = (Inr (), d2)"
    using ins by (simp add: persist_subjects_def insert_subject_def sample_series_args_def SUBJECT_ROLES_def thn_def bnd_def)
  then obtain d2 where sub: "persist_subjects sample_ctx 2 (sa_subjects sample_series_args) d1 = (Inr (), d2)" by blast
  have none: "sql_find (\<lambda>r. sr_code r = sa_code sample_series_args) (series sample_series_db) = None"
    by (simp add: sample_series_db_def sample_series_args_def)
  show ?thesis
    using guards none
    by (simp add: upsert_series_def upsert_series_fresh_def thn_def bnd_def assert_actor_cases find_series_def gets_def
        modify_def ins sub audit_eval)
qed

lemma identifying_series_deletable_witness:
  "\<exists>u d'. upsert_series sample_series_writer sample_ctx sample_series_args sample_series_db = (Inr u, d') \<and>
     (\<exists>r \<in> set (series d'). sr_id r = 2 \<and> sr_pii_class r = Identifying) \<and> (2, ''subj-1'', ''executive'') \<in> sj_pk ` set (subjects d')"
proof -
  obtain d' where run: "upsert_series sample_series_writer sample_ctx sample_series_args sample_series_db =
      (Inr \<lparr>ur_series_id = 2, ur_created = True\<rparr>, d')" using sample_upsert_runs by blast
  have "sa_pii_class sample_series_args = Identifying" "sa_subjects sample_series_args = [(''subj-1'', ''executive'')]"
    by (simp_all add: sample_series_args_def)
  with identifying_series_deletable [OF run] run show ?thesis by auto
qed

theorem series_identity_immutable_witness:
  "series_ok sample_series_db \<and> observed sample_series_db 1 \<and>
   ident (hd (series sample_series_db)) \<in> ident ` set (series (fold ts_step
     [(sample_ctx, Upsert sample_series_writer sample_series_args), (sample_ctx, Write sample_writer 1 sample_batch)] sample_series_db))"
proof -
  have "series_ok sample_series_db" "observed sample_series_db 1"
    by (simp_all add: series_ok_def observed_def sample_series_db_def)
  moreover have "\<forall>(c, k) \<in> set [(sample_ctx, Upsert sample_series_writer sample_series_args),
      (sample_ctx, Write sample_writer 1 sample_batch)]. call_rely k"
    by (simp add: catalog.le_refl)
  moreover have "hd (series sample_series_db) \<in> set (series sample_series_db)" "sr_id (hd (series sample_series_db)) = 1"
    by (simp_all add: sample_series_db_def)
  ultimately show ?thesis using series_identity_immutable [of sample_series_db] by metis
qed

end
