(* ===== verification/Object_Storage.thy ===== *)
theory Object_Storage
  imports Py_Utf8 "HOL-Library.AList"
begin

text \<open>
  Object storage (\<open>documents/object_storage.py\<close>): the protocol of the client, the contract the document
  store relies on, the in-memory implementation, and the wrapper around an S3 client, whose own
  commands are a parameter.
\<close>

section \<open>The protocol\<close>

record object_metadata =
  om_bytes :: nat
  om_content_type :: string

type_synonym object_key = "string \<times> pystr"

record 'b object_api =
  oa_put :: "string \<Rightarrow> pystr \<Rightarrow> byte list \<Rightarrow> string \<Rightarrow> (error, 'b, unit) op"
  oa_head :: "string \<Rightarrow> pystr \<Rightarrow> (error, 'b, object_metadata option) op"
  oa_delete :: "string \<Rightarrow> pystr \<Rightarrow> (error, 'b, unit) op"
  oa_url :: "string \<Rightarrow> pystr \<Rightarrow> int \<Rightarrow> (error, 'b, pystr) op"

text \<open>
  The contract. \<open>objs\<close> is what the store holds. A call touches its own key only, also when it raises
  (whether a failed put has stored the bytes is open); a put that returns has stored the body, a
  delete that returns has removed the object.
\<close>

locale object_storage =
  fixes api :: "'b object_api"
    and objs :: "'b \<Rightarrow> object_key \<Rightarrow> (byte list \<times> string) option"
  assumes put_other: "oa_put api bk k body ct b = (r, b') \<Longrightarrow> x \<noteq> (bk, k) \<Longrightarrow> objs b' x = objs b x"
    and put_ok: "oa_put api bk k body ct b = (Inr u, b') \<Longrightarrow> objs b' (bk, k) = Some (body, ct)"
    and delete_other: "oa_delete api bk k b = (q, b') \<Longrightarrow> x \<noteq> (bk, k) \<Longrightarrow> objs b' x = objs b x"
    and delete_ok: "oa_delete api bk k b = (Inr u, b') \<Longrightarrow> objs b' (bk, k) = None"
begin

lemma put_delete_absent:
  assumes "oa_put api bk k body ct b = (r, b1)" "oa_delete api bk k b1 = (Inr u, b2)" "objs b (bk, k) = None"
  shows "objs b2 = objs b"
proof
  fix x show "objs b2 x = objs b x"
    using put_other [OF assms(1)] delete_other [OF assms(2)] delete_ok [OF assms(2)] assms(3)
    by (cases "x = (bk, k)") auto
qed

end

section \<open>The in-memory implementation\<close>

record in_memory_fake =
  imf_bodies :: "(object_key \<times> byte list) list"
  imf_meta :: "(object_key \<times> object_metadata) list"

definition imf_put :: "string \<Rightarrow> pystr \<Rightarrow> byte list \<Rightarrow> string \<Rightarrow> (error, in_memory_fake, unit) op" where
  "imf_put bk k body ct = modify (\<lambda>f. f\<lparr>imf_bodies := AList.update (bk, k) body (imf_bodies f),
     imf_meta := AList.update (bk, k) \<lparr>om_bytes = length body, om_content_type = ct\<rparr> (imf_meta f)\<rparr>)"

definition imf_head :: "string \<Rightarrow> pystr \<Rightarrow> (error, in_memory_fake, object_metadata option) op" where
  "imf_head bk k = gets (\<lambda>f. map_of (imf_meta f) (bk, k))"

definition imf_delete :: "string \<Rightarrow> pystr \<Rightarrow> (error, in_memory_fake, unit) op" where
  "imf_delete bk k = modify (\<lambda>f. f\<lparr>imf_bodies := AList.delete (bk, k) (imf_bodies f),
     imf_meta := AList.delete (bk, k) (imf_meta f)\<rparr>)"

definition imf_url :: "string \<Rightarrow> pystr \<Rightarrow> int \<Rightarrow> (error, in_memory_fake, pystr) op" where
  "imf_url bk k expires = ret (lit ''https://fake.local/'' @ lit bk @ lit ''/'' @ k @ lit ''?expires='' @ int_str expires)"

definition imf_all_keys :: "in_memory_fake \<Rightarrow> object_key set" where
  "imf_all_keys f = set (map fst (imf_meta f))"

definition imf_get_body :: "in_memory_fake \<Rightarrow> object_key \<Rightarrow> byte list option" where
  "imf_get_body f x = map_of (imf_bodies f) x"

definition imf_api :: "in_memory_fake object_api" where
  "imf_api = \<lparr>oa_put = imf_put, oa_head = imf_head, oa_delete = imf_delete, oa_url = imf_url\<rparr>"

text \<open>The objects are read off both dictionaries, which every operation keeps in step.\<close>

definition imf_objs :: "in_memory_fake \<Rightarrow> object_key \<Rightarrow> (byte list \<times> string) option" where
  "imf_objs f x = (case (map_of (imf_bodies f) x, map_of (imf_meta f) x) of
     (Some body, Some m) \<Rightarrow> Some (body, om_content_type m) | _ \<Rightarrow> None)"

definition imf_in_step :: "in_memory_fake \<Rightarrow> bool" where
  "imf_in_step f \<longleftrightarrow> (\<forall>x. map_option om_bytes (map_of (imf_meta f) x) = map_option length (map_of (imf_bodies f) x))"

interpretation fake: object_storage imf_api imf_objs
  by unfold_locales
    (auto simp: imf_api_def imf_put_def imf_delete_def modify_def imf_objs_def update_conv delete_conv split: option.splits)

lemma imf_keeps_in_step:
  "keeps imf_in_step (imf_put bk k body ct)" "keeps imf_in_step (imf_delete bk k)"
  by (auto simp: imf_in_step_def imf_put_def imf_delete_def update_conv delete_conv intro!: keeps_intros)

text \<open>\<open>head_object\<close> reports exactly what the last put of the key stored.\<close>

lemma imf_head_reports:
  "imf_in_step f \<Longrightarrow> imf_head bk k f =
     (Inr (map_option (\<lambda>(body, ct). \<lparr>om_bytes = length body, om_content_type = ct\<rparr>) (imf_objs f (bk, k))), f)"
proof -
  assume "imf_in_step f"
  then have "map_option om_bytes (map_of (imf_meta f) (bk, k)) = map_option length (map_of (imf_bodies f) (bk, k))"
    by (simp add: imf_in_step_def)
  then show ?thesis
    by (cases "map_of (imf_meta f) (bk, k)"; cases "map_of (imf_bodies f) (bk, k)")
      (simp_all add: imf_head_def gets_def imf_objs_def)
qed

section \<open>The S3 client\<close>

text \<open>The commands of the S3 client, errors included; \<open>resp\<close> of a head is length and content type.\<close>

record 's s3_client =
  s3_put :: "string \<Rightarrow> pystr \<Rightarrow> byte list \<Rightarrow> string \<Rightarrow> (error, 's, unit) op"
  s3_head :: "string \<Rightarrow> pystr \<Rightarrow> (error, 's, nat \<times> string option) op"
  s3_delete :: "string \<Rightarrow> pystr \<Rightarrow> (error, 's, unit) op"
  s3_presign :: "string \<Rightarrow> pystr \<Rightarrow> int \<Rightarrow> (error, 's, pystr) op"

definition aio_head :: "'s s3_client \<Rightarrow> string \<Rightarrow> pystr \<Rightarrow> (error, 's, object_metadata option) op" where
  "aio_head s3 bk k = (\<lambda>s. case s3_head s3 bk k s of
     (Inl (ServiceE (S3ClientError code)), s') \<Rightarrow>
       (if code \<in> {''404'', ''NoSuchKey'', ''NotFound''} then Inr None else Inl (ServiceE (S3ClientError code)), s')
   | (Inl e, s') \<Rightarrow> (Inl e, s')
   | (Inr (n, ct), s') \<Rightarrow> (Inr (Some \<lparr>om_bytes = n,
         om_content_type = (case ct of None \<Rightarrow> ''application/octet-stream'' | Some t \<Rightarrow> t)\<rparr>), s'))"

definition aio_delete :: "'s s3_client \<Rightarrow> string \<Rightarrow> pystr \<Rightarrow> (error, 's, unit) op" where
  "aio_delete s3 bk k = (\<lambda>s. case s3_delete s3 bk k s of
     (Inl (ServiceE (S3ClientError code)), s') \<Rightarrow>
       (if code \<in> {''404'', ''NoSuchKey''} then Inr () else Inl (ServiceE (S3ClientError code)), s')
   | (r, s') \<Rightarrow> (r, s'))"

definition aio_api :: "'s s3_client \<Rightarrow> 's object_api" where
  "aio_api s3 = \<lparr>oa_put = s3_put s3, oa_head = aio_head s3, oa_delete = aio_delete s3, oa_url = s3_presign s3\<rparr>"

text \<open>The wrapper meets the contract if S3 does, a missing key counting as deleted.\<close>

lemma aio_object_storage:
  assumes "\<And>bk k body ct b r b' x. s3_put s3 bk k body ct b = (r, b') \<Longrightarrow> x \<noteq> (bk, k) \<Longrightarrow> objs b' x = objs b x"
    and "\<And>bk k body ct b u b'. s3_put s3 bk k body ct b = (Inr u, b') \<Longrightarrow> objs b' (bk, k) = Some (body, ct)"
    and "\<And>bk k b r b' x. s3_delete s3 bk k b = (r, b') \<Longrightarrow> x \<noteq> (bk, k) \<Longrightarrow> objs b' x = objs b x"
    and "\<And>bk k b r b'. s3_delete s3 bk k b = (r, b') \<Longrightarrow>
      r = Inr () \<or> r = Inl (ServiceE (S3ClientError ''404'')) \<or> r = Inl (ServiceE (S3ClientError ''NoSuchKey'')) \<Longrightarrow> objs b' (bk, k) = None"
  shows "object_storage (aio_api s3) objs"
proof
  fix bk k b q b' x u
  obtain r s' where d: "s3_delete s3 bk k b = (r, s')" by (cases "s3_delete s3 bk k b")
  have shape: "aio_delete s3 bk k b = (q, b') \<Longrightarrow> b' = s' \<and> (q = Inr u \<longrightarrow>
      r = Inr () \<or> r = Inl (ServiceE (S3ClientError ''404'')) \<or> r = Inl (ServiceE (S3ClientError ''NoSuchKey'')))" for q b' u
    by (auto simp: aio_delete_def d split: sum.splits error.splits service_error.splits if_splits)
  show "oa_delete (aio_api s3) bk k b = (q, b') \<Longrightarrow> x \<noteq> (bk, k) \<Longrightarrow> objs b' x = objs b x"
    using shape assms(3) [OF d] by (simp add: aio_api_def)
  show "oa_delete (aio_api s3) bk k b = (Inr u, b') \<Longrightarrow> objs b' (bk, k) = None"
    using shape assms(4) [OF d] by (simp add: aio_api_def)
qed (use assms(1,2) in \<open>auto simp: aio_api_def\<close>)

end
