(* ===== verification/Doc_Store.thy ===== *)
theory Doc_Store
  imports Database Pg_Types Object_Storage "HOL-Library.Product_Lexorder" "HOL-Library.Sublist"
begin

text \<open>
  The document store (\<open>documents/client.py\<close>, \<open>schemas/filing.py\<close>): filings in Postgres with their blobs in
  object storage. Any statement and any call of the object client may fail or be cancelled; the blobs
  uploaded by a call that does not succeed are deleted.
\<close>

section \<open>The store and its surroundings\<close>

datatype stmt = LockStmt | PriorStmt | PreStmt | UpsertStmt | AttachStmt nat | ReloadStmt | AuditStmt

text \<open>
  The object client, the run and the buckets; SHA-256, the next \<open>uuid4()\<close>, the calendar fields and the
  text of a time stamp; which statements fail and how; and what other transactions commit between the
  look at the row of the same bytes and the upsert.
\<close>

record 'b document_store =
  ds_api :: "'b object_api"
  ds_run_id :: int
  ds_bucket_for :: "(string \<times> string) list"
  ds_sha :: "byte list \<Rightarrow> pystr"
  ds_uuid :: uuid
  ds_ymd :: "datetime \<Rightarrow> nat \<times> nat \<times> nat"
  ds_iso :: "int \<Rightarrow> pystr"
  ds_fault :: "stmt \<Rightarrow> error option"
  ds_env :: "db \<Rightarrow> db"

record attachment_in =
  ai_bytes :: "byte list"
  ai_mime :: string
  ai_filename :: pystr
  ai_role :: string
  ai_sequence :: int

record filing_args =
  pa_source_id :: string
  pa_ref :: pystr
  pa_entity_id :: "uuid option"
  pa_kind :: string
  pa_title :: pystr
  pa_published_at :: datetime
  pa_bytes :: "byte list"
  pa_mime :: string
  pa_filename :: pystr
  pa_attachments :: "attachment_in list"
  pa_period_start :: "int option"
  pa_period_end :: "int option"
  pa_subkind :: "string option"
  pa_source_url :: "string option"
  pa_is_amendment :: bool
  pa_previous_id :: "uuid option"
  pa_has_xbrl :: bool
  pa_xbrl_bytes :: "byte list option"
  pa_xbrl_filename :: "pystr option"
  pa_language :: string
  pa_metadata :: "(pystr \<times> json) list option"

record put_filing_result =
  pr_filing :: filing
  pr_created :: bool
  pr_is_revision :: bool
  pr_revision_no :: int
  pr_bucket :: string
  pr_object_keys :: "pystr list"

text \<open>The database, the object store, and the manifest \<open>_uploaded_keys\<close> of the running call.\<close>

record 'b doc_world =
  dw_db :: db
  dw_obj :: 'b
  dw_up :: "pystr list"

definition ondb :: "(error, db, 'a) op \<Rightarrow> (error, 'b doc_world, 'a) op" where
  "ondb m = (\<lambda>w. case m (dw_db w) of (r, d) \<Rightarrow> (r, w\<lparr>dw_db := d\<rparr>))"

definition onobj :: "(error, 'b, 'a) op \<Rightarrow> (error, 'b doc_world, 'a) op" where
  "onobj m = (\<lambda>w. case m (dw_obj w) of (r, b) \<Rightarrow> (r, w\<lparr>dw_obj := b\<rparr>))"

definition db_stmt :: "'b document_store \<Rightarrow> stmt \<Rightarrow> (error, db, 'a) op \<Rightarrow> (error, 'b doc_world, 'a) op" where
  "db_stmt S k m = (case ds_fault S k of Some e \<Rightarrow> raise e | None \<Rightarrow> ondb m)"

definition DEFAULT_BUCKETS :: "(string \<times> string) list" where
  "DEFAULT_BUCKETS = [(''kap'', ''aslan-filings''), (''tefas'', ''aslan-prospectuses''), (''news'', ''aslan-news''),
     (''manual'', ''aslan-filings'')]"

definition bucket_of :: "'b document_store \<Rightarrow> string \<Rightarrow> string" where
  "bucket_of S src = (case map_of (if ds_bucket_for S = [] then DEFAULT_BUCKETS else ds_bucket_for S) src of
     None \<Rightarrow> ''aslan-filings'' | Some b \<Rightarrow> b)"

section \<open>Reads\<close>

text \<open>The validators of the \<open>Filing\<close> model; time stamps read from the database carry an offset.\<close>

definition row_to_filing :: "filing \<Rightarrow> error + filing" where
  "row_to_filing r = (if length (fl_language r) = 2 \<and> length (fl_sha256 r) = 64 then Inr r else Inl (PyE ValueError))"

definition get_filing :: "uuid \<Rightarrow> (error, db, filing) op" where
  "get_filing fid = bnd (gets (\<lambda>d. sql_find (\<lambda>r. fl_id r = fid) (filings d))) (\<lambda>row. case row of
     None \<Rightarrow> raise (DocumentE DocumentNotFound) | Some r \<Rightarrow> lift (row_to_filing r))"

definition republished :: "filing \<Rightarrow> json option" where
  "republished r = map_of (fl_metadata r) (lit ''republished_as'')"

text \<open>\<open>metadata->'republished_as' @> to_jsonb(ref)\<close>: a member of the array, or the string itself.\<close>

definition alias_matches :: "pystr \<Rightarrow> filing \<Rightarrow> bool" where
  "alias_matches ref r = (case republished r of
     Some (JArr xs) \<Rightarrow> JStr ref \<in> set xs | Some (JStr s) \<Rightarrow> s = ref | _ \<Rightarrow> False)"

definition first_row :: "filing list \<Rightarrow> (error, db, filing option) op" where
  "first_row rows = (case rows of [] \<Rightarrow> ret None | r # _ \<Rightarrow> bnd (lift (row_to_filing r)) (\<lambda>f. ret (Some f)))"

definition find_by_source_ref :: "string \<Rightarrow> pystr \<Rightarrow> (error, db, filing option) op" where
  "find_by_source_ref src ref = (\<lambda>d. first_row
     (sort_key (\<lambda>r. (fl_ref r \<noteq> ref, - fl_revision_no r))
       (filter (\<lambda>r. fl_source_id r = src \<and> (fl_ref r = ref \<or> alias_matches ref r)) (filings d))) d)"

definition find_canonical_by_ref :: "string \<Rightarrow> pystr \<Rightarrow> (error, db, filing option) op" where
  "find_canonical_by_ref src ref = (\<lambda>d. first_row
     (sort_key (\<lambda>r. - fl_revision_no r) (filter (\<lambda>r. fl_source_id r = src \<and> fl_ref r = ref) (filings d))) d)"

definition amendment_chain :: "uuid \<Rightarrow> (error, db, filing list) op" where
  "amendment_chain fid = (\<lambda>d. case sql_find (\<lambda>r. fl_id r = fid) (filings d) of
     None \<Rightarrow> (Inl (DocumentE DocumentNotFound), d)
   | Some m \<Rightarrow> collect (\<lambda>r. lift (row_to_filing r)) (sort_key fl_revision_no
       (filter (\<lambda>r. fl_source_id r = fl_source_id m \<and> fl_ref r = fl_ref m) (filings d))) d)"

section \<open>Object keys\<close>

text \<open>Zero-padded numbers; a sign counts towards the width.\<close>

definition zpad :: "nat \<Rightarrow> nat \<Rightarrow> pystr" where
  "zpad w n = replicate (w - length (nat_str n)) 48 @ nat_str n"

definition zpad_int :: "nat \<Rightarrow> int \<Rightarrow> pystr" where
  "zpad_int w i = (if i < 0 then 45 # zpad (w - 1) (nat (- i)) else zpad w (nat i))"

definition key_prefix :: "'b document_store \<Rightarrow> filing_args \<Rightarrow> uuid \<Rightarrow> pystr" where
  "key_prefix S a fid = (case ds_ymd S (pa_published_at a) of (y, mo, dd) \<Rightarrow>
     lit (pa_source_id a) @ lit ''/'' @ (case pa_entity_id a of None \<Rightarrow> lit ''_unresolved'' | Some u \<Rightarrow> uuid_str u) @ lit ''/'' @
     zpad 4 y @ lit ''/'' @ zpad 2 mo @ lit ''/'' @ zpad 2 dd @ lit ''/'' @ uuid_str fid @ lit ''/'')"

definition format_object_key :: "'b document_store \<Rightarrow> filing_args \<Rightarrow> uuid \<Rightarrow> pystr \<Rightarrow> pystr \<Rightarrow> pystr" where
  "format_object_key S a fid role filename = key_prefix S a fid @ role @ lit ''/'' @ filename"

definition attachment_key :: "'b document_store \<Rightarrow> filing_args \<Rightarrow> uuid \<Rightarrow> attachment_in \<Rightarrow> pystr" where
  "attachment_key S a fid t = format_object_key S a fid (lit ''attachments/'' @ zpad_int 3 (ai_sequence t)) (ai_filename t)"

section \<open>Blobs of a call\<close>

definition track :: "pystr \<Rightarrow> (error, 'b doc_world, unit) op" where
  "track k = modify (\<lambda>w. w\<lparr>dw_up := dw_up w @ [k]\<rparr>)"

text \<open>\<open>except Exception\<close> around a best-effort delete: a cancellation goes through.\<close>

definition delete_quiet :: "'b document_store \<Rightarrow> string \<Rightarrow> pystr \<Rightarrow> (error, 'b doc_world, unit) op" where
  "delete_quiet S bk k = (\<lambda>w. case onobj (oa_delete (ds_api S) bk k) w of
     (Inl CancelledError, w') \<Rightarrow> (Inl CancelledError, w')
   | (_, w') \<Rightarrow> (Inr (), w'))"

definition upload :: "'b document_store \<Rightarrow> string \<Rightarrow> pystr \<Rightarrow> byte list \<Rightarrow> string \<Rightarrow> (error, 'b doc_world, unit) op" where
  "upload S bk k body ct = thn (track k) (onobj (oa_put (ds_api S) bk k body ct))"

definition upload_primary :: "'b document_store \<Rightarrow> filing_args \<Rightarrow> pystr \<Rightarrow> (error, 'b doc_world, unit) op" where
  "upload_primary S a k = (\<lambda>w. case upload S (bucket_of S (pa_source_id a)) k (pa_bytes a) (pa_mime a) w of
     (Inl e, w') \<Rightarrow> (Inl (if e = CancelledError then e else DocumentE ObjectStoreError), w')
   | r \<Rightarrow> r)"

definition upload_xbrl :: "'b document_store \<Rightarrow> filing_args \<Rightarrow> (error, 'b doc_world, pystr option) op" where
  "upload_xbrl S a = (case (pa_has_xbrl a, pa_xbrl_bytes a, pa_xbrl_filename a) of
     (True, Some body, Some name) \<Rightarrow>
       (let k = format_object_key S a (ds_uuid S) (lit ''xbrl'') name
        in thn (upload S (bucket_of S (pa_source_id a)) k body ''application/xml'') (ret (Some k)))
   | _ \<Rightarrow> ret None)"

text \<open>The blobs of a call whose bytes are stored already.\<close>

definition drop_blob :: "'b document_store \<Rightarrow> string \<Rightarrow> pystr \<Rightarrow> (error, 'b doc_world, unit) op" where
  "drop_blob S bk k = thn (delete_quiet S bk k) (modify (\<lambda>w. w\<lparr>dw_up := remove1 k (dw_up w)\<rparr>))"

definition drop_blobs :: "'b document_store \<Rightarrow> string \<Rightarrow> (error, 'b doc_world, unit) op" where
  "drop_blobs S bk = (\<lambda>w. for_each (drop_blob S bk) (dw_up w) w)"

section \<open>Statements\<close>

definition next_rev :: "string \<Rightarrow> pystr \<Rightarrow> db \<Rightarrow> int" where
  "next_rev src ref d = (let rs = map fl_revision_no (filter (\<lambda>r. fl_source_id r = src \<and> fl_ref r = ref) (filings d))
     in (if rs = [] then 0 else Max (set rs)) + 1)"

definition new_filing :: "'b document_store \<Rightarrow> ctx \<Rightarrow> filing_args \<Rightarrow> pystr \<Rightarrow> pystr option \<Rightarrow> bool \<Rightarrow> uuid option \<Rightarrow>
  string \<Rightarrow> int \<Rightarrow> filing" where
  "new_filing S c a k xk amend prev lang rno =
     \<lparr>fl_id = ds_uuid S, fl_source_id = pa_source_id a, fl_ref = pa_ref a, fl_entity_id = pa_entity_id a, fl_kind = pa_kind a,
      fl_subkind = pa_subkind a, fl_title = pa_title a, fl_language = lang, fl_published_at = instant (pa_published_at a),
      fl_period_start = pa_period_start a, fl_period_end = pa_period_end a, fl_source_url = pa_source_url a,
      fl_is_amendment = amend, fl_previous_id = prev, fl_object_key = k, fl_mime = pa_mime a, fl_sha256 = ds_sha S (pa_bytes a),
      fl_bytes = int (length (pa_bytes a)), fl_has_xbrl = pa_has_xbrl a, fl_xbrl_key = xk,
      fl_metadata = (case pa_metadata a of None \<Rightarrow> [] | Some m \<Rightarrow> m), fl_run_id = ds_run_id S, fl_discovered_at = ctx_now c,
      fl_revision_no = rno, fl_audit = audit_cols_of (ctx_actor c)\<rparr>"

definition same_bytes :: "string \<Rightarrow> pystr \<Rightarrow> filing \<Rightarrow> bool" where
  "same_bytes src sha r \<longleftrightarrow> fl_source_id r = src \<and> fl_sha256 r = sha"

text \<open>\<open>COALESCE(metadata->'republished_as', '[]') @> to_jsonb(ARRAY[ref])\<close> and the concatenation with \<open>||\<close>.\<close>

definition aliased :: "pystr \<Rightarrow> filing \<Rightarrow> bool" where
  "aliased ref r = (case republished r of Some (JArr xs) \<Rightarrow> JStr ref \<in> set xs | _ \<Rightarrow> False)"

definition with_alias :: "pystr \<Rightarrow> filing \<Rightarrow> json" where
  "with_alias ref r = JArr ((case republished r of None \<Rightarrow> [] | Some (JArr xs) \<Rightarrow> xs | Some v \<Rightarrow> [v]) @ [JStr ref])"

definition merge_filing :: "ctx \<Rightarrow> pystr \<Rightarrow> filing \<Rightarrow> filing" where
  "merge_filing c ref r =
     (if fl_ref r = ref \<or> aliased ref r then r
      else r\<lparr>fl_metadata := obj_set (lit ''republished_as'') (with_alias ref r) (fl_metadata r),
             fl_audit := audit_cols_of (ctx_actor c)\<rparr>)"

definition filing_fks :: "filing \<Rightarrow> db \<Rightarrow> bool" where
  "filing_fks r d \<longleftrightarrow> fl_source_id r \<in> set (sources d) \<and> fl_run_id r \<in> run_id ` set (runs d) \<and>
     (case fl_entity_id r of None \<Rightarrow> True | Some u \<Rightarrow> u \<in> en_id ` set (entities d)) \<and>
     (case fl_previous_id r of None \<Rightarrow> True | Some u \<Rightarrow> u \<in> insert (fl_id r) (fl_id ` set (filings d)))"

definition filing_uniques :: "filing \<Rightarrow> db \<Rightarrow> bool" where
  "filing_uniques r d \<longleftrightarrow> (\<forall>x \<in> set (filings d). fl_id x \<noteq> fl_id r \<and>
     (fl_source_id x, fl_ref x, fl_revision_no x) \<noteq> (fl_source_id r, fl_ref r, fl_revision_no r))"

text \<open>\<open>INSERT ... ON CONFLICT (source_id, primary_sha256) DO UPDATE\<close>: id, revision and whether it was inserted.\<close>

definition upsert_filing :: "'b document_store \<Rightarrow> ctx \<Rightarrow> filing_args \<Rightarrow> pystr \<Rightarrow> pystr option \<Rightarrow> bool \<Rightarrow> uuid option \<Rightarrow>
  (error, db, uuid \<times> int \<times> bool) op" where
  "upsert_filing S c a k xk amend prev = (\<lambda>d. case char2 (pa_language a) of
     None \<Rightarrow> (Inl (ServiceE SQLAlchemyError), d)
   | Some lang \<Rightarrow>
       let r = new_filing S c a k xk amend prev lang (next_rev (pa_source_id a) (pa_ref a) d) in
       (case sql_find (same_bytes (pa_source_id a) (fl_sha256 r)) (filings d) of
          Some x \<Rightarrow> (Inr (fl_id x, fl_revision_no x, False),
             d\<lparr>filings := sql_update (same_bytes (pa_source_id a) (fl_sha256 r)) (merge_filing c (pa_ref a)) (filings d)\<rparr>)
        | None \<Rightarrow>
            if \<not> filing_fks r d \<or> \<not> filing_uniques r d then (Inl (ServiceE IntegrityError), d)
            else (Inr (fl_id r, fl_revision_no r, True), d\<lparr>filings := filings d @ [r]\<rparr>)))"

definition fa_pk :: "filing_attachment \<Rightarrow> uuid \<times> pystr" where
  "fa_pk r = (fa_filing_id r, fa_sha256 r)"

definition attachment_row :: "'b document_store \<Rightarrow> ctx \<Rightarrow> filing_args \<Rightarrow> uuid \<Rightarrow> attachment_in \<Rightarrow> filing_attachment" where
  "attachment_row S c a fid t = \<lparr>fa_filing_id = fid, fa_object_key = attachment_key S a fid t, fa_mime = ai_mime t,
     fa_sha256 = ds_sha S (ai_bytes t), fa_bytes = int (length (ai_bytes t)), fa_role = ai_role t, fa_sequence = ai_sequence t,
     fa_created_at = ctx_now c\<rparr>"

definition insert_attachment :: "filing_attachment \<Rightarrow> (error, db, unit) op" where
  "insert_attachment r = (\<lambda>d.
     if fa_filing_id r \<notin> fl_id ` set (filings d) then (Inl (ServiceE IntegrityError), d)
     else (Inr (), d\<lparr>attachments := sql_insert_dn fa_pk r (attachments d)\<rparr>))"

definition persist_attachments :: "'b document_store \<Rightarrow> ctx \<Rightarrow> filing_args \<Rightarrow> uuid \<Rightarrow> (error, 'b doc_world, unit) op" where
  "persist_attachments S c a fid = for_each (\<lambda>(i, t).
     thn (upload S (bucket_of S (pa_source_id a)) (attachment_key S a fid t) (ai_bytes t) (ai_mime t))
         (db_stmt S (AttachStmt i) (insert_attachment (attachment_row S c a fid t)))) (enumerate 0 (pa_attachments a))"

section \<open>Audit\<close>

definition filing_audit_payload :: "'b document_store \<Rightarrow> filing \<Rightarrow> (string \<times> json) list" where
  "filing_audit_payload S f =
     [(''filing_id'', JStr (uuid_str (fl_id f))), (''source_id'', jlit (fl_source_id f)), (''source_filing_ref'', JStr (fl_ref f)),
      (''entity_id'', jopt (\<lambda>u. JStr (uuid_str u)) (fl_entity_id f)), (''kind'', jlit (fl_kind f)),
      (''subkind'', jopt jlit (fl_subkind f)), (''title'', JStr (fl_title f)), (''language'', jlit (fl_language f)),
      (''published_at'', JStr (ds_iso S (fl_published_at f))), (''primary_object_key'', JStr (fl_object_key f)),
      (''primary_mime'', jlit (fl_mime f)), (''primary_sha256'', JStr (fl_sha256 f)), (''primary_size_bytes'', JInt (fl_bytes f)),
      (''has_xbrl'', JBool (fl_has_xbrl f)), (''xbrl_object_key'', jopt JStr (fl_xbrl_key f)),
      (''metadata'', JObj (fl_metadata f)), (''revision_no'', JInt (fl_revision_no f)),
      (''is_amendment'', JBool (fl_is_amendment f)), (''previous_filing_id'', jopt (\<lambda>u. JStr (uuid_str u)) (fl_previous_id f))]"

definition attachments_json :: "attachment_in list \<Rightarrow> json" where
  "attachments_json ts = JArr (map (\<lambda>t. jobj [(''sequence'', JInt (ai_sequence t)), (''filename'', JStr (ai_filename t)),
     (''bytes'', JInt (int (length (ai_bytes t))))]) ts)"

text \<open>\<open>ref in pre_metadata.get("republished_as", [])\<close>, as Python reads it off whatever stands there.\<close>

definition py_aliased :: "pystr \<Rightarrow> filing \<Rightarrow> error + bool" where
  "py_aliased ref r = (case republished r of
     None \<Rightarrow> Inr False
   | Some (JArr xs) \<Rightarrow> Inr (JStr ref \<in> set xs)
   | Some (JStr s) \<Rightarrow> Inr (sublist ref s)
   | Some (JObj kvs) \<Rightarrow> Inr (ref \<in> fst ` set kvs)
   | Some _ \<Rightarrow> Inl (PyE TypeError))"

definition before_json :: "filing \<Rightarrow> json" where
  "before_json p = jobj [(''filing_id'', JStr (uuid_str (fl_id p))), (''source_filing_ref'', JStr (fl_ref p)),
     (''metadata'', JObj (fl_metadata p)), (''actor_id'', jopt jlit (ac_actor_id (fl_audit p))),
     (''actor_kind'', jopt (\<lambda>k. jlit (kind_str k)) (ac_actor_kind (fl_audit p)))]"

definition put_operation :: "pystr \<Rightarrow> bool \<Rightarrow> filing option \<Rightarrow> error + string \<times> json option" where
  "put_operation ref created pre =
     (if created then Inr (''filing.put'', None)
      else case pre of
        None \<Rightarrow> Inl (PyE AssertionError)
      | Some p \<Rightarrow>
          if fl_ref p = ref then Inr (''filing.dedup_hit'', Some (before_json p))
          else (case py_aliased ref p of
              Inl e \<Rightarrow> Inl e
            | Inr True \<Rightarrow> Inr (''filing.idempotent_hit'', Some (before_json p))
            | Inr False \<Rightarrow> Inr (''filing.republished_alias_added'', Some (before_json p))))"

definition put_event :: "'b document_store \<Rightarrow> filing_args \<Rightarrow> string \<Rightarrow> json option \<Rightarrow> filing \<Rightarrow> uuid \<Rightarrow> int \<Rightarrow> bool \<Rightarrow> audit_record" where
  "put_event S a opn before f fid rno created =
     \<lparr>ar_operation = opn, ar_target_schema = ''doc'', ar_target_table = ''filing'',
      ar_target_pk = jobj [(''filing_id'', JStr (uuid_str fid))], ar_before = before,
      ar_after = Some (jobj (filing_audit_payload S f @ [(''attachments'', attachments_json (pa_attachments a))])),
      ar_metadata = jobj [(''revision_no'', JInt rno), (''primary_sha256'', JStr (ds_sha S (pa_bytes a))),
        (''primary_size_bytes'', JInt (int (length (pa_bytes a)))), (''returned_existing'', JBool (\<not> created))],
      ar_ingestion_run_id = Some (ds_run_id S)\<rparr>"

section \<open>put_filing\<close>

fun check_attachments :: "(byte list \<Rightarrow> pystr) \<Rightarrow> (int \<times> pystr) list \<Rightarrow> pystr list \<Rightarrow> attachment_in list \<Rightarrow> error + unit" where
  "check_attachments sha pairs hashes [] = Inr ()"
| "check_attachments sha pairs hashes (t # ts) =
     (if (ai_sequence t, ai_filename t) \<in> set pairs then Inl (PyE ValueError)
      else if sha (ai_bytes t) \<in> set hashes then Inl (PyE ValueError)
      else check_attachments sha ((ai_sequence t, ai_filename t) # pairs) (sha (ai_bytes t) # hashes) ts)"

definition check_xbrl :: "filing_args \<Rightarrow> error + unit" where
  "check_xbrl a =
     (if pa_has_xbrl a \<and> (pa_xbrl_bytes a = None \<or> pa_xbrl_filename a = None) then Inl (PyE ValueError)
      else if (pa_xbrl_bytes a \<noteq> None \<or> pa_xbrl_filename a \<noteq> None) \<and> \<not> pa_has_xbrl a then Inl (PyE ValueError)
      else Inr ())"

text \<open>The chain fields the caller left at their defaults are filled from the latest revision of the reference.\<close>

definition chain_fields :: "pystr \<Rightarrow> filing_args \<Rightarrow> filing option \<Rightarrow> bool \<times> uuid option" where
  "chain_fields sha a prior = (case prior of
     None \<Rightarrow> (pa_is_amendment a, pa_previous_id a)
   | Some p \<Rightarrow>
       if fl_sha256 p = sha then (pa_is_amendment a, pa_previous_id a)
       else (True, case pa_previous_id a of None \<Rightarrow> Some (fl_id p) | Some u \<Rightarrow> Some u))"

definition put_steps :: "'b document_store \<Rightarrow> ctx \<Rightarrow> filing_args \<Rightarrow> (error, 'b doc_world, put_filing_result) op" where
  "put_steps S c a =
     (let bucket = bucket_of S (pa_source_id a); sha = ds_sha S (pa_bytes a);
          pkey = format_object_key S a (ds_uuid S) (lit ''primary'') (pa_filename a) in
      thn (upload_primary S a pkey)
     (thn (db_stmt S LockStmt (ret ()))
     (bnd (db_stmt S PriorStmt (find_canonical_by_ref (pa_source_id a) (pa_ref a))) (\<lambda>prior.
      bnd (upload_xbrl S a) (\<lambda>xkey.
      bnd (db_stmt S PreStmt (gets (\<lambda>d. sql_find (same_bytes (pa_source_id a) sha) (filings d)))) (\<lambda>pre.
      thn (ondb (modify (ds_env S)))
     (bnd (db_stmt S UpsertStmt (upsert_filing S c a pkey xkey (fst (chain_fields sha a prior)) (snd (chain_fields sha a prior))))
        (\<lambda>(fid, rno, created).
      thn (if created then ret () else drop_blobs S bucket)
     (thn (if created then persist_attachments S c a fid else ret ())
     (bnd (db_stmt S ReloadStmt (get_filing fid)) (\<lambda>f.
      bnd (lift (put_operation (pa_ref a) created pre)) (\<lambda>(opn, before).
      thn (db_stmt S AuditStmt (audit c (put_event S a opn before f fid rno created)))
     (bnd (gets dw_up) (\<lambda>up.
      ret \<lparr>pr_filing = f, pr_created = created, pr_is_revision = (created \<and> 1 < rno), pr_revision_no = rno,
           pr_bucket = bucket, pr_object_keys = up\<rparr>))))))))))))))"

definition typed_error :: "error \<Rightarrow> error" where
  "typed_error e = (if e = CancelledError \<or> e = DocumentE ObjectStoreError then e else DocumentE DocumentDBError)"

definition put_filing :: "'b document_store \<Rightarrow> ctx \<Rightarrow> filing_args \<Rightarrow> (error, 'b doc_world, put_filing_result) op" where
  "put_filing S c a =
     thn (assert_actor_or_strict_raise c)
     (thn (lift (check_xbrl a))
     (thn (lift (check_attachments (ds_sha S) [] [] (pa_attachments a)))
     (thn (modify (\<lambda>w. w\<lparr>dw_up := []\<rparr>))
     (\<lambda>w. case put_steps S c a w of
        (Inl e, w') \<Rightarrow> thn (for_each (delete_quiet S (bucket_of S (pa_source_id a))) (dw_up w')) (raise (typed_error e)) w'
      | r \<Rightarrow> r))))"

section \<open>release and attach_extracted_text\<close>

definition release_event :: "'b document_store \<Rightarrow> put_filing_result \<Rightarrow> audit_record" where
  "release_event S r =
     \<lparr>ar_operation = ''filing.release'', ar_target_schema = ''doc'', ar_target_table = ''filing'',
      ar_target_pk = jobj [(''filing_id'', JStr (uuid_str (fl_id (pr_filing r))))],
      ar_before = Some (jobj [(''filing_id'', JStr (uuid_str (fl_id (pr_filing r)))), (''bucket'', jlit (pr_bucket r)),
        (''object_keys'', JArr (map JStr (pr_object_keys r))), (''primary_sha256'', JStr (fl_sha256 (pr_filing r)))]),
      ar_after = None, ar_metadata = jobj [(''key_count'', JInt (int (length (pr_object_keys r))))],
      ar_ingestion_run_id = Some (ds_run_id S)\<rparr>"

definition release :: "'b document_store \<Rightarrow> ctx \<Rightarrow> put_filing_result \<Rightarrow> (error, 'b doc_world, unit) op" where
  "release S c r =
     thn (assert_actor_or_strict_raise c)
     (thn (db_stmt S AuditStmt (audit c (release_event S r)))
          (for_each (delete_quiet S (pr_bucket r)) (pr_object_keys r)))"

definition attach_extracted_text :: "'b document_store \<Rightarrow> ctx \<Rightarrow> uuid \<Rightarrow> pystr \<Rightarrow> string \<Rightarrow> (error, 'b doc_world, unit) op" where
  "attach_extracted_text S c fid body lang =
     thn (assert_actor_or_strict_raise c)
     (bnd (db_stmt S UpsertStmt (\<lambda>d. case char2 lang of
         None \<Rightarrow> (Inl (ServiceE SQLAlchemyError), d)
       | Some l \<Rightarrow>
           if fid \<notin> fl_id ` set (filings d) then (Inl (ServiceE IntegrityError), d)
           else (Inr (fid \<notin> fb_filing_id ` set (bodies d)),
                 d\<lparr>bodies := sql_upsert fb_filing_id
                     \<lparr>fb_filing_id = fid, fb_text = body, fb_lang = l, fb_extracted_at = ctx_now c,
                      fb_audit = audit_cols_of (ctx_actor c)\<rparr> (bodies d)\<rparr>)))
      (\<lambda>created. db_stmt S AuditStmt (audit c
         \<lparr>ar_operation = (if created then ''filing_body.create'' else ''filing_body.update''), ar_target_schema = ''doc'',
          ar_target_table = ''filing_body'', ar_target_pk = jobj [(''filing_id'', JStr (uuid_str fid))], ar_before = None,
          ar_after = Some (jobj [(''filing_id'', JStr (uuid_str fid)), (''body_lang'', jlit lang),
            (''body_size_chars'', JInt (int (length body)))]),
          ar_metadata = jobj [(''returned_existing'', JBool False)], ar_ingestion_run_id = Some (ds_run_id S)\<rparr>)))"

end
