(* ===== verification/Doc_Blobs.thy ===== *)
theory Doc_Blobs
  imports Doc_Store
begin

text \<open>
  Filings and their blobs: the object keys of a call are distinct, a call that fails leaves the object
  store as it was, a call that succeeds leaves exactly the blobs its rows point to, and releasing its
  manifest undoes it.
\<close>

section \<open>Object keys\<close>

lemma zpad_value: "foldl (\<lambda>a c. a * 10 + (c - 48)) 0 (zpad w n) = n"
proof -
  have "foldl (\<lambda>a c. a * 10 + (c - 48)) 0 (replicate k (48 :: nat)) = (0 :: nat)" for k by (induction k) auto
  then show ?thesis by (simp add: zpad_def foldl_nat_str)
qed

lemma zpad_digits: "c \<in> set (zpad w n) \<Longrightarrow> is_digit c"
  using nat_str_digits by (auto simp: zpad_def is_digit_def split: if_splits)

lemma zpad_nonempty [simp]: "zpad w n \<noteq> []"
  by (simp add: zpad_def)

lemma zpad_inj: "zpad w m = zpad w n \<Longrightarrow> m = n"
  by (metis zpad_value)

lemma zpad_int_inj: "zpad_int w i = zpad_int w j \<Longrightarrow> i = j"
proof -
  assume eq: "zpad_int w i = zpad_int w j"
  have no_sign: "zpad v n \<noteq> 45 # s" for v n s
  proof
    assume "zpad v n = 45 # s"
    then have "is_digit 45" using zpad_digits [of 45 v n] by simp
    then show False by (simp add: is_digit_def)
  qed
  show "i = j"
  proof (cases "i < 0"; cases "j < 0")
    assume "i < 0" "j < 0"
    with eq zpad_inj [of "w - 1" "nat (- i)" "nat (- j)"] show ?thesis by (simp add: zpad_int_def)
  next
    assume "\<not> i < 0" "\<not> j < 0"
    with eq zpad_inj [of w "nat i" "nat j"] show ?thesis by (simp add: zpad_int_def)
  qed (use eq no_sign no_sign [symmetric] in \<open>auto simp: zpad_int_def\<close>)
qed

lemma zpad_int_no_slash: "47 \<notin> set (zpad_int w i)"
  by (auto simp: zpad_int_def is_digit_def dest: zpad_digits)

lemma append_sep_inj:
  "c \<notin> set xs \<Longrightarrow> c \<notin> set ys \<Longrightarrow> xs @ c # u = ys @ c # v \<Longrightarrow> xs = ys \<and> u = v"
proof (induction xs arbitrary: ys)
  case Nil
  then show ?case by (cases ys) auto
next
  case (Cons x xs)
  then show ?case by (cases ys) auto
qed

text \<open>The blobs of a call, in the order of their upload.\<close>

definition xbrl_blobs :: "'b document_store \<Rightarrow> filing_args \<Rightarrow> (pystr \<times> byte list \<times> string) list" where
  "xbrl_blobs S a = (case (pa_has_xbrl a, pa_xbrl_bytes a, pa_xbrl_filename a) of
     (True, Some body, Some name) \<Rightarrow> [(format_object_key S a (ds_uuid S) (lit ''xbrl'') name, body, ''application/xml'')] | _ \<Rightarrow> [])"

definition attachment_blobs :: "'b document_store \<Rightarrow> filing_args \<Rightarrow> (pystr \<times> byte list \<times> string) list" where
  "attachment_blobs S a = map (\<lambda>t. (attachment_key S a (ds_uuid S) t, ai_bytes t, ai_mime t)) (pa_attachments a)"

definition call_blobs :: "'b document_store \<Rightarrow> filing_args \<Rightarrow> (pystr \<times> byte list \<times> string) list" where
  "call_blobs S a = (format_object_key S a (ds_uuid S) (lit ''primary'') (pa_filename a), pa_bytes a, pa_mime a) #
     xbrl_blobs S a @ attachment_blobs S a"

abbreviation call_keys :: "'b document_store \<Rightarrow> filing_args \<Rightarrow> pystr list" where
  "call_keys S a \<equiv> map fst (call_blobs S a)"

lemma attachment_key_inj:
  "attachment_key S a fid t = attachment_key S a fid u \<Longrightarrow> ai_sequence t = ai_sequence u \<and> ai_filename t = ai_filename u"
  using append_sep_inj [OF zpad_int_no_slash zpad_int_no_slash] zpad_int_inj
  by (simp add: attachment_key_def format_object_key_def) blast

lemma check_attachments_distinct:
  "check_attachments sha ps hs ts = Inr u \<Longrightarrow>
   distinct (map (\<lambda>t. (ai_sequence t, ai_filename t)) ts) \<and> set (map (\<lambda>t. (ai_sequence t, ai_filename t)) ts) \<inter> set ps = {} \<and>
   distinct (map (\<lambda>t. sha (ai_bytes t)) ts) \<and> set (map (\<lambda>t. sha (ai_bytes t)) ts) \<inter> set hs = {}"
  by (induction sha ps hs ts rule: check_attachments.induct) (auto split: if_splits)

lemma call_keys_distinct:
  assumes "check_attachments (ds_sha S) [] [] (pa_attachments a) = Inr u"
  shows "distinct (call_keys S a)"
proof -
  let ?pair = "\<lambda>t. (ai_sequence t, ai_filename t)"
  have "inj_on ?pair (set (pa_attachments a))" "distinct (pa_attachments a)"
    using check_attachments_distinct [OF assms] by (simp_all add: distinct_map)
  moreover have "?pair t = ?pair u" if "attachment_key S a (ds_uuid S) t = attachment_key S a (ds_uuid S) u" for t u
    using attachment_key_inj [OF that] by simp
  ultimately have "distinct (map (attachment_key S a (ds_uuid S)) (pa_attachments a))"
    unfolding distinct_map by (meson inj_on_def)
  then have "distinct (map fst (attachment_blobs S a))" by (simp add: attachment_blobs_def comp_def)
  moreover have "distinct (map fst (xbrl_blobs S a))" by (simp add: xbrl_blobs_def split: bool.splits option.splits)
  ultimately show ?thesis
    by (auto simp: call_blobs_def xbrl_blobs_def attachment_blobs_def attachment_key_def format_object_key_def
        split: bool.splits option.splits)
qed

section \<open>A failed call leaves the object store as it was\<close>

lemma keeps_bnd_result:
  assumes "keeps P m" and "\<And>x s s'. m s = (Inr x, s') \<Longrightarrow> keeps P (f x)"
  shows "keeps P (bnd m f)"
proof (rule keepsI)
  fix s assume "P s"
  obtain r s' where m: "m s = (r, s')" by (cases "m s")
  have "P s'" by (rule keepsD [OF assms(1) m \<open>P s\<close>])
  then show "P (snd (bnd m f s))"
    using assms(2) [of s _ s'] by (cases r) (auto simp: bnd_def m keeps_def)
qed

lemma upsert_created_id: "upsert_filing S c a k xk am pv d = (Inr (fid, rno, True), d') \<Longrightarrow> fid = ds_uuid S"
  by (auto simp: upsert_filing_def Let_def new_filing_def split: option.splits if_splits)

lemma put_filing_eval:
  "put_filing S c a w =
     (if ctx_strict c \<and> ctx_actor c = None then (Inl (AuditE AuditMissingActor), w)
      else case check_xbrl a of Inl e \<Rightarrow> (Inl e, w) | Inr _ \<Rightarrow>
        (case check_attachments (ds_sha S) [] [] (pa_attachments a) of Inl e \<Rightarrow> (Inl e, w) | Inr _ \<Rightarrow>
          (case put_steps S c a (w\<lparr>dw_up := []\<rparr>) of
             (Inl e, w') \<Rightarrow> thn (for_each (delete_quiet S (bucket_of S (pa_source_id a))) (dw_up w')) (raise (typed_error e)) w'
           | r \<Rightarrow> r)))"
  by (cases "check_xbrl a"; cases "check_attachments (ds_sha S) [] [] (pa_attachments a)")
    (simp_all add: put_filing_def assert_actor_or_strict_raise_def thn_def bnd_def lift_def raise_def ret_def modify_def)

context object_storage
begin

text \<open>Outside the tracked keys and \<open>K\<close> the store is what it was; only keys of the call are tracked. With
  deletes that succeed \<open>K\<close> is empty; otherwise it is the set of the keys of the call.\<close>

definition blob_inv :: "string \<Rightarrow> 'b \<Rightarrow> pystr set \<Rightarrow> pystr set \<Rightarrow> 'b doc_world \<Rightarrow> bool" where
  "blob_inv bk b0 K ks w \<longleftrightarrow> set (dw_up w) \<subseteq> ks \<and>
     (\<forall>x. x \<notin> Pair bk ` (set (dw_up w) \<union> K) \<longrightarrow> objs (dw_obj w) x = objs b0 x)"

lemma blob_ondb: "keeps (blob_inv bk b0 K ks) (ondb m)"
  by (simp add: keeps_def ondb_def blob_inv_def split: prod.splits)

lemma blob_db_stmt: "keeps (blob_inv bk b0 K ks) (db_stmt S k m)"
  unfolding db_stmt_def by (intro keeps_intros blob_ondb)

lemma blob_upload:
  assumes "ds_api S = api" "k \<in> ks"
  shows "keeps (blob_inv bk b0 K ks) (upload S bk k body ct)"
proof (rule keepsI)
  fix w assume inv: "blob_inv bk b0 K ks w"
  obtain r b where p: "oa_put api bk k body ct (dw_obj w) = (r, b)" by (cases "oa_put api bk k body ct (dw_obj w)")
  have "objs b x = objs b0 x" if "x \<notin> Pair bk ` (set (dw_up w @ [k]) \<union> K)" for x
  proof -
    from that have x: "x \<noteq> (bk, k)" "x \<notin> Pair bk ` (set (dw_up w) \<union> K)" by auto
    then have "objs (dw_obj w) x = objs b0 x" using inv unfolding blob_inv_def by blast
    with put_other [OF p x(1)] show ?thesis by simp
  qed
  moreover have "set (dw_up w @ [k]) \<subseteq> ks" using inv assms(2) by (simp add: blob_inv_def)
  moreover have "snd (upload S bk k body ct w) = w\<lparr>dw_up := dw_up w @ [k], dw_obj := b\<rparr>"
    by (simp add: upload_def track_def onobj_def p assms(1) thn_def bnd_def modify_def)
  ultimately show "blob_inv bk b0 K ks (snd (upload S bk k body ct w))"
    unfolding blob_inv_def by (simp del: set_append)
qed

lemma blob_upload_primary:
  assumes "ds_api S = api" "k \<in> ks"
  shows "keeps (blob_inv (bucket_of S (pa_source_id a)) b0 K ks) (upload_primary S a k)"
  using blob_upload [OF assms, of "bucket_of S (pa_source_id a)" b0 K "pa_bytes a" "pa_mime a"]
  by (auto simp: keeps_def upload_primary_def split: prod.splits sum.splits)

lemma blob_upload_xbrl:
  assumes "ds_api S = api" "set (call_keys S a) \<subseteq> ks"
  shows "keeps (blob_inv (bucket_of S (pa_source_id a)) b0 K ks) (upload_xbrl S a)"
  using assms unfolding upload_xbrl_def call_blobs_def xbrl_blobs_def
  by (auto simp: Let_def split: bool.splits option.splits intro!: keeps_intros blob_upload)

lemma blob_attachments:
  assumes "ds_api S = api" "set (call_keys S a) \<subseteq> ks"
  shows "keeps (blob_inv (bucket_of S (pa_source_id a)) b0 K ks) (persist_attachments S c a (ds_uuid S))"
  unfolding persist_attachments_def
proof (rule keeps_for_each)
  fix it assume "it \<in> set (enumerate 0 (pa_attachments a))"
  then obtain i t where it: "it = (i, t)" "t \<in> set (pa_attachments a)"
    by (metis enumerate_eq_zip in_set_zipE surj_pair)
  then have "attachment_key S a (ds_uuid S) t \<in> ks"
    using assms(2) by (force simp: call_blobs_def attachment_blobs_def)
  then show "keeps (blob_inv (bucket_of S (pa_source_id a)) b0 K ks) (case it of (i, t) \<Rightarrow>
      thn (upload S (bucket_of S (pa_source_id a)) (attachment_key S a (ds_uuid S) t) (ai_bytes t) (ai_mime t))
         (db_stmt S (AttachStmt i) (insert_attachment (attachment_row S c a (ds_uuid S) t))))"
    unfolding it(1) prod.case using assms(1) by (intro keeps_thn blob_upload blob_db_stmt)
qed

text \<open>With deletes that succeed, a fresh key that is dropped is absent again.\<close>

definition deletes_succeed :: bool where
  "deletes_succeed \<longleftrightarrow> (\<forall>bk k b. fst (oa_delete api bk k b) = Inr ())"

lemma delete_quiet_eval:
  assumes "deletes_succeed" "ds_api S = api"
  obtains b where "delete_quiet S bk k w = (Inr (), w\<lparr>dw_obj := b\<rparr>)" "objs b = (objs (dw_obj w))((bk, k) := None)"
proof -
  obtain b where d: "oa_delete api bk k (dw_obj w) = (Inr (), b)"
    using assms(1) by (metis deletes_succeed_def prod.collapse)
  have "objs b = (objs (dw_obj w))((bk, k) := None)"
    using delete_other [OF d] delete_ok [OF d] by auto
  then show thesis using that d assms(2) by (simp add: delete_quiet_def onobj_def)
qed

lemma delete_quiet_frame:
  assumes "ds_api S = api" "delete_quiet S bk k w = (r, w')"
  shows "dw_up w' = dw_up w" "x \<noteq> (bk, k) \<Longrightarrow> objs (dw_obj w') x = objs (dw_obj w) x"
proof -
  obtain q b where d: "oa_delete api bk k (dw_obj w) = (q, b)" by (cases "oa_delete api bk k (dw_obj w)")
  have w': "w' = w\<lparr>dw_obj := b\<rparr>"
    using assms d by (auto simp: delete_quiet_def onobj_def split: sum.splits error.splits)
  then show "dw_up w' = dw_up w" "x \<noteq> (bk, k) \<Longrightarrow> objs (dw_obj w') x = objs (dw_obj w) x"
    using delete_other [OF d] by simp_all
qed

definition drop_ok :: "string \<Rightarrow> 'b \<Rightarrow> pystr set \<Rightarrow> pystr set \<Rightarrow> bool" where
  "drop_ok bk b0 K ks \<longleftrightarrow> ks \<subseteq> K \<or> deletes_succeed \<and> (\<forall>k \<in> ks. objs b0 (bk, k) = None)"

lemma blob_drop:
  assumes ok: "drop_ok bk b0 K ks" and "ds_api S = api" "k \<in> ks"
  shows "keeps (blob_inv bk b0 K ks) (drop_blob S bk k)"
proof (rule keepsI)
  fix w assume inv: "blob_inv bk b0 K ks w"
  obtain r w1 where d: "delete_quiet S bk k w = (r, w1)" by (cases "delete_quiet S bk k w")
  note fr = delete_quiet_frame [OF assms(2) d]
  have same: "objs (dw_obj w1) x = objs b0 x" if x: "x \<noteq> (bk, k)" "x \<notin> Pair bk ` (set (dw_up w) \<union> K)" for x
    using inv x(2) fr(2) [OF x(1)] unfolding blob_inv_def by metis
  have up: "set (dw_up w) \<subseteq> ks" "set (remove1 k (dw_up w)) \<subseteq> ks"
    using inv by (auto simp: blob_inv_def dest: notin_set_remove1)
  show "blob_inv bk b0 K ks (snd (drop_blob S bk k w))"
  proof (cases r)
    case (Inl e)
    then have "snd (drop_blob S bk k w) = w1" by (simp add: drop_blob_def thn_def bnd_def d)
    moreover have "\<not> deletes_succeed"
      using d Inl assms(2) delete_quiet_eval [where S = S and bk = bk and k = k and w = w] by (metis old.sum.distinct(2) prod.inject)
    then have "ks \<subseteq> K" using ok by (simp add: drop_ok_def)
    moreover have "objs (dw_obj w1) x = objs b0 x" if x: "x \<notin> Pair bk ` (set (dw_up w1) \<union> K)" for x
    proof (rule same)
      show "x \<noteq> (bk, k)" using x assms(3) \<open>ks \<subseteq> K\<close> by blast
    qed (use x fr(1) in simp)
    ultimately show ?thesis using up(1) fr(1) unfolding blob_inv_def by (intro conjI allI impI) simp_all
  next
    case (Inr u)
    have gone: "objs (dw_obj w1) x = objs b0 x" if x: "x \<notin> Pair bk ` (set (remove1 k (dw_up w)) \<union> K)" for x
    proof (cases "x = (bk, k)")
      case True
      with x assms(3) have "\<not> ks \<subseteq> K" by auto
      with ok have del: "deletes_succeed" "objs b0 (bk, k) = None" using assms(3) by (auto simp: drop_ok_def)
      obtain b where "delete_quiet S bk k w = (Inr (), w\<lparr>dw_obj := b\<rparr>)" "objs b = (objs (dw_obj w))((bk, k) := None)"
        by (rule delete_quiet_eval [OF del(1) assms(2)])
      with d True del(2) show ?thesis by auto
    next
      case False
      have "x \<notin> Pair bk ` (set (dw_up w) \<union> K)"
      proof
        assume "x \<in> Pair bk ` (set (dw_up w) \<union> K)"
        then obtain j where "x = (bk, j)" "j \<in> set (dw_up w) \<union> K" by auto
        with False x show False by (auto simp: in_set_remove1)
      qed
      with False show ?thesis by (rule same)
    qed
    have "snd (drop_blob S bk k w) = w1\<lparr>dw_up := remove1 k (dw_up w)\<rparr>"
      using fr(1) by (simp add: drop_blob_def thn_def bnd_def d Inr modify_def)
    then show ?thesis using gone up(2) by (simp add: blob_inv_def)
  qed
qed

lemma blob_drops:
  assumes "drop_ok bk b0 K ks" "ds_api S = api"
  shows "keeps (blob_inv bk b0 K ks) (drop_blobs S bk)"
proof (rule keepsI)
  fix w assume inv: "blob_inv bk b0 K ks w"
  then have "k \<in> ks" if "k \<in> set (dw_up w)" for k using that by (auto simp: blob_inv_def)
  then have "keeps (blob_inv bk b0 K ks) (for_each (drop_blob S bk) (dw_up w))"
    using assms by (intro keeps_for_each blob_drop) auto
  with inv show "blob_inv bk b0 K ks (snd (drop_blobs S bk w))" by (simp add: drop_blobs_def keeps_def)
qed

lemma blob_put_steps:
  assumes "drop_ok (bucket_of S (pa_source_id a)) b0 K (set (call_keys S a))" "ds_api S = api"
  shows "keeps (blob_inv (bucket_of S (pa_source_id a)) b0 K (set (call_keys S a))) (put_steps S c a)"
proof -
  let ?P = "blob_inv (bucket_of S (pa_source_id a)) b0 K (set (call_keys S a))"
  have prim: "keeps ?P (upload_primary S a (format_object_key S a (ds_uuid S) (lit ''primary'') (pa_filename a)))"
    by (rule blob_upload_primary [OF assms(2)]) (simp add: call_blobs_def)
  have persist: "keeps ?P (if created then persist_attachments S c a fid else ret ())"
    if "db_stmt S UpsertStmt (upsert_filing S c a k xk am pv) s = (Inr (fid, rno, created), s')"
    for k xk am pv fid rno created and s s' :: "'b doc_world"
  proof (cases created)
    case True
    with that have "fid = ds_uuid S"
      by (auto simp: db_stmt_def ondb_def raise_def dest: upsert_created_id split: option.splits prod.splits)
    with True show ?thesis using blob_attachments [OF assms(2), of a] by simp
  qed (simp add: keeps_ret)
  show ?thesis
    unfolding put_steps_def Let_def
    apply (rule keeps_thn [OF prim keeps_thn [OF blob_db_stmt keeps_bnd [OF blob_db_stmt
        keeps_bnd [OF blob_upload_xbrl [OF assms(2) order_refl] keeps_bnd [OF blob_db_stmt keeps_thn [OF blob_ondb]]]]]])
    apply (rule keeps_bnd_result [OF blob_db_stmt])
    apply (clarsimp simp only: split: prod.splits)
    apply (rule keeps_thn)
     apply (intro keeps_if keeps_ret blob_drops assms)
    apply (rule keeps_thn [OF persist])
     apply assumption
    apply (intro keeps_bnd blob_db_stmt keeps_lift)
    apply (clarsimp simp only: split: prod.splits)
    apply (intro keeps_thn keeps_bnd blob_db_stmt keeps_gets keeps_ret)
    done
qed

lemma delete_all:
  assumes "deletes_succeed" "ds_api S = api"
  shows "\<exists>b. for_each (delete_quiet S bk) ks w = (Inr (), w\<lparr>dw_obj := b\<rparr>) \<and>
    objs b = (\<lambda>x. if x \<in> Pair bk ` set ks then None else objs (dw_obj w) x)"
proof (induction ks arbitrary: w)
  case Nil
  show ?case by (rule exI [of _ "dw_obj w"]) (simp add: ret_def)
next
  case (Cons k ks)
  obtain b where d: "delete_quiet S bk k w = (Inr (), w\<lparr>dw_obj := b\<rparr>)" "objs b = (objs (dw_obj w))((bk, k) := None)"
    by (rule delete_quiet_eval [OF assms])
  obtain b' where "for_each (delete_quiet S bk) ks (w\<lparr>dw_obj := b\<rparr>) = (Inr (), w\<lparr>dw_obj := b'\<rparr>)"
    "objs b' = (\<lambda>x. if x \<in> Pair bk ` set ks then None else objs b x)"
    using Cons [of "w\<lparr>dw_obj := b\<rparr>"] by force
  then show ?case
    by (intro exI [of _ b']) (auto simp: thn_eval [where m = "delete_quiet S bk k", OF d(1)] d(2))
qed

lemma failed_put_restores:
  assumes del: "deletes_succeed" and api: "ds_api S = api"
    and fresh: "\<And>k. k \<in> set (call_keys S a) \<Longrightarrow> objs (dw_obj w) (bucket_of S (pa_source_id a), k) = None"
    and fail: "put_filing S c a w = (Inl e, w')"
  shows "objs (dw_obj w') = objs (dw_obj w)"
proof -
  let ?bk = "bucket_of S (pa_source_id a)" and ?w0 = "w\<lparr>dw_up := []\<rparr>"
  let ?del = "for_each (delete_quiet S ?bk)"
  consider "dw_obj w' = dw_obj w"
    | e0 w1 where "put_steps S c a ?w0 = (Inl e0, w1)" "thn (?del (dw_up w1)) (raise (typed_error e0)) w1 =
        (Inl e :: error + put_filing_result, w')"
    using fail by (auto simp: put_filing_eval split: prod.splits sum.splits if_splits)
  then show ?thesis
  proof cases
    case 2
    have "blob_inv ?bk (dw_obj w) {} (set (call_keys S a)) ?w0" by (simp add: blob_inv_def)
    moreover have "drop_ok ?bk (dw_obj w) {} (set (call_keys S a))" using del fresh by (simp add: drop_ok_def)
    ultimately have inv: "blob_inv ?bk (dw_obj w) {} (set (call_keys S a)) w1"
      using keepsD [OF blob_put_steps [OF _ api] 2(1)] by blast
    obtain b where d: "?del (dw_up w1) w1 = (Inr (), w1\<lparr>dw_obj := b\<rparr>)"
        "objs b = (\<lambda>x. if x \<in> Pair ?bk ` set (dw_up w1) then None else objs (dw_obj w1) x)"
      using delete_all [OF del api] by blast
    with 2(2) have w': "dw_obj w' = b" by (auto simp: thn_eval [where m = "?del (dw_up w1)", OF d(1)])
    show ?thesis
    proof
      fix x
      have "objs (dw_obj w1) x = objs (dw_obj w) x" if "x \<notin> Pair ?bk ` set (dw_up w1)"
        using inv that unfolding blob_inv_def by blast
      moreover have "objs (dw_obj w) x = None" if "x \<in> Pair ?bk ` set (dw_up w1)"
      proof -
        from that obtain k where k: "x = (?bk, k)" "k \<in> set (dw_up w1)" by (rule imageE)
        from inv have "set (dw_up w1) \<subseteq> set (call_keys S a)" unfolding blob_inv_def by (rule conjunct1)
        from fresh [OF subsetD [OF this k(2)]] show ?thesis unfolding k(1) .
      qed
      ultimately show "objs (dw_obj w') x = objs (dw_obj w) x" unfolding w' d(2) by simp
    qed
  qed simp
qed

text \<open>Whatever happens to the deletes, a call touches the objects under its own keys only.\<close>

lemma delete_all_frame:
  assumes "ds_api S = api" "for_each (delete_quiet S bk) ks w = (r, w')" "x \<notin> Pair bk ` set ks"
  shows "objs (dw_obj w') x = objs (dw_obj w) x"
  using assms(2,3)
proof (induction ks arbitrary: w)
  case (Cons k ks)
  obtain q w1 where d: "delete_quiet S bk k w = (q, w1)" by (cases "delete_quiet S bk k w")
  have "objs (dw_obj w1) x = objs (dw_obj w) x"
    using delete_quiet_frame(2) [OF assms(1) d] Cons.prems(2) by auto
  with Cons d show ?case by (cases q) (auto simp: thn_def bnd_def)
qed (simp add: ret_def)

lemma put_filing_frame:
  assumes api: "ds_api S = api" and put: "put_filing S c a w = (r, w')"
    and x: "x \<notin> Pair (bucket_of S (pa_source_id a)) ` set (call_keys S a)"
  shows "objs (dw_obj w') x = objs (dw_obj w) x"
proof -
  let ?bk = "bucket_of S (pa_source_id a)" and ?w0 = "w\<lparr>dw_up := []\<rparr>" and ?ks = "set (call_keys S a)"
  obtain q w1 where steps: "put_steps S c a ?w0 = (q, w1)" by (cases "put_steps S c a ?w0")
  have "blob_inv ?bk (dw_obj w) ?ks ?ks ?w0" by (simp add: blob_inv_def)
  with keepsD [OF blob_put_steps [OF _ api] steps]
  have "blob_inv ?bk (dw_obj w) ?ks ?ks w1" by (simp add: drop_ok_def)
  then have up: "set (dw_up w1) \<subseteq> ?ks"
    and out: "\<And>x. x \<notin> Pair ?bk ` (set (dw_up w1) \<union> ?ks) \<Longrightarrow> objs (dw_obj w1) x = objs (dw_obj w) x"
    unfolding blob_inv_def by blast+
  have same: "objs (dw_obj w1) x = objs (dw_obj w) x" using up x by (intro out) blast
  have "objs (dw_obj v) x = objs (dw_obj w1) x" if "for_each (delete_quiet S ?bk) (dw_up w1) w1 = (y, v)" for y v
    using delete_all_frame [OF api that] x up by blast
  with put steps same show ?thesis
    by (auto simp: put_filing_eval thn_def bnd_def raise_def split: prod.splits sum.splits if_splits)
qed

end

end
