(* ===== verification/Doc_Success.thy ===== *)
theory Doc_Success
  imports Doc_Blobs
begin

text \<open>
  What a successful call leaves behind: its blobs and rows, the manifest that \<open>release\<close> needs, and
  database and object store in step.
\<close>

section \<open>Successful statements\<close>

lemma db_stmt_Inr_iff:
  "db_stmt S k m w = (Inr x, w') \<longleftrightarrow>
     ds_fault S k = None \<and> (\<exists>d. m (dw_db w) = (Inr x, d) \<and> w' = w\<lparr>dw_db := d\<rparr>)"
  by (auto simp: db_stmt_def ondb_def raise_def split: option.splits prod.splits)

lemma find_canonical_reads: "find_canonical_by_ref src ref d = (r, d') \<Longrightarrow> d' = d"
  by (auto simp: find_canonical_by_ref_def first_row_def bnd_def lift_def ret_def split: list.splits prod.splits sum.splits)

lemma find_by_source_ref_reads: "find_by_source_ref src ref d = (r, d') \<Longrightarrow> d' = d"
  by (auto simp: find_by_source_ref_def first_row_def bnd_def lift_def ret_def split: list.splits prod.splits sum.splits)

lemma get_filing_Inr_iff:
  "get_filing fid d = (Inr f, d') \<longleftrightarrow> d' = d \<and> sql_find (\<lambda>r. fl_id r = fid) (filings d) = Some f \<and> row_to_filing f = Inr f"
  by (auto simp: get_filing_def bnd_def gets_def raise_def lift_def row_to_filing_def split: option.splits)

text \<open>The rows a successful upsert leaves, and those of the attachments.\<close>

definition attachment_rows :: "'b document_store \<Rightarrow> ctx \<Rightarrow> filing_args \<Rightarrow> filing_attachment list" where
  "attachment_rows S c a = map (attachment_row S c a (ds_uuid S)) (pa_attachments a)"

text \<open>The blobs of a list, put one after the other.\<close>

fun stored :: "string \<Rightarrow> (pystr \<times> byte list \<times> string) list \<Rightarrow> (object_key \<Rightarrow> (byte list \<times> string) option) \<Rightarrow>
  object_key \<Rightarrow> (byte list \<times> string) option" where
  "stored bk [] m = m"
| "stored bk ((k, body, ct) # bs) m = stored bk bs (m((bk, k) \<mapsto> (body, ct)))"

lemma stored_append: "stored bk (xs @ ys) m = stored bk ys (stored bk xs m)"
  by (induction xs arbitrary: m) auto

lemma stored_other: "x \<notin> Pair bk ` fst ` set bs \<Longrightarrow> stored bk bs m x = m x"
  by (induction bs arbitrary: m) auto

lemma stored_at: "distinct (map fst bs) \<Longrightarrow> (k, v) \<in> set bs \<Longrightarrow> stored bk bs m (bk, k) = Some v"
proof (induction bs arbitrary: m)
  case (Cons b bs)
  show ?case
  proof (cases "(k, v) \<in> set bs")
    case True
    with Cons show ?thesis by (cases b) auto
  next
    case False
    with Cons have "b = (k, v)" by auto
    moreover from this Cons have "(bk, k) \<notin> Pair bk ` fst ` set bs" by auto
    ultimately show ?thesis by (cases v) (simp add: stored_other)
  qed
qed simp

lemma stored_delete:
  "(\<lambda>x. if x \<in> Pair bk ` set (map fst bs) then None else stored bk bs m x) = m"
  if "\<And>k. k \<in> set (map fst bs) \<Longrightarrow> m (bk, k) = None"
proof
  fix x show "(if x \<in> Pair bk ` set (map fst bs) then None else stored bk bs m x) = m x"
    using stored_other [of x bk bs m] that by (cases "x \<in> Pair bk ` fst ` set bs") (auto, metis fst_conv imageI)
qed


context object_storage
begin

lemma upload_Inr:
  assumes "upload S bk k body ct w = (Inr u, w')" "ds_api S = api"
  shows "dw_db w' = dw_db w" "dw_up w' = dw_up w @ [k]" "objs (dw_obj w') = stored bk [(k, body, ct)] (objs (dw_obj w))"
proof -
  from assms obtain b where p: "oa_put api bk k body ct (dw_obj w) = (Inr u, b)"
    and w': "w' = w\<lparr>dw_up := dw_up w @ [k], dw_obj := b\<rparr>"
    by (auto simp: upload_def track_def onobj_def thn_def bnd_def modify_def split: prod.splits)
  show "dw_db w' = dw_db w" "dw_up w' = dw_up w @ [k]" using w' by simp_all
  show "objs (dw_obj w') = stored bk [(k, body, ct)] (objs (dw_obj w))"
  proof
    fix x show "objs (dw_obj w') x = stored bk [(k, body, ct)] (objs (dw_obj w)) x"
      using put_other [OF p] put_ok [OF p] w' by (cases "x = (bk, k)") simp_all
  qed
qed

lemma upload_primary_Inr:
  assumes "upload_primary S a k w = (Inr u, w')" "ds_api S = api"
  shows "dw_db w' = dw_db w" "dw_up w' = dw_up w @ [k]"
    "objs (dw_obj w') = stored (bucket_of S (pa_source_id a)) [(k, pa_bytes a, pa_mime a)] (objs (dw_obj w))"
proof -
  from assms(1) have u: "upload S (bucket_of S (pa_source_id a)) k (pa_bytes a) (pa_mime a) w = (Inr u, w')"
    by (auto simp: upload_primary_def split: prod.splits sum.splits)
  show "dw_db w' = dw_db w" "dw_up w' = dw_up w @ [k]"
    "objs (dw_obj w') = stored (bucket_of S (pa_source_id a)) [(k, pa_bytes a, pa_mime a)] (objs (dw_obj w))"
    by (rule upload_Inr [OF u assms(2)])+
qed

lemma upload_xbrl_Inr:
  assumes "upload_xbrl S a w = (Inr xk, w')" "ds_api S = api"
  shows "dw_db w' = dw_db w" "dw_up w' = dw_up w @ map fst (xbrl_blobs S a)"
    "objs (dw_obj w') = stored (bucket_of S (pa_source_id a)) (xbrl_blobs S a) (objs (dw_obj w))"
    "map fst (xbrl_blobs S a) = (case xk of None \<Rightarrow> [] | Some k \<Rightarrow> [k])"
proof -
  consider (none) "xbrl_blobs S a = []" "xk = None" "w' = w"
    | (some) k body where "xbrl_blobs S a = [(k, body, ''application/xml'')]" "xk = Some k"
      "upload S (bucket_of S (pa_source_id a)) k body ''application/xml'' w = (Inr (), w')"
    using assms(1) by (auto simp: upload_xbrl_def xbrl_blobs_def Let_def thn_Inr_iff split: bool.splits option.splits)
  then have "dw_db w' = dw_db w \<and> dw_up w' = dw_up w @ map fst (xbrl_blobs S a) \<and>
    objs (dw_obj w') = stored (bucket_of S (pa_source_id a)) (xbrl_blobs S a) (objs (dw_obj w)) \<and>
    map fst (xbrl_blobs S a) = (case xk of None \<Rightarrow> [] | Some k \<Rightarrow> [k])"
    using upload_Inr [OF _ assms(2)] by cases auto
  then show "dw_db w' = dw_db w" "dw_up w' = dw_up w @ map fst (xbrl_blobs S a)"
    "objs (dw_obj w') = stored (bucket_of S (pa_source_id a)) (xbrl_blobs S a) (objs (dw_obj w))"
    "map fst (xbrl_blobs S a) = (case xk of None \<Rightarrow> [] | Some k \<Rightarrow> [k])" by simp_all
qed

lemma persist_attachments_Inr:
  assumes "persist_attachments S c a (ds_uuid S) w = (Inr u, w')" "ds_api S = api"
  shows "dw_up w' = dw_up w @ map fst (attachment_blobs S a)"
    "objs (dw_obj w') = stored (bucket_of S (pa_source_id a)) (attachment_blobs S a) (objs (dw_obj w))"
    "dw_db w' = (dw_db w)\<lparr>attachments := fold (sql_insert_dn fa_pk) (attachment_rows S c a) (attachments (dw_db w))\<rparr>"
proof -
  let ?step = "\<lambda>(i, t). thn (upload S (bucket_of S (pa_source_id a)) (attachment_key S a (ds_uuid S) t) (ai_bytes t) (ai_mime t))
     (db_stmt S (AttachStmt i) (insert_attachment (attachment_row S c a (ds_uuid S) t)))"
  let ?blob = "\<lambda>t. (attachment_key S a (ds_uuid S) t, ai_bytes t, ai_mime t)"
  have all: "dw_up w' = dw_up w @ map (fst \<circ> ?blob) ts \<and>
      objs (dw_obj w') = stored (bucket_of S (pa_source_id a)) (map ?blob ts) (objs (dw_obj w)) \<and>
      dw_db w' = (dw_db w)\<lparr>attachments := fold (sql_insert_dn fa_pk) (map (attachment_row S c a (ds_uuid S)) ts) (attachments (dw_db w))\<rparr>"
    if "for_each ?step (enumerate n ts) w = (Inr u, w')" for n ts w
    using that
  proof (induction ts arbitrary: n w)
    case (Cons t ts)
    from Cons.prems obtain w1 w2 where
      s: "upload S (bucket_of S (pa_source_id a)) (attachment_key S a (ds_uuid S) t) (ai_bytes t) (ai_mime t) w = (Inr (), w1)"
        "db_stmt S (AttachStmt n) (insert_attachment (attachment_row S c a (ds_uuid S) t)) w1 = (Inr (), w2)"
        "for_each ?step (enumerate (Suc n) ts) w2 = (Inr u, w')"
      by (auto simp: thn_Inr_iff)
    from s(2) have "w2 = w1\<lparr>dw_db := (dw_db w1)\<lparr>attachments :=
        sql_insert_dn fa_pk (attachment_row S c a (ds_uuid S) t) (attachments (dw_db w1))\<rparr>\<rparr>"
      by (auto simp: db_stmt_Inr_iff insert_attachment_def split: if_splits)
    then show ?case
      using Cons.IH [OF s(3)] upload_Inr [OF s(1) assms(2)] by (simp add: fun_upd_def)
  qed simp
  from all [OF assms(1) [unfolded persist_attachments_def]]
  show "dw_up w' = dw_up w @ map fst (attachment_blobs S a)"
    "objs (dw_obj w') = stored (bucket_of S (pa_source_id a)) (attachment_blobs S a) (objs (dw_obj w))"
    "dw_db w' = (dw_db w)\<lparr>attachments := fold (sql_insert_dn fa_pk) (attachment_rows S c a) (attachments (dw_db w))\<rparr>"
    by (simp_all add: attachment_blobs_def attachment_rows_def)
qed

lemma drop_blobs_Inr:
  assumes "drop_blobs S bk w = (Inr u, w')"
  shows "dw_up w' = []" "dw_db w' = dw_db w"
proof -
  have "dw_up w' = fold remove1 ks (dw_up w) \<and> dw_db w' = dw_db w"
    if "for_each (drop_blob S bk) ks w = (Inr u, w')" for ks w
    using that
  proof (induction ks arbitrary: w)
    case (Cons k ks)
    from Cons.prems obtain w1 where "drop_blob S bk k w = (Inr (), w1)" "for_each (drop_blob S bk) ks w1 = (Inr u, w')"
      by (auto simp: thn_Inr_iff)
    moreover from this have "dw_up w1 = remove1 k (dw_up w)" "dw_db w1 = dw_db w"
      by (auto simp: drop_blob_def delete_quiet_def onobj_def thn_Inr_iff modify_def split: prod.splits sum.splits error.splits)
    ultimately show ?case using Cons.IH by simp
  qed (simp add: ret_def)
  moreover have "fold remove1 ks ks = []" for ks :: "pystr list" by (induction ks) auto
  ultimately show "dw_up w' = []" "dw_db w' = dw_db w" using assms by (simp_all add: drop_blobs_def)
qed

end

section \<open>The outcome of a call\<close>

text \<open>The stages of a successful call.\<close>

lemma put_steps_Inr:
  assumes "put_steps S c a w = (Inr r, w')"
  obtains w1 w2 w3 w4 w5 xk prior fid rno created d f where
    "upload_primary S a (format_object_key S a (ds_uuid S) (lit ''primary'') (pa_filename a)) w = (Inr (), w1)"
    "find_canonical_by_ref (pa_source_id a) (pa_ref a) (dw_db w1) = (Inr prior, dw_db w1)"
    "upload_xbrl S a w1 = (Inr xk, w2)"
    "upsert_filing S c a (format_object_key S a (ds_uuid S) (lit ''primary'') (pa_filename a)) xk
       (fst (chain_fields (ds_sha S (pa_bytes a)) a prior)) (snd (chain_fields (ds_sha S (pa_bytes a)) a prior))
       (ds_env S (dw_db w2)) = (Inr (fid, rno, created), d)"
    "w3 = w2\<lparr>dw_db := d\<rparr>"
    "(if created then ret () else drop_blobs S (bucket_of S (pa_source_id a))) w3 = (Inr (), w4)"
    "(if created then persist_attachments S c a fid else ret ()) w4 = (Inr (), w5)"
    "sql_find (\<lambda>r. fl_id r = fid) (filings (dw_db w5)) = Some f" "row_to_filing f = Inr f"
    "\<exists>l. w' = w5\<lparr>dw_db := (dw_db w5)\<lparr>audit_events := l\<rparr>\<rparr>"
    "r = \<lparr>pr_filing = f, pr_created = created, pr_is_revision = (created \<and> 1 < rno), pr_revision_no = rno,
          pr_bucket = bucket_of S (pa_source_id a), pr_object_keys = dw_up w'\<rparr>"
proof -
  let ?P = "find_canonical_by_ref (pa_source_id a) (pa_ref a)"
  have upd: "w\<lparr>dw_db := dw_db w\<rparr> = w" for w :: "'a doc_world" by simp
  from assms obtain w1 w1' prior w2 xk w2' pre fid rno created w3 w4 w5 f w6 opn before w7 where s:
    "upload_primary S a (format_object_key S a (ds_uuid S) (lit ''primary'') (pa_filename a)) w = (Inr (), w1)"
    "db_stmt S PriorStmt ?P w1 = (Inr prior, w1')"
    "upload_xbrl S a w1' = (Inr xk, w2)"
    "db_stmt S UpsertStmt (upsert_filing S c a (format_object_key S a (ds_uuid S) (lit ''primary'') (pa_filename a)) xk
       (fst (chain_fields (ds_sha S (pa_bytes a)) a prior)) (snd (chain_fields (ds_sha S (pa_bytes a)) a prior)))
       (w2\<lparr>dw_db := ds_env S (dw_db w2)\<rparr>) = (Inr (fid, rno, created), w3)"
    "(if created then ret () else drop_blobs S (bucket_of S (pa_source_id a))) w3 = (Inr (), w4)"
    "(if created then persist_attachments S c a fid else ret ()) w4 = (Inr (), w5)"
    "db_stmt S ReloadStmt (get_filing fid) w5 = (Inr f, w6)"
    "db_stmt S AuditStmt (audit c (put_event S a opn before f fid rno created)) w6 = (Inr (), w7)"
    "w' = w7"
    "r = \<lparr>pr_filing = f, pr_created = created, pr_is_revision = (created \<and> 1 < rno), pr_revision_no = rno,
          pr_bucket = bucket_of S (pa_source_id a), pr_object_keys = dw_up w7\<rparr>"
    unfolding put_steps_def Let_def bnd_Inr_iff thn_Inr_iff
    by (clarsimp simp: db_stmt_Inr_iff [where k = LockStmt] db_stmt_Inr_iff [where k = PreStmt] bnd_Inr_iff thn_Inr_iff
        gets_def modify_def ondb_def lift_def split: prod.splits)
  from s(2) have "w1' = w1" "?P (dw_db w1) = (Inr prior, dw_db w1)"
    using find_canonical_reads [of "pa_source_id a" "pa_ref a" "dw_db w1"] by (auto simp: db_stmt_Inr_iff upd)
  moreover from s(4) obtain d where "upsert_filing S c a (format_object_key S a (ds_uuid S) (lit ''primary'') (pa_filename a)) xk
       (fst (chain_fields (ds_sha S (pa_bytes a)) a prior)) (snd (chain_fields (ds_sha S (pa_bytes a)) a prior))
       (ds_env S (dw_db w2)) = (Inr (fid, rno, created), d)" "w3 = w2\<lparr>dw_db := d\<rparr>"
    by (auto simp: db_stmt_Inr_iff)
  moreover from s(7) have "w6 = w5" "sql_find (\<lambda>r. fl_id r = fid) (filings (dw_db w5)) = Some f" "row_to_filing f = Inr f"
    by (auto simp: db_stmt_Inr_iff get_filing_Inr_iff upd)
  moreover from s(8,9) \<open>w6 = w5\<close> have "\<exists>l. w' = w5\<lparr>dw_db := (dw_db w5)\<lparr>audit_events := l\<rparr>\<rparr>"
    by (auto simp: db_stmt_Inr_iff audit_Inr_iff)
  ultimately show thesis using s that by blast
qed

lemma upsert_created:
  assumes "upsert_filing S c a k xk am pv d = (Inr (fid, rno, True), d')"
  obtains lang where "char2 (pa_language a) = Some lang"
    "sql_find (same_bytes (pa_source_id a) (ds_sha S (pa_bytes a))) (filings d) = None"
    "fid = ds_uuid S" "rno = next_rev (pa_source_id a) (pa_ref a) d"
    "filing_fks (new_filing S c a k xk am pv lang rno) d" "filing_uniques (new_filing S c a k xk am pv lang rno) d"
    "d' = d\<lparr>filings := filings d @ [new_filing S c a k xk am pv lang rno]\<rparr>"
  using assms by (auto simp: upsert_filing_def Let_def new_filing_def split: option.splits if_splits)

lemma upsert_existing:
  assumes "upsert_filing S c a k xk am pv d = (Inr (fid, rno, False), d')"
  obtains x where "sql_find (same_bytes (pa_source_id a) (ds_sha S (pa_bytes a))) (filings d) = Some x"
    "fid = fl_id x" "rno = fl_revision_no x"
    "d' = d\<lparr>filings := sql_update (same_bytes (pa_source_id a) (ds_sha S (pa_bytes a))) (merge_filing c (pa_ref a)) (filings d)\<rparr>"
  using assms by (auto simp: upsert_filing_def Let_def new_filing_def split: option.splits if_splits)

lemma put_filing_steps:
  assumes "put_filing S c a w = (Inr r, w')"
  shows "put_steps S c a (w\<lparr>dw_up := []\<rparr>) = (Inr r, w')" "check_attachments (ds_sha S) [] [] (pa_attachments a) = Inr ()"
  using assms by (auto simp: put_filing_eval thn_Inr_iff raise_def split: prod.splits sum.splits if_splits)

text \<open>The row a call inserts: its key, its XBRL key and the chain fields.\<close>

definition call_filing :: "'b document_store \<Rightarrow> ctx \<Rightarrow> filing_args \<Rightarrow> filing option \<Rightarrow> string \<Rightarrow> int \<Rightarrow> filing" where
  "call_filing S c a prior lang rno =
     new_filing S c a (format_object_key S a (ds_uuid S) (lit ''primary'') (pa_filename a))
       (case xbrl_blobs S a of [] \<Rightarrow> None | b # _ \<Rightarrow> Some (fst b))
       (fst (chain_fields (ds_sha S (pa_bytes a)) a prior)) (snd (chain_fields (ds_sha S (pa_bytes a)) a prior)) lang rno"

context object_storage
begin

lemma put_filing_created:
  assumes "put_filing S c a w = (Inr r, w')" "ds_api S = api" "pr_created r"
  obtains lang prior where
    "objs (dw_obj w') = stored (bucket_of S (pa_source_id a)) (call_blobs S a) (objs (dw_obj w))"
    "pr_object_keys r = call_keys S a" "pr_bucket r = bucket_of S (pa_source_id a)"
    "find_canonical_by_ref (pa_source_id a) (pa_ref a) (dw_db w) = (Inr prior, dw_db w)"
    "pr_filing r = call_filing S c a prior lang (next_rev (pa_source_id a) (pa_ref a) (ds_env S (dw_db w)))"
    "sql_find (same_bytes (pa_source_id a) (ds_sha S (pa_bytes a))) (filings (ds_env S (dw_db w))) = None"
    "filing_fks (pr_filing r) (ds_env S (dw_db w))" "filing_uniques (pr_filing r) (ds_env S (dw_db w))"
    "filings (dw_db w') = filings (ds_env S (dw_db w)) @ [pr_filing r]"
    "attachments (dw_db w') = fold (sql_insert_dn fa_pk) (attachment_rows S c a) (attachments (ds_env S (dw_db w)))"
    "pr_revision_no r = fl_revision_no (pr_filing r)"
    "pr_is_revision r \<longleftrightarrow> 1 < fl_revision_no (pr_filing r)" "row_to_filing (pr_filing r) = Inr (pr_filing r)"
proof -
  let ?bk = "bucket_of S (pa_source_id a)"
  let ?k = "format_object_key S a (ds_uuid S) (lit ''primary'') (pa_filename a)"
  obtain w1 w2 w5 xk prior fid rno d f where
    s: "upload_primary S a ?k (w\<lparr>dw_up := []\<rparr>) = (Inr (), w1)"
      "find_canonical_by_ref (pa_source_id a) (pa_ref a) (dw_db w1) = (Inr prior, dw_db w1)"
      "upload_xbrl S a w1 = (Inr xk, w2)"
      "upsert_filing S c a ?k xk
       (fst (chain_fields (ds_sha S (pa_bytes a)) a prior)) (snd (chain_fields (ds_sha S (pa_bytes a)) a prior))
       (ds_env S (dw_db w2)) = (Inr (fid, rno, True), d)"
      "persist_attachments S c a fid (w2\<lparr>dw_db := d\<rparr>) = (Inr (), w5)"
      "sql_find (\<lambda>r. fl_id r = fid) (filings (dw_db w5)) = Some f" "row_to_filing f = Inr f"
    and w': "\<exists>l. w' = w5\<lparr>dw_db := (dw_db w5)\<lparr>audit_events := l\<rparr>\<rparr>"
    and r: "r = \<lparr>pr_filing = f, pr_created = True, pr_is_revision = (1 < rno), pr_revision_no = rno,
          pr_bucket = ?bk, pr_object_keys = dw_up w'\<rparr>"
    by (rule put_steps_Inr [OF put_filing_steps(1) [OF assms(1)]]) (use assms(3) in \<open>auto simp: ret_def\<close>)
  note prim = upload_primary_Inr [OF s(1) assms(2)] and xb = upload_xbrl_Inr [OF s(3) assms(2)]
  obtain lang where u: "sql_find (same_bytes (pa_source_id a) (ds_sha S (pa_bytes a))) (filings (ds_env S (dw_db w2))) = None"
    "fid = ds_uuid S" "rno = next_rev (pa_source_id a) (pa_ref a) (ds_env S (dw_db w2))"
    "filing_fks (call_filing S c a prior lang rno) (ds_env S (dw_db w2))"
    "filing_uniques (call_filing S c a prior lang rno) (ds_env S (dw_db w2))"
    "d = (ds_env S (dw_db w2))\<lparr>filings := filings (ds_env S (dw_db w2)) @ [call_filing S c a prior lang rno]\<rparr>"
  proof -
    have "xk = (case xbrl_blobs S a of [] \<Rightarrow> None | b # _ \<Rightarrow> Some (fst b))"
      using xb(4) by (cases xk; cases "xbrl_blobs S a") auto
    then show thesis using that upsert_created [OF s(4)] unfolding call_filing_def by metis
  qed
  note att = persist_attachments_Inr [OF s(5) [unfolded u(2)] assms(2)]
  have db: "dw_db w2 = dw_db w" using prim(1) xb(1) by simp
  have id: "fl_id (call_filing S c a prior lang rno) = fid" by (simp add: call_filing_def new_filing_def u(2))
  have "sql_find (\<lambda>r. fl_id r = fid) (filings (ds_env S (dw_db w2))) = None"
    unfolding sql_find_None_iff using u(5) unfolding filing_uniques_def id by simp
  with id s(6) have "f = call_filing S c a prior lang rno" by (simp add: att(3) u(6) sql_find_append)
  moreover have "fl_revision_no (call_filing S c a prior lang rno) = rno" by (simp add: call_filing_def new_filing_def)
  ultimately show thesis
    using that [of prior lang] w' r u(1,3-6) s(2,7) att prim xb
    by (auto simp: db call_blobs_def stored_append)
qed

lemma put_filing_existing:
  assumes "put_filing S c a w = (Inr r, w')" "ds_api S = api" "\<not> pr_created r"
  obtains x where
    "pr_object_keys r = []" "dw_up w' = []" "\<not> pr_is_revision r"
    "sql_find (same_bytes (pa_source_id a) (ds_sha S (pa_bytes a))) (filings (ds_env S (dw_db w))) = Some x"
    "filings (dw_db w') = sql_update (same_bytes (pa_source_id a) (ds_sha S (pa_bytes a))) (merge_filing c (pa_ref a))
       (filings (ds_env S (dw_db w)))"
    "attachments (dw_db w') = attachments (ds_env S (dw_db w))"
    "sql_find (\<lambda>r. fl_id r = fl_id x) (filings (dw_db w')) = Some (pr_filing r)" "row_to_filing (pr_filing r) = Inr (pr_filing r)"
proof -
  let ?bk = "bucket_of S (pa_source_id a)"
  let ?k = "format_object_key S a (ds_uuid S) (lit ''primary'') (pa_filename a)"
  obtain w1 w2 w4 xk prior fid rno d f where
    s: "upload_primary S a ?k (w\<lparr>dw_up := []\<rparr>) = (Inr (), w1)"
      "upload_xbrl S a w1 = (Inr xk, w2)"
      "upsert_filing S c a ?k xk
       (fst (chain_fields (ds_sha S (pa_bytes a)) a prior)) (snd (chain_fields (ds_sha S (pa_bytes a)) a prior))
       (ds_env S (dw_db w2)) = (Inr (fid, rno, False), d)"
      "drop_blobs S ?bk (w2\<lparr>dw_db := d\<rparr>) = (Inr (), w4)"
      "sql_find (\<lambda>r. fl_id r = fid) (filings (dw_db w4)) = Some f" "row_to_filing f = Inr f"
    and w': "\<exists>l. w' = w4\<lparr>dw_db := (dw_db w4)\<lparr>audit_events := l\<rparr>\<rparr>"
    and r: "r = \<lparr>pr_filing = f, pr_created = False, pr_is_revision = False, pr_revision_no = rno,
          pr_bucket = ?bk, pr_object_keys = dw_up w'\<rparr>"
    by (rule put_steps_Inr [OF put_filing_steps(1) [OF assms(1)]]) (use assms(3) in \<open>auto simp: ret_def\<close>)
  have db: "dw_db w2 = dw_db w" using upload_primary_Inr(1) [OF s(1) assms(2)] upload_xbrl_Inr(1) [OF s(2) assms(2)] by simp
  from upsert_existing [OF s(3)] obtain x where
    "sql_find (same_bytes (pa_source_id a) (ds_sha S (pa_bytes a))) (filings (ds_env S (dw_db w2))) = Some x" "fid = fl_id x"
    "d = (ds_env S (dw_db w2))\<lparr>filings :=
       sql_update (same_bytes (pa_source_id a) (ds_sha S (pa_bytes a))) (merge_filing c (pa_ref a)) (filings (ds_env S (dw_db w2)))\<rparr>"
    by metis
  then show thesis using that [of x] w' r s(5,6) drop_blobs_Inr [OF s(4)] by (auto simp: db)
qed

end

end
