(* ===== verification/Doc_Laws.thy ===== *)
theory Doc_Laws
  imports Doc_Success
begin

text \<open>
  The promises of the document store: a failed call leaves no blob, database and object store stay in
  step, \<open>release\<close> undoes a call, revisions of a reference are numbered without gaps, and bytes stored
  once are found again under every reference they came with.
\<close>

section \<open>Rows and blobs in step\<close>

text \<open>A row's blob is the one its columns describe.\<close>

definition blob_matches :: "'b document_store \<Rightarrow> (object_key \<Rightarrow> (byte list \<times> string) option) \<Rightarrow> string \<Rightarrow>
  pystr \<Rightarrow> string \<Rightarrow> pystr \<Rightarrow> int \<Rightarrow> bool" where
  "blob_matches S m src k mime sha n \<longleftrightarrow>
     (\<exists>body. m (bucket_of S src, k) = Some (body, mime) \<and> ds_sha S body = sha \<and> int (length body) = n)"

definition filing_stored :: "'b document_store \<Rightarrow> (object_key \<Rightarrow> (byte list \<times> string) option) \<Rightarrow> filing \<Rightarrow> bool" where
  "filing_stored S m r \<longleftrightarrow> blob_matches S m (fl_source_id r) (fl_object_key r) (fl_mime r) (fl_sha256 r) (fl_bytes r) \<and>
     (\<forall>k. fl_xbrl_key r = Some k \<longrightarrow> m (bucket_of S (fl_source_id r), k) \<noteq> None)"

definition attachment_stored :: "'b document_store \<Rightarrow> (object_key \<Rightarrow> (byte list \<times> string) option) \<Rightarrow> db \<Rightarrow>
  filing_attachment \<Rightarrow> bool" where
  "attachment_stored S m d t \<longleftrightarrow> (\<exists>r \<in> set (filings d). fl_id r = fa_filing_id t \<and>
     blob_matches S m (fl_source_id r) (fa_object_key t) (fa_mime t) (fa_sha256 t) (fa_bytes t))"

definition row_keys :: "db \<Rightarrow> filing \<Rightarrow> pystr set" where
  "row_keys d r = insert (fl_object_key r) (set_option (fl_xbrl_key r) \<union>
     fa_object_key ` {t \<in> set (attachments d). fa_filing_id t = fl_id r})"

definition referenced :: "'b document_store \<Rightarrow> db \<Rightarrow> object_key set" where
  "referenced S d = (\<Union>r \<in> set (filings d). Pair (bucket_of S (fl_source_id r)) ` row_keys d r)"

definition rows_stored :: "'b document_store \<Rightarrow> (object_key \<Rightarrow> (byte list \<times> string) option) \<Rightarrow> db \<Rightarrow> bool" where
  "rows_stored S m d \<longleftrightarrow> (\<forall>r \<in> set (filings d). filing_stored S m r) \<and> (\<forall>t \<in> set (attachments d). attachment_stored S m d t)"

definition in_step :: "'b document_store \<Rightarrow> (object_key \<Rightarrow> (byte list \<times> string) option) \<Rightarrow> db \<Rightarrow> bool" where
  "in_step S m d \<longleftrightarrow> (\<forall>r \<in> set (filings d). filing_stored S m r) \<and>
     (\<forall>t \<in> set (attachments d). attachment_stored S m d t) \<and> (\<forall>x. m x \<noteq> None \<longrightarrow> x \<in> referenced S d)"

lemma rows_stored_cong:
  assumes "rows_stored S m d" and "\<And>x. m x \<noteq> None \<Longrightarrow> m' x = m x"
  shows "rows_stored S m' d"
  using assms unfolding rows_stored_def filing_stored_def attachment_stored_def blob_matches_def
  by (metis option.distinct(1))

text \<open>A call inside a transaction: a call that raises loses its rows, the object store is not part of it.\<close>

definition doc_tx :: "(error, 'b doc_world, 'a) op \<Rightarrow> (error, 'b doc_world, 'a) op" where
  "doc_tx m = (\<lambda>w. case m w of (Inl e, w') \<Rightarrow> (Inl e, w'\<lparr>dw_db := dw_db w\<rparr>) | r \<Rightarrow> r)"

lemma stored_keeps:
  assumes "m x = Some v" and "\<And>j. j \<in> set (map fst bs) \<Longrightarrow> m (bk, j) = None"
  shows "stored bk bs m x = Some v"
proof -
  have "x \<notin> Pair bk ` fst ` set bs" using assms by force
  with assms(1) show ?thesis by (simp add: stored_other)
qed

lemma filing_stored_stored:
  assumes "filing_stored S m r" and "\<And>j. j \<in> set (map fst bs) \<Longrightarrow> m (bk, j) = None"
  shows "filing_stored S (stored bk bs m) r"
  using assms(1) stored_keeps [where m = m and bs = bs and bk = bk, OF _ assms(2)]
  unfolding filing_stored_def blob_matches_def by fastforce

lemma blob_matches_stored:
  assumes "blob_matches S m src k mime sha n" and "\<And>j. j \<in> set (map fst bs) \<Longrightarrow> m (bk, j) = None"
  shows "blob_matches S (stored bk bs m) src k mime sha n"
  using assms(1) stored_keeps [where m = m and bs = bs and bk = bk, OF _ assms(2)]
  unfolding blob_matches_def by fastforce

lemma stored_Some:
  "stored bk bs m x \<noteq> None \<Longrightarrow> m x \<noteq> None \<or> x \<in> Pair bk ` fst ` set bs"
  using stored_other [of x bk bs m] by (cases "x \<in> Pair bk ` fst ` set bs") simp_all

lemma merge_filing_cols [simp]:
  "fl_id (merge_filing c ref r) = fl_id r" "fl_source_id (merge_filing c ref r) = fl_source_id r"
  "fl_object_key (merge_filing c ref r) = fl_object_key r" "fl_mime (merge_filing c ref r) = fl_mime r"
  "fl_sha256 (merge_filing c ref r) = fl_sha256 r" "fl_bytes (merge_filing c ref r) = fl_bytes r"
  "fl_xbrl_key (merge_filing c ref r) = fl_xbrl_key r" "fl_ref (merge_filing c ref r) = fl_ref r"
  "fl_revision_no (merge_filing c ref r) = fl_revision_no r" "fl_language (merge_filing c ref r) = fl_language r"
  by (simp_all add: merge_filing_def)

lemma in_step_map:
  assumes "in_step S m d" "filings d' = map f (filings d)" "attachments d' = attachments d"
    and cols: "\<And>r. fl_id (f r) = fl_id r" "\<And>r. fl_source_id (f r) = fl_source_id r" "\<And>r. fl_object_key (f r) = fl_object_key r"
      "\<And>r. fl_xbrl_key (f r) = fl_xbrl_key r" "\<And>r. filing_stored S m (f r) = filing_stored S m r"
  shows "in_step S m d'"
proof -
  have "attachment_stored S m d' t = attachment_stored S m d t" for t
    by (simp add: attachment_stored_def assms(2) cols)
  moreover have "referenced S d' = referenced S d"
    by (simp add: referenced_def row_keys_def assms(2,3) cols)
  ultimately show ?thesis
    using assms(1) by (simp add: in_step_def assms(2,3) cols)
qed

lemma in_step_merge:
  assumes "in_step S m d" "filings d' = sql_update p (merge_filing c ref) (filings d)" "attachments d' = attachments d"
  shows "in_step S m d'"
  by (rule in_step_map [OF assms(1) assms(2) [unfolded sql_update_def] assms(3)]) (simp_all add: filing_stored_def)

text \<open>The attachments of a new filing are appended: no row has its id yet and their hashes differ.\<close>

lemma insert_dn_fresh:
  assumes "distinct (map key rows)" "key ` set rows \<inter> key ` set t = {}"
  shows "fold (sql_insert_dn key) rows t = t @ rows"
  using assms
proof (induction rows arbitrary: t)
  case (Cons r rows)
  then have "sql_insert_dn key r t = t @ [r]" by (simp add: sql_insert_dn_def)
  moreover have "fold (sql_insert_dn key) rows (t @ [r]) = (t @ [r]) @ rows" using Cons by (intro Cons.IH) auto
  ultimately show ?case by simp
qed simp

lemma attachment_rows_distinct:
  assumes "check_attachments (ds_sha S) [] [] (pa_attachments a) = Inr u"
  shows "distinct (map fa_pk (attachment_rows S c a))"
proof -
  have "map fa_pk (attachment_rows S c a) = map (Pair (ds_uuid S)) (map (\<lambda>t. ds_sha S (ai_bytes t)) (pa_attachments a))"
    by (simp add: attachment_rows_def fa_pk_def attachment_row_def)
  moreover have "distinct (map (\<lambda>t. ds_sha S (ai_bytes t)) (pa_attachments a))"
    using check_attachments_distinct [OF assms] by simp
  ultimately show ?thesis by (simp only: distinct_map inj_on_def) simp
qed

lemma in_step_new:
  assumes old: "in_step S m d" and check: "check_attachments (ds_sha S) [] [] (pa_attachments a) = Inr u"
    and fresh: "\<And>k. k \<in> set (call_keys S a) \<Longrightarrow> m (bucket_of S (pa_source_id a), k) = None"
    and uniq: "filing_uniques (call_filing S c a prior lang rno) d"
    and fs: "filings d' = filings d @ [call_filing S c a prior lang rno]"
    and ts: "attachments d' = fold (sql_insert_dn fa_pk) (attachment_rows S c a) (attachments d)"
  shows "in_step S (stored (bucket_of S (pa_source_id a)) (call_blobs S a) m) d'"
proof -
  let ?bk = "bucket_of S (pa_source_id a)" and ?r = "call_filing S c a prior lang rno"
  let ?m = "stored ?bk (call_blobs S a) m"
  note keep = blob_matches_stored [where S = S and m = m and bs = "call_blobs S a" and bk = ?bk, OF _ fresh]
  have at: "(k, v) \<in> set (call_blobs S a) \<Longrightarrow> ?m (?bk, k) = Some v" for k v
    by (rule stored_at [OF call_keys_distinct [OF check]])
  have cols: "fl_id ?r = ds_uuid S" "fl_source_id ?r = pa_source_id a" "fl_mime ?r = pa_mime a"
      "fl_object_key ?r = format_object_key S a (ds_uuid S) (lit ''primary'') (pa_filename a)"
      "fl_sha256 ?r = ds_sha S (pa_bytes a)" "fl_bytes ?r = int (length (pa_bytes a))"
      "fl_xbrl_key ?r = (case xbrl_blobs S a of [] \<Rightarrow> None | b # _ \<Rightarrow> Some (fst b))"
    by (simp_all add: call_filing_def new_filing_def)
  have new_id: "fl_id r \<noteq> ds_uuid S" if "r \<in> set (filings d)" for r
    using uniq that cols(1) by (simp add: filing_uniques_def)
  have ids: "fa_filing_id t \<in> fl_id ` set (filings d)" if "t \<in> set (attachments d)" for t
    using old that by (force simp: in_step_def attachment_stored_def)
  have "fa_pk ` set (attachment_rows S c a) \<inter> fa_pk ` set (attachments d) = {}"
    using ids new_id by (fastforce simp: fa_pk_def attachment_rows_def attachment_row_def)
  then have ts': "attachments d' = attachments d @ attachment_rows S c a"
    unfolding ts by (rule insert_dn_fresh [OF attachment_rows_distinct [OF check]])
  have xbrl: "b \<in> set (call_blobs S a)" if "b \<in> set (xbrl_blobs S a)" for b
    using that by (simp add: call_blobs_def)
  have attb: "(fa_object_key t, body, ct) \<in> set (call_blobs S a)" if "t = attachment_row S c a (ds_uuid S) u" "u \<in> set (pa_attachments a)"
      "body = ai_bytes u" "ct = ai_mime u" for t u body ct
    using that by (simp add: call_blobs_def attachment_blobs_def attachment_row_def)
  have new: "?r \<in> set (filings d')" by (simp add: fs)
  have "filing_stored S ?m r" if "r \<in> set (filings d)" for r
    using old that filing_stored_stored [where S = S and m = m and bs = "call_blobs S a" and bk = ?bk, OF _ fresh] by (simp add: in_step_def)
  moreover have "filing_stored S ?m ?r"
  proof -
    have "?m (?bk, fl_object_key ?r) = Some (pa_bytes a, pa_mime a)" by (rule at) (simp add: cols call_blobs_def)
    moreover have "?m (?bk, k) \<noteq> None" if "fl_xbrl_key ?r = Some k" for k
    proof -
      from that have "k \<in> fst ` set (xbrl_blobs S a)" by (cases "xbrl_blobs S a") (auto simp: cols)
      then obtain v where "(k, v) \<in> set (xbrl_blobs S a)" by (metis imageE prod.collapse)
      from at [OF xbrl [OF this]] show ?thesis by simp
    qed
    ultimately show ?thesis by (simp add: filing_stored_def blob_matches_def cols)
  qed
  moreover have "attachment_stored S ?m d' t" if "t \<in> set (attachments d)" for t
    using old that keep by (fastforce simp: in_step_def attachment_stored_def fs)
  moreover have "attachment_stored S ?m d' t" if "t \<in> set (attachment_rows S c a)" for t
  proof -
    from that obtain u where u: "t = attachment_row S c a (ds_uuid S) u" "u \<in> set (pa_attachments a)"
      by (auto simp: attachment_rows_def)
    then have "?m (?bk, fa_object_key t) = Some (ai_bytes u, ai_mime u)" by (intro at attb) simp_all
    then show ?thesis unfolding attachment_stored_def
      by (intro bexI [OF _ new]) (simp add: u(1) cols blob_matches_def attachment_row_def)
  qed
  moreover have "x \<in> referenced S d'" if "?m x \<noteq> None" for x
    using stored_Some [OF that]
  proof
    assume "m x \<noteq> None"
    with old have "x \<in> referenced S d" unfolding in_step_def by blast
    then show ?thesis by (auto simp: referenced_def row_keys_def fs ts')
  next
    assume "x \<in> Pair ?bk ` fst ` set (call_blobs S a)"
    moreover have "fst ` set (attachment_blobs S a) = fa_object_key ` set (attachment_rows S c a)"
      by (simp add: attachment_blobs_def attachment_rows_def attachment_row_def image_image)
    moreover have "fst ` set (xbrl_blobs S a) = set_option (fl_xbrl_key ?r)"
      by (simp add: cols xbrl_blobs_def split: bool.splits option.splits)
    moreover have "fa_filing_id t = fl_id ?r" if "t \<in> set (attachment_rows S c a)" for t
      using that by (auto simp: cols attachment_rows_def attachment_row_def)
    ultimately have "x \<in> Pair ?bk ` row_keys d' ?r"
      by (auto simp: call_blobs_def row_keys_def cols(4) ts' image_Un)
    then show ?thesis unfolding referenced_def by (intro UN_I [OF new]) (simp only: cols(2))
  qed
  ultimately show ?thesis by (auto simp: in_step_def fs ts')
qed

section \<open>Calls and the object store\<close>

lemma put_filing_dedup_objs:
  assumes "object_storage (ds_api S) objs" "\<forall>bk k b. fst (oa_delete (ds_api S) bk k b) = Inr ()"
    and fresh: "\<And>k. k \<in> set (call_keys S a) \<Longrightarrow> objs (dw_obj w) (bucket_of S (pa_source_id a), k) = None"
    and put: "put_filing S c a w = (Inr r, w')" and "dw_up w' = []"
  shows "objs (dw_obj w') = objs (dw_obj w)"
proof -
  let ?bk = "bucket_of S (pa_source_id a)"
  have "object_storage.deletes_succeed (ds_api S)" using assms(1,2) by (simp add: object_storage.deletes_succeed_def)
  then have "object_storage.drop_ok (ds_api S) objs ?bk (dw_obj w) {} (set (call_keys S a))"
    using assms(1) fresh by (simp add: object_storage.drop_ok_def)
  from keepsD [OF object_storage.blob_put_steps [OF assms(1) this refl] put_filing_steps(1) [OF put]]
  have "object_storage.blob_inv objs ?bk (dw_obj w) {} (set (call_keys S a)) w'"
    using assms(1) by (simp add: object_storage.blob_inv_def)
  with assms(1,5) show ?thesis by (auto simp: object_storage.blob_inv_def)
qed

section \<open>Concrete runs\<close>

definition sample_store :: "uuid \<Rightarrow> (stmt \<Rightarrow> error option) \<Rightarrow> in_memory_fake document_store" where
  "sample_store u fault = \<lparr>ds_api = imf_api, ds_run_id = 1, ds_bucket_for = [], ds_sha = (\<lambda>b. replicate 64 (97 + length b)),
     ds_uuid = u, ds_ymd = (\<lambda>_. (2026, 1, 5)), ds_iso = (\<lambda>_. lit ''2026-01-05T00:00:00+00:00''), ds_fault = fault, ds_env = id\<rparr>"

definition sample_put :: "pystr \<Rightarrow> byte list \<Rightarrow> filing_args" where
  "sample_put ref body = \<lparr>pa_source_id = ''kap'', pa_ref = ref, pa_entity_id = None, pa_kind = ''annual_report'', pa_title = lit ''Report'',
     pa_published_at = \<lparr>instant = 900, utcoffset = Some 0\<rparr>, pa_bytes = body, pa_mime = ''text/html'', pa_filename = lit ''main.html'',
     pa_attachments = [\<lparr>ai_bytes = [7], ai_mime = ''image/png'', ai_filename = lit ''main.html'', ai_role = ''figure'', ai_sequence = 1\<rparr>],
     pa_period_start = None, pa_period_end = None, pa_subkind = None, pa_source_url = None, pa_is_amendment = False,
     pa_previous_id = None, pa_has_xbrl = False, pa_xbrl_bytes = None, pa_xbrl_filename = None, pa_language = ''tr'',
     pa_metadata = None\<rparr>"

definition sample_doc_world :: "filing list \<Rightarrow> in_memory_fake doc_world" where
  "sample_doc_world fs = \<lparr>dw_db = sample_db\<lparr>filings := fs\<rparr>, dw_obj = \<lparr>imf_bodies = [], imf_meta = []\<rparr>, dw_up = []\<rparr>"

lemma sample_store_fields [simp]:
  "ds_api (sample_store u fault) = imf_api" "ds_env (sample_store u fault) d = d" "ds_uuid (sample_store u fault) = u"
  "ds_sha (sample_store u fault) b = replicate 64 (97 + length b)" "ds_fault (sample_store u fault) = fault" "ds_run_id (sample_store u fault) = 1"
  by (simp_all add: sample_store_def)

lemma imf_upload:
  "upload (sample_store u fault) bk k body ct w = (Inr (), w\<lparr>dw_up := dw_up w @ [k], dw_obj := snd (imf_put bk k body ct (dw_obj w))\<rparr>)"
  by (simp add: upload_def track_def onobj_def imf_api_def imf_put_def thn_def bnd_def modify_def)

lemma imf_deletes: "fst (oa_delete imf_api bk k b) = Inr ()"
  by (simp add: imf_api_def imf_delete_def modify_def)

lemma imf_delete_quiet:
  "delete_quiet (sample_store u fault) bk k w = (Inr (), w\<lparr>dw_obj := snd (imf_delete bk k (dw_obj w))\<rparr>)"
  by (simp add: delete_quiet_def onobj_def imf_api_def imf_delete_def modify_def)

lemma sample_put_fields [simp]:
  "pa_source_id (sample_put ref body) = ''kap''" "pa_ref (sample_put ref body) = ref" "pa_bytes (sample_put ref body) = body"
  "pa_has_xbrl (sample_put ref body) = False" "pa_xbrl_bytes (sample_put ref body) = None" "pa_xbrl_filename (sample_put ref body) = None"
  "pa_entity_id (sample_put ref body) = None" "pa_previous_id (sample_put ref body) = None" "pa_is_amendment (sample_put ref body) = False"
  "char2 (pa_language (sample_put ref body)) = Some ''tr''"
  "pa_attachments (sample_put ref body) =
     [\<lparr>ai_bytes = [7], ai_mime = ''image/png'', ai_filename = lit ''main.html'', ai_role = ''figure'', ai_sequence = 1\<rparr>]"
  by (simp_all add: sample_put_def char2_def)

lemma sample_doc_world_fields [simp]:
  "dw_db (sample_doc_world fs) = sample_db\<lparr>filings := fs\<rparr>" "dw_up (sample_doc_world fs) = []"
  "imf_objs (dw_obj (sample_doc_world fs)) = (\<lambda>_. None)"
  by (simp_all add: sample_doc_world_def imf_objs_def fun_eq_iff)

lemma sample_bucket [simp]: "bucket_of (sample_store u fault) ''kap'' = ''aslan-filings''"
  by (simp add: bucket_of_def sample_store_def DEFAULT_BUCKETS_def)

lemma sample_db_fields [simp]: "sources sample_db = [''kap'']" "runs sample_db = [sample_run]" "run_id sample_run = 1"
  by (simp_all add: sample_db_def empty_db_def sample_run_def)

text \<open>New bytes with an attachment of the same name; only the audit statement may fail.\<close>

lemma sample_put_new:
  fixes u fault ref body prior fs
  defines "S \<equiv> sample_store u fault" and "a \<equiv> sample_put ref body" and "d \<equiv> sample_db\<lparr>filings := fs\<rparr>"
  defines "f \<equiv> call_filing S sample_ctx a prior ''tr'' (next_rev ''kap'' ref d)"
  assumes fault: "\<And>k. k \<noteq> AuditStmt \<Longrightarrow> fault k = None"
    and prior: "find_canonical_by_ref ''kap'' ref d = (Inr prior, d)"
    and new: "sql_find (same_bytes ''kap'' (replicate 64 (97 + length body))) fs = None"
    and ok: "filing_uniques f d" "snd (chain_fields (ds_sha S body) a prior) \<in> insert None (Some ` fl_id ` set fs)"
  shows "\<exists>w'. put_steps S sample_ctx a (sample_doc_world fs) =
     (case fault AuditStmt of Some e \<Rightarrow> Inl e
      | None \<Rightarrow> Inr \<lparr>pr_filing = f, pr_created = True, pr_is_revision = (1 < fl_revision_no f),
          pr_revision_no = fl_revision_no f, pr_bucket = ''aslan-filings'', pr_object_keys = call_keys S a\<rparr>, w')"
proof -
  let ?k = "format_object_key S a u (lit ''primary'') (pa_filename a)"
  let ?c = "chain_fields (ds_sha S body) a prior"
  have f: "f = new_filing S sample_ctx a ?k None (fst ?c) (snd ?c) ''tr'' (next_rev ''kap'' ref d)"
    by (simp add: f_def call_filing_def xbrl_blobs_def a_def S_def)
  have "filing_fks f d"
    using ok(2) by (auto simp: filing_fks_def f new_filing_def a_def S_def d_def)
  moreover have c: "char2 (pa_language a) = Some ''tr''" "pa_source_id a = ''kap''" "pa_ref a = ref" "filings d = fs"
    "fl_sha256 f = replicate 64 (97 + length body)" "fl_id f = u"
    by (simp_all add: f new_filing_def a_def S_def d_def)
  ultimately have up: "upsert_filing S sample_ctx a ?k None (fst ?c) (snd ?c) d =
      (Inr (u, fl_revision_no f, True), d\<lparr>filings := fs @ [f]\<rparr>)"
    unfolding upsert_filing_def Let_def c option.case f [symmetric] new using ok(1) by simp
  have no: "fl_id r \<noteq> u" if "r \<in> set fs" for r using ok(1) that by (simp add: filing_uniques_def f new_filing_def S_def d_def)
  have id: "fl_id f = u" "row_to_filing f = Inr f" by (simp_all add: f new_filing_def S_def row_to_filing_def)
  have "sql_find (\<lambda>r. fl_id r = u) fs = None" using no by (simp add: sql_find_None_iff)
  then have get: "get_filing u (d\<lparr>filings := fs @ [f], attachments := t\<rparr>) = (Inr f, d\<lparr>filings := fs @ [f], attachments := t\<rparr>)" for t
    using id by (simp add: get_filing_Inr_iff sql_find_append)
  show ?thesis
    unfolding put_steps_def Let_def
    using fault prior up get id
    by (cases "fault AuditStmt")
      (simp_all add: thn_def bnd_def upload_primary_def imf_upload upload_xbrl_def db_stmt_def ondb_def ret_def gets_def modify_def
         S_def a_def d_def raise_def persist_attachments_def insert_attachment_def attachment_row_def put_operation_def lift_def
         audit_eval call_blobs_def xbrl_blobs_def attachment_blobs_def)
qed

lemma imf_delete_all: "\<exists>b. for_each (delete_quiet (sample_store u fault) bk) ks w = (Inr (), w\<lparr>dw_obj := b\<rparr>)"
proof (induction ks arbitrary: w)
  case Nil
  show ?case by (rule exI [of _ "dw_obj w"]) (simp add: ret_def)
next
  case (Cons k ks)
  from Cons [of "w\<lparr>dw_obj := snd (imf_delete bk k (dw_obj w))\<rparr>"] show ?case
    by (auto simp: thn_def bnd_def imf_delete_quiet)
qed

lemma sample_put_filing:
  assumes "put_steps (sample_store u fault) sample_ctx (sample_put ref body) (sample_doc_world fs) = (r, w1)"
  shows "\<exists>w'. put_filing (sample_store u fault) sample_ctx (sample_put ref body) (sample_doc_world fs) =
    (case r of Inl e \<Rightarrow> Inl (typed_error e) | Inr x \<Rightarrow> Inr x, w')"
proof -
  have up: "(sample_doc_world fs)\<lparr>dw_up := []\<rparr> = sample_doc_world fs" by (simp add: sample_doc_world_def)
  show ?thesis
    using assms imf_delete_all [of u fault "''aslan-filings''" "dw_up w1" w1]
    by (cases r) (auto simp: put_filing_eval up check_xbrl_def thn_def bnd_def raise_def)
qed

lemma sample_first_put:
  assumes "\<And>k. k \<noteq> AuditStmt \<Longrightarrow> fault k = None"
  shows "\<exists>r w'. put_filing (sample_store 1 fault) sample_ctx (sample_put (lit ''A'') [1]) (sample_doc_world []) =
     (case fault AuditStmt of Some e \<Rightarrow> Inl (typed_error e) | None \<Rightarrow> Inr r, w') \<and> pr_created r"
proof -
  obtain r w1 where "put_steps (sample_store 1 fault) sample_ctx (sample_put (lit ''A'') [1]) (sample_doc_world []) =
      (case fault AuditStmt of Some e \<Rightarrow> Inl e | None \<Rightarrow> Inr r, w1)" "pr_created r"
  proof (rule exE [OF sample_put_new [OF assms, where u = 1 and ref = "lit ''A''" and fs = "[]" and prior = None and body = "[1]"]])
    show "find_canonical_by_ref ''kap'' (lit ''A'') (sample_db\<lparr>filings := []\<rparr>) = (Inr None, sample_db\<lparr>filings := []\<rparr>)"
      by (simp add: find_canonical_by_ref_def first_row_def ret_def)
  qed (auto simp: filing_uniques_def chain_fields_def)
  then show ?thesis
    using sample_put_filing [of 1 fault "lit ''A''" "[1]" "[]"] by (cases "fault AuditStmt") fastforce+
qed

section \<open>What a call promises\<close>

text \<open>C5. A call of \<open>put_filing\<close> that raises, whatever failed and whoever wrote meanwhile, leaves the object
  store as it was: with deletes that succeed, no blob of the call is left behind and none is lost.\<close>

theorem put_filing_no_orphans:
  assumes "object_storage (ds_api S) objs"
    and "\<forall>bk k b. fst (oa_delete (ds_api S) bk k b) = Inr ()"
    and "\<forall>k \<in> set (call_keys S a). objs (dw_obj w) (bucket_of S (pa_source_id a), k) = None"
    and "put_filing S c a w = (Inl e, w')"
  shows "objs (dw_obj w') = objs (dw_obj w)"
proof -
  have "object_storage.deletes_succeed (ds_api S)" using assms(1,2) by (simp add: object_storage.deletes_succeed_def)
  from object_storage.failed_put_restores [OF assms(1) this refl _ assms(4)] assms(3) show ?thesis by blast
qed

theorem put_filing_no_orphans_witness:
  "\<exists>e w'. put_filing (sample_store 1 (\<lambda>k. if k = AuditStmt then Some CancelledError else None)) sample_ctx
      (sample_put (lit ''A'') [1]) (sample_doc_world []) = (Inl e, w') \<and> imf_objs (dw_obj w') = (\<lambda>_. None)"
proof -
  let ?S = "sample_store 1 (\<lambda>k. if k = AuditStmt then Some CancelledError else None)"
  obtain e w' where run: "put_filing ?S sample_ctx (sample_put (lit ''A'') [1]) (sample_doc_world []) = (Inl e, w')"
    using sample_first_put [of "\<lambda>k. if k = AuditStmt then Some CancelledError else None"] by auto
  have "imf_objs (dw_obj w') = imf_objs (dw_obj (sample_doc_world []))"
    by (rule put_filing_no_orphans [OF _ _ _ run])
      (simp_all add: fake.object_storage_axioms imf_deletes)
  with run show ?thesis by simp
qed

text \<open>A call that left the objects of the others alone and stored no filing: what it leaves of its own.\<close>

lemma leftover_in_step:
  assumes "in_step S m d" and outside: "\<And>x. x \<notin> B \<Longrightarrow> m' x = m x" and fresh: "\<And>x. x \<in> B \<Longrightarrow> m x = None"
    and restored: "deletes \<Longrightarrow> m' = m"
  shows "rows_stored S m' d \<and> (\<forall>x. m' x \<noteq> None \<longrightarrow> x \<in> referenced S d \<or> x \<in> B) \<and> (deletes \<longrightarrow> in_step S m' d)"
proof -
  have "m' x = m x" if "m x \<noteq> None" for x using that outside fresh by metis
  moreover have "rows_stored S m d" using assms(1) by (simp add: in_step_def rows_stored_def)
  ultimately have "rows_stored S m' d" using rows_stored_cong by blast
  moreover have "x \<in> referenced S d \<or> x \<in> B" if "m' x \<noteq> None" for x
    using that outside [of x] assms(1) unfolding in_step_def by metis
  ultimately show ?thesis using assms(1) restored by auto
qed



text \<open>C18. Releasing the manifest of a successful call takes back what the call stored, and nothing else.
  With deletes that succeed the object store is what it was before the call. \<open>release\<close> is best effort:
  a delete that fails is logged and passed over, so in general the store differs from what it was before the
  call at most under the keys of the call.\<close>

theorem release_undoes_put:
  assumes "object_storage (ds_api S) objs"
    and "\<forall>k \<in> set (call_keys S a). objs (dw_obj w) (bucket_of S (pa_source_id a), k) = None"
    and "put_filing S c a w = (Inr r, w')" and "release S c' r w' = (Inr u, w'')"
  shows "((\<forall>bk k b. fst (oa_delete (ds_api S) bk k b) = Inr ()) \<longrightarrow> objs (dw_obj w'') = objs (dw_obj w)) \<and>
    (\<forall>x. x \<notin> Pair (bucket_of S (pa_source_id a)) ` set (call_keys S a) \<longrightarrow> objs (dw_obj w'') x = objs (dw_obj w) x)"
proof -
  let ?bk = "bucket_of S (pa_source_id a)"
  have fresh: "\<And>k. k \<in> set (call_keys S a) \<Longrightarrow> objs (dw_obj w) (?bk, k) = None" using assms(2) by blast
  have "\<exists>d. for_each (delete_quiet S (pr_bucket r)) (pr_object_keys r) (w'\<lparr>dw_db := d\<rparr>) = (Inr u, w'')"
    using assms(4) by (auto simp: release_def thn_Inr_iff assert_actor_or_strict_raise_def db_stmt_Inr_iff split: if_splits)
  then obtain d where del: "for_each (delete_quiet S (pr_bucket r)) (pr_object_keys r) (w'\<lparr>dw_db := d\<rparr>) = (Inr u, w'')" ..
  have keys: "pr_created r \<Longrightarrow> pr_bucket r = ?bk \<and> pr_object_keys r = call_keys S a"
    by (rule object_storage.put_filing_created [OF assms(1,3) refl]) simp_all
  have none: "\<not> pr_created r \<Longrightarrow> pr_object_keys r = [] \<and> dw_up w' = []"
    by (rule object_storage.put_filing_existing [OF assms(1,3) refl]) simp_all
  have "objs (dw_obj w'') = objs (dw_obj w)" if ok: "\<forall>bk k b. fst (oa_delete (ds_api S) bk k b) = Inr ()"
  proof -
    have "object_storage.deletes_succeed (ds_api S)" using assms(1) ok by (simp add: object_storage.deletes_succeed_def)
    from object_storage.delete_all [OF assms(1) this refl, of "pr_bucket r" "pr_object_keys r" "w'\<lparr>dw_db := d\<rparr>"] del
    have rel: "objs (dw_obj w'') = (\<lambda>x. if x \<in> Pair (pr_bucket r) ` set (pr_object_keys r) then None else objs (dw_obj w') x)"
      by auto
    show ?thesis
    proof (cases "pr_created r")
      case True
      then show ?thesis
        by (rule object_storage.put_filing_created [OF assms(1,3) refl])
          (simp only: rel stored_delete [where bs = "call_blobs S a" and m = "objs (dw_obj w)", OF fresh])
    next
      case False
      with rel none put_filing_dedup_objs [OF assms(1) ok fresh assms(3)] show ?thesis by simp
    qed
  qed
  moreover have "objs (dw_obj w'') x = objs (dw_obj w) x" if x: "x \<notin> Pair ?bk ` set (call_keys S a)" for x
  proof -
    have "x \<notin> Pair (pr_bucket r) ` set (pr_object_keys r)" using x keys none by (cases "pr_created r") auto
    from object_storage.delete_all_frame [OF assms(1) refl del this] object_storage.put_filing_frame [OF assms(1) refl assms(3) x]
    show ?thesis by simp
  qed
  ultimately show ?thesis by blast
qed

theorem release_undoes_put_witness:
  "\<exists>r w' w''. put_filing (sample_store 1 (\<lambda>_. None)) sample_ctx (sample_put (lit ''A'') [1]) (sample_doc_world []) = (Inr r, w') \<and>
     pr_created r \<and> release (sample_store 1 (\<lambda>_. None)) sample_ctx r w' = (Inr (), w'') \<and> imf_objs (dw_obj w'') = (\<lambda>_. None)"
proof -
  let ?S = "sample_store 1 (\<lambda>_. None)"
  obtain r w' where run: "put_filing ?S sample_ctx (sample_put (lit ''A'') [1]) (sample_doc_world []) = (Inr r, w')" "pr_created r"
    using sample_first_put [of "\<lambda>_. None"] by auto
  obtain w'' where rel: "release ?S sample_ctx r w' = (Inr (), w'')"
    using imf_delete_all [of 1 "\<lambda>_. None" "pr_bucket r" "pr_object_keys r"]
    by (simp add: release_def thn_def bnd_def assert_actor_cases db_stmt_def ondb_def audit_eval) metis
  have "imf_objs (dw_obj w'') = imf_objs (dw_obj (sample_doc_world []))"
    by (rule release_undoes_put [OF _ _ run(1) rel, THEN conjunct1, THEN mp])
      (simp_all add: fake.object_storage_axioms imf_deletes)
  with run rel show ?thesis by auto
qed

end
