(* ===== verification/Doc_Chain.thy ===== *)
theory Doc_Chain
  imports Doc_Laws "HOL-Library.Multiset"
begin

text \<open>
  Revisions and aliases: the revisions of a reference are numbered 1, 2, ... in the order of their
  insertion, each new one pointing to the one before it, and bytes that are stored already get an alias
  instead of a row.
\<close>

section \<open>Revision chains\<close>

definition chain :: "string \<Rightarrow> pystr \<Rightarrow> db \<Rightarrow> filing list" where
  "chain src ref d = filter (\<lambda>r. fl_source_id r = src \<and> fl_ref r = ref) (filings d)"

definition chains_ok :: "db \<Rightarrow> bool" where
  "chains_ok d \<longleftrightarrow> (\<forall>src ref. map fl_revision_no (chain src ref d) = map int [1..<Suc (length (chain src ref d))])"

definition rows_valid :: "db \<Rightarrow> bool" where
  "rows_valid d \<longleftrightarrow> (\<forall>r \<in> set (filings d). row_to_filing r = Inr r)"

lemma chain_revs: "chains_ok d \<Longrightarrow> map fl_revision_no (chain src ref d) = map int [1..<Suc (length (chain src ref d))]"
  by (simp add: chains_ok_def)

lemma chain_revs_distinct: "chains_ok d \<Longrightarrow> inj_on fl_revision_no (set (chain src ref d))"
  using chain_revs [of d src ref] by (metis (no_types) distinct_map distinct_upt inj_on_of_nat)

lemma chain_revs_sorted: "chains_ok d \<Longrightarrow> sorted (map fl_revision_no (chain src ref d))"
  unfolding chain_revs by (simp add: sorted_map del: upt_Suc)

lemma next_rev_chain:
  assumes "chains_ok d"
  shows "next_rev src ref d = int (length (chain src ref d)) + 1"
proof -
  let ?n = "length (chain src ref d)"
  have "next_rev src ref d = (if ?n = 0 then 0 else Max (int ` {1..?n})) + 1"
    using arg_cong [OF chain_revs [OF assms, of src ref], of set]
    by (simp add: next_rev_def Let_def chain_def [symmetric] atLeastLessThanSuc_atLeastAtMost del: upt_Suc)
  moreover have "Max (int ` {1..?n}) = int ?n" if "?n \<noteq> 0"
  proof (rule Max_eqI)
    show "int ?n \<in> int ` {1..?n}" using that by (intro imageI) (simp add: Suc_le_eq)
  qed auto
  ultimately show ?thesis by (cases "?n = 0") simp_all
qed

lemma latest_of_chain:
  assumes "chains_ok d" "find_canonical_by_ref src ref d = (Inr prior, d')"
  shows "prior = (if chain src ref d = [] then None else Some (last (chain src ref d)))"
proof -
  have "sort_key (\<lambda>r. - fl_revision_no r) (chain src ref d) = rev (chain src ref d)"
  proof (rule sort_key_inj_key_eq)
    show "inj_on (\<lambda>r. - fl_revision_no r) (set (chain src ref d))"
      using chain_revs_distinct [OF assms(1)] by (simp add: inj_on_def)
    show "sorted (map (\<lambda>r. - fl_revision_no r) (rev (chain src ref d)))"
      using chain_revs_sorted [OF assms(1), of src ref] by (simp add: sorted_map rev_map sorted_wrt_rev)
  qed simp
  then show ?thesis
    using assms(2) by (cases "chain src ref d" rule: rev_cases)
      (auto simp: find_canonical_by_ref_def chain_def first_row_def ret_def bnd_def lift_def row_to_filing_def split: if_splits)
qed

lemma amendment_chain_eval:
  assumes "chains_ok d" "rows_valid d" "sql_find (\<lambda>r. fl_id r = fid) (filings d) = Some m"
  shows "amendment_chain fid d = (Inr (chain (fl_source_id m) (fl_ref m) d), d)"
proof -
  let ?ch = "chain (fl_source_id m) (fl_ref m) d"
  have "sort_key fl_revision_no ?ch = ?ch"
    by (rule sort_key_inj_key_eq [OF refl chain_revs_distinct [OF assms(1)] chain_revs_sorted [OF assms(1)]])
  moreover have "collect (\<lambda>r. lift (row_to_filing r)) rs d = (Inr rs, d)" if "set rs \<subseteq> set (filings d)" for rs
    using that assms(2) by (induction rs) (auto simp: rows_valid_def ret_def bnd_def lift_def)
  moreover have "set ?ch \<subseteq> set (filings d)" by (auto simp: chain_def)
  ultimately show ?thesis using assms(3) by (simp add: amendment_chain_def chain_def)
qed

lemma chains_ok_snoc:
  assumes "chains_ok d" "filings d' = filings d @ [r]" "fl_revision_no r = next_rev (fl_source_id r) (fl_ref r) d"
  shows "chains_ok d'"
proof -
  have "chain src ref d' = (if fl_source_id r = src \<and> fl_ref r = ref then chain src ref d @ [r] else chain src ref d)" for src ref
    by (simp add: chain_def assms(2))
  then have "map fl_revision_no (chain src ref d') = map int [1..<Suc (length (chain src ref d'))]" for src ref
    using chain_revs [OF assms(1), of src ref] next_rev_chain [OF assms(1), of src ref] assms(3) by (auto simp del: upt_Suc simp: upt_Suc_append)
  then show ?thesis by (simp add: chains_ok_def)
qed

lemma chains_ok_merge:
  assumes "chains_ok d" "filings d' = sql_update p (merge_filing c ref0) (filings d)"
  shows "chains_ok d'"
proof -
  have "map fl_revision_no (chain src ref d') = map fl_revision_no (chain src ref d)" for src ref
    unfolding chain_def assms(2) sql_update_def filter_map comp_def by (simp cong: map_cong if_cong)
  moreover from this have "length (chain src ref d') = length (chain src ref d)" for src ref by (metis length_map)
  ultimately show ?thesis using assms(1) unfolding chains_ok_def by simp
qed

lemma put_filing_keeps_chains:
  assumes "object_storage (ds_api S) objs" "\<And>d. chains_ok d \<Longrightarrow> chains_ok (ds_env S d)" "chains_ok (dw_db w)"
    and put: "put_filing S c a w = (Inr r, w')"
  shows "chains_ok (dw_db w')"
proof (cases "pr_created r")
  case True
  obtain lang prior where
    f: "pr_filing r = call_filing S c a prior lang (next_rev (pa_source_id a) (pa_ref a) (ds_env S (dw_db w)))"
    and fs: "filings (dw_db w') = filings (ds_env S (dw_db w)) @ [pr_filing r]"
    by (rule object_storage.put_filing_created [OF assms(1) put refl True])
  show ?thesis
    by (rule chains_ok_snoc [OF assms(2) [OF assms(3)] fs]) (simp add: f call_filing_def new_filing_def)
next
  case False
  obtain "filings (dw_db w') = sql_update (same_bytes (pa_source_id a) (ds_sha S (pa_bytes a))) (merge_filing c (pa_ref a))
      (filings (ds_env S (dw_db w)))"
    by (rule object_storage.put_filing_existing [OF assms(1) put refl False])
  then show ?thesis by (rule chains_ok_merge [OF assms(2) [OF assms(3)]])
qed

text \<open>A filing stored before.\<close>

definition sample_filing :: filing where
  "sample_filing = call_filing (sample_store 1 (\<lambda>_. None)) sample_ctx (sample_put (lit ''A'') [1]) None ''tr'' 1"

lemma sample_filing_fields [simp]:
  "fl_id sample_filing = 1" "fl_source_id sample_filing = ''kap''" "fl_ref sample_filing = lit ''A''" "fl_revision_no sample_filing = 1"
  "fl_sha256 sample_filing = replicate 64 98" "fl_metadata sample_filing = []" "row_to_filing sample_filing = Inr sample_filing"
  "fl_language sample_filing = ''tr''"
  by (simp_all add: sample_filing_def call_filing_def new_filing_def row_to_filing_def sample_put_def)

text \<open>C17. New bytes extend the revision chain of their reference: the new row gets the next number, is the
  end of \<open>amendment_chain\<close>, and where the caller left the fields at their defaults it is marked an
  amendment of the revision before it.\<close>

theorem put_extends_chain:
  assumes "object_storage (ds_api S) objs" and "\<forall>d. ds_env S d = d"
    and "chains_ok (dw_db w)" and "rows_valid (dw_db w)"
    and "put_filing S c a w = (Inr r, w')" and "pr_created r"
    and "pa_previous_id a = None" and "\<not> pa_is_amendment a"
  shows "amendment_chain (fl_id (pr_filing r)) (dw_db w') =
      (Inr (chain (pa_source_id a) (pa_ref a) (dw_db w) @ [pr_filing r]), dw_db w') \<and>
    pr_revision_no r = int (length (chain (pa_source_id a) (pa_ref a) (dw_db w))) + 1 \<and>
    chains_ok (dw_db w') \<and>
    (fl_is_amendment (pr_filing r), fl_previous_id (pr_filing r)) =
      (if chain (pa_source_id a) (pa_ref a) (dw_db w) = [] then (False, None)
       else (True, Some (fl_id (last (chain (pa_source_id a) (pa_ref a) (dw_db w))))))"
proof -
  let ?ch = "chain (pa_source_id a) (pa_ref a) (dw_db w)"
  have env: "ds_env S d = d" for d using assms(2) by simp
  obtain lang prior where
    p: "find_canonical_by_ref (pa_source_id a) (pa_ref a) (dw_db w) = (Inr prior, dw_db w)"
    and f: "pr_filing r = call_filing S c a prior lang (next_rev (pa_source_id a) (pa_ref a) (dw_db w))"
    and new: "sql_find (same_bytes (pa_source_id a) (ds_sha S (pa_bytes a))) (filings (dw_db w)) = None"
    and u: "filing_uniques (pr_filing r) (dw_db w)" and fs: "filings (dw_db w') = filings (dw_db w) @ [pr_filing r]"
    and rno: "pr_revision_no r = fl_revision_no (pr_filing r)" and ok: "row_to_filing (pr_filing r) = Inr (pr_filing r)"
    by (rule object_storage.put_filing_created [OF assms(1,5) refl assms(6)]) (simp add: env)
  have ch': "chains_ok (dw_db w')"
    using put_filing_keeps_chains [OF assms(1) _ assms(3,5)] by (simp add: env)
  have cols: "fl_source_id (pr_filing r) = pa_source_id a" "fl_ref (pr_filing r) = pa_ref a"
    "fl_revision_no (pr_filing r) = next_rev (pa_source_id a) (pa_ref a) (dw_db w)"
    by (simp_all add: f call_filing_def new_filing_def)
  have "sql_find (\<lambda>x. fl_id x = fl_id (pr_filing r)) (filings (dw_db w)) = None"
    using u by (simp add: sql_find_None_iff filing_uniques_def)
  then have "sql_find (\<lambda>x. fl_id x = fl_id (pr_filing r)) (filings (dw_db w')) = Some (pr_filing r)"
    by (simp add: fs sql_find_append)
  moreover have "rows_valid (dw_db w')" using assms(4) ok by (simp add: rows_valid_def fs)
  moreover have "chain (pa_source_id a) (pa_ref a) (dw_db w') = ?ch @ [pr_filing r]" by (simp add: chain_def fs cols)
  ultimately have am: "amendment_chain (fl_id (pr_filing r)) (dw_db w') = (Inr (?ch @ [pr_filing r]), dw_db w')"
    using amendment_chain_eval [OF ch'] cols(1,2) by metis
  have "fl_sha256 (last ?ch) \<noteq> ds_sha S (pa_bytes a)" if "?ch \<noteq> []"
    using last_in_set [OF that] new by (auto simp: chain_def sql_find_None_iff same_bytes_def)
  then have "(fl_is_amendment (pr_filing r), fl_previous_id (pr_filing r)) = (if ?ch = [] then (False, None) else (True, Some (fl_id (last ?ch))))"
    using latest_of_chain [OF assms(3) p] assms(7,8) by (auto simp: f call_filing_def new_filing_def chain_fields_def)
  with am ch' show ?thesis using next_rev_chain [OF assms(3)] rno cols(3) by simp
qed

theorem put_extends_chain_witness:
  "\<exists>r w'. put_filing (sample_store 2 (\<lambda>_. None)) sample_ctx (sample_put (lit ''A'') [1, 2]) (sample_doc_world [sample_filing]) = (Inr r, w') \<and>
     amendment_chain (fl_id (pr_filing r)) (dw_db w') = (Inr [sample_filing, pr_filing r], dw_db w') \<and>
     fl_previous_id (pr_filing r) = Some 1"
proof -
  let ?S = "sample_store 2 (\<lambda>_. None)" and ?a = "sample_put (lit ''A'') [1, 2]"
  obtain r w1 where steps: "put_steps ?S sample_ctx ?a (sample_doc_world [sample_filing]) = (Inr r, w1)" "pr_created r"
  proof (rule exE [OF sample_put_new [where u = 2 and fault = "\<lambda>_. None" and ref = "lit ''A''" and fs = "[sample_filing]"
          and prior = "Some sample_filing" and body = "[1, 2]"]])
    show "find_canonical_by_ref ''kap'' (lit ''A'') (sample_db\<lparr>filings := [sample_filing]\<rparr>) =
        (Inr (Some sample_filing), sample_db\<lparr>filings := [sample_filing]\<rparr>)"
      by (simp add: find_canonical_by_ref_def first_row_def bnd_def lift_def ret_def)
  qed (auto simp: filing_uniques_def chain_fields_def same_bytes_def call_filing_def new_filing_def next_rev_def)
  from sample_put_filing [OF steps(1)]
  obtain w' where run: "put_filing ?S sample_ctx ?a (sample_doc_world [sample_filing]) = (Inr r, w')" by auto
  have ch: "chain ''kap'' (lit ''A'') (sample_db\<lparr>filings := [sample_filing]\<rparr>) = [sample_filing]" by (simp add: chain_def)
  have ok: "chains_ok (dw_db (sample_doc_world [sample_filing]))" "rows_valid (dw_db (sample_doc_world [sample_filing]))"
    by (simp_all add: chains_ok_def chain_def rows_valid_def)
  from put_extends_chain [OF _ _ ok run steps(2), of imf_objs] ch run show ?thesis
    by (auto simp: fake.object_storage_axioms)
qed

section \<open>Bytes stored already\<close>

lemma merge_filing_matches: "fl_ref (merge_filing c ref r) = ref \<or> alias_matches ref (merge_filing c ref r)"
  by (auto simp: merge_filing_def alias_matches_def aliased_def republished_def with_alias_def map_of_obj_set
      split: option.splits json.splits)

lemma filter_map_single:
  assumes "distinct xs" "x \<in> set xs" "\<And>y. y \<in> set xs \<Longrightarrow> P (f y) \<longleftrightarrow> y = x"
  shows "filter P (map f xs) = [f x]"
  using assms
proof (induction xs)
  case (Cons y ys)
  show ?case
  proof (cases "y = x")
    case True
    with Cons.prems have "\<not> P (f z)" if "z \<in> set ys" for z using that by auto
    then have "filter P (map f ys) = []" by (simp add: filter_empty_conv)
    with True Cons.prems show ?thesis by simp
  next
    case False
    with Cons show ?thesis by auto
  qed
qed simp

text \<open>Bytes that are stored already never make a second row: the call returns the row that has them, and
  the reference they came with resolves to that row, directly or as an alias.\<close>

lemma republished_ref_resolves:
  assumes "object_storage (ds_api S) objs" and "\<forall>d. ds_env S d = d"
    and "distinct (map (\<lambda>r. (fl_source_id r, fl_sha256 r)) (filings (dw_db w)))"
    and "distinct (map fl_id (filings (dw_db w)))"
    and "x \<in> set (filings (dw_db w))" and "same_bytes (pa_source_id a) (ds_sha S (pa_bytes a)) x"
    and "\<forall>y \<in> set (filings (dw_db w)). y \<noteq> x \<longrightarrow> fl_source_id y = pa_source_id a \<longrightarrow>
           fl_ref y \<noteq> pa_ref a \<and> \<not> alias_matches (pa_ref a) y"
    and "put_filing S c a w = (Inr r, w')"
  shows "\<not> pr_created r \<and> fl_id (pr_filing r) = fl_id x \<and> map fl_id (filings (dw_db w')) = map fl_id (filings (dw_db w)) \<and>
    find_by_source_ref (pa_source_id a) (pa_ref a) (dw_db w') = (Inr (Some (pr_filing r)), dw_db w')"
proof -
  let ?fs = "filings (dw_db w)" and ?same = "same_bytes (pa_source_id a) (ds_sha S (pa_bytes a))"
  let ?f = "\<lambda>y. if ?same y then merge_filing c (pa_ref a) y else y"
  have env: "ds_env S d = d" for d using assms(2) by simp
  have found: "sql_find ?same ?fs \<noteq> None" using assms(5,6) by (auto simp: sql_find_None_iff)
  have old: "\<not> pr_created r"
  proof
    assume "pr_created r"
    then show False by (rule object_storage.put_filing_created [OF assms(1,8) refl]) (use found in \<open>simp add: env\<close>)
  qed
  have only: "?same y \<longleftrightarrow> y = x" if "y \<in> set ?fs" for y
    using assms(3,5,6) that by (auto simp: same_bytes_def distinct_map inj_on_def)
  obtain x' where x': "sql_find ?same ?fs = Some x'" and fs: "filings (dw_db w') = map ?f ?fs"
    and f: "sql_find (\<lambda>r. fl_id r = fl_id x') (filings (dw_db w')) = Some (pr_filing r)"
    and ok: "row_to_filing (pr_filing r) = Inr (pr_filing r)"
    by (rule object_storage.put_filing_existing [OF assms(1,8) refl old]) (simp add: env sql_update_def)
  have "x' = x" using sql_find_Some_iff [OF x'] only by blast
  have ids: "map fl_id (filings (dw_db w')) = map fl_id ?fs" by (simp add: fs)
  have "merge_filing c (pa_ref a) x \<in> set (filings (dw_db w'))" using assms(5,6) by (force simp: fs)
  from sql_find_unique [OF assms(4) [folded ids] this] f \<open>x' = x\<close> have pf: "pr_filing r = ?f x" using assms(6) by simp
  have "filter (\<lambda>r. fl_source_id r = pa_source_id a \<and> (fl_ref r = pa_ref a \<or> alias_matches (pa_ref a) r)) (map ?f ?fs) = [?f x]"
  proof (rule filter_map_single [OF _ assms(5)])
    show "distinct ?fs" using assms(4) by (simp add: distinct_map)
    fix y assume y: "y \<in> set ?fs"
    show "(fl_source_id (?f y) = pa_source_id a \<and> (fl_ref (?f y) = pa_ref a \<or> alias_matches (pa_ref a) (?f y))) \<longleftrightarrow> y = x"
    proof (cases "y = x")
      case True
      with assms(6) merge_filing_matches [of c "pa_ref a" x] show ?thesis by (simp add: same_bytes_def)
    next
      case False
      with assms(7) y only [OF y] show ?thesis by auto
    qed
  qed
  then have "find_by_source_ref (pa_source_id a) (pa_ref a) (dw_db w') = (Inr (Some (?f x)), dw_db w')"
    using ok by (simp add: find_by_source_ref_def fs first_row_def pf bnd_def lift_def ret_def)
  with old ids assms(6) show ?thesis by (simp add: pf)
qed

lemma republished_ref_resolves_witness:
  "\<exists>r w'. put_filing (sample_store 2 (\<lambda>_. None)) sample_ctx (sample_put (lit ''B'') [1]) (sample_doc_world [sample_filing]) = (Inr r, w') \<and>
     \<not> pr_created r \<and> find_by_source_ref ''kap'' (lit ''B'') (dw_db w') = (Inr (Some (pr_filing r)), dw_db w')"
proof -
  let ?S = "sample_store 2 (\<lambda>_. None)" and ?a = "sample_put (lit ''B'') [1]"
  have "\<exists>r w1. put_steps ?S sample_ctx ?a (sample_doc_world [sample_filing]) = (Inr r, w1)"
    by (simp add: put_steps_def Let_def thn_def bnd_def upload_primary_def imf_upload upload_xbrl_def db_stmt_def ondb_def ret_def
        gets_def modify_def find_canonical_by_ref_def first_row_def upsert_filing_def new_filing_def same_bytes_def sql_update_def
        drop_blobs_def drop_blob_def imf_delete_quiet get_filing_def lift_def row_to_filing_def put_operation_def py_aliased_def
        republished_def audit_eval)
  then obtain r w1 where "put_steps ?S sample_ctx ?a (sample_doc_world [sample_filing]) = (Inr r, w1)" by blast
  from sample_put_filing [OF this]
  obtain w' where run: "put_filing ?S sample_ctx ?a (sample_doc_world [sample_filing]) = (Inr r, w')" by auto
  from republished_ref_resolves [OF _ _ _ _ _ _ _ run, of imf_objs sample_filing] run show ?thesis
    by (auto simp: fake.object_storage_axioms same_bytes_def)
qed

end
