(* ===== verification/Api_Http.thy ===== *)
theory Api_Http
  imports Py_Json Uuid_Text Errors
begin

text \<open>
  The frame of the HTTP API (\<open>api/deps.py\<close>, \<open>api/middleware.py\<close>, \<open>api/research_logging.py\<close>): exceptions with
  a status, sessions that a handler commits itself, and the bodies of error responses.
\<close>

section \<open>Exceptions and sessions\<close>

record http_exception =
  hx_status :: int
  hx_detail :: json
  hx_headers :: "(string \<times> pystr) list"

text \<open>An error of FastAPI's validation of the request: where it is, in texts and numbers, and what it is.\<close>

record validation_error =
  ve_loc :: "json list option"
  ve_msg :: "pystr option"

text \<open>What a request can end with: \<open>HTTPException\<close>, \<open>RequestValidationError\<close>, or any other exception.\<close>

datatype api_error = HttpE http_exception | InvalidE "validation_error list" | RaiseE error

definition http_error :: "int \<Rightarrow> string \<Rightarrow> api_error" where
  "http_error sc msg = HttpE \<lparr>hx_status = sc, hx_detail = jlit msg, hx_headers = []\<rparr>"

text \<open>The session of a request: what is committed, and what its statements see.\<close>

record 'd tx_session =
  tx_committed :: 'd
  tx_work :: 'd

definition tx_query :: "('d \<Rightarrow> 'a) \<Rightarrow> (api_error, 'd tx_session, 'a) op" where
  "tx_query f = gets (\<lambda>s. f (tx_work s))"

definition tx_execute :: "(error, 'd, 'a) op \<Rightarrow> (api_error, 'd tx_session, 'a) op" where
  "tx_execute m = (\<lambda>s. case m (tx_work s) of
     (Inl e, _) \<Rightarrow> (Inl (RaiseE e), s) | (Inr x, d) \<Rightarrow> (Inr x, s\<lparr>tx_work := d\<rparr>))"

definition tx_commit :: "(api_error, 'd tx_session, unit) op" where
  "tx_commit = modify (\<lambda>s. s\<lparr>tx_committed := tx_work s\<rparr>)"

text \<open>What other sessions commit while this one has written nothing.\<close>

definition tx_others :: "('d \<Rightarrow> 'd) \<Rightarrow> (api_error, 'd tx_session, unit) op" where
  "tx_others f = modify (\<lambda>s. s\<lparr>tx_committed := f (tx_committed s), tx_work := f (tx_work s)\<rparr>)"

text \<open>\<open>get_session\<close> closes the session without a commit: uncommitted work is lost.\<close>

definition serve :: "(api_error, 'd tx_session, 'a) op \<Rightarrow> 'd \<Rightarrow> (api_error + 'a) \<times> 'd" where
  "serve m d = (case m \<lparr>tx_committed = d, tx_work = d\<rparr> of (r, s) \<Rightarrow> (r, tx_committed s))"

lemma keeps_commit: "keeps (\<lambda>s. P (tx_work s) \<and> P (tx_committed s)) tx_commit"
  by (rule keepsI) (simp add: tx_commit_def modify_def)

lemma keeps_execute:
  "(\<And>d. P d \<Longrightarrow> P (snd (m d))) \<Longrightarrow> keeps (\<lambda>s. P (tx_work s) \<and> P (tx_committed s)) (tx_execute m)"
  by (rule keepsI) (force simp: tx_execute_def split: prod.splits sum.splits)

lemmas session_simps = tx_query_def tx_execute_def tx_commit_def tx_others_def serve_def

section \<open>Error responses\<close>

record http_response =
  hr_status :: int
  hr_headers :: "(string \<times> pystr) list"
  hr_body :: json

definition under_prefix :: "pystr \<Rightarrow> pystr \<Rightarrow> bool" where
  "under_prefix p path \<longleftrightarrow> path = p \<or> take (length p + 1) path = p @ lit ''/''"

definition RESEARCH_PREFIX :: pystr where
  "RESEARCH_PREFIX = lit ''/v1/research''"

definition is_research_path :: "pystr \<Rightarrow> bool" where
  "is_research_path path = under_prefix RESEARCH_PREFIX path"

definition problem_json ::
  "int \<Rightarrow> pystr \<Rightarrow> pystr \<Rightarrow> pystr option \<Rightarrow> pystr \<Rightarrow> pystr option \<Rightarrow> (pystr \<times> json) list option \<Rightarrow> json" where
  "problem_json sc code title detail inst rid ext = JObj (
     [(lit ''type'', JStr (lit ''https://docs.aslanterminal.com/errors/'' @ code)), (lit ''title'', JStr title),
      (lit ''status'', JInt sc), (lit ''instance'', JStr inst), (lit ''code'', JStr code)] @
     (case detail of None \<Rightarrow> [] | Some t \<Rightarrow> [(lit ''detail'', JStr t)]) @
     (case rid of None \<Rightarrow> [] | Some r \<Rightarrow> [(lit ''request_id'', JStr r)]) @
     (case ext of None \<Rightarrow> [] | Some [] \<Rightarrow> [] | Some kvs \<Rightarrow> [(lit ''extensions'', JObj kvs)]))"

text \<open>\<open>str(d.get(k) or dflt)\<close>; \<open>str\<close> of a value that is no string is a parameter.\<close>

definition falsy :: "json \<Rightarrow> bool" where
  "falsy j = (case j of JNull \<Rightarrow> True | JBool b \<Rightarrow> \<not> b | JInt i \<Rightarrow> i = 0 | JFloat w \<Rightarrow> w = 0 \<or> w = 2 ^ 63
     | JStr s \<Rightarrow> s = [] | JArr xs \<Rightarrow> xs = [] | JObj kvs \<Rightarrow> kvs = [])"

definition str_or :: "(json \<Rightarrow> pystr) \<Rightarrow> (pystr \<times> json) list \<Rightarrow> string \<Rightarrow> pystr \<Rightarrow> pystr" where
  "str_or str d k dflt = (case map_of d (lit k) of
     None \<Rightarrow> dflt | Some v \<Rightarrow> if falsy v then dflt else (case v of JStr s \<Rightarrow> s | _ \<Rightarrow> str v))"

definition research_http_exc_handler ::
  "(json \<Rightarrow> pystr) \<Rightarrow> pystr \<Rightarrow> pystr option \<Rightarrow> http_exception \<Rightarrow> http_response" where
  "research_http_exc_handler str path rid exc =
     (if \<not> is_research_path path then
        \<lparr>hr_status = hx_status exc, hr_headers = [], hr_body = jobj
           [(''detail'', case hx_detail exc of JStr s \<Rightarrow> JStr s | j \<Rightarrow> JStr (str j)), (''status_code'', JInt (hx_status exc))]\<rparr>
      else
        let d = (case hx_detail exc of JObj kvs \<Rightarrow> kvs | _ \<Rightarrow> []);
            detail = (case hx_detail exc of
                JObj kvs \<Rightarrow> (case map_of kvs (lit ''detail'') of Some (JStr t) \<Rightarrow> Some t | _ \<Rightarrow> None)
              | JStr t \<Rightarrow> Some t | _ \<Rightarrow> None);
            ext = (case map_of d (lit ''extensions'') of Some (JObj kvs) \<Rightarrow> Some kvs | _ \<Rightarrow> None)
        in \<lparr>hr_status = hx_status exc, hr_headers = [],
            hr_body = problem_json (hx_status exc) (str_or str d ''code'' (lit ''BITEMPORAL_INTERNAL''))
              (str_or str d ''title'' (lit ''Bitemporal-research-API error'')) detail path rid ext\<rparr>)"

definition research_unhandled_exc_handler :: "pystr \<Rightarrow> pystr option \<Rightarrow> http_response option" where
  "research_unhandled_exc_handler path rid =
     (if is_research_path path then Some \<lparr>hr_status = 500, hr_headers = [],
        hr_body = problem_json 500 (lit ''INTERNAL_ERROR'') (lit ''Internal server error'')
          (Some (lit ''An unexpected error occurred. Reference the request_id when escalating.'')) path rid None\<rparr>
      else None)"

text \<open>
  \<open>RequestValidationError\<close> has one handler for all paths. Of the first error it takes \<open>loc\<close> and \<open>msg\<close>, each where the
  dictionary has it.
\<close>

definition loc_part :: "(json \<Rightarrow> pystr) \<Rightarrow> json \<Rightarrow> pystr" where
  "loc_part str j = (case j of JStr s \<Rightarrow> s | _ \<Rightarrow> str j)"

fun join_with :: "pystr \<Rightarrow> pystr list \<Rightarrow> pystr" where
  "join_with sep [] = []"
| "join_with sep [p] = p"
| "join_with sep (p # q # ps) = p @ sep @ join_with sep (q # ps)"

definition validation_detail :: "(json \<Rightarrow> pystr) \<Rightarrow> validation_error list \<Rightarrow> pystr" where
  "validation_detail str errors = (case errors of
     [] \<Rightarrow> lit ''Validation error''
   | first # _ \<Rightarrow>
       let loc = join_with (lit '' -> '') (map (loc_part str) (case ve_loc first of None \<Rightarrow> [] | Some parts \<Rightarrow> parts));
           msg = (case ve_msg first of None \<Rightarrow> lit ''Validation error'' | Some m \<Rightarrow> m)
       in if loc \<noteq> [] then loc @ lit '': '' @ msg else msg)"

definition validation_exception_handler :: "(json \<Rightarrow> pystr) \<Rightarrow> validation_error list \<Rightarrow> http_response" where
  "validation_exception_handler str errors = \<lparr>hr_status = 422, hr_headers = [],
     hr_body = jobj [(''detail'', JStr (validation_detail str errors)), (''status_code'', JInt 422)]\<rparr>"

text \<open>The handler the application has registered for an exception: the handlers of the research API are registered last
  and replace those of the middleware for the same class. None: the exception is raised on.\<close>

definition answer_raised :: "(json \<Rightarrow> pystr) \<Rightarrow> pystr \<Rightarrow> pystr option \<Rightarrow> api_error \<Rightarrow> http_response option" where
  "answer_raised str path rid x = (case x of
     HttpE exc \<Rightarrow> Some (research_http_exc_handler str path rid exc)
   | InvalidE errors \<Rightarrow> Some (validation_exception_handler str errors)
   | RaiseE _ \<Rightarrow> research_unhandled_exc_handler path rid)"

text \<open>A problem document: status, code and the type URI that names the code.\<close>

definition problem_ok :: "int \<Rightarrow> json \<Rightarrow> bool" where
  "problem_ok sc j = (case j of
     JObj kvs \<Rightarrow> distinct (map fst kvs) \<and> map_of kvs (lit ''status'') = Some (JInt sc) \<and>
       (case (map_of kvs (lit ''type''), map_of kvs (lit ''code''), map_of kvs (lit ''title''), map_of kvs (lit ''instance'')) of
          (Some (JStr t), Some (JStr c), Some (JStr _), Some (JStr _)) \<Rightarrow> t = lit ''https://docs.aslanterminal.com/errors/'' @ c
        | _ \<Rightarrow> False)
   | _ \<Rightarrow> False)"

definition body_field :: "string \<Rightarrow> http_response \<Rightarrow> json option" where
  "body_field k r = (case hr_body r of JObj kvs \<Rightarrow> map_of kvs (lit k) | _ \<Rightarrow> None)"

lemma problem_json_ok: "problem_ok sc (problem_json sc code title detail inst rid ext)"
  by (auto simp: problem_ok_def problem_json_def split: option.splits list.splits)

lemma problem_json_fields:
  assumes "hr_body r = problem_json sc code title detail inst rid ext"
  shows "body_field ''code'' r = Some (JStr code)" "body_field ''title'' r = Some (JStr title)" "body_field ''instance'' r = Some (JStr inst)"
    "body_field ''detail'' r = map_option JStr detail" "body_field ''request_id'' r = map_option JStr rid"
    "body_field ''extensions'' r = (case ext of None \<Rightarrow> None | Some kvs \<Rightarrow> if kvs = [] then None else Some (JObj kvs))"
  using assms by (auto simp: body_field_def problem_json_def split: option.splits list.splits)

text \<open>The shape of the middleware is none: it has no field \<open>status\<close>.\<close>

lemma plain_body_no_problem: "\<not> problem_ok sc (jobj [(''detail'', d), (''status_code'', n)])"
  by (simp add: problem_ok_def jobj_def)

lemma str_or_given: "map_of d (lit k) = Some (JStr t) \<Longrightarrow> t \<noteq> [] \<Longrightarrow> str_or str d k dflt = t"
  by (simp add: str_or_def falsy_def)

lemma research_http_fields:
  assumes "is_research_path path" "hx_detail exc = JObj kvs" "map_of kvs (lit ''code'') = Some (JStr code)" "code \<noteq> []"
    "map_of kvs (lit ''title'') = Some (JStr title)" "title \<noteq> []"
  shows "hr_body (research_http_exc_handler str path rid exc) = problem_json (hx_status exc) code title
    (case map_of kvs (lit ''detail'') of Some (JStr t) \<Rightarrow> Some t | _ \<Rightarrow> None) path rid
    (case map_of kvs (lit ''extensions'') of Some (JObj ext) \<Rightarrow> Some ext | _ \<Rightarrow> None)"
  using assms by (simp add: research_http_exc_handler_def Let_def str_or_given)



end
