(* ===== verification/Api_Sessions.thy ===== *)
theory Api_Sessions
  imports Api_Http
begin

text \<open>
  Accounts and sessions (\<open>api/auth.py\<close>, \<open>api/routes/auth.py\<close>, \<open>get_current_user\<close> of \<open>api/deps.py\<close>): registration,
  login, rotation of refresh tokens with detection of replays, and the check of access tokens.
  Password hashing, SHA-256 and the JWT library are parameters.
\<close>

section \<open>Tables and surroundings\<close>

record user_row =
  us_id :: uuid
  us_email :: pystr
  us_password_hash :: pystr
  us_role :: pystr
  us_active :: bool
  us_created_at :: int

record refresh_token =
  rt_id :: uuid
  rt_user :: uuid
  rt_family :: uuid
  rt_hash :: pystr
  rt_expires :: int
  rt_revoked :: bool
  rt_created_at :: int

record auth_db =
  au_users :: "user_row list"
  au_tokens :: "refresh_token list"

datatype claim = CStr pystr | CTime int

text \<open>
  \<open>jwt.encode\<close> of a claims dict and a secret, \<open>jwt.decode\<close> with algorithm, issuer and audience fixed at a
  time; the environment variables; and what others commit between two statements of a request.
\<close>

record auth_env =
  ae_hash_password :: "pystr \<Rightarrow> pystr"
  ae_verify_password :: "pystr \<Rightarrow> pystr \<Rightarrow> bool"
  ae_sha :: "pystr \<Rightarrow> pystr"
  ae_jwt_encode :: "(string \<times> claim) list \<Rightarrow> pystr \<Rightarrow> pystr"
  ae_jwt_decode :: "int \<Rightarrow> pystr \<Rightarrow> pystr \<Rightarrow> error + (pystr \<times> json) list"
  ae_secret :: pystr
  ae_invite_code :: pystr
  ae_env :: "auth_db \<Rightarrow> auth_db"

text \<open>The clock (in microseconds) and the random UUIDs of a request.\<close>

record fresh_values =
  fr_now :: int
  fr_user :: uuid
  fr_jti :: uuid
  fr_a :: uuid
  fr_b :: uuid
  fr_family :: uuid
  fr_token :: uuid

section \<open>Tokens\<close>

definition ACCESS_TTL :: int where "ACCESS_TTL = 15 * 60 * 1000000"

definition REFRESH_TTL :: int where "REFRESH_TTL = 7 * 86400 * 1000000"

definition get_jwt_secret :: "auth_env \<Rightarrow> error + pystr" where
  "get_jwt_secret E = (if length (ae_secret E) < 32 then Inl (PyE RuntimeError) else Inr (ae_secret E))"

definition access_claims :: "fresh_values \<Rightarrow> uuid \<Rightarrow> pystr \<Rightarrow> (string \<times> claim) list" where
  "access_claims n uid role =
     [(''iss'', CStr (lit ''aslan-core'')), (''aud'', CStr (lit ''aslan-api'')), (''sub'', CStr (uuid_str uid)),
      (''exp'', CTime (fr_now n + ACCESS_TTL)), (''nbf'', CTime (fr_now n)), (''iat'', CTime (fr_now n)),
      (''jti'', CStr (uuid_str (fr_jti n))), (''typ'', CStr (lit ''access'')), (''role'', CStr role)]"

definition create_access_token :: "auth_env \<Rightarrow> fresh_values \<Rightarrow> uuid \<Rightarrow> pystr \<Rightarrow> pystr \<Rightarrow> pystr" where
  "create_access_token E n uid role secret = ae_jwt_encode E (access_claims n uid role) secret"

definition required_claims :: "pystr set" where
  "required_claims = lit ` {''iss'', ''aud'', ''sub'', ''exp'', ''nbf'', ''iat'', ''jti'', ''typ''}"

definition verify_access_token :: "auth_env \<Rightarrow> int \<Rightarrow> pystr \<Rightarrow> pystr \<Rightarrow> error + (pystr \<times> json) list" where
  "verify_access_token E now token secret = (case ae_jwt_decode E now token secret of
     Inl e \<Rightarrow> Inl e
   | Inr payload \<Rightarrow>
       if map_of payload (lit ''typ'') \<noteq> Some (jlit ''access'') then Inl (ServiceE JWTError)
       else if \<not> required_claims \<subseteq> fst ` set payload then Inl (ServiceE JWTError)
       else Inr payload)"

definition create_refresh_token :: "auth_env \<Rightarrow> fresh_values \<Rightarrow> pystr \<times> pystr" where
  "create_refresh_token E n = (let raw = uuid_str (fr_a n) @ uuid_str (fr_b n) in (raw, ae_sha E raw))"

definition invalid_credentials :: api_error where
  "invalid_credentials = http_error 401 ''Invalid credentials''"

text \<open>A failure of the environment raises out of the handler.\<close>

definition need :: "error + 'a \<Rightarrow> (api_error, 's, 'a) op" where
  "need r = (case r of Inl e \<Rightarrow> raise (RaiseE e) | Inr x \<Rightarrow> ret x)"

record principal =
  pc_user_id :: uuid
  pc_role :: pystr

text \<open>\<open>str(payload["sub"])\<close>: the text of any other JSON value is never the text of a UUID.\<close>

definition sub_text :: "json \<Rightarrow> pystr option" where
  "sub_text j = (case j of JStr s \<Rightarrow> Some s | JInt i \<Rightarrow> Some (int_str i) | _ \<Rightarrow> None)"

definition get_current_user :: "auth_env \<Rightarrow> int \<Rightarrow> pystr \<Rightarrow> (api_error, auth_db tx_session, principal) op" where
  "get_current_user E now token =
     (case (case get_jwt_secret E of Inl e \<Rightarrow> Inl e | Inr secret \<Rightarrow> verify_access_token E now token secret) of
        Inl _ \<Rightarrow> raise invalid_credentials
      | Inr payload \<Rightarrow>
          (case Option.bind (Option.bind (map_of payload (lit ''sub'')) sub_text) uuid_parse of
             None \<Rightarrow> raise invalid_credentials
           | Some uid \<Rightarrow>
               bnd (tx_query (\<lambda>d. sql_find (\<lambda>u. us_id u = uid) (au_users d))) (\<lambda>row. case row of
                 None \<Rightarrow> raise invalid_credentials
               | Some u \<Rightarrow>
                   if us_active u then ret \<lparr>pc_user_id = uid, pc_role = us_role u\<rparr> else raise invalid_credentials)))"

section \<open>Handlers\<close>

record register_request =
  rg_email :: pystr
  rg_password :: pystr
  rg_invite_code :: pystr

record token_response =
  tr_access_token :: pystr
  tr_refresh_token :: pystr

definition insert_user :: "user_row \<Rightarrow> (error, auth_db, unit) op" where
  "insert_user u = (\<lambda>d.
     if \<exists>x \<in> set (au_users d). us_id x = us_id u \<or> us_email x = us_email u then (Inl (ServiceE IntegrityError), d)
     else (Inr (), d\<lparr>au_users := au_users d @ [u]\<rparr>))"

definition insert_token :: "refresh_token \<Rightarrow> (error, auth_db, unit) op" where
  "insert_token r = (\<lambda>d.
     if rt_user r \<notin> us_id ` set (au_users d) \<or> rt_id r \<in> rt_id ` set (au_tokens d) then (Inl (ServiceE IntegrityError), d)
     else (Inr (), d\<lparr>au_tokens := au_tokens d @ [r]\<rparr>))"

definition revoke_where :: "(refresh_token \<Rightarrow> bool) \<Rightarrow> (error, auth_db, unit) op" where
  "revoke_where p = modify (\<lambda>d. d\<lparr>au_tokens := sql_update p (\<lambda>r. r\<lparr>rt_revoked := True\<rparr>) (au_tokens d)\<rparr>)"

text \<open>Pydantic rejects a password of fewer than ten characters before the handler runs.\<close>

definition register :: "auth_env \<Rightarrow> fresh_values \<Rightarrow> register_request \<Rightarrow> (api_error, auth_db tx_session, uuid \<times> pystr) op" where
  "register E n b =
     (if length (rg_password b) < 10 then raise (http_error 422 ''Validation error'')
      else if ae_invite_code E = [] \<or> rg_invite_code b \<noteq> ae_invite_code E then raise (http_error 403 ''Invalid invite code'')
      else bnd (tx_query (\<lambda>d. sql_find (\<lambda>u. us_email u = rg_email b) (au_users d))) (\<lambda>row. case row of
          Some _ \<Rightarrow> raise (http_error 400 ''Email already registered'')
        | None \<Rightarrow>
            thn (tx_others (ae_env E))
            (thn (tx_execute (insert_user \<lparr>us_id = fr_user n, us_email = rg_email b,
                us_password_hash = ae_hash_password E (rg_password b), us_role = lit ''user'', us_active = True, us_created_at = fr_now n\<rparr>))
            (thn tx_commit (ret (fr_user n, rg_email b))))))"

text \<open>The pair of tokens that login and rotation end with.\<close>

definition issue_tokens :: "auth_env \<Rightarrow> fresh_values \<Rightarrow> uuid \<Rightarrow> pystr \<Rightarrow> uuid \<Rightarrow> (api_error, auth_db tx_session, token_response) op" where
  "issue_tokens E n uid role family =
     bnd (need (get_jwt_secret E)) (\<lambda>secret.
       let access = create_access_token E n uid role secret; rt = create_refresh_token E n
       in thn (tx_execute (insert_token \<lparr>rt_id = fr_token n, rt_user = uid, rt_family = family, rt_hash = snd rt,
              rt_expires = fr_now n + REFRESH_TTL, rt_revoked = False, rt_created_at = fr_now n\<rparr>))
         (thn tx_commit (ret \<lparr>tr_access_token = access, tr_refresh_token = fst rt\<rparr>)))"

definition login :: "auth_env \<Rightarrow> fresh_values \<Rightarrow> pystr \<Rightarrow> pystr \<Rightarrow> (api_error, auth_db tx_session, token_response) op" where
  "login E n email password =
     bnd (tx_query (\<lambda>d. sql_find (\<lambda>u. us_email u = email) (au_users d))) (\<lambda>row. case row of
       None \<Rightarrow> raise invalid_credentials
     | Some u \<Rightarrow>
         if \<not> us_active u then raise invalid_credentials
         else if \<not> ae_verify_password E password (us_password_hash u) then raise invalid_credentials
         else issue_tokens E n (us_id u) (us_role u) (fr_family n))"

definition refresh :: "auth_env \<Rightarrow> fresh_values \<Rightarrow> pystr \<Rightarrow> (api_error, auth_db tx_session, token_response) op" where
  "refresh E n token =
     bnd (tx_query (\<lambda>d. sql_find (\<lambda>r. rt_hash r = ae_sha E token) (au_tokens d))) (\<lambda>row. case row of
       None \<Rightarrow> raise invalid_credentials
     | Some r \<Rightarrow>
         thn (tx_others (ae_env E))
         (if rt_revoked r then
            thn (tx_execute (revoke_where (\<lambda>x. rt_family x = rt_family r))) (thn tx_commit (raise invalid_credentials))
          else if rt_expires r < fr_now n then raise invalid_credentials
          else
            thn (tx_execute (revoke_where (\<lambda>x. rt_id x = rt_id r)))
            (bnd (tx_query (\<lambda>d. sql_find (\<lambda>u. us_id u = rt_user r) (au_users d))) (\<lambda>user. case user of
                None \<Rightarrow> thn tx_commit (raise invalid_credentials)
              | Some u \<Rightarrow>
                  if \<not> us_active u then thn tx_commit (raise invalid_credentials)
                  else issue_tokens E n (rt_user r) (us_role u) (rt_family r)))))"

section \<open>What a request does\<close>

definition token_row :: "auth_env \<Rightarrow> pystr \<Rightarrow> auth_db \<Rightarrow> refresh_token option" where
  "token_row E token d = sql_find (\<lambda>r. rt_hash r = ae_sha E token) (au_tokens d)"

definition revoke :: "(refresh_token \<Rightarrow> bool) \<Rightarrow> auth_db \<Rightarrow> auth_db" where
  "revoke p d = d\<lparr>au_tokens := sql_update p (\<lambda>r. r\<lparr>rt_revoked := True\<rparr>) (au_tokens d)\<rparr>"

definition new_token :: "auth_env \<Rightarrow> fresh_values \<Rightarrow> uuid \<Rightarrow> uuid \<Rightarrow> refresh_token" where
  "new_token E n uid family = \<lparr>rt_id = fr_token n, rt_user = uid, rt_family = family, rt_hash = snd (create_refresh_token E n),
     rt_expires = fr_now n + REFRESH_TTL, rt_revoked = False, rt_created_at = fr_now n\<rparr>"

lemma issue_tokens_eval:
  "issue_tokens E n uid role family s =
     (if length (ae_secret E) < 32 then (Inl (RaiseE (PyE RuntimeError)), s)
      else if uid \<notin> us_id ` set (au_users (tx_work s)) \<or> fr_token n \<in> rt_id ` set (au_tokens (tx_work s))
        then (Inl (RaiseE (ServiceE IntegrityError)), s)
      else (let d = (tx_work s)\<lparr>au_tokens := au_tokens (tx_work s) @ [new_token E n uid family]\<rparr>
            in (Inr \<lparr>tr_access_token = create_access_token E n uid role (ae_secret E),
                  tr_refresh_token = fst (create_refresh_token E n)\<rparr>, \<lparr>tx_committed = d, tx_work = d\<rparr>)))"
  by (cases s) (simp add: issue_tokens_def need_def get_jwt_secret_def session_simps insert_token_def thn_def bnd_def raise_def ret_def
      modify_def Let_def new_token_def)

lemma revoke_ids: "rt_id ` set (au_tokens (revoke p d)) = rt_id ` set (au_tokens d)"
proof -
  have "map rt_id (au_tokens (revoke p d)) = map rt_id (au_tokens d)" by (simp add: revoke_def sql_update_keys)
  then show ?thesis by (metis set_map)
qed

text \<open>A rotation: what the presented token was, what happens to the table.\<close>

lemma refresh_interleaved:
  "serve (refresh E n token) d = (case token_row E token d of
     None \<Rightarrow> (Inl invalid_credentials, d)
   | Some r \<Rightarrow>
       if rt_revoked r then (Inl invalid_credentials, revoke (\<lambda>x. rt_family x = rt_family r) (ae_env E d))
       else if rt_expires r < fr_now n then (Inl invalid_credentials, (ae_env E d))
       else (case sql_find (\<lambda>u. us_id u = rt_user r) (au_users (ae_env E d)) of
           None \<Rightarrow> (Inl invalid_credentials, revoke (\<lambda>x. rt_id x = rt_id r) (ae_env E d))
         | Some u \<Rightarrow>
             if \<not> us_active u then (Inl invalid_credentials, revoke (\<lambda>x. rt_id x = rt_id r) (ae_env E d))
             else if length (ae_secret E) < 32 then (Inl (RaiseE (PyE RuntimeError)), (ae_env E d))
             else if rt_user r \<notin> us_id ` set (au_users (ae_env E d)) \<or> fr_token n \<in> rt_id ` set (au_tokens (ae_env E d))
               then (Inl (RaiseE (ServiceE IntegrityError)), (ae_env E d))
             else (Inr \<lparr>tr_access_token = create_access_token E n (rt_user r) (us_role u) (ae_secret E),
                       tr_refresh_token = fst (create_refresh_token E n)\<rparr>,
                   (revoke (\<lambda>x. rt_id x = rt_id r) (ae_env E d))\<lparr>au_tokens :=
                     au_tokens (revoke (\<lambda>x. rt_id x = rt_id r) (ae_env E d)) @ [new_token E n (rt_user r) (rt_family r)]\<rparr>)))"
  using revoke_ids by (simp add: refresh_def token_row_def session_simps revoke_where_def bnd_def thn_def gets_def modify_def raise_def
      issue_tokens_eval revoke_def Let_def split: option.splits)

lemma refresh_eval:
  assumes "ae_env E = id"
  shows "serve (refresh E n token) d = (case token_row E token d of
     None \<Rightarrow> (Inl invalid_credentials, d)
   | Some r \<Rightarrow>
       if rt_revoked r then (Inl invalid_credentials, revoke (\<lambda>x. rt_family x = rt_family r) d)
       else if rt_expires r < fr_now n then (Inl invalid_credentials, d)
       else (case sql_find (\<lambda>u. us_id u = rt_user r) (au_users d) of
           None \<Rightarrow> (Inl invalid_credentials, revoke (\<lambda>x. rt_id x = rt_id r) d)
         | Some u \<Rightarrow>
             if \<not> us_active u then (Inl invalid_credentials, revoke (\<lambda>x. rt_id x = rt_id r) d)
             else if length (ae_secret E) < 32 then (Inl (RaiseE (PyE RuntimeError)), d)
             else if rt_user r \<notin> us_id ` set (au_users d) \<or> fr_token n \<in> rt_id ` set (au_tokens d)
               then (Inl (RaiseE (ServiceE IntegrityError)), d)
             else (Inr \<lparr>tr_access_token = create_access_token E n (rt_user r) (us_role u) (ae_secret E),
                       tr_refresh_token = fst (create_refresh_token E n)\<rparr>,
                   (revoke (\<lambda>x. rt_id x = rt_id r) d)\<lparr>au_tokens :=
                     au_tokens (revoke (\<lambda>x. rt_id x = rt_id r) d) @ [new_token E n (rt_user r) (rt_family r)]\<rparr>)))"
  unfolding refresh_interleaved assms id_apply ..

lemma login_eval:
  "serve (login E n email password) d = (case sql_find (\<lambda>u. us_email u = email) (au_users d) of
     None \<Rightarrow> (Inl invalid_credentials, d)
   | Some u \<Rightarrow>
       if \<not> us_active u \<or> \<not> ae_verify_password E password (us_password_hash u) then (Inl invalid_credentials, d)
       else if length (ae_secret E) < 32 then (Inl (RaiseE (PyE RuntimeError)), d)
       else if fr_token n \<in> rt_id ` set (au_tokens d) then (Inl (RaiseE (ServiceE IntegrityError)), d)
       else (Inr \<lparr>tr_access_token = create_access_token E n (us_id u) (us_role u) (ae_secret E),
               tr_refresh_token = fst (create_refresh_token E n)\<rparr>,
             d\<lparr>au_tokens := au_tokens d @ [new_token E n (us_id u) (fr_family n)]\<rparr>))"
  by (auto simp: login_def session_simps bnd_def gets_def raise_def issue_tokens_eval Let_def split: option.splits
      dest: sql_find_Some_iff)

lemma register_tokens: "ae_env E = id \<Longrightarrow> au_tokens (snd (serve (register E n b) d)) = au_tokens d"
  by (auto simp: register_def session_simps bnd_def thn_def gets_def modify_def raise_def ret_def insert_user_def split: option.splits)

section \<open>Histories\<close>

datatype auth_request = Register register_request | Login pystr pystr | Refresh pystr

fun handle :: "auth_env \<Rightarrow> fresh_values \<Rightarrow> auth_request \<Rightarrow> auth_db \<Rightarrow> auth_db" where
  "handle E n (Register b) d = snd (serve (register E n b) d)"
| "handle E n (Login email pw) d = snd (serve (login E n email pw) d)"
| "handle E n (Refresh token) d = snd (serve (refresh E n token) d)"

text \<open>Random values of a request are new: its family, and the hash of its token.\<close>

definition unused :: "auth_env \<Rightarrow> fresh_values \<Rightarrow> auth_db \<Rightarrow> bool" where
  "unused E n d \<longleftrightarrow> fr_family n \<notin> rt_family ` set (au_tokens d) \<and> snd (create_refresh_token E n) \<notin> rt_hash ` set (au_tokens d)"

text \<open>Requests one after the other, with changes to the accounts (roles, deactivation) between them.\<close>

inductive serves :: "auth_env \<Rightarrow> auth_db \<Rightarrow> auth_db \<Rightarrow> bool" for E d where
  start: "serves E d d"
| request: "serves E d d1 \<Longrightarrow> unused E n d1 \<Longrightarrow> serves E d (handle E n req d1)"
| accounts: "serves E d d1 \<Longrightarrow> serves E d (d1\<lparr>au_users := us\<rparr>)"

definition live_in :: "uuid \<Rightarrow> auth_db \<Rightarrow> refresh_token list" where
  "live_in f d = filter (\<lambda>r. rt_family r = f \<and> \<not> rt_revoked r) (au_tokens d)"

lemma live_revoke: "live_in f (revoke p d) = filter (\<lambda>r. \<not> p r) (live_in f d)"
proof -
  have "filter (\<lambda>r. rt_family r = f \<and> \<not> rt_revoked r) (map (\<lambda>r. if p r then r\<lparr>rt_revoked := True\<rparr> else r) ts) =
      filter (\<lambda>r. \<not> p r) (filter (\<lambda>r. rt_family r = f \<and> \<not> rt_revoked r) ts)" for ts
    by (induction ts) auto
  then show ?thesis by (simp add: live_in_def revoke_def sql_update_def)
qed

lemma live_append:
  "live_in f (d\<lparr>au_tokens := ts @ [r]\<rparr>) = live_in f (d\<lparr>au_tokens := ts\<rparr>) @ (if rt_family r = f \<and> \<not> rt_revoked r then [r] else [])"
  by (simp add: live_in_def)

lemma live_users [simp]: "live_in f (d\<lparr>au_users := us\<rparr>) = live_in f d"
  by (simp add: live_in_def)

lemma tokens_live: "au_tokens d' = au_tokens d \<Longrightarrow> live_in f d' = live_in f d"
  by (simp add: live_in_def)

lemma live_new_family: "unused E n d \<Longrightarrow> live_in (fr_family n) d = []"
  by (auto simp: live_in_def unused_def filter_empty_conv) (metis imageI)

text \<open>The four effects a request can have on the tokens.\<close>

lemma handle_cases [consumes 1, case_names same family one login rotate]:
  assumes "ae_env E = id"
  obtains (same) "au_tokens (handle E n req d) = au_tokens d"
    | (family) r where "r \<in> set (au_tokens d)" "rt_revoked r" "handle E n req d = revoke (\<lambda>x. rt_family x = rt_family r) d"
    | (one) r where "r \<in> set (au_tokens d)" "\<not> rt_revoked r" "handle E n req d = revoke (\<lambda>x. rt_id x = rt_id r) d"
    | (login) u where "handle E n req d = d\<lparr>au_tokens := au_tokens d @ [new_token E n u (fr_family n)]\<rparr>"
    | (rotate) r where "r \<in> set (au_tokens d)" "\<not> rt_revoked r"
        "handle E n req d = (revoke (\<lambda>x. rt_id x = rt_id r) d)\<lparr>au_tokens :=
           au_tokens (revoke (\<lambda>x. rt_id x = rt_id r) d) @ [new_token E n (rt_user r) (rt_family r)]\<rparr>"
proof (cases req)
  case (Register b)
  then show thesis using same register_tokens [OF assms] by simp
next
  case (Login email pw)
  have "au_tokens (handle E n req d) = au_tokens d \<or>
      (\<exists>u. handle E n req d = d\<lparr>au_tokens := au_tokens d @ [new_token E n u (fr_family n)]\<rparr>)"
    unfolding Login by (auto simp: login_eval split: option.splits)
  then show thesis using same login by blast
next
  case (Refresh token)
  show thesis
  proof (cases "token_row E token d")
    case None
    then show thesis using same Refresh by (simp add: refresh_eval [OF assms])
  next
    case (Some r)
    then have r: "r \<in> set (au_tokens d)" by (auto simp: token_row_def dest: sql_find_Some_iff)
    let ?d = "revoke (\<lambda>x. rt_id x = rt_id r) d"
    have "au_tokens (handle E n req d) = au_tokens d \<or>
        rt_revoked r \<and> handle E n req d = revoke (\<lambda>x. rt_family x = rt_family r) d \<or>
        \<not> rt_revoked r \<and> (handle E n req d = ?d \<or>
          handle E n req d = ?d\<lparr>au_tokens := au_tokens ?d @ [new_token E n (rt_user r) (rt_family r)]\<rparr>)"
      using Some unfolding Refresh by (auto simp: refresh_eval [OF assms] split: option.splits)
    then show thesis using same family [OF r] one [OF r] rotate [OF r] by blast
  qed
qed

lemma sql_find_map: "(\<And>r. p (g r) = p r) \<Longrightarrow> sql_find p (map g t) = map_option g (sql_find p t)"
  by (induction t) auto

lemma live_in_member: "r \<in> set (au_tokens d) \<Longrightarrow> \<not> rt_revoked r \<Longrightarrow> r \<in> set (live_in (rt_family r) d)"
  by (simp add: live_in_def)

text \<open>A rotation takes the place of the one live token of its family.\<close>

lemma live_rotate:
  assumes "length (live_in f d) \<le> 1" "r \<in> set (au_tokens d)" "\<not> rt_revoked r"
  shows "length (live_in f ((revoke (\<lambda>x. rt_id x = rt_id r) d)\<lparr>au_tokens :=
      au_tokens (revoke (\<lambda>x. rt_id x = rt_id r) d) @ [new_token E n u (rt_family r)]\<rparr>)) \<le> 1"
proof -
  let ?d = "revoke (\<lambda>x. rt_id x = rt_id r) d"
  have old: "live_in f (?d\<lparr>au_tokens := au_tokens ?d\<rparr>) = filter (\<lambda>x. rt_id x \<noteq> rt_id r) (live_in f d)"
    by (simp add: live_revoke [symmetric])
  show ?thesis
  proof (cases "rt_family r = f")
    case True
    then have "r \<in> set (live_in f d)" using live_in_member assms(2,3) by blast
    with assms(1) have "live_in f d = [r]" by (cases "live_in f d") auto
    then show ?thesis unfolding live_append old by simp
  next
    case False
    then show ?thesis unfolding live_append old using assms(1)
      by (simp add: new_token_def) (meson length_filter_le order_trans)
  qed
qed

lemma handle_keeps_single_live:
  assumes "ae_env E = id" "unused E n d" "\<And>f. length (live_in f d) \<le> 1"
  shows "length (live_in f (handle E n req d)) \<le> 1"
  using assms(1)
proof (cases rule: handle_cases [where n = n and req = req and d = d])
  case same
  show ?thesis using assms(3) by (simp only: tokens_live [OF same])
next
  case (family r)
  then show ?thesis using assms(3) [of f] by (simp add: live_revoke) (meson length_filter_le order_trans)
next
  case (one r)
  then show ?thesis using assms(3) [of f] by (simp add: live_revoke) (meson length_filter_le order_trans)
next
  case (login u)
  then show ?thesis using assms(3) [of f] live_new_family [OF assms(2)]
    by (cases "fr_family n = f") (simp_all add: live_append new_token_def)
next
  case (rotate r)
  then show ?thesis using live_rotate [OF assms(3)] by simp
qed

text \<open>A family without a live token stays so: only a login opens a family, and it opens a new one.\<close>

definition dead :: "uuid \<Rightarrow> auth_db \<Rightarrow> bool" where
  "dead f d \<longleftrightarrow> live_in f d = [] \<and> f \<in> rt_family ` set (au_tokens d)"

lemma families_revoke [simp]: "rt_family ` set (au_tokens (revoke p d)) = rt_family ` set (au_tokens d)"
proof -
  have "map rt_family (au_tokens (revoke p d)) = map rt_family (au_tokens d)" by (simp add: revoke_def sql_update_keys)
  then show ?thesis by (metis set_map)
qed

lemma handle_keeps_dead:
  assumes "ae_env E = id" "unused E n d" "dead f d"
  shows "dead f (handle E n req d)"
  using assms(1)
proof (cases rule: handle_cases [where n = n and req = req and d = d])
  case same
  show ?thesis using assms(3) by (simp only: dead_def tokens_live [OF same] same)
next
  case (login u)
  moreover have "fr_family n \<noteq> f" using assms(2,3) by (auto simp: dead_def unused_def)
  ultimately show ?thesis using assms(3) by (simp add: dead_def live_append new_token_def)
next
  case (rotate r)
  moreover have "rt_family r \<noteq> f" using live_in_member [OF rotate(1,2)] assms(3) by (auto simp: dead_def)
  ultimately show ?thesis using assms(3) by (simp add: dead_def live_append live_revoke [symmetric] new_token_def) (simp add: live_revoke)
qed (use assms(3) in \<open>simp_all add: dead_def live_revoke\<close>)

text \<open>Rows are revoked, and at most one is added, with the hash of the new token.\<close>

lemma handle_tokens:
  assumes "ae_env E = id"
  obtains g new where "au_tokens (handle E n req d) = map g (au_tokens d) @ new"
    "\<forall>r. g r = r \<or> g r = r\<lparr>rt_revoked := True\<rparr>" "\<forall>r \<in> set new. rt_hash r = snd (create_refresh_token E n)" "length new \<le> 1"
  using assms
proof (cases rule: handle_cases [where n = n and req = req and d = d])
  case same
  then show ?thesis using that [of id "[]"] by simp
next
  case (family r)
  then show ?thesis using that [of "\<lambda>x. if rt_family x = rt_family r then x\<lparr>rt_revoked := True\<rparr> else x" "[]"]
    by (simp add: revoke_def sql_update_def)
next
  case (one r)
  then show ?thesis using that [of "\<lambda>x. if rt_id x = rt_id r then x\<lparr>rt_revoked := True\<rparr> else x" "[]"]
    by (simp add: revoke_def sql_update_def)
next
  case (login u)
  then show ?thesis using that [of id "[new_token E n u (fr_family n)]"] by (simp add: new_token_def)
next
  case (rotate r)
  then show ?thesis using that [of "\<lambda>x. if rt_id x = rt_id r then x\<lparr>rt_revoked := True\<rparr> else x" "[new_token E n (rt_user r) (rt_family r)]"]
    by (simp add: revoke_def sql_update_def new_token_def)
qed

lemma handle_keeps_hashes:
  assumes "ae_env E = id" "unused E n d" "distinct (map rt_hash (au_tokens d))"
  shows "distinct (map rt_hash (au_tokens (handle E n req d)))"
proof -
  obtain g new where g: "au_tokens (handle E n req d) = map g (au_tokens d) @ new" "\<forall>r. g r = r \<or> g r = r\<lparr>rt_revoked := True\<rparr>"
    "\<forall>r \<in> set new. rt_hash r = snd (create_refresh_token E n)" "length new \<le> 1"
    by (rule handle_tokens [OF assms(1), of n req d])
  have hash: "rt_hash (g r) = rt_hash r" for r using spec [OF g(2), of r] by auto
  have new: "new = [] \<or> (\<exists>r. new = [r])" using g(4) by (cases new) auto
  show ?thesis
    using new g(3) assms(2,3) by (auto simp: g(1) comp_def hash unused_def image_iff)
qed

lemma handle_keeps_revoked_row:
  assumes "ae_env E = id" "token_row E t d = Some r" "rt_revoked r"
  shows "token_row E t (handle E n req d) = Some r"
proof -
  obtain g new where g: "au_tokens (handle E n req d) = map g (au_tokens d) @ new" "\<forall>r. g r = r \<or> g r = r\<lparr>rt_revoked := True\<rparr>"
    by (rule handle_tokens [OF assms(1), of n req d])
  have hash: "rt_hash (g r) = rt_hash r" for r using spec [OF g(2), of r] by auto
  have "g r = r" using spec [OF g(2), of r] assms(3) by auto
  then show ?thesis using assms(2) by (simp add: token_row_def g(1) sql_find_append sql_find_map hash)
qed

lemma serves_keeps_dead:
  assumes "ae_env E = id" "serves E d d'" "dead f d"
  shows "dead f d'"
  using assms(2)
proof induction
  case (request d1 n req)
  then show ?case by (intro handle_keeps_dead [OF assms(1)])
qed (use assms(3) in \<open>simp_all add: dead_def\<close>)

section \<open>Sessions are safe one after the other\<close>

text \<open>C28. In every history of requests, one after the other, a family of refresh tokens has at most one token
  that is not revoked: a session has a single head.\<close>

theorem family_has_one_live_token:
  assumes "ae_env E = id" and "serves E \<lparr>au_users = us, au_tokens = []\<rparr> d"
  shows "length (live_in f d) \<le> 1"
  using assms(2)
proof (induction arbitrary: f rule: serves.induct)
  case start
  show ?case by (simp add: live_in_def)
next
  case (request d1 n req)
  then show ?case by (intro handle_keeps_single_live [OF assms(1)])
qed simp

text \<open>C27. Where requests are served one after the other, a refresh token works once: presented again at any later time
  it is refused, its whole family is revoked, and no token of that family is accepted any more, whatever requests come in
  between. Requests that overlap are not covered: a token can then be used twice (\<open>concurrent_refresh_forks_family\<close>), and
  a rotation that has read its row before a replay revokes the family adds a live token to it
  (\<open>rotation_survives_replay\<close>).\<close>

theorem replayed_token_revokes_family:
  assumes "ae_env E = id" and "token_row E token d = Some r"
    and "serve (refresh E n token) d = (Inr res, d1)" and "unused E n d" and "serves E d1 d2"
    and "serve (refresh E n' token) d2 = (res', d3)" and "unused E n' d2" and "serves E d3 d4"
    and "token_row E token' d4 = Some x" and "rt_family x = rt_family r"
  shows "res' = Inl invalid_credentials \<and> fst (serve (refresh E n'' token') d4) = Inl invalid_credentials"
proof -
  have row1: "token_row E token d1 = Some (r\<lparr>rt_revoked := True\<rparr>)"
  proof -
    let ?g = "\<lambda>x. if rt_id x = rt_id r then x\<lparr>rt_revoked := True\<rparr> else x"
    obtain new where "au_tokens d1 = map ?g (au_tokens d) @ new"
      using assms(2,3) by (auto simp: refresh_eval [OF assms(1)] revoke_def sql_update_def split: option.splits if_splits)
    then show ?thesis using assms(2) by (simp add: token_row_def sql_find_append sql_find_map [where g = ?g])
  qed
  have row2: "token_row E token d2 = Some (r\<lparr>rt_revoked := True\<rparr>)"
    using assms(5)
  proof induction
    case (request d1 n req)
    show ?case by (rule handle_keeps_revoked_row [OF assms(1) request.IH]) simp
  next
    case start
    show ?case by (rule row1)
  qed (simp add: token_row_def)
  then have res': "res' = Inl invalid_credentials" and d3: "d3 = revoke (\<lambda>x. rt_family x = rt_family r) d2"
    using assms(6) by (simp_all add: refresh_eval [OF assms(1)])
  have "dead (rt_family r) d3"
  proof -
    have "r\<lparr>rt_revoked := True\<rparr> \<in> set (au_tokens d2)" using row2 by (auto simp: token_row_def dest: sql_find_Some_iff)
    then have "rt_family r \<in> rt_family ` set (au_tokens d2)"
      by (intro image_eqI [where x = "r\<lparr>rt_revoked := True\<rparr>"]) simp_all
    then show ?thesis by (simp add: dead_def d3 live_revoke) (simp add: live_in_def filter_empty_conv)
  qed
  then have "dead (rt_family r) d4" by (rule serves_keeps_dead [OF assms(1,8)])
  moreover have "x \<in> set (au_tokens d4)" using assms(9) by (auto simp: token_row_def dest: sql_find_Some_iff)
  ultimately have "rt_revoked x" using assms(10) live_in_member [of x d4] by (auto simp: dead_def)
  with assms(9) res' show ?thesis by (simp add: refresh_eval [OF assms(1)])
qed

text \<open>A login, a rotation, and the same token once more.\<close>

definition sample_env :: auth_env where
  "sample_env = \<lparr>ae_hash_password = id, ae_verify_password = (=), ae_sha = id, ae_jwt_encode = (\<lambda>_ _. lit ''jwt''),
     ae_jwt_decode = (\<lambda>_ _ _. Inl (ServiceE JWTError)), ae_secret = replicate 32 0, ae_invite_code = lit ''in'', ae_env = id\<rparr>"

definition sample_fresh :: "uuid \<Rightarrow> fresh_values" where
  "sample_fresh i = \<lparr>fr_now = 0, fr_user = i, fr_jti = i, fr_a = i, fr_b = i, fr_family = i, fr_token = i\<rparr>"

definition sample_users :: "user_row list" where
  "sample_users = [\<lparr>us_id = 1, us_email = lit ''a@b'', us_password_hash = lit ''secret'', us_role = lit ''user'', us_active = True, us_created_at = 0\<rparr>]"

definition logged_in :: auth_db where
  "logged_in = \<lparr>au_users = sample_users, au_tokens = [new_token sample_env (sample_fresh 1) 1 1]\<rparr>"

definition sample_token :: "uuid \<Rightarrow> pystr" where
  "sample_token i = fst (create_refresh_token sample_env (sample_fresh i))"

lemma sample_token_inj: "sample_token i = sample_token j \<longleftrightarrow> i = j"
proof
  assume "sample_token i = sample_token j"
  then have "uuid_str i @ uuid_str i = uuid_str j @ uuid_str j"
    by (simp add: sample_token_def create_refresh_token_def sample_fresh_def Let_def)
  moreover have "length (uuid_str i) = length (uuid_str j)" using arg_cong [OF calculation, of length] by simp
  ultimately have "uuid_str i = uuid_str j" by simp
  then show "i = j" by (metis uuid_round_trip option.inject)
qed simp

lemma sample_token_hash: "snd (create_refresh_token sample_env (sample_fresh i)) = sample_token i" "ae_sha sample_env t = t"
  by (simp_all add: sample_token_def create_refresh_token_def sample_env_def Let_def)

lemma sample_row: "new_token sample_env (sample_fresh i) u f =
    \<lparr>rt_id = i, rt_user = u, rt_family = f, rt_hash = sample_token i, rt_expires = REFRESH_TTL, rt_revoked = False, rt_created_at = 0\<rparr>"
  by (simp add: new_token_def sample_token_hash) (simp add: sample_fresh_def)

lemma sample_alone: "ae_env sample_env = id" "length (ae_secret sample_env) = 32"
  by (simp_all add: sample_env_def)

lemma logged_in_row: "token_row sample_env (sample_token 1) logged_in = Some (new_token sample_env (sample_fresh 1) 1 1)"
  by (simp add: token_row_def logged_in_def sample_token_hash sample_row)

lemma sample_rotation:
  "\<exists>res d. serve (refresh sample_env (sample_fresh 2) (sample_token 1)) logged_in = (Inr res, d) \<and>
     au_tokens d = [(new_token sample_env (sample_fresh 1) 1 1)\<lparr>rt_revoked := True\<rparr>, new_token sample_env (sample_fresh 2) 1 1]"
proof -
  have u: "sql_find (\<lambda>u. us_id u = 1) (au_users logged_in) = Some (hd sample_users)" "us_active (hd sample_users)"
    by (simp_all add: logged_in_def sample_users_def)
  have f: "fr_now (sample_fresh 2) = 0" "fr_token (sample_fresh 2) = 2" by (simp_all add: sample_fresh_def)
  show ?thesis
    unfolding refresh_eval [OF sample_alone(1)] logged_in_row option.case
    by (simp add: u f sample_row REFRESH_TTL_def sample_alone) (simp add: logged_in_def sample_users_def sample_row revoke_def sql_update_def REFRESH_TTL_def)
qed

lemma logged_in_served: "serves sample_env \<lparr>au_users = sample_users, au_tokens = []\<rparr> logged_in"
proof -
  have "handle sample_env (sample_fresh 1) (Login (lit ''a@b'') (lit ''secret'')) \<lparr>au_users = sample_users, au_tokens = []\<rparr> = logged_in"
    by (simp add: login_eval sample_users_def sample_alone logged_in_def) (simp add: sample_env_def sample_fresh_def)
  moreover have "unused sample_env (sample_fresh 1) \<lparr>au_users = sample_users, au_tokens = []\<rparr>" by (simp add: unused_def)
  ultimately show ?thesis using serves.request [OF serves.start] by metis
qed

theorem family_has_one_live_token_witness: "length (live_in 1 logged_in) \<le> 1"
  by (rule family_has_one_live_token [OF sample_alone(1) logged_in_served])

lemma sample_unused: "(\<And>r. r \<in> set (au_tokens d) \<Longrightarrow> rt_family r \<noteq> i \<and> rt_hash r \<noteq> sample_token i) \<Longrightarrow> unused sample_env (sample_fresh i) d"
  by (auto simp: unused_def sample_token_hash) (auto simp: sample_fresh_def)

theorem replayed_token_revokes_family_witness:
  "fst (serve (refresh sample_env (sample_fresh 4) (sample_token 2))
     (snd (serve (refresh sample_env (sample_fresh 3) (sample_token 1))
       (snd (serve (refresh sample_env (sample_fresh 2) (sample_token 1)) logged_in))))) = Inl invalid_credentials"
proof -
  let ?r = "new_token sample_env (sample_fresh 1) 1 1"
  obtain res d1 where first: "serve (refresh sample_env (sample_fresh 2) (sample_token 1)) logged_in = (Inr res, d1)"
    and t1: "au_tokens d1 = [?r\<lparr>rt_revoked := True\<rparr>, new_token sample_env (sample_fresh 2) 1 1]"
    using sample_rotation by blast
  have row: "token_row sample_env (sample_token 1) d1 = Some (?r\<lparr>rt_revoked := True\<rparr>)"
    by (simp add: token_row_def t1 sample_token_hash sample_row)
  obtain res' d3 where again: "serve (refresh sample_env (sample_fresh 3) (sample_token 1)) d1 = (res', d3)" by (cases "serve (refresh sample_env (sample_fresh 3) (sample_token 1)) d1")
  then have "d3 = revoke (\<lambda>x. rt_family x = 1) d1" by (simp add: refresh_eval [OF sample_alone(1)] row) (simp add: sample_row)
  then have x: "token_row sample_env (sample_token 2) d3 = Some ((new_token sample_env (sample_fresh 2) 1 1)\<lparr>rt_revoked := True\<rparr>)"
    by (simp add: token_row_def t1 revoke_def sql_update_def sample_token_hash sample_row sample_token_inj)
  have "unused sample_env (sample_fresh 2) logged_in" "unused sample_env (sample_fresh 3) d1"
    by (intro sample_unused; auto simp: logged_in_def t1 sample_row sample_token_inj)+
  then show ?thesis
    using replayed_token_revokes_family [OF sample_alone(1) logged_in_row first _ serves.start again _ serves.start x]
    by (simp add: first again sample_row)
qed

section \<open>Two requests at the same time\<close>

text \<open>C39. The rotation does not lock the row it has read: if another rotation of the same token runs between
  the look-up and the update, both succeed and the family has two live tokens; the replay is not noticed.\<close>

theorem concurrent_refresh_forks_family:
  assumes "ae_env E = id" and "token_row E token d = Some r"
    and "serve (refresh E n1 token) d = (Inr res1, d1)"
    and "fr_now n2 \<le> rt_expires r" and "fr_token n2 \<notin> rt_id ` set (au_tokens d1)"
  shows "\<exists>res2 d2. serve (refresh (E\<lparr>ae_env := \<lambda>d. snd (serve (refresh E n1 token) d)\<rparr>) n2 token) d = (Inr res2, d2) \<and>
    2 \<le> length (live_in (rt_family r) d2)"
proof -
  let ?E = "E\<lparr>ae_env := \<lambda>d. snd (serve (refresh E n1 token) d)\<rparr>"
  let ?rv = "revoke (\<lambda>x. rt_id x = rt_id r)"
  obtain u where u: "sql_find (\<lambda>u. us_id u = rt_user r) (au_users d) = Some u" "us_active u"
    and ok: "\<not> rt_revoked r" "\<not> length (ae_secret E) < 32" "rt_user r \<in> us_id ` set (au_users d)"
      "fr_token n1 \<notin> rt_id ` set (au_tokens d)"
    and d1: "d1 = (?rv d)\<lparr>au_tokens := au_tokens (?rv d) @ [new_token E n1 (rt_user r) (rt_family r)]\<rparr>"
    using assms(2,3) by (auto simp: refresh_eval [OF assms(1)] split: option.splits if_splits)
  have users: "au_users d1 = au_users d" by (simp add: d1 revoke_def)
  have row: "token_row ?E token d = Some r" using assms(2) by (simp add: token_row_def)
  have env: "ae_env ?E d = d1" by (simp add: assms(3))
  have "serve (refresh ?E n2 token) d =
      (Inr \<lparr>tr_access_token = create_access_token ?E n2 (rt_user r) (us_role u) (ae_secret E), tr_refresh_token = fst (create_refresh_token ?E n2)\<rparr>,
       (?rv d1)\<lparr>au_tokens := au_tokens (?rv d1) @ [new_token ?E n2 (rt_user r) (rt_family r)]\<rparr>)"
    unfolding refresh_interleaved [of ?E n2] row env using u ok assms(4,5) by (simp add: users)
  moreover have "rt_id r \<in> rt_id ` set (au_tokens d)" using assms(2) by (auto simp: token_row_def dest: sql_find_Some_iff)
  then have "fr_token n1 \<noteq> rt_id r" using ok(4) by auto
  then have "new_token E n1 (rt_user r) (rt_family r) \<in> set (live_in (rt_family r) (?rv d1))"
    by (simp add: live_revoke) (simp add: live_in_def d1 new_token_def)
  then have "2 \<le> length (live_in (rt_family r) ((?rv d1)\<lparr>au_tokens := au_tokens (?rv d1) @ [new_token ?E n2 (rt_user r) (rt_family r)]\<rparr>))"
    unfolding live_append by (cases "live_in (rt_family r) (?rv d1)") (auto simp: new_token_def)
  ultimately show ?thesis by blast
qed

theorem concurrent_refresh_forks_family_witness:
  "\<exists>res2 d2. serve (refresh (sample_env\<lparr>ae_env := \<lambda>d. snd (serve (refresh sample_env (sample_fresh 2) (sample_token 1)) d)\<rparr>)
     (sample_fresh 3) (sample_token 1)) logged_in = (Inr res2, d2) \<and> 2 \<le> length (live_in 1 d2)"
proof -
  obtain res d1 where first: "serve (refresh sample_env (sample_fresh 2) (sample_token 1)) logged_in = (Inr res, d1)"
    and t1: "au_tokens d1 = [(new_token sample_env (sample_fresh 1) 1 1)\<lparr>rt_revoked := True\<rparr>, new_token sample_env (sample_fresh 2) 1 1]"
    using sample_rotation by blast
  have "fr_now (sample_fresh 3) = 0" "fr_token (sample_fresh 3) = 3" by (simp_all add: sample_fresh_def)
  then show ?thesis
    using concurrent_refresh_forks_family [OF sample_alone(1) logged_in_row first, of "sample_fresh 3"]
    by (simp add: sample_row t1 REFRESH_TTL_def)
qed

text \<open>A replay that runs between the look-up and the update of a rotation of the same family revokes the family, and the
  rotation then succeeds and adds a live token to it.\<close>

lemma rotation_survives_replay:
  assumes "ae_env E = id" and "token_row E token d = Some r" "\<not> rt_revoked r" "fr_now n \<le> rt_expires r"
    and "token_row E old d = Some x" "rt_revoked x" "rt_family x = rt_family r"
    and "sql_find (\<lambda>u. us_id u = rt_user r) (au_users d) = Some u" "us_active u"
    and "32 \<le> length (ae_secret E)" "fr_token n \<notin> rt_id ` set (au_tokens d)"
  shows "fst (serve (refresh E n1 old) d) = Inl invalid_credentials \<and>
    (\<exists>res d'. serve (refresh (E\<lparr>ae_env := \<lambda>d. snd (serve (refresh E n1 old) d)\<rparr>) n token) d = (Inr res, d') \<and>
       live_in (rt_family r) d' \<noteq> [])"
proof -
  let ?E = "E\<lparr>ae_env := \<lambda>d. snd (serve (refresh E n1 old) d)\<rparr>"
  let ?d1 = "revoke (\<lambda>y. rt_family y = rt_family r) d" and ?rv = "revoke (\<lambda>y. rt_id y = rt_id r)"
  have replay: "serve (refresh E n1 old) d = (Inl invalid_credentials, ?d1)"
    using assms(5-7) by (simp add: refresh_eval [OF assms(1)])
  have row: "token_row ?E token d = Some r" using assms(2) by (simp add: token_row_def)
  have env: "ae_env ?E d = ?d1" by (simp add: replay)
  have same: "au_users ?d1 = au_users d" "rt_id ` set (au_tokens ?d1) = rt_id ` set (au_tokens d)"
    by (simp add: revoke_def) (rule revoke_ids)
  have "rt_user r \<in> us_id ` set (au_users d)" using sql_find_Some_iff [OF assms(8)] by (auto intro: rev_image_eqI)
  then have "\<exists>res. serve (refresh ?E n token) d =
      (Inr res, (?rv ?d1)\<lparr>au_tokens := au_tokens (?rv ?d1) @ [new_token ?E n (rt_user r) (rt_family r)]\<rparr>)"
    unfolding refresh_interleaved [of ?E n] row env using assms(3,4,8-11) same by simp
  then show ?thesis using replay by (auto simp: live_append new_token_def)
qed

end
