(* ===== verification/Research_Gate.thy ===== *)
theory Research_Gate
  imports Api_Http
begin

text \<open>
  The gate of the research API (\<open>api/research_auth.py\<close>, the rate limit and the cache headers of
  \<open>api/research_observability.py\<close>): feature flags, API keys, token buckets per calendar window. The argon2
  library and \<open>int()\<close> of a JSON text or float are parameters; times are microseconds since the epoch, in UTC.
\<close>

section \<open>Tables\<close>

record api_key =
  ak_id :: uuid
  ak_secret_hash :: pystr
  ak_description :: "pystr option"
  ak_rate_tier :: string
  ak_rate_overrides :: "json option"
  ak_pii_unredacted :: bool
  ak_scopes :: "pystr list"
  ak_created_at :: int
  ak_expires_at :: int
  ak_revoked_at :: "int option"
  ak_last_used_at :: "int option"
  ak_created_by :: "pystr option"

record rate_state =
  rs_key :: uuid
  rs_kind :: string
  rs_start :: int
  rs_used :: int
  rs_last_request_at :: int

record flag_row =
  ff_name :: pystr
  ff_text :: "pystr option"
  ff_bool :: "bool option"
  ff_int :: "int option"
  ff_scope :: string
  ff_scope_value :: "pystr option"
  ff_updated_at :: int
  ff_updated_by :: "pystr option"
  ff_notes :: "pystr option"

record gate_db =
  gd_keys :: "api_key list"
  gd_rates :: "rate_state list"
  gd_flags :: "flag_row list"

text \<open>What \<open>PasswordHasher.verify\<close> does with a hash and a secret, and \<open>int(v)\<close> of a text or float.\<close>

datatype argon_result = Matches | Mismatch | Fails error

record gate_env =
  ge_argon :: "pystr \<Rightarrow> pystr \<Rightarrow> argon_result"
  ge_int :: "json \<Rightarrow> error + int"

section \<open>Secrets and principals\<close>

definition starts_with :: "pystr \<Rightarrow> pystr \<Rightarrow> bool" where
  "starts_with p s \<longleftrightarrow> take (length p) s = p"

text \<open>\<open>hmac.compare_digest\<close> compares texts of ASCII characters only.\<close>

definition compare_digest :: "pystr \<Rightarrow> pystr \<Rightarrow> error + bool" where
  "compare_digest a b = (if list_all (\<lambda>c. c < 128) a \<and> list_all (\<lambda>c. c < 128) b then Inr (a = b) else Inl (PyE TypeError))"

definition verify_secret :: "gate_env \<Rightarrow> pystr \<Rightarrow> pystr \<Rightarrow> error + bool" where
  "verify_secret E stored presented =
     (if stored = [] then Inr False
      else if starts_with (lit ''$argon2'') stored then
        (case ge_argon E stored presented of Matches \<Rightarrow> Inr True | Mismatch \<Rightarrow> Inr False | Fails e \<Rightarrow> Inl e)
      else compare_digest stored presented)"

record api_key_principal =
  ap_key_id :: uuid
  ap_rate_tier :: string
  ap_pii_unredacted :: bool
  ap_scopes :: "pystr list"

definition PUBLIC_PATHS :: "pystr set" where
  "PUBLIC_PATHS = lit ` {''/v1/research/verify/moat-2'', ''/v1/research/healthz'', ''/v1/research/version'',
     ''/v1/research/openapi.json''}"

definition is_public :: "pystr \<Rightarrow> bool" where
  "is_public path \<longleftrightarrow> path \<in> PUBLIC_PATHS"

definition error_type :: "string \<Rightarrow> json" where
  "error_type code = jlit (''https://docs.aslanterminal.com/errors/'' @ code)"

definition auth_invalid :: "string \<Rightarrow> api_error" where
  "auth_invalid title = HttpE \<lparr>hx_status = 401, hx_detail = jobj
     [(''type'', error_type ''AUTH_INVALID''), (''title'', jlit title), (''code'', jlit ''AUTH_INVALID'')], hx_headers = []\<rparr>"

definition key_refused :: "string \<Rightarrow> api_error" where
  "key_refused title = HttpE \<lparr>hx_status = 401, hx_detail = jobj
     [(''code'', jlit ''AUTH_INVALID''), (''title'', jlit title)], hx_headers = []\<rparr>"

text \<open>\<open>x.split(":", 1)\<close>: the text before and after the first colon.\<close>

definition split_key :: "pystr \<Rightarrow> (pystr \<times> pystr) option" where
  "split_key h = (case dropWhile (\<lambda>c. c \<noteq> of_char CHR '':'') h of
     [] \<Rightarrow> None | _ # rest \<Rightarrow> Some (takeWhile (\<lambda>c. c \<noteq> of_char CHR '':'') h, rest))"

definition check_key :: "gate_env \<Rightarrow> int \<Rightarrow> pystr \<Rightarrow> api_key option \<Rightarrow> api_error + api_key_principal" where
  "check_key E now secret row = (case row of
     None \<Rightarrow> Inl (key_refused ''Unknown API key'')
   | Some k \<Rightarrow>
       (case verify_secret E (ak_secret_hash k) secret of
          Inl e \<Rightarrow> Inl (RaiseE e)
        | Inr ok \<Rightarrow>
            if \<not> ok then Inl (key_refused ''Invalid API key secret'')
            else if ak_revoked_at k \<noteq> None then Inl (key_refused ''API key revoked'')
            else if ak_expires_at k < now then Inl (key_refused ''API key expired'')
            else Inr \<lparr>ap_key_id = ak_id k, ap_rate_tier = ak_rate_tier k, ap_pii_unredacted = ak_pii_unredacted k,
                   ap_scopes = ak_scopes k\<rparr>))"

definition find_key :: "uuid \<Rightarrow> gate_db \<Rightarrow> api_key option" where
  "find_key u d = sql_find (\<lambda>k. ak_id k = u) (gd_keys d)"

definition get_principal ::
  "gate_env \<Rightarrow> int \<Rightarrow> pystr \<Rightarrow> pystr option \<Rightarrow> (api_error, gate_db tx_session, api_key_principal option) op" where
  "get_principal E now path header =
     (if is_public path then ret None
      else (case header of
          None \<Rightarrow> raise (auth_invalid ''Missing X-Aslan-Api-Key header'')
        | Some h \<Rightarrow>
            if h = [] then raise (auth_invalid ''Missing X-Aslan-Api-Key header'')
            else (case split_key h of
                None \<Rightarrow> raise (auth_invalid ''Malformed X-Aslan-Api-Key (expected key_id:secret)'')
              | Some (raw_key_id, raw_secret) \<Rightarrow>
                  (case uuid_parse raw_key_id of
                     None \<Rightarrow> raise (auth_invalid ''X-Aslan-Api-Key key_id is not a UUID'')
                   | Some key_id \<Rightarrow>
                       bnd (tx_query (find_key key_id)) (\<lambda>row. bnd (lift (check_key E now raw_secret row)) (\<lambda>p. ret (Some p)))))))"

section \<open>Feature flags\<close>

record feature_flags =
  fs_enabled :: "(pystr \<times> bool) list"
  fs_text :: "(pystr \<times> pystr) list"

definition load_feature_flags :: "gate_db \<Rightarrow> feature_flags" where
  "load_feature_flags d = (let rows = filter (\<lambda>f. ff_scope f = ''global'') (gd_flags d) in
     \<lparr>fs_enabled = List.map_filter (\<lambda>f. map_option (Pair (ff_name f)) (ff_bool f)) rows,
      fs_text = List.map_filter (\<lambda>f. map_option (Pair (ff_name f)) (ff_text f)) rows\<rparr>)"

definition flag_on :: "feature_flags \<Rightarrow> string \<Rightarrow> bool \<Rightarrow> bool" where
  "flag_on fs name dflt = (case map_of (fs_enabled fs) (lit name) of None \<Rightarrow> dflt | Some b \<Rightarrow> b)"

definition require_master_flag :: "pystr \<Rightarrow> (api_error, gate_db tx_session, feature_flags) op" where
  "require_master_flag path = bnd (tx_query load_feature_flags) (\<lambda>flags.
     if is_public path then ret flags
     else if \<not> flag_on flags ''BITEMPORAL_API_ENABLED'' False then raise (HttpE \<lparr>hx_status = 503, hx_detail = jobj
         [(''type'', error_type ''FEATURE_DISABLED''), (''title'', jlit ''Bitemporal Research API is disabled''),
          (''code'', jlit ''FEATURE_DISABLED''), (''detail'', jlit ''BITEMPORAL_API_ENABLED is false in this environment.'')],
         hx_headers = []\<rparr>)
     else ret flags)"

section \<open>Rate limits\<close>

definition SECOND :: int where "SECOND = 1000000"

fun TIER_LIMITS :: "string \<Rightarrow> (string \<times> int) list option" where
  "TIER_LIMITS t =
     (if t = ''internal'' then Some [(''minute'', 10000), (''hour'', 100000), (''day'', 0)]
      else if t = ''partner'' then Some [(''minute'', 600), (''hour'', 5000), (''day'', 30000)]
      else if t = ''public'' then Some [(''minute'', 60), (''hour'', 500), (''day'', 2000)]
      else None)"

definition tier_limits :: "string \<Rightarrow> (string \<times> int) list" where
  "tier_limits t = (case TIER_LIMITS t of Some l \<Rightarrow> l | None \<Rightarrow> the (TIER_LIMITS ''partner''))"

text \<open>The length of a window in seconds.\<close>

definition window_seconds :: "string \<Rightarrow> int option" where
  "window_seconds kind = map_of [(''minute'', 60), (''hour'', 3600), (''day'', 86400)] kind"

definition window_start :: "int \<Rightarrow> string \<Rightarrow> error + int" where
  "window_start now kind = (case window_seconds kind of
     Some n \<Rightarrow> Inr (now - now mod (n * SECOND)) | None \<Rightarrow> Inl (PyE ValueError))"

text \<open>The fields of a time of day in UTC.\<close>

definition clock_second :: "int \<Rightarrow> int" where "clock_second t = t div SECOND mod 60"
definition clock_minute :: "int \<Rightarrow> int" where "clock_minute t = t div SECOND div 60 mod 60"
definition clock_hour :: "int \<Rightarrow> int" where "clock_hour t = t div SECOND div 3600 mod 24"

definition retry_after_seconds :: "string \<Rightarrow> int \<Rightarrow> int" where
  "retry_after_seconds kind now =
     (if kind = ''minute'' then 60 - clock_second now
      else if kind = ''hour'' then 3600 - clock_minute now * 60 - clock_second now
      else if kind = ''day'' then 86400 - clock_hour now * 3600 - clock_minute now * 60 - clock_second now
      else 60)"

text \<open>\<open>int(v)\<close>: booleans are numbers, texts and floats are left to the parameter, the rest is a TypeError.\<close>

definition int_of_json :: "gate_env \<Rightarrow> json \<Rightarrow> error + int" where
  "int_of_json E v = (case v of
     JInt i \<Rightarrow> Inr i | JBool b \<Rightarrow> Inr (if b then 1 else 0) | JStr _ \<Rightarrow> ge_int E v | JFloat _ \<Rightarrow> ge_int E v
   | JNull \<Rightarrow> Inl (PyE TypeError) | JArr _ \<Rightarrow> Inl (PyE TypeError) | JObj _ \<Rightarrow> Inl (PyE TypeError))"

text \<open>\<open>limits.update({k: int(v) for k, v in overrides.items() if k in limits})\<close>.\<close>

fun override_limits :: "gate_env \<Rightarrow> (pystr \<times> json) list \<Rightarrow> (string \<times> int) list \<Rightarrow> error + (string \<times> int) list" where
  "override_limits E [] limits = Inr limits"
| "override_limits E ((k, v) # rest) limits =
     (if k \<in> lit ` fst ` set limits then
        (case int_of_json E v of
           Inl e \<Rightarrow> Inl e
         | Inr i \<Rightarrow> override_limits E rest (map (\<lambda>(n, c). if lit n = k then (n, i) else (n, c)) limits))
      else override_limits E rest limits)"

definition key_limits :: "gate_env \<Rightarrow> string \<Rightarrow> json option \<Rightarrow> error + (string \<times> int) list" where
  "key_limits E tier overrides = (case overrides of
     None \<Rightarrow> Inr (tier_limits tier)
   | Some j \<Rightarrow> if falsy j then Inr (tier_limits tier)
       else (case j of JObj kvs \<Rightarrow> override_limits E kvs (tier_limits tier) | _ \<Rightarrow> Inl (PyE AttributeError)))"

definition rate_key :: "rate_state \<Rightarrow> uuid \<times> string \<times> int" where
  "rate_key r = (rs_key r, rs_kind r, rs_start r)"

definition tokens_used :: "gate_db \<Rightarrow> uuid \<times> string \<times> int \<Rightarrow> int" where
  "tokens_used d k = (case sql_find (\<lambda>r. rate_key r = k) (gd_rates d) of None \<Rightarrow> 0 | Some r \<Rightarrow> rs_used r)"

text \<open>The upsert of one bucket at a time, with \<open>RETURNING tokens_used\<close>; the key must exist.\<close>

definition take_token :: "int \<Rightarrow> uuid \<Rightarrow> string \<Rightarrow> int \<Rightarrow> (error, gate_db, int) op" where
  "take_token now u kind start = (\<lambda>d.
     let n = tokens_used d (u, kind, start) + 1 in
     if u \<notin> ak_id ` set (gd_keys d) then (Inl (ServiceE IntegrityError), d)
     else (Inr n, d\<lparr>gd_rates := sql_upsert rate_key \<lparr>rs_key = u, rs_kind = kind, rs_start = start, rs_used = n, rs_last_request_at = now\<rparr> (gd_rates d)\<rparr>))"

definition rate_limited :: "string \<Rightarrow> string \<Rightarrow> int \<Rightarrow> api_error" where
  "rate_limited tier kind retry_after = HttpE \<lparr>hx_status = 429, hx_detail = jobj
     [(''code'', jlit ''RATE_LIMITED''),
      (''title'', jlit (''Rate limit exceeded for tier '' @ tier @ '' (window='' @ kind @ '')'')),
      (''retry_after_seconds'', JInt retry_after)],
     hx_headers = [(''Retry-After'', int_str retry_after), (''X-RateLimit-Tier'', lit tier), (''X-RateLimit-Reset'', int_str retry_after)]\<rparr>"

text \<open>One window of the loop: windows with a cap of zero are unlimited.\<close>

definition check_window :: "int \<Rightarrow> api_key_principal \<Rightarrow> string \<times> int \<Rightarrow> (api_error, gate_db tx_session, unit) op" where
  "check_window now p w = (case w of (kind, cap) \<Rightarrow>
     if cap = 0 then ret ()
     else (case window_start now kind of
         Inl e \<Rightarrow> raise (RaiseE e)
       | Inr start \<Rightarrow>
           bnd (tx_execute (take_token now (ap_key_id p) kind start)) (\<lambda>used.
             if cap < used then thn tx_commit (raise (rate_limited (ap_rate_tier p) kind (retry_after_seconds kind now)))
             else ret ())))"

definition enforce_rate_limit ::
  "gate_env \<Rightarrow> int \<Rightarrow> api_key_principal option \<Rightarrow> (api_error, gate_db tx_session, api_key_principal option) op" where
  "enforce_rate_limit E now who = (case who of
     None \<Rightarrow> ret None
   | Some p \<Rightarrow>
       bnd (tx_query (find_key (ap_key_id p))) (\<lambda>row.
       bnd (case key_limits E (ap_rate_tier p) (Option.bind row ak_rate_overrides) of
              Inl e \<Rightarrow> raise (RaiseE e) | Inr l \<Rightarrow> ret l) (\<lambda>limits.
       thn (for_each (check_window now p) limits)
       (thn tx_commit (ret (Some p))))))"

section \<open>Cache headers and audit codes\<close>

definition IMMUTABLE_THRESHOLD_SECONDS :: int where "IMMUTABLE_THRESHOLD_SECONDS = 5 * 60"
definition IMMUTABLE_MAX_AGE :: int where "IMMUTABLE_MAX_AGE = 31536000"

definition set_cache_headers :: "(pystr \<Rightarrow> pystr) \<Rightarrow> int \<Rightarrow> int \<Rightarrow> pystr \<Rightarrow> (string \<times> pystr) list" where
  "set_cache_headers sha now as_of_resolved body =
     [(''ETag'', lit ''\"'' @ take 32 (sha body) @ lit ''\"''),
      (''Cache-Control'',
       if IMMUTABLE_THRESHOLD_SECONDS * SECOND \<le> now - as_of_resolved
       then lit ''public, max-age='' @ int_str IMMUTABLE_MAX_AGE @ lit '', immutable''
       else lit ''no-cache, must-revalidate'')]"

definition error_code_from_status :: "int \<Rightarrow> string option" where
  "error_code_from_status sc =
     (if sc < 400 then None
      else Some (case map_of [(400, ''BITEMPORAL_AS_OF_NAIVE''), (401, ''AUTH_INVALID''), (403, ''AUTH_FORBIDDEN''),
          (404, ''BITEMPORAL_PRE_BITEMPORAL_REGION''), (409, ''IDENTIFIER_AMBIGUOUS''), (413, ''QUERY_TOO_LARGE''),
          (429, ''RATE_LIMITED''), (503, ''FEATURE_DISABLED'')] sc of Some c \<Rightarrow> c | None \<Rightarrow> ''INTERNAL_ERROR''))"

section \<open>The dependencies of a research route\<close>

text \<open>
  \<open>session\<close>, \<open>principal = Depends(enforce_rate_limit)\<close>, \<open>flags = Depends(require_master_flag)\<close>, resolved in this
  order with one session; the two clock readings are apart.
\<close>

definition research_gate ::
  "gate_env \<Rightarrow> int \<Rightarrow> int \<Rightarrow> pystr \<Rightarrow> pystr option \<Rightarrow> (api_error, gate_db tx_session, api_key_principal option \<times> feature_flags) op" where
  "research_gate E now1 now2 path header =
     bnd (get_principal E now1 path header) (\<lambda>who.
     bnd (enforce_rate_limit E now2 who) (\<lambda>who.
     bnd (require_master_flag path) (\<lambda>flags. ret (who, flags))))"

section \<open>Who gets in\<close>

definition principal_of :: "api_key \<Rightarrow> api_key_principal" where
  "principal_of k = \<lparr>ap_key_id = ak_id k, ap_rate_tier = ak_rate_tier k, ap_pii_unredacted = ak_pii_unredacted k, ap_scopes = ak_scopes k\<rparr>"

definition key_admits :: "gate_env \<Rightarrow> int \<Rightarrow> pystr \<Rightarrow> gate_db \<Rightarrow> api_key \<Rightarrow> bool" where
  "key_admits E now h d k \<longleftrightarrow> (\<exists>raw_id secret u. split_key h = Some (raw_id, secret) \<and> uuid_parse raw_id = Some u \<and> find_key u d = Some k \<and>
     verify_secret E (ak_secret_hash k) secret = Inr True \<and> ak_revoked_at k = None \<and> now \<le> ak_expires_at k)"

lemma check_key_Inr:
  "check_key E now secret row = Inr p \<longleftrightarrow> (\<exists>k. row = Some k \<and> verify_secret E (ak_secret_hash k) secret = Inr True \<and>
     ak_revoked_at k = None \<and> now \<le> ak_expires_at k \<and> p = principal_of k)"
  by (auto simp: check_key_def principal_of_def split: option.splits sum.splits)

lemma check_key_admits:
  "verify_secret E (ak_secret_hash k) secret = Inr True \<Longrightarrow> ak_revoked_at k = None \<Longrightarrow> now \<le> ak_expires_at k \<Longrightarrow>
     check_key E now secret (Some k) = Inr (principal_of k)"
  by (simp add: check_key_Inr)

lemma get_principal_public: "is_public path \<Longrightarrow> get_principal E now path header s = (Inr None, s)"
  by (simp add: get_principal_def ret_def)

lemma get_principal_state: "snd (get_principal E now path header s) = s"
  by (auto simp: get_principal_def tx_query_def bnd_def lift_def ret_def raise_def gets_def split: option.splits sum.splits)

lemma get_principal_private:
  assumes "\<not> is_public path"
  shows "fst (get_principal E now path header s) = Inr who \<longleftrightarrow>
    (\<exists>h k. header = Some h \<and> key_admits E now h (tx_work s) k \<and> who = Some (principal_of k))"
proof -
  have no_split: "split_key [] = None" by (simp add: split_key_def)
  show ?thesis
    using assms by (auto simp: get_principal_def key_admits_def tx_query_def bnd_def lift_def ret_def raise_def gets_def no_split check_key_admits check_key_Inr
        split: option.splits sum.splits)
qed

section \<open>What the token buckets do\<close>

lemma upsert_other: "key r \<noteq> k \<Longrightarrow> sql_find (\<lambda>x. key x = k) (sql_upsert key r t) = sql_find (\<lambda>x. key x = k) t"
proof -
  assume r: "key r \<noteq> k"
  have "sql_find (\<lambda>x. key x = k) (sql_update (\<lambda>x. key x = key r) (\<lambda>_. r) t) = sql_find (\<lambda>x. key x = k) t"
    using r by (induction t) (auto simp: sql_update_def)
  then show ?thesis using r by (simp add: sql_upsert_def sql_find_append split: option.splits)
qed

lemma take_token_eval:
  "take_token now u kind start d = (Inr n, d') \<longleftrightarrow> u \<in> ak_id ` set (gd_keys d) \<and> n = tokens_used d (u, kind, start) + 1 \<and>
     d' = d\<lparr>gd_rates := sql_upsert rate_key \<lparr>rs_key = u, rs_kind = kind, rs_start = start, rs_used = n, rs_last_request_at = now\<rparr> (gd_rates d)\<rparr>"
  by (auto simp: take_token_def Let_def)

lemma take_token_Inl: "take_token now u kind start d = (Inl e, d') \<Longrightarrow> d' = d \<and> u \<notin> ak_id ` set (gd_keys d)"
  by (auto simp: take_token_def Let_def split: if_splits)

lemma take_token_used:
  assumes "take_token now u kind start d = (Inr n, d')"
  shows "tokens_used d' k = (if k = (u, kind, start) then n else tokens_used d k)"
proof -
  let ?r = "\<lparr>rs_key = u, rs_kind = kind, rs_start = start, rs_used = n, rs_last_request_at = now\<rparr>"
  have d': "d' = d\<lparr>gd_rates := sql_upsert rate_key ?r (gd_rates d)\<rparr>" using assms by (simp add: take_token_eval)
  show ?thesis
  proof (cases "k = (u, kind, start)")
    case True
    then have "k = rate_key ?r" by (simp add: rate_key_def)
    then show ?thesis using True by (simp add: tokens_used_def d' sql_upsert_find)
  next
    case False
    then have "rate_key ?r \<noteq> k" by (simp add: rate_key_def)
    then show ?thesis using False by (simp add: tokens_used_def d' upsert_other)
  qed
qed

text \<open>The loop over the windows: what it leaves alone, and what an outcome says of the buckets.\<close>

definition same_tables :: "gate_db \<Rightarrow> gate_db \<Rightarrow> bool" where
  "same_tables d d' \<longleftrightarrow> gd_keys d' = gd_keys d \<and> gd_flags d' = gd_flags d"

lemma same_tables_refl [simp]: "same_tables d d"
  by (simp add: same_tables_def)

lemma same_tables_trans: "same_tables a b \<Longrightarrow> same_tables b c \<Longrightarrow> same_tables a c"
  by (simp add: same_tables_def)

text \<open>The window has room; a request takes one token of it.\<close>

definition window_open :: "int \<Rightarrow> uuid \<Rightarrow> gate_db \<Rightarrow> string \<times> int \<Rightarrow> bool" where
  "window_open now u d w = (case w of (kind, cap) \<Rightarrow>
     cap = 0 \<or> (case window_start now kind of Inl _ \<Rightarrow> False | Inr start \<Rightarrow> tokens_used d (u, kind, start) < cap))"

lemma check_window_cases:
  assumes "check_window now p w s = (r, s')"
  shows "same_tables (tx_work s) (tx_work s') \<and>
    (\<forall>k. tokens_used (tx_work s) k \<le> tokens_used (tx_work s') k) \<and>
    (\<forall>k. fst (snd k) \<noteq> fst w \<longrightarrow> tokens_used (tx_work s') k = tokens_used (tx_work s) k) \<and>
    (r = Inr () \<longrightarrow> tx_committed s' = tx_committed s \<and> window_open now (ap_key_id p) (tx_work s) w \<and>
       (\<forall>start. snd w \<noteq> 0 \<longrightarrow> window_start now (fst w) = Inr start \<longrightarrow>
          tokens_used (tx_work s') (ap_key_id p, fst w, start) = tokens_used (tx_work s) (ap_key_id p, fst w, start) + 1))"
proof (cases w)
  case (Pair kind cap)
  show ?thesis
  proof (cases "cap = 0")
    case True
    then show ?thesis using assms by (auto simp: Pair check_window_def window_open_def)
  next
    case False
    show ?thesis
    proof (cases "window_start now kind")
      case (Inl e)
      then show ?thesis using assms False by (auto simp: Pair check_window_def)
    next
      case (Inr start)
      show ?thesis
      proof (cases "take_token now (ap_key_id p) kind start (tx_work s)")
        case (Pair res d)
        show ?thesis
        proof (cases res)
          case (Inl e)
          then show ?thesis using assms False Inr \<open>w = (kind, cap)\<close> Pair
            by (auto simp: check_window_def tx_execute_def bnd_def)
        next
          case res: (Inr n)
          have used: "tokens_used d k = (if k = (ap_key_id p, kind, start) then n else tokens_used (tx_work s) k)" for k
            using take_token_used [OF Pair [unfolded res]] .
          have n: "n = tokens_used (tx_work s) (ap_key_id p, kind, start) + 1" "same_tables (tx_work s) d"
            using Pair res by (auto simp: take_token_eval same_tables_def)
          have work: "tx_work s' = d" and r: "r = Inr () \<longleftrightarrow> n \<le> cap" "r = Inr () \<Longrightarrow> tx_committed s' = tx_committed s"
            using assms False Inr \<open>w = (kind, cap)\<close> Pair res
            by (auto simp: check_window_def tx_execute_def tx_commit_def bnd_def ret_def raise_def split: if_splits)
          show ?thesis
            using n(2) r Inr False unfolding work \<open>w = (kind, cap)\<close> by (auto simp: used n(1) window_open_def)
        qed
      qed
    qed
  qed
qed

text \<open>What an accepted request leaves: one token more in every capped window.\<close>

definition charged :: "int \<Rightarrow> uuid \<Rightarrow> (string \<times> int) list \<Rightarrow> gate_db \<Rightarrow> gate_db \<Rightarrow> bool" where
  "charged now u ws d d' \<longleftrightarrow> (\<forall>(kind, cap) \<in> set ws. cap \<noteq> 0 \<longrightarrow>
     (\<forall>start. window_start now kind = Inr start \<longrightarrow> tokens_used d' (u, kind, start) = tokens_used d (u, kind, start) + 1))"

lemma window_open_frame:
  "(\<And>start. tokens_used d' (u, fst w, start) = tokens_used d (u, fst w, start)) \<Longrightarrow> window_open now u d' w = window_open now u d w"
  by (cases w) (simp add: window_open_def split: sum.splits)

lemma check_windows:
  assumes "for_each (check_window now p) ws s = (r, s')" "distinct (map fst ws)"
  shows "same_tables (tx_work s) (tx_work s') \<and>
    (\<forall>k. tokens_used (tx_work s) k \<le> tokens_used (tx_work s') k) \<and>
    (\<forall>k. fst (snd k) \<notin> fst ` set ws \<longrightarrow> tokens_used (tx_work s') k = tokens_used (tx_work s) k) \<and>
    (r = Inr () \<longrightarrow> tx_committed s' = tx_committed s \<and> (\<forall>w \<in> set ws. window_open now (ap_key_id p) (tx_work s) w) \<and>
       charged now (ap_key_id p) ws (tx_work s) (tx_work s'))"
  using assms
proof (induction ws arbitrary: s)
  case Nil
  then show ?case by (simp add: charged_def)
next
  case (Cons w ws)
  obtain r1 s1 where one: "check_window now p w s = (r1, s1)" by (cases "check_window now p w s")
  note h = check_window_cases [OF one]
  show ?case
  proof (cases r1)
    case (Inl e)
    then have "r = Inl e" "s' = s1" using Cons.prems(1) one by (simp_all add: thn_def bnd_def)
    then show ?thesis using h by auto
  next
    case (Inr x)
    then have rest: "for_each (check_window now p) ws s1 = (r, s')" and ok: "r1 = Inr ()" using Cons.prems(1) one by (simp_all add: thn_def bnd_def)
    have t: "same_tables (tx_work s1) (tx_work s')" "\<forall>k. tokens_used (tx_work s1) k \<le> tokens_used (tx_work s') k"
        "\<forall>k. fst (snd k) \<notin> fst ` set ws \<longrightarrow> tokens_used (tx_work s') k = tokens_used (tx_work s1) k"
        "r = Inr () \<longrightarrow> tx_committed s' = tx_committed s1 \<and> (\<forall>w \<in> set ws. window_open now (ap_key_id p) (tx_work s1) w) \<and>
           charged now (ap_key_id p) ws (tx_work s1) (tx_work s')"
      using Cons.IH [OF rest] Cons.prems(2) by simp_all
    have new: "fst w \<notin> fst ` set ws" using Cons.prems(2) by simp
    have apart: "fst v \<noteq> fst w" if "v \<in> set ws" for v using new imageI [OF that, of fst] by metis
    have frame: "tokens_used (tx_work s1) (u, fst v, start) = tokens_used (tx_work s) (u, fst v, start)" if "v \<in> set ws" for u v start
      using h apart [OF that] by simp
    have last: "tokens_used (tx_work s') (u, fst w, start) = tokens_used (tx_work s1) (u, fst w, start)" for u start
      using t(3) new by simp
    have opens: "window_open now u (tx_work s1) v = window_open now u (tx_work s) v" if "v \<in> set ws" for u v
      by (rule window_open_frame) (rule frame [OF that])
    have "charged now (ap_key_id p) (w # ws) (tx_work s) (tx_work s')" if "r = Inr ()"
      using t(4) that h ok frame last unfolding charged_def by fastforce
    moreover have "tx_committed s' = tx_committed s \<and> (\<forall>v \<in> set (w # ws). window_open now (ap_key_id p) (tx_work s) v)" if "r = Inr ()"
      using t(4) that h ok opens by simp
    moreover have "same_tables (tx_work s) (tx_work s')" using h t(1) same_tables_trans by blast
    moreover have "tokens_used (tx_work s) k \<le> tokens_used (tx_work s') k" for k
      by (rule order_trans [OF spec [OF conjunct1 [OF conjunct2 [OF h]]] spec [OF t(2)]])
    moreover have "tokens_used (tx_work s') k = tokens_used (tx_work s) k" if "fst (snd k) \<notin> fst ` set (w # ws)" for k
    proof -
      have "tokens_used (tx_work s1) k = tokens_used (tx_work s) k" using h that by (cases k) simp
      moreover have "tokens_used (tx_work s') k = tokens_used (tx_work s1) k" using t(3) that by (cases k) simp
      ultimately show ?thesis by simp
    qed
    ultimately show ?thesis by blast
  qed
qed

lemma check_window_room:
  assumes "window_open now (ap_key_id p) (tx_work s) w" "ap_key_id p \<in> ak_id ` set (gd_keys (tx_work s))"
  shows "fst (check_window now p w s) = Inr ()"
  using assms by (cases w) (auto simp: window_open_def check_window_def tx_execute_def bnd_def take_token_def Let_def ret_def split: sum.splits)

lemma check_windows_room:
  assumes "\<forall>w \<in> set ws. window_open now (ap_key_id p) (tx_work s) w" "ap_key_id p \<in> ak_id ` set (gd_keys (tx_work s))" "distinct (map fst ws)"
  shows "fst (for_each (check_window now p) ws s) = Inr ()"
  using assms
proof (induction ws arbitrary: s)
  case (Cons w ws)
  obtain s1 where one: "check_window now p w s = (Inr (), s1)"
    using check_window_room [of now p s w] Cons.prems by (cases "check_window now p w s") auto
  note h = check_window_cases [OF one]
  have "window_open now (ap_key_id p) (tx_work s1) v" if v: "v \<in> set ws" for v
  proof -
    have "fst w \<notin> fst ` set ws" using Cons.prems(3) by simp
    then have "fst v \<noteq> fst w" using v by (metis imageI)
    then have "window_open now (ap_key_id p) (tx_work s1) v = window_open now (ap_key_id p) (tx_work s) v"
      using h by (intro window_open_frame) simp
    then show ?thesis using Cons.prems(1) v by simp
  qed
  moreover have "gd_keys (tx_work s1) = gd_keys (tx_work s)" using h by (simp add: same_tables_def)
  ultimately show ?case using Cons.IH [of s1] Cons.prems by (simp add: thn_def bnd_def one)
qed (simp add: ret_def)

lemma tier_limits_distinct: "distinct (map fst (tier_limits t))"
  by (simp add: tier_limits_def)

lemma override_kinds: "override_limits E kvs limits = Inr l \<Longrightarrow> map fst l = map fst limits"
proof (induction kvs arbitrary: limits)
  case (Cons kv kvs)
  obtain k v where kv: "kv = (k, v)" by (cases kv)
  have same: "map fst (map (\<lambda>(n, c). if lit n = k then (n, i) else (n, c)) limits) = map fst limits" for i
    by (induction limits) auto
  show ?case using Cons.prems Cons.IH same by (auto simp: kv split: if_splits sum.splits)
qed simp

lemma key_limits_distinct: "key_limits E t ov = Inr l \<Longrightarrow> distinct (map fst l)"
  using tier_limits_distinct [of t] override_kinds [of E _ "tier_limits t" l]
  by (auto simp: key_limits_def simp del: distinct_map split: option.splits if_splits json.splits)

section \<open>The gate as a whole\<close>

text \<open>The rate limit of a principal whose key row is there.\<close>

lemma enforce_run:
  assumes "find_key (ap_key_id p) (tx_work s) = Some k"
  shows "enforce_rate_limit E now (Some p) s = (case key_limits E (ap_rate_tier p) (ak_rate_overrides k) of
      Inl e \<Rightarrow> (Inl (RaiseE e), s)
    | Inr limits \<Rightarrow> thn (for_each (check_window now p) limits) (thn tx_commit (ret (Some p))) s)"
  using assms by (simp add: enforce_rate_limit_def tx_query_def bnd_def gets_def raise_def ret_def split: sum.splits)

lemma enforce_frame:
  assumes "find_key (ap_key_id p) (tx_work s) = Some k" "enforce_rate_limit E now (Some p) s = (r, s')"
  shows "same_tables (tx_work s) (tx_work s') \<and> (\<forall>b. tokens_used (tx_work s) b \<le> tokens_used (tx_work s') b)"
proof (cases "key_limits E (ap_rate_tier p) (ak_rate_overrides k)")
  case (Inl e)
  then show ?thesis using assms(2) by (simp add: enforce_run [OF assms(1)])
next
  case (Inr limits)
  obtain r1 s1 where loop: "for_each (check_window now p) limits s = (r1, s1)" by (cases "for_each (check_window now p) limits s")
  have "tx_work s' = tx_work s1"
    using assms(2) by (cases r1) (auto simp: enforce_run [OF assms(1)] Inr thn_def bnd_def loop tx_commit_def modify_def ret_def)
  then show ?thesis using check_windows [OF loop key_limits_distinct [OF Inr]] by simp
qed

lemma enforce_accepts:
  assumes "find_key (ap_key_id p) (tx_work s) = Some k" "enforce_rate_limit E now (Some p) s = (Inr who, s')"
  obtains limits where "who = Some p" "key_limits E (ap_rate_tier p) (ak_rate_overrides k) = Inr limits"
    "\<forall>w \<in> set limits. window_open now (ap_key_id p) (tx_work s) w" "tx_committed s' = tx_work s'"
    "charged now (ap_key_id p) limits (tx_work s) (tx_work s')"
proof (cases "key_limits E (ap_rate_tier p) (ak_rate_overrides k)")
  case (Inl e)
  then show ?thesis using assms(2) by (simp add: enforce_run [OF assms(1)])
next
  case (Inr limits)
  obtain r1 s1 where loop: "for_each (check_window now p) limits s = (r1, s1)" by (cases "for_each (check_window now p) limits s")
  have ok: "r1 = Inr ()" "who = Some p" "tx_committed s' = tx_work s1" "tx_work s' = tx_work s1"
    using assms(2) by (cases r1; auto simp: enforce_run [OF assms(1)] Inr thn_def bnd_def loop tx_commit_def modify_def ret_def)+
  then show ?thesis using that [OF ok(2) Inr] check_windows [OF loop key_limits_distinct [OF Inr]] by simp
qed

lemma enforce_room:
  assumes "find_key (ap_key_id p) (tx_work s) = Some k" "key_limits E (ap_rate_tier p) (ak_rate_overrides k) = Inr limits"
    "\<forall>w \<in> set limits. window_open now (ap_key_id p) (tx_work s) w"
  shows "fst (enforce_rate_limit E now (Some p) s) = Inr (Some p)"
proof -
  have "ap_key_id p \<in> ak_id ` set (gd_keys (tx_work s))"
    using assms(1) unfolding find_key_def by (auto dest!: sql_find_Some_iff intro: rev_image_eqI)
  then have "fst (for_each (check_window now p) limits s) = Inr ()"
    by (rule check_windows_room [OF assms(3) _ key_limits_distinct [OF assms(2)]])
  then show ?thesis
    by (cases "for_each (check_window now p) limits s") (simp add: enforce_run [OF assms(1)] assms(2) thn_def bnd_def tx_commit_def modify_def ret_def)
qed

lemma key_admits_found:
  assumes "key_admits E now h d k"
  shows "find_key (ak_id k) d = Some k"
proof -
  obtain u where u: "find_key u d = Some k" using assms by (auto simp: key_admits_def)
  then have "ak_id k = u" unfolding find_key_def using sql_find_Some_iff by fastforce
  with u show ?thesis by simp
qed

lemma load_flags_same: "same_tables d d' \<Longrightarrow> load_feature_flags d' = load_feature_flags d"
  by (simp add: load_feature_flags_def same_tables_def)

lemma master_flag_eval:
  assumes "\<not> is_public path"
  shows "fst (require_master_flag path s) = Inr fl \<longleftrightarrow>
      fl = load_feature_flags (tx_work s) \<and> flag_on fl ''BITEMPORAL_API_ENABLED'' False"
    and "snd (require_master_flag path s) = s"
  using assms by (auto simp: require_master_flag_def tx_query_def gets_def bnd_def raise_def ret_def)

lemma master_flag_run:
  assumes "\<not> is_public path"
  shows "require_master_flag path s = (Inr fl, s') \<longleftrightarrow>
      s' = s \<and> fl = load_feature_flags (tx_work s) \<and> flag_on fl ''BITEMPORAL_API_ENABLED'' False"
  using master_flag_eval [OF assms, of s] by (metis prod.collapse fst_conv snd_conv)

text \<open>A request that is let in, step by step.\<close>

lemma gate_accepts:
  assumes "\<not> is_public path" "research_gate E now1 now2 path header s = (Inr (who, fl), s')"
  obtains h k limits where "header = Some h" "key_admits E now1 h (tx_work s) k" "who = Some (principal_of k)"
    "key_limits E (ak_rate_tier k) (ak_rate_overrides k) = Inr limits"
    "\<forall>w \<in> set limits. window_open now2 (ak_id k) (tx_work s) w" "tx_committed s' = tx_work s'"
    "charged now2 (ak_id k) limits (tx_work s) (tx_work s')" "same_tables (tx_work s) (tx_work s')"
    "\<forall>b. tokens_used (tx_work s) b \<le> tokens_used (tx_work s') b"
    "fl = load_feature_flags (tx_work s)" "flag_on fl ''BITEMPORAL_API_ENABLED'' False"
proof -
  obtain who1 where 1: "get_principal E now1 path header s = (Inr who1, s)"
    and rest: "bnd (enforce_rate_limit E now2 who1) (\<lambda>who. bnd (require_master_flag path) (\<lambda>flags. ret (who, flags))) s = (Inr (who, fl), s')"
    using assms(2) get_principal_state [of E now1 path header s] unfolding research_gate_def bnd_Inr_iff by fastforce
  obtain h k where k: "header = Some h" "key_admits E now1 h (tx_work s) k" "who1 = Some (principal_of k)"
    using get_principal_private [OF assms(1), of E now1 header s who1] 1 by auto
  obtain who2 s2 where 2: "enforce_rate_limit E now2 (Some (principal_of k)) s = (Inr who2, s2)"
    and 3: "bnd (require_master_flag path) (\<lambda>flags. ret (who2, flags)) s2 = (Inr (who, fl), s')"
    using rest unfolding bnd_Inr_iff k(3) by blast
  have flag: "who = who2" "s' = s2" "fl = load_feature_flags (tx_work s2)" "flag_on fl ''BITEMPORAL_API_ENABLED'' False"
    using 3 by (auto simp: bnd_Inr_iff master_flag_run [OF assms(1)])
  have id: "ap_key_id (principal_of k) = ak_id k" "ap_rate_tier (principal_of k) = ak_rate_tier k" by (simp_all add: principal_of_def)
  have found: "find_key (ap_key_id (principal_of k)) (tx_work s) = Some k" using key_admits_found [OF k(2)] by (simp add: id)
  obtain limits where l: "who2 = Some (principal_of k)" "key_limits E (ak_rate_tier k) (ak_rate_overrides k) = Inr limits"
    "\<forall>w \<in> set limits. window_open now2 (ak_id k) (tx_work s) w" "tx_committed s2 = tx_work s2"
    "charged now2 (ak_id k) limits (tx_work s) (tx_work s2)"
    using enforce_accepts [OF found 2] unfolding id by blast
  note f = enforce_frame [OF found 2]
  show thesis
    by (rule that [OF k(1,2)]) (use l f flag load_flags_same [of "tx_work s" "tx_work s2"] in \<open>simp_all\<close>)
qed

text \<open>C24. A request to a route that is not public is let in exactly when its header names a stored key by
  UUID and carries its secret, the key is neither revoked nor expired, every capped window of its tier has a token left
  and the master flag is on; it then acts as the principal of that key, with the flags as they are. The other flags
  do not matter: \<open>BITEMPORAL_API_RATE_LIMIT_ENFORCED\<close>, which SCOPE.md D6 and the test plan (TC-036) document as a bypass
  of the limits, is read by no code, and a key without tokens is refused whatever it says.\<close>

theorem research_gate_exact:
  assumes "\<not> is_public path"
  shows "fst (serve (research_gate E now1 now2 path header) d) = Inr (who, flags) \<longleftrightarrow>
    (\<exists>h k limits. header = Some h \<and> key_admits E now1 h d k \<and> who = Some (principal_of k) \<and>
       key_limits E (ak_rate_tier k) (ak_rate_overrides k) = Inr limits \<and>
       (\<forall>w \<in> set limits. window_open now2 (ak_id k) d w) \<and>
       flags = load_feature_flags d \<and> flag_on flags ''BITEMPORAL_API_ENABLED'' False)"
    (is "?in \<longleftrightarrow> ?ok")
proof
  let ?s = "\<lparr>tx_committed = d, tx_work = d\<rparr>"
  assume ?in
  then obtain s' where "research_gate E now1 now2 path header ?s = (Inr (who, flags), s')"
    by (auto simp: serve_def split: prod.splits)
  then obtain h k limits where "header = Some h" "key_admits E now1 h (tx_work ?s) k" "who = Some (principal_of k)"
    "key_limits E (ak_rate_tier k) (ak_rate_overrides k) = Inr limits"
    "\<forall>w \<in> set limits. window_open now2 (ak_id k) (tx_work ?s) w" "flags = load_feature_flags (tx_work ?s)"
    "flag_on flags ''BITEMPORAL_API_ENABLED'' False"
    by (rule gate_accepts [OF assms])
  then show ?ok by (intro exI [of _ h] exI [of _ k] exI [of _ limits]) simp
next
  let ?s = "\<lparr>tx_committed = d, tx_work = d\<rparr>"
  assume ?ok
  then obtain h k limits where k: "header = Some h" "key_admits E now1 h d k" "who = Some (principal_of k)"
    and l: "key_limits E (ak_rate_tier k) (ak_rate_overrides k) = Inr limits" "\<forall>w \<in> set limits. window_open now2 (ak_id k) d w"
    and fl: "flags = load_feature_flags d" "flag_on flags ''BITEMPORAL_API_ENABLED'' False"
    by blast
  have id: "ap_key_id (principal_of k) = ak_id k" "ap_rate_tier (principal_of k) = ak_rate_tier k" by (simp_all add: principal_of_def)
  have 1: "get_principal E now1 path header ?s = (Inr who, ?s)"
  proof (rule prod_eqI)
    show "fst (get_principal E now1 path header ?s) = fst (Inr who, ?s)"
      unfolding fst_conv get_principal_private [OF assms] using k by auto
  qed (simp add: get_principal_state)
  have found: "find_key (ap_key_id (principal_of k)) (tx_work ?s) = Some k" using key_admits_found [OF k(2)] by (simp add: id)
  obtain s2 where 2: "enforce_rate_limit E now2 who ?s = (Inr who, s2)"
    using enforce_room [OF found, of E limits now2] l by (cases "enforce_rate_limit E now2 who ?s") (simp add: id k(3))
  have "same_tables d (tx_work s2)" using enforce_frame [OF found 2 [unfolded k(3)]] by simp
  then have "load_feature_flags (tx_work s2) = flags" using fl(1) load_flags_same by simp
  then have 3: "require_master_flag path s2 = (Inr flags, s2)"
    using fl(2) by (simp add: master_flag_run [OF assms])
  show ?in by (simp add: serve_def research_gate_def bnd_def 1 2 3 ret_def)
qed

lemma key_admits_unique: "key_admits E now h d k \<Longrightarrow> key_admits E now h d k' \<Longrightarrow> k' = k"
  by (auto simp: key_admits_def)

text \<open>The documented bypass does not exist: with the flag off, a key whose window is used up is still refused.\<close>

lemma rate_limit_flag_ignored:
  assumes "\<not> is_public path" and "key_admits E now1 h d k" and "key_limits E (ak_rate_tier k) (ak_rate_overrides k) = Inr limits"
    and "w \<in> set limits" "\<not> window_open now2 (ak_id k) d w"
    and "\<not> flag_on (load_feature_flags d) ''BITEMPORAL_API_RATE_LIMIT_ENFORCED'' True"
  shows "fst (serve (research_gate E now1 now2 path (Some h)) d) \<noteq> Inr r"
proof
  assume "fst (serve (research_gate E now1 now2 path (Some h)) d) = Inr r"
  then obtain s' where "research_gate E now1 now2 path (Some h) \<lparr>tx_committed = d, tx_work = d\<rparr> = (Inr (fst r, snd r), s')"
    by (auto simp: serve_def split: prod.splits)
  then obtain k' limits' where "key_admits E now1 h d k'" "key_limits E (ak_rate_tier k') (ak_rate_overrides k') = Inr limits'"
    "\<forall>w \<in> set limits'. window_open now2 (ak_id k') d w"
    by (rule gate_accepts [OF assms(1)]) simp
  with key_admits_unique [OF assms(2)] assms(3-5) show False by fastforce
qed

section \<open>Requests one after the other\<close>

text \<open>
  Buckets are updated under their row locks, so the requests of a key to a window are served in some order. With each
  request comes what other transactions have changed since the one before.
\<close>

type_synonym gate_request = "int \<times> int \<times> pystr \<times> pystr option \<times> (gate_db \<Rightarrow> gate_db)"
type_synonym gate_answer = "int \<times> (api_error + api_key_principal option \<times> feature_flags)"

fun serve_all :: "gate_env \<Rightarrow> gate_request list \<Rightarrow> gate_db \<Rightarrow> gate_answer list \<times> gate_db" where
  "serve_all E [] d = ([], d)"
| "serve_all E ((now1, now2, path, header, env) # reqs) d =
     (case serve (research_gate E now1 now2 path header) (env d) of (r, d1) \<Rightarrow>
       (case serve_all E reqs d1 of (rs, d2) \<Rightarrow> ((now2, r) # rs, d2)))"

text \<open>A change that keeps the row of the key and gives no token of it back; flags, other keys and their buckets are free.\<close>

definition keeps_key :: "uuid \<Rightarrow> (gate_db \<Rightarrow> gate_db) \<Rightarrow> bool" where
  "keeps_key u env \<longleftrightarrow> (\<forall>d. find_key u (env d) = find_key u d \<and> (\<forall>kind w. tokens_used d (u, kind, w) \<le> tokens_used (env d) (u, kind, w)))"

definition request_env :: "gate_request \<Rightarrow> gate_db \<Rightarrow> gate_db" where
  "request_env req = (case req of (_, _, _, _, env) \<Rightarrow> env)"

text \<open>The answer lets a request of the key through in the window.\<close>

definition through :: "uuid \<Rightarrow> string \<Rightarrow> int \<Rightarrow> gate_answer \<Rightarrow> bool" where
  "through u kind w a = (case a of
     (now, Inr (Some who, _)) \<Rightarrow> ap_key_id who = u \<and> window_start now kind = Inr w
   | _ \<Rightarrow> False)"

definition grown :: "gate_db \<Rightarrow> gate_db \<Rightarrow> bool" where
  "grown d d' \<longleftrightarrow> same_tables d d' \<and> (\<forall>b. tokens_used d b \<le> tokens_used d' b)"

lemma grown_refl [simp]: "grown d d"
  by (simp add: grown_def)

lemma take_token_grown: "grown d e \<Longrightarrow> grown d (snd (take_token now u kind start e))"
proof (cases "take_token now u kind start e")
  case (Pair r e')
  assume "grown d e"
  then show ?thesis
  proof (cases r)
    case (Inl x)
    then show ?thesis using Pair take_token_Inl \<open>grown d e\<close> by fastforce
  next
    case (Inr n)
    have "tokens_used e b \<le> tokens_used e' b" for b
      using take_token_used [OF Pair [unfolded Inr], of b] Pair Inr by (auto simp: take_token_eval)
    then have "\<forall>b. tokens_used d b \<le> tokens_used e' b" using \<open>grown d e\<close> unfolding grown_def by (meson order_trans)
    moreover have "same_tables e e'" using Pair Inr by (auto simp: take_token_eval same_tables_def)
    ultimately show ?thesis using \<open>grown d e\<close> same_tables_trans by (auto simp: grown_def Pair)
  qed
qed

lemma keeps_check_window:
  "keeps (\<lambda>s. grown d (tx_work s) \<and> grown d (tx_committed s)) (check_window now p w)"
  unfolding check_window_def
  by (cases w) (auto intro!: keeps_intros keeps_execute keeps_commit take_token_grown split: sum.splits)

lemma keeps_gate:
  "keeps (\<lambda>s. grown d (tx_work s) \<and> grown d (tx_committed s)) (research_gate E now1 now2 path header)"
proof -
  have "keeps (\<lambda>s. grown d (tx_work s) \<and> grown d (tx_committed s)) (get_principal E now1 path header)"
    by (rule keepsI) (simp add: get_principal_state)
  moreover have "keeps (\<lambda>s. grown d (tx_work s) \<and> grown d (tx_committed s)) (enforce_rate_limit E now2 who)" for who
    unfolding enforce_rate_limit_def tx_query_def
    by (auto intro!: keeps_intros keeps_check_window keeps_commit split: option.splits sum.splits)
  moreover have "keeps (\<lambda>s. grown d (tx_work s) \<and> grown d (tx_committed s)) (require_master_flag path)"
    unfolding require_master_flag_def tx_query_def by (auto intro!: keeps_intros)
  ultimately show ?thesis unfolding research_gate_def by (intro keeps_intros)
qed

lemma serve_grown: "serve (research_gate E now1 now2 path header) d = (r, d') \<Longrightarrow> grown d d'"
  using keepsD [OF keeps_gate, where d1 = d] by (fastforce simp: serve_def split: prod.splits)

lemma through_step:
  assumes "serve (research_gate E now1 now2 path header) d = (r, d')" "through u kind w (now2, r)"
    and "find_key u d = Some k" "key_limits E (ak_rate_tier k) (ak_rate_overrides k) = Inr limits" "(kind, cap) \<in> set limits" "cap \<noteq> 0"
  shows "tokens_used d' (u, kind, w) = tokens_used d (u, kind, w) + 1 \<and> tokens_used d' (u, kind, w) \<le> cap"
proof -
  let ?s = "\<lparr>tx_committed = d, tx_work = d\<rparr>"
  obtain who fl where r: "r = Inr (Some who, fl)" and who: "ap_key_id who = u" and w: "window_start now2 kind = Inr w"
    using assms(2) by (auto simp: through_def split: sum.splits option.splits)
  obtain s' where run: "research_gate E now1 now2 path header ?s = (Inr (Some who, fl), s')" and d': "d' = tx_committed s'"
    using assms(1) by (auto simp: serve_def r split: prod.splits)
  have path: "\<not> is_public path"
    using run by (auto simp: research_gate_def bnd_def get_principal_public enforce_rate_limit_def ret_def split: prod.splits sum.splits)
  obtain h k' limits' where k': "key_admits E now1 h (tx_work ?s) k'" "Some who = Some (principal_of k')"
    and l: "key_limits E (ak_rate_tier k') (ak_rate_overrides k') = Inr limits'"
      "\<forall>w \<in> set limits'. window_open now2 (ak_id k') (tx_work ?s) w" "tx_committed s' = tx_work s'"
      "charged now2 (ak_id k') limits' (tx_work ?s) (tx_work s')"
    by (rule gate_accepts [OF path run])
  have "ak_id k' = u" using k'(2) who by (simp add: principal_of_def)
  moreover then have "k' = k" using key_admits_found [OF k'(1)] assms(3) by simp
  ultimately have "limits' = limits" "ak_id k' = u" using l(1) assms(4) by simp_all
  then show ?thesis
    using l(2-4) assms(5,6) w by (fastforce simp: d' window_open_def charged_def)
qed

text \<open>C25. In a calendar window a key is let through at most as often as the cap of its tier says, its overrides
  included, whatever other requests, refused ones among them, come in between, and whatever else happens to the tables:
  the flags (\<open>BITEMPORAL_API_RATE_LIMIT_ENFORCED\<close> too, which SCOPE.md D6 documents as a bypass and no code reads), other
  keys and their buckets may change. The row of the key is unchanged meanwhile, and no token of it is given back.\<close>

theorem rate_limit_bounds_accepted:
  assumes "find_key u d = Some k" and "key_limits E (ak_rate_tier k) (ak_rate_overrides k) = Inr limits"
    and "(kind, cap) \<in> set limits" and "cap \<noteq> 0" and "0 \<le> tokens_used d (u, kind, w)"
    and "\<forall>req \<in> set reqs. keeps_key u (request_env req)"
  shows "int (length (filter (through u kind w) (fst (serve_all E reqs d)))) \<le> max 0 cap"
proof -
  have "length (filter (through u kind w) (fst (serve_all E reqs d))) = 0 \<or>
      tokens_used d (u, kind, w) + int (length (filter (through u kind w) (fst (serve_all E reqs d)))) \<le> cap"
    using assms(1,6)
  proof (induction reqs arbitrary: d)
    case (Cons req reqs)
    obtain now1 now2 path header env where req: "req = (now1, now2, path, header, env)" by (cases req)
    obtain r d1 where one: "serve (research_gate E now1 now2 path header) (env d) = (r, d1)"
      by (cases "serve (research_gate E now1 now2 path header) (env d)")
    have env: "find_key u (env d) = Some k" "tokens_used d (u, kind, w) \<le> tokens_used (env d) (u, kind, w)"
      using Cons.prems by (simp_all add: req request_env_def keeps_key_def)
    have g: "grown (env d) d1" by (rule serve_grown [OF one])
    then have "find_key u d1 = Some k" using env(1) by (simp add: grown_def same_tables_def find_key_def)
    note IH = Cons.IH [OF this]
    have all: "fst (serve_all E (req # reqs) d) = (now2, r) # fst (serve_all E reqs d1)"
      by (simp add: req one split: prod.splits)
    have mono: "tokens_used d (u, kind, w) \<le> tokens_used d1 (u, kind, w)" using g env(2) order_trans unfolding grown_def by blast
    then show ?case
    proof (cases "through u kind w (now2, r)")
      case True
      then show ?thesis using IH Cons.prems(2) env(2) through_step [OF one True env(1) assms(2-4)] unfolding all by auto
    next
      case False
      then show ?thesis using IH Cons.prems(2) mono unfolding all by auto
    qed
  qed simp
  then show ?thesis using assms(5) by linarith
qed

section \<open>When to come back\<close>

lemma clock_fields:
  "clock_minute t * 60 + clock_second t = t div SECOND mod 3600"
  "clock_hour t * 3600 + clock_minute t * 60 + clock_second t = t div SECOND mod 86400"
proof -
  let ?q = "t div SECOND"
  have m: "?q mod 3600 = 60 * (?q div 60 mod 60) + ?q mod 60" using zmod_zmult2_eq [of 60 ?q 60] by simp
  have h: "?q mod 86400 = 3600 * (?q div 3600 mod 24) + ?q mod 3600" using zmod_zmult2_eq [of 24 ?q 3600] by simp
  show "clock_minute t * 60 + clock_second t = ?q mod 3600" unfolding m by (simp add: clock_minute_def clock_second_def)
  show "clock_hour t * 3600 + clock_minute t * 60 + clock_second t = ?q mod 86400"
    unfolding h m by (simp add: clock_hour_def clock_minute_def clock_second_def)
qed

lemma retry_after_eval: "window_seconds kind = Some n \<Longrightarrow> retry_after_seconds kind now = n - now div SECOND mod n"
  using clock_fields [of now] by (auto simp: window_seconds_def retry_after_seconds_def clock_second_def split: if_splits)

lemma window_shift:
  assumes "0 < n" "0 \<le> m" "m < n"
  shows "(now + (m - now div SECOND mod n) * SECOND) - (now + (m - now div SECOND mod n) * SECOND) mod (n * SECOND) = now - now mod (n * SECOND)"
proof -
  let ?q = "now div SECOND" and ?f = "now mod SECOND"
  have pos: "0 < SECOND" "0 \<le> ?f" "?f < SECOND" by (simp_all add: SECOND_def)
  have now: "now = ?q * SECOND + ?f" by simp
  have q: "?q = n * (?q div n) + ?q mod n" by simp
  have "now + (m - ?q mod n) * SECOND = (n * SECOND) * (?q div n) + (m * SECOND + ?f)"
    using arg_cong [OF q, of "\<lambda>x. x * SECOND + ?f"] unfolding now [symmetric] by (simp only: algebra_simps)
  moreover have "0 \<le> m * SECOND + ?f" "m * SECOND + ?f < n * SECOND"
  proof -
    show "0 \<le> m * SECOND + ?f" using assms(2) pos by simp
    have "(m + 1) * SECOND \<le> n * SECOND" using assms(3) pos by (intro mult_right_mono) simp_all
    then show "m * SECOND + ?f < n * SECOND" using pos(3) by (simp add: distrib_right)
  qed
  ultimately have shifted: "(now + (m - ?q mod n) * SECOND) mod (n * SECOND) = m * SECOND + ?f"
    by (simp add: mod_pos_pos_trivial)
  have "now mod (n * SECOND) = ?q mod n * SECOND + ?f"
    using zmod_zmult2_eq [of n now SECOND] assms(1) by (simp add: mult.commute)
  then show ?thesis unfolding shifted by (simp add: algebra_simps)
qed

text \<open>The seconds a throttled client is told to wait are at least one and at most the window, and exact to the
  second: after them the next window has begun, one second earlier the old one is still running.\<close>

lemma retry_after_exact:
  assumes "window_seconds kind = Some n" and "window_start now kind = Inr w"
  shows "1 \<le> retry_after_seconds kind now \<and> retry_after_seconds kind now \<le> n \<and>
    window_start (now + retry_after_seconds kind now * SECOND) kind = Inr (w + n * SECOND) \<and>
    window_start (now + (retry_after_seconds kind now - 1) * SECOND) kind = Inr w"
proof -
  let ?m = "now div SECOND mod n"
  have n: "0 < n" using assms(1) by (auto simp: window_seconds_def split: if_splits)
  have w: "w = now - now mod (n * SECOND)" using assms by (simp add: window_start_def)
  have m: "0 \<le> ?m" "?m < n" using n by simp_all
  have next_start: "now + (n - ?m) * SECOND = (now + (0 - ?m) * SECOND) + n * SECOND" by (simp add: algebra_simps)
  have "window_start (now + (n - ?m) * SECOND) kind = Inr (w + n * SECOND)"
    using window_shift [OF n order_refl n, of now] unfolding next_start by (simp add: window_start_def assms(1) w)
  moreover have "window_start (now + (n - ?m - 1) * SECOND) kind = Inr w"
    using window_shift [OF n, of "n - 1" now] n by (simp add: window_start_def assms(1) w algebra_simps)
  ultimately show ?thesis using m by (simp add: retry_after_eval [OF assms(1)])
qed

lemma retry_after_exact_witness: "window_start (90 * SECOND + retry_after_seconds ''minute'' (90 * SECOND) * SECOND) ''minute'' = Inr (120 * SECOND)"
  using retry_after_exact [of "''minute''" 60 "90 * SECOND" "60 * SECOND"] by (simp add: window_seconds_def window_start_def SECOND_def)

section \<open>A key with a legacy secret\<close>

definition sample_gate_env :: gate_env where
  "sample_gate_env = \<lparr>ge_argon = (\<lambda>_ _. Mismatch), ge_int = (\<lambda>_. Inl (PyE TypeError))\<rparr>"

definition sample_key :: api_key where
  "sample_key = \<lparr>ak_id = 7, ak_secret_hash = lit ''s3'', ak_description = None, ak_rate_tier = ''public'',
     ak_rate_overrides = Some (jobj [(''minute'', JInt 1)]), ak_pii_unredacted = False, ak_scopes = [], ak_created_at = 0,
     ak_expires_at = 10, ak_revoked_at = None, ak_last_used_at = None, ak_created_by = None\<rparr>"

definition sample_gate_db :: gate_db where
  "sample_gate_db = \<lparr>gd_keys = [sample_key], gd_rates = [],
     gd_flags = [\<lparr>ff_name = lit ''BITEMPORAL_API_ENABLED'', ff_text = None, ff_bool = Some True, ff_int = None,
       ff_scope = ''global'', ff_scope_value = None, ff_updated_at = 0, ff_updated_by = None, ff_notes = None\<rparr>]\<rparr>"

definition sample_header :: pystr where
  "sample_header = uuid_str 7 @ lit '':s3''"

definition sample_path :: pystr where
  "sample_path = lit ''/v1/research/observations''"

lemma sample_split: "split_key sample_header = Some (uuid_str 7, lit ''s3'')"
proof -
  have "58 \<notin> set (uuid_str u)" for u using uuid_str_chars [of u] by (auto simp: hex_digit_def split: if_splits)
  then show ?thesis by (simp add: split_key_def sample_header_def dropWhile_append takeWhile_append dropWhile_eq_Nil_conv takeWhile_eq_all_conv)
qed

lemma sample_key_found: "find_key 7 sample_gate_db = Some sample_key"
  by (simp add: find_key_def sample_gate_db_def sample_key_def)

lemma sample_key_admits: "key_admits sample_gate_env 5 sample_header sample_gate_db sample_key"
  unfolding key_admits_def sample_split
  by (simp add: sample_key_found uuid_round_trip) (simp add: sample_key_def verify_secret_def starts_with_def compare_digest_def)

lemma sample_limits: "key_limits sample_gate_env (ak_rate_tier sample_key) (ak_rate_overrides sample_key) =
    Inr [(''minute'', 1), (''hour'', 500), (''day'', 2000)]"
  by (simp add: key_limits_def sample_key_def jobj_def falsy_def tier_limits_def int_of_json_def)

lemma sample_flags: "load_feature_flags sample_gate_db = \<lparr>fs_enabled = [(lit ''BITEMPORAL_API_ENABLED'', True)], fs_text = []\<rparr>"
  by (simp add: load_feature_flags_def sample_gate_db_def map_filter_simps)

lemma sample_private: "\<not> is_public sample_path"
  by (simp add: is_public_def PUBLIC_PATHS_def sample_path_def)

theorem research_gate_exact_witness:
  "fst (serve (research_gate sample_gate_env 5 5 sample_path (Some sample_header)) sample_gate_db) =
     Inr (Some (principal_of sample_key), \<lparr>fs_enabled = [(lit ''BITEMPORAL_API_ENABLED'', True)], fs_text = []\<rparr>)"
proof -
  have room: "\<forall>w \<in> set [(''minute'', 1), (''hour'', 500), (''day'', 2000)]. window_open 5 (ak_id sample_key) sample_gate_db w"
    by (simp add: window_open_def window_start_def window_seconds_def tokens_used_def sample_gate_db_def)
  show ?thesis
    unfolding research_gate_exact [OF sample_private]
    by (intro exI [of _ sample_header] exI [of _ sample_key] exI [of _ "[(''minute'', 1), (''hour'', 500), (''day'', 2000)]"] conjI
        sample_key_admits sample_limits room refl) (simp_all add: sample_flags flag_on_def)
qed

text \<open>Two requests of a key with one token a minute; before the second somebody switches the limits off.\<close>

definition limits_off :: "gate_db \<Rightarrow> gate_db" where
  "limits_off d = d\<lparr>gd_flags := gd_flags d @
     [\<lparr>ff_name = lit ''BITEMPORAL_API_RATE_LIMIT_ENFORCED'', ff_text = None, ff_bool = Some False, ff_int = None,
       ff_scope = ''global'', ff_scope_value = None, ff_updated_at = 0, ff_updated_by = None, ff_notes = None\<rparr>]\<rparr>"

theorem rate_limit_bounds_accepted_witness:
  "int (length (filter (through 7 ''minute'' 0) (fst (serve_all sample_gate_env
     [(5, 5, sample_path, Some sample_header, id), (5, 5, sample_path, Some sample_header, limits_off)] sample_gate_db)))) \<le> 1"
proof -
  have "0 \<le> tokens_used sample_gate_db (7, ''minute'', 0)" by (simp add: tokens_used_def sample_gate_db_def)
  moreover have "keeps_key 7 id" "keeps_key 7 limits_off"
    by (simp_all add: keeps_key_def limits_off_def find_key_def tokens_used_def)
  ultimately show ?thesis
    using rate_limit_bounds_accepted [OF sample_key_found sample_limits, of "''minute''" 1 0
      "[(5, 5, sample_path, Some sample_header, id), (5, 5, sample_path, Some sample_header, limits_off)]"]
    by (simp add: request_env_def del: serve_all.simps)
qed

text \<open>The key is asked for before the master flag: a disabled API answers 401 to a request without a key, not 503.\<close>

lemma disabled_api_asks_for_key:
  "\<not> is_public path \<Longrightarrow> fst (serve (research_gate E now1 now2 path None) d) = Inl (auth_invalid ''Missing X-Aslan-Api-Key header'')"
  by (simp add: research_gate_def serve_def get_principal_def bnd_def raise_def)

end
