(* ===== verification/Research_Cursor.thy ===== *)
theory Research_Cursor
  imports Api_Http Py_Utf8
begin

text \<open>
  The opaque page cursors of the research API (\<open>encode_cursor\<close>, \<open>decode_cursor\<close> and \<open>filters_hash\<close> of
  \<open>api/research_observability.py\<close>), with \<open>base64.urlsafe_b64encode\<close> and the lenient decoder of \<open>base64\<close> written
  out. \<open>json.dumps(..., sort_keys=True, default=str)\<close>, \<open>json.loads\<close>, UTF-8 decoding and SHA-256 are parameters.
\<close>

section \<open>Base 64\<close>

text \<open>The alphabet with \<open>-\<close> and \<open>_\<close>; the decoder also takes \<open>+\<close> and \<open>/\<close>.\<close>

definition b64_char :: "nat \<Rightarrow> nat" where
  "b64_char v = (if v < 26 then 65 + v else if v < 52 then 97 + (v - 26) else if v < 62 then 48 + (v - 52) else if v = 62 then 45 else 95)"

definition b64_val :: "nat \<Rightarrow> nat option" where
  "b64_val c = (if 65 \<le> c \<and> c \<le> 90 then Some (c - 65) else if 97 \<le> c \<and> c \<le> 122 then Some (c - 97 + 26)
     else if 48 \<le> c \<and> c \<le> 57 then Some (c - 48 + 52) else if c = 45 \<or> c = 43 then Some 62 else if c = 95 \<or> c = 47 then Some 63 else None)"

definition pad :: nat where "pad = 61"

fun b64_encode :: "nat list \<Rightarrow> pystr" where
  "b64_encode [] = []"
| "b64_encode [a] = [b64_char (a div 4), b64_char (a mod 4 * 16), pad, pad]"
| "b64_encode [a, b] = [b64_char (a div 4), b64_char (a mod 4 * 16 + b div 16), b64_char (b mod 16 * 4), pad]"
| "b64_encode (a # b # c # rest) =
     [b64_char (a div 4), b64_char (a mod 4 * 16 + b div 16), b64_char (b mod 16 * 4 + c div 64), b64_char (c mod 64)] @ b64_encode rest"

text \<open>
  \<open>binascii.a2b_base64\<close>, not strict: characters outside the alphabet are skipped, padding that completes a quad ends
  the text. The state: position in the quad, bits left over, paddings seen.
\<close>

fun b64_scan :: "nat \<Rightarrow> nat \<Rightarrow> nat \<Rightarrow> pystr \<Rightarrow> (nat list) option" where
  "b64_scan pos left pads [] = (if pos = 0 then Some [] else None)"
| "b64_scan pos left pads (c # cs) =
     (if c = pad then
        (if 2 \<le> pos \<and> 4 \<le> pos + pads + 1 then Some [] else b64_scan pos left (if 2 \<le> pos then pads + 1 else pads) cs)
      else (case b64_val c of
          None \<Rightarrow> b64_scan pos left pads cs
        | Some v \<Rightarrow>
            if pos = 0 then b64_scan 1 v 0 cs
            else if pos = 1 then map_option ((#) (left * 4 + v div 16)) (b64_scan 2 (v mod 16) 0 cs)
            else if pos = 2 then map_option ((#) (left * 16 + v div 4)) (b64_scan 3 (v mod 4) 0 cs)
            else map_option ((#) (left * 64 + v)) (b64_scan 0 0 0 cs)))"

definition urlsafe_b64decode :: "pystr \<Rightarrow> error + nat list" where
  "urlsafe_b64decode t =
     (if \<not> list_all (\<lambda>c. c < 128) t then Inl (PyE ValueError)
      else (case b64_scan 0 0 0 t of Some bs \<Rightarrow> Inr bs | None \<Rightarrow> Inl (PyE ValueError)))"

definition rstrip_pad :: "pystr \<Rightarrow> pystr" where
  "rstrip_pad t = rev (dropWhile (\<lambda>c. c = pad) (rev t))"

text \<open>\<open>(-len(cursor)) % 4\<close> paddings are put back.\<close>

definition repad :: "pystr \<Rightarrow> pystr" where
  "repad t = t @ replicate (nat ((- int (length t)) mod 4)) pad"

lemma b64_val_char: "v < 64 \<Longrightarrow> b64_val (b64_char v) = Some v"
  by (auto simp: b64_val_def b64_char_def)

lemma b64_char_no_pad: "v < 64 \<Longrightarrow> b64_char v \<noteq> pad"
  by (auto simp: b64_char_def pad_def)

lemma b64_char_ascii: "v < 64 \<Longrightarrow> b64_char v < 128"
  by (auto simp: b64_char_def)

lemma b64_scan_char:
  "v < 64 \<Longrightarrow> b64_scan pos left pads (b64_char v # cs) =
     (if pos = 0 then b64_scan 1 v 0 cs
      else if pos = 1 then map_option ((#) (left * 4 + v div 16)) (b64_scan 2 (v mod 16) 0 cs)
      else if pos = 2 then map_option ((#) (left * 16 + v div 4)) (b64_scan 3 (v mod 4) 0 cs)
      else map_option ((#) (left * 64 + v)) (b64_scan 0 0 0 cs))"
  by (simp add: b64_char_no_pad b64_val_char)

lemma sextets_of_bytes:
  fixes a b c :: nat
  assumes "a < 256" "b < 256" "c < 256"
  shows "a div 4 < 64" "a mod 4 * 16 < 64" "a mod 4 * 16 + b div 16 < 64" "b mod 16 * 4 < 64" "b mod 16 * 4 + c div 64 < 64" "c mod 64 < 64"
  using assms by linarith+

lemma bytes_of_sextets:
  fixes a b c :: nat
  assumes "a < 256" "b < 256" "c < 256"
  shows "a div 4 * 4 + (a mod 4 * 16 + b div 16) div 16 = a"
    and "(a mod 4 * 16 + b div 16) mod 16 * 16 + (b mod 16 * 4 + c div 64) div 4 = b"
    and "(b mod 16 * 4 + c div 64) mod 4 * 64 + c mod 64 = c"
proof -
  have b: "b div 16 < 16" "c div 64 < 4" using assms by linarith+
  have "(a mod 4 * 16 + b div 16) div 16 = a mod 4" "(a mod 4 * 16 + b div 16) mod 16 = b div 16"
    "(b mod 16 * 4 + c div 64) div 4 = b mod 16" "(b mod 16 * 4 + c div 64) mod 4 = c div 64"
    using b by (simp_all add: div_add1_eq)
  then show "a div 4 * 4 + (a mod 4 * 16 + b div 16) div 16 = a"
    "(a mod 4 * 16 + b div 16) mod 16 * 16 + (b mod 16 * 4 + c div 64) div 4 = b"
    "(b mod 16 * 4 + c div 64) mod 4 * 64 + c mod 64 = c" by simp_all
qed

lemma b64_scan_encode: "\<forall>b \<in> set bs. b < 256 \<Longrightarrow> b64_scan 0 0 0 (b64_encode bs) = Some bs"
proof (induction bs rule: b64_encode.induct)
  case (2 a)
  then show ?case using sextets_of_bytes [of a 0 0] bytes_of_sextets [of a 0 0]
    by (simp add: b64_scan_char pad_def del: b64_scan.simps) (simp add: pad_def)
next
  case (3 a b)
  then show ?case using sextets_of_bytes [of a b 0] bytes_of_sextets [of a b 0]
    by (simp add: b64_scan_char pad_def del: b64_scan.simps) (simp add: pad_def)
next
  case (4 a b c rest)
  then have "b div 16 < 16" "c div 64 < 4" by (simp_all add: div_less_iff_less_mult)
  then show ?case using 4 sextets_of_bytes [of a b c] bytes_of_sextets [of a b c]
    by (simp add: b64_scan_char del: b64_scan.simps)
qed simp

lemma b64_encode_length: "length (b64_encode bs) mod 4 = 0"
  by (induction bs rule: b64_encode.induct) (simp_all add: mod_Suc)

text \<open>Stripping the padding and putting it back.\<close>

lemma b64_encode_shape:
  "\<forall>b \<in> set bs. b < 256 \<Longrightarrow> \<exists>cs k. b64_encode bs = cs @ replicate k pad \<and> k < 3 \<and> (\<forall>c \<in> set cs. c \<noteq> pad \<and> c < 128)"
proof (induction bs rule: b64_encode.induct)
  case 1
  then show ?case by (intro exI [of _ "[]"] exI [of _ 0]) simp
next
  case (2 a)
  then show ?case using sextets_of_bytes [of a 0 0]
    by (intro exI [of _ "[b64_char (a div 4), b64_char (a mod 4 * 16)]"] exI [of _ 2]) (simp add: b64_char_no_pad b64_char_ascii numeral_2_eq_2)
next
  case (3 a b)
  then show ?case using sextets_of_bytes [of a b 0]
    by (intro exI [of _ "[b64_char (a div 4), b64_char (a mod 4 * 16 + b div 16), b64_char (b mod 16 * 4)]"] exI [of _ 1])
      (simp add: b64_char_no_pad b64_char_ascii)
next
  case (4 a b c rest)
  then obtain cs k where "b64_encode rest = cs @ replicate k pad" "k < 3" "\<forall>c \<in> set cs. c \<noteq> pad \<and> c < 128" by auto
  then show ?case using sextets_of_bytes [of a b c] 4(2)
    by (intro exI [of _ "[b64_char (a div 4), b64_char (a mod 4 * 16 + b div 16), b64_char (b mod 16 * 4 + c div 64), b64_char (c mod 64)] @ cs"]
        exI [of _ k]) (simp add: b64_char_no_pad b64_char_ascii)
qed

lemma rstrip_padded:
  assumes "\<forall>c \<in> set cs. c \<noteq> pad"
  shows "rstrip_pad (cs @ replicate k pad) = cs"
proof -
  have "dropWhile (\<lambda>c. c = pad) (replicate k pad @ rev cs) = dropWhile (\<lambda>c. c = pad) (rev cs)" by (induction k) simp_all
  also have "\<dots> = rev cs" using assms by (cases "rev cs") (auto dest: arg_cong [of _ _ set])
  finally show ?thesis by (simp add: rstrip_pad_def)
qed

lemma repad_stripped:
  assumes "\<forall>b \<in> set bs. b < 256"
  shows "repad (rstrip_pad (b64_encode bs)) = b64_encode bs"
proof -
  obtain cs k where shape: "b64_encode bs = cs @ replicate k pad" "k < 3" "\<forall>c \<in> set cs. c \<noteq> pad \<and> c < 128"
    using b64_encode_shape [OF assms] by blast
  have "(length cs + k) mod 4 = 0" using b64_encode_length [of bs] by (simp add: shape(1))
  then have "(int (length cs) + int k) mod 4 = 0" by presburger
  then have "(- int (length cs)) mod 4 = int k" using shape(2) by presburger
  then show ?thesis using rstrip_padded [of cs k] shape by (simp add: repad_def)
qed

lemma urlsafe_round_trip:
  assumes "\<forall>b \<in> set bs. b < 256"
  shows "urlsafe_b64decode (repad (rstrip_pad (b64_encode bs))) = Inr bs"
proof -
  obtain cs k where "b64_encode bs = cs @ replicate k pad" "\<forall>c \<in> set cs. c \<noteq> pad \<and> c < 128"
    using b64_encode_shape [OF assms] by blast
  then have "list_all (\<lambda>c. c < 128) (b64_encode bs)" by (auto simp: list_all_iff pad_def)
  then show ?thesis by (simp add: repad_stripped [OF assms] urlsafe_b64decode_def b64_scan_encode [OF assms])
qed

section \<open>Cursors\<close>

record cursor_env =
  cu_dumps :: "json \<Rightarrow> pystr"
  cu_loads :: "pystr \<Rightarrow> json option"
  cu_decode_utf8 :: "byte list \<Rightarrow> pystr option"
  cu_sha :: "byte list \<Rightarrow> pystr"

definition CURSOR_VERSION :: int where "CURSOR_VERSION = 1"

definition filters_hash :: "cursor_env \<Rightarrow> (pystr \<times> json) list \<Rightarrow> error + pystr" where
  "filters_hash E filters = (case encode_utf8 (cu_dumps E (JObj filters)) of
     Inl e \<Rightarrow> Inl e | Inr bs \<Rightarrow> Inr (take 32 (cu_sha E bs)))"

definition cursor_payload :: "pystr \<Rightarrow> json \<Rightarrow> pystr \<Rightarrow> (pystr \<times> json) list" where
  "cursor_payload as_of anchor h =
     [(lit ''v'', JInt CURSOR_VERSION), (lit ''as_of'', JStr as_of), (lit ''anchor'', anchor), (lit ''filters_hash'', JStr h)]"

definition encode_cursor :: "cursor_env \<Rightarrow> pystr \<Rightarrow> json \<Rightarrow> (pystr \<times> json) list \<Rightarrow> error + pystr" where
  "encode_cursor E as_of anchor filters = (case filters_hash E filters of
     Inl e \<Rightarrow> Inl e
   | Inr h \<Rightarrow>
       (case encode_utf8 (cu_dumps E (JObj (cursor_payload as_of anchor h))) of
          Inl e \<Rightarrow> Inl e
        | Inr raw \<Rightarrow> Inr (rstrip_pad (b64_encode (map unat raw)))))"

definition bad_cursor :: "string \<Rightarrow> api_error" where
  "bad_cursor title = HttpE \<lparr>hx_status = 400, hx_detail = jobj
     [(''code'', jlit ''BITEMPORAL_INTERVAL_INVALID''), (''title'', jlit title)], hx_headers = []\<rparr>"

text \<open>The payload is asked for its fields before its type is checked: any other JSON value raises AttributeError.\<close>

definition decode_cursor :: "cursor_env \<Rightarrow> pystr \<Rightarrow> (pystr \<times> json) list \<Rightarrow> api_error + (pystr \<times> json) list" where
  "decode_cursor E cursor filters = (case urlsafe_b64decode (repad cursor) of
     Inl _ \<Rightarrow> Inl (bad_cursor ''Malformed cursor'')
   | Inr bs \<Rightarrow>
       (case Option.bind (cu_decode_utf8 E (map of_nat bs)) (cu_loads E) of
          None \<Rightarrow> Inl (bad_cursor ''Malformed cursor'')
        | Some (JObj kvs) \<Rightarrow>
            if \<not> (case map_of kvs (lit ''v'') of Some j \<Rightarrow> json_eq j (JInt CURSOR_VERSION) | None \<Rightarrow> False) then
              Inl (bad_cursor ''Unsupported cursor version'')
            else (case filters_hash E filters of
                Inl e \<Rightarrow> Inl (RaiseE e)
              | Inr h \<Rightarrow>
                  if map_of kvs (lit ''filters_hash'') \<noteq> Some (JStr h) then
                    Inl (bad_cursor ''Cursor filter-set differs from request filters'')
                  else Inr kvs)
        | Some _ \<Rightarrow> Inl (RaiseE (PyE AttributeError))))"

section \<open>The cursor names the page and the filters\<close>

text \<open>What is required of JSON and UTF-8: the payload a cursor was written from is read back, with sorted keys.\<close>

definition cursor_law :: "cursor_env \<Rightarrow> pystr \<Rightarrow> bool" where
  "cursor_law E cursor \<longleftrightarrow> (\<forall>as_of anchor h raw.
     encode_utf8 (cu_dumps E (JObj (cursor_payload as_of anchor h))) = Inr raw \<and> cursor = rstrip_pad (b64_encode (map unat raw)) \<longrightarrow>
     Option.bind (cu_decode_utf8 E raw) (cu_loads E) = Some (sort_json (JObj (cursor_payload as_of anchor h))))"

text \<open>The fields of the payload that is read.\<close>

definition payload_read :: "pystr \<Rightarrow> json \<Rightarrow> pystr \<Rightarrow> (pystr \<times> json) list" where
  "payload_read as_of anchor h = sort_key fst (map (\<lambda>kv. (fst kv, sort_json (snd kv))) (cursor_payload as_of anchor h))"

lemma payload_read_fields:
  "map_of (payload_read as_of anchor h) (lit ''v'') = Some (JInt CURSOR_VERSION)"
  "map_of (payload_read as_of anchor h) (lit ''as_of'') = Some (JStr as_of)"
  "map_of (payload_read as_of anchor h) (lit ''anchor'') = Some (sort_json anchor)"
  "map_of (payload_read as_of anchor h) (lit ''filters_hash'') = Some (JStr h)"
  unfolding payload_read_def map_of_sort_json by (simp_all add: cursor_payload_def)

lemma cursor_bytes:
  "urlsafe_b64decode (repad (rstrip_pad (b64_encode (map unat raw)))) = Inr (map unat (raw :: byte list))"
proof -
  have "\<forall>b \<in> set (map unat raw). b < 256" using unsigned_less [where 'a = nat and 'b = 8] by force
  then show ?thesis by (rule urlsafe_round_trip)
qed

lemma decode_written:
  assumes "Option.bind (cu_decode_utf8 E raw) (cu_loads E) = Some (sort_json (JObj (cursor_payload as_of anchor h)))"
    and "filters_hash E filters = Inr h'"
  shows "decode_cursor E (rstrip_pad (b64_encode (map unat raw))) filters =
    (if h' = h then Inr (payload_read as_of anchor h) else Inl (bad_cursor ''Cursor filter-set differs from request filters''))"
proof -
  have "map of_nat (map unat raw) = raw" by (simp add: map_idI)
  then have "Option.bind (cu_decode_utf8 E (map of_nat (map unat raw))) (cu_loads E) = Some (JObj (payload_read as_of anchor h))"
    using assms(1) by (simp add: payload_read_def)
  then show ?thesis
    unfolding decode_cursor_def cursor_bytes
    by (simp add: payload_read_fields [simplified] assms(2) del: map_map) (simp add: num_units_def)
qed

lemma decode_encoded:
  assumes "cursor_law E cursor" "encode_cursor E as_of anchor filters = Inr cursor"
  shows "\<exists>kvs. decode_cursor E cursor filters = Inr kvs"
proof -
  obtain h raw where h: "filters_hash E filters = Inr h" and raw: "encode_utf8 (cu_dumps E (JObj (cursor_payload as_of anchor h))) = Inr raw"
      and cursor: "cursor = rstrip_pad (b64_encode (map unat raw))"
    using assms(2) by (auto simp: encode_cursor_def split: sum.splits)
  have "Option.bind (cu_decode_utf8 E raw) (cu_loads E) = Some (sort_json (JObj (cursor_payload as_of anchor h)))"
    using assms(1) raw cursor unfolding cursor_law_def by blast
  from decode_written [OF this h] show ?thesis by (simp add: cursor)
qed

text \<open>C26. A cursor that was given out decodes, under the same filters, to the point in time it was made of and to an anchor
  with the same value for every field, its fields in the order of their keys (the cursor is written with sorted keys);
  under filters of another hash it is refused with status 400 and the code \<open>BITEMPORAL_INTERVAL_INVALID\<close> (test plan TC-048
  asks for \<open>PAGINATION_CURSOR_MISMATCH\<close>, which no code raises). Required of JSON and UTF-8: of the payload that was
  written with sorted keys, the value with sorted keys is read.\<close>

theorem cursor_round_trip:
  assumes "encode_cursor E as_of (JObj anchor) filters = Inr cursor" and "filters_hash E filters = Inr h" and "filters_hash E filters' = Inr h'"
    and "encode_utf8 (cu_dumps E (JObj (cursor_payload as_of (JObj anchor) h))) = Inr raw"
    and "Option.bind (cu_decode_utf8 E raw) (cu_loads E) = Some (sort_json (JObj (cursor_payload as_of (JObj anchor) h)))"
  shows "(\<exists>kvs fields. decode_cursor E cursor filters = Inr kvs \<and> map_of kvs (lit ''as_of'') = Some (JStr as_of) \<and>
      map_of kvs (lit ''anchor'') = Some (JObj fields) \<and> sorted (map fst fields) \<and>
      (\<forall>k. map_of fields k = map_option sort_json (map_of anchor k))) \<and>
    (h' \<noteq> h \<longrightarrow> decode_cursor E cursor filters' = Inl (bad_cursor ''Cursor filter-set differs from request filters''))"
proof -
  have cursor: "cursor = rstrip_pad (b64_encode (map unat raw))"
    using assms(1,2,4) by (simp add: encode_cursor_def)
  let ?fields = "sort_key fst (map (\<lambda>kv. (fst kv, sort_json (snd kv))) anchor)"
  have "map_of (payload_read as_of (JObj anchor) h) (lit ''anchor'') = Some (JObj ?fields)" unfolding payload_read_fields by simp
  then show ?thesis
    using decode_written [OF assms(5,2)] decode_written [OF assms(5,3)] payload_read_fields(2) [of as_of "JObj anchor" h]
    by (auto simp: cursor map_of_sort_json)
qed

text \<open>The anchor of a page of events: its keys come back in the other order.\<close>

definition sample_anchor :: "(pystr \<times> json) list" where
  "sample_anchor = [(lit ''filing_id'', jlit ''f''), (lit ''event_seq'', JInt 2)]"

definition sample_cursor_env :: cursor_env where
  "sample_cursor_env = \<lparr>cu_dumps = (\<lambda>j. if j = JObj [] then lit ''{}'' else if j = JObj [(lit ''x'', JNull)] then lit ''x'' else lit ''p''),
     cu_loads = (\<lambda>t. if t = lit ''p'' then Some (sort_json (JObj (cursor_payload (lit ''t'') (JObj sample_anchor) (lit ''{}'')))) else None),
     cu_decode_utf8 = (\<lambda>bs. Some (map unat bs)), cu_sha = map unat\<rparr>"

theorem cursor_round_trip_witness:
  "(\<exists>kvs fields. decode_cursor sample_cursor_env (rstrip_pad (b64_encode [112])) [] = Inr kvs \<and>
     map_of kvs (lit ''anchor'') = Some (JObj fields) \<and> map_of fields (lit ''event_seq'') = Some (JInt 2)) \<and>
   decode_cursor sample_cursor_env (rstrip_pad (b64_encode [112])) [(lit ''x'', JNull)] =
     Inl (bad_cursor ''Cursor filter-set differs from request filters'')"
proof -
  let ?E = sample_cursor_env and ?p = "cursor_payload (lit ''t'') (JObj sample_anchor) (lit ''{}'')"
  have dumps: "cu_dumps ?E (JObj []) = lit ''{}''" "cu_dumps ?E (JObj [(lit ''x'', JNull)]) = lit ''x''" "cu_dumps ?E (JObj ?p) = lit ''p''"
    by (simp_all add: sample_cursor_env_def cursor_payload_def)
  have h: "filters_hash ?E [] = Inr (lit ''{}'')" "filters_hash ?E [(lit ''x'', JNull)] = Inr (lit ''x'')"
    unfolding filters_hash_def dumps by (simp_all add: encode_utf8_ascii) (simp_all add: sample_cursor_env_def)
  have raw: "encode_utf8 (cu_dumps ?E (JObj ?p)) = Inr [112]" unfolding dumps by (simp add: encode_utf8_ascii)
  have enc: "encode_cursor ?E (lit ''t'') (JObj sample_anchor) [] = Inr (rstrip_pad (b64_encode [112]))"
    by (simp only: encode_cursor_def h raw sum.case) simp
  have law: "Option.bind (cu_decode_utf8 ?E [112]) (cu_loads ?E) = Some (sort_json (JObj ?p))"
    by (simp add: sample_cursor_env_def del: sort_json.simps)
  have seq: "map_option sort_json (map_of sample_anchor (lit ''event_seq'')) = Some (JInt 2)" by (simp add: sample_anchor_def)
  show ?thesis using cursor_round_trip [OF enc h raw law] seq by auto
qed

end
