(* ===== verification/Research_Read.thy ===== *)
theory Research_Read
  imports Ts_Read Research_Gate Research_Cursor
begin

text \<open>
  Reads of the research API at a point in time or over an interval (\<open>api/routes/research.py\<close>,
  \<open>api/research_envelope.py\<close>, the SQL functions of migration 0049): the request checks the routes share, the routes
  \<open>/observations\<close> and \<open>/events\<close>, and the redaction of event payloads. Parameters: \<open>datetime.fromisoformat\<close>, the
  texts of \<open>isoformat\<close> and of pydantic, JSON and hashes, the order of rows the database leaves open.
\<close>

section \<open>Surroundings\<close>

record read_env =
  re_cursor :: cursor_env
  re_fromiso :: "pystr \<Rightarrow> datetime option"
  re_iso :: "datetime \<Rightarrow> pystr"
  re_dump_time :: "int \<Rightarrow> pystr"
  re_local :: "int \<Rightarrow> int"
  re_sha_text :: "pystr \<Rightarrow> pystr"
  re_build :: pystr

text \<open>The readings of the clock in a request.\<close>

record read_clock =
  rc_check :: int
  rc_now :: int
  rc_cache :: int

definition utc :: "int \<Rightarrow> datetime" where
  "utc t = \<lparr>instant = t, utcoffset = Some 0\<rparr>"

text \<open>\<open>astimezone(UTC)\<close> fails outside the years 1 to 9999.\<close>

definition as_utc :: "datetime \<Rightarrow> api_error + int" where
  "as_utc d = (if - 62135596800 * SECOND \<le> instant d \<and> instant d < 253402300800 * SECOND then Inr (instant d)
     else Inl (RaiseE (PyE OverflowError)))"

text \<open>The driver takes a datetime without offset for local time.\<close>

definition bind_time :: "read_env \<Rightarrow> datetime \<Rightarrow> int" where
  "bind_time E d = (case utcoffset d of Some _ \<Rightarrow> instant d | None \<Rightarrow> re_local E (instant d))"

record request_context =
  rq_request_id :: uuid
  rq_api_key_id :: "uuid option"
  rq_rate_tier :: string
  rq_as_of_requested :: "int option"
  rq_as_of_resolved :: "int option"
  rq_as_of_range :: "(int \<times> int) option"
  rq_rows_returned :: nat
  rq_flags_active :: "pystr list"
  rq_pii_unredacted_used :: bool

section \<open>Request checks\<close>

definition problem :: "int \<Rightarrow> string \<Rightarrow> string \<Rightarrow> (string \<times> json) list \<Rightarrow> api_error" where
  "problem sc code title ext = HttpE \<lparr>hx_status = sc, hx_detail = jobj
     ([(''type'', error_type code), (''title'', jlit title), (''code'', jlit code)] @
      (if ext = [] then [] else [(''extensions'', jobj ext)])), hx_headers = []\<rparr>"

definition interval_invalid :: "string \<Rightarrow> (string \<times> json) list \<Rightarrow> api_error" where
  "interval_invalid title ext = problem 400 ''BITEMPORAL_INTERVAL_INVALID'' title ext"

definition CLOCK_SKEW_TOLERANCE :: int where "CLOCK_SKEW_TOLERANCE = 60 * SECOND"
definition AS_OF_RANGE_MAX_WIDTH :: int where "AS_OF_RANGE_MAX_WIDTH = 5 * 365 * 86400 * SECOND"
definition LIMIT_HARD_CAP :: int where "LIMIT_HARD_CAP = 500"

text \<open>\<open>raw.replace("Z", "+00:00")\<close>.\<close>

definition replace_z :: "pystr \<Rightarrow> pystr" where
  "replace_z t = concat (map (\<lambda>c. if c = of_char CHR ''Z'' then lit ''+00:00'' else [c]) t)"

definition parse_as_of :: "read_env \<Rightarrow> int \<Rightarrow> pystr option \<Rightarrow> api_error + int option" where
  "parse_as_of E now raw = (case raw of
     None \<Rightarrow> Inr None
   | Some t \<Rightarrow>
       (case re_fromiso E (replace_z t) of
          None \<Rightarrow> Inl (problem 400 ''BITEMPORAL_AS_OF_NAIVE'' ''as_of must be ISO-8601 with timezone'' [])
        | Some d \<Rightarrow>
            if utcoffset d = None then
              Inl (problem 400 ''BITEMPORAL_AS_OF_NAIVE'' ''as_of has no timezone offset; UTC required'' [])
            else if now - now mod SECOND + 999999 + CLOCK_SKEW_TOLERANCE < instant d then
              Inl (problem 400 ''BITEMPORAL_AS_OF_FUTURE'' ''as_of must not exceed wall-clock now()+60s'' [])
            else map_sum id Some (as_utc d)))"

definition partition_comma :: "pystr \<Rightarrow> (pystr \<times> pystr) option" where
  "partition_comma t = (case dropWhile (\<lambda>c. c \<noteq> of_char CHR '','') t of
     [] \<Rightarrow> None | _ # rest \<Rightarrow> Some (takeWhile (\<lambda>c. c \<noteq> of_char CHR '','') t, rest))"

definition range_endpoint :: "read_env \<Rightarrow> pystr \<Rightarrow> datetime option" where
  "range_endpoint E t = re_fromiso E (replace_z (strip t))"

definition parse_as_of_range :: "read_env \<Rightarrow> pystr option \<Rightarrow> api_error + (int \<times> int) option" where
  "parse_as_of_range E raw = (case raw of
     None \<Rightarrow> Inr None
   | Some t \<Rightarrow>
       let s = strip t; received = [(''received_value'', JStr t)] in
       if length s < 5 \<or> hd s \<noteq> of_char CHR ''['' \<or> last s \<noteq> of_char CHR '')'' then
         Inl (interval_invalid ''as_of_range must be the canonical half-open form [T1,T2)'' received)
       else (case partition_comma (butlast (tl s)) of
           None \<Rightarrow> Inl (interval_invalid ''as_of_range missing comma separator'' received)
         | Some (t1_raw, t2_raw) \<Rightarrow>
             (case (range_endpoint E t1_raw, range_endpoint E t2_raw) of
                (Some d1, Some d2) \<Rightarrow>
                  if utcoffset d1 = None \<or> utcoffset d2 = None then
                    Inl (interval_invalid ''as_of_range endpoints must carry an explicit timezone'' received)
                  else (case (as_utc d1, as_utc d2) of
                      (Inl e, _) \<Rightarrow> Inl e
                    | (_, Inl e) \<Rightarrow> Inl e
                    | (Inr t1, Inr t2) \<Rightarrow>
                        if t1 < t2 then Inr (Some (t1, t2)) else Inl (interval_invalid ''as_of_range has T1 >= T2'' received))
              | _ \<Rightarrow> Inl (interval_invalid ''as_of_range endpoints not ISO-8601'' received))))"

definition enforce_query_cost :: "(int \<times> int) option \<Rightarrow> int \<Rightarrow> api_error + unit" where
  "enforce_query_cost interval lim =
     (let width = (case interval of None \<Rightarrow> 0 | Some (lo, hi) \<Rightarrow> hi - lo) in
      if AS_OF_RANGE_MAX_WIDTH < width then Inl (problem 413 ''QUERY_TOO_LARGE'' ''as_of_range exceeds 5-year cap''
        [(''width_seconds'', JInt (width div SECOND)), (''max_width_seconds'', JInt (AS_OF_RANGE_MAX_WIDTH div SECOND))])
      else if LIMIT_HARD_CAP < lim then Inl (problem 413 ''QUERY_TOO_LARGE'' ''limit exceeds hard cap of 500''
        [(''limit'', JInt lim), (''max_limit'', JInt LIMIT_HARD_CAP)])
      else Inr ())"

definition reject_pit_with_interval :: "pystr option \<Rightarrow> pystr option \<Rightarrow> api_error + unit" where
  "reject_pit_with_interval as_of as_of_range =
     (if as_of \<noteq> None \<and> as_of_range \<noteq> None then Inl (interval_invalid ''as_of and as_of_range are mutually exclusive'' [])
      else Inr ())"

definition gate_interval_flag :: "(int \<times> int) option \<Rightarrow> feature_flags \<Rightarrow> api_error + unit" where
  "gate_interval_flag interval flags =
     (if interval \<noteq> None \<and> \<not> flag_on flags ''BITEMPORAL_API_INTERVAL_QUERIES'' True then
        Inl (problem 503 ''FEATURE_DISABLED'' ''Interval queries are disabled'' [(''flag'', jlit ''BITEMPORAL_API_INTERVAL_QUERIES'')])
      else Inr ())"

definition active_flags :: "feature_flags \<Rightarrow> pystr list" where
  "active_flags flags = sort (map fst (filter snd (fs_enabled flags)))"

section \<open>What the list routes share\<close>

text \<open>What a list route is asked, apart from its own filters.\<close>

record read_request =
  rr_as_of :: "pystr option"
  rr_as_of_range :: "pystr option"
  rr_cursor :: "pystr option"
  rr_limit :: int

record read_point =
  rp_requested :: "int option"
  rp_resolved :: int
  rp_interval :: "(int \<times> int) option"

text \<open>The first lines of every list route; FastAPI refuses a limit below one before them.\<close>

definition limit_too_small :: api_error where
  "limit_too_small = InvalidE
     [\<lparr>ve_loc = Some [jlit ''query'', jlit ''limit''], ve_msg = Some (lit ''Input should be greater than or equal to 1'')\<rparr>]"

definition open_read ::
  "read_env \<Rightarrow> read_clock \<Rightarrow> api_key_principal option \<Rightarrow> feature_flags \<Rightarrow> read_request \<Rightarrow> (api_error, request_context, read_point) op" where
  "open_read E clk who flags q =
     (if rr_limit q < 1 then raise limit_too_small
      else
        thn (lift (reject_pit_with_interval (rr_as_of q) (rr_as_of_range q)))
        (bnd (lift (parse_as_of_range E (rr_as_of_range q))) (\<lambda>interval.
         thn (lift (gate_interval_flag interval flags))
         (thn (lift (enforce_query_cost interval (rr_limit q)))
         (bnd (lift (parse_as_of E (rc_check clk) (rr_as_of q))) (\<lambda>requested.
          let resolved = (case requested of Some t \<Rightarrow> t | None \<Rightarrow> rc_now clk) in
          thn (modify (\<lambda>c. c\<lparr>rq_api_key_id := map_option ap_key_id who,
              rq_rate_tier := (case who of None \<Rightarrow> ''anonymous'' | Some p \<Rightarrow> ap_rate_tier p),
              rq_as_of_requested := requested, rq_as_of_resolved := Some resolved, rq_as_of_range := interval,
              rq_flags_active := active_flags flags\<rparr>))
          (ret \<lparr>rp_requested = requested, rp_resolved = resolved, rp_interval = interval\<rparr>)))))))"

text \<open>The filters every cursor is bound to.\<close>

definition point_filters :: "read_env \<Rightarrow> read_point \<Rightarrow> (pystr \<times> json) list" where
  "point_filters E p =
     [(lit ''as_of'', if rp_interval p = None then JStr (re_iso E (utc (rp_resolved p))) else JNull),
      (lit ''as_of_range'', case rp_interval p of None \<Rightarrow> JNull | Some (lo, hi) \<Rightarrow> JArr [JStr (re_iso E (utc lo)), JStr (re_iso E (utc hi))])]"

text \<open>A cursor is checked; its anchor is not applied.\<close>

definition check_cursor :: "read_env \<Rightarrow> pystr option \<Rightarrow> (pystr \<times> json) list \<Rightarrow> api_error + unit" where
  "check_cursor E cursor filters = (case cursor of
     None \<Rightarrow> Inr () | Some c \<Rightarrow> map_sum id (\<lambda>_. ()) (decode_cursor (re_cursor E) c filters))"

definition next_cursor :: "read_env \<Rightarrow> read_point \<Rightarrow> int \<Rightarrow> (json \<Rightarrow> json) \<Rightarrow> (pystr \<times> json) list \<Rightarrow> json list \<Rightarrow> api_error + pystr option" where
  "next_cursor E p lim anchor filters rows =
     (if int (length rows) = lim \<and> rows \<noteq> [] then
        map_sum RaiseE Some (encode_cursor (re_cursor E) (re_iso E (utc (rp_resolved p))) (anchor (last rows)) filters)
      else Inr None)"

section \<open>The envelope\<close>

record lineage =
  ln_source_filing_id :: "pystr option"
  ln_raw_bytes_sha256 :: "pystr option"
  ln_extraction_code_version :: "pystr option"
  ln_prompt_version :: "pystr option"
  ln_model_identity :: "pystr option"
  ln_extraction_seed :: "int option"

definition lineage_json :: "lineage \<Rightarrow> json" where
  "lineage_json l = jobj [(''source_filing_id'', jopt JStr (ln_source_filing_id l)), (''raw_bytes_sha256'', jopt JStr (ln_raw_bytes_sha256 l)),
     (''extraction_code_version'', jopt JStr (ln_extraction_code_version l)), (''prompt_version'', jopt JStr (ln_prompt_version l)),
     (''model_identity'', jopt JStr (ln_model_identity l)), (''extraction_seed'', jopt JInt (ln_extraction_seed l))]"

definition pagination_json :: "pystr option \<Rightarrow> json" where
  "pagination_json next_c = jobj [(''next_cursor'', jopt JStr next_c), (''prev_cursor'', JNull), (''has_more'', JBool (next_c \<noteq> None)),
     (''total_count_estimate'', JNull)]"

definition build_envelope ::
  "read_env \<Rightarrow> json list \<Rightarrow> uuid \<Rightarrow> read_point \<Rightarrow> lineage option \<Rightarrow> pystr option \<Rightarrow> pystr list \<Rightarrow> json" where
  "build_envelope E rows rid p lin next_c active = jobj
     [(''data'', JArr rows),
      (''metadata'', jobj
        [(''as_of_requested'', jopt (\<lambda>t. JStr (re_dump_time E t)) (rp_requested p)),
         (''as_of_resolved'', JStr (re_dump_time E (rp_resolved p))),
         (''as_of_range'', case rp_interval p of None \<Rightarrow> JNull
            | Some (lo, hi) \<Rightarrow> JArr [JStr (re_dump_time E lo), JStr (re_dump_time E hi)]),
         (''lineage'', jopt lineage_json lin),
         (''pagination'', pagination_json next_c),
         (''feature_flags_active'', JArr (map JStr active)),
         (''warnings'', JArr []),
         (''request_id'', JStr (uuid_str rid)),
         (''served_by'', JStr (lit ''bitemporal-api/'' @ re_build E))])]"

record read_response =
  rs_data :: "json list"
  rs_next_cursor :: "pystr option"
  rs_envelope :: json
  rs_headers :: "(string \<times> pystr) list"

text \<open>The last lines of a list route: page cursor, envelope, cache headers by the upper end of an interval.\<close>

definition close_read ::
  "read_env \<Rightarrow> read_clock \<Rightarrow> feature_flags \<Rightarrow> read_point \<Rightarrow> int \<Rightarrow> (json \<Rightarrow> json) \<Rightarrow> (pystr \<times> json) list \<Rightarrow> lineage option \<Rightarrow> json list
     \<Rightarrow> (api_error, request_context, read_response) op" where
  "close_read E clk flags p lim anchor filters lin rows =
     thn (modify (\<lambda>c. c\<lparr>rq_rows_returned := length rows\<rparr>))
     (bnd (lift (next_cursor E p lim anchor filters rows)) (\<lambda>next_c.
      bnd (gets rq_request_id) (\<lambda>rid.
      let env = build_envelope E rows rid p lin next_c (active_flags flags);
          cache_as_of = (case rp_interval p of None \<Rightarrow> rp_resolved p | Some (_, hi) \<Rightarrow> hi)
      in ret \<lparr>rs_data = rows, rs_next_cursor = next_c, rs_envelope = env,
           rs_headers = set_cache_headers (re_sha_text E) (rc_cache clk) cache_as_of (cu_dumps (re_cursor E) env)\<rparr>)))"

section \<open>Observations\<close>

text \<open>\<open>ts.observation_at\<close> of migration 0049.\<close>

definition observation_at :: "int \<Rightarrow> observation list \<Rightarrow> observation list" where
  "observation_at p t = distinct_on group_key
     (sort_key (\<lambda>r. (obs_series_id r, obs_ts r, - obs_as_of r)) (filter (\<lambda>r. obs_as_of r \<le> p) t))"

record observation_filter =
  of_series_id :: "int option"
  of_series_code :: "pystr option"
  of_ts_from :: "datetime option"
  of_ts_to :: "datetime option"

definition matches_opt :: "'a option \<Rightarrow> ('a \<Rightarrow> bool) \<Rightarrow> bool" where
  "matches_opt x p \<longleftrightarrow> (case x of None \<Rightarrow> True | Some v \<Rightarrow> p v)"

definition observation_where :: "read_env \<Rightarrow> int option \<Rightarrow> observation_filter \<Rightarrow> observation \<Rightarrow> bool" where
  "observation_where E sid f r \<longleftrightarrow>
     matches_opt sid (\<lambda>i. obs_series_id r = i) \<and>
     matches_opt (of_ts_from f) (\<lambda>d. bind_time E d \<le> obs_ts r) \<and>
     matches_opt (of_ts_to f) (\<lambda>d. obs_ts r \<le> bind_time E d)"

text \<open>At a point in time the PIT function, over an interval the physical table with every version in it.\<close>

definition observation_query :: "read_env \<Rightarrow> read_point \<Rightarrow> int option \<Rightarrow> observation_filter \<Rightarrow> int \<Rightarrow> observation list \<Rightarrow> observation list" where
  "observation_query E p sid f lim t = take (nat lim) (case rp_interval p of
     None \<Rightarrow> sort_key (\<lambda>r. (obs_series_id r, - obs_ts r)) (filter (observation_where E sid f) (observation_at (rp_resolved p) t))
   | Some (lo, hi) \<Rightarrow> sort_key (\<lambda>r. (obs_series_id r, obs_ts r, obs_as_of r))
       (filter (\<lambda>r. observation_where E sid f r \<and> lo \<le> obs_as_of r \<and> obs_as_of r < hi) t))"

definition observation_json :: "read_env \<Rightarrow> observation \<Rightarrow> json" where
  "observation_json E r = jobj [(''series_id'', JInt (obs_series_id r)), (''ts'', JStr (re_iso E (utc (obs_ts r)))),
     (''as_of'', JStr (re_iso E (utc (obs_as_of r)))), (''value'', jopt JFloat (obs_value r)), (''value_text'', jopt JStr (obs_value_text r))]"

definition json_fields :: "string list \<Rightarrow> json \<Rightarrow> json" where
  "json_fields ks j = (case j of JObj kvs \<Rightarrow> jobj (map (\<lambda>k. (k, case map_of kvs (lit k) of Some v \<Rightarrow> v | None \<Rightarrow> JNull)) ks) | _ \<Rightarrow> JNull)"

definition observation_filters :: "read_env \<Rightarrow> read_point \<Rightarrow> int option \<Rightarrow> observation_filter \<Rightarrow> (pystr \<times> json) list" where
  "observation_filters E p sid f = point_filters E p @
     [(lit ''series_id'', jopt JInt sid), (lit ''ts_from'', jopt (\<lambda>d. JStr (re_iso E d)) (of_ts_from f)),
      (lit ''ts_to'', jopt (\<lambda>d. JStr (re_iso E d)) (of_ts_to f))]"

definition resolve_series_code :: "pystr \<Rightarrow> db \<Rightarrow> int option" where
  "resolve_series_code code d = map_option sr_id (sql_find (\<lambda>r. sr_code r = code) (series d))"

text \<open>A code counts only where no id is given.\<close>

definition observation_series :: "observation_filter \<Rightarrow> db \<Rightarrow> api_error + int option" where
  "observation_series f d = (case (of_series_id f, of_series_code f) of
     (None, Some code) \<Rightarrow>
       (case resolve_series_code code d of
          None \<Rightarrow> Inl (interval_invalid ''unknown series code'' [(''series_code'', JStr code)])
        | Some i \<Rightarrow> Inr (Some i))
   | (sid, _) \<Rightarrow> Inr sid)"

definition get_observations ::
  "read_env \<Rightarrow> read_clock \<Rightarrow> api_key_principal option \<Rightarrow> feature_flags \<Rightarrow> db \<Rightarrow> read_request \<Rightarrow> observation_filter
     \<Rightarrow> (api_error, request_context, read_response) op" where
  "get_observations E clk who flags d q f =
     bnd (open_read E clk who flags q) (\<lambda>p.
     bnd (lift (observation_series f d)) (\<lambda>sid.
     let filters = observation_filters E p sid f in
     thn (lift (check_cursor E (rr_cursor q) filters))
     (close_read E clk flags p (rr_limit q) (json_fields [''series_id'', ''ts'']) filters None
       (map (observation_json E) (observation_query E p sid f (rr_limit q) (observations d))))))"

section \<open>Events\<close>

record filing_event =
  fe_id :: uuid
  fe_filing_id :: uuid
  fe_source_id :: pystr
  fe_source_filing_ref :: pystr
  fe_type :: pystr
  fe_seq :: int
  fe_entity_id :: uuid
  fe_counterparty :: "uuid option"
  fe_ts :: int
  fe_effective_dt :: "pystr option"
  fe_as_of :: int
  fe_superseded_at :: "int option"
  fe_payload :: json
  fe_primary_confidence :: "64 word"
  fe_final_confidence :: "64 word"
  fe_model_version :: pystr
  fe_prompt_version :: pystr
  fe_verifier_model_version :: "pystr option"
  fe_verifier_prompt_version :: "pystr option"
  fe_verifier_confidence :: "64 word option"
  fe_verifier_agreement :: "bool option"
  fe_input_sha256 :: pystr
  fe_input_chars :: int
  fe_input_tokens :: "int option"
  fe_output_tokens :: "int option"
  fe_ingestion_run_id :: int
  fe_extracted_at :: int

definition PII_KEYS :: "pystr set" where
  "PII_KEYS = lit ` {''counterparty_name'', ''counterparty_address'', ''signatory_name''}"

definition redact_event_payload :: "api_key_principal option \<Rightarrow> json \<Rightarrow> json" where
  "redact_event_payload who payload = (case payload of
     JObj kvs \<Rightarrow>
       if (case who of None \<Rightarrow> False | Some p \<Rightarrow> ap_pii_unredacted p) then payload
       else JObj (map (\<lambda>(k, v). (k, if k \<in> PII_KEYS then jlit ''<REDACTED:counterparty>'' else v)) kvs)
   | _ \<Rightarrow> payload)"

text \<open>\<open>agg.filing_event_at\<close> of migration 0049; the key is unique together with \<open>as_of\<close>.\<close>

definition filing_event_at :: "int \<Rightarrow> filing_event list \<Rightarrow> filing_event list" where
  "filing_event_at p t = distinct_on (\<lambda>r. (fe_filing_id r, fe_type r, fe_seq r))
     (sort_key (\<lambda>r. - fe_as_of r)
       (filter (\<lambda>r. fe_as_of r \<le> p \<and> (case fe_superseded_at r of None \<Rightarrow> True | Some s \<Rightarrow> p < s)) t))"

record event_filter =
  ef_entity_id :: "uuid option"
  ef_filing_id :: "uuid option"
  ef_event_type :: "pystr option"
  ef_occurred_from :: "datetime option"
  ef_occurred_to :: "datetime option"
  ef_event_after :: "datetime option"
  ef_event_before :: "datetime option"

text \<open>The documented names win over the deprecated ones.\<close>

definition effective_from :: "event_filter \<Rightarrow> datetime option" where
  "effective_from f = (if ef_occurred_from f \<noteq> None then ef_occurred_from f else ef_event_after f)"

definition effective_to :: "event_filter \<Rightarrow> datetime option" where
  "effective_to f = (if ef_occurred_to f \<noteq> None then ef_occurred_to f else ef_event_before f)"

definition event_where :: "read_env \<Rightarrow> event_filter \<Rightarrow> filing_event \<Rightarrow> bool" where
  "event_where E f r \<longleftrightarrow>
     matches_opt (ef_entity_id f) (\<lambda>u. fe_entity_id r = u) \<and>
     matches_opt (ef_filing_id f) (\<lambda>u. fe_filing_id r = u) \<and>
     matches_opt (ef_event_type f) (\<lambda>t. fe_type r = t) \<and>
     matches_opt (effective_from f) (\<lambda>d. bind_time E d \<le> fe_ts r) \<and>
     matches_opt (effective_to f) (\<lambda>d. fe_ts r \<le> bind_time E d)"

text \<open>
  \<open>ORDER BY\<close> leaves ties open at a point in time: \<open>plan\<close> is the order rows arrive in. \<open>collate\<close> ranks event types.
\<close>

definition event_query ::
  "(filing_event list \<Rightarrow> filing_event list) \<Rightarrow> (pystr \<Rightarrow> nat) \<Rightarrow> read_env \<Rightarrow> read_point \<Rightarrow> event_filter \<Rightarrow> int \<Rightarrow> filing_event list \<Rightarrow> filing_event list" where
  "event_query plan collate E p f lim t = take (nat lim) (case rp_interval p of
     None \<Rightarrow> sort_key (\<lambda>r. (- fe_ts r, fe_seq r)) (plan (filter (event_where E f) (filing_event_at (rp_resolved p) t)))
   | Some (lo, hi) \<Rightarrow> sort_key (\<lambda>r. (unat (fe_filing_id r), collate (fe_type r), fe_seq r, fe_as_of r))
       (filter (\<lambda>r. event_where E f r \<and> lo \<le> fe_as_of r \<and> fe_as_of r < hi) t))"

definition event_json :: "read_env \<Rightarrow> api_key_principal option \<Rightarrow> filing_event \<Rightarrow> json" where
  "event_json E who r = jobj
     [(''event_id'', JStr (uuid_str (fe_id r))), (''filing_id'', JStr (uuid_str (fe_filing_id r))), (''source_id'', JStr (fe_source_id r)),
      (''source_filing_ref'', JStr (fe_source_filing_ref r)), (''event_type'', JStr (fe_type r)), (''event_seq'', JInt (fe_seq r)),
      (''entity_id'', JStr (uuid_str (fe_entity_id r))), (''counterparty_entity_id'', jopt (\<lambda>u. JStr (uuid_str u)) (fe_counterparty r)),
      (''occurred_at'', JStr (re_iso E (utc (fe_ts r)))), (''effective_dt'', jopt JStr (fe_effective_dt r)),
      (''as_of'', JStr (re_iso E (utc (fe_as_of r)))), (''attributes'', redact_event_payload who (fe_payload r)),
      (''primary_confidence'', JFloat (fe_primary_confidence r)), (''final_confidence'', JFloat (fe_final_confidence r)),
      (''primary_model_version'', JStr (fe_model_version r)), (''primary_prompt_version'', JStr (fe_prompt_version r))]"

definition event_filters :: "read_env \<Rightarrow> read_point \<Rightarrow> event_filter \<Rightarrow> (pystr \<times> json) list" where
  "event_filters E p f = point_filters E p @
     [(lit ''entity_id'', jopt (\<lambda>u. JStr (uuid_str u)) (ef_entity_id f)), (lit ''filing_id'', jopt (\<lambda>u. JStr (uuid_str u)) (ef_filing_id f)),
      (lit ''event_type'', jopt JStr (ef_event_type f)), (lit ''occurred_from'', jopt (\<lambda>d. JStr (re_iso E d)) (effective_from f)),
      (lit ''occurred_to'', jopt (\<lambda>d. JStr (re_iso E d)) (effective_to f))]"

definition event_lineage :: "filing_event list \<Rightarrow> lineage option" where
  "event_lineage rows = (case rows of [] \<Rightarrow> None | r # _ \<Rightarrow>
     Some \<lparr>ln_source_filing_id = None, ln_raw_bytes_sha256 = Some (fe_input_sha256 r), ln_extraction_code_version = None,
       ln_prompt_version = Some (fe_prompt_version r), ln_model_identity = Some (fe_model_version r), ln_extraction_seed = None\<rparr>)"

definition get_events ::
  "(filing_event list \<Rightarrow> filing_event list) \<Rightarrow> (pystr \<Rightarrow> nat) \<Rightarrow> read_env \<Rightarrow> read_clock \<Rightarrow> api_key_principal option \<Rightarrow> feature_flags
     \<Rightarrow> filing_event list \<Rightarrow> read_request \<Rightarrow> event_filter \<Rightarrow> (api_error, request_context, read_response) op" where
  "get_events plan collate E clk who flags t q f =
     bnd (open_read E clk who flags q) (\<lambda>p.
     thn (modify (\<lambda>c. if (case who of None \<Rightarrow> False | Some k \<Rightarrow> ap_pii_unredacted k) then c\<lparr>rq_pii_unredacted_used := True\<rparr> else c))
     (let filters = event_filters E p f; rows = event_query plan collate E p f (rr_limit q) t in
      thn (lift (check_cursor E (rr_cursor q) filters))
      (close_read E clk flags p (rr_limit q) (json_fields [''filing_id'', ''event_seq'']) filters (event_lineage rows)
        (map (event_json E who) rows))))"

end
