(* ===== verification/Research_Laws.thy ===== *)
theory Research_Laws
  imports Research_Read
begin

text \<open>
  What the read routes of the research API give: the rows of the library's own reader at a point in time, redacted
  payloads, and what their cache headers and page cursors amount to.
\<close>

section \<open>The shape of a read\<close>

lemma lift_run [simp]: "lift r s = (r, s)"
  by (simp add: lift_def)

lemma open_read_Inr:
  assumes "open_read E clk who flags q c = (Inr p, c')"
  shows "parse_as_of_range E (rr_as_of_range q) = Inr (rp_interval p) \<and> parse_as_of E (rc_check clk) (rr_as_of q) = Inr (rp_requested p) \<and>
    rp_resolved p = (case rp_requested p of Some t \<Rightarrow> t | None \<Rightarrow> rc_now clk) \<and>
    rq_as_of_resolved c' = Some (rp_resolved p) \<and> rq_pii_unredacted_used c' = rq_pii_unredacted_used c \<and>
    rq_api_key_id c' = map_option ap_key_id who \<and> rq_request_id c' = rq_request_id c \<and>
    \<not> (rr_as_of q \<noteq> None \<and> rr_as_of_range q \<noteq> None) \<and> 1 \<le> rr_limit q \<and> rr_limit q \<le> LIMIT_HARD_CAP"
  using assms
  by (auto simp: open_read_def thn_def bnd_def Let_def modify_def ret_def raise_def reject_pit_with_interval_def enforce_query_cost_def
      split: if_splits sum.splits)

lemma close_read_Inr:
  assumes "close_read E clk flags p lim anchor filters lin rows c = (Inr resp, c')"
  shows "rs_data resp = rows \<and> next_cursor E p lim anchor filters rows = Inr (rs_next_cursor resp) \<and>
    rs_headers resp = set_cache_headers (re_sha_text E) (rc_cache clk) (case rp_interval p of None \<Rightarrow> rp_resolved p | Some (_, hi) \<Rightarrow> hi)
      (cu_dumps (re_cursor E) (rs_envelope resp)) \<and> c' = c\<lparr>rq_rows_returned := length rows\<rparr>"
  using assms by (auto simp: close_read_def thn_def bnd_def Let_def modify_def gets_def ret_def split: sum.splits)

section \<open>Observations at a point in time\<close>

lemma observation_at_iff:
  assumes "distinct (map obs_pk t)"
  shows "r \<in> set (observation_at p t) \<longleftrightarrow> current_row t (obs_series_id r) (Some p) r"
proof -
  let ?f = "\<lambda>r. (obs_series_id r, obs_ts r, - obs_as_of r)"
  let ?xs = "sort_key ?f (filter (\<lambda>r. obs_as_of r \<le> p) t)"
  have pk: "inj_on obs_pk (set t)" "distinct t" using assms by (auto simp: distinct_map)
  have "inj_on ?f (set ?xs)"
  proof (rule inj_onI)
    fix x y assume "x \<in> set ?xs" "y \<in> set ?xs" "?f x = ?f y"
    then have "obs_pk x = obs_pk y" "x \<in> set t" "y \<in> set t" by (auto simp: obs_pk_def)
    with pk(1) show "x = y" by (rule inj_onD)
  qed
  then have "r \<in> set (distinct_on group_key ?xs) \<longleftrightarrow>
      r \<in> set ?xs \<and> (\<forall>x \<in> set ?xs. group_key x = group_key r \<longrightarrow> ?f r \<le> ?f x)"
    using pk(2) by (intro distinct_on_iff) simp_all
  then show ?thesis by (auto simp: observation_at_def current_row_def visible_def)
qed

text \<open>Lists ordered by an injective key with the same elements are the same.\<close>

lemma sorted_by_unique:
  fixes f :: "'a \<Rightarrow> 'k :: linorder"
  assumes "sorted (map f xs)" "sorted (map f ys)" "distinct (map f xs)" "distinct (map f ys)" "set xs = set ys"
  shows "xs = ys"
proof -
  have "map f xs = map f ys" using assms by (intro sorted_distinct_set_unique) simp_all
  moreover have "inj_on f (set xs \<union> set ys)" using assms(3,5) by (simp add: distinct_map)
  ultimately show ?thesis by (simp add: inj_on_map_eq_map)
qed

lemma observation_query_window:
  assumes "distinct (map obs_pk t)" "rp_interval p = None" "of_ts_from f = Some d1" "of_ts_to f = Some d2"
  shows "observation_query E p (Some sid) f lim t =
    take (nat lim) (rev (window_rows sid (bind_time E d1) (bind_time E d2 + 1) (Some (rp_resolved p)) t))"
proof -
  let ?k = "\<lambda>r. (obs_series_id r, - obs_ts r)"
  let ?q = "filter (observation_where E (Some sid) f) (observation_at (rp_resolved p) t)"
  let ?w = "window_rows sid (bind_time E d1) (bind_time E d2 + 1) (Some (rp_resolved p)) t"
  have members: "r \<in> set ?q \<longleftrightarrow> r \<in> set ?w" for r
    using observation_at_iff [OF assms(1), of r] window_rows_set [OF assms(1), of r]
    by (auto simp: observation_where_def matches_opt_def assms(3,4) current_row_def visible_def)
  have sid: "obs_series_id r = sid" if "r \<in> set ?w" for r
    using that window_rows_set [OF assms(1), of r] by (auto simp: current_row_def visible_def)
  have ts: "sorted_wrt (<) (map obs_ts ?w)" by (rule window_rows_sorted)
  have "sort_key ?k ?q = rev ?w"
  proof (rule sorted_by_unique [where f = ?k])
    show "set (sort_key ?k ?q) = set (rev ?w)" using members by auto
    have "sorted_wrt (\<lambda>x y. ?k y < ?k x) ?w"
      using ts sid by (auto simp: sorted_wrt_map intro!: sorted_wrt_mono_rel [of ?w "\<lambda>x y. obs_ts x < obs_ts y"])
    then have strict: "sorted_wrt (<) (map ?k (rev ?w))" by (simp add: sorted_wrt_map rev_map sorted_wrt_rev)
    then show "sorted (map ?k (rev ?w))" "distinct (map ?k (rev ?w))" by (simp_all add: strict_sorted_iff)
    have "distinct (map group_key (observation_at (rp_resolved p) t))" unfolding observation_at_def by (rule distinct_on_distinct)
    then have "distinct (map group_key ?q)" by (rule distinct_map_filter)
    then show "distinct (map ?k (sort_key ?k ?q))" by (auto simp: distinct_map inj_on_def)
  qed simp
  then show ?thesis by (simp add: observation_query_def assms(2))
qed

text \<open>The JSON of a row that the library's reader returns.\<close>

definition observation_out_json :: "read_env \<Rightarrow> observation_out \<Rightarrow> json" where
  "observation_out_json E x = jobj [(''series_id'', JInt (ou_series_id x)), (''ts'', JStr (re_iso E (utc (ou_ts x)))),
     (''as_of'', JStr (re_iso E (utc (ou_as_of x)))), (''value'', jopt JFloat (ou_value x)), (''value_text'', jopt JStr (ou_value_text x))]"

text \<open>C21. The route \<open>/observations\<close> at a point in time agrees with \<open>ObservationReader.range\<close>: for a series and a
  window it answers the rows the reader returns for that window at that point, newest first, cut to the limit. The bound
  \<open>ts_to\<close> belongs to the window of the route (\<open>ts <= :ts_to\<close>; the reader's is half open, so it is asked up to one
  microsecond more), although OPENAPI.yaml calls it exclusive. That the rows can be written as JSON (no NaN or infinity
  among the values, which the response refuses) is not part of the model.\<close>

theorem observations_match_reader:
  assumes "obs_unique d" and "get_observations E clk who flags d q f c = (Inr resp, c')" and "rr_as_of_range q = None"
    and "of_series_id f = Some sid" and "of_ts_from f = Some d1" and "of_ts_to f = Some d2"
  shows "\<exists>p outs. rq_as_of_resolved c' = Some p \<and>
    range_obs sid (bind_time E d1) (bind_time E d2 + 1) (Some p) None d = (Inr outs, d) \<and>
    rs_data resp = map (observation_out_json E) (take (nat (rr_limit q)) (rev outs))"
proof -
  obtain p c1 where p: "open_read E clk who flags q c = (Inr p, c1)"
    and rest: "bnd (lift (observation_series f d)) (\<lambda>sid. let filters = observation_filters E p sid f in
       thn (lift (check_cursor E (rr_cursor q) filters))
       (close_read E clk flags p (rr_limit q) (json_fields [''series_id'', ''ts'']) filters None
         (map (observation_json E) (observation_query E p sid f (rr_limit q) (observations d))))) c1 = (Inr resp, c')"
    using assms(2) unfolding get_observations_def bnd_Inr_iff by blast
  have "observation_series f d = Inr (Some sid)" by (simp add: observation_series_def assms(4))
  then have "close_read E clk flags p (rr_limit q) (json_fields [''series_id'', ''ts'']) (observation_filters E p (Some sid) f) None
      (map (observation_json E) (observation_query E p (Some sid) f (rr_limit q) (observations d))) c1 = (Inr resp, c')"
    using rest by (auto simp: Let_def thn_Inr_iff)
  note close = close_read_Inr [OF this]
  note opened = open_read_Inr [OF p]
  have interval: "rp_interval p = None" using opened assms(3) by (simp add: parse_as_of_range_def)
  let ?w = "window_rows sid (bind_time E d1) (bind_time E d2 + 1) (Some (rp_resolved p)) (observations d)"
  have json: "map (observation_json E) rows = map (observation_out_json E) (map obs_out rows)" for rows
    by (simp add: observation_json_def observation_out_json_def obs_out_def)
  have "rs_data resp = map (observation_out_json E) (take (nat (rr_limit q)) (rev (map obs_out ?w)))"
    using close observation_query_window [OF _ interval assms(5,6), of "observations d"] assms(1)
    by (simp add: obs_unique_def json take_map rev_map del: map_map)
  moreover have "range_obs sid (bind_time E d1) (bind_time E d2 + 1) (Some (rp_resolved p)) None d = (Inr (map obs_out ?w), d)"
    by (simp add: range_obs_def ret_def)
  moreover have "rq_as_of_resolved c' = Some (rp_resolved p)" using close opened by simp
  ultimately show ?thesis by blast
qed

section \<open>Events and personal data\<close>

lemma get_events_Inr:
  assumes "get_events plan collate E clk who flags t q f c = (Inr resp, c')"
  obtains p where "rs_data resp = map (event_json E who) (event_query plan collate E p f (rr_limit q) t)"
    "rq_as_of_resolved c' = Some (rp_resolved p)" "parse_as_of_range E (rr_as_of_range q) = Inr (rp_interval p)"
    "rs_headers resp = set_cache_headers (re_sha_text E) (rc_cache clk) (case rp_interval p of None \<Rightarrow> rp_resolved p | Some (_, hi) \<Rightarrow> hi)
      (cu_dumps (re_cursor E) (rs_envelope resp))"
    "rq_pii_unredacted_used c' \<longleftrightarrow> rq_pii_unredacted_used c \<or> (\<exists>k. who = Some k \<and> ap_pii_unredacted k)"
proof -
  let ?rows = "\<lambda>p. event_query plan collate E p f (rr_limit q) t"
  let ?c2 = "\<lambda>c1. if (case who of None \<Rightarrow> False | Some k \<Rightarrow> ap_pii_unredacted k) then c1\<lparr>rq_pii_unredacted_used := True\<rparr> else c1"
  obtain p c1 where p: "open_read E clk who flags q c = (Inr p, c1)"
    and "thn (modify ?c2) (thn (lift (check_cursor E (rr_cursor q) (event_filters E p f)))
      (close_read E clk flags p (rr_limit q) (json_fields [''filing_id'', ''event_seq'']) (event_filters E p f) (event_lineage (?rows p))
        (map (event_json E who) (?rows p)))) c1 = (Inr resp, c')"
    using assms unfolding get_events_def bnd_Inr_iff Let_def by blast
  then have "close_read E clk flags p (rr_limit q) (json_fields [''filing_id'', ''event_seq'']) (event_filters E p f) (event_lineage (?rows p))
        (map (event_json E who) (?rows p)) (?c2 c1) = (Inr resp, c')"
    by (auto simp: thn_Inr_iff)
  note close = close_read_Inr [OF this] and opened = open_read_Inr [OF p]
  show thesis by (rule that [of p]) (use close opened in \<open>auto split: option.splits if_splits\<close>)
qed

lemma event_query_subset:
  assumes "\<And>xs. mset (plan xs) = mset xs"
  shows "set (event_query plan collate E p f lim t) \<subseteq> set t"
proof -
  have plan: "set (plan xs) = set xs" for xs by (rule mset_eq_setD [OF assms])
  have at: "r \<in> set t" if "r \<in> set (filing_event_at m t)" for r m
    using subsetD [OF distinct_on_subset that [unfolded filing_event_at_def]] by simp
  then show ?thesis
    unfolding event_query_def by (auto simp: plan dest!: in_set_takeD dest: at split: option.splits prod.splits)
qed

definition field :: "string \<Rightarrow> json \<Rightarrow> json option" where
  "field k j = (case j of JObj kvs \<Rightarrow> map_of kvs (lit k) | _ \<Rightarrow> None)"

definition get_key :: "pystr \<Rightarrow> json \<Rightarrow> json option" where
  "get_key k j = (case j of JObj kvs \<Rightarrow> map_of kvs k | _ \<Rightarrow> None)"

lemma event_attributes: "field ''attributes'' (event_json E who r) = Some (redact_event_payload who (fe_payload r))"
  by (simp add: field_def event_json_def jobj_def)

lemma redacted_key:
  assumes "\<forall>k. who = Some k \<longrightarrow> \<not> ap_pii_unredacted k"
  shows "get_key k (redact_event_payload who j) =
    (if k \<in> PII_KEYS then map_option (\<lambda>_. jlit ''<REDACTED:counterparty>'') (get_key k j) else get_key k j)"
proof (cases j)
  case (JObj kvs)
  have "map_of (map (\<lambda>(k, v). (k, if k \<in> P then m else v)) kvs) x =
      (if x \<in> P then map_option (\<lambda>_. m) (map_of kvs x) else map_of kvs x)" for P m and x :: pystr
    by (induction kvs) auto
  moreover have "\<not> (case who of None \<Rightarrow> False | Some p \<Rightarrow> ap_pii_unredacted p)" using assms by (auto split: option.splits)
  ultimately show ?thesis by (simp add: JObj get_key_def redact_event_payload_def)
qed (simp_all add: get_key_def redact_event_payload_def)

text \<open>C23. Without the right to personal data a caller of \<open>/events\<close> gets every event of the answer as the JSON of a stored
  event whose payload has the marker \<open><REDACTED:counterparty>\<close> under each of the three keys of \<open>_PII_KEYS\<close> that it has at
  the top level, and under every other top-level key the value that is stored (so fields nested deeper go out as they
  are); no access to personal data is recorded.\<close>

theorem events_redacted:
  assumes "get_events plan collate E clk who flags t q f c = (Inr resp, c')"
    and "\<And>xs. mset (plan xs) = mset xs" and "\<forall>k. who = Some k \<longrightarrow> \<not> ap_pii_unredacted k"
  shows "rq_pii_unredacted_used c' = rq_pii_unredacted_used c \<and>
    (\<forall>j \<in> set (rs_data resp). \<exists>r \<in> set t. \<exists>a. j = event_json E who r \<and> field ''attributes'' j = Some a \<and>
       (\<forall>k. get_key k a = (if k \<in> PII_KEYS then map_option (\<lambda>_. jlit ''<REDACTED:counterparty>'') (get_key k (fe_payload r))
          else get_key k (fe_payload r))))"
proof -
  obtain p where data: "rs_data resp = map (event_json E who) (event_query plan collate E p f (rr_limit q) t)"
    and pii: "rq_pii_unredacted_used c' \<longleftrightarrow> rq_pii_unredacted_used c \<or> (\<exists>k. who = Some k \<and> ap_pii_unredacted k)"
    by (rule get_events_Inr [OF assms(1)])
  have "\<exists>r \<in> set t. \<exists>a. j = event_json E who r \<and> field ''attributes'' j = Some a \<and>
       (\<forall>k. get_key k a = (if k \<in> PII_KEYS then map_option (\<lambda>_. jlit ''<REDACTED:counterparty>'') (get_key k (fe_payload r))
          else get_key k (fe_payload r)))" if j: "j \<in> set (rs_data resp)" for j
  proof -
    obtain r where r: "j = event_json E who r" "r \<in> set (event_query plan collate E p f (rr_limit q) t)"
      using j unfolding data by auto
    note r = r(1) subsetD [OF event_query_subset [OF assms(2)] r(2)]
    then show ?thesis using event_attributes [of E who r] redacted_key [OF assms(3), of _ "fe_payload r"] by blast
  qed
  then show ?thesis using pii assms(3) by blast
qed

text \<open>The answer does not say that it depends on the caller: for a caller with the right to personal data a read of
  a past point in time goes out with the unredacted payloads and with headers that let any cache keep it for a year and
  serve it under the same address to everybody.\<close>

lemma unredacted_events_cached_publicly:
  assumes "get_events plan collate E clk (Some k) flags t q f c = (Inr resp, c')"
    and "\<And>xs. mset (plan xs) = mset xs" and "ap_pii_unredacted k" and "rr_as_of_range q = None"
    and "rq_as_of_resolved c' = Some p" and "p + IMMUTABLE_THRESHOLD_SECONDS * SECOND \<le> rc_cache clk"
  shows "map_of (rs_headers resp) ''Cache-Control'' = Some (lit ''public, max-age=31536000, immutable'') \<and>
    map fst (rs_headers resp) = [''ETag'', ''Cache-Control''] \<and>
    (\<forall>j \<in> set (rs_data resp). \<exists>r \<in> set t. field ''attributes'' j = Some (fe_payload r))"
proof -
  obtain pt where data: "rs_data resp = map (event_json E (Some k)) (event_query plan collate E pt f (rr_limit q) t)"
    and pt: "rq_as_of_resolved c' = Some (rp_resolved pt)" "parse_as_of_range E (rr_as_of_range q) = Inr (rp_interval pt)"
    and headers: "rs_headers resp = set_cache_headers (re_sha_text E) (rc_cache clk)
      (case rp_interval pt of None \<Rightarrow> rp_resolved pt | Some (_, hi) \<Rightarrow> hi) (cu_dumps (re_cursor E) (rs_envelope resp))"
    by (rule get_events_Inr [OF assms(1)])
  have interval: "rp_interval pt = None" using pt(2) assms(4) by (simp add: parse_as_of_range_def)
  have "int_str IMMUTABLE_MAX_AGE = lit ''31536000''" by (simp add: IMMUTABLE_MAX_AGE_def int_str_def nat_str.simps)
  then have "map_of (rs_headers resp) ''Cache-Control'' = Some (lit ''public, max-age=31536000, immutable'')"
    using pt(1) assms(5,6) by (simp add: headers interval set_cache_headers_def)
  moreover have "map fst (rs_headers resp) = [''ETag'', ''Cache-Control'']" by (simp add: headers set_cache_headers_def)
  moreover have "redact_event_payload (Some k) j = j" for j using assms(3) by (simp add: redact_event_payload_def split: json.splits)
  note plain = this
  have "\<exists>r \<in> set t. field ''attributes'' j = Some (fe_payload r)" if j: "j \<in> set (rs_data resp)" for j
  proof -
    obtain r where r: "j = event_json E (Some k) r" "r \<in> set (event_query plan collate E pt f (rr_limit q) t)"
      using j unfolding data by auto
    then show ?thesis using subsetD [OF event_query_subset [OF assms(2)] r(2)] event_attributes [of E "Some k" r] plain by auto
  qed
  ultimately show ?thesis by blast
qed

section \<open>Following a cursor\<close>

text \<open>The clock only matters for a read without \<open>as_of\<close>, and to refuse points in the future.\<close>

lemma parse_as_of_later:
  assumes "parse_as_of E now raw = Inr x" "now \<le> now'"
  shows "parse_as_of E now' raw = Inr x"
proof -
  have "now - now mod SECOND = now div SECOND * SECOND" for now by (simp add: minus_mod_eq_div_mult)
  moreover have "now div SECOND * SECOND \<le> now' div SECOND * SECOND"
    using assms(2) by (intro mult_right_mono zdiv_mono1) (simp_all add: SECOND_def)
  ultimately show ?thesis using assms(1)
    by (auto simp: parse_as_of_def split: option.splits if_splits)
qed

lemma open_read_again:
  assumes "open_read E clk who flags q c = (Inr p, c1)" "rr_as_of q = Some t" "rc_check clk \<le> rc_check clk'"
  shows "\<exists>c1'. open_read E clk' who flags (q\<lparr>rr_cursor := cu\<rparr>) c' = (Inr p, c1')"
proof -
  note o = open_read_Inr [OF assms(1)]
  have again: "parse_as_of E (rc_check clk') (rr_as_of q) = Inr (rp_requested p)"
    by (rule parse_as_of_later [OF _ assms(3)]) (use o in simp)
  obtain r where r: "rp_requested p = Some r"
    using o assms(2) by (auto simp: parse_as_of_def map_sum_Inr_iff split: option.splits if_splits)
  show ?thesis
    using assms(1) o again r
    by (cases p) (auto simp: open_read_def thn_def bnd_def Let_def modify_def ret_def raise_def split: if_splits sum.splits)
qed

lemma get_observations_Inr:
  "get_observations E clk who flags d q f c = (Inr resp, c') \<longleftrightarrow>
    (\<exists>p c1 sid. open_read E clk who flags q c = (Inr p, c1) \<and> observation_series f d = Inr sid \<and>
       check_cursor E (rr_cursor q) (observation_filters E p sid f) = Inr () \<and>
       close_read E clk flags p (rr_limit q) (json_fields [''series_id'', ''ts'']) (observation_filters E p sid f) None
         (map (observation_json E) (observation_query E p sid f (rr_limit q) (observations d))) c1 = (Inr resp, c'))"
  unfolding get_observations_def bnd_Inr_iff Let_def by (auto simp: thn_Inr_iff)

lemma close_read_again:
  assumes "close_read E clk flags p lim anchor filters lin rows c = (Inr resp, c1)"
  shows "\<exists>resp' c1'. close_read E clk' flags p lim anchor filters lin rows c' = (Inr resp', c1') \<and> rs_data resp' = rs_data resp \<and>
    rs_next_cursor resp' = rs_next_cursor resp"
  using assms by (auto simp: close_read_def thn_def bnd_def Let_def modify_def gets_def ret_def split: sum.splits)

text \<open>Pages do not advance. A client that asks for the page behind the cursor of a full page, at the same point in
  time and with the same filters, gets the same rows and the same cursor again, however often it follows it.\<close>

lemma following_cursor_repeats_page:
  assumes "cursor_law (re_cursor E) cu" and "get_observations E clk who flags d q f c = (Inr resp, c1)" and "rr_as_of q = Some t"
    and "rs_next_cursor resp = Some cu" and "rc_check clk \<le> rc_check clk'"
  shows "\<exists>resp' c1'. get_observations E clk' who flags d (q\<lparr>rr_cursor := Some cu\<rparr>) f c' = (Inr resp', c1') \<and>
    rs_data resp' = rs_data resp \<and> rs_next_cursor resp' = Some cu"
proof -
  obtain p c2 sid where p: "open_read E clk who flags q c = (Inr p, c2)" and sid: "observation_series f d = Inr sid"
    and close: "close_read E clk flags p (rr_limit q) (json_fields [''series_id'', ''ts'']) (observation_filters E p sid f) None
         (map (observation_json E) (observation_query E p sid f (rr_limit q) (observations d))) c2 = (Inr resp, c1)"
    using assms(2) unfolding get_observations_Inr by blast
  obtain anchor where "encode_cursor (re_cursor E) (re_iso E (utc (rp_resolved p))) anchor (observation_filters E p sid f) = Inr cu"
    using close_read_Inr [OF close] assms(4) by (auto simp: next_cursor_def map_sum_Inr_iff split: if_splits)
  then have "check_cursor E (Some cu) (observation_filters E p sid f) = Inr ()"
    using decode_encoded [OF assms(1)] by (fastforce simp: check_cursor_def)
  moreover obtain c2' where "open_read E clk' who flags (q\<lparr>rr_cursor := Some cu\<rparr>) c' = (Inr p, c2')"
    using open_read_again [OF p assms(3,5)] by blast
  ultimately show ?thesis
    using close_read_again [OF close, of clk' c2'] sid assms(4) by (simp add: get_observations_Inr)
qed

section \<open>A page of one row\<close>

definition sample_payload :: "(pystr \<times> json) list" where
  "sample_payload = cursor_payload (lit ''t'') (jobj [(''series_id'', JInt 1), (''ts'', jlit ''t'')]) (lit ''x'')"

definition sample_read_env :: read_env where
  "sample_read_env = \<lparr>re_cursor = \<lparr>cu_dumps = (\<lambda>j. if j = JObj sample_payload then lit ''p'' else lit ''x''),
       cu_loads = (\<lambda>t. if t = lit ''p'' then Some (sort_json (JObj sample_payload)) else None), cu_decode_utf8 = (\<lambda>bs. Some (map unat bs)), cu_sha = map unat\<rparr>,
     re_fromiso = (\<lambda>_. Some (utc 5)), re_iso = (\<lambda>_. lit ''t''), re_dump_time = (\<lambda>_. []), re_local = id, re_sha_text = id, re_build = []\<rparr>"

definition sample_read_clock :: read_clock where
  "sample_read_clock = \<lparr>rc_check = 0, rc_now = 0, rc_cache = 400 * SECOND\<rparr>"

definition sample_read_request :: "int \<Rightarrow> read_request" where
  "sample_read_request l = \<lparr>rr_as_of = Some (lit ''T''), rr_as_of_range = None, rr_cursor = None, rr_limit = l\<rparr>"

definition sample_observation_filter :: observation_filter where
  "sample_observation_filter = \<lparr>of_series_id = Some 1, of_series_code = None, of_ts_from = Some (utc 0), of_ts_to = Some (utc 8)\<rparr>"

definition sample_request_context :: request_context where
  "sample_request_context = \<lparr>rq_request_id = 0, rq_api_key_id = None, rq_rate_tier = ''anonymous'', rq_as_of_requested = None,
     rq_as_of_resolved = None, rq_as_of_range = None, rq_rows_returned = 0, rq_flags_active = [], rq_pii_unredacted_used = False\<rparr>"

definition no_flags :: feature_flags where
  "no_flags = \<lparr>fs_enabled = [], fs_text = []\<rparr>"

definition sample_page_cursor :: pystr where
  "sample_page_cursor = rstrip_pad (b64_encode [112])"

lemma sample_cursor_law: "cursor_law (re_cursor sample_read_env) sample_page_cursor"
proof -
  have "Option.bind (cu_decode_utf8 (re_cursor sample_read_env) raw) (cu_loads (re_cursor sample_read_env)) = Some (sort_json (JObj p))"
    if "encode_utf8 (cu_dumps (re_cursor sample_read_env) (JObj p)) = Inr raw" "sample_page_cursor = rstrip_pad (b64_encode (map unat raw))" for p raw
  proof (cases "p = sample_payload")
    case True
    then have "raw = [112]" using that(1) by (simp add: sample_read_env_def encode_utf8_ascii)
    then show ?thesis using True by (simp add: sample_read_env_def del: sort_json.simps)
  next
    case False
    then have "raw = [120]" using that(1) by (simp add: sample_read_env_def encode_utf8_ascii)
    then show ?thesis using that(2) by (simp add: sample_page_cursor_def b64_char_def rstrip_pad_def pad_def)
  qed
  then show ?thesis unfolding cursor_law_def by blast
qed

lemma sample_open:
  "open_read sample_read_env sample_read_clock who no_flags (sample_read_request l) sample_request_context =
     (if l < 1 then (Inl limit_too_small, sample_request_context)
      else if 500 < l then (Inl (problem 413 ''QUERY_TOO_LARGE'' ''limit exceeds hard cap of 500''
        [(''limit'', JInt l), (''max_limit'', JInt LIMIT_HARD_CAP)]), sample_request_context)
      else (Inr \<lparr>rp_requested = Some 5, rp_resolved = 5, rp_interval = None\<rparr>,
        sample_request_context\<lparr>rq_api_key_id := map_option ap_key_id who,
              rq_rate_tier := (case who of None \<Rightarrow> ''anonymous'' | Some p \<Rightarrow> ap_rate_tier p),
              rq_as_of_requested := Some 5, rq_as_of_resolved := Some 5, rq_as_of_range := None, rq_flags_active := []\<rparr>))"
  by (simp add: open_read_def sample_read_request_def raise_def reject_pit_with_interval_def parse_as_of_range_def gate_interval_flag_def
      enforce_query_cost_def AS_OF_RANGE_MAX_WIDTH_def SECOND_def LIMIT_HARD_CAP_def parse_as_of_def sample_read_env_def utc_def
      CLOCK_SKEW_TOLERANCE_def sample_read_clock_def as_utc_def thn_def bnd_def modify_def ret_def active_flags_def no_flags_def Let_def)

lemma sample_page:
  "\<exists>resp c'. get_observations sample_read_env sample_read_clock None no_flags sample_series_db (sample_read_request 1) sample_observation_filter
     sample_request_context = (Inr resp, c') \<and> rs_next_cursor resp = Some sample_page_cursor"
proof -
  let ?p = "\<lparr>rp_requested = Some 5, rp_resolved = 5, rp_interval = None\<rparr>"
  have rows: "observation_query sample_read_env ?p (Some 1) sample_observation_filter 1 (observations sample_series_db) = observations sample_series_db"
    by (simp add: observation_query_def observation_at_def observation_where_def matches_opt_def sample_observation_filter_def bind_time_def utc_def
        sample_series_db_def obs_row_def sample_obs_def)
  have len: "observations sample_series_db = [obs_row sample_writer sample_ctx 1 (sample_obs 1 2, replicate 64 48)]"
    by (simp add: sample_series_db_def)
  have anchor: "json_fields [''series_id'', ''ts''] (observation_json sample_read_env (obs_row sample_writer sample_ctx 1 (sample_obs 1 2, replicate 64 48))) =
      jobj [(''series_id'', JInt 1), (''ts'', jlit ''t'')]"
    by (simp add: json_fields_def observation_json_def jobj_def obs_row_def sample_obs_def sample_read_env_def jlit_def)
  have "encode_cursor (re_cursor sample_read_env) (lit ''t'') (jobj [(''series_id'', JInt 1), (''ts'', jlit ''t'')]) (observation_filters sample_read_env ?p (Some 1) sample_observation_filter) = Inr sample_page_cursor"
  proof -
    have "observation_filters sample_read_env ?p (Some 1) sample_observation_filter \<noteq> sample_payload"
      by (simp add: observation_filters_def point_filters_def sample_payload_def cursor_payload_def)
    then have "filters_hash (re_cursor sample_read_env) (observation_filters sample_read_env ?p (Some 1) sample_observation_filter) = Inr (lit ''x'')"
      by (simp add: filters_hash_def sample_read_env_def encode_utf8_ascii)
    then show ?thesis
      by (simp only: encode_cursor_def sum.case sample_payload_def [symmetric]) (simp add: sample_read_env_def encode_utf8_ascii sample_page_cursor_def)
  qed
  then have "next_cursor sample_read_env ?p 1 (json_fields [''series_id'', ''ts'']) (observation_filters sample_read_env ?p (Some 1) sample_observation_filter)
      (map (observation_json sample_read_env) (observations sample_series_db)) = Inr (Some sample_page_cursor)"
    by (simp add: next_cursor_def len anchor) (simp add: sample_read_env_def)
  moreover have "observation_series sample_observation_filter sample_series_db = Inr (Some 1)"
    by (simp add: observation_series_def sample_observation_filter_def)
  moreover have "rr_limit (sample_read_request 1) = 1" "rr_cursor (sample_read_request 1) = None" by (simp_all add: sample_read_request_def)
  ultimately show ?thesis
    by (simp add: get_observations_def bnd_def sample_open rows check_cursor_def close_read_def thn_def modify_def gets_def ret_def Let_def)
qed

lemma following_cursor_repeats_page_witness:
  "\<exists>resp' c1'. get_observations sample_read_env sample_read_clock None no_flags sample_series_db
       ((sample_read_request 1)\<lparr>rr_cursor := Some sample_page_cursor\<rparr>) sample_observation_filter sample_request_context = (Inr resp', c1') \<and>
     rs_next_cursor resp' = Some sample_page_cursor"
proof -
  obtain resp c' where page: "get_observations sample_read_env sample_read_clock None no_flags sample_series_db (sample_read_request 1)
      sample_observation_filter sample_request_context = (Inr resp, c')" "rs_next_cursor resp = Some sample_page_cursor"
    using sample_page by blast
  have as_of: "rr_as_of (sample_read_request 1) = Some (lit ''T'')" by (simp add: sample_read_request_def)
  show ?thesis
    using following_cursor_repeats_page [OF sample_cursor_law page(1) as_of page(2) order_refl] by blast
qed

theorem observations_match_reader_witness:
  "\<exists>resp c' p outs. get_observations sample_read_env sample_read_clock None no_flags sample_series_db (sample_read_request 1)
       sample_observation_filter sample_request_context = (Inr resp, c') \<and> rq_as_of_resolved c' = Some p \<and>
     range_obs 1 0 9 (Some p) None sample_series_db = (Inr outs, sample_series_db) \<and>
     rs_data resp = map (observation_out_json sample_read_env) (take 1 (rev outs))"
proof -
  obtain resp c' where page: "get_observations sample_read_env sample_read_clock None no_flags sample_series_db (sample_read_request 1)
      sample_observation_filter sample_request_context = (Inr resp, c')"
    using sample_page by blast
  have q: "rr_as_of_range (sample_read_request 1) = None" "rr_limit (sample_read_request 1) = 1"
    "of_series_id sample_observation_filter = Some 1" "of_ts_from sample_observation_filter = Some (utc 0)"
    "of_ts_to sample_observation_filter = Some (utc 8)" "bind_time sample_read_env (utc 0) = 0" "bind_time sample_read_env (utc 8) + 1 = 9"
    by (simp_all add: sample_read_request_def sample_observation_filter_def bind_time_def utc_def)
  have ok: "obs_unique sample_series_db" by simp
  show ?thesis
    using observations_match_reader [OF ok page q(1,3,4,5)] page unfolding q by (simp only: nat_one_as_int) blast
qed

definition sample_filing_event :: filing_event where
  "sample_filing_event = \<lparr>fe_id = 1, fe_filing_id = 2, fe_source_id = lit ''kap'', fe_source_filing_ref = lit ''r'', fe_type = lit ''merger'', fe_seq = 1,
     fe_entity_id = 3, fe_counterparty = None, fe_ts = 1, fe_effective_dt = None, fe_as_of = 2, fe_superseded_at = None,
     fe_payload = jobj [(''counterparty_name'', jlit ''Ali'')], fe_primary_confidence = 0, fe_final_confidence = 0, fe_model_version = [],
     fe_prompt_version = [], fe_verifier_model_version = None, fe_verifier_prompt_version = None, fe_verifier_confidence = None,
     fe_verifier_agreement = None, fe_input_sha256 = [], fe_input_chars = 0, fe_input_tokens = None, fe_output_tokens = None,
     fe_ingestion_run_id = 1, fe_extracted_at = 2\<rparr>"

definition sample_event_filter :: event_filter where
  "sample_event_filter = \<lparr>ef_entity_id = None, ef_filing_id = None, ef_event_type = None, ef_occurred_from = None, ef_occurred_to = None,
     ef_event_after = None, ef_event_before = None\<rparr>"

definition sample_reader_key :: api_key_principal where
  "sample_reader_key = \<lparr>ap_key_id = 7, ap_rate_tier = ''partner'', ap_pii_unredacted = True, ap_scopes = []\<rparr>"

lemma sample_events:
  "\<exists>resp c'. get_events id (\<lambda>_. 0) sample_read_env sample_read_clock who no_flags [sample_filing_event] (sample_read_request 2) sample_event_filter
     sample_request_context = (Inr resp, c') \<and> rs_data resp = [event_json sample_read_env who sample_filing_event] \<and> rq_as_of_resolved c' = Some 5"
proof -
  let ?p = "\<lparr>rp_requested = Some 5, rp_resolved = 5, rp_interval = None\<rparr>"
  have rows: "event_query id (\<lambda>_. 0) sample_read_env ?p sample_event_filter 2 [sample_filing_event] = [sample_filing_event]"
    by (simp add: event_query_def filing_event_at_def event_where_def matches_opt_def sample_event_filter_def effective_from_def effective_to_def)
      (simp add: sample_filing_event_def)
  have "rr_limit (sample_read_request 2) = 2" "rr_cursor (sample_read_request 2) = None" by (simp_all add: sample_read_request_def)
  then show ?thesis
    by (simp add: get_events_def bnd_def sample_open rows check_cursor_def close_read_def next_cursor_def thn_def modify_def gets_def ret_def Let_def)
qed

lemma sample_filing_event_payload: "fe_payload sample_filing_event = jobj [(''counterparty_name'', jlit ''Ali'')]"
  by (simp add: sample_filing_event_def)

theorem events_redacted_witness:
  "\<exists>resp c' a. get_events id (\<lambda>_. 0) sample_read_env sample_read_clock None no_flags [sample_filing_event] (sample_read_request 2) sample_event_filter
     sample_request_context = (Inr resp, c') \<and> \<not> rq_pii_unredacted_used c' \<and> field ''attributes'' (hd (rs_data resp)) = Some a \<and>
     get_key (lit ''counterparty_name'') a = Some (jlit ''<REDACTED:counterparty>'')"
proof -
  obtain resp c' where run: "get_events id (\<lambda>_. 0) sample_read_env sample_read_clock None no_flags [sample_filing_event] (sample_read_request 2)
      sample_event_filter sample_request_context = (Inr resp, c')" and data: "rs_data resp = [event_json sample_read_env None sample_filing_event]"
    using sample_events by blast
  have mem: "hd (rs_data resp) \<in> set (rs_data resp)" by (simp add: data)
  note red = events_redacted [OF run]
  obtain a where a: "field ''attributes'' (hd (rs_data resp)) = Some a"
    "\<forall>k. get_key k a = (if k \<in> PII_KEYS then map_option (\<lambda>_. jlit ''<REDACTED:counterparty>'') (get_key k (fe_payload sample_filing_event))
          else get_key k (fe_payload sample_filing_event))"
    using red mem by fastforce
  have "lit ''counterparty_name'' \<in> PII_KEYS" "get_key (lit ''counterparty_name'') (fe_payload sample_filing_event) = Some (jlit ''Ali'')"
    by (simp_all add: PII_KEYS_def sample_filing_event_payload get_key_def jobj_def)
  moreover have "\<not> rq_pii_unredacted_used c'" using red by (simp add: sample_request_context_def)
  ultimately show ?thesis using run a by auto
qed

lemma unredacted_events_cached_publicly_witness:
  "\<exists>resp c'. get_events id (\<lambda>_. 0) sample_read_env sample_read_clock (Some sample_reader_key) no_flags [sample_filing_event] (sample_read_request 2)
     sample_event_filter sample_request_context = (Inr resp, c') \<and>
     map_of (rs_headers resp) ''Cache-Control'' = Some (lit ''public, max-age=31536000, immutable'') \<and>
     field ''attributes'' (hd (rs_data resp)) = Some (jobj [(''counterparty_name'', jlit ''Ali'')])"
proof -
  obtain resp c' where run: "get_events id (\<lambda>_. 0) sample_read_env sample_read_clock (Some sample_reader_key) no_flags [sample_filing_event]
      (sample_read_request 2) sample_event_filter sample_request_context = (Inr resp, c')"
    and data: "rs_data resp = [event_json sample_read_env (Some sample_reader_key) sample_filing_event]" and at: "rq_as_of_resolved c' = Some 5"
    using sample_events by blast
  have "ap_pii_unredacted sample_reader_key" "rr_as_of_range (sample_read_request 2) = None"
    "5 + IMMUTABLE_THRESHOLD_SECONDS * SECOND \<le> rc_cache sample_read_clock"
    by (simp_all add: sample_reader_key_def sample_read_request_def IMMUTABLE_THRESHOLD_SECONDS_def SECOND_def sample_read_clock_def)
  note pub = unredacted_events_cached_publicly [OF run _ this(1,2) at this(3)]
  have "hd (rs_data resp) \<in> set (rs_data resp)" by (simp add: data)
  then show ?thesis using run pub by (fastforce simp: sample_filing_event_payload)
qed

end
