(* ===== verification/Entity_History.thy ===== *)
theory Entity_History
  imports Research_Laws
begin

text \<open>
  The history of the entity table behind the research API: the trigger that captures a version of every changed row
  (migration 0046), the reads \<open>ref.entity_at\<close> and \<open>kap.disclosures_at\<close> at a point in time (migrations 0046, 0051), the
  lineage table (0047), and the route \<open>/entities/{entity_id}\<close> of \<open>api/routes/research.py\<close>.
\<close>

section \<open>Version tables\<close>

text \<open>What the reads share: of each key the latest version not after the point, versions of deletions left out first.\<close>

definition latest_versions :: "('v \<Rightarrow> 'k) \<Rightarrow> ('v \<Rightarrow> int) \<Rightarrow> ('v \<Rightarrow> string) \<Rightarrow> int \<Rightarrow> 'v list \<Rightarrow> 'v list" where
  "latest_versions vkey vtime vkind p vs = distinct_on vkey
     (sort_key (\<lambda>v. - vtime v) (filter (\<lambda>v. vtime v \<le> p \<and> vkind v \<noteq> ''deleted'') vs))"

text \<open>
  The law of such a read, and what follows for it: a version that is newer than all others of its key shows from its time
  on and changes nothing before; a deletion changes nothing at all.
\<close>

locale version_table =
  fixes vkey :: "'v \<Rightarrow> 'k" and vtime :: "'v \<Rightarrow> int" and vkind :: "'v \<Rightarrow> string" and at :: "int \<Rightarrow> 'v list \<Rightarrow> 'v list"
  assumes at_iff: "distinct (map (\<lambda>v. (vkey v, vtime v)) vs) \<Longrightarrow> r \<in> set (at p vs) \<longleftrightarrow>
      r \<in> set vs \<and> vtime r \<le> p \<and> vkind r \<noteq> ''deleted'' \<and>
      (\<forall>x \<in> set vs. vkey x = vkey r \<and> vtime x \<le> p \<and> vkind x \<noteq> ''deleted'' \<longrightarrow> vtime x \<le> vtime r)"
begin

lemma deletion_unseen:
  assumes "distinct (map (\<lambda>v. (vkey v, vtime v)) (vs @ [v]))" "vkind v = ''deleted''"
  shows "set (at p (vs @ [v])) = set (at p vs)"
proof -
  have "distinct (map (\<lambda>v. (vkey v, vtime v)) vs)" using assms(1) by simp
  from at_iff [OF this] at_iff [OF assms(1)] show ?thesis using assms(2) by auto
qed

lemma newer_unseen_before:
  assumes "distinct (map (\<lambda>v. (vkey v, vtime v)) (vs @ [v]))" "p < vtime v"
  shows "set (at p (vs @ [v])) = set (at p vs)"
proof -
  have "distinct (map (\<lambda>v. (vkey v, vtime v)) vs)" using assms(1) by simp
  from at_iff [OF this] at_iff [OF assms(1)] show ?thesis using assms(2) by auto
qed

lemma newer_seen:
  assumes "distinct (map (\<lambda>v. (vkey v, vtime v)) (vs @ [v]))" "vkind v \<noteq> ''deleted''" "vtime v \<le> p"
    and newest: "\<forall>x \<in> set vs. vkey x = vkey v \<longrightarrow> vtime x < vtime v"
  shows "r \<in> set (at p (vs @ [v])) \<longleftrightarrow> r = v \<or> vkey r \<noteq> vkey v \<and> r \<in> set (at p vs)"
proof -
  have "distinct (map (\<lambda>v. (vkey v, vtime v)) vs)" using assms(1) by simp
  from at_iff [OF this] at_iff [OF assms(1)] show ?thesis using assms(2-4) by fastforce
qed

lemma at_member: "distinct (map (\<lambda>v. (vkey v, vtime v)) vs) \<Longrightarrow> r \<in> set (at p vs) \<Longrightarrow> r \<in> set vs \<and> vtime r \<le> p"
  by (simp add: at_iff)

lemma at_unique:
  assumes "distinct (map (\<lambda>v. (vkey v, vtime v)) vs)" "r \<in> set (at p vs)" "x \<in> set (at p vs)" "vkey x = vkey r"
  shows "x = r"
proof -
  have "vtime x \<le> vtime r" using assms(2-4) unfolding at_iff [OF assms(1)] by blast
  moreover have "vtime r \<le> vtime x" using assms(2-4) unfolding at_iff [OF assms(1)] by force
  ultimately have "vtime x = vtime r" by (rule antisym)
  moreover have "x \<in> set vs" "r \<in> set vs" using at_member [OF assms(1)] assms(2,3) by blast+
  ultimately show ?thesis using assms(1,4) by (auto simp: distinct_map inj_on_def)
qed

end

lemma latest_versions_iff:
  assumes "distinct (map (\<lambda>v. (vkey v, vtime v)) vs)"
  shows "r \<in> set (latest_versions vkey vtime vkind p vs) \<longleftrightarrow>
      r \<in> set vs \<and> vtime r \<le> p \<and> vkind r \<noteq> ''deleted'' \<and>
      (\<forall>x \<in> set vs. vkey x = vkey r \<and> vtime x \<le> p \<and> vkind x \<noteq> ''deleted'' \<longrightarrow> vtime x \<le> vtime r)"
proof -
  let ?xs = "sort_key (\<lambda>v. - vtime v) (filter (\<lambda>v. vtime v \<le> p \<and> vkind v \<noteq> ''deleted'') vs)"
  have first: "r \<in> set (distinct_on vkey xs) \<longleftrightarrow> r \<in> set xs \<and> (\<forall>x \<in> set xs. vkey x = vkey r \<longrightarrow> vtime x \<le> vtime r)"
    if "sorted (map (\<lambda>v. - vtime v) xs)" "distinct (map (\<lambda>v. (vkey v, vtime v)) xs)" for xs
    using that
  proof (induction xs)
    case (Cons a xs)
    have older: "vtime x \<le> vtime a" if "x \<in> set xs" for x using Cons.prems(1) that by auto
    have "vtime r \<noteq> vtime a" if "r \<in> set xs" "vkey r = vkey a" using Cons.prems(2) that by (force simp: image_iff)
    then show ?case using Cons older by (auto; force)
  qed simp
  have "distinct (map (\<lambda>v. (vkey v, vtime v)) ?xs)" using assms by (auto simp: distinct_map inj_on_def)
  from first [OF _ this] show ?thesis by (auto simp: latest_versions_def)
qed

section \<open>Entity versions\<close>

record entity_version =
  ev_entity_id :: uuid
  ev_as_of :: int
  ev_event_kind :: string
  ev_entity_type :: string
  ev_legal_name :: pystr
  ev_short_name :: "pystr option"
  ev_country_code :: string
  ev_domicile :: "pystr option"
  ev_incorporation_dt :: "int option"
  ev_fiscal_year_end :: "int option"
  ev_status :: string
  ev_parent_entity_id :: "uuid option"
  ev_metadata :: json
  ev_merged_from :: "json option"
  ev_source_id :: string
  ev_ingestion_run_id :: int
  ev_audit :: audit_cols

definition ev_pk :: "entity_version \<Rightarrow> uuid \<times> int" where
  "ev_pk v = (ev_entity_id v, ev_as_of v)"

text \<open>A change of one row of \<open>ref.entity\<close>, as the trigger sees it.\<close>

datatype row_change = Inserted entity | Updated entity entity | Deleted entity

definition version_kind :: "row_change \<Rightarrow> string" where
  "version_kind ch = (case ch of
     Inserted _ \<Rightarrow> ''created''
   | Updated old new \<Rightarrow>
       if en_status new = ''merged'' \<and> en_status old \<noteq> ''merged'' then ''merged''
       else if en_legal_name new \<noteq> en_legal_name old then ''renamed'' else ''updated''
   | Deleted _ \<Rightarrow> ''deleted'')"

definition version_row :: "row_change \<Rightarrow> entity" where
  "version_row ch = (case ch of Inserted e \<Rightarrow> e | Updated _ e \<Rightarrow> e | Deleted e \<Rightarrow> e)"

definition json_field :: "string \<Rightarrow> json \<Rightarrow> json option" where
  "json_field k j = (case j of JObj kvs \<Rightarrow> map_of kvs (lit k) | _ \<Rightarrow> None)"

definition new_version :: "int \<Rightarrow> row_change \<Rightarrow> entity_version" where
  "new_version now ch = (let e = version_row ch in
     \<lparr>ev_entity_id = en_id e, ev_as_of = now, ev_event_kind = version_kind ch, ev_entity_type = en_type e,
      ev_legal_name = en_legal_name e, ev_short_name = en_short_name e, ev_country_code = en_country_code e,
      ev_domicile = en_domicile e, ev_incorporation_dt = en_incorporation_dt e, ev_fiscal_year_end = en_fiscal_year_end e,
      ev_status = en_status e, ev_parent_entity_id = en_parent_entity_id e, ev_metadata = en_metadata e,
      ev_merged_from = json_field ''merged_from_entity_ids'' (en_metadata e), ev_source_id = en_source_id e,
      ev_ingestion_run_id = en_ingestion_run_id e, ev_audit = en_audit e\<rparr>)"

text \<open>\<open>now()\<close> is the start of the transaction; \<open>ON CONFLICT DO NOTHING\<close> keeps the first version of an instant.\<close>

definition capture_entity_version :: "int \<Rightarrow> row_change \<Rightarrow> entity_version list \<Rightarrow> entity_version list" where
  "capture_entity_version now ch vs = sql_insert_dn ev_pk (new_version now ch) vs"

definition entity_at :: "int \<Rightarrow> entity_version list \<Rightarrow> entity_version list" where
  "entity_at = latest_versions ev_entity_id ev_as_of ev_event_kind"

interpretation entity_versions: version_table ev_entity_id ev_as_of ev_event_kind entity_at
  by unfold_locales (simp add: entity_at_def latest_versions_iff)

section \<open>Disclosure versions\<close>

record disclosure_version =
  dv_disclosure_id :: pystr
  dv_as_of :: int
  dv_event_kind :: string
  dv_as_of_provenance :: string
  dv_entity_id :: uuid
  dv_kap_id :: pystr
  dv_published_at :: int
  dv_category_code :: pystr
  dv_subcategory_code :: "pystr option"
  dv_title :: pystr
  dv_language :: string
  dv_kap_url :: pystr
  dv_is_amendment :: bool
  dv_parent_disclosure_id :: "pystr option"
  dv_body_fetched :: bool
  dv_index_fetched_at :: int
  dv_raw_index_storage_key :: pystr
  dv_raw_body_storage_key :: "pystr option"
  dv_body_fetched_at :: "int option"
  dv_raw_body_sha256 :: "pystr option"
  dv_raw_body_bytes :: "int option"
  dv_raw_body_mime :: "pystr option"

definition disclosures_at :: "int \<Rightarrow> disclosure_version list \<Rightarrow> disclosure_version list" where
  "disclosures_at = latest_versions dv_disclosure_id dv_as_of dv_event_kind"

interpretation disclosure_versions: version_table dv_disclosure_id dv_as_of dv_event_kind disclosures_at
  by unfold_locales (simp add: disclosures_at_def latest_versions_iff)

section \<open>Lineage and the route\<close>

record entity_lineage =
  el_id :: int
  el_event_kind :: string
  el_from :: pystr
  el_into :: pystr
  el_event_at :: int
  el_as_of :: int
  el_reason :: "pystr option"
  el_evidence_filing_id :: "uuid option"

definition entity_lineage_at :: "int \<Rightarrow> entity_lineage list \<Rightarrow> entity_lineage list" where
  "entity_lineage_at p t = distinct_on (\<lambda>l. (el_event_kind l, el_from l, el_into l, el_event_at l))
     (sort_key (\<lambda>l. - el_as_of l) (filter (\<lambda>l. el_as_of l \<le> p) t))"

text \<open>\<open>plan\<close> is the order rows of equal \<open>event_at\<close> arrive in.\<close>

definition lineage_rows :: "(entity_lineage list \<Rightarrow> entity_lineage list) \<Rightarrow> int \<Rightarrow> uuid \<Rightarrow> entity_lineage list \<Rightarrow> entity_lineage list" where
  "lineage_rows plan p u t = sort_key el_event_at (plan (filter
     (\<lambda>l. (el_from l = uuid_str u \<or> el_into l = uuid_str u) \<and> el_event_at l \<le> p) (entity_lineage_at p t)))"

text \<open>\<open>str(m)\<close> of JSON values that are no texts is the parameter \<open>str\<close>.\<close>

definition json_text :: "(json \<Rightarrow> pystr) \<Rightarrow> json \<Rightarrow> pystr" where
  "json_text str j = (case j of JStr t \<Rightarrow> t | _ \<Rightarrow> str j)"

definition merged_from_list :: "(json \<Rightarrow> pystr) \<Rightarrow> json option \<Rightarrow> pystr list" where
  "merged_from_list str m = (case m of None \<Rightarrow> [] | Some JNull \<Rightarrow> [] | Some (JArr js) \<Rightarrow> map (json_text str) js | Some j \<Rightarrow> [json_text str j])"

text \<open>A Python \<open>str\<close> never equals a \<open>UUID\<close>: the columns of the lineage table are texts, the id of the row is a UUID.\<close>

definition text_eq_uuid :: "pystr \<Rightarrow> uuid \<Rightarrow> bool" where
  "text_eq_uuid t u \<longleftrightarrow> False"

definition split_from :: "uuid \<Rightarrow> entity_lineage list \<Rightarrow> pystr option" where
  "split_from u ls = (case List.find (\<lambda>l. el_event_kind l = ''split'' \<and> text_eq_uuid (el_into l) u) ls of
     None \<Rightarrow> None | Some l \<Rightarrow> if el_from l = [] then None else Some (el_from l))"

definition lineage_event_json :: "read_env \<Rightarrow> entity_lineage \<Rightarrow> json" where
  "lineage_event_json E l = jobj [(''event_kind'', jlit (el_event_kind l)),
     (''from'', if el_from l = [] then JNull else JStr (el_from l)), (''into'', if el_into l = [] then JNull else JStr (el_into l)),
     (''event_at'', JStr (re_iso E (utc (el_event_at l)))), (''reason'', jopt JStr (el_reason l))]"

definition entity_facts_json :: "(json \<Rightarrow> pystr) \<Rightarrow> read_env \<Rightarrow> entity_version \<Rightarrow> entity_lineage list \<Rightarrow> json" where
  "entity_facts_json str E v ls = jobj
     [(''entity_id'', JStr (uuid_str (ev_entity_id v))), (''canonical_name'', JStr (ev_legal_name v)), (''kind'', jlit (ev_entity_type v)),
      (''country'', jlit (ev_country_code v)), (''merged_from_entity_ids'', JArr (map JStr (merged_from_list str (ev_merged_from v)))),
      (''split_from_entity_id'', jopt JStr (split_from (ev_entity_id v) ls)), (''as_of'', JStr (re_iso E (utc (ev_as_of v)))),
      (''lineage_events'', JArr (map (lineage_event_json E) ls))]"

definition pre_bitemporal :: "string \<Rightarrow> api_error" where
  "pre_bitemporal title = problem 404 ''BITEMPORAL_PRE_BITEMPORAL_REGION'' title []"

definition open_single ::
  "read_env \<Rightarrow> read_clock \<Rightarrow> api_key_principal option \<Rightarrow> feature_flags \<Rightarrow> pystr option \<Rightarrow> (api_error, request_context, read_point) op" where
  "open_single E clk who flags as_of =
     bnd (lift (parse_as_of E (rc_check clk) as_of)) (\<lambda>requested.
       let resolved = (case requested of Some t \<Rightarrow> t | None \<Rightarrow> rc_now clk) in
       thn (modify (\<lambda>c. c\<lparr>rq_api_key_id := map_option ap_key_id who,
           rq_rate_tier := (case who of None \<Rightarrow> ''anonymous'' | Some p \<Rightarrow> ap_rate_tier p),
           rq_as_of_requested := requested, rq_as_of_resolved := Some resolved, rq_flags_active := active_flags flags\<rparr>))
       (ret \<lparr>rp_requested = requested, rp_resolved = resolved, rp_interval = None\<rparr>))"

definition single_envelope :: "read_env \<Rightarrow> json \<Rightarrow> uuid \<Rightarrow> read_point \<Rightarrow> pystr list \<Rightarrow> json" where
  "single_envelope E data rid p active = (case build_envelope E [] rid p None None active of
     JObj kvs \<Rightarrow> JObj (obj_set (lit ''data'') data kvs) | j \<Rightarrow> j)"

record single_response =
  sg_data :: json
  sg_headers :: "(string \<times> pystr) list"

definition close_single ::
  "read_env \<Rightarrow> read_clock \<Rightarrow> feature_flags \<Rightarrow> read_point \<Rightarrow> json \<Rightarrow> (api_error, request_context, single_response) op" where
  "close_single E clk flags p data =
     thn (modify (\<lambda>c. c\<lparr>rq_rows_returned := 1\<rparr>))
     (bnd (gets rq_request_id) (\<lambda>rid.
       ret \<lparr>sg_data = data, sg_headers = set_cache_headers (re_sha_text E) (rc_cache clk) (rp_resolved p)
         (cu_dumps (re_cursor E) (single_envelope E data rid p (active_flags flags)))\<rparr>))"

definition get_entity_route ::
  "(json \<Rightarrow> pystr) \<Rightarrow> (entity_lineage list \<Rightarrow> entity_lineage list) \<Rightarrow> read_env \<Rightarrow> read_clock \<Rightarrow> api_key_principal option \<Rightarrow> feature_flags
     \<Rightarrow> entity_version list \<Rightarrow> entity_lineage list \<Rightarrow> uuid \<Rightarrow> pystr option \<Rightarrow> (api_error, request_context, single_response) op" where
  "get_entity_route str plan E clk who flags vs ls u as_of =
     bnd (open_single E clk who flags as_of) (\<lambda>p.
       case sql_find (\<lambda>v. ev_entity_id v = u) (entity_at (rp_resolved p) vs) of
         None \<Rightarrow> raise (pre_bitemporal ''Entity not found at this as_of'')
       | Some v \<Rightarrow> close_single E clk flags p (entity_facts_json str E v (lineage_rows plan (rp_resolved p) u ls)))"

section \<open>Histories of changes\<close>

text \<open>What a change does to the table, and when it can happen.\<close>

fun apply_change :: "row_change \<Rightarrow> entity list \<Rightarrow> entity list" where
  "apply_change (Inserted e) t = t @ [e]"
| "apply_change (Updated old new) t = sql_update (\<lambda>x. en_id x = en_id old) (\<lambda>_. new) t"
| "apply_change (Deleted e) t = sql_delete (\<lambda>x. en_id x = en_id e) t"

fun can_change :: "row_change \<Rightarrow> entity list \<Rightarrow> bool" where
  "can_change (Inserted e) t \<longleftrightarrow> en_id e \<notin> en_id ` set t"
| "can_change (Updated old new) t \<longleftrightarrow> old \<in> set t \<and> en_id new = en_id old"
| "can_change (Deleted e) t \<longleftrightarrow> e \<in> set t"

text \<open>The table after the changes up to an instant, and the versions the trigger has captured.\<close>

definition table_at :: "int \<Rightarrow> (int \<times> row_change) list \<Rightarrow> entity list" where
  "table_at p cs = fold (\<lambda>(t, ch). apply_change ch) (filter (\<lambda>(t, ch). t \<le> p) cs) []"

definition versions_of :: "(int \<times> row_change) list \<Rightarrow> entity_version list" where
  "versions_of cs = fold (\<lambda>(t, ch). capture_entity_version t ch) cs []"

abbreviation changed :: "row_change \<Rightarrow> uuid" where
  "changed ch \<equiv> en_id (version_row ch)"

definition table_now :: "(int \<times> row_change) list \<Rightarrow> entity list" where
  "table_now cs = fold (\<lambda>(t, ch). apply_change ch) cs []"

text \<open>
  Changes in the order they were applied, each with the start of its transaction and possible in the table it met. The
  transactions that change the same entity started in the order of their changes, and none of them changes it twice;
  about different entities nothing is required. Without this the trigger loses changes (the last lemmas below).
\<close>

inductive recorded :: "(int \<times> row_change) list \<Rightarrow> bool" where
  none: "recorded []"
| more: "recorded cs \<Longrightarrow> \<forall>x \<in> set cs. changed (snd x) = changed ch \<longrightarrow> fst x < t \<Longrightarrow> can_change ch (table_now cs) \<Longrightarrow>
    recorded (cs @ [(t, ch)])"

definition shows_row :: "entity_version \<Rightarrow> entity \<Rightarrow> bool" where
  "shows_row v e \<longleftrightarrow> v\<lparr>ev_event_kind := []\<rparr> = (new_version (ev_as_of v) (Inserted e))\<lparr>ev_event_kind := []\<rparr>"

lemma new_version_fields [simp]:
  "ev_entity_id (new_version t ch) = en_id (version_row ch)" "ev_as_of (new_version t ch) = t" "ev_event_kind (new_version t ch) = version_kind ch"
  "ev_legal_name (new_version t ch) = en_legal_name (version_row ch)"
  by (simp_all add: new_version_def Let_def)

lemma shows_new: "shows_row (new_version t ch) (version_row ch)"
  by (simp add: shows_row_def new_version_def version_row_def Let_def)

lemma shows_row_fields: "shows_row v e \<Longrightarrow> ev_entity_id v = en_id e \<and> ev_legal_name v = en_legal_name e"
  by (cases v) (simp add: shows_row_def new_version_def version_row_def Let_def)

lemma version_kind_deleted: "version_kind ch = ''deleted'' \<longleftrightarrow> (\<exists>e. ch = Deleted e)"
  by (cases ch) (simp_all add: version_kind_def)

lemma versions_snoc:
  "\<forall>v \<in> set (versions_of cs). ev_entity_id v = changed ch \<longrightarrow> ev_as_of v < t \<Longrightarrow> versions_of (cs @ [(t, ch)]) = versions_of cs @ [new_version t ch]"
  by (auto simp: versions_of_def capture_entity_version_def sql_insert_dn_def ev_pk_def)

lemma versions_older:
  "\<forall>v \<in> set vs. \<exists>x \<in> set cs. ev_as_of v = fst x \<and> ev_entity_id v = changed (snd x) \<Longrightarrow>
    \<forall>x \<in> set cs. changed (snd x) = u \<longrightarrow> fst x < t \<Longrightarrow> \<forall>v \<in> set vs. ev_entity_id v = u \<longrightarrow> ev_as_of v < t"
  by metis

lemma recorded_versions:
  assumes "recorded cs"
  shows "(\<forall>v \<in> set (versions_of cs). \<exists>x \<in> set cs. ev_as_of v = fst x \<and> ev_entity_id v = changed (snd x)) \<and>
    distinct (map (\<lambda>v. (ev_entity_id v, ev_as_of v)) (versions_of cs))"
  using assms
proof induction
  case none
  show ?case by (simp add: versions_of_def)
next
  case (more cs ch t)
  have "\<forall>v \<in> set (versions_of cs). ev_entity_id v = changed ch \<longrightarrow> ev_as_of v < t"
    using versions_older [OF conjunct1 [OF more.IH] more.hyps(2)] .
  then show ?case using more.IH by (fastforce simp: versions_snoc)
qed

lemma recorded_before:
  "recorded (cs @ [(t, ch)]) \<Longrightarrow>
    recorded cs \<and> (\<forall>x \<in> set cs. changed (snd x) = changed ch \<longrightarrow> fst x < t) \<and> can_change ch (table_now cs)"
  by (erule recorded.cases) auto

lemma table_at_snoc: "table_at p (cs @ [(t, ch)]) = (if t \<le> p then apply_change ch (table_at p cs) else table_at p cs)"
  by (simp add: table_at_def)

lemma table_now_snoc: "table_now (cs @ [(t, ch)]) = apply_change ch (table_now cs)"
  by (simp add: table_now_def)

text \<open>A change concerns its own entity only, and finds of it what the table has of it.\<close>

lemma apply_change_member:
  "can_change ch T' \<Longrightarrow> x \<in> set (apply_change ch T) \<longleftrightarrow>
    (if en_id x \<noteq> changed ch then x \<in> set T
     else case ch of Inserted e \<Rightarrow> x = e \<or> x \<in> set T | Updated old new \<Rightarrow> x = new \<and> en_id old \<in> en_id ` set T | Deleted e \<Rightarrow> False)"
  by (cases ch) (auto simp: version_row_def sql_update_def sql_delete_def image_iff; metis)+

lemma table_at_current:
  "recorded cs \<Longrightarrow> \<forall>x \<in> set cs. changed (snd x) = u \<longrightarrow> fst x \<le> p \<Longrightarrow> {x \<in> set (table_at p cs). en_id x = u} = {x \<in> set (table_now cs). en_id x = u}"
proof (induction rule: recorded.induct)
  case none
  show ?case by (simp add: table_at_def table_now_def)
next
  case (more cs ch t)
  then have IH: "{x \<in> set (table_at p cs). en_id x = u} = {x \<in> set (table_now cs). en_id x = u}" by simp
  show ?case
  proof (cases "changed ch = u")
    case False
    then show ?thesis using IH apply_change_member [OF more.hyps(3)] by (auto simp: table_at_snoc table_now_snoc)
  next
    case True
    then have t: "t \<le> p" using more.prems by simp
    have ids: "u \<in> en_id ` set T \<longleftrightarrow> (\<exists>x. x \<in> {x \<in> set T. en_id x = u})" for T by auto
    have same: "u \<in> en_id ` set (table_at p cs) \<longleftrightarrow> u \<in> en_id ` set (table_now cs)" using IH ids by blast
    have in_both: "x \<in> set (table_at p cs) \<longleftrightarrow> x \<in> set (table_now cs)" if "en_id x = u" for x using IH that by blast
    have "x \<in> set (apply_change ch (table_at p cs)) \<longleftrightarrow> x \<in> set (apply_change ch (table_now cs))" if x: "en_id x = u" for x
      unfolding apply_change_member [OF more.hyps(3)] using same in_both [OF x] True more.hyps(3)
      by (cases ch) (auto simp: version_row_def)
    then show ?thesis using t by (auto simp: table_at_snoc table_now_snoc)
  qed
qed

lemma table_at_settled:
  assumes "recorded cs" "\<forall>x \<in> set cs. changed (snd x) = en_id e \<longrightarrow> fst x < t" "t \<le> p"
  shows "e \<in> set (table_at p cs) \<longleftrightarrow> e \<in> set (table_now cs)"
proof -
  have "\<forall>x \<in> set cs. changed (snd x) = en_id e \<longrightarrow> fst x \<le> p" using assms(2,3) by fastforce
  from table_at_current [OF assms(1) this] show ?thesis by blast
qed

text \<open>Every entity the table holds at an instant is shown by the read at that instant.\<close>

lemma entity_at_shows:
  "recorded cs \<Longrightarrow> e \<in> set (table_at p cs) \<Longrightarrow> \<exists>v \<in> set (entity_at p (versions_of cs)). shows_row v e"
proof (induction arbitrary: e rule: recorded.induct)
  case none
  then show ?case by (simp add: table_at_def)
next
  case (more cs ch t)
  let ?vs = "versions_of cs"
  have older: "\<forall>v \<in> set ?vs. ev_entity_id v = changed ch \<longrightarrow> ev_as_of v < t" using versions_older [OF conjunct1 [OF recorded_versions [OF more.hyps(1)]] more.hyps(2)] .
  have vs: "versions_of (cs @ [(t, ch)]) = ?vs @ [new_version t ch]" by (rule versions_snoc [OF older])
  have pk: "distinct (map (\<lambda>v. (ev_entity_id v, ev_as_of v)) (?vs @ [new_version t ch]))"
    using recorded_versions [OF recorded.more [OF more.hyps]] by (simp add: vs)
  show ?case
  proof (cases "t \<le> p")
    case False
    then show ?thesis
      using more.IH [of e] more.prems entity_versions.newer_unseen_before [OF pk, of p] by (simp add: table_at_snoc vs)
  next
    case True
    have e: "e = version_row ch \<and> (\<forall>x. ch \<noteq> Deleted x) \<or> en_id e \<noteq> changed ch \<and> e \<in> set (table_at p cs)"
    proof (cases "en_id e = changed ch")
      case same: True
      have "e \<notin> set (table_at p cs)" if "ch = Inserted x" for x
      proof -
        have "e \<notin> set (table_now cs)" using more.hyps(3) same that imageI [of e _ en_id] by (fastforce simp: version_row_def)
        then show ?thesis using table_at_settled [OF more.hyps(1) _ True, of e] more.hyps(2) same by simp
      qed
      then show ?thesis
        using more.prems True same apply_change_member [OF more.hyps(3), of e "table_at p cs"]
        by (cases ch) (auto simp: table_at_snoc version_row_def)
    next
      case False
      then show ?thesis
        using more.prems True apply_change_member [OF more.hyps(3), of e "table_at p cs"] by (simp add: table_at_snoc)
    qed
    show ?thesis
    proof (cases "\<exists>x. ch = Deleted x")
      case gone: True
      then have "set (entity_at p (?vs @ [new_version t ch])) = set (entity_at p ?vs)"
        by (intro entity_versions.deletion_unseen [OF pk]) (auto simp: version_kind_def)
      then show ?thesis using e gone more.IH [of e] by (auto simp: vs)
    next
      case False
      have seen: "r \<in> set (entity_at p (?vs @ [new_version t ch])) \<longleftrightarrow>
          r = new_version t ch \<or> ev_entity_id r \<noteq> ev_entity_id (new_version t ch) \<and> r \<in> set (entity_at p ?vs)" for r
        by (rule entity_versions.newer_seen [OF pk]) (use False True older version_kind_deleted in auto)
      show ?thesis
        using e
      proof
        assume "e = version_row ch \<and> (\<forall>x. ch \<noteq> Deleted x)"
        then show ?thesis unfolding vs using seen shows_new by blast
      next
        assume other: "en_id e \<noteq> changed ch \<and> e \<in> set (table_at p cs)"
        then obtain v where "v \<in> set (entity_at p ?vs)" "shows_row v e" using more.IH by blast
        then show ?thesis unfolding vs using seen [of v] shows_row_fields [of v e] other by auto
      qed
    qed
  qed
qed

section \<open>What the route answers\<close>

lemma open_single_run:
  "parse_as_of E (rc_check clk) as_of = Inr (Some p) \<Longrightarrow>
     \<exists>c'. open_single E clk who flags as_of c = (Inr \<lparr>rp_requested = Some p, rp_resolved = p, rp_interval = None\<rparr>, c')"
  by (simp add: open_single_def lift_def thn_def bnd_def modify_def ret_def)

lemma get_entity_found:
  assumes "parse_as_of E (rc_check clk) as_of = Inr (Some p)" "sql_find (\<lambda>v. ev_entity_id v = u) (entity_at p vs) = Some v"
  shows "\<exists>resp c'. get_entity_route str plan E clk who flags vs ls u as_of c = (Inr resp, c') \<and>
    sg_data resp = entity_facts_json str E v (lineage_rows plan p u ls)"
proof -
  obtain c' where "open_single E clk who flags as_of c = (Inr \<lparr>rp_requested = Some p, rp_resolved = p, rp_interval = None\<rparr>, c')"
    using open_single_run [OF assms(1)] by blast
  then show ?thesis
    using assms(2) by (simp add: get_entity_route_def bnd_def close_single_def thn_def modify_def gets_def ret_def)
qed

lemma entity_at_find:
  assumes "recorded cs" "v \<in> set (entity_at p (versions_of cs))"
  shows "sql_find (\<lambda>x. ev_entity_id x = ev_entity_id v) (entity_at p (versions_of cs)) = Some v"
proof (cases "sql_find (\<lambda>x. ev_entity_id x = ev_entity_id v) (entity_at p (versions_of cs))")
  case None
  then show ?thesis using assms(2) by (auto simp: sql_find_None_iff)
next
  case (Some x)
  then have "x = v"
    using sql_find_Some_iff [OF Some] entity_versions.at_unique [OF conjunct2 [OF recorded_versions [OF assms(1)]] assms(2)] by blast
  with Some show ?thesis by simp
qed

section \<open>A table with one entity\<close>

definition sample_entity_row :: "string \<Rightarrow> entity" where
  "sample_entity_row name = \<lparr>en_id = 7, en_type = ''company'', en_legal_name = lit name, en_short_name = None, en_country_code = ''TR'',
     en_domicile = None, en_incorporation_dt = None, en_fiscal_year_end = None, en_status = ''active'', en_parent_entity_id = None,
     en_metadata = JObj [], en_source_id = ''kap'', en_ingestion_run_id = 1, en_created_at = 1, en_updated_at = 1,
     en_audit = audit_cols_of None\<rparr>"

lemma sample_recorded: "recorded [(1, Inserted (sample_entity_row ''A''))]"
  using recorded.more [OF recorded.none, of "Inserted (sample_entity_row ''A'')" 1] by (simp add: table_now_def)

lemma sample_deletion: "recorded ([(1, Inserted (sample_entity_row ''A''))] @ [(3, Deleted (sample_entity_row ''A''))])"
  by (rule recorded.more [OF sample_recorded]) (simp_all add: table_now_def)

lemma sample_as_of: "parse_as_of sample_read_env (rc_check sample_read_clock) (Some (lit ''T'')) = Inr (Some 5)"
  by (simp add: parse_as_of_def sample_read_env_def sample_read_clock_def utc_def as_utc_def CLOCK_SKEW_TOLERANCE_def SECOND_def)

section \<open>The theorems\<close>





text \<open>The trigger stamps a version with the start of the transaction and drops the second version of an instant:
  of an entity that is inserted and updated in one transaction the history keeps the row before the update, and the read
  never shows the row the table has.\<close>

lemma second_change_of_transaction_lost:
  assumes "recorded cs" and "en_id e \<notin> ev_entity_id ` set (versions_of cs)" and "en_id e' = en_id e"
    and "en_legal_name e' \<noteq> en_legal_name e" and "t \<le> p"
  shows "\<exists>v. sql_find (\<lambda>x. ev_entity_id x = en_id e)
      (entity_at p (capture_entity_version t (Updated e e') (capture_entity_version t (Inserted e) (versions_of cs)))) = Some v \<and>
    shows_row v e \<and> \<not> shows_row v e'"
proof -
  let ?vs = "versions_of cs" and ?v = "new_version t (Inserted e)"
  have vs: "capture_entity_version t (Updated e e') (capture_entity_version t (Inserted e) ?vs) = ?vs @ [?v]"
    using assms(2,3) by (auto simp: capture_entity_version_def sql_insert_dn_def ev_pk_def version_row_def image_iff)
  have pk: "distinct (map (\<lambda>v. (ev_entity_id v, ev_as_of v)) (?vs @ [?v]))"
    using assms(2) conjunct2 [OF recorded_versions [OF assms(1)]] by (auto simp: version_row_def image_iff)
  have "\<forall>x \<in> set ?vs. ev_entity_id x = ev_entity_id ?v \<longrightarrow> ev_as_of x < ev_as_of ?v"
    using assms(2) by (auto simp: version_row_def image_iff)
  then have seen: "?v \<in> set (entity_at p (?vs @ [?v]))"
    using entity_versions.newer_seen [OF pk _ _ , of p ?v] assms(5) by (simp add: version_kind_def)
  have find: "sql_find (\<lambda>x. ev_entity_id x = en_id e) (entity_at p (?vs @ [?v])) = Some ?v"
  proof (cases "sql_find (\<lambda>x. ev_entity_id x = en_id e) (entity_at p (?vs @ [?v]))")
    case None
    then show ?thesis using seen by (auto simp: sql_find_None_iff version_row_def)
  next
    case (Some x)
    then have "x = ?v"
      using sql_find_Some_iff [OF Some] entity_versions.at_unique [OF pk seen] by (auto simp: version_row_def)
    with Some show ?thesis by simp
  qed
  have "shows_row ?v e" using shows_new [of t "Inserted e"] by (simp add: version_row_def)
  moreover have "\<not> shows_row ?v e'" using shows_row_fields [of ?v e'] assms(4) by (auto simp: version_row_def)
  ultimately show ?thesis using find unfolding vs by blast
qed

lemma second_change_of_transaction_lost_witness:
  "\<exists>v. sql_find (\<lambda>x. ev_entity_id x = en_id (sample_entity_row ''A''))
      (entity_at 5 (capture_entity_version 1 (Updated (sample_entity_row ''A'') (sample_entity_row ''B''))
        (capture_entity_version 1 (Inserted (sample_entity_row ''A'')) (versions_of [])))) = Some v \<and>
    shows_row v (sample_entity_row ''A'') \<and> \<not> shows_row v (sample_entity_row ''B'')"
  by (rule second_change_of_transaction_lost [OF recorded.none]) (simp_all add: versions_of_def sample_entity_row_def)

text \<open>Nor does it see a change by a transaction that started before the one that inserted the entity and updated it
  after that one had committed: its version is older than the one it replaces.\<close>

lemma change_of_older_transaction_lost:
  assumes "recorded cs" and "en_id e \<notin> ev_entity_id ` set (versions_of cs)" and "en_id e' = en_id e"
    and "en_legal_name e' \<noteq> en_legal_name e" and "t < s" "s \<le> p"
  shows "\<exists>v. sql_find (\<lambda>x. ev_entity_id x = en_id e)
      (entity_at p (capture_entity_version t (Updated e e') (capture_entity_version s (Inserted e) (versions_of cs)))) = Some v \<and>
    shows_row v e \<and> \<not> shows_row v e'"
proof -
  let ?vs = "versions_of cs" and ?v = "new_version s (Inserted e)" and ?w = "new_version t (Updated e e')"
  have vs: "capture_entity_version t (Updated e e') (capture_entity_version s (Inserted e) ?vs) = ?vs @ [?v, ?w]"
    using assms(2,3,5) by (auto simp: capture_entity_version_def sql_insert_dn_def ev_pk_def version_row_def image_iff)
  have pk: "distinct (map (\<lambda>v. (ev_entity_id v, ev_as_of v)) (?vs @ [?v, ?w]))"
    using assms(2,3,5) conjunct2 [OF recorded_versions [OF assms(1)]] by (auto simp: version_row_def image_iff)
  have "ev_as_of x \<le> s" if "x \<in> set (?vs @ [?v, ?w])" "ev_entity_id x = en_id e" for x
    using that assms(2,5) by (auto simp: image_iff)
  then have seen: "?v \<in> set (entity_at p (?vs @ [?v, ?w]))"
    unfolding entity_versions.at_iff [OF pk] using assms(5,6) by (auto simp: version_kind_def version_row_def)
  have find: "sql_find (\<lambda>x. ev_entity_id x = en_id e) (entity_at p (?vs @ [?v, ?w])) = Some ?v"
  proof (cases "sql_find (\<lambda>x. ev_entity_id x = en_id e) (entity_at p (?vs @ [?v, ?w]))")
    case None
    then show ?thesis using seen by (auto simp: sql_find_None_iff version_row_def)
  next
    case (Some x)
    then have "x = ?v"
      using sql_find_Some_iff [OF Some] entity_versions.at_unique [OF pk seen] by (auto simp: version_row_def)
    with Some show ?thesis by simp
  qed
  have "shows_row ?v e" using shows_new [of s "Inserted e"] by (simp add: version_row_def)
  moreover have "\<not> shows_row ?v e'" using shows_row_fields [of ?v e'] assms(4) by (auto simp: version_row_def)
  ultimately show ?thesis using find unfolding vs by blast
qed

end
