(* ===== verification/Cli_Ts.thy ===== *)
theory Cli_Ts
  imports Ingestion_Run Ts_Series Research_Read
begin

text \<open>
  The commands \<open>aslan ts\<close> (\<open>cli/ts.py\<close>) and the group they hang on (\<open>cli/main.py\<close>): the reading of a CSV file of
  observations, the bulk write inside an ingestion run, series upserts, and the reads. The reader of CSV text,
  \<open>float\<close>, \<open>datetime.fromisoformat\<close> and \<open>json.loads\<close> are parameters; what the commands print is their value.
\<close>

section \<open>Command lines\<close>

text \<open>\<open>click.BadParameter\<close>, \<open>click.ClickException\<close>, and exceptions the commands let through.\<close>

datatype cli_error = BadParameter | ClickException | Raised error

record cli_env =
  cl_close :: int
  cl_traceback :: "cli_error \<Rightarrow> pystr"
  cl_series :: series_writer
  cl_writer :: observation_writer
  cl_fromiso :: "pystr \<Rightarrow> datetime option"
  cl_loads :: "pystr \<Rightarrow> json option"
  cl_float :: "pystr \<Rightarrow> 64 word option"
  cl_subject_order :: "(string \<times> string) list \<Rightarrow> (string \<times> string) list"
  cl_series_order :: "series_catalog list \<Rightarrow> series_catalog list"
  cl_group_order :: "(string \<times> string) list \<Rightarrow> (string \<times> string) list"

definition raising :: "(error, 's, 'a) op \<Rightarrow> (cli_error, 's, 'a) op" where
  "raising m = (\<lambda>s. case m s of (Inl e, s') \<Rightarrow> (Inl (Raised e), s') | (Inr x, s') \<Rightarrow> (Inr x, s'))"

text \<open>The top-level group sets the actor of everything a command does.\<close>

definition cli_actor_id :: "string option \<Rightarrow> string \<Rightarrow> string \<Rightarrow> string" where
  "cli_actor_id given user host = (case given of None \<Rightarrow> ''cli:'' @ user @ ''@'' @ host | Some i \<Rightarrow> i)"

definition cli_ctx :: "ctx \<Rightarrow> string option \<Rightarrow> string \<Rightarrow> string \<Rightarrow> cli_error + ctx" where
  "cli_ctx c given user host = (let i = cli_actor_id given user host in
     if i = [] then Inl (Raised (PyE ValueError))
     else Inr (c\<lparr>ctx_actor := Some \<lparr>actor_id = i, actor_kind = User, client_ip = None, user_agent = None, request_id = None,
       actor_metadata = []\<rparr>\<rparr>))"

definition parse_iso_tzaware :: "cli_env \<Rightarrow> pystr \<Rightarrow> cli_error + datetime" where
  "parse_iso_tzaware E v =
     (case cl_fromiso E (if v \<noteq> [] \<and> last v = of_char CHR ''Z'' then replace_z v else v) of
        None \<Rightarrow> Inl (Raised (PyE ValueError))
      | Some d \<Rightarrow> if utcoffset d = None then Inl BadParameter else Inr d)"

definition parse_subject :: "string \<Rightarrow> cli_error + string \<times> string" where
  "parse_subject arg =
     (if CHR '':'' \<notin> set arg then Inl BadParameter
      else let subject_id = takeWhile (\<lambda>x. x \<noteq> CHR '':'') arg; role = tl (dropWhile (\<lambda>x. x \<noteq> CHR '':'') arg) in
        if subject_id = [] \<or> role = [] then Inl BadParameter
        else if role \<notin> set SUBJECT_ROLES then Inl BadParameter
        else map_sum Raised id (mk_subject_ref subject_id role))"

section \<open>A session inside an ingestion run\<close>

text \<open>
  \<open>async with (ingestion_run(..) as run, session_scope(..) as s)\<close>: the run has a connection of its own; \<open>body\<close> is what
  the session does, with the calls it makes on the handle once its statements have run. The session commits before the
  run is closed, and is rolled back when a call on the handle raises. The closing statements of the run are taken to
  succeed; \<open>ingestion_run_scope\<close> has the case that they do not. The one counter the commands use is the number of rows
  of a file, far below the bound of its column.
\<close>

definition with_run ::
  "cli_env \<Rightarrow> ctx \<Rightarrow> string \<Rightarrow> string \<Rightarrow> (run_handle \<Rightarrow> (cli_error, db, 'a \<times> handle_call list) op) \<Rightarrow> (cli_error, db, 'a) op" where
  "with_run E c sid job body =
     (let c' = c\<lparr>ctx_now := cl_close E\<rparr> in
      thn (raising (assert_actor_or_strict_raise c))
      (bnd (raising (run_tx (open_run c sid job None None))) (\<lambda>h0 d1.
         case (case body h0 d1 of
                 (Inl e, _) \<Rightarrow> (Inl e, h0, d1, d1)
               | (Inr (x, calls), d2) \<Rightarrow>
                   (case run_body c' calls h0 d2 of
                      (None, h, d3) \<Rightarrow> (Inr x, h, d2, d3)
                    | (Some e, _) \<Rightarrow> (case run_body c' calls h0 d1 of (_, h, d3) \<Rightarrow> (Inl (Raised e), h, d1, d3))))
         of (res, h, committed, d3) \<Rightarrow>
           (case close_run (\<lambda>_. True) c' h (case res of Inl _ \<Rightarrow> Failed | Inr _ \<Rightarrow> Succeeded)
                   (case res of Inl e \<Rightarrow> Some (truncate_tb 4000 (cl_traceback E e)) | Inr _ \<Rightarrow> None) d3 of
              (Inl e, _) \<Rightarrow> (Inl (Raised e), committed)
            | (Inr _, d4) \<Rightarrow> (res, d4)))))"

section \<open>aslan ts series\<close>

text \<open>\<open>click.Choice\<close> bounds frequency and basis; \<open>A\<close> holds the options that are passed on as they are.\<close>

definition parse_metadata :: "cli_env \<Rightarrow> pystr option \<Rightarrow> cli_error + dict option" where
  "parse_metadata E text = (case text of
     None \<Rightarrow> Inr None
   | Some t \<Rightarrow> (case cl_loads E t of Some (JObj kvs) \<Rightarrow> Inr (Some kvs) | _ \<Rightarrow> Inl BadParameter))"

fun first_or_all :: "('e + 'a) list \<Rightarrow> 'e + 'a list" where
  "first_or_all [] = Inr []"
| "first_or_all (r # rs) = (case r of Inl e \<Rightarrow> Inl e | Inr x \<Rightarrow> map_sum id (\<lambda>xs. x # xs) (first_or_all rs))"

definition upsert_series_impl :: "cli_env \<Rightarrow> ctx \<Rightarrow> series_args \<Rightarrow> (cli_error, db, series_result) op" where
  "upsert_series_impl E c A = with_run E c (sa_source_id A) ''cli.ts.series_upsert'' (\<lambda>h.
     run_tx (bnd (raising (upsert_series ((cl_series E)\<lparr>sw_run_id := h_id h\<rparr>) c A)) (\<lambda>r. ret (r, []))))"

definition upsert_cmd ::
  "cli_env \<Rightarrow> ctx \<Rightarrow> series_args \<Rightarrow> pystr option \<Rightarrow> pystr option \<Rightarrow> string list \<Rightarrow> (cli_error, db, series_result) op" where
  "upsert_cmd E c A entity_text metadata_text subjects_raw =
     (if sa_frequency A \<notin> set FREQUENCIES \<or> sa_restatement_basis A \<notin> set RESTATEMENT_BASES then raise BadParameter
      else bnd (lift (case entity_text of
             None \<Rightarrow> Inr None
           | Some t \<Rightarrow> if t = [] then Inr None
               else (case uuid_parse t of None \<Rightarrow> Inl (Raised (PyE ValueError)) | Some u \<Rightarrow> Inr (Some u)))) (\<lambda>entity_id.
           bnd (lift (parse_metadata E metadata_text)) (\<lambda>metadata.
           bnd (lift (first_or_all (map parse_subject subjects_raw))) (\<lambda>subj.
           upsert_series_impl E c (A\<lparr>sa_entity_id := entity_id, sa_metadata := metadata, sa_subjects := subj\<rparr>)))))"

definition get_cmd :: "cli_env \<Rightarrow> pystr \<Rightarrow> (cli_error, db, series_out option) op" where
  "get_cmd E code = raising (run_tx (get_series (cl_subject_order E) code))"

definition list_cmd :: "cli_env \<Rightarrow> string option \<Rightarrow> string option \<Rightarrow> int \<Rightarrow> (cli_error, db, series_catalog list) op" where
  "list_cmd E source_id metric limit =
     bnd (gets (\<lambda>d. cl_series_order E (filter (\<lambda>r. (source_id = None \<or> source_id = Some (sr_source_id r)) \<and>
            (metric = None \<or> metric = Some (sr_metric r))) (series d)))) (\<lambda>rows.
     if limit < 0 then raise (Raised (ServiceE SQLAlchemyError)) else ret (take (nat limit) rows))"

definition stats_cmd :: "cli_env \<Rightarrow> string option \<Rightarrow> (cli_error, db, ((string \<times> string) \<times> nat) list) op" where
  "stats_cmd E source_id = gets (\<lambda>d.
     let keys = map (\<lambda>r. (sr_source_id r, sr_frequency r))
                  (filter (\<lambda>r. source_id = None \<or> source_id = Some (sr_source_id r)) (series d))
     in map (\<lambda>k. (k, length (filter (\<lambda>x. x = k) keys))) (cl_group_order E (remdups keys)))"

section \<open>aslan ts observation\<close>

text \<open>
  \<open>csv.DictReader\<close> over the lines \<open>csv.reader\<close> gives: the first line names the columns, empty lines are skipped, of equal
  names the last counts, and a missing field is \<open>None\<close>.
\<close>

definition csv_field :: "pystr list \<Rightarrow> pystr list \<Rightarrow> string \<Rightarrow> pystr" where
  "csv_field hdr line k =
     (case map_of (rev (zip hdr (map Some line @ replicate (length hdr - length line) None))) (lit k) of
        Some (Some v) \<Rightarrow> strip v | _ \<Rightarrow> [])"

definition csv_rows :: "pystr list list \<Rightarrow> pystr list list" where
  "csv_rows lines = filter (\<lambda>l. l \<noteq> []) (tl lines)"

definition csv_value :: "cli_env \<Rightarrow> pystr \<Rightarrow> pystr \<Rightarrow> cli_error + 64 word option \<times> pystr option" where
  "csv_value E value_raw value_text_raw =
     (if value_raw \<noteq> [] \<and> value_text_raw \<noteq> [] then Inl BadParameter
      else if value_raw \<noteq> [] then
        (case cl_float E value_raw of None \<Rightarrow> Inl BadParameter | Some v \<Rightarrow> Inr (Some v, None))
      else if value_text_raw \<noteq> [] then Inr (None, Some value_text_raw)
      else Inl BadParameter)"

definition csv_quality :: "pystr \<Rightarrow> cli_error + int" where
  "csv_quality qf_raw = (if qf_raw = [] then Inr 0
     else case py_int qf_raw of None \<Rightarrow> Inl (Raised (PyE ValueError)) | Some q \<Rightarrow> Inr q)"

definition csv_metadata :: "cli_env \<Rightarrow> pystr \<Rightarrow> cli_error + dict" where
  "csv_metadata E meta_raw = (if meta_raw = [] then Inr []
     else case cl_loads E meta_raw of Some (JObj kvs) \<Rightarrow> Inr kvs | _ \<Rightarrow> Inl BadParameter)"

definition csv_observation :: "cli_env \<Rightarrow> pystr list \<Rightarrow> pystr list \<Rightarrow> cli_error + observation_in" where
  "csv_observation E hdr line =
     (let f = csv_field hdr line in
      if f ''ts'' = [] then Inl BadParameter
      else if f ''as_of'' = [] then Inl BadParameter
      else case parse_iso_tzaware E (f ''ts'') of Inl e \<Rightarrow> Inl e | Inr ts \<Rightarrow>
      (case parse_iso_tzaware E (f ''as_of'') of Inl e \<Rightarrow> Inl e | Inr as_of \<Rightarrow>
      (case csv_value E (f ''value'') (f ''value_text'') of Inl e \<Rightarrow> Inl e | Inr (v, t) \<Rightarrow>
      (case csv_quality (f ''quality_flag'') of Inl e \<Rightarrow> Inl e | Inr q \<Rightarrow>
      (case csv_metadata E (f ''metadata'') of Inl e \<Rightarrow> Inl e | Inr md \<Rightarrow>
       map_sum Raised id (mk_observation_in ts as_of v t q md))))))"

definition read_csv_observations :: "cli_env \<Rightarrow> pystr list list \<Rightarrow> cli_error + observation_in list" where
  "read_csv_observations E lines =
     (if lines = [] then Inl BadParameter else first_or_all (map (csv_observation E (hd lines)) (csv_rows lines)))"

text \<open>The command turns two of the writer's errors into a message.\<close>

definition clicked :: "(error, 's, 'a) op \<Rightarrow> (cli_error, 's, 'a) op" where
  "clicked m = (\<lambda>s. case m s of
     (Inl e, s') \<Rightarrow> (Inl (case e of
          ObservationE ObservationValidationError \<Rightarrow> ClickException
        | ObservationE (ObservationConflict _ _ _) \<Rightarrow> ClickException
        | _ \<Rightarrow> Raised e), s')
   | (Inr x, s') \<Rightarrow> (Inr x, s'))"

definition observation_write_impl :: "cli_env \<Rightarrow> ctx \<Rightarrow> pystr \<Rightarrow> observation_in list \<Rightarrow> (cli_error, db, write_count) op" where
  "observation_write_impl E c code obs =
     bnd (raising (find_series code)) (\<lambda>row. case row of
       None \<Rightarrow> raise (Raised (ObservationE SeriesNotFound))
     | Some r \<Rightarrow> with_run E c (sr_source_id r) ''cli.ts.observation_write'' (\<lambda>h.
         run_tx (bnd (clicked (write_obs ((cl_writer E)\<lparr>ow_run_id := h_id h\<rparr>) c (sr_id r) obs)) (\<lambda>n.
           ret (n, [IncrementRows (int (wc_attempted n))])))))"

definition write_cmd :: "cli_env \<Rightarrow> ctx \<Rightarrow> pystr \<Rightarrow> pystr list list \<Rightarrow> (cli_error, db, write_count) op" where
  "write_cmd E c code lines = bnd (lift (read_csv_observations E lines)) (observation_write_impl E c code)"

definition series_by_code :: "pystr \<Rightarrow> (cli_error, db, int) op" where
  "series_by_code code = bnd (raising (find_series code)) (\<lambda>row. case row of
     None \<Rightarrow> raise (Raised (ObservationE SeriesNotFound)) | Some r \<Rightarrow> ret (sr_id r))"

definition parse_optional_as_of :: "cli_env \<Rightarrow> pystr option \<Rightarrow> cli_error + int option" where
  "parse_optional_as_of E text = (case text of
     None \<Rightarrow> Inr None | Some t \<Rightarrow> if t = [] then Inr None else map_sum id (\<lambda>d. Some (instant d)) (parse_iso_tzaware E t))"

definition latest_cmd :: "cli_env \<Rightarrow> pystr \<Rightarrow> pystr option \<Rightarrow> (cli_error, db, observation_out option) op" where
  "latest_cmd E code as_of_text =
     bnd (lift (parse_optional_as_of E as_of_text)) (\<lambda>pit.
     bnd (series_by_code code) (\<lambda>sid. raising (latest sid pit)))"

definition range_cmd ::
  "cli_env \<Rightarrow> pystr \<Rightarrow> pystr \<Rightarrow> pystr \<Rightarrow> pystr option \<Rightarrow> int option \<Rightarrow> (cli_error, db, observation_out list) op" where
  "range_cmd E code start_text end_text as_of_text lim =
     bnd (lift (parse_iso_tzaware E start_text)) (\<lambda>s.
     bnd (lift (parse_iso_tzaware E end_text)) (\<lambda>e.
     bnd (lift (parse_optional_as_of E as_of_text)) (\<lambda>pit.
     bnd (series_by_code code) (\<lambda>sid. raising (range_obs sid (instant s) (instant e) pit lim)))))"

section \<open>What a run around a session leaves\<close>

lemma cli_ctx_actor: "cli_ctx c given user host = Inr c' \<Longrightarrow> \<not> (ctx_actor c' = None \<and> ctx_strict c')"
  by (auto simp: cli_ctx_def Let_def split: if_splits)

lemma raising_Inr: "raising m s = (Inr x, s') \<longleftrightarrow> m s = (Inr x, s')"
  by (auto simp: raising_def split: sum.splits prod.splits)

lemma clicked_Inr: "clicked m s = (Inr x, s') \<longleftrightarrow> m s = (Inr x, s')"
  by (auto simp: clicked_def split: sum.splits prod.splits)

lemma raising_gets [simp]: "raising (gets f) = gets f"
  by (simp add: raising_def gets_def)

text \<open>The run row as it is opened, and the database the session starts from.\<close>

definition opened :: "ctx \<Rightarrow> string \<Rightarrow> string \<Rightarrow> db \<Rightarrow> audit_log \<Rightarrow> db" where
  "opened c sid job d l = d\<lparr>runs := runs d @ [new_run c (run_seq d) sid job None (JObj [])], run_seq := run_seq d + 1, audit_events := l\<rparr>"

lemma opened_fields [simp]:
  "runs (opened c sid job d l) = runs d @ [new_run c (run_seq d) sid job None (JObj [])]" "run_seq (opened c sid job d l) = run_seq d + 1"
  "audit_events (opened c sid job d l) = l" "observations (opened c sid job d l) = observations d" "series (opened c sid job d l) = series d"
  "batch_keys (opened c sid job d l) = batch_keys d" "sources (opened c sid job d l) = sources d" "subjects (opened c sid job d l) = subjects d"
  by (simp_all add: opened_def)

lemma with_run_opens:
  assumes "\<not> (ctx_actor c = None \<and> ctx_strict c)" "sid \<in> set (sources d)"
  shows "\<exists>l. raising (run_tx (open_run c sid job None None)) d = (Inr (new_handle c (run_seq d) sid job), opened c sid job d l)"
  using open_run_ok [OF assms, of job None None] by (auto simp: opened_def raising_Inr)

lemma close_new_run:
  assumes "runs_ok d" and "h_id h = run_seq d"
  shows "sql_update (\<lambda>r. run_id r = h_id h) f (runs d @ [new_run c (run_seq d) sid job None md]) =
    runs d @ [f (new_run c (run_seq d) sid job None md)]"
proof -
  have "sql_update (\<lambda>r. run_id r = h_id h) f (runs d) = runs d"
    using assms unfolding runs_ok_def sql_update_def by (intro map_idI) fastforce
  then show ?thesis using assms(2) by (simp add: sql_update_def new_run_def)
qed

definition closed_new :: "cli_env \<Rightarrow> ctx \<Rightarrow> string \<Rightarrow> string \<Rightarrow> db \<Rightarrow> run_handle \<Rightarrow> run_status \<Rightarrow> pystr option \<Rightarrow> ingestion_run" where
  "closed_new E c sid job d h status err = closed_row (cl_close E) h status err (new_run c (run_seq d) sid job None (JObj []))"

lemma with_run_outcome:
  assumes "\<not> (ctx_actor c = None \<and> ctx_strict c)" "sid \<in> set (sources d)" "runs_ok d"
    and frame: "\<And>l x calls d2. body (new_handle c (run_seq d) sid job) (opened c sid job d l) = (Inr (x, calls), d2) \<Longrightarrow>
      runs d2 = runs (opened c sid job d l)"
  shows "\<exists>l. (\<exists>e d2 l2. body (new_handle c (run_seq d) sid job) (opened c sid job d l) = (Inl e, d2) \<and>
      with_run E c sid job body d = (Inl e, (opened c sid job d l2)\<lparr>runs := runs d @
        [closed_new E c sid job d (new_handle c (run_seq d) sid job) Failed (Some (truncate_tb 4000 (cl_traceback E e)))]\<rparr>)) \<or>
    (\<exists>x calls d2 h l2. body (new_handle c (run_seq d) sid job) (opened c sid job d l) = (Inr (x, calls), d2) \<and> h_rows h = rows_of calls \<and>
      with_run E c sid job body d = (Inr x, d2\<lparr>runs := runs d @ [closed_new E c sid job d h Succeeded None], audit_events := l2\<rparr>))"
proof -
  let ?h = "new_handle c (run_seq d) sid job" and ?c' = "c\<lparr>ctx_now := cl_close E\<rparr>"
  have actor: "\<not> (ctx_actor ?c' = None \<and> ctx_strict ?c')" using assms(1) by simp
  obtain l where o: "raising (run_tx (open_run c sid job None None)) d = (Inr ?h, opened c sid job d l)"
    using with_run_opens [OF assms(1,2)] by blast
  have start: "raising (assert_actor_or_strict_raise c) d = (Inr (), d)" using assms(1) by (auto simp: assert_actor_cases raising_Inr)
  have close: "\<exists>l2. close_run (\<lambda>_. True) ?c' h status err d2 = (Inr (), d2\<lparr>runs := runs d @ [closed_new E c sid job d h status err], audit_events := l2\<rparr>)"
    if "h_id h = run_seq d" "runs d2 = runs (opened c sid job d l)" for h status err d2
    using close_run_ok [OF actor, of "\<lambda>_. True" h status err d2] close_new_run [OF assms(3) that(1)] that(2) by (auto simp: closed_new_def)
  show ?thesis
  proof (cases "body ?h (opened c sid job d l)")
    case (Pair r d2)
    show ?thesis
    proof (cases r)
      case (Inl e)
      let ?err = "Some (truncate_tb 4000 (cl_traceback E e))"
      obtain l2 where "close_run (\<lambda>_. True) ?c' ?h Failed ?err (opened c sid job d l) =
          (Inr (), (opened c sid job d l)\<lparr>runs := runs d @ [closed_new E c sid job d ?h Failed ?err], audit_events := l2\<rparr>)"
        using close [of ?h "opened c sid job d l" Failed ?err] by (auto simp: new_handle_def)
      then have "with_run E c sid job body d = (Inl e, (opened c sid job d l2)\<lparr>runs := runs d @ [closed_new E c sid job d ?h Failed ?err]\<rparr>)"
        using o start Pair Inl by (simp add: with_run_def thn_def bnd_def Let_def) (simp add: opened_def)
      then show ?thesis using Pair Inl by blast
    next
      case (Inr p)
      obtain x calls where p: "p = (x, calls)" by (cases p)
      have b: "body ?h (opened c sid job d l) = (Inr (x, calls), d2)" using Pair Inr p by simp
      obtain h l1 where r: "run_body ?c' calls ?h d2 = (None, h, d2\<lparr>audit_events := l1\<rparr>)" "stepped calls ?h d2 h l1"
        using run_body_ok [OF actor] by blast
      have id: "h_id h = run_seq d" "h_rows h = rows_of calls" using r(2) by (simp_all add: stepped_def new_handle_def)
      obtain l2 where "close_run (\<lambda>_. True) ?c' h Succeeded None (d2\<lparr>audit_events := l1\<rparr>) =
          (Inr (), d2\<lparr>runs := runs d @ [closed_new E c sid job d h Succeeded None], audit_events := l2\<rparr>)"
        using close [OF id(1), of "d2\<lparr>audit_events := l1\<rparr>" Succeeded None] frame [OF b] by auto
      then have "with_run E c sid job body d = (Inr x, d2\<lparr>runs := runs d @ [closed_new E c sid job d h Succeeded None], audit_events := l2\<rparr>)"
        using o start b r(1) by (simp add: with_run_def thn_def bnd_def Let_def)
      then show ?thesis using b id(2) by blast
    qed
  qed
qed

section \<open>Rows of a CSV file\<close>

lemma first_or_all_Inr: "first_or_all rs = Inr xs \<longleftrightarrow> rs = map Inr xs"
proof (induction rs arbitrary: xs)
  case (Cons r rs)
  then show ?case by (cases r; cases xs) (auto simp: map_sum_Inr_iff)
qed auto

lemma csv_observation_valid: "csv_observation E hdr line = Inr o1 \<Longrightarrow> validate_row o1 = Inr ()"
  by (auto simp: csv_observation_def Let_def map_sum_Inr_iff mk_observation_in_def validate_row_def split: if_splits sum.splits prod.splits)

lemma csv_rows_read: "read_csv_observations E lines = Inr obs \<Longrightarrow> map (csv_observation E (hd lines)) (csv_rows lines) = map Inr obs"
  by (auto simp: read_csv_observations_def first_or_all_Inr split: if_splits)

lemma csv_rows_length: "read_csv_observations E lines = Inr obs \<Longrightarrow> length obs = length (csv_rows lines)"
  by (metis csv_rows_read length_map)

lemma write_obs_attempted: "write_obs W c sid obs d = (Inr n, d') \<Longrightarrow> wc_attempted n = length obs"
  by (auto simp: write_obs_def thn_Inr_iff bnd_Inr_iff lift_def split: if_splits)

text \<open>What is read from a CSV file passes the checks of the writer: a file that is read gives one observation for each
  line that is not empty, in order, each with two times that know their offset and with exactly one of value and text.\<close>

lemma csv_rows_valid:
  assumes "read_csv_observations E lines = Inr obs"
  shows "length obs = length (csv_rows lines) \<and> first_error (map validate_row obs) = Inr () \<and>
    (\<forall>o1 \<in> set obs. utcoffset (oi_ts o1) \<noteq> None \<and> utcoffset (oi_as_of o1) \<noteq> None \<and> ((oi_value o1 = None) \<noteq> (oi_value_text o1 = None)))"
proof -
  note rows = csv_rows_read [OF assms] and len = csv_rows_length [OF assms]
  have valid: "validate_row o1 = Inr ()" if "o1 \<in> set obs" for o1
  proof -
    have "Inr o1 \<in> set (map (csv_observation E (hd lines)) (csv_rows lines))" using that rows by simp
    then show ?thesis using csv_observation_valid by fastforce
  qed
  then have "first_error (map validate_row obs) = Inr ()" by (induction obs) auto
  moreover have "utcoffset (oi_ts o1) \<noteq> None \<and> utcoffset (oi_as_of o1) \<noteq> None \<and> ((oi_value o1 = None) \<noteq> (oi_value_text o1 = None))"
    if "o1 \<in> set obs" for o1
    using valid [OF that] by (auto simp: validate_row_def split: if_splits)
  ultimately show ?thesis using len by simp
qed

section \<open>A bulk write\<close>

text \<open>A write touches the observations, their batch keys and the audit trail, and nothing else.\<close>

definition untouched :: "db \<Rightarrow> db" where
  "untouched d = d\<lparr>observations := [], audit_events := \<lparr>events = [], event_seq = 0\<rparr>, batch_keys := []\<rparr>"

lemma untouched_fields [simp]: "runs (untouched d) = runs d" "series (untouched d) = series d"
  by (simp_all add: untouched_def)

interpretation writes: growth "\<lambda>d d'. untouched d' = untouched d"
  by unfold_locales simp_all

lemma write_obs_frame:
  assumes "write_obs W c sid obs d = (r, d')"
  shows "runs d' = runs d \<and> series d' = series d"
proof -
  have "writes.grows (write_obs W c sid obs)"
    by (rule write_obs_grows [OF writes.growth_axioms]) (simp_all add: untouched_def)
  from writes.growsD [OF this assms] show ?thesis by (metis untouched_fields)
qed

text \<open>A bulk write that finds its series: the run fails with nothing written, or the write returned.\<close>

lemma bulk_write_cases:
  assumes "\<not> (ctx_actor c = None \<and> ctx_strict c)" "runs_ok d" "sr_source_id r \<in> set (sources d)"
    and "read_csv_observations E lines = Inr obs" "sql_find (\<lambda>r. sr_code r = code) (series d) = Some r"
    and "write_cmd E c code lines d = (res, d')"
  obtains (failed) e l x d2 l2 where "res = Inl e"
      "write_obs ((cl_writer E)\<lparr>ow_run_id := run_seq d\<rparr>) c (sr_id r) obs (opened c (sr_source_id r) ''cli.ts.observation_write'' d l) = (Inl x, d2)"
      "d' = (opened c (sr_source_id r) ''cli.ts.observation_write'' d l2)\<lparr>runs := runs d @
      [closed_new E c (sr_source_id r) ''cli.ts.observation_write'' d (new_handle c (run_seq d) (sr_source_id r) ''cli.ts.observation_write'')
         Failed (Some (truncate_tb 4000 (cl_traceback E e)))]\<rparr>"
    | (returned) n l d2 h l2 where "res = Inr n" "h_rows h = int (length (csv_rows lines))"
      "write_obs ((cl_writer E)\<lparr>ow_run_id := run_seq d\<rparr>) c (sr_id r) obs (opened c (sr_source_id r) ''cli.ts.observation_write'' d l) = (Inr n, d2)"
      "d' = d2\<lparr>runs := runs d @ [closed_new E c (sr_source_id r) ''cli.ts.observation_write'' d h Succeeded None], audit_events := l2\<rparr>"
proof -
  let ?W = "\<lambda>h. (cl_writer E)\<lparr>ow_run_id := h_id h\<rparr>"
  let ?job = "''cli.ts.observation_write''" and ?sid = "sr_source_id r"
  let ?body = "\<lambda>h. run_tx (bnd (clicked (write_obs (?W h) c (sr_id r) obs)) (\<lambda>n. ret (n, [IncrementRows (int (wc_attempted n))])))"
  have run: "with_run E c ?sid ?job ?body d = (res, d')"
    using assms(4-6) by (simp add: write_cmd_def observation_write_impl_def find_series_def)
  have wrote: "write_obs (?W h) c (sr_id r) obs d1 = (Inr n, d2) \<and> calls = [IncrementRows (int (wc_attempted n))]"
    if "?body h d1 = (Inr (n, calls), d2)" for h d1 n calls d2
    using that by (auto simp: bnd_Inr_iff clicked_Inr)
  have stopped: "\<exists>x d3. write_obs (?W h) c (sr_id r) obs d1 = (Inl x, d3)" if "?body h d1 = (Inl e, d2)" for h d1 e d2
    using that by (auto simp: run_tx_def bnd_def clicked_def split: sum.splits prod.splits)
  have frame: "runs d2 = runs (opened c ?sid ?job d l)"
    if "?body (new_handle c (run_seq d) ?sid ?job) (opened c ?sid ?job d l) = (Inr (x, calls), d2)" for l x calls d2
    using write_obs_frame [OF conjunct1 [OF wrote [OF that]]] by simp
  have out: "\<exists>l. (\<exists>e d2 l2. ?body (new_handle c (run_seq d) ?sid ?job) (opened c ?sid ?job d l) = (Inl e, d2) \<and>
      with_run E c ?sid ?job ?body d = (Inl e, (opened c ?sid ?job d l2)\<lparr>runs := runs d @
        [closed_new E c ?sid ?job d (new_handle c (run_seq d) ?sid ?job) Failed (Some (truncate_tb 4000 (cl_traceback E e)))]\<rparr>)) \<or>
    (\<exists>n calls d2 h l2. ?body (new_handle c (run_seq d) ?sid ?job) (opened c ?sid ?job d l) = (Inr (n, calls), d2) \<and> h_rows h = rows_of calls \<and>
      with_run E c ?sid ?job ?body d = (Inr n, d2\<lparr>runs := runs d @ [closed_new E c ?sid ?job d h Succeeded None], audit_events := l2\<rparr>))"
    by (rule with_run_outcome [OF assms(1,3,2)]) (erule frame)
  from out show thesis
  proof (elim disjE exE conjE)
    fix l e d2 l2
    assume b: "?body (new_handle c (run_seq d) ?sid ?job) (opened c ?sid ?job d l) = (Inl e, d2)"
      and out: "with_run E c ?sid ?job ?body d = (Inl e, (opened c ?sid ?job d l2)\<lparr>runs := runs d @
        [closed_new E c ?sid ?job d (new_handle c (run_seq d) ?sid ?job) Failed (Some (truncate_tb 4000 (cl_traceback E e)))]\<rparr>)"
    obtain x d3 where "write_obs (?W (new_handle c (run_seq d) ?sid ?job)) c (sr_id r) obs (opened c ?sid ?job d l) = (Inl x, d3)"
      using stopped [OF b] by blast
    then show thesis using failed [of e l x d3 l2] out run by (simp add: new_handle_def)
  next
    fix l n calls d2 h l2
    assume b: "?body (new_handle c (run_seq d) ?sid ?job) (opened c ?sid ?job d l) = (Inr (n, calls), d2)" "h_rows h = rows_of calls"
      "with_run E c ?sid ?job ?body d = (Inr n, d2\<lparr>runs := runs d @ [closed_new E c ?sid ?job d h Succeeded None], audit_events := l2\<rparr>)"
    note w = wrote [OF b(1)]
    have "h_rows h = int (length (csv_rows lines))"
      using b(2) w write_obs_attempted [OF conjunct1 [OF w]] csv_rows_length [OF assms(4)] by (simp add: rows_of_def)
    then show thesis using returned [of n h l d2 l2] b(3) run w by (simp add: new_handle_def)
  qed
qed

lemma closed_new_fields:
  assumes "cli_ctx c0 given user host = Inr c"
  shows "run_actor_id (closed_new E c sid job d h st err) = Some (cli_actor_id given user host)"
    "run_finished_at (closed_new E c sid job d h st err) = Some (cl_close E)"
    "run_id (closed_new E c sid job d h st err) = run_seq d" "run_status (closed_new E c sid job d h st err) = st"
    "run_rows_written (closed_new E c sid job d h st err) = h_rows h"
  using assms by (auto simp: closed_new_def closed_row_def new_run_def cli_ctx_def Let_def split: if_splits)


section \<open>What was written is read back\<close>

lemma current_row_exists:
  assumes "r \<in> set t" "visible sid pit r"
  shows "\<exists>x. current_row t sid pit x \<and> obs_ts x = obs_ts r \<and> obs_as_of r \<le> obs_as_of x"
proof -
  let ?A = "{x \<in> set t. visible sid pit x \<and> obs_ts x = obs_ts r}"
  have A: "finite (obs_as_of ` ?A)" "obs_as_of r \<in> obs_as_of ` ?A" using assms by auto
  have "Max (obs_as_of ` ?A) \<in> obs_as_of ` ?A" using A by (intro Max_in) blast+
  then obtain x where x: "Max (obs_as_of ` ?A) = obs_as_of x" "x \<in> ?A" by (rule imageE)
  have "obs_as_of y \<le> obs_as_of x" if "y \<in> ?A" for y using Max_ge [OF A(1) imageI [OF that]] x(1) by simp
  then have "current_row t sid pit x" "obs_as_of r \<le> obs_as_of x" using x(2) assms by (auto simp: current_row_def)
  with x(2) show ?thesis by blast
qed

text \<open>An observation that is in the table after a write was there before, or it is one of the batch.\<close>

lemma written_row_origin:
  assumes "write_obs W c sid os d0 = (Inr n, d1)" "obs_unique d0" "\<And>ks. set (ow_iter W ks) = set ks"
    and "r0 \<in> set (observations d1)" "obs_pk r0 = (sid, k)"
  shows "r0 \<in> set (observations d0) \<or> obs_ingestion_run_id r0 = ow_run_id W \<and> (\<exists>o2 \<in> set os. obs_key o2 = k \<and>
    payload_hash (ow_hash W) o2 = Inr (obs_payload_hash r0) \<and> obs_value r0 = oi_value o2 \<and>
    obs_value_text r0 = oi_value_text o2 \<and> obs_quality_flag r0 = oi_quality_flag o2 \<and> obs_metadata r0 = JObj (oi_metadata o2))"
proof -
  obtain new where "observations d1 = observations d0 @ new"
    "\<forall>r0 \<in> set new. \<exists>o2 \<in> set os. \<exists>ph. payload_hash (ow_hash W) o2 = Inr ph \<and> r0 = obs_row W c sid (o2, ph)"
    using write_appends [OF assms(1,2)] assms(3) by auto
  with assms(4) consider "r0 \<in> set (observations d0)" | o2 ph where "o2 \<in> set os"
      "payload_hash (ow_hash W) o2 = Inr ph" "r0 = obs_row W c sid (o2, ph)"
    by auto
  then show ?thesis
  proof cases
    case 2
    with assms(5) have "obs_key o2 = k" by simp
    with 2 show ?thesis by (intro disjI2 conjI bexI [of _ o2]) (simp_all add: obs_row_def)
  qed simp
qed

text \<open>What the range command lists for an observation of the window: the current one of its time.\<close>

lemma range_cmd_lists:
  assumes "obs_unique d" "series_by_code code d = (Inr sid, d)" "parse_iso_tzaware E start_text = Inr s" "parse_iso_tzaware E end_text = Inr e"
    and "r0 \<in> set (observations d)" "obs_pk r0 = (sid, k)" "instant s \<le> obs_ts r0" "obs_ts r0 < instant e"
  obtains out x where "range_cmd E code start_text end_text None None d = (Inr out, d)" "obs_out x \<in> set out" "x \<in> set (observations d)"
    "obs_ts x = obs_ts r0" "obs_as_of r0 \<le> obs_as_of x" "obs_as_of x = obs_as_of r0 \<Longrightarrow> x = r0"
proof -
  obtain x where x: "current_row (observations d) sid None x" "obs_ts x = obs_ts r0" "obs_as_of r0 \<le> obs_as_of x"
    using current_row_exists [of r0 "observations d" sid None] assms(5,6) by (auto simp: visible_def obs_pk_def)
  let ?rows = "window_rows sid (instant s) (instant e) None (observations d)"
  have mem: "x \<in> set (observations d)" using x(1) by (simp add: current_row_def visible_def)
  have row: "x \<in> set ?rows"
    using window_rows_set [of "observations d"] assms(1,7,8) x(1,2) by (auto simp: obs_unique_def)
  have cmd: "range_cmd E code start_text end_text None None d = (Inr (map obs_out ?rows), d)"
    using assms(2-4) by (simp add: range_cmd_def parse_optional_as_of_def range_obs_def raising_def bnd_def lift_def gets_def ret_def)
  have same: "x = r0" if "obs_as_of x = obs_as_of r0"
  proof -
    have "obs_pk x = obs_pk r0" using x(1,2) that assms(6) by (auto simp: current_row_def visible_def obs_pk_def)
    then show ?thesis using assms(1,5) mem by (auto simp: obs_unique_def distinct_map inj_on_def)
  qed
  show thesis by (rule that [OF cmd _ mem x(2,3) same]) (use row in auto)
qed

text \<open>C20. A bulk write is read back: after a successful write of a file, the range command over any window lists, for every
  row of the file whose time lies in the window, an observation of that time recorded no earlier. Where it is recorded at
  the time of the row itself, its stored payload hash is the row's; and unless that observation was in the table before,
  it carries the run of the command and the value, text, quality flag and metadata of a row of the file of the same two
  times and with the stored hash, so of the row itself when no other row of the file has its two times.\<close>

theorem written_rows_in_range:
  assumes "cli_ctx c0 given user host = Inr c" and "runs_ok d" "obs_unique d" and "\<And>ks. set (ow_iter (cl_writer E) ks) = set ks"
    and "\<And>r. r \<in> set (series d) \<Longrightarrow> sr_source_id r \<in> set (sources d)"
    and "read_csv_observations E lines = Inr obs" and "write_cmd E c code lines d = (Inr n, d')"
    and "parse_iso_tzaware E start_text = Inr s" and "parse_iso_tzaware E end_text = Inr e"
    and "o1 \<in> set obs" and "instant s \<le> instant (oi_ts o1)" "instant (oi_ts o1) < instant e"
  shows "\<exists>out x. range_cmd E code start_text end_text None None d' = (Inr out, d') \<and> x \<in> set out \<and>
    ou_ts x = instant (oi_ts o1) \<and> instant (oi_as_of o1) \<le> ou_as_of x \<and>
    (ou_as_of x = instant (oi_as_of o1) \<longrightarrow> (\<exists>r \<in> set (observations d'). x = obs_out r \<and>
       payload_hash (ow_hash (cl_writer E)) o1 = Inr (strip (obs_payload_hash r)) \<and>
       (r \<in> set (observations d) \<or> ou_ingestion_run_id x = run_seq d \<and>
         (\<exists>o2 \<in> set obs. instant (oi_ts o2) = instant (oi_ts o1) \<and> instant (oi_as_of o2) = instant (oi_as_of o1) \<and>
            payload_hash (ow_hash (cl_writer E)) o2 = Inr (obs_payload_hash r) \<and> ou_value x = oi_value o2 \<and>
            ou_value_text x = oi_value_text o2 \<and> ou_quality_flag x = oi_quality_flag o2 \<and> ou_metadata x = JObj (oi_metadata o2)))))"
proof -
  obtain r where r: "sql_find (\<lambda>r. sr_code r = code) (series d) = Some r"
    using assms(6,7) by (cases "sql_find (\<lambda>r. sr_code r = code) (series d)")
      (auto simp: write_cmd_def observation_write_impl_def find_series_def)
  have src: "sr_source_id r \<in> set (sources d)" using assms(5) sql_find_Some_iff [OF r] by blast
  have unique: "obs_unique (opened c (sr_source_id r) ''cli.ts.observation_write'' d l)" for l using assms(3) by (simp add: obs_unique_def)
  obtain l d2 h l2 where w:
    "write_obs ((cl_writer E)\<lparr>ow_run_id := run_seq d\<rparr>) c (sr_id r) obs (opened c (sr_source_id r) ''cli.ts.observation_write'' d l) = (Inr n, d2)"
    "d' = d2\<lparr>runs := runs d @ [closed_new E c (sr_source_id r) ''cli.ts.observation_write'' d h Succeeded None], audit_events := l2\<rparr>"
    by (rule bulk_write_cases [OF cli_ctx_actor [OF assms(1)] assms(2) src assms(6) r assms(7)]) auto
  have obs: "observations d' = observations d2" "obs_unique d'"
    using w write_appends [OF w(1) unique] assms(4) by (auto simp: obs_unique_def)
  have "series d' = series d" using write_obs_frame [OF w(1)] w(2) by simp
  then have sid: "series_by_code code d' = (Inr (sr_id r), d')" using r by (simp add: series_by_code_def find_series_def)
  obtain ph r0 where r0: "payload_hash (ow_hash (cl_writer E)) o1 = Inr ph" "r0 \<in> set (observations d')"
    "obs_pk r0 = (sr_id r, obs_key o1)" "strip (obs_payload_hash r0) = ph"
    using write_stores [OF w(1) unique] assms(4,10) obs(1) by (auto simp: obs_stored_def)
  have key: "obs_ts r0 = instant (oi_ts o1)" "obs_as_of r0 = instant (oi_as_of o1)" using r0(3) by (simp_all add: obs_pk_def obs_key_def)
  obtain out x where x: "range_cmd E code start_text end_text None None d' = (Inr out, d')" "obs_out x \<in> set out"
    "x \<in> set (observations d')" "obs_ts x = obs_ts r0" "obs_as_of r0 \<le> obs_as_of x" "obs_as_of x = obs_as_of r0 \<Longrightarrow> x = r0"
    by (rule range_cmd_lists [OF obs(2) sid assms(8,9) r0(2,3)]) (use assms(11,12) key in auto)
  have "r0 \<in> set (observations d) \<or> obs_ingestion_run_id r0 = run_seq d \<and> (\<exists>o2 \<in> set obs. obs_key o2 = obs_key o1 \<and>
      payload_hash (ow_hash (cl_writer E)) o2 = Inr (obs_payload_hash r0) \<and> obs_value r0 = oi_value o2 \<and>
      obs_value_text r0 = oi_value_text o2 \<and> obs_quality_flag r0 = oi_quality_flag o2 \<and> obs_metadata r0 = JObj (oi_metadata o2))"
    using written_row_origin [OF w(1) unique _ _ r0(3)] assms(4) r0(2) obs(1) by simp
  then show ?thesis
    using x r0 key by (intro exI [of _ out] exI [of _ "obs_out x"] conjI impI) (auto simp: obs_out_def obs_key_def)
qed

section \<open>A file of one row\<close>

text \<open>The digit of a text is its time; the file writes an observation of time 1 recorded at 3.\<close>

definition sample_cli_env :: cli_env where
  "sample_cli_env = \<lparr>cl_close = 2000, cl_traceback = (\<lambda>_. []),
     cl_series = \<lparr>sw_run_id = 0, sw_matcher = sample_matcher, sw_currencies = [], sw_env = id\<rparr>, cl_writer = sample_writer,
     cl_fromiso = (\<lambda>t. Some \<lparr>instant = int (hd t) - 48, utcoffset = Some 0\<rparr>), cl_loads = (\<lambda>_. None), cl_float = (\<lambda>_. Some 7),
     cl_subject_order = id, cl_series_order = id, cl_group_order = id\<rparr>"

definition sample_cli_db :: db where
  "sample_cli_db = sample_series_db\<lparr>run_seq := 2\<rparr>"

definition sample_csv :: "pystr list list" where
  "sample_csv = [[lit ''ts'', lit ''as_of'', lit ''value''], [lit ''1'', lit ''3'', lit ''7''], []]"

definition sample_cli_ctx :: ctx where
  "sample_cli_ctx = sample_ctx\<lparr>ctx_actor := Some \<lparr>actor_id = ''cli:a@b'', actor_kind = User, client_ip = None, user_agent = None,
     request_id = None, actor_metadata = []\<rparr>\<rparr>"

lemma sample_cli_actor: "cli_ctx sample_ctx None ''a'' ''b'' = Inr sample_cli_ctx"
  by (simp add: cli_ctx_def cli_actor_id_def sample_cli_ctx_def)

lemma sample_parse: "parse_iso_tzaware sample_cli_env (lit ''1'') = Inr \<lparr>instant = 1, utcoffset = Some 0\<rparr>"
  "parse_iso_tzaware sample_cli_env (lit ''3'') = Inr \<lparr>instant = 3, utcoffset = Some 0\<rparr>"
  by (simp_all add: parse_iso_tzaware_def sample_cli_env_def)

lemma sample_csv_fields:
  defines "f \<equiv> csv_field [lit ''ts'', lit ''as_of'', lit ''value''] [lit ''1'', lit ''3'', lit ''7'']"
  shows "f ''ts'' = lit ''1''" "f ''as_of'' = lit ''3''" "f ''value'' = lit ''7''" "f ''value_text'' = []" "f ''quality_flag'' = []" "f ''metadata'' = []"
  by (simp_all add: f_def csv_field_def strip_def strip_by_def is_space_def)

lemma sample_csv_read: "read_csv_observations sample_cli_env sample_csv = Inr [sample_obs 1 3]"
proof -
  have "csv_observation sample_cli_env [lit ''ts'', lit ''as_of'', lit ''value''] [lit ''1'', lit ''3'', lit ''7''] = Inr (sample_obs 1 3)"
    unfolding csv_observation_def Let_def sample_csv_fields sample_parse
    by (simp add: csv_value_def sample_cli_env_def) (simp add: csv_quality_def csv_metadata_def mk_observation_in_def sample_obs_def)
  then show ?thesis by (simp add: read_csv_observations_def sample_csv_def csv_rows_def)
qed

lemma sample_cli_db_ok: "runs_ok sample_cli_db" "obs_unique sample_cli_db" "r \<in> set (series sample_cli_db) \<Longrightarrow> sr_source_id r \<in> set (sources sample_cli_db)"
  "set (ow_iter (cl_writer sample_cli_env) ks) = set ks"
  by (auto simp: sample_cli_db_def sample_series_db_def runs_ok_def obs_unique_def empty_db_def sample_cli_env_def sample_writer_def)

lemma csv_rows_valid_witness:
  "read_csv_observations sample_cli_env sample_csv = Inr [sample_obs 1 3] \<and> csv_rows sample_csv = [[lit ''1'', lit ''3'', lit ''7'']] \<and>
     first_error (map validate_row [sample_obs 1 3]) = Inr ()"
  using csv_rows_valid [OF sample_csv_read] sample_csv_read by (simp add: csv_rows_def sample_csv_def)

lemma sample_cli_runs:
  "\<exists>n d'. write_cmd sample_cli_env sample_cli_ctx (lit ''kap:close'') sample_csv sample_cli_db = (Inr n, d') \<and> wc_inserted n = 1"
proof -
  let ?job = "''cli.ts.observation_write''" and ?W = "(cl_writer sample_cli_env)\<lparr>ow_run_id := run_seq sample_cli_db\<rparr>"
  have find: "sql_find (\<lambda>r. sr_code r = lit ''kap:close'') (series sample_cli_db) = Some (hd (series sample_series_db))"
    by (simp add: sample_cli_db_def sample_series_db_def)
  have src: "sr_source_id (hd (series sample_series_db)) \<in> set (sources sample_cli_db)"
    by (simp add: sample_cli_db_def sample_series_db_def empty_db_def)
  have run: "\<exists>d2. write_obs ?W sample_cli_ctx (sr_id (hd (series sample_series_db))) [sample_obs 1 3]
      (opened sample_cli_ctx (sr_source_id (hd (series sample_series_db))) ?job sample_cli_db l) =
      (Inr \<lparr>wc_attempted = 1, wc_inserted = 1, wc_updated = 0, wc_unchanged = 0\<rparr>, d2)" for l
  proof -
    let ?d = "opened sample_cli_ctx (sr_source_id (hd (series sample_series_db))) ?job sample_cli_db l"
    have id: "sr_id (hd (series sample_series_db)) = 1" by (simp add: sample_series_db_def)
    have chunk: "write_chunk ?W sample_cli_ctx 1 [sample_obs 1 3] ?d =
        (Inr ({(1, 3)}, {}), ?d\<lparr>observations := observations ?d @ [obs_row ?W sample_cli_ctx 1 (sample_obs 1 3, replicate 64 48)]\<rparr>)"
      by (simp add: write_chunk_def opened_def sample_cli_db_def sample_series_db_def sample_cli_env_def sample_writer_def insert_observations_def
          empty_db_def Let_def new_run_def sql_insert_dn_def gets_def lift_def bnd_def ret_def)
    have "hex64 (replicate 64 48)" by (simp add: hex64_def list_all_iff)
    moreover have "chunks chunk_size [sample_obs 1 3] = [[sample_obs 1 3]]" by (simp add: chunks.simps chunk_size_def)
    ultimately show ?thesis
      using chunk unfolding id
      by (simp add: write_obs_def sample_cli_env_def sample_writer_def assert_actor_cases sample_cli_ctx_def thn_def bnd_def lift_def ret_def
          emit_write_batch_audit_def gets_def modify_def insert_batch_key_def bk_pk_def sample_cli_db_def sample_series_db_def empty_db_def opened_def)
  qed
  obtain res d' where cmd: "write_cmd sample_cli_env sample_cli_ctx (lit ''kap:close'') sample_csv sample_cli_db = (res, d')" by fastforce
  then have "\<exists>n. res = Inr n \<and> wc_inserted n = 1"
  proof (rule bulk_write_cases [OF cli_ctx_actor [OF sample_cli_actor] sample_cli_db_ok(1) src sample_csv_read find])
    fix l x d2 assume "write_obs ?W sample_cli_ctx (sr_id (hd (series sample_series_db))) [sample_obs 1 3]
      (opened sample_cli_ctx (sr_source_id (hd (series sample_series_db))) ?job sample_cli_db l) = (Inl x, d2)"
    then show ?thesis using run [of l] by (metis prod.inject sum.distinct(1))
  next
    fix n l d2 assume "res = Inr n" "write_obs ?W sample_cli_ctx (sr_id (hd (series sample_series_db))) [sample_obs 1 3]
      (opened sample_cli_ctx (sr_source_id (hd (series sample_series_db))) ?job sample_cli_db l) = (Inr n, d2)"
    then show ?thesis using run [of l] by (metis prod.inject sum.inject(2) write_count.select_convs(2))
  qed
  with cmd show ?thesis by blast
qed


theorem written_rows_in_range_witness:
  "\<exists>n d' out x. write_cmd sample_cli_env sample_cli_ctx (lit ''kap:close'') sample_csv sample_cli_db = (Inr n, d') \<and>
     range_cmd sample_cli_env (lit ''kap:close'') (lit ''1'') (lit ''3'') None None d' = (Inr out, d') \<and> x \<in> set out \<and>
     ou_ts x = 1 \<and> 3 \<le> ou_as_of x"
proof -
  obtain n d' where w: "write_cmd sample_cli_env sample_cli_ctx (lit ''kap:close'') sample_csv sample_cli_db = (Inr n, d')"
    using sample_cli_runs by blast
  then show ?thesis
    using written_rows_in_range [OF sample_cli_actor sample_cli_db_ok(1,2,4) sample_cli_db_ok(3) sample_csv_read w sample_parse, of "sample_obs 1 3"]
    by (fastforce simp: sample_obs_def)
qed

end
