(* ===== verification/Cli_Streams.thy ===== *)
theory Cli_Streams
  imports Cli_Ts Consumer_Delivery Stream_Producer Outbox_Drainer
begin

text \<open>
  The operator commands \<open>aslan streams\<close> (\<open>cli/streams.py\<close>) that change something: publishing an event, draining the
  outbox, the manual routing of a dead letter, the release of a claim and the removal of an event from the processed set;
  and the list of dead letters. The read-only \<open>tail\<close>, \<open>lag\<close> and \<open>pending\<close> print what Redis answers and are left out.
\<close>

section \<open>publish\<close>

definition EVENT_KINDS :: "string list" where
  "EVENT_KINDS = [''filing.new'', ''filing.amended'', ''observation.batch'', ''entity.created'', ''stream.entry_redacted'']"

definition setdefault :: "string \<Rightarrow> json \<Rightarrow> dict \<Rightarrow> dict" where
  "setdefault k v kvs = (if lit k \<in> fst ` set kvs then kvs else kvs @ [(lit k, v)])"

text \<open>
  What the command takes from outside: \<open>uuid4\<close>, the time text, \<open>json.loads\<close>, pydantic's validation by the class of a
  kind, the text of a time in a payload and the current trace.
\<close>

record publish_env =
  pe_fresh_id :: uuid
  pe_now_text :: pystr
  pe_loads :: "pystr \<Rightarrow> json option"
  pe_validate :: "string \<Rightarrow> json \<Rightarrow> stream_event option"
  pe_fmt :: "datetime \<Rightarrow> pystr"
  pe_trace :: "pystr option"

definition publish_payload :: "publish_env \<Rightarrow> string \<Rightarrow> string \<Rightarrow> pystr \<Rightarrow> cli_error + dict" where
  "publish_payload P kind source_id text = (case pe_loads P text of
     Some (JObj kvs) \<Rightarrow> Inr (setdefault ''kind'' (jlit kind) (setdefault ''source_id'' (jlit source_id)
       (setdefault ''produced_at'' (JStr (pe_now_text P)) (setdefault ''event_id'' (JStr (uuid_str (pe_fresh_id P)))
         (setdefault ''schema_version'' (JInt 1) kvs)))))
   | _ \<Rightarrow> Inl BadParameter)"

text \<open>The producer on a session of its own, committed when it returns.\<close>

definition in_session :: "(error, session, 'a) op \<Rightarrow> (error, db, 'a) op" where
  "in_session m = (\<lambda>d. case m \<lparr>committed = d, work = d\<rparr> of (r, s) \<Rightarrow> (r, work s))"

definition publish_cmd ::
  "cli_env \<Rightarrow> publish_env \<Rightarrow> ctx \<Rightarrow> string option \<Rightarrow> string \<Rightarrow> pystr \<Rightarrow> string \<Rightarrow> (cli_error, db, int) op" where
  "publish_cmd E P c stream_name kind text source_id =
     (if kind \<notin> set EVENT_KINDS then raise BadParameter
      else bnd (lift (publish_payload P kind source_id text)) (\<lambda>payload.
        with_run E c source_id ''cli.streams.publish'' (\<lambda>h.
          run_tx (case pe_validate P kind (JObj (setdefault ''producer_run_id'' (JInt (h_id h)) payload)) of
              None \<Rightarrow> raise (Raised (PyE ValueError))
            | Some e \<Rightarrow> bnd (raising (in_session (publish (pe_fmt P) (pe_trace P) c (h_id h) e stream_name))) (\<lambda>oid. ret (oid, []))))))"

section \<open>drain\<close>

definition pending_count :: "db \<Rightarrow> nat" where
  "pending_count d = sql_count (\<lambda>r. ob_published_at r = None) (outboxes d)"

text \<open>The drainer in this process, with a log of its own.\<close>

definition with_drain_log :: "('e, 'r drain_world, 'a) op \<Rightarrow> ('e, 'r world, 'a) op" where
  "with_drain_log m = (\<lambda>w. case m \<lparr>wdb = wdb w, wredis = wredis w, dw_logged = []\<rparr> of
     (res, w') \<Rightarrow> (res, \<lparr>wdb = wdb w', wredis = wredis w'\<rparr>))"

definition drain_cmd ::
  "'r redis_api \<Rightarrow> 'r drain_env \<Rightarrow> nat \<Rightarrow> nat \<Rightarrow> ctx \<Rightarrow> (cli_error, 'r world, nat \<times> nat \<times> nat) op" where
  "drain_cmd R v limit maxlen c =
     bnd (gets (\<lambda>w. pending_count (wdb w))) (\<lambda>before.
     thn (raising (with_drain_log (drain_outbox R (\<lambda>_. v) limit maxlen 1 (\<lambda>_. c))))
     (bnd (gets (\<lambda>w. pending_count (wdb w))) (\<lambda>after. ret (before, after, before - after))))"

section \<open>deadletter\<close>

text \<open>\<open>plan\<close> is the order rows of equal \<open>routed_at\<close> arrive in; a text is cut to 120 characters.\<close>

definition deadletter_list_cmd ::
  "(deadletter_log list \<Rightarrow> deadletter_log list) \<Rightarrow> int \<Rightarrow> bool \<Rightarrow> (cli_error, 'r world, deadletter_log list) op" where
  "deadletter_list_cmd plan limit unrouted_only =
     bnd (gets (\<lambda>w. sort_key (\<lambda>l. - dl_routed_at l) (plan (filter (\<lambda>l. unrouted_only \<longrightarrow> dl_routed_at_redis l = None) (dl_log (wdb w))))))
     (\<lambda>rows. if limit < 0 then raise (Raised (ServiceE SQLAlchemyError))
             else ret (map (\<lambda>l. l\<lparr>dl_last_error := take 120 (dl_last_error l)\<rparr>) (take (nat limit) rows)))"

text \<open>\<open>excerpt\<close> is the text a stored excerpt is sent with again.\<close>

definition retry_args :: "(pystr \<Rightarrow> pystr) \<Rightarrow> string \<Rightarrow> deadletter_log \<Rightarrow> route_args" where
  "retry_args excerpt host l =
     \<lparr>ra_stream = dl_stream_name l, ra_group = dl_group_name l, ra_consumer_name = dl_consumer_name l,
      ra_message_id = dl_original_message_id l, ra_event_id = dl_event_id l, ra_failure_count = dl_failure_count l,
      ra_last_error = dl_last_error l, ra_payload_excerpt = excerpt (dl_payload_excerpt l), ra_owner_id = ''cli:retry:'' @ host\<rparr>"

definition deadletter_retry_cmd ::
  "'r redis_api \<Rightarrow> nat \<Rightarrow> (pystr \<Rightarrow> bool) \<Rightarrow> (pystr \<Rightarrow> pystr) \<Rightarrow> (pystr \<Rightarrow> pystr) \<Rightarrow> ctx \<Rightarrow> (nat \<Rightarrow> 'r world \<Rightarrow> 'r world) \<Rightarrow> (nat \<Rightarrow> db \<Rightarrow> db) \<Rightarrow>
   string \<Rightarrow> int \<Rightarrow> (cli_error, 'r world, routing_result) op" where
  "deadletter_retry_cmd R fuel loads_ok dumps excerpt c ifr env host fid =
     bnd (gets (\<lambda>w. sql_find (\<lambda>l. dl_failure_id l = fid) (dl_log (wdb w)))) (\<lambda>row. case row of
       None \<Rightarrow> raise ClickException
     | Some l \<Rightarrow> thn (modify (ifr 0)) (raising (route_to_deadletter R fuel loads_ok dumps c ifr env (retry_args excerpt host l))))"

section \<open>claim-release and processed-clear\<close>

text \<open>Both check that the text is a UUID and go on with the text as it was typed.\<close>

definition claim_release_cmd :: "'r kv_api \<Rightarrow> string \<Rightarrow> string \<Rightarrow> pystr \<Rightarrow> (cli_error, 'r world, nat) op" where
  "claim_release_cmd K stream grp event_id_text =
     (if uuid_parse event_id_text = None then raise (Raised (PyE ValueError))
      else let k = lit (''stream:'' @ stream @ '':'' @ grp @ '':claim:'') @ event_id_text in
        raising (call K (\<lambda>r. (if sv_get K k r = None then 0 else 1, sv_del K k r))))"

definition processed_clear_record :: "string \<Rightarrow> string \<Rightarrow> pystr \<Rightarrow> audit_record" where
  "processed_clear_record stream grp event_id_text =
     \<lparr>ar_operation = ''stream.entry_redacted'', ar_target_schema = ''streams'', ar_target_table = ''consumer'',
      ar_target_pk = jobj [(''event_id'', JStr event_id_text)], ar_before = None, ar_after = None,
      ar_metadata = jobj [(''stream_name'', jlit stream), (''group_name'', jlit grp), (''cause'', jlit ''cli:processed_clear'')],
      ar_ingestion_run_id = None\<rparr>"

definition processed_clear_cmd ::
  "'r kv_api \<Rightarrow> (pystr \<Rightarrow> pystr \<Rightarrow> 'r \<Rightarrow> 'r) \<Rightarrow> ctx \<Rightarrow> string \<Rightarrow> string \<Rightarrow> pystr \<Rightarrow> (cli_error, 'r world, nat) op" where
  "processed_clear_cmd K srem c stream grp event_id_text =
     (if uuid_parse event_id_text = None then raise (Raised (PyE ValueError))
      else thn (raising (in_db (audit c (processed_clear_record stream grp event_id_text))))
        (let k = processed_key stream grp in
         raising (call K (\<lambda>r. (if sv_sismember K k event_id_text r then 1 else 0, srem k event_id_text r)))))"

text \<open>\<open>SREM\<close> on the server of \<open>redis_keys\<close>.\<close>

locale redis_sets = redis_keys +
  fixes srem :: "pystr \<Rightarrow> pystr \<Rightarrow> 'a \<Rightarrow> 'a"
  assumes srem_members: "members (srem k m r) = (members r)(k := members r k - {m})"
begin

lemma srem_other: "n \<noteq> m \<Longrightarrow> n \<in> members (srem k m r) l \<longleftrightarrow> n \<in> members r l"
  by (simp add: srem_members)

lemma srem_gone: "m \<notin> members (srem k m r) k"
  by (simp add: srem_members)

end

definition full_srem :: "pystr \<Rightarrow> pystr \<Rightarrow> full_redis \<Rightarrow> full_redis" where
  "full_srem k m r = r\<lparr>fr_sets := (fr_sets r)(k := fr_sets r k - {m})\<rparr>"

interpretation full_sets: redis_sets full_keys fr_strings fr_sets fr_pending full_srem
  by unfold_locales (simp add: full_srem_def)

section \<open>A cleared event\<close>

lemma raising_Inl: "raising m s = (Inl x, s') \<longleftrightarrow> (\<exists>e. x = Raised e \<and> m s = (Inl e, s'))"
  by (auto simp: raising_def split: sum.splits prod.splits)

lemma raising_state [simp]: "snd (raising m s) = snd (m s)"
  by (simp add: raising_def split: sum.splits prod.splits)

lemma call_members:
  assumes "call K f w = (res, w')"
  shows "wredis w' = wredis w \<or> wredis w' = snd (f (wredis w))"
  using assms by (auto simp: call_def split: prod.splits fault.splits)

lemma clear_audits:
  assumes "cli_ctx c0 given user host = Inr c"
  shows "in_db (audit c r) w = (Inr (), w\<lparr>wdb := (wdb w)\<lparr>audit_events := log_event (attributed_event c r) (audit_events (wdb w))\<rparr>\<rparr>) \<and>
    ev_actor_id (attributed_event c r) = cli_actor_id given user host \<and> ev_operation (attributed_event c r) = ar_operation r"
  using assms by (auto simp: in_db_def run_tx_def audit_eval cli_ctx_def Let_def attributed_event_def split: if_splits)

text \<open>C33. Clearing an event is on the record before it happens: whatever of the two services fails, a processed set that
  has changed comes with the audit row of the user who called the command. A clearing that succeeds, of an event id
  written as the consumer writes it, lets the event pass the gate again.\<close>

theorem processed_clear_audited:
  assumes "redis_sets K strings members pending srem" and "cli_ctx c0 given user host = Inr c"
    and "processed_clear_cmd K srem c stream grp t w = (res, w')"
  shows "(members (wredis w') \<noteq> members (wredis w) \<longrightarrow>
      (\<exists>ev. events (audit_events (wdb w')) = events (audit_events (wdb w)) @ [ev] \<and> ev_operation ev = ''stream.entry_redacted'' \<and>
        ev_actor_id ev = cli_actor_id given user host)) \<and>
    (res = Inr n \<and> t = uuid_str u \<and> ce_K E = K \<and> link K (wredis w') = NoFault \<longrightarrow>
      skip_if_processed E stream grp mid u w' = (Inr False, w'))"
proof -
  let ?r = "processed_clear_record stream grp t" and ?k = "processed_key stream grp"
  let ?w1 = "w\<lparr>wdb := (wdb w)\<lparr>audit_events := log_event (attributed_event c ?r) (audit_events (wdb w))\<rparr>\<rparr>"
  let ?call = "call K (\<lambda>r. (if sv_sismember K ?k t r then 1 else 0 :: nat, srem ?k t r))"
  note a = clear_audits [OF assms(2), of ?r w]
  show ?thesis
  proof (cases "uuid_parse t = None")
    case True
    then show ?thesis using assms(3) uuid_round_trip by (auto simp: processed_clear_cmd_def)
  next
    case False
    then obtain v where "uuid_parse t = Some v" by blast
    then have run: "raising ?call ?w1 = (res, w')"
      using assms(3) conjunct1 [OF a] by (simp add: processed_clear_cmd_def Let_def thn_def bnd_def raising_def)
    then have db: "wdb w' = wdb ?w1" using call_wdb [of K _ ?w1] by (auto simp: raising_def split: sum.splits prod.splits)
    have "events (audit_events (wdb w')) = events (audit_events (wdb w)) @
        [(attributed_event c ?r)\<lparr>ev_event_id := event_seq (audit_events (wdb w))\<rparr>]"
      by (simp add: db log_event_def)
    moreover have "skip_if_processed E stream grp mid u w' = (Inr False, w')"
      if "res = Inr n" "t = uuid_str u" "ce_K E = K" "link K (wredis w') = NoFault"
    proof -
      have "wredis w' = srem ?k t (wredis w)" using run that(1) by (auto simp: raising_Inr call_Inr_iff)
      then have "\<not> sv_sismember K ?k (uuid_str u) (wredis w')"
        using redis_sets.srem_gone [OF assms(1)] that(2) redis_keys.ismember [OF redis_sets.axioms(1) [OF assms(1)]] by simp
      then show ?thesis using that(3,4) by (simp add: skip_if_processed_def kv_sismember_def call_def bnd_def ret_def)
    qed
    ultimately show ?thesis using a by (auto simp: processed_clear_record_def)
  qed
qed

text \<open>The commands accept every spelling of a UUID and look for the text as it was typed: with another spelling than the
  consumer's, both succeed, the clearing leaves its audit row, and the event stays processed and claimed.\<close>

lemma odd_spelling_clears_nothing:
  assumes "redis_sets K strings members pending srem" and "cli_ctx c0 given user host = Inr c"
    and "uuid_parse t = Some u" "t \<noteq> uuid_str u" and "\<And>r. link K r = NoFault"
  shows "(\<exists>n w'. processed_clear_cmd K srem c stream grp t w = (Inr n, w') \<and>
      length (events (audit_events (wdb w'))) = Suc (length (events (audit_events (wdb w)))) \<and>
      (uuid_str u \<in> members (wredis w') (processed_key stream grp) \<longleftrightarrow> uuid_str u \<in> members (wredis w) (processed_key stream grp))) \<and>
    (\<exists>n w'. claim_release_cmd K stream grp t w = (Inr n, w') \<and>
      strings (wredis w') (claim_key stream grp u) = strings (wredis w) (claim_key stream grp u))"
proof -
  note keys = redis_sets.axioms(1) [OF assms(1)]
  have "lit (''stream:'' @ stream @ '':'' @ grp @ '':claim:'') @ t \<noteq> claim_key stream grp u" using assms(4) by (simp add: claim_key_def)
  then have claim: "strings (sv_del K (lit (''stream:'' @ stream @ '':'' @ grp @ '':claim:'') @ t) r) (claim_key stream grp u) = strings r (claim_key stream grp u)" for r
    using redis_keys.del_strings [OF keys] by simp
  have set: "uuid_str u \<in> members (srem k t r) l \<longleftrightarrow> uuid_str u \<in> members r l" for k l r
    using redis_sets.srem_other [OF assms(1)] assms(4) by metis
  show ?thesis
    using assms(5) clear_audits [OF assms(2), of "processed_clear_record stream grp t" w] assms(3) claim set
    by (simp add: processed_clear_cmd_def claim_release_cmd_def Let_def thn_def bnd_def raising_def call_def log_event_def)
qed

section \<open>A dead letter routed by hand\<close>

lemma retry_args_key [simp]: "args_key (retry_args excerpt host l) = log_key l"
  by (simp add: args_key_def retry_args_def log_key_def)

lemma same_log_key: "dl_inv d \<Longrightarrow> l \<in> set (dl_log d) \<Longrightarrow> l' \<in> set (dl_log d) \<Longrightarrow> log_key l = log_key l' \<Longrightarrow> l = l'"
  by (auto simp: dl_inv_def distinct_map inj_on_def)

lemma same_failure_id: "dl_inv d \<Longrightarrow> l \<in> set (dl_log d) \<Longrightarrow> l' \<in> set (dl_log d) \<Longrightarrow> dl_failure_id l = dl_failure_id l' \<Longrightarrow> l = l'"
  by (auto simp: dl_inv_def distinct_map inj_on_def)

lemma route_already_routed:
  assumes "dl_inv (wdb w)" "l \<in> set (dl_log (wdb w))" "log_key l = args_key a" "dl_redis_message_id l = Some rid"
  shows "route_to_deadletter R fuel loads_ok dumps c ifr env a w = (Inr (RoutingComplete rid), w\<lparr>wdb := (wdb w)\<lparr>dl_seq := dl_seq (wdb w) + 1\<rparr>\<rparr>)"
proof -
  obtain l' where l': "sql_find (\<lambda>l. log_key l = args_key a) (dl_log (wdb w)) = Some l'"
    using assms(2,3) by (cases "sql_find (\<lambda>l. log_key l = args_key a) (dl_log (wdb w))") (auto simp: sql_find_None_iff)
  then have "l' = l" using sql_find_Some_iff [OF l'] same_log_key [OF assms(1)] assms(2,3) by metis
  then have "in_db (step_1_log_insert c loads_ok dumps a) w =
      (Inr (dl_failure_id l, Some rid), w\<lparr>wdb := (wdb w)\<lparr>dl_seq := dl_seq (wdb w) + 1\<rparr>\<rparr>)"
    using l' assms(4) by (simp add: in_db_def run_tx_def step_1_log_insert_def)
  then show ?thesis by (simp add: route_to_deadletter_def bnd_def ret_def)
qed

text \<open>C34. Routing by hand keeps what is recorded: whatever the others do meanwhile, as long as they keep the invariant
  and the recorded ids, the command keeps them too; an id it reports is recorded for the failure it was called for; and
  for a failure that was already routed it is the recorded one, and Redis is left alone.\<close>

theorem retry_keeps_routed:
  assumes "dl_inv (wdb w)" and "\<And>k. world_rely (ifr k)" and "\<And>k. dl_rely (env k)"
    and "deadletter_retry_cmd R fuel loads_ok dumps excerpt c ifr env host fid w = (res, w')"
  shows "dl_inv (wdb w') \<and> dl_le (wdb w) (wdb w') \<and>
    (\<forall>rid. res = Inr (RoutingComplete rid) \<or> res = Inr (RoutingReconciledByAdoption rid) \<longrightarrow>
      (\<exists>l \<in> set (dl_log (wdb w')). dl_failure_id l = fid \<and> dl_redis_message_id l = Some rid)) \<and>
    (\<forall>l \<in> set (dl_log (wdb w)). \<forall>rid. dl_failure_id l = fid \<and> dl_redis_message_id l = Some rid \<longrightarrow>
      res = Inr (RoutingComplete rid) \<and> wredis w' = wredis (ifr 0 w))"
proof (cases "sql_find (\<lambda>l. dl_failure_id l = fid) (dl_log (wdb w))")
  case None
  then have "res = Inl ClickException" "w' = w" using assms(4) by (simp_all add: deadletter_retry_cmd_def)
  moreover have "\<forall>l \<in> set (dl_log (wdb w)). dl_failure_id l \<noteq> fid" using None unfolding sql_find_None_iff .
  ultimately show ?thesis using assms(1) by (auto simp: dl_growth.le_refl)
next
  case (Some l)
  let ?a = "retry_args excerpt host l" and ?w1 = "ifr 0 w"
  have l: "l \<in> set (dl_log (wdb w))" "dl_failure_id l = fid" using sql_find_Some_iff [OF Some] by blast+
  have w1: "dl_inv (wdb ?w1)" "dl_le (wdb w) (wdb ?w1)" using assms(1) assms(2) [of 0] unfolding world_rely_def by blast+
  obtain r where r: "route_to_deadletter R fuel loads_ok dumps c ifr env ?a ?w1 = (r, w')" "res = map_sum Raised id r"
    using assms(4) Some by (auto simp: deadletter_retry_cmd_def raising_def split: sum.splits prod.splits)
  have g: "dl_inv (wdb w') \<and> dl_le (wdb ?w1) (wdb w') \<and>
    (\<forall>rid. r = Inr (RoutingComplete rid) \<or> r = Inr (RoutingReconciledByAdoption rid) \<longrightarrow> routed (wdb w') ?a rid)"
    by (rule route_guarantee [OF w1(1) assms(2,3) r(1)])
  have le: "dl_le (wdb w) (wdb w')" using dl_growth.le_trans w1(2) g by blast
  then obtain l2 where l2: "l2 \<in> set (dl_log (wdb w'))" "dl_failure_id l2 = fid" "log_key l2 = log_key l"
    using l unfolding dl_le_def by metis
  have "\<exists>l \<in> set (dl_log (wdb w')). dl_failure_id l = fid \<and> dl_redis_message_id l = Some rid"
    if "res = Inr (RoutingComplete rid) \<or> res = Inr (RoutingReconciledByAdoption rid)" for rid
  proof -
    have "r = Inr (RoutingComplete rid) \<or> r = Inr (RoutingReconciledByAdoption rid)" using that r(2) by (cases r) auto
    then obtain l3 where l3: "l3 \<in> set (dl_log (wdb w'))" "log_key l3 = log_key l" "dl_redis_message_id l3 = Some rid"
      using g by (auto simp: routed_def)
    then have "l3 = l2" using same_log_key [OF conjunct1 [OF g]] l2 by metis
    with l2 l3 show ?thesis by blast
  qed
  moreover have "res = Inr (RoutingComplete rid) \<and> wredis w' = wredis ?w1"
    if x: "x \<in> set (dl_log (wdb w))" "dl_failure_id x = fid" "dl_redis_message_id x = Some rid" for x rid
  proof -
    have "x = l" using same_failure_id [OF assms(1) x(1) l(1)] x(2) l(2) by simp
    then obtain l1 where "l1 \<in> set (dl_log (wdb ?w1))" "log_key l1 = log_key l" "dl_redis_message_id l1 = Some rid"
      using w1(2) l(1) x(3) unfolding dl_le_def by metis
    then have "route_to_deadletter R fuel loads_ok dumps c ifr env ?a ?w1 =
        (Inr (RoutingComplete rid), ?w1\<lparr>wdb := (wdb ?w1)\<lparr>dl_seq := dl_seq (wdb ?w1) + 1\<rparr>\<rparr>)"
      by (intro route_already_routed [OF w1(1)]) simp_all
    then show ?thesis using r by auto
  qed
  ultimately show ?thesis using g le by blast
qed

section \<open>Instances\<close>

definition sample_processed :: "full_redis world" where
  "sample_processed = \<lparr>wdb = empty_db [], wredis = empty_redis\<lparr>fr_sets := (\<lambda>_. {uuid_str 9})\<rparr>\<rparr>"

lemma sample_clear:
  "\<exists>n w'. processed_clear_cmd full_keys full_srem sample_cli_ctx ''s'' ''g'' (uuid_str 9) sample_processed = (Inr n, w')"
  by (simp add: processed_clear_cmd_def Let_def uuid_round_trip thn_def bnd_def raising_def call_def full_keys_def in_db_def run_tx_def audit_eval
      sample_cli_ctx_def)

theorem processed_clear_audited_witness:
  "\<exists>n w'. processed_clear_cmd full_keys full_srem sample_cli_ctx ''s'' ''g'' (uuid_str 9) sample_processed = (Inr n, w') \<and>
     skip_if_processed sample_consumer_env ''s'' ''g'' (Rid 1 0) 9 w' = (Inr False, w')"
proof -
  obtain n w' where run: "processed_clear_cmd full_keys full_srem sample_cli_ctx ''s'' ''g'' (uuid_str 9) sample_processed = (Inr n, w')"
    using sample_clear by blast
  have "ce_K sample_consumer_env = full_keys" "link full_keys (wredis w') = NoFault"
    by (simp_all add: sample_consumer_env_def full_keys_def)
  then show ?thesis
    using processed_clear_audited [OF full_sets.redis_sets_axioms sample_cli_actor run, of n 9 sample_consumer_env "Rid 1 0"] run by blast
qed

lemma sample_odd_spelling: "uuid_parse (lit ''00000000000000000000000000000009'') = Some 9"
  by (simp add: uuid_parse_def strip_chars_def py_int16_def int_text_def strip_by_def int_space_def int_ascii_def hex_prefixed_def hex_val_def)

lemma odd_spelling_clears_nothing_witness:
  "\<exists>n w'. processed_clear_cmd full_keys full_srem sample_cli_ctx ''s'' ''g'' (lit ''00000000000000000000000000000009'') sample_processed = (Inr n, w') \<and>
     uuid_str 9 \<in> fr_sets (wredis w') (processed_key ''s'' ''g'')"
proof -
  have "lit ''00000000000000000000000000000009'' \<noteq> uuid_str 9"
  proof
    assume "lit ''00000000000000000000000000000009'' = uuid_str 9"
    then have "45 \<in> set (lit ''00000000000000000000000000000009'')" by (simp add: uuid_str_def Let_def)
    then show False by simp
  qed
  moreover have "uuid_str 9 \<in> fr_sets (wredis sample_processed) (processed_key ''s'' ''g'')" by (simp add: sample_processed_def)
  moreover have "link full_keys r = NoFault" for r by (simp add: full_keys_def)
  ultimately show ?thesis
    using odd_spelling_clears_nothing [OF full_sets.redis_sets_axioms sample_cli_actor sample_odd_spelling] by blast
qed

definition routed_world :: "mem_server world" where
  "routed_world = \<lparr>wdb = (empty_db [''kap''])\<lparr>
      dl_log := [(new_log_row sample_ctx (\<lambda>_. True) id sample_args 1)\<lparr>dl_routed_at_redis := Some 5, dl_redis_message_id := Some (Rid 1 0)\<rparr>],
      dl_seq := 2, dl_index := [\<lparr>ix_failure_id = 1, ix_redis_message_id = Rid 1 0\<rparr>]\<rparr>, wredis = mem_empty\<rparr>"

theorem retry_keeps_routed_witness:
  "\<exists>w'. deadletter_retry_cmd mem_api 5 (\<lambda>_. True) id id sample_cli_ctx (\<lambda>_ w. w) (\<lambda>_ d. d) ''b'' 1 routed_world =
     (Inr (RoutingComplete (Rid 1 0)), w') \<and> wredis w' = mem_empty"
proof -
  have inv: "dl_inv (wdb routed_world)"
    by (simp add: routed_world_def empty_db_def dl_inv_def new_log_row_def index_of_def)
  obtain res w' where run: "deadletter_retry_cmd mem_api 5 (\<lambda>_. True) id id sample_cli_ctx (\<lambda>_ w. w) (\<lambda>_ d. d) ''b'' 1 routed_world = (res, w')"
    by fastforce
  show ?thesis
    using retry_keeps_routed [OF inv id_rely run] run by (simp add: routed_world_def new_log_row_def)
qed

end
