(* ===== verification/Spec2Isabelle.thy ===== *)
theory Spec2Isabelle
  imports Consumer_Delivery Outbox_Drainer Stream_Producer Janitor_Recovery Watermarks Ingestion_Run Registry_Create Ts_Series Doc_Chain Api_Sessions Entity_History Cli_Streams
begin

text \<open>
  \<^bold>\<open>Verification of aslan-core.\<close> The program is a data platform for financial filings and series on
  PostgreSQL (Timescale) and Redis. An ingestion run (\<open>ingestion/run.py\<close>) writes entities
  (\<open>registry\<close>), series and observations (\<open>timeseries\<close>) and events. Events go to an outbox table in the
  writer's transaction (\<open>streams/producer.py\<close>), a drainer sends them to Redis streams, consumers read
  them, and what cannot be processed is routed to dead-letter streams, which a janitor repairs. Filings go
  to a document store with their bytes in an object store (\<open>documents\<close>). The research API reads entities,
  observations and events as they were known at a point in time (\<open>api\<close>).
  Every mutation leaves a row in an append-only audit trail that names its actor. Personal data is
  redacted by a registry the consumer consults, and kept out of series metadata by guards.

  \<^bold>\<open>Ground.\<close>
  \<^item> \<open>Prelude\<close>: computations with state and errors (\<open>op\<close>), SQL statement forms on tables held as lists of
    rows, the locales \<open>growth\<close> (orders in which a state only grows) and \<open>first_writer_table\<close>.
  \<^item> \<open>Py_Values\<close>, \<open>Py_Json\<close>, \<open>Py_Utf8\<close>, \<open>Uuid_Text\<close>: Python strings, \<open>int(s)\<close>, JSON values and their equality,
    UTF-8, UUID texts, with their round trips. A \<open>float\<close> is its 64 bits.
  \<^item> \<open>Errors\<close>: the classes of \<open>errors.py\<close> and the built-in and service exceptions.
  \<^item> \<open>Database\<close>: one record per table (\<open>models\<close>, migrations), the database as a record of tables, and
    \<open>audited_mutation\<close>, the contract of every mutation: strict mode refuses a call without an actor before
    anything happens, and the trail only grows. It is interpreted on the watermark, registry, series
    and observation operations.

  \<^bold>\<open>Components.\<close>
  \<^item> \<open>Audit_Trail\<close> (\<open>audit/context.py\<close>, \<open>audit/recorder.py\<close>).
  \<^item> \<open>Redis_Ids\<close>, \<open>Redis_Service\<close>, \<open>Redis_Keys\<close>: ids of stream entries, and the Redis commands the code calls as
    parameters with their documented laws (locales \<open>redis_streams\<close>, \<open>redis_keys\<close>), interpreted on an
    in-memory server.
  \<^item> \<open>Stream_Events\<close> (\<open>streams/names.py\<close>, \<open>events.py\<close>, \<open>pii.py\<close>), \<open>Stream_Producer\<close> (\<open>producer.py\<close>),
    \<open>Outbox_Drainer\<close> (\<open>outbox_drainer.py\<close>), \<open>Redaction\<close> (\<open>redaction.py\<close>), \<open>Consumer\<close> and \<open>Consumer_Delivery\<close>
    (\<open>consumer.py\<close>): publishing is all or nothing, every copy sent to Redis is indexed or has its failed
    reconciliation on the log, whichever statement or Redis call fails, a redacted event is delivered in its redacted form only, and acknowledged, claimed and unparsable
    messages are treated as promised, but for a consumer that overlaps an acknowledgement.
  \<^item> \<open>Deadletter\<close>, \<open>Deadletter_Protocol\<close> (\<open>deadletter.py\<close>), \<open>Janitor\<close>, \<open>Janitor_Recovery\<close> (\<open>janitor.py\<close>,
    \<open>heartbeat.py\<close>): the routing protocol under interference as a rely-guarantee argument, its recovery with
    other workers between the statements of every transaction, and the runs in which janitor and workers
    together lose an entry or record another id than the index has.
  \<^item> \<open>Watermarks\<close>, \<open>Ingestion_Run\<close> (\<open>ingestion\<close>): compare-and-set refined by \<open>advance\<close>, and the run row that is
    closed, however the body ends, with the counters and the audit trail of the handle's calls, unless the closing itself
    fails.
  \<^item> \<open>Registry\<close>, \<open>Registry_Graph\<close>, \<open>Registry_Laws\<close>, \<open>Registry_Create\<close> (\<open>registry/client.py\<close>, \<open>normalizers.py\<close>,
    \<open>schemas/entity.py\<close>): constraints over any sequence of calls, what an addition or expiry does to
    resolution, idempotent creation of what has an identifier.
  \<^item> \<open>Ts_Pii\<close> (\<open>timeseries/pii.py\<close>): the scan for personal data, and the scrub that replaces exactly the spans found.
  \<^item> \<open>Ts_Payload\<close> (\<open>schemas/timeseries.py\<close>): the payload hash down to its bytes, which determine the payload.
  \<^item> \<open>Ts_Write\<close>, \<open>Ts_Series\<close> (\<open>timeseries/writer.py\<close>): a write appends exactly the new observations and leaves
    its forensic record; a series with observations keeps its identity; an identifying series can be
    found by its subjects and holds no personal data elsewhere.
  \<^item> \<open>Ts_Read\<close> (\<open>timeseries/reader.py\<close>): the reads at a point in time against a reference definition, and their
    stability under later writes.
  \<^item> \<open>Pg_Types\<close>, \<open>Object_Storage\<close>, \<open>Doc_Store\<close>, \<open>Doc_Blobs\<close>, \<open>Doc_Success\<close>, \<open>Doc_Laws\<close>, \<open>Doc_Chain\<close>
    (\<open>documents/client.py\<close>, \<open>object_storage.py\<close>, \<open>schemas/filing.py\<close>): a call of \<open>put_filing\<close> that raises leaves the
    objects as they were, rows have their blobs whatever fails and blobs their rows when deletes succeed, \<open>release\<close>
    undoes a call up to blobs whose delete failed, new bytes extend the revision chain of their reference, and the same bytes under another reference become an alias.
  \<^item> \<open>Api_Http\<close>, \<open>Api_Sessions\<close> (\<open>api/research_logging.py\<close>, \<open>middleware.py\<close>, \<open>api/auth.py\<close>, \<open>deps.py\<close>, \<open>routes/auth.py\<close>): which
    errors are answered by problem documents; a family of refresh tokens has one live token and a replay revokes it, as long as requests
    do not overlap.
  \<^item> \<open>Research_Gate\<close>, \<open>Research_Cursor\<close> (\<open>api/research_auth.py\<close>, \<open>research_observability.py\<close>): who is let in, the cap of a
    rate window whatever the flags say, the time to wait, page cursors down to their base64 text.
  \<^item> \<open>Research_Read\<close>, \<open>Research_Laws\<close> (\<open>api/routes/research.py\<close>, \<open>research_envelope.py\<close>): the routes \<open>/observations\<close> and
    \<open>/events\<close> agree with the library's reader, redact the top-level personal fields, and what caches and cursors make of them.
  \<^item> \<open>Entity_History\<close> (migrations 0046, 0047, 0051, the route \<open>/entities/{entity_id}\<close>): the locale \<open>version_table\<close> is the law
    of a read at a point in time, interpreted on \<open>entity_at\<close> and \<open>disclosures_at\<close>; the route replays the entity
    table, except for deletions, the second change of a transaction, and changes by a transaction that started before
    the one it follows.
  \<^item> \<open>Cli_Ts\<close>, \<open>Cli_Streams\<close> (\<open>cli/ts.py\<close>, \<open>cli/streams.py\<close>, \<open>cli/main.py\<close>): commands are the operations above put
    together: a bulk write from a file is all or nothing, leaves its run and is read back; a cleared event is on the
    record; a dead letter routed by hand keeps what is recorded.
  \<^item> This theory: the way of an event from the producer's row to the consumer's parser.

  \<^bold>\<open>State and interleaving.\<close> An operation is a function from the database it sees to a result and the next
  database; a raise keeps the rows written so far and \<open>run_tx\<close> undoes them. Where the code's statements
  can interleave with other workers and it matters (routing, janitor, drainer, consumer, creation of a
  series), functions stand for what the others do between two statements, and the theorems state what
  they rely on. Sections under an advisory lock run in one step. Of requests to the API the tables are what
  they find and what they leave; a second request between two statements is such a function too.

  \<^bold>\<open>Fuel.\<close> Three loops have a bound: the paginated orphan scan, the routing retry and the daemons' rounds.
  \<open>orphan_scan_complete\<close> shows that as many pages as the stream has entries suffice; a routing that has not
  ended reports \<open>OutOfFuel\<close>, which is no result of the program; the daemons are shown for every number of
  rounds.

  \<^bold>\<open>Parameters.\<close> Redis and its clock; SHA-256; \<open>json.dumps\<close> and \<open>json.loads\<close>; Unicode normalization, case
  mapping and the two regular expressions for personal data; \<open>isoformat\<close>; pydantic's validation of event
  payloads; \<open>gen_random_uuid\<close> and \<open>uuid4\<close>; the database's collation and \<open>jsonb\<close> concatenation; the order in which
  Python iterates over a set and in which rows come that ORDER BY leaves equal; the S3 commands; the JWT library,
  bcrypt and argon2; \<open>datetime.fromisoformat\<close>, \<open>float\<close>, the reader of CSV text and the UTF-8 decoder behind cursors. What a theorem needs of them is
  among its hypotheses.

  \<^bold>\<open>Not modelled.\<close> The aggregation helpers, the query layer and the API routes over it, the other list routes of
  the research API (the same steps over other tables), its audit middleware, the dashboard and the other commands
  (mostly SQL text, request handling and rendering over the modelled operations); metrics, tracing and Sentry;
  engines, settings and migrations, whose constraints stand in the table operations; test support.
\<close>

section \<open>From the producer to the consumer\<close>

text \<open>C37. The fields an outbox row is sent with carry the event to the consumer: if JSON text of
  the stored payload reads back as it was and pydantic accepts its own dump, the consumer parses
  exactly the event the producer stored; and the event id is read off the entry by the
  consumer's error path and by the reconciler alike.\<close>

theorem drained_event_parses:
  assumes "ce_loads E (dumps (model_dump fmt e)) = Some (model_dump fmt e)"
    and "ce_validate E (model_dump fmt e) = Some e"
  shows "\<exists>f. xadd_fields dumps pystr_of (outbox_row fmt c oid e stream) = Inr f \<and>
    parse_or_raise E stream f = Inr e \<and> field_event_id f = Some (se_event_id e) \<and>
    entry_event_id f = Some (uuid_str (se_event_id e))"
proof -
  obtain kvs where kvs: "model_dump fmt e = JObj kvs" by (auto simp: model_dump_def jobj_def)
  show ?thesis
    using assms unfolding kvs
    by (simp add: xadd_fields_def outbox_row_def kvs parse_or_raise_def field_event_id_def safe_uuid_def
        entry_event_id_def uuid_round_trip)
qed

theorem drained_event_parses_witness:
  "\<exists>f. xadd_fields (\<lambda>_. [1]) (\<lambda>_. []) (outbox_row (\<lambda>_. []) sample_ctx 1 (sample_event 9) ''s'') = Inr f \<and>
    parse_or_raise (sample_consumer_env\<lparr>ce_loads := \<lambda>_. Some (model_dump (\<lambda>_. []) (sample_event 9)),
        ce_validate := \<lambda>_. Some (sample_event 9)\<rparr>) ''s'' f = Inr (sample_event 9)"
  using drained_event_parses [of "sample_consumer_env\<lparr>ce_loads := \<lambda>_. Some (model_dump (\<lambda>_. []) (sample_event 9)),
        ce_validate := \<lambda>_. Some (sample_event 9)\<rparr>" "\<lambda>_. [1]" "\<lambda>_. []" "sample_event 9" "\<lambda>_. []" sample_ctx 1 "''s''"]
  by auto

end
